(* ===== verification/VM_Prelude.thy ===== *)
theory VM_Prelude
  imports Main "HOL-Library.Word" "HOL-Library.Monad_Syntax"
begin

text \<open>
  The shared vocabulary of the development: the machine integers the header uses, the
  little-endian byte order of the x86-64 targets, and the memory of the process that the
  library is injected into.

  Memory is a partial map from 64-bit addresses to bytes. A raw dereference of an address
  that is not mapped is an access violation, so every operation that dereferences a raw
  pointer returns an \<open>option\<close>: \<open>None\<close> is the fault (the process would take SIGSEGV or an
  SEH access violation) and \<open>Some r\<close> is the ordinary return value \<open>r\<close>. C++ null pointers
  are the address \<open>0\<close>; they are values, not faults.
\<close>

unbundle bit_operations_syntax

type_synonym u8 = "8 word"
type_synonym u16 = "16 word"
type_synonym u32 = "32 word"
type_synonym u64 = "64 word"
type_synonym addr = "64 word"
type_synonym mem = "addr \<Rightarrow> u8 option"

named_theorems mem_simps \<open>how loads see stores\<close>
named_theorems ptr_simps \<open>unfolding of the pointer predicates on concrete addresses\<close>

lemma unat_lt64: "unat (x :: u64) < 18446744073709551616"
proof -
  have "unat x < 2 ^ LENGTH(64)" by (rule unsigned_less)
  then show ?thesis by simp
qed

lemma unat_lt32: "unat (x :: u32) < 4294967296"
proof -
  have "unat x < 2 ^ LENGTH(32)" by (rule unsigned_less)
  then show ?thesis by simp
qed

lemma unat_lt8: "unat (x :: u8) < 256"
proof -
  have "unat x < 2 ^ LENGTH(8)" by (rule unsigned_less)
  then show ?thesis by simp
qed

lemma unat_drop_bit64: "unat (drop_bit n (x :: u64)) = unat x div 2 ^ n"
proof -
  have "unat (drop_bit n x) = drop_bit n (take_bit LENGTH(64) (unat x))"
    by (rule unsigned_drop_bit_eq)
  then show ?thesis by (simp add: drop_bit_eq_div take_bit_nat_eq_self unat_lt64)
qed

lemma unat_push_bit64: "unat (push_bit n (x :: u64)) = (unat x * 2 ^ n) mod 2 ^ 64"
proof -
  have "unat (push_bit n x) = take_bit LENGTH(64) (push_bit n (unat x))"
    by (rule unsigned_push_bit_eq)
  then show ?thesis by (simp add: push_bit_eq_mult take_bit_eq_mod)
qed

lemma unat_ucast_up: "LENGTH('a) \<le> LENGTH('b) \<Longrightarrow> unat (ucast (x :: 'a::len word) :: 'b::len word) = unat x"
  by (simp add: unsigned_ucast_eq take_bit_nat_eq_self order_less_le_trans [OF unsigned_less])

text \<open>Rounding an address down to a power of two.\<close>

lemma unat_page_floor: "unat ((v :: u64) AND NOT (2 ^ k - 1)) = unat v div 2 ^ k * 2 ^ k"
proof -
  have "v AND NOT (2 ^ k - 1) = push_bit k (drop_bit k v)"
    unfolding mask_eq_exp_minus_1 [symmetric]
    by (rule bit_word_eqI) (auto simp: bit_simps)
  moreover have "unat v div 2 ^ k * 2 ^ k < 18446744073709551616"
    by (rule order_le_less_trans [OF div_times_less_eq_dividend unat_lt64])
  then have "unat v div 2 ^ k * 2 ^ k < 2 ^ 64" by simp
  ultimately show ?thesis by (simp only: unat_push_bit64 unat_drop_bit64 mod_less)
qed

lemma unat_pow2: "k < 64 \<Longrightarrow> unat (2 ^ k :: u64) = 2 ^ k"
proof -
  assume k: "k < 64"
  have "unat (push_bit k 1 :: u64) = 2 ^ k mod 2 ^ 64" by (simp only: unat_push_bit64) simp
  moreover have "(2 :: nat) ^ k < 2 ^ 64" using k by (intro power_strict_increasing) simp_all
  ultimately show ?thesis by (simp add: push_bit_of_1)
qed

section \<open>Little-endian byte order\<close>

fun word_of_le :: "u8 list \<Rightarrow> 'a::len word" where
  "word_of_le [] = 0"
| "word_of_le (b # bs) = ucast b OR push_bit 8 (word_of_le bs)"

fun le_of_word :: "nat \<Rightarrow> 'a::len word \<Rightarrow> u8 list" where
  "le_of_word 0 w = []"
| "le_of_word (Suc n) w = ucast w # le_of_word n (drop_bit 8 w)"

lemma length_le_of_word [simp]: "length (le_of_word n w) = n"
  by (induction n arbitrary: w) auto

lemma word_of_le_of_word_take:
  "word_of_le (le_of_word n w) = take_bit (8 * n) (w :: 'a::len word)"
proof (induction n arbitrary: w)
  case 0
  then show ?case by simp
next
  case (Suc n)
  show ?case
    by (rule bit_word_eqI) (auto simp: Suc bit_simps)
qed

lemma word_of_le_of_word_cast:
  "(word_of_le (le_of_word n (w :: 'a::len word)) :: 'b::len word) = ucast (take_bit (8 * n) w)"
proof (induction n arbitrary: w)
  case 0
  then show ?case by simp
next
  case (Suc n)
  show ?case
    by (rule bit_word_eqI) (auto simp: Suc bit_simps)
qed

lemma word_of_le_of_word:
  "LENGTH('a) \<le> 8 * n \<Longrightarrow> word_of_le (le_of_word n w) = (w :: 'a::len word)"
  by (simp add: word_of_le_of_word_take take_bit_word_eq_self)

lemma bit_word_of_le: "bit (word_of_le cs :: 'a::len word) k \<Longrightarrow> k < 8 * length cs"
  by (induction cs arbitrary: k) (force simp: bit_simps dest: bit_imp_le_length)+

lemma le_of_word_of_le:
  "8 * length bs \<le> LENGTH('a) \<Longrightarrow> le_of_word (length bs) (word_of_le bs :: 'a::len word) = bs"
proof (induction bs)
  case Nil
  then show ?case by simp
next
  case (Cons b bs)
  have 1: "ucast (ucast b OR push_bit 8 (word_of_le bs :: 'a word)) = b"
    using Cons.prems by (intro bit_word_eqI) (auto simp: bit_simps)
  have small: "\<not> bit (word_of_le bs :: 'a word) k" if "8 * length bs \<le> k" for k
    using bit_word_of_le [of bs k] that by auto
  have "drop_bit 8 (ucast b OR push_bit 8 (word_of_le bs)) = (word_of_le bs :: 'a word)"
    using Cons.prems
    by (intro bit_word_eqI) (auto simp: bit_simps small dest: bit_imp_le_length)
  with 1 Cons show ?case by simp
qed

section \<open>Loads and stores\<close>

fun load_bytes :: "mem \<Rightarrow> addr \<Rightarrow> nat \<Rightarrow> u8 list option" where
  "load_bytes m a 0 = Some []"
| "load_bytes m a (Suc n) = do { b \<leftarrow> m a; bs \<leftarrow> load_bytes m (a + 1) n; Some (b # bs) }"

fun store_bytes :: "mem \<Rightarrow> addr \<Rightarrow> u8 list \<Rightarrow> mem option" where
  "store_bytes m a [] = Some m"
| "store_bytes m a (b # bs) = (if m a = None then None else store_bytes (m(a \<mapsto> b)) (a + 1) bs)"

definition load_le :: "nat \<Rightarrow> mem \<Rightarrow> addr \<Rightarrow> 'a::len word option" where
  "load_le n m a = map_option word_of_le (load_bytes m a n)"

definition store_le :: "nat \<Rightarrow> mem \<Rightarrow> addr \<Rightarrow> 'a::len word \<Rightarrow> mem option" where
  "store_le n m a v = store_bytes m a (le_of_word n v)"

abbreviation load8 :: "mem \<Rightarrow> addr \<Rightarrow> u8 option" where "load8 \<equiv> load_le 1"
abbreviation load16 :: "mem \<Rightarrow> addr \<Rightarrow> u16 option" where "load16 \<equiv> load_le 2"
abbreviation load32 :: "mem \<Rightarrow> addr \<Rightarrow> u32 option" where "load32 \<equiv> load_le 4"
abbreviation load64 :: "mem \<Rightarrow> addr \<Rightarrow> u64 option" where "load64 \<equiv> load_le 8"
abbreviation store8 :: "mem \<Rightarrow> addr \<Rightarrow> u8 \<Rightarrow> mem option" where "store8 \<equiv> store_le 1"
abbreviation store16 :: "mem \<Rightarrow> addr \<Rightarrow> u16 \<Rightarrow> mem option" where "store16 \<equiv> store_le 2"
abbreviation store32 :: "mem \<Rightarrow> addr \<Rightarrow> u32 \<Rightarrow> mem option" where "store32 \<equiv> store_le 4"
abbreviation store64 :: "mem \<Rightarrow> addr \<Rightarrow> u64 \<Rightarrow> mem option" where "store64 \<equiv> store_le 8"

text \<open>
  \<open>put a bs m\<close> is the memory after the bytes \<open>bs\<close> were written at \<open>a\<close>; \<open>mapped m a n\<close> says
  that the \<open>n\<close> bytes at \<open>a\<close> can be accessed; \<open>apart a n b k\<close> says that the \<open>n\<close> bytes at \<open>a\<close>
  and the \<open>k\<close> bytes at \<open>b\<close> do not overlap, with addresses wrapping as pointers do.
\<close>

definition put :: "addr \<Rightarrow> u8 list \<Rightarrow> mem \<Rightarrow> mem" where
  "put a bs m = (\<lambda>x. if unat (x - a) < length bs then Some (bs ! unat (x - a)) else m x)"

definition mapped :: "mem \<Rightarrow> addr \<Rightarrow> nat \<Rightarrow> bool" where
  "mapped m a n \<longleftrightarrow> (\<forall>i < n. m (a + of_nat i) \<noteq> None)"

definition apart :: "addr \<Rightarrow> nat \<Rightarrow> addr \<Rightarrow> nat \<Rightarrow> bool" where
  "apart a n b k \<longleftrightarrow> n \<le> unat (b - a) \<and> k \<le> unat (a - b)"

lemma unat_diff_step: "(x :: addr) \<noteq> a \<Longrightarrow> unat (x - a) = Suc (unat (x - (a + 1)))"
  using unat_minus_one [of "x - a"] unat_gt_0 [of "x - a"] by (simp add: diff_diff_eq)

lemma mapped_0 [simp]: "mapped m a 0"
  by (simp add: mapped_def)

lemma mapped_Suc: "mapped m a (Suc n) \<longleftrightarrow> m a \<noteq> None \<and> mapped m (a + 1) n"
  unfolding mapped_def by (auto simp: less_Suc_eq_0_disj ac_simps)

lemma mapped_le: "mapped m a n \<Longrightarrow> k \<le> n \<Longrightarrow> mapped m a k"
  by (auto simp: mapped_def)

lemma mapped_add: "mapped m a n \<Longrightarrow> i + k \<le> n \<Longrightarrow> mapped m (a + of_nat i) k"
  unfolding mapped_def
  by (metis (no_types, opaque_lifting) add.assoc add_less_cancel_left less_le_trans of_nat_add)

lemma mapped_put [simp]: "mapped m b k \<Longrightarrow> mapped (put a bs m) b k"
  by (auto simp: mapped_def put_def)

lemma put_Nil [simp]: "put a [] m = m"
  by (simp add: put_def)

lemma put_Cons: "length bs < 2 ^ 64 \<Longrightarrow> put a (b # bs) m = put (a + 1) bs (m(a \<mapsto> b))"
proof (rule ext)
  fix x
  assume len: "length bs < 2 ^ 64"
  have "unat (a - (a + 1)) = 2 ^ 64 - 1"
    by (simp add: unsigned_minus_1_eq_mask mask_eq_exp_minus_1)
  with len show "put a (b # bs) m x = put (a + 1) bs (m(a \<mapsto> b)) x"
    by (cases "x = a") (auto simp: put_def unat_diff_step)
qed

lemma mapped_upd: "mapped m b k \<Longrightarrow> mapped (m(a \<mapsto> v)) b k"
  by (auto simp: mapped_def)

lemma mapped_upd_iff: "m a \<noteq> None \<Longrightarrow> mapped (m(a \<mapsto> v)) b k = mapped m b k"
  by (auto simp: mapped_def)

lemma store_bytes_put:
  "length bs \<le> 2 ^ 64 \<Longrightarrow>
     store_bytes m a bs = (if mapped m a (length bs) then Some (put a bs m) else None)"
proof (induction bs arbitrary: m a)
  case Nil
  then show ?case by simp
next
  case (Cons b bs)
  then show ?case
    by (auto simp: mapped_Suc put_Cons mapped_upd_iff)
qed

lemma store_le_put:
  "n \<le> 2 ^ 64 \<Longrightarrow>
     store_le n m a v = (if mapped m a n then Some (put a (le_of_word n v) m) else None)"
  by (simp add: store_le_def store_bytes_put)

lemma load_bytes_length: "load_bytes m a n = Some bs \<Longrightarrow> length bs = n"
  by (induction n arbitrary: a bs) (auto split: bind_splits)

lemma load_bytes_mapped: "(\<exists>bs. load_bytes m a n = Some bs) = mapped m a n"
proof (induction n arbitrary: a)
  case (Suc n)
  show ?case
    by (cases "m a"; cases "load_bytes m (a + 1) n") (use Suc [of "a + 1"] in \<open>auto simp: mapped_Suc\<close>)
qed simp

lemma load_bytes_nth:
  "load_bytes m a n = Some bs \<Longrightarrow> i < n \<Longrightarrow> m (a + of_nat i) = Some (bs ! i)"
proof (induction n arbitrary: a bs i)
  case 0
  then show ?case by simp
next
  case (Suc n)
  then show ?case
    by (cases i) (force split: bind_splits simp: ac_simps)+
qed

lemma load_bytes_cong:
  "(\<And>i. i < n \<Longrightarrow> m (a + of_nat i) = m' (b + of_nat i)) \<Longrightarrow> load_bytes m a n = load_bytes m' b n"
proof (induction n arbitrary: a b)
  case 0
  then show ?case by simp
next
  case (Suc n)
  have "m a = m' b" using Suc.prems [of 0] by simp
  moreover have "load_bytes m (a + 1) n = load_bytes m' (b + 1) n"
  proof (rule Suc.IH)
    fix i
    assume "i < n"
    then show "m (a + 1 + of_nat i) = m' (b + 1 + of_nat i)"
      using Suc.prems [of "Suc i"] by (simp add: ac_simps)
  qed
  ultimately show ?case by simp
qed

lemma load_bytes_Some_iff:
  "load_bytes m a n = Some bs \<longleftrightarrow> length bs = n \<and> (\<forall>i < n. m (a + of_nat i) = Some (bs ! i))"
proof
  assume r: "length bs = n \<and> (\<forall>i < n. m (a + of_nat i) = Some (bs ! i))"
  then have "mapped m a n" by (simp add: mapped_def)
  then obtain cs where cs: "load_bytes m a n = Some cs"
    by (auto simp flip: load_bytes_mapped)
  have "cs ! i = bs ! i" if "i < n" for i
    using load_bytes_nth [OF cs that] r that by simp
  with r cs have "cs = bs"
    by (intro nth_equalityI) (auto dest: load_bytes_length)
  with cs show "load_bytes m a n = Some bs" by simp
qed (auto dest: load_bytes_length load_bytes_nth)

lemma load_bytes_split:
  "load_bytes m a (n + k) = do { x \<leftarrow> load_bytes m a n; y \<leftarrow> load_bytes m (a + of_nat n) k; Some (x @ y) }"
  by (induction n arbitrary: a) (auto simp: ac_simps split: bind_splits)

lemma load_bytes_inside:
  "load_bytes m a k = Some bs \<Longrightarrow> i + n \<le> k \<Longrightarrow> load_bytes m (a + of_nat i) n = Some (take n (drop i bs))"
proof -
  assume l: "load_bytes m a k = Some bs" and le: "i + n \<le> k"
  then have "length bs = k" by (auto dest: load_bytes_length)
  with l le show ?thesis
    by (auto simp: load_bytes_Some_iff) (metis add.assoc less_le_trans nat_add_left_cancel_less of_nat_add)
qed

lemma mapped_of_load: "load_bytes m a n = Some bs \<Longrightarrow> mapped m a n"
  by (auto simp flip: load_bytes_mapped)

text \<open>\<open>holds m data pos bs\<close>: the bytes \<open>bs\<close> stand at offset \<open>pos\<close> of \<open>data\<close>.\<close>

definition holds :: "mem \<Rightarrow> addr \<Rightarrow> nat \<Rightarrow> u8 list \<Rightarrow> bool" where
  "holds m data pos bs \<longleftrightarrow> load_bytes m (data + of_nat pos) (length bs) = Some bs"

lemma holds_append:
  "holds m data pos (xs @ ys) \<longleftrightarrow> holds m data pos xs \<and> holds m data (pos + length xs) ys"
  by (auto simp: holds_def load_bytes_split add.assoc split: bind_splits dest: load_bytes_length)

lemma load_bytes_put_same:
  "length bs \<le> 2 ^ 64 \<Longrightarrow> load_bytes (put a bs m) a (length bs) = Some bs"
  by (auto simp: load_bytes_Some_iff put_def unat_of_nat take_bit_nat_eq_self)

lemma mapped_put_same: "length bs \<le> 2 ^ 64 \<Longrightarrow> mapped (put a bs m) a (length bs)"
  using load_bytes_put_same [of bs a m] by (auto simp flip: load_bytes_mapped)

lemma apart_offset:
  "apart a n b k \<Longrightarrow> i < k \<Longrightarrow> n \<le> unat (b + of_nat i - a)"
proof -
  assume ap: "apart a n b k" and i: "i < k"
  define d where "d = b - a"
  have nd: "n \<le> unat d" and kd: "k \<le> unat (- d)"
    using ap by (auto simp: apart_def d_def)
  have "d \<noteq> 0 \<Longrightarrow> unat (- d) + unat d = 2 ^ 64"
    using unat_plus_if' [of "- d" d] unat_gt_0 [of d] by (auto split: if_splits)
  with kd i have "i + unat d < 2 ^ 64" by (cases "d = 0") auto
  then have "unat (d + of_nat i) = unat d + i"
    by (simp add: unat_word_ariths unat_of_nat take_bit_nat_eq_self)
  with nd show ?thesis by (simp add: d_def algebra_simps)
qed

lemma load_bytes_put_apart:
  "apart a (length bs) b k \<Longrightarrow> load_bytes (put a bs m) b k = load_bytes m b k"
  by (rule load_bytes_cong) (use apart_offset in \<open>force simp: put_def\<close>)

lemma load_bytes_put_inner:
  assumes "i + n \<le> length bs" and "length bs \<le> 2 ^ 64"
  shows "load_bytes (put a bs m) (a + of_nat i) n = Some (take n (drop i bs))"
proof -
  have "put a bs m (a + of_nat i + of_nat k) = Some (take n (drop i bs) ! k)" if "k < n" for k
  proof -
    have "i + k < 2 ^ 64" using assms that by linarith
    then have "unat (of_nat (i + k) :: addr) = i + k"
      by (simp add: unat_of_nat take_bit_nat_eq_self del: of_nat_add)
    moreover have "a + of_nat i + of_nat k - a = of_nat (i + k)" by simp
    ultimately show ?thesis using assms that by (simp add: put_def)
  qed
  then show ?thesis using assms by (simp add: load_bytes_Some_iff)
qed

lemma apart_sym: "apart a n b k \<Longrightarrow> apart b k a n"
  by (auto simp: apart_def)

lemma apart_sub:
  assumes "apart a n b k" and "i + n' \<le> n" and "0 < n'"
  shows "apart (a + of_nat i) n' b k"
proof -
  define d where "d = b - a"
  have d: "n \<le> unat d" "k \<le> unat (- d)"
    using assms(1) by (auto simp: apart_def d_def)
  have i: "i < unat d" using d(1) assms(2,3) by linarith
  then have io: "unat (of_nat i :: addr) = i"
    using unat_lt64 [of d] by (simp add: unat_of_nat take_bit_nat_eq_self)
  have di: "unat (d - of_nat i) = unat d - i"
    using i io by (simp add: unat_sub word_le_nat_alt)
  have neg: "unat (- x) = 2 ^ 64 - unat x" if "x \<noteq> 0" for x :: addr
    using unat_plus_if' [of "- x" x] unat_gt_0 [of x] that by (auto split: if_splits)
  have "d \<noteq> 0" "d - of_nat i \<noteq> 0" using i io by auto
  then have "unat (- (d - of_nat i)) = 2 ^ 64 - (unat d - i)" "unat (- d) = 2 ^ 64 - unat d"
    using neg [of "d - of_nat i"] neg [of d] di by simp_all
  then have "k \<le> unat (- (d - of_nat i))" using d(2) by linarith
  moreover have "n' \<le> unat (d - of_nat i)" using d(1) assms(2) di by linarith
  moreover have e: "b - (a + of_nat i) = d - of_nat i" "a + of_nat i - b = - (d - of_nat i)"
    by (simp_all add: d_def)
  ultimately show ?thesis unfolding apart_def e by blast
qed

lemma apart_sub_right: "apart b k a n \<Longrightarrow> i + n' \<le> n \<Longrightarrow> 0 < n' \<Longrightarrow> apart b k (a + of_nat i) n'"
  by (rule apart_sym, rule apart_sub [OF apart_sym])

lemma load_le_Some_iff:
  "load_le n m a = Some v \<longleftrightarrow> (\<exists>bs. load_bytes m a n = Some bs \<and> v = word_of_le bs)"
  by (auto simp: load_le_def)

lemma load_le_None_iff: "load_le n m a = None \<longleftrightarrow> \<not> mapped m a n"
  by (auto simp: load_le_def simp flip: load_bytes_mapped)

lemma load_le_mapped: "mapped m a n \<Longrightarrow> \<exists>v. load_le n m a = Some v"
  using load_le_None_iff by fastforce

lemma load_put_same:
  "n \<le> 2 ^ 64 \<Longrightarrow> load_le n (put a (le_of_word n v) m) a = Some (word_of_le (le_of_word n v))"
  using load_bytes_put_same [of "le_of_word n v" a m] by (simp add: load_le_def)

lemma load_put_cell [mem_simps]:
  "n \<le> 2 ^ 64 \<Longrightarrow> load_le n (put a (le_of_word n v) m) a = Some (ucast (take_bit (8 * n) v))"
  by (simp add: load_put_same word_of_le_of_word_cast)

lemma load_put_apart [mem_simps]:
  "apart a (length bs) b k \<Longrightarrow> load_le k (put a bs m) b = load_le k m b"
  by (simp add: load_le_def load_bytes_put_apart)

lemma take_bit_cast: "LENGTH('b) \<le> k \<Longrightarrow> ucast (take_bit k (v :: 'a::len word)) = (ucast v :: 'b::len word)"
  by (rule bit_word_eqI) (auto simp: bit_simps)

lemma load_store_same:
  assumes "store_le n m a (v :: 'a::len word) = Some m'" and "LENGTH('a) \<le> 8 * n" and "n \<le> 2 ^ 64"
  shows "load_le n m' a = Some v"
  using assms by (auto simp: store_le_put load_put_same word_of_le_of_word split: if_splits)

lemma load_store_apart:
  assumes "store_le n m a (v :: 'a::len word) = Some m'" and "apart a n b k" and "n \<le> 2 ^ 64"
  shows "load_le k m' b = load_le k m b"
  using assms by (auto simp: store_le_put load_put_apart split: if_splits)

lemma store_le_mapped: "store_le n m a v = Some m' \<Longrightarrow> n \<le> 2 ^ 64 \<Longrightarrow> mapped m b k \<Longrightarrow> mapped m' b k"
  by (auto simp: store_le_put split: if_splits)

section \<open>A fully mapped memory, for concrete runs\<close>

text \<open>
  \<open>ram\<close> is a process whose whole address space is mapped and zero. \<open>image\<close> writes a list of
  (address, width in bytes, value) cells into it. The witnesses build their memories with it.
\<close>

definition ram :: mem where
  "ram = (\<lambda>_. Some 0)"

fun image :: "(addr \<times> nat \<times> u64) list \<Rightarrow> mem" where
  "image [] = ram"
| "image ((a, n, v) # cs) = put a (le_of_word n v) (image cs)"

lemma mapped_ram [simp]: "mapped ram a n"
  by (simp add: mapped_def ram_def)

lemma mapped_image [simp]: "mapped (image cs) a n"
  by (induction cs rule: image.induct) auto

lemma load_bytes_ram [mem_simps]: "load_bytes ram a n = Some (replicate n 0)"
  by (auto simp: load_bytes_Some_iff ram_def)

lemma word_of_le_zeros [simp]: "word_of_le (replicate n 0) = 0"
  by (induction n) auto

lemma load_le_ram [mem_simps]: "load_le n ram a = Some 0"
  by (simp add: load_le_def load_bytes_ram)

end
