(* ===== verification/Os_Layer.thy ===== *)
theory Os_Layer
  imports VM_Prelude
begin

text \<open>
  The portability layer \<open>vmhook::os\<close> of vmhook.hpp (lines 434 to 1087): the address-space
  limits, \<open>protect\<close> with the page rounding its POSIX branch does, \<open>query_region\<close> with the
  scan of /proc/self/maps its Linux branch does, the non-faulting \<open>safe_read\<close>, and the DR7
  encoding of the hardware data breakpoints. The branches of the other platforms are in
  \<open>Os_Platforms\<close>.

  System calls are parameters: \<open>mprotect\<close> is the function the kernel provides, the lines of
  /proc/self/maps are a list of already scanned lines (\<open>None\<close> for a line the scanner skips
  because it is empty or gives fewer than three fields).
\<close>

section \<open>Address-space limits\<close>

definition user_address_ceiling :: addr where
  "user_address_ceiling = 0x00007FFFFFFFFFFF"

definition user_address_floor :: addr where
  "user_address_floor = 0xFFFF"

section \<open>Page protection\<close>

datatype memory_protection = no_access | prot_read | read_write | execute_read | execute_rw

text \<open>The POSIX branch: PROT_READ is 1, PROT_WRITE is 2, PROT_EXEC is 4.\<close>

fun to_native_protect :: "memory_protection \<Rightarrow> u32" where
  "to_native_protect no_access = 0"
| "to_native_protect prot_read = 1"
| "to_native_protect read_write = 1 OR 2"
| "to_native_protect execute_read = 1 OR 4"
| "to_native_protect execute_rw = 1 OR 2 OR 4"

definition protect_base :: "u64 \<Rightarrow> addr \<Rightarrow> addr" where
  "protect_base ps a = a AND NOT (ps - 1)"

definition protect_size :: "u64 \<Rightarrow> addr \<Rightarrow> u64 \<Rightarrow> u64" where
  "protect_size ps a sz = ((a + sz) - protect_base ps a + ps - 1) AND NOT (ps - 1)"

definition protect :: "u64 \<Rightarrow> (addr \<Rightarrow> u64 \<Rightarrow> u32 \<Rightarrow> bool) \<Rightarrow> addr \<Rightarrow> u64 \<Rightarrow> memory_protection \<Rightarrow> bool" where
  "protect ps mprotect a sz prot =
     (if a = 0 \<or> sz = 0 then False
      else mprotect (protect_base ps a) (protect_size ps a sz) (to_native_protect prot))"

section \<open>Region queries\<close>

record region_info =
  ri_base :: addr
  ri_size :: u64
  ri_committed :: bool
  ri_free :: bool
  ri_readable :: bool
  ri_executable :: bool
  ri_guarded :: bool

definition empty_region :: region_info where
  "empty_region = \<lparr>ri_base = 0, ri_size = 0, ri_committed = False, ri_free = False,
     ri_readable = False, ri_executable = False, ri_guarded = False\<rparr>"

record map_line =
  ml_begin :: u64
  ml_end :: u64
  ml_perms :: string

definition perm_at :: "string \<Rightarrow> nat \<Rightarrow> char" where
  "perm_at s i = (if i < length s then s ! i else CHR 0x00)"

fun query_maps :: "map_line option list \<Rightarrow> u64 \<Rightarrow> u64 \<Rightarrow> region_info" where
  "query_maps [] target prev_end =
     empty_region\<lparr>ri_base := prev_end, ri_size := 0xFFFFFFFFFFFFFFFF - prev_end, ri_free := True\<rparr>"
| "query_maps (None # ls) target prev_end = query_maps ls target prev_end"
| "query_maps (Some l # ls) target prev_end =
     (if target < ml_begin l then
        empty_region\<lparr>ri_base := prev_end, ri_size := ml_begin l - prev_end, ri_free := True\<rparr>
      else if ml_begin l \<le> target \<and> target < ml_end l then
        empty_region\<lparr>ri_base := ml_begin l, ri_size := ml_end l - ml_begin l, ri_committed := True,
          ri_readable := perm_at (ml_perms l) 0 = CHR ''r'',
          ri_executable := perm_at (ml_perms l) 2 = CHR ''x''\<rparr>
      else query_maps ls target (ml_end l))"

definition query_region :: "map_line option list \<Rightarrow> addr \<Rightarrow> region_info" where
  "query_region maps a = (if a = 0 then empty_region else query_maps maps a 0)"

section \<open>Reads that cannot fault\<close>

text \<open>
  \<open>safe_read\<close> copies with process_vm_readv, and when the kernel refuses that call with a
  memcpy under a SIGSEGV/SIGBUS handler; both succeed exactly when all the bytes are
  mapped. \<open>None\<close> is the return value \<open>false\<close>, not a fault.
\<close>

definition safe_read :: "mem \<Rightarrow> addr \<Rightarrow> nat \<Rightarrow> u8 list option" where
  "safe_read m src n = (if src = 0 \<or> n = 0 then None else load_bytes m src n)"

section \<open>Hardware data breakpoints\<close>

datatype data_breakpoint_kind = bp_write | bp_read_write

datatype data_breakpoint_length = one_byte | two_bytes | eight_bytes | four_bytes

fun kind_code :: "data_breakpoint_kind \<Rightarrow> u64" where
  "kind_code bp_write = 1"
| "kind_code bp_read_write = 3"

fun length_code :: "data_breakpoint_length \<Rightarrow> u64" where
  "length_code one_byte = 0"
| "length_code two_bytes = 1"
| "length_code eight_bytes = 2"
| "length_code four_bytes = 3"

definition build_dr7 :: "nat \<Rightarrow> data_breakpoint_kind \<Rightarrow> data_breakpoint_length \<Rightarrow> u64" where
  "build_dr7 slot rw len =
     push_bit (slot * 2) 1 OR push_bit (16 + slot * 4) (kind_code rw)
     OR push_bit (18 + slot * 4) (length_code len)"

section \<open>What the layer guarantees\<close>

lemma safe_read_Some: "safe_read m a n = Some bs \<Longrightarrow> load_bytes m a n = Some bs \<and> a \<noteq> 0 \<and> 0 < n"
  by (auto simp: safe_read_def split: if_splits)

lemma safe_read_mapped: "(\<exists>bs. safe_read m a n = Some bs) \<longleftrightarrow> a \<noteq> 0 \<and> 0 < n \<and> mapped m a n"
  by (auto simp: safe_read_def simp flip: load_bytes_mapped)

text \<open>
  A well-formed map table: the parsed lines are non-empty, ascending and do not overlap, as
  the kernel prints them.
\<close>

fun maps_ascend :: "u64 \<Rightarrow> map_line option list \<Rightarrow> bool" where
  "maps_ascend lo [] = True"
| "maps_ascend lo (None # ls) = maps_ascend lo ls"
| "maps_ascend lo (Some l # ls) = (lo \<le> ml_begin l \<and> ml_begin l < ml_end l \<and> maps_ascend (ml_end l) ls)"

lemma query_maps_contains:
  "maps_ascend lo ls \<Longrightarrow> lo \<le> target \<Longrightarrow> target < 0xFFFFFFFFFFFFFFFF \<Longrightarrow>
     (let r = query_maps ls target lo in
        ri_base r \<le> target \<and> unat target < unat (ri_base r) + unat (ri_size r)
        \<and> unat (ri_base r) + unat (ri_size r) < 2 ^ 64 \<and> (ri_committed r \<longleftrightarrow> \<not> ri_free r))"
proof (induction ls target lo rule: query_maps.induct)
  case (1 target prev_end)
  then show ?case
    by (simp add: empty_region_def word_le_nat_alt word_less_nat_alt unat_sub)
next
  case (2 ls target prev_end)
  then show ?case by simp
next
  case (3 l ls target prev_end)
  have bd: "unat (ml_begin l) < 2 ^ 64" "unat (ml_end l) < 2 ^ 64"
    by (simp_all add: unat_lt64)
  show ?case
  proof (cases "target < ml_end l")
    case True
    with 3 bd show ?thesis
      by (auto simp: empty_region_def word_le_nat_alt word_less_nat_alt unat_sub Let_def)
  next
    case False
    with 3 show ?thesis
      by (auto simp: word_le_nat_alt word_less_nat_alt)
  qed
qed

section \<open>Properties\<close>

text \<open>The page range that protect hands to mprotect starts on a page, is a whole number of
  pages, contains every byte the caller asked for, and is less than a page longer at each
  end.\<close>

theorem protect_covers_the_range:
  assumes "k < 63" and "unat a + unat sz + 2 ^ k < 2 ^ 64" and "sz \<noteq> 0"
  shows "unat (protect_base (2 ^ k) a) mod 2 ^ k = 0 \<and> unat (protect_size (2 ^ k) a sz) mod 2 ^ k = 0
     \<and> unat (protect_base (2 ^ k) a) \<le> unat a \<and> unat a < unat (protect_base (2 ^ k) a) + 2 ^ k
     \<and> unat a + unat sz \<le> unat (protect_base (2 ^ k) a) + unat (protect_size (2 ^ k) a sz)
     \<and> unat (protect_base (2 ^ k) a) + unat (protect_size (2 ^ k) a sz) < unat a + unat sz + 2 ^ k"
proof -
  define p where "p = (2 :: nat) ^ k"
  define b where "b = unat a div p * p"
  have p0: "0 < p" by (simp add: p_def)
  have base: "unat (protect_base (2 ^ k) a) = b"
    by (simp only: protect_base_def unat_page_floor b_def p_def)
  have ba: "b \<le> unat a" by (simp add: b_def)
  have ab: "unat a < b + p" using dividend_less_div_times [OF p0, of "unat a"] by (simp add: b_def)
  have up: "unat (2 ^ k :: u64) = p" using assms(1) by (simp add: unat_pow2 p_def)
  have bd: "unat a + unat sz + p < 18446744073709551616" using assms(2) by (simp add: p_def)
  have s1: "unat (a + sz) = unat a + unat sz" using bd by (simp add: unat_word_ariths)
  have s2: "unat (a + sz - protect_base (2 ^ k) a) = unat a + unat sz - b"
    using ba by (simp add: unat_sub word_le_nat_alt base s1)
  have s3: "unat (a + sz - protect_base (2 ^ k) a + 2 ^ k) = unat a + unat sz - b + p"
    using bd by (simp add: unat_word_ariths s2 up)
  have "a + sz - protect_base (2 ^ k) a + 2 ^ k \<noteq> 0"
  proof
    assume "a + sz - protect_base (2 ^ k) a + 2 ^ k = 0"
    with s3 p0 show False by simp
  qed
  then have s4: "unat (a + sz - protect_base (2 ^ k) a + 2 ^ k - 1) = unat a + unat sz - b + p - 1"
    by (simp add: unat_minus_one s3)
  define t where "t = unat a + unat sz - b"
  have size: "unat (protect_size (2 ^ k) a sz) = (t + p - 1) div p * p"
    unfolding protect_size_def t_def p_def by (simp only: unat_page_floor s4 p_def)
  have lo: "t + p - 1 < (t + p - 1) div p * p + p"
    using dividend_less_div_times [OF p0, of "t + p - 1"] by (simp only: add.commute)
  have hi: "(t + p - 1) div p * p \<le> t + p - 1" by simp
  have bt: "b + t = unat a + unat sz" using ba by (simp add: t_def)
  obtain q where q: "q = (t + p - 1) div p * p" by blast
  have "q < t + p" using hi p0 unfolding q by linarith
  moreover have "t \<le> q" using lo p0 unfolding q by linarith
  moreover have "q mod p = 0" "b mod p = 0" by (simp_all add: q b_def)
  ultimately show ?thesis
    unfolding base size p_def [symmetric] q [symmetric] using ba ab bt by simp
qed

lemma protect_covers_the_range_witness:
  "unat (protect_base (2 ^ 12) 0x1FFE) = 0x1000 \<and> 0x1FFE + 5 \<le> unat (protect_base (2 ^ 12) 0x1FFE) + unat (protect_size (2 ^ 12) 0x1FFE 5)"
proof -
  have "unat (protect_base (2 ^ 12) 0x1FFE) = 0x1000" by (simp add: protect_base_def)
  then show ?thesis using protect_covers_the_range [of 12 "0x1FFE" 5] by simp
qed

text \<open>On a well-formed map table query_region describes a range that contains the queried
  address, ends below the top of the address space, and is free exactly when it is not
  committed.\<close>

theorem query_region_contains:
  assumes "maps_ascend 0 maps" and "a \<noteq> 0" and "a < 0xFFFFFFFFFFFFFFFF"
  shows "ri_base (query_region maps a) \<le> a
     \<and> unat a < unat (ri_base (query_region maps a)) + unat (ri_size (query_region maps a))
     \<and> unat (ri_base (query_region maps a)) + unat (ri_size (query_region maps a)) < 2 ^ 64
     \<and> (ri_committed (query_region maps a) \<longleftrightarrow> \<not> ri_free (query_region maps a))"
  using query_maps_contains [OF assms(1) _ assms(3)] assms(2) by (simp add: query_region_def Let_def)

lemma query_region_contains_witness:
  "ri_free (query_region [Some \<lparr>ml_begin = 0x10000, ml_end = 0x20000, ml_perms = ''r-xp''\<rparr>] 0x20000)
   \<and> ri_base (query_region [Some \<lparr>ml_begin = 0x10000, ml_end = 0x20000, ml_perms = ''r-xp''\<rparr>] 0x20000) \<le> 0x20000"
  using query_region_contains [of "[Some \<lparr>ml_begin = 0x10000, ml_end = 0x20000, ml_perms = ''r-xp''\<rparr>]" "0x20000"]
  by (simp add: query_region_def empty_region_def)

end
