(* ===== verification/Vm_Structs.thy ===== *)
theory Vm_Structs
  imports Os_Layer
begin

text \<open>
  The HotSpot metadata tables and the pointer layer of vmhook.hpp (lines 1598 to 1862).

  A table exported by the JVM (gHotSpotVMTypes, gHotSpotVMStructs) is an array that ends at
  the first entry whose type name is null; the model holds the entries before that one. A
  table the JVM does not export is the empty list: the code's loop runs zero times on a null
  table just as it does on an empty one. The tables and the /proc/self/maps lines are the
  constant part of the process, the record \<open>jvm\<close>; memory is passed separately. A function
  that caches a table entry in a function-local static looks the entry up each time here,
  which gives the same entry because the tables are constant.
\<close>

section \<open>The tables\<close>

record vm_type_entry_t =
  te_type_name :: string
  te_superclass_name :: "string option"
  te_is_oop_type_type :: u32
  te_is_integer_type :: u32
  te_is_unsigned :: u32
  te_size :: u64

record vm_struct_entry_t =
  se_type_name :: string
  se_field_name :: "string option"
  se_type_string :: "string option"
  se_is_static :: u32
  se_offset :: u64
  se_address :: addr

record jvm =
  vm_types :: "vm_type_entry_t list"
  vm_structs :: "vm_struct_entry_t list"
  proc_maps :: "map_line option list"

fun scan_types :: "vm_type_entry_t list \<Rightarrow> string \<Rightarrow> vm_type_entry_t option" where
  "scan_types [] tn = None"
| "scan_types (e # es) tn = (if te_type_name e = tn then Some e else scan_types es tn)"

definition iterate_type_entries :: "jvm \<Rightarrow> string option \<Rightarrow> vm_type_entry_t option" where
  "iterate_type_entries J type_name =
     (case type_name of None \<Rightarrow> None | Some tn \<Rightarrow> scan_types (vm_types J) tn)"

fun scan_structs :: "vm_struct_entry_t list \<Rightarrow> string \<Rightarrow> string \<Rightarrow> vm_struct_entry_t option" where
  "scan_structs [] tn fn = None"
| "scan_structs (e # es) tn fn =
     (case se_field_name e of
        None \<Rightarrow> scan_structs es tn fn
      | Some f \<Rightarrow> if se_type_name e = tn \<and> f = fn then Some e else scan_structs es tn fn)"

definition iterate_struct_entries :: "jvm \<Rightarrow> string option \<Rightarrow> string option \<Rightarrow> vm_struct_entry_t option" where
  "iterate_struct_entries J type_name field_name =
     (case (type_name, field_name) of
        (Some tn, Some fn) \<Rightarrow> scan_structs (vm_structs J) tn fn
      | _ \<Rightarrow> None)"

text \<open>Every caller passes string literals.\<close>

abbreviation vm_struct :: "jvm \<Rightarrow> string \<Rightarrow> string \<Rightarrow> vm_struct_entry_t option" where
  "vm_struct J tn fn \<equiv> iterate_struct_entries J (Some tn) (Some fn)"

abbreviation vm_type :: "jvm \<Rightarrow> string \<Rightarrow> vm_type_entry_t option" where
  "vm_type J tn \<equiv> iterate_type_entries J (Some tn)"

section \<open>Pointer predicates\<close>

definition poison_patterns :: "u32 list" where
  "poison_patterns = [0xDEADBEEF, 0xCAFEBABE, 0xCCCCCCCC, 0xCDCDCDCD, 0xBAADF00D, 0xFEEEFEEE,
     0xABABABAB, 0xFDFDFDFD, 0xDDDDDDDD]"

definition is_valid_pointer :: "addr \<Rightarrow> bool" where
  "is_valid_pointer p =
     (if p \<le> user_address_floor \<or> user_address_ceiling \<le> p then False
      else if p AND 1 \<noteq> 0 then False
      else (ucast p :: u32) \<notin> set poison_patterns)"

definition is_readable_pointer :: "jvm \<Rightarrow> addr \<Rightarrow> bool" where
  "is_readable_pointer J p =
     (if p \<le> user_address_floor \<or> user_address_ceiling \<le> p \<or> p AND 7 \<noteq> 0 then False
      else let info = query_region (proc_maps J) p
           in ri_committed info \<and> ri_readable info \<and> \<not> ri_guarded info)"

definition untag_pointer :: "addr \<Rightarrow> addr" where
  "untag_pointer p = p AND user_address_ceiling"

text \<open>\<open>read_pointer\<close> reads a 32-bit word and zero-extends it; it is a raw dereference.\<close>

definition read_pointer :: "mem \<Rightarrow> addr \<Rightarrow> u64 \<Rightarrow> addr option" where
  "read_pointer m base off = map_option ucast (load32 m (base + off))"

text \<open>\<open>safe_read_pointer\<close> cannot fault: every failure is the null pointer.\<close>

definition safe_read_pointer :: "mem \<Rightarrow> addr \<Rightarrow> addr" where
  "safe_read_pointer m p =
     (if p = 0 then 0
      else if p \<le> user_address_floor \<or> user_address_ceiling \<le> p \<or> p AND 7 \<noteq> 0 then 0
      else case safe_read m p 8 of None \<Rightarrow> 0 | Some bs \<Rightarrow> word_of_le bs)"

section \<open>Facts about the pointer layer\<close>

lemma is_valid_pointer_nonzero [simp]: "\<not> is_valid_pointer 0"
  by (simp add: is_valid_pointer_def)

lemma valid_not_null: "is_valid_pointer p \<Longrightarrow> p \<noteq> 0"
  by auto

lemma valid_range: "is_valid_pointer p \<Longrightarrow> user_address_floor < p \<and> p < user_address_ceiling"
  by (auto simp: is_valid_pointer_def split: if_splits)

lemma ceiling_mask: "user_address_ceiling = mask 47"
  by (simp add: user_address_ceiling_def mask_eq_exp_minus_1)

lemma untag_idem [simp]: "untag_pointer (untag_pointer p) = untag_pointer p"
  by (simp add: untag_pointer_def)

lemma untag_valid: "is_valid_pointer p \<Longrightarrow> untag_pointer p = p"
proof -
  assume "is_valid_pointer p"
  then have "uint p < 2 ^ 47"
    using valid_range [of p] by (auto simp: user_address_ceiling_def word_less_def)
  then show ?thesis
    by (simp add: untag_pointer_def ceiling_mask mask_eq_iff)
qed

lemma safe_read_pointer_null [simp]: "safe_read_pointer m 0 = 0"
  by (simp add: safe_read_pointer_def)

lemma safe_read_pointer_load:
  "safe_read_pointer m p \<noteq> 0 \<Longrightarrow> load64 m p = Some (safe_read_pointer m p)"
  by (auto simp: safe_read_pointer_def load_le_def split: if_splits option.splits dest: safe_read_Some)

lemma safe_read_pointer_aligned:
  "user_address_floor < p \<Longrightarrow> p < user_address_ceiling \<Longrightarrow> p AND 7 = 0 \<Longrightarrow>
     safe_read_pointer m p = (case load64 m p of None \<Rightarrow> 0 | Some v \<Rightarrow> v)"
  by (auto simp: safe_read_pointer_def safe_read_def load_le_def split: option.splits)

lemma scan_structs_sound:
  "scan_structs es tn fn = Some e \<Longrightarrow> e \<in> set es \<and> se_type_name e = tn \<and> se_field_name e = Some fn"
  by (induction es tn fn rule: scan_structs.induct) (auto split: option.splits if_splits)

lemma scan_structs_complete:
  "scan_structs es tn fn = None \<longleftrightarrow> (\<forall>e \<in> set es. \<not> (se_type_name e = tn \<and> se_field_name e = Some fn))"
  by (induction es tn fn rule: scan_structs.induct) (auto split: option.splits)

end
