(* ===== verification/Compressed_Oops.thy ===== *)
theory Compressed_Oops
  imports Vm_Structs
begin

text \<open>
  Compressed object and class pointers: \<open>decode_oop_pointer\<close>, \<open>encode_oop_pointer\<close>,
  \<open>decode_klass_pointer\<close> and \<open>encode_klass_pointer\<close> (vmhook.hpp lines 4288 to 4575),
  \<open>decode_array_oop\<close> (16078), \<open>klass_from_oop\<close> (14597) and
  \<open>method_proxy::klass_from_object_header\<close> (13546).

  Base and shift are read through raw pointers at the addresses the VMStructs export, so a
  function faults when the exported address is not mapped. The C++ shift of a 64-bit value by
  64 or more is undefined behaviour; HotSpot uses shifts 0 and 3, and \<open>push_bit\<close> by 64 or
  more is 0 here.
\<close>

section \<open>Where base and shift are exported\<close>

definition first_entry :: "jvm \<Rightarrow> (string \<times> string) list \<Rightarrow> vm_struct_entry_t option" where
  "first_entry J names =
     foldr (\<lambda>(tn, fn) rest. case vm_struct J tn fn of Some e \<Rightarrow> Some e | None \<Rightarrow> rest) names None"

definition narrow_oop_base :: "jvm \<Rightarrow> vm_struct_entry_t option" where
  "narrow_oop_base J = first_entry J [(''CompressedOops'', ''_narrow_oop._base''),
     (''CompressedOops'', ''_base''), (''Universe'', ''_narrow_oop._base'')]"

definition narrow_oop_shift :: "jvm \<Rightarrow> vm_struct_entry_t option" where
  "narrow_oop_shift J = first_entry J [(''CompressedOops'', ''_narrow_oop._shift''),
     (''CompressedOops'', ''_shift''), (''Universe'', ''_narrow_oop._shift'')]"

definition narrow_klass_base :: "jvm \<Rightarrow> vm_struct_entry_t option" where
  "narrow_klass_base J = first_entry J [(''CompressedKlassPointers'', ''_narrow_klass._base''),
     (''CompressedKlassPointers'', ''_base''), (''Universe'', ''_narrow_klass._base'')]"

definition narrow_klass_shift :: "jvm \<Rightarrow> vm_struct_entry_t option" where
  "narrow_klass_shift J = first_entry J [(''CompressedKlassPointers'', ''_narrow_klass._shift''),
     (''CompressedKlassPointers'', ''_shift''), (''Universe'', ''_narrow_klass._shift'')]"

section \<open>The four conversions\<close>

definition decode_oop_pointer :: "jvm \<Rightarrow> mem \<Rightarrow> u32 \<Rightarrow> addr option" where
  "decode_oop_pointer J m compressed =
     (if compressed = 0 then Some 0
      else case (narrow_oop_base J, narrow_oop_shift J) of
        (Some base_entry, Some shift_entry) \<Rightarrow> do {
          base \<leftarrow> load64 m (se_address base_entry);
          shift \<leftarrow> load32 m (se_address shift_entry);
          Some (base + push_bit (unat shift) (ucast compressed)) }
      | _ \<Rightarrow> Some 0)"

definition encode_oop_pointer :: "jvm \<Rightarrow> mem \<Rightarrow> addr \<Rightarrow> u32 option" where
  "encode_oop_pointer J m decoded =
     (if decoded = 0 then Some 0
      else case (narrow_oop_base J, narrow_oop_shift J) of
        (Some base_entry, Some shift_entry) \<Rightarrow> do {
          base \<leftarrow> load64 m (se_address base_entry);
          shift \<leftarrow> load32 m (se_address shift_entry);
          if decoded < base then Some 0
          else Some (ucast (drop_bit (unat shift) (decoded - base))) }
      | _ \<Rightarrow> Some 0)"

definition decode_klass_pointer :: "jvm \<Rightarrow> mem \<Rightarrow> u32 \<Rightarrow> addr option" where
  "decode_klass_pointer J m compressed =
     (if compressed = 0 then Some 0
      else case (narrow_klass_base J, narrow_klass_shift J) of
        (Some base_entry, Some shift_entry) \<Rightarrow> do {
          base \<leftarrow> load64 m (se_address base_entry);
          shift \<leftarrow> load32 m (se_address shift_entry);
          Some (base + push_bit (unat shift) (ucast compressed)) }
      | _ \<Rightarrow> Some 0)"

definition encode_klass_pointer :: "jvm \<Rightarrow> mem \<Rightarrow> addr \<Rightarrow> u32 option" where
  "encode_klass_pointer J m decoded =
     (if decoded = 0 then Some 0
      else case (narrow_klass_base J, narrow_klass_shift J) of
        (Some base_entry, Some shift_entry) \<Rightarrow> do {
          base \<leftarrow> load64 m (se_address base_entry);
          shift \<leftarrow> load32 m (se_address shift_entry);
          if decoded < base then Some 0
          else Some (ucast (drop_bit (unat shift) (decoded - base))) }
      | _ \<Rightarrow> Some 0)"

definition decode_array_oop :: "jvm \<Rightarrow> mem \<Rightarrow> u32 \<Rightarrow> addr option" where
  "decode_array_oop J m compressed =
     (if compressed = 0 then Some 0
      else do {
        p \<leftarrow> decode_oop_pointer J m compressed;
        Some (if p \<noteq> 0 \<and> is_valid_pointer p then p else 0) })"

definition klass_from_oop :: "jvm \<Rightarrow> mem \<Rightarrow> addr \<Rightarrow> addr option" where
  "klass_from_oop J m oop =
     (if oop = 0 \<or> \<not> is_valid_pointer oop then Some 0
      else do {
        narrow \<leftarrow> load32 m (oop + 8);
        decoded \<leftarrow> decode_klass_pointer J m narrow;
        Some (if decoded = 0 \<or> \<not> is_valid_pointer decoded then 0 else decoded) })"

definition klass_from_object_header :: "jvm \<Rightarrow> mem \<Rightarrow> addr \<Rightarrow> addr option" where
  "klass_from_object_header J m oop =
     (if oop = 0 \<or> \<not> is_valid_pointer oop then Some 0
      else do {
        narrow_klass \<leftarrow> load32 m (oop + 8);
        decoded \<leftarrow> decode_klass_pointer J m narrow_klass;
        Some (if decoded = 0 \<or> \<not> is_valid_pointer decoded then 0 else decoded) })"

section \<open>The configuration the exported words describe\<close>

definition read_config :: "vm_struct_entry_t option \<Rightarrow> vm_struct_entry_t option \<Rightarrow> mem \<Rightarrow> (u64 \<times> nat) option" where
  "read_config be se m =
     (case (be, se) of
        (Some b, Some s) \<Rightarrow> do {
          base \<leftarrow> load64 m (se_address b);
          shift \<leftarrow> load32 m (se_address s);
          Some (base, unat shift) }
      | _ \<Rightarrow> None)"

definition oop_config :: "jvm \<Rightarrow> mem \<Rightarrow> (u64 \<times> nat) option" where
  "oop_config J m = read_config (narrow_oop_base J) (narrow_oop_shift J) m"

definition klass_config :: "jvm \<Rightarrow> mem \<Rightarrow> (u64 \<times> nat) option" where
  "klass_config J m = read_config (narrow_klass_base J) (narrow_klass_shift J) m"

text \<open>
  The address range a configuration reaches: no compressed value wraps around the end of the
  address space, and an address is representable when it is aligned, strictly above the base
  and within 2 to the 32 units of it.
\<close>

definition no_wrap :: "u64 \<Rightarrow> nat \<Rightarrow> bool" where
  "no_wrap base s \<longleftrightarrow> s \<le> 31 \<and> unat base + (2 ^ 32 - 1) * 2 ^ s < 2 ^ 64"

definition representable :: "u64 \<Rightarrow> nat \<Rightarrow> addr \<Rightarrow> bool" where
  "representable base s p \<longleftrightarrow>
     base < p \<and> (unat p - unat base) mod 2 ^ s = 0 \<and> (unat p - unat base) div 2 ^ s < 2 ^ 32"

section \<open>The contract of a compressed-pointer codec\<close>

locale narrow_codec =
  fixes decode :: "jvm \<Rightarrow> mem \<Rightarrow> u32 \<Rightarrow> addr option"
    and encode :: "jvm \<Rightarrow> mem \<Rightarrow> addr \<Rightarrow> u32 option"
    and config :: "jvm \<Rightarrow> mem \<Rightarrow> (u64 \<times> nat) option"
  assumes decode_null: "decode J m 0 = Some 0"
    and encode_null: "encode J m 0 = Some 0"
    and decode_law: "config J m = Some (base, s) \<Longrightarrow> c \<noteq> 0 \<Longrightarrow>
          decode J m c = Some (base + push_bit s (ucast c))"
    and encode_law: "config J m = Some (base, s) \<Longrightarrow> p \<noteq> 0 \<Longrightarrow>
          encode J m p = Some (if p < base then 0 else ucast (drop_bit s (p - base)))"
begin

lemma decode_unat:
  assumes "config J m = Some (base, s)" and "no_wrap base s" and "c \<noteq> 0"
  shows "\<exists>p. decode J m c = Some p \<and> unat p = unat base + unat c * 2 ^ s"
proof -
  have "unat c * 2 ^ s \<le> 4294967295 * 2 ^ s"
    using unat_lt32 [of c] by (intro mult_le_mono1) simp
  moreover have "unat base + 4294967295 * 2 ^ s < 2 ^ 64"
    using assms(2) by (simp add: no_wrap_def)
  ultimately have bd: "unat base + unat c * 2 ^ s < 2 ^ 64"
    by linarith
  have "unat (push_bit s (ucast c :: u64)) = unat c * 2 ^ s"
    using bd by (simp only: unat_push_bit64 unat_ucast_up) (simp add: unat_ucast_up)
  with bd have "unat (base + push_bit s (ucast c)) = unat base + unat c * 2 ^ s"
    by (simp add: unat_word_ariths)
  with decode_law [OF assms(1,3)] show ?thesis by simp
qed

lemma decode_representable:
  assumes "config J m = Some (base, s)" and "no_wrap base s" and "c \<noteq> 0"
    and "decode J m c = Some p"
  shows "representable base s p"
proof -
  from decode_unat [OF assms(1-3)] assms(4) have "unat p = unat base + unat c * 2 ^ s" by simp
  moreover have "0 < unat c" "unat c < 2 ^ 32"
    using assms(3) unat_lt32 [of c] by (simp_all add: unat_gt_0)
  ultimately show ?thesis
    by (simp add: representable_def word_less_nat_alt)
qed

lemma encode_unat:
  assumes "config J m = Some (base, s)" and "representable base s p"
  shows "\<exists>c. encode J m p = Some c \<and> unat c = (unat p - unat base) div 2 ^ s"
proof -
  have p: "p \<noteq> 0" "\<not> p < base" "unat base \<le> unat p"
    using assms(2) by (auto simp: representable_def word_less_nat_alt)
  have "unat (p - base) = unat p - unat base"
    using p(3) by (simp add: unat_sub word_le_nat_alt)
  then have "unat (drop_bit s (p - base)) = (unat p - unat base) div 2 ^ s"
    by (simp only: unat_drop_bit64)
  with assms(2) have "unat (ucast (drop_bit s (p - base)) :: u32) = (unat p - unat base) div 2 ^ s"
    by (simp add: unsigned_ucast_eq take_bit_nat_eq_self representable_def)
  with encode_law [OF assms(1) p(1)] p(2) show ?thesis by simp
qed

lemma encode_decode:
  assumes "config J m = Some (base, s)" and "no_wrap base s" and "decode J m c = Some p"
  shows "encode J m p = Some c"
proof (cases "c = 0")
  case True
  with assms(3) show ?thesis by (simp add: decode_null encode_null)
next
  case False
  from decode_unat [OF assms(1,2) False] assms(3) have "unat p = unat base + unat c * 2 ^ s" by simp
  with encode_unat [OF assms(1) decode_representable [OF assms(1,2) False assms(3)]]
  show ?thesis by (auto simp: unsigned_word_eqI)
qed

lemma decode_encode:
  assumes "config J m = Some (base, s)" and "no_wrap base s" and "representable base s p"
    and "encode J m p = Some c"
  shows "c \<noteq> 0 \<and> decode J m c = Some p"
proof -
  have c: "unat c = (unat p - unat base) div 2 ^ s"
    using encode_unat [OF assms(1,3)] assms(4) by simp
  have m0: "(unat p - unat base) mod 2 ^ s = 0" and lt: "unat base < unat p"
    using assms(3) by (auto simp: representable_def word_less_nat_alt)
  then have eq: "unat c * 2 ^ s = unat p - unat base"
    using c by auto
  with lt have "c \<noteq> 0" by (cases "c = 0") auto
  moreover from decode_unat [OF assms(1,2) this] eq lt have "decode J m c = Some p"
    by (auto intro: unsigned_word_eqI)
  ultimately show ?thesis by simp
qed

lemma encode_total: "config J m = Some (base, s) \<Longrightarrow> \<exists>c. encode J m p = Some c"
  by (cases "p = 0") (auto simp: encode_null encode_law)

end

interpretation oop_codec: narrow_codec decode_oop_pointer encode_oop_pointer oop_config
  by unfold_locales
    (auto simp: decode_oop_pointer_def encode_oop_pointer_def oop_config_def read_config_def
      split: option.splits bind_splits)

interpretation klass_codec: narrow_codec decode_klass_pointer encode_klass_pointer klass_config
  by unfold_locales
    (auto simp: decode_klass_pointer_def encode_klass_pointer_def klass_config_def read_config_def
      split: option.splits bind_splits)

section \<open>Properties\<close>

text \<open>C25. When base and shift reach no further than the address space, encoding inverts decoding
  of every compressed oop and every decoded address is one the codec can represent.\<close>

theorem compressed_oop_roundtrip:
  assumes "oop_config J m = Some (base, s)" and "no_wrap base s" and "decode_oop_pointer J m c = Some p"
  shows "encode_oop_pointer J m p = Some c \<and> (c \<noteq> 0 \<longrightarrow> representable base s p)"
  using oop_codec.encode_decode [OF assms] oop_codec.decode_representable [OF assms(1,2) _ assms(3)] by blast

text \<open>Every aligned class address in reach of base and shift encodes to a non-null compressed
  class pointer that decodes to the same address.\<close>

theorem compressed_klass_roundtrip:
  assumes "klass_config J m = Some (base, s)" and "no_wrap base s" and "representable base s p"
  shows "\<exists>c. encode_klass_pointer J m p = Some c \<and> c \<noteq> 0 \<and> decode_klass_pointer J m c = Some p"
  using klass_codec.encode_total [OF assms(1), of p] klass_codec.decode_encode [OF assms] by blast

definition coop_entry :: "string \<Rightarrow> string \<Rightarrow> addr \<Rightarrow> vm_struct_entry_t" where
  "coop_entry tn fn a = \<lparr>se_type_name = tn, se_field_name = Some fn, se_type_string = None,
     se_is_static = 1, se_offset = 0, se_address = a\<rparr>"

definition coop_jvm :: jvm where
  "coop_jvm = \<lparr>vm_types = [], vm_structs = [coop_entry ''CompressedOops'' ''_base'' 0x10000,
     coop_entry ''CompressedOops'' ''_shift'' 0x10008, coop_entry ''CompressedKlassPointers'' ''_base'' 0x10000,
     coop_entry ''CompressedKlassPointers'' ''_shift'' 0x10008], proc_maps = []\<rparr>"

definition coop_mem :: mem where
  "coop_mem = image [(0x10000, 8, 0x800000000), (0x10008, 4, 3)]"

lemma coop_config: "oop_config coop_jvm coop_mem = Some (0x800000000, 3)" "klass_config coop_jvm coop_mem = Some (0x800000000, 3)"
  by (simp_all add: oop_config_def klass_config_def read_config_def narrow_oop_base_def narrow_oop_shift_def
      narrow_klass_base_def narrow_klass_shift_def first_entry_def coop_jvm_def coop_entry_def
      iterate_struct_entries_def coop_mem_def mem_simps apart_def)

lemma compressed_oop_roundtrip_witness:
  "decode_oop_pointer coop_jvm coop_mem 0x10 = Some 0x800000080 \<and> encode_oop_pointer coop_jvm coop_mem 0x800000080 = Some 0x10"
proof -
  have d: "decode_oop_pointer coop_jvm coop_mem 0x10 = Some 0x800000080"
    using oop_codec.decode_law [OF coop_config(1), of "0x10"] by simp
  have "no_wrap 0x800000000 3" by (simp add: no_wrap_def)
  from compressed_oop_roundtrip [OF coop_config(1) this d] d show ?thesis by simp
qed

lemma compressed_klass_roundtrip_witness:
  "\<exists>c. encode_klass_pointer coop_jvm coop_mem 0x800000080 = Some c \<and> decode_klass_pointer coop_jvm coop_mem c = Some 0x800000080"
proof -
  have "no_wrap 0x800000000 3" "representable 0x800000000 3 0x800000080" by (simp_all add: no_wrap_def representable_def)
  from compressed_klass_roundtrip [OF coop_config(2) this] show ?thesis by blast
qed

end
