(* ===== verification/Metadata.thy ===== *)
theory Metadata
  imports Vm_Structs
begin

text \<open>
  HotSpot metadata reached through raw pointers: \<open>symbol\<close>, \<open>constant_pool\<close>,
  \<open>const_method\<close> and \<open>method\<close> (vmhook.hpp lines 1871 to 2549), the adapter recovery
  (\<open>get_c2i_entry_from_adapter\<close>, \<open>validate_adapter_handler_entry\<close>,
  \<open>detect_adapter_offset_from_method\<close>, lines 6084 to 6251) and \<open>set_dont_inline\<close>.

  A member function takes the address of its object as the argument \<open>this\<close>. An exception
  thrown and caught inside a function is the branch its catch block returns. The
  function-local static \<open>cached_offset\<close> of \<open>get_adapter\<close> is passed and returned.
\<close>

section \<open>symbol\<close>

definition chars_of_bytes :: "u8 list \<Rightarrow> string" where
  "chars_of_bytes bs = map (\<lambda>b. char_of (unat b)) bs"

definition symbol_to_string :: "jvm \<Rightarrow> mem \<Rightarrow> addr \<Rightarrow> string option" where
  "symbol_to_string J m this =
     (case vm_struct J ''Symbol'' ''_length'' of None \<Rightarrow> Some ''''
      | Some length_entry \<Rightarrow> (case vm_struct J ''Symbol'' ''_body'' of None \<Rightarrow> Some ''''
      | Some body_entry \<Rightarrow>
          if safe_read_pointer m this = 0 then Some ''''
          else do {
            len \<leftarrow> load16 m (this + se_offset length_entry);
            let body = this + se_offset body_entry;
            if \<not> is_valid_pointer body \<or> len = 0 \<or> len > 0x1000 then Some ''''
            else do { bs \<leftarrow> load_bytes m body (unat len); Some (chars_of_bytes bs) } }))"

section \<open>constant\_pool\<close>

definition cp_get_base :: "jvm \<Rightarrow> addr \<Rightarrow> addr" where
  "cp_get_base J this = (case vm_type J ''ConstantPool'' of None \<Rightarrow> 0 | Some e \<Rightarrow> this + te_size e)"

definition cp_get_length :: "jvm \<Rightarrow> mem \<Rightarrow> addr \<Rightarrow> int option" where
  "cp_get_length J m this =
     (case vm_struct J ''ConstantPool'' ''_length'' of None \<Rightarrow> Some (-1)
      | Some e \<Rightarrow> if \<not> is_valid_pointer this then Some (-1)
                  else map_option sint (load32 m (this + se_offset e)))"

section \<open>const\_method\<close>

definition cm_get_constants :: "jvm \<Rightarrow> mem \<Rightarrow> addr \<Rightarrow> addr option" where
  "cm_get_constants J m this =
     (case vm_struct J ''ConstMethod'' ''_constants'' of None \<Rightarrow> Some 0
      | Some e \<Rightarrow> load64 m (this + se_offset e))"

text \<open>
  \<open>get_name\<close> and \<open>get_signature\<close> have the same body up to the index field they read: a
  16-bit index into the constant pool, checked against the pool's length when that is known,
  then the slot's readability, then the pointer in the slot.
\<close>

definition cm_pool_symbol :: "jvm \<Rightarrow> mem \<Rightarrow> string \<Rightarrow> addr \<Rightarrow> addr option" where
  "cm_pool_symbol J m index_field this =
     (case vm_struct J ''ConstMethod'' index_field of None \<Rightarrow> Some 0
      | Some e \<Rightarrow>
          if \<not> is_valid_pointer this then Some 0
          else do {
            index \<leftarrow> load16 m (this + se_offset e);
            cp \<leftarrow> cm_get_constants J m this;
            if cp = 0 \<or> \<not> is_valid_pointer cp then Some 0
            else let base = cp_get_base J cp in
              if base = 0 \<or> \<not> is_valid_pointer base then Some 0
              else do {
                cp_length \<leftarrow> cp_get_length J m cp;
                if 0 \<le> cp_length \<and> cp_length \<le> uint index then Some 0
                else if \<not> is_readable_pointer J (base + 8 * ucast index) then Some 0
                else do {
                  entry_pointer \<leftarrow> load64 m (base + 8 * ucast index);
                  Some (if entry_pointer = 0 \<or> \<not> is_valid_pointer entry_pointer then 0
                        else entry_pointer) } } })"

definition cm_get_name :: "jvm \<Rightarrow> mem \<Rightarrow> addr \<Rightarrow> addr option" where
  "cm_get_name J m this = cm_pool_symbol J m ''_name_index'' this"

definition cm_get_signature :: "jvm \<Rightarrow> mem \<Rightarrow> addr \<Rightarrow> addr option" where
  "cm_get_signature J m this = cm_pool_symbol J m ''_signature_index'' this"

section \<open>method\<close>

definition get_i2i_entry :: "jvm \<Rightarrow> mem \<Rightarrow> addr \<Rightarrow> addr option" where
  "get_i2i_entry J m this =
     (case vm_struct J ''Method'' ''_i2i_entry'' of None \<Rightarrow> Some 0
      | Some e \<Rightarrow> load64 m (this + se_offset e))"

definition get_from_interpreted_entry :: "jvm \<Rightarrow> mem \<Rightarrow> addr \<Rightarrow> addr option" where
  "get_from_interpreted_entry J m this =
     (case vm_struct J ''Method'' ''_from_interpreted_entry'' of None \<Rightarrow> Some 0
      | Some e \<Rightarrow> load64 m (this + se_offset e))"

text \<open>\<open>get_access_flags\<close> and \<open>get_flags\<close> return the address of the field.\<close>

definition get_access_flags :: "jvm \<Rightarrow> addr \<Rightarrow> addr" where
  "get_access_flags J this =
     (case vm_struct J ''Method'' ''_access_flags'' of None \<Rightarrow> 0 | Some e \<Rightarrow> this + se_offset e)"

definition get_flags :: "jvm \<Rightarrow> addr \<Rightarrow> addr" where
  "get_flags J this =
     (case vm_struct J ''Method'' ''_flags'' of None \<Rightarrow> 0 | Some e \<Rightarrow> this + se_offset e)"

definition get_const_method :: "jvm \<Rightarrow> mem \<Rightarrow> addr \<Rightarrow> addr option" where
  "get_const_method J m this =
     (case vm_struct J ''Method'' ''_constMethod'' of None \<Rightarrow> Some 0
      | Some e \<Rightarrow> load64 m (this + se_offset e))"

definition method_get_name :: "jvm \<Rightarrow> mem \<Rightarrow> addr \<Rightarrow> string option" where
  "method_get_name J m this =
     (if \<not> is_valid_pointer this then Some ''''
      else do {
        cm \<leftarrow> get_const_method J m this;
        if cm = 0 \<or> \<not> is_valid_pointer cm then Some ''''
        else do {
          sym \<leftarrow> cm_get_name J m cm;
          if sym = 0 \<or> \<not> is_valid_pointer sym then Some '''' else symbol_to_string J m sym } })"

definition method_get_signature :: "jvm \<Rightarrow> mem \<Rightarrow> addr \<Rightarrow> string option" where
  "method_get_signature J m this =
     (if \<not> is_valid_pointer this then Some ''''
      else do {
        cm \<leftarrow> get_const_method J m this;
        if cm = 0 \<or> \<not> is_valid_pointer cm then Some ''''
        else do {
          sym \<leftarrow> cm_get_signature J m cm;
          if sym = 0 \<or> \<not> is_valid_pointer sym then Some '''' else symbol_to_string J m sym } })"

definition get_code :: "jvm \<Rightarrow> mem \<Rightarrow> addr \<Rightarrow> addr option" where
  "get_code J m this =
     (case vm_struct J ''Method'' ''_code'' of None \<Rightarrow> Some 0
      | Some e \<Rightarrow> load64 m (this + se_offset e))"

definition set_code :: "jvm \<Rightarrow> mem \<Rightarrow> addr \<Rightarrow> addr \<Rightarrow> mem option" where
  "set_code J m this code =
     (case vm_struct J ''Method'' ''_code'' of None \<Rightarrow> Some m
      | Some e \<Rightarrow> store64 m (this + se_offset e) code)"

definition set_from_interpreted_entry :: "jvm \<Rightarrow> mem \<Rightarrow> addr \<Rightarrow> addr \<Rightarrow> mem option" where
  "set_from_interpreted_entry J m this entry_point =
     (case vm_struct J ''Method'' ''_from_interpreted_entry'' of None \<Rightarrow> Some m
      | Some e \<Rightarrow> store64 m (this + se_offset e) entry_point)"

definition from_compiled_struct :: "jvm \<Rightarrow> vm_struct_entry_t option" where
  "from_compiled_struct J =
     (case vm_struct J ''Method'' ''_from_compiled_code_entry_point'' of
        Some e \<Rightarrow> Some e
      | None \<Rightarrow> vm_struct J ''Method'' ''_from_compiled_entry'')"

definition get_from_compiled_entry :: "jvm \<Rightarrow> mem \<Rightarrow> addr \<Rightarrow> addr option" where
  "get_from_compiled_entry J m this =
     (case from_compiled_struct J of None \<Rightarrow> Some 0
      | Some e \<Rightarrow> load64 m (this + se_offset e))"

definition set_from_compiled_entry :: "jvm \<Rightarrow> mem \<Rightarrow> addr \<Rightarrow> addr \<Rightarrow> mem option" where
  "set_from_compiled_entry J m this entry_point =
     (case from_compiled_struct J of None \<Rightarrow> Some m
      | Some e \<Rightarrow> store64 m (this + se_offset e) entry_point)"

section \<open>Flags that keep the JIT away\<close>

definition NO_COMPILE :: u32 where
  "NO_COMPILE = 0x02000000 OR 0x04000000 OR 0x08000000 OR 0x01000000"

definition dont_inline_bit :: u16 where
  "dont_inline_bit = push_bit 2 1"

definition set_dont_inline :: "jvm \<Rightarrow> mem \<Rightarrow> addr \<Rightarrow> bool \<Rightarrow> mem option" where
  "set_dont_inline J m method_pointer enabled =
     (let flags = get_flags J method_pointer in
        if flags = 0 then Some m
        else do {
          v \<leftarrow> load16 m flags;
          store16 m flags (if enabled then v OR dont_inline_bit else v AND NOT dont_inline_bit) })"

text \<open>\<open>*flags |= NO_COMPILE\<close> and \<open>*flags &= ~NO_COMPILE\<close> on a non-null flags address.\<close>

definition arm_no_compile :: "mem \<Rightarrow> addr \<Rightarrow> mem option" where
  "arm_no_compile m flags = do { v \<leftarrow> load32 m flags; store32 m flags (v OR NO_COMPILE) }"

definition clear_no_compile :: "mem \<Rightarrow> addr \<Rightarrow> mem option" where
  "clear_no_compile m flags = do { v \<leftarrow> load32 m flags; store32 m flags (v AND NOT NO_COMPILE) }"

section \<open>Adapter recovery\<close>

definition get_c2i_entry_from_adapter :: "jvm \<Rightarrow> mem \<Rightarrow> addr \<Rightarrow> addr option" where
  "get_c2i_entry_from_adapter J m adapter =
     (if adapter = 0 \<or> \<not> is_valid_pointer adapter then Some 0
      else case vm_struct J ''AdapterHandlerEntry'' ''_c2i_entry'' of None \<Rightarrow> Some 0
        | Some e \<Rightarrow> load64 m (adapter + se_offset e))"

definition validate_adapter_handler_entry :: "jvm \<Rightarrow> mem \<Rightarrow> addr \<Rightarrow> u64 \<Rightarrow> bool option" where
  "validate_adapter_handler_entry J m candidate c2i_offset =
     (if candidate = 0 \<or> \<not> is_readable_pointer J candidate then Some False
      else do {
        i2c \<leftarrow> load64 m candidate;
        if i2c = 0 \<or> \<not> is_readable_pointer J i2c then Some False
        else do {
          c2i \<leftarrow> load64 m (candidate + c2i_offset);
          if c2i = 0 \<or> \<not> is_readable_pointer J c2i then Some False
          else let i2c_region = query_region (proc_maps J) i2c;
                   c2i_region = query_region (proc_maps J) c2i
               in Some (ri_committed i2c_region \<and> ri_executable i2c_region
                        \<and> ri_committed c2i_region \<and> ri_executable c2i_region) } })"

definition try_offset :: "jvm \<Rightarrow> mem \<Rightarrow> addr \<Rightarrow> u64 \<Rightarrow> u64 \<Rightarrow> bool option" where
  "try_offset J m probe c2i_offset off =
     do { candidate \<leftarrow> load64 m (probe + off); validate_adapter_handler_entry J m candidate c2i_offset }"

definition skip_offsets :: "jvm \<Rightarrow> u64 list" where
  "skip_offsets J =
     take 8 (List.map_filter (\<lambda>fn. map_option se_offset (vm_struct J ''Method'' fn))
       [''_constMethod'', ''_method_data'', ''_method_counters'', ''_code'', ''_i2i_entry'',
        ''_from_interpreted_entry''])"

text \<open>The scan over the pointer-sized slots of the Method, skipping the known fields.\<close>

fun scan_slots :: "(u64 \<Rightarrow> bool option) \<Rightarrow> u64 list \<Rightarrow> u64 list \<Rightarrow> u64 option" where
  "scan_slots probe_ok skips [] = Some 0"
| "scan_slots probe_ok skips (off # offs) =
     (if off \<in> set skips then scan_slots probe_ok skips offs
      else do { ok \<leftarrow> probe_ok off; if ok then Some off else scan_slots probe_ok skips offs })"

definition method_scan_size :: "jvm \<Rightarrow> nat" where
  "method_scan_size J =
     (case vm_type J ''Method'' of None \<Rightarrow> 512
      | Some t \<Rightarrow> if 0 < te_size t \<and> te_size t < 4096 then unat (te_size t) else 512)"

definition detect_adapter_offset_from_method :: "jvm \<Rightarrow> mem \<Rightarrow> addr \<Rightarrow> u64 option" where
  "detect_adapter_offset_from_method J m probe =
     (if probe = 0 \<or> \<not> is_valid_pointer probe then Some 0
      else case vm_struct J ''AdapterHandlerEntry'' ''_c2i_entry'' of None \<Rightarrow> Some 0
        | Some c2i_field \<Rightarrow>
            let probe_ok = try_offset J m probe (se_offset c2i_field);
                scan = scan_slots probe_ok (skip_offsets J)
                         (map (\<lambda>k. of_nat (8 * k)) [0..<method_scan_size J div 8])
            in case from_compiled_struct J of
                 Some fce \<Rightarrow>
                   if 8 \<le> se_offset fce then
                     do { ok \<leftarrow> probe_ok (se_offset fce - 8);
                          if ok then Some (se_offset fce - 8) else scan }
                   else scan
               | None \<Rightarrow> scan)"

text \<open>The result and the new value of the static \<open>cached_offset\<close>.\<close>

definition get_adapter :: "jvm \<Rightarrow> mem \<Rightarrow> u64 \<Rightarrow> addr \<Rightarrow> (addr \<times> u64) option" where
  "get_adapter J m cached_offset this =
     (case vm_struct J ''Method'' ''_adapter'' of
        Some e \<Rightarrow> do { a \<leftarrow> load64 m (this + se_offset e); Some (a, cached_offset) }
      | None \<Rightarrow> do {
          off \<leftarrow> (if cached_offset = 0 then detect_adapter_offset_from_method J m this
                  else Some cached_offset);
          if off = 0 then Some (0, cached_offset)
          else do { a \<leftarrow> load64 m (this + off); Some (a, off) } })"

section \<open>Facts\<close>

lemma symbol_to_string_length: "symbol_to_string J m p = Some s \<Longrightarrow> length s \<le> 4096"
  by (auto simp: symbol_to_string_def chars_of_bytes_def Let_def word_less_nat_alt
      split: option.splits if_splits bind_splits dest!: load_bytes_length)

lemma cm_pool_symbol_valid:
  "cm_pool_symbol J m f p = Some s \<Longrightarrow> s \<noteq> 0 \<Longrightarrow> is_valid_pointer s"
  by (auto simp: cm_pool_symbol_def Let_def split: option.splits if_splits bind_splits)

lemma scan_slots_sound:
  "scan_slots probe_ok skips offs = Some off \<Longrightarrow> off \<noteq> 0 \<Longrightarrow>
     off \<in> set offs \<and> off \<notin> set skips \<and> probe_ok off = Some True"
  by (induction probe_ok skips offs rule: scan_slots.induct) (auto split: if_splits bind_splits)

end
