(* ===== verification/Code_Scan.thy ===== *)
theory Code_Scan
  imports Vm_Structs
begin

text \<open>
  Reading generated code and finding room for new code: \<open>match_pattern\<close>, \<open>scan\<close>,
  \<open>find_stub_size\<close>, \<open>find_hook_location\<close> and \<open>allocate_nearby_memory\<close> (vmhook.hpp lines 4582
  to 4891).

  The code dereferences raw pointers while it scans, so a scan that leaves the mapped stub
  faults (\<open>None\<close>). The global \<open>locals_offset\<close> that \<open>find_hook_location\<close> may overwrite is passed
  and returned. \<open>os::allocate_rwx\<close> is the parameter \<open>allocate\<close>: it gets the address hint and
  returns the address of the new mapping or null; a failed call leaves the process unchanged.
\<close>

section \<open>Pattern matching\<close>

fun match_pattern :: "mem \<Rightarrow> addr \<Rightarrow> u8 list \<Rightarrow> bool option" where
  "match_pattern m a [] = Some True"
| "match_pattern m a (p # ps) =
     (if p = 0 then match_pattern m (a + 1) ps
      else do { b \<leftarrow> m a; if b \<noteq> p then Some False else match_pattern m (a + 1) ps })"

fun scan :: "mem \<Rightarrow> addr \<Rightarrow> nat \<Rightarrow> u8 list \<Rightarrow> addr option" where
  "scan m start 0 pattern = Some 0"
| "scan m start (Suc rng) pattern = do {
     hit \<leftarrow> match_pattern m start pattern;
     if hit then Some start else scan m (start + 1) rng pattern }"

definition find_stub_size :: "jvm \<Rightarrow> addr \<Rightarrow> u64" where
  "find_stub_size J start =
     (let info = query_region (proc_maps J) start;
          region_end = ri_base info + ri_size info
      in if ri_base info = 0 \<or> ri_size info = 0 then 0x2000
         else if region_end \<le> start then 0x2000
         else min (region_end - start) 0x2000)"

definition pattern_full :: "u8 list" where
  "pattern_full =
     [0x89, 0x84, 0x24, 0, 0, 0, 0,  0x89, 0x84, 0x24, 0, 0, 0, 0,
      0x89, 0x84, 0x24, 0, 0, 0, 0,  0x89, 0x84, 0x24, 0, 0, 0, 0,
      0x41, 0xC6, 0x87, 0, 0, 0, 0, 0]"

definition pattern_fallback :: "u8 list" where
  "pattern_fallback = [0x41, 0xC6, 0x87, 0, 0, 0, 0, 0]"

definition locals_pattern :: "u8 list" where
  "locals_pattern = [0x4C, 0x8B, 0x75, 0, 0xC3]"

text \<open>
  The backward scan from the injection point to just above the stub's start; the counter is
  the distance \<open>scan_ptr - current\<close>. It returns the new \<open>locals_offset\<close>.
\<close>

fun scan_locals_offset :: "mem \<Rightarrow> addr \<Rightarrow> nat \<Rightarrow> 8 word \<Rightarrow> 8 word option" where
  "scan_locals_offset m scan_ptr 0 locals_offset = Some locals_offset"
| "scan_locals_offset m scan_ptr (Suc n) locals_offset = do {
     hit \<leftarrow> match_pattern m scan_ptr locals_pattern;
     if hit then m (scan_ptr + 3) else scan_locals_offset m (scan_ptr - 1) n locals_offset }"

definition default_locals_offset :: "8 word" where
  "default_locals_offset = -56"

definition find_hook_location :: "jvm \<Rightarrow> mem \<Rightarrow> 8 word \<Rightarrow> addr \<Rightarrow> (addr \<times> 8 word) option" where
  "find_hook_location J m locals_offset current = do {
     let scan_size = unat (find_stub_size J current);
     full_match \<leftarrow> scan m current scan_size pattern_full;
     injection_point \<leftarrow>
       (if full_match \<noteq> 0 then Some (full_match + of_nat (length pattern_full) - 8)
        else scan m current scan_size pattern_fallback);
     if injection_point = 0 then Some (0, locals_offset)
     else do {
       lo \<leftarrow> scan_locals_offset m injection_point (unat (injection_point - current)) locals_offset;
       Some (injection_point, lo) } }"

section \<open>Nearby allocation\<close>

definition align_up :: "u64 \<Rightarrow> u64 \<Rightarrow> u64" where
  "align_up v alignment = (v + alignment - 1) AND NOT (alignment - 1)"

definition align_down :: "u64 \<Rightarrow> u64 \<Rightarrow> u64" where
  "align_down v alignment = v AND NOT (alignment - 1)"

definition relative_limit :: u64 where
  "relative_limit = 0x7FFFFFFF"

definition minimum_application_address :: u64 where
  "minimum_application_address = 0x10000"

definition search_min :: "addr \<Rightarrow> u64" where
  "search_min target =
     max minimum_application_address
       (if target > relative_limit then target - relative_limit else minimum_application_address)"

definition search_max :: "addr \<Rightarrow> u64" where
  "search_max target =
     (if target > user_address_ceiling - relative_limit then user_address_ceiling
      else min user_address_ceiling (target + relative_limit))"

definition try_allocate_in_region ::
  "u64 \<Rightarrow> (addr \<Rightarrow> u64 \<Rightarrow> addr) \<Rightarrow> addr \<Rightarrow> u64 \<Rightarrow> u64 \<Rightarrow> u64 \<Rightarrow> addr" where
  "try_allocate_in_region granularity allocate target sz region_base region_end =
     (if region_end \<le> region_base \<or> region_end - region_base < sz then 0
      else let usable_begin = max region_base (search_min target);
               usable_end = min region_end (search_max target + 1)
           in if usable_end \<le> usable_begin \<or> usable_end - usable_begin < sz then 0
      else let first_candidate = align_up usable_begin granularity;
               last_candidate = align_down (usable_end - sz) granularity
           in if first_candidate > last_candidate then 0
      else let preferred_candidate =
                 (if target < first_candidate then first_candidate
                  else if target > last_candidate then last_candidate
                  else align_down target granularity)
           in if allocate preferred_candidate sz \<noteq> 0 then allocate preferred_candidate sz
      else if preferred_candidate \<noteq> first_candidate \<and> allocate first_candidate sz \<noteq> 0
           then allocate first_candidate sz
      else if preferred_candidate \<noteq> last_candidate \<and> first_candidate \<noteq> last_candidate
              \<and> allocate last_candidate sz \<noteq> 0
           then allocate last_candidate sz
      else 0)"

text \<open>
  The walk over the process's regions. It is partial: \<open>None\<close> is a walk that does not return,
  which a page size of zero would give. \<open>nearby_walk_returns\<close> below shows that it returns.
\<close>

partial_function (option) nearby_walk ::
  "u64 \<Rightarrow> map_line option list \<Rightarrow> (addr \<Rightarrow> u64 \<Rightarrow> addr) \<Rightarrow> addr \<Rightarrow> u64 \<Rightarrow> u64 \<Rightarrow> addr option" where
  [code]: "nearby_walk ps maps allocate target sz current =
     (if \<not> current < search_max target then Some 0
      else let info = query_region maps current in
        if ri_base info = 0 then nearby_walk ps maps allocate target sz (current + ps)
        else let region_end = ri_base info + ri_size info;
                 allocated = (if ri_free info
                   then try_allocate_in_region ps allocate target sz (ri_base info) region_end
                   else 0)
             in if allocated \<noteq> 0 then Some allocated
                else if region_end \<le> current then Some 0
                else nearby_walk ps maps allocate target sz region_end)"

definition allocate_nearby_memory ::
  "u64 \<Rightarrow> map_line option list \<Rightarrow> (addr \<Rightarrow> u64 \<Rightarrow> addr) \<Rightarrow> addr \<Rightarrow> u64 \<Rightarrow> addr option" where
  "allocate_nearby_memory ps maps allocate nearby_addr sz =
     (if nearby_addr = 0 \<or> sz = 0 then Some 0
      else nearby_walk ps maps allocate nearby_addr sz (search_min nearby_addr))"

section \<open>What a scan finds\<close>

lemma match_pattern_True_iff:
  assumes "mapped m a (length ps)"
  shows "match_pattern m a ps = Some (\<forall>i < length ps. ps ! i = 0 \<or> m (a + of_nat i) = Some (ps ! i))"
  using assms
proof (induction m a ps rule: match_pattern.induct)
  case (1 m a)
  then show ?case by simp
next
  case (2 m a p ps)
  then obtain b where b: "m a = Some b" by (auto simp: mapped_Suc)
  have "mapped m (a + 1) (length ps)" using 2 by (simp add: mapped_Suc)
  with 2 b show ?case
    by (cases "p = 0"; cases "b = p") (auto simp: All_less_Suc2 ac_simps)
qed

lemma match_pattern_True:
  "match_pattern m a ps = Some True \<Longrightarrow> i < length ps \<Longrightarrow> ps ! i \<noteq> 0 \<Longrightarrow> m (a + of_nat i) = Some (ps ! i)"
proof (induction m a ps arbitrary: i rule: match_pattern.induct)
  case (1 m a)
  then show ?case by simp
next
  case (2 m a p ps)
  then show ?case
    by (cases i) (auto simp: ac_simps split: if_splits bind_splits)
qed

lemma scan_hit:
  assumes "scan m start rng pattern = Some r" and "r \<noteq> 0"
  shows "\<exists>k < rng. r = start + of_nat k \<and> match_pattern m r pattern = Some True
     \<and> (\<forall>j < k. match_pattern m (start + of_nat j) pattern = Some False)"
  using assms
proof (induction m start rng pattern rule: scan.induct)
  case (1 m start pattern)
  then show ?case by simp
next
  case (2 m start rng pattern)
  show ?case
  proof (cases "match_pattern m start pattern")
    case (Some hit)
    show ?thesis
    proof (cases hit)
      case False
      with 2 Some obtain k where k: "k < rng" "r = start + 1 + of_nat k"
        "match_pattern m r pattern = Some True"
        "\<forall>j < k. match_pattern m (start + 1 + of_nat j) pattern = Some False"
        by auto
      with Some False show ?thesis
        by (intro exI [of _ "Suc k"]) (auto simp: All_less_Suc2 ac_simps)
    qed (use 2 Some in auto)
  qed (use 2 in auto)
qed

lemma scan_miss:
  assumes "scan m start rng pattern = Some 0" and "\<forall>k < rng. start + of_nat k \<noteq> 0"
  shows "\<forall>k < rng. match_pattern m (start + of_nat k) pattern = Some False"
  using assms
proof (induction m start rng pattern rule: scan.induct)
  case (1 m start pattern)
  then show ?case by simp
next
  case (2 m start rng pattern)
  then show ?case
    by (auto simp: All_less_Suc2 ac_simps split: bind_splits if_splits)
qed

lemma scan_total:
  "mapped m start (rng + length pattern) \<Longrightarrow> \<exists>r. scan m start rng pattern = Some r"
proof (induction m start rng pattern rule: scan.induct)
  case (2 m start rng pattern)
  have "mapped m start (length pattern)" by (rule mapped_le [OF 2(2)]) simp
  moreover have "mapped m (start + 1) (rng + length pattern)"
    using 2(2) by (simp add: mapped_Suc)
  ultimately show ?case using 2(1) by (auto simp: match_pattern_True_iff)
qed simp

lemma scan_locals_offset_result:
  "scan_locals_offset m p n lo = Some r \<Longrightarrow>
     r = lo \<or> (\<exists>k < n. match_pattern m (p - of_nat k) locals_pattern = Some True \<and> m (p - of_nat k + 3) = Some r)"
proof (induction m p n lo rule: scan_locals_offset.induct)
  case (1 m p lo)
  then show ?case by simp
next
  case (2 m p n lo)
  then obtain hit where hit: "match_pattern m p locals_pattern = Some hit" by (auto split: bind_splits)
  show ?case
  proof (cases hit)
    case True
    with 2 hit show ?thesis by auto
  next
    case False
    with 2 hit consider "r = lo" | k where "k < n"
      "match_pattern m (p - 1 - of_nat k) locals_pattern = Some True" "m (p - 1 - of_nat k + 3) = Some r"
      by auto
    then show ?thesis
    proof cases
      case 2
      have "p - 1 - of_nat k = p - of_nat (Suc k)" by simp
      with 2 show ?thesis by (metis Suc_mono)
    qed simp
  qed
qed

lemma find_stub_size_le: "find_stub_size J p \<le> 0x2000"
  by (simp add: find_stub_size_def Let_def)

lemma find_stub_size_region:
  assumes "ri_base (query_region (proc_maps J) p) \<noteq> 0" and "ri_size (query_region (proc_maps J) p) \<noteq> 0"
    and "p < ri_base (query_region (proc_maps J) p) + ri_size (query_region (proc_maps J) p)"
  shows "find_stub_size J p \<le> ri_base (query_region (proc_maps J) p) + ri_size (query_region (proc_maps J) p) - p"
  using assms linorder_not_le [THEN iffD2, OF assms(3)]
  by (simp only: find_stub_size_def Let_def if_False min.cobounded1 simp_thms)

section \<open>Where a nearby block is placed\<close>

lemma unat_align_down: "unat (align_down v (2 ^ k)) = unat v div 2 ^ k * 2 ^ k"
  by (simp only: align_down_def unat_page_floor)

lemma align_up_down: "align_up v g = align_down (v + g - 1) g"
  by (simp add: align_up_def align_down_def)

lemma unat_align_up:
  assumes "unat v + 2 ^ k < 2 ^ 64"
  shows "unat (align_up v (2 ^ k)) = (unat v + (2 ^ k - 1)) div 2 ^ k * 2 ^ k"
proof -
  have k: "(2 :: nat) ^ k < 2 ^ 64" using assms by linarith
  then have "unat (push_bit k 1 :: u64) = 2 ^ k"
    by (simp only: unat_push_bit64) simp
  then have "unat (2 ^ k :: u64) = 2 ^ k" by (simp add: push_bit_of_1)
  then have "unat (v + 2 ^ k) = unat v + 2 ^ k" using assms
    by (simp add: unat_word_ariths)
  moreover from this have "unat (v + 2 ^ k - 1) = unat (v + 2 ^ k) - 1"
    by (intro unat_minus_one) (metis add_is_0 power_not_zero unat_0 zero_neq_numeral)
  ultimately have "unat (v + 2 ^ k - 1) = unat v + (2 ^ k - 1)" by simp
  then show ?thesis by (simp only: align_up_down unat_align_down)
qed

lemma search_window:
  assumes "minimum_application_address \<le> target" and "target < user_address_ceiling"
  shows "unat (search_min target) = max 65536 (unat target - 2147483647)"
    and "unat (search_max target) = min 140737488355327 (unat target + 2147483647)"
    and "unat (search_max target + 1) = unat (search_max target) + 1"
proof -
  have bd: "65536 \<le> unat target" "unat target < 140737488355327"
    using assms
    by (simp_all add: minimum_application_address_def user_address_ceiling_def word_le_nat_alt word_less_nat_alt)
  show "unat (search_min target) = max 65536 (unat target - 2147483647)"
    using bd by (auto simp: search_min_def relative_limit_def minimum_application_address_def
        word_less_nat_alt word_le_nat_alt unat_sub max_def)
  show mx: "unat (search_max target) = min 140737488355327 (unat target + 2147483647)"
    using bd by (auto simp: search_max_def relative_limit_def user_address_ceiling_def
        word_less_nat_alt word_le_nat_alt unat_word_ariths min_def)
  show "unat (search_max target + 1) = unat (search_max target) + 1"
    using mx by (simp add: unat_word_ariths)
qed

text \<open>
  \<open>honours\<close> is what mmap documents for a hint whose range is free: the mapping is placed at the
  hint or the call fails. A block \<open>fits\<close> when it lies in the given region and in the search
  window and starts on a page.
\<close>

definition honours :: "(addr \<Rightarrow> u64 \<Rightarrow> addr) \<Rightarrow> bool" where
  "honours allocate \<longleftrightarrow> (\<forall>h s. allocate h s = 0 \<or> allocate h s = h)"

definition fits :: "nat \<Rightarrow> addr \<Rightarrow> u64 \<Rightarrow> u64 \<Rightarrow> u64 \<Rightarrow> addr \<Rightarrow> bool" where
  "fits k target sz region_base region_end p \<longleftrightarrow>
     unat p mod 2 ^ k = 0 \<and> region_base \<le> p \<and> unat p + unat sz \<le> unat region_end
     \<and> search_min target \<le> p \<and> unat p + unat sz \<le> unat (search_max target) + 1"

lemma aligned_le: "a mod 2 ^ k = 0 \<Longrightarrow> a \<le> (b :: nat) \<Longrightarrow> a \<le> b div 2 ^ k * 2 ^ k"
  by (metis div_le_mono mod_0_imp_dvd dvd_div_mult_self mult_le_mono1)

lemma align_up_ge:
  assumes "unat v + 2 ^ k < 2 ^ 64"
  shows "unat v \<le> unat (align_up v (2 ^ k))" and "unat (align_up v (2 ^ k)) mod 2 ^ k = 0"
proof -
  have "unat v + (2 ^ k - 1) < unat (align_up v (2 ^ k)) + 2 ^ k"
    unfolding unat_align_up [OF assms]
    using dividend_less_div_times [of "2 ^ k" "unat v + (2 ^ k - 1)"] by simp
  then show "unat v \<le> unat (align_up v (2 ^ k))" by simp
  show "unat (align_up v (2 ^ k)) mod 2 ^ k = 0" by (simp add: unat_align_up [OF assms])
qed

lemma candidate_fits:
  assumes win: "minimum_application_address \<le> target" "target < user_address_ceiling"
    and k: "k \<le> 16"
    and ub: "ub = max region_base (search_min target)"
    and ue: "ue = min region_end (search_max target + 1)"
    and room: "\<not> ue \<le> ub" "\<not> ue - ub < sz"
    and order: "align_up ub (2 ^ k) \<le> c" "c \<le> align_down (ue - sz) (2 ^ k)"
    and al: "unat c mod 2 ^ k = 0"
  shows "fits k target sz region_base region_end c"
proof -
  have k2: "(2 :: nat) ^ k \<le> 65536"
    using power_increasing [OF k, of "2 :: nat"] by simp
  have ue_le: "unat ue \<le> unat (search_max target) + 1" "unat ue \<le> unat region_end"
    using search_window(3) [OF win] by (auto simp: ue min_def word_le_nat_alt)
  have "unat ub < unat ue" using room(1) by (simp add: word_less_nat_alt not_le)
  moreover have "unat ue \<le> 140737488355328" using ue_le(1) search_window(2) [OF win] by linarith
  ultimately have ubk: "unat ub + 2 ^ k < 2 ^ 64" using k2 by simp
  have "unat sz \<le> unat ue - unat ub"
    using room by (simp add: not_less not_le word_le_nat_alt word_less_nat_alt unat_sub)
  then have "unat (ue - sz) = unat ue - unat sz"
    by (intro unat_sub) (simp add: word_le_nat_alt)
  then have "unat c \<le> unat ue - unat sz"
    using order(2) unat_align_down [of "ue - sz" k] div_times_less_eq_dividend [of "unat (ue - sz)" "2 ^ k"]
    unfolding word_le_nat_alt by linarith
  with \<open>unat sz \<le> unat ue - unat ub\<close> \<open>unat ub < unat ue\<close> have top: "unat c + unat sz \<le> unat ue"
    by linarith
  have "ub \<le> c" using order(1) align_up_ge(1) [OF ubk] by (simp add: word_le_nat_alt)
  then have "region_base \<le> c" "search_min target \<le> c" by (auto simp: ub)
  with top ue_le al show ?thesis unfolding fits_def by simp
qed

text \<open>Every candidate of \<open>try_allocate_in_region\<close> fits.\<close>

lemma candidates_fit:
  assumes win: "minimum_application_address \<le> target" "target < user_address_ceiling" and k: "k \<le> 16"
    and ub: "ub = max region_base (search_min target)" and ue: "ue = min region_end (search_max target + 1)"
    and room: "\<not> ue \<le> ub" "\<not> ue - ub < sz"
    and lo: "lo = align_up ub (2 ^ k)" and hi: "hi = align_down (ue - sz) (2 ^ k)" and order: "lo \<le> hi"
    and h: "h \<in> {lo, hi, if target < lo then lo else if target > hi then hi else align_down target (2 ^ k)}"
  shows "fits k target sz region_base region_end h"
proof -
  have "unat ue \<le> 140737488355328"
    using search_window(2,3) [OF win] by (auto simp: ue min_def word_le_nat_alt split: if_splits)
  moreover have "unat ub < unat ue" using room(1) by (simp add: word_less_nat_alt not_le)
  moreover have "(2 :: nat) ^ k \<le> 65536" using power_increasing [OF k, of "2 :: nat"] by simp
  ultimately have ubk: "unat ub + 2 ^ k < 2 ^ 64" by simp
  have al: "unat lo mod 2 ^ k = 0" "unat hi mod 2 ^ k = 0"
    using align_up_ge(2) [OF ubk] by (simp_all add: lo hi unat_align_down)
  have "lo \<le> h \<and> h \<le> hi \<and> unat h mod 2 ^ k = 0"
    using h order al aligned_le [OF al(1), of "unat target"]
      order_trans [OF div_times_less_eq_dividend [of "unat target" "2 ^ k"], of "unat hi"]
    by (auto simp: word_le_nat_alt word_less_nat_alt unat_align_down not_less)
  then show ?thesis
    by (intro candidate_fits [OF win k ub ue room]) (simp_all flip: lo hi)
qed

lemma try_allocate_candidate:
  assumes win: "minimum_application_address \<le> target" "target < user_address_ceiling" and k: "k \<le> 16"
    and r: "try_allocate_in_region (2 ^ k) allocate target sz region_base region_end \<noteq> 0"
  shows "\<exists>h. fits k target sz region_base region_end h
     \<and> try_allocate_in_region (2 ^ k) allocate target sz region_base region_end = allocate h sz"
proof -
  define ub where ub: "ub = max region_base (search_min target)"
  define ue where ue: "ue = min region_end (search_max target + 1)"
  define lo where lo: "lo = align_up ub (2 ^ k)"
  define hi where hi: "hi = align_down (ue - sz) (2 ^ k)"
  define pref where pref: "pref = (if target < lo then lo else if target > hi then hi else align_down target (2 ^ k))"
  note un = try_allocate_in_region_def [of "2 ^ k" allocate target sz region_base region_end,
      unfolded Let_def, folded ub ue, folded lo hi, folded pref]
  have room: "\<not> ue \<le> ub" "\<not> ue - ub < sz" "lo \<le> hi"
    using r unfolding un by (auto split: if_splits simp: not_le not_less)
  have "\<exists>h. h \<in> {lo, hi, pref} \<and> try_allocate_in_region (2 ^ k) allocate target sz region_base region_end = allocate h sz"
    using r unfolding un by (auto split: if_splits)
  then show ?thesis
    using candidates_fit [OF win k ub ue room(1,2) lo hi room(3)] unfolding pref by blast
qed

lemma try_allocate_fits:
  assumes "minimum_application_address \<le> target" and "target < user_address_ceiling" and "k \<le> 16" and "honours allocate"
    and "try_allocate_in_region (2 ^ k) allocate target sz region_base region_end = p" and "p \<noteq> 0"
  shows "fits k target sz region_base region_end p \<and> allocate p sz = p"
proof -
  obtain h where h: "fits k target sz region_base region_end h" "p = allocate h sz"
    using try_allocate_candidate [OF assms(1-3)] assms(5,6) by metis
  moreover have "allocate h sz = h" using assms(4,6) h(2) unfolding honours_def by metis
  ultimately show ?thesis by simp
qed

definition placed :: "nat \<Rightarrow> map_line option list \<Rightarrow> (addr \<Rightarrow> u64 \<Rightarrow> addr) \<Rightarrow> addr \<Rightarrow> u64 \<Rightarrow> addr \<Rightarrow> bool" where
  "placed k maps allocate target sz p \<longleftrightarrow> allocate p sz = p \<and>
     (\<exists>a. ri_free (query_region maps a)
        \<and> fits k target sz (ri_base (query_region maps a))
            (ri_base (query_region maps a) + ri_size (query_region maps a)) p)"

lemma nearby_walk_returns:
  assumes win: "minimum_application_address \<le> target" "target < user_address_ceiling"
    and k: "k \<le> 16" and h: "honours allocate"
  shows "\<exists>p. nearby_walk (2 ^ k) maps allocate target sz current = Some p \<and> (p = 0 \<or> placed k maps allocate target sz p)"
proof (induction "2 ^ 64 - unat current" arbitrary: current rule: less_induct)
  case less
  let ?i = "query_region maps current"
  let ?fin = "ri_base ?i + ri_size ?i"
  let ?cand = "try_allocate_in_region (2 ^ k) allocate target sz (ri_base ?i) ?fin"
  have IH: "\<exists>p. nearby_walk (2 ^ k) maps allocate target sz next = Some p \<and> (p = 0 \<or> placed k maps allocate target sz p)"
    if "current < next" for "next"
    by (rule less) (use that unat_lt64 [of "next"] in \<open>auto simp: word_less_nat_alt\<close>)
  show ?case
  proof (cases "current < search_max target")
    case False
    then show ?thesis by (subst nearby_walk.simps) simp
  next
    case True
    then have "unat current < 140737488355327"
      using search_window(2) [OF win] by (simp add: word_less_nat_alt)
    moreover have pk: "0 < unat (2 ^ k :: u64) \<and> unat (2 ^ k :: u64) \<le> 65536"
    proof -
      have "unat (push_bit k 1 :: u64) = 2 ^ k mod 2 ^ 64"
        by (simp only: unat_push_bit64) simp
      moreover have "(2 :: nat) ^ k \<le> 65536"
        using power_increasing [OF k, of "2 :: nat"] by simp
      ultimately show ?thesis by (simp add: push_bit_of_1)
    qed
    ultimately have stp: "current < current + 2 ^ k"
      by (auto simp: word_less_nat_alt unat_word_ariths)
    have hit: "placed k maps allocate target sz ?cand" if "ri_free ?i" "?cand \<noteq> 0"
      unfolding placed_def using that try_allocate_fits [OF win k h refl] by blast
    show ?thesis
      using True IH [OF stp] IH [of ?fin] hit
      by (subst nearby_walk.simps) (auto simp: Let_def not_le)
  qed
qed

lemma allocate_nearby_memory_returns:
  assumes "minimum_application_address \<le> target" and "target < user_address_ceiling"
    and "k \<le> 16" and "honours allocate"
  shows "\<exists>p. allocate_nearby_memory (2 ^ k) maps allocate target sz = Some p
     \<and> (p = 0 \<or> placed k maps allocate target sz p)"
  using nearby_walk_returns [OF assms, of maps sz "search_min target"]
  by (auto simp: allocate_nearby_memory_def)

section \<open>Properties\<close>

lemma full_match_has_state_write:
  assumes "match_pattern m a pattern_full = Some True"
  shows "match_pattern m (a + 28) pattern_fallback = Some True"
proof -
  have "m (a + of_nat 28) = Some 0x41" "m (a + of_nat 29) = Some 0xC6" "m (a + of_nat 30) = Some 0x87"
    using match_pattern_True [OF assms, of 28] match_pattern_True [OF assms, of 29] match_pattern_True [OF assms, of 30]
    by (simp_all add: pattern_full_def)
  then show ?thesis by (simp add: pattern_fallback_def add.assoc)
qed

text \<open>The injection point that find_hook_location returns always starts with the thread-state
  write instruction, lies within the stub's scan window (with the 28 bytes of spills before it
  when the full pattern matched), and the locals offset is either the old one or the
  displacement byte of the load instruction it was searched for.\<close>

theorem find_hook_location_sound:
  assumes "find_hook_location J m lo current = Some (r, lo')" and "r \<noteq> 0"
  shows "match_pattern m r pattern_fallback = Some True
     \<and> (\<exists>k < unat (find_stub_size J current). r = current + of_nat k \<or> r = current + of_nat k + 28)
     \<and> (lo' = lo \<or> (\<exists>q. match_pattern m q locals_pattern = Some True \<and> m (q + 3) = Some lo'))"
proof -
  obtain f where f: "scan m current (unat (find_stub_size J current)) pattern_full = Some f"
    using assms(1) by (auto simp: find_hook_location_def Let_def bind_eq_Some_conv)
  define inj where "inj = (if f \<noteq> 0 then Some (f + of_nat (length pattern_full) - 8)
      else scan m current (unat (find_stub_size J current)) pattern_fallback)"
  have inj: "inj = Some r" and lo: "scan_locals_offset m r (unat (r - current)) lo = Some lo'"
    using assms f by (auto simp: find_hook_location_def inj_def Let_def bind_eq_Some_conv split: if_splits)
  have lopart: "lo' = lo \<or> (\<exists>q. match_pattern m q locals_pattern = Some True \<and> m (q + 3) = Some lo')"
    using scan_locals_offset_result [OF lo] by blast
  show ?thesis
  proof (cases "f = 0")
    case True
    with inj have "scan m current (unat (find_stub_size J current)) pattern_fallback = Some r" by (simp add: inj_def)
    from scan_hit [OF this assms(2)] lopart show ?thesis by blast
  next
    case False
    then have r: "r = f + 28" using inj by (simp add: inj_def pattern_full_def) (simp add: add.commute)
    from scan_hit [OF f False] obtain k where "k < unat (find_stub_size J current)" "f = current + of_nat k"
      "match_pattern m f pattern_full = Some True" by blast
    with full_match_has_state_write [of m f] r lopart show ?thesis by blast
  qed
qed

definition stub_jvm :: "addr \<Rightarrow> jvm" where
  "stub_jvm e = \<lparr>vm_types = [], vm_structs = [], proc_maps = [Some \<lparr>ml_begin = 0x10000, ml_end = e, ml_perms = ''r-xp''\<rparr>]\<rparr>"

lemma find_hook_location_sound_witness:
  "find_hook_location (stub_jvm 0x10801) (put 0x10800 [0x41, 0xC6, 0x87, 1, 2, 3, 4, 5] ram) (-56) 0x10800 = Some (0x10800, -56)
   \<and> match_pattern (put 0x10800 [0x41, 0xC6, 0x87, 1, 2, 3, 4, 5] ram) 0x10800 pattern_fallback = Some True"
proof -
  let ?m = "put 0x10800 [0x41, 0xC6, 0x87, 1, 2, 3, 4, 5] ram"
  have sz: "find_stub_size (stub_jvm 0x10801) 0x10800 = 1"
    by (simp add: find_stub_size_def stub_jvm_def query_region_def empty_region_def)
  have b: "?m 0x10800 = Some 0x41" "?m 0x10801 = Some 0xC6" "?m 0x10802 = Some 0x87" by (simp_all add: put_def)
  have "find_hook_location (stub_jvm 0x10801) ?m (-56) 0x10800 = Some (0x10800, -56)"
    by (simp add: find_hook_location_def sz pattern_full_def pattern_fallback_def b)
  with find_hook_location_sound [OF this] show ?thesis by simp
qed

text \<open>The scan compares whole patterns at every offset of the region, so near the region's end
  it reads behind it: on a stub whose last byte is the first byte of the pattern and whose next
  page is not mapped, find_hook_location faults instead of failing.\<close>

theorem find_hook_location_reads_past_the_region:
  "find_stub_size (stub_jvm 0x11000) 0x10FFF = 1
   \<and> find_hook_location (stub_jvm 0x11000) (\<lambda>a. if a < 0x11000 then Some 0x41 else None) lo 0x10FFF = None"
proof -
  have sz: "find_stub_size (stub_jvm 0x11000) 0x10FFF = 1"
    by (simp add: find_stub_size_def stub_jvm_def query_region_def empty_region_def)
  then show ?thesis by (simp add: find_hook_location_def pattern_full_def pattern_fallback_def)
qed



end
