(* ===== verification/Trampoline.thy ===== *)
theory Trampoline
  imports Code_Scan
begin

text \<open>
  The code patcher \<open>midi2i_hook\<close> (vmhook.hpp lines 5339 to 5808), System V branch: the
  constructor that builds a trampoline and patches a jump over the injection point, the
  destructor that restores it, \<open>verify_and_repair\<close> and \<open>rewrite_chain_resume\<close>.

  The operating system is the record \<open>os_env\<close>. \<open>mmap\<close> gives zeroed whole pages, \<open>munmap\<close> takes
  whole pages away. Page permissions are not tracked: the result of \<open>protect\<close> is, and every
  mapped byte can be written; \<open>Page_Permissions\<close> adds the permissions. An instruction-cache flush has no effect on this state.
\<close>

record os_env =
  os_page_size :: u64
  os_mprotect :: "addr \<Rightarrow> u64 \<Rightarrow> u32 \<Rightarrow> bool"
  os_allocate_rwx :: "addr \<Rightarrow> u64 \<Rightarrow> addr"

definition os_protect :: "os_env \<Rightarrow> addr \<Rightarrow> u64 \<Rightarrow> memory_protection \<Rightarrow> bool" where
  "os_protect OS = protect (os_page_size OS) (os_mprotect OS)"

definition map_pages :: "os_env \<Rightarrow> addr \<Rightarrow> u64 \<Rightarrow> mem \<Rightarrow> mem" where
  "map_pages OS p sz m = put p (replicate (unat (align_up sz (os_page_size OS))) 0) m"

definition unmap_pages :: "os_env \<Rightarrow> addr \<Rightarrow> u64 \<Rightarrow> mem \<Rightarrow> mem" where
  "unmap_pages OS p sz m =
     (if p = 0 \<or> sz = 0 then m
      else (\<lambda>x. if unat (x - p) < unat (align_up sz (os_page_size OS)) then None else m x))"

section \<open>The object\<close>

record midi2i_hook =
  mh_target :: addr
  mh_allocated :: addr
  mh_allocated_size :: u64
  mh_current_chain_resume :: addr
  mh_error :: bool

definition HOOK_SIZE :: nat where "HOOK_SIZE = 8"
definition JMP_SIZE :: nat where "JMP_SIZE = 5"
definition JMP_OPCODE :: u8 where "JMP_OPCODE = 0xE9"
definition JE_OFFSET :: nat where "JE_OFFSET = 0x2F"
definition JE_SIZE :: nat where "JE_SIZE = 6"
definition RESUME_OFFSET :: nat where "RESUME_OFFSET = 0x62"
definition RESUME_JMP_OFFSET :: nat where "RESUME_JMP_OFFSET = 0x74"
definition RESUME_JMP_SIZE :: nat where "RESUME_JMP_SIZE = 5"
definition DETOUR_ADDRESS_OFFSET :: nat where "DETOUR_ADDRESS_OFFSET = 0x79"

lemmas layout_consts = HOOK_SIZE_def JMP_SIZE_def JMP_OPCODE_def JE_OFFSET_def JE_SIZE_def
  RESUME_OFFSET_def RESUME_JMP_OFFSET_def RESUME_JMP_SIZE_def DETOUR_ADDRESS_OFFSET_def

definition assembly_template :: "u8 list" where
  "assembly_template =
     [0x50, 0x57, 0x56, 0x52, 0x51, 0x41, 0x50, 0x41, 0x51, 0x41, 0x52, 0x41, 0x53, 0x55,
      0x6A, 0x00, 0x6A, 0x00,
      0x48, 0x89, 0xEF, 0x4C, 0x89, 0xFE, 0x48, 0x89, 0xE2,
      0x48, 0x89, 0xE5, 0x48, 0x83, 0xE4, 0xF0,
      0xFF, 0x15, 0x51, 0x00, 0x00, 0x00,
      0x48, 0x89, 0xEC,
      0x80, 0x3C, 0x24, 0x00,
      0x0F, 0x84, 0x00, 0x00, 0x00, 0x00,
      0x48, 0x8B, 0x44, 0x24, 0x08, 0x66, 0x48, 0x0F, 0x6E, 0xC0,
      0x48, 0x83, 0xC4, 0x10, 0x5D, 0x41, 0x5B, 0x41, 0x5A, 0x41, 0x59, 0x41, 0x58,
      0x59, 0x5A, 0x5E, 0x5F,
      0x48, 0x83, 0xC4, 0x08, 0x48, 0x8B, 0x5D, 0xF8, 0x48, 0x89, 0xEC, 0x5D, 0x5E,
      0x48, 0x89, 0xDC, 0xFF, 0xE6,
      0x48, 0x83, 0xC4, 0x10, 0x5D, 0x41, 0x5B, 0x41, 0x5A, 0x41, 0x59, 0x41, 0x58,
      0x59, 0x5A, 0x5E, 0x5F, 0x58,
      0xE9, 0x00, 0x00, 0x00, 0x00,
      0x00, 0x00, 0x00, 0x00, 0x00, 0x00, 0x00, 0x00]"

lemma length_assembly_template [simp]: "length assembly_template = 129"
  by (simp add: assembly_template_def)

text \<open>\<open>patch k bs xs\<close> overwrites \<open>xs\<close> from index \<open>k\<close>; \<open>rel32\<close> is the truncated distance a
  near jump encodes, measured from the address of the next instruction.\<close>

definition patch :: "nat \<Rightarrow> u8 list \<Rightarrow> u8 list \<Rightarrow> u8 list" where
  "patch k bs xs = take k xs @ bs @ drop (k + length bs) xs"

definition rel32 :: "addr \<Rightarrow> addr \<Rightarrow> u32" where
  "rel32 dest next_instruction = ucast (dest - next_instruction)"

definition jmp_bytes :: "addr \<Rightarrow> addr \<Rightarrow> u8 list" where
  "jmp_bytes at dest = JMP_OPCODE # le_of_word 4 (rel32 dest (at + of_nat JMP_SIZE))"

definition ctor_chain_resume :: "addr \<Rightarrow> addr" where
  "ctor_chain_resume chain_resume =
     (if chain_resume \<noteq> 0 \<and> is_valid_pointer chain_resume then chain_resume else 0)"

definition effective_resume :: "midi2i_hook \<Rightarrow> addr" where
  "effective_resume h =
     (if mh_current_chain_resume h \<noteq> 0 then mh_current_chain_resume h
      else mh_target h + of_nat HOOK_SIZE)"

definition resume_next :: "addr \<Rightarrow> addr" where
  "resume_next allocated = allocated + of_nat (HOOK_SIZE + RESUME_JMP_OFFSET + RESUME_JMP_SIZE)"

definition assembly :: "addr \<Rightarrow> addr \<Rightarrow> addr \<Rightarrow> u8 list" where
  "assembly allocated resume detour =
     (let je_delta = of_nat (RESUME_OFFSET - (JE_OFFSET + JE_SIZE)) :: u32;
          a1 = patch (JE_OFFSET + 2) (le_of_word 4 je_delta) assembly_template;
          a2 = patch (RESUME_JMP_OFFSET + 1) (le_of_word 4 (rel32 resume (resume_next allocated))) a1
      in patch DETOUR_ADDRESS_OFFSET (le_of_word 8 detour) a2)"

definition total_size :: u64 where
  "total_size = of_nat (HOOK_SIZE + length assembly_template)"

section \<open>Construction and destruction\<close>

definition midi2i_hook_ctor ::
  "os_env \<Rightarrow> jvm \<Rightarrow> mem \<Rightarrow> addr \<Rightarrow> addr \<Rightarrow> addr \<Rightarrow> (midi2i_hook \<times> mem) option" where
  "midi2i_hook_ctor OS J m target detour chain_resume = do {
     allocated \<leftarrow> allocate_nearby_memory (os_page_size OS) (proc_maps J) (os_allocate_rwx OS) target total_size;
     let h = \<lparr>mh_target = target, mh_allocated = allocated, mh_allocated_size = total_size,
              mh_current_chain_resume = ctor_chain_resume chain_resume, mh_error = True\<rparr>;
     if allocated = 0 then Some (h, m)
     else do {
       let m1 = map_pages OS allocated total_size m;
       original \<leftarrow> load_bytes m1 target HOOK_SIZE;
       m2 \<leftarrow> store_bytes m1 allocated original;
       m3 \<leftarrow> store_bytes m2 (allocated + of_nat HOOK_SIZE) (assembly allocated (effective_resume h) detour);
       m4 \<leftarrow> store_bytes m3 target (jmp_bytes target allocated);
       Some (h\<lparr>mh_error := False\<rparr>, m4) } }"

definition midi2i_hook_dtor :: "os_env \<Rightarrow> mem \<Rightarrow> midi2i_hook \<Rightarrow> mem option" where
  "midi2i_hook_dtor OS m h =
     (if mh_error h then Some m
      else do {
        b \<leftarrow> m (mh_target h);
        m1 \<leftarrow> (if b = JMP_OPCODE \<and> os_protect OS (mh_target h) (of_nat JMP_SIZE) execute_rw
               then do { saved \<leftarrow> load_bytes m (mh_allocated h) JMP_SIZE; store_bytes m (mh_target h) saved }
               else Some m);
        Some (unmap_pages OS (mh_allocated h) (mh_allocated_size h) m1) })"

section \<open>Repair\<close>

definition rewrite_chain_resume :: "os_env \<Rightarrow> mem \<Rightarrow> midi2i_hook \<Rightarrow> addr \<Rightarrow> mem option" where
  "rewrite_chain_resume OS m h new_target =
     (if \<not> os_protect OS (mh_allocated h) (mh_allocated_size h) execute_rw then Some m
      else store_bytes m (mh_allocated h + of_nat (HOOK_SIZE + RESUME_JMP_OFFSET + 1))
             (le_of_word 4 (rel32 new_target (resume_next (mh_allocated h)))))"

definition prior_trampoline :: "addr \<Rightarrow> u32 \<Rightarrow> addr" where
  "prior_trampoline target rel = target + of_nat JMP_SIZE + scast rel"

definition repair_chain :: "mem \<Rightarrow> midi2i_hook \<Rightarrow> addr option" where
  "repair_chain m h = do {
     b \<leftarrow> m (mh_target h);
     if b = JMP_OPCODE then do {
       rel \<leftarrow> load32 m (mh_target h + 1);
       let prior = prior_trampoline (mh_target h) rel;
       Some (if prior \<noteq> mh_allocated h \<and> is_valid_pointer prior then prior
             else mh_current_chain_resume h) }
     else Some (mh_current_chain_resume h) }"

definition verify_and_repair ::
  "os_env \<Rightarrow> mem \<Rightarrow> midi2i_hook \<Rightarrow> (bool \<times> midi2i_hook \<times> mem) option" where
  "verify_and_repair OS m h =
     (if mh_error h \<or> mh_target h = 0 \<or> mh_allocated h = 0 then Some (True, h, m)
      else do {
        let expected = jmp_bytes (mh_target h) (mh_allocated h);
        bytes \<leftarrow> load_bytes m (mh_target h) JMP_SIZE;
        if bytes = expected then Some (True, h, m)
        else do {
          new_chain \<leftarrow> repair_chain m h;
          m1 \<leftarrow> (if new_chain \<noteq> mh_current_chain_resume h then rewrite_chain_resume OS m h new_chain
                 else Some m);
          let h1 = h\<lparr>mh_current_chain_resume := new_chain\<rparr>;
          if \<not> os_protect OS (mh_target h) (of_nat JMP_SIZE) execute_rw then Some (False, h1, m1)
          else do { m2 \<leftarrow> store_bytes m1 (mh_target h) expected; Some (False, h1, m2) } } })"

lemma le_of_word_inject32: "le_of_word 4 (a :: u32) = le_of_word 4 b \<Longrightarrow> a = b"
proof -
  assume "le_of_word 4 a = le_of_word 4 b"
  then have "(word_of_le (le_of_word 4 a) :: u32) = word_of_le (le_of_word 4 b)" by (rule arg_cong)
  then show ?thesis by (simp only: word_of_le_of_word [where 'a = 32, of 4, simplified])
qed

section \<open>What the processor does at a near jump\<close>

definition jump_dest :: "mem \<Rightarrow> addr \<Rightarrow> addr option" where
  "jump_dest m a = do {
     b \<leftarrow> m a;
     rel \<leftarrow> load32 m (a + 1);
     if b = JMP_OPCODE then Some (a + of_nat JMP_SIZE + scast rel) else None }"

text \<open>\<open>near a b\<close>: the 64-bit distance from \<open>a\<close> to \<open>b\<close> survives the truncation to 32 bits.\<close>

definition near :: "addr \<Rightarrow> addr \<Rightarrow> bool" where
  "near from_next dest \<longleftrightarrow> - (2 ^ 31) \<le> sint (dest - from_next) \<and> sint (dest - from_next) < 2 ^ 31"

lemma near_rel32: "near n d \<Longrightarrow> n + scast (rel32 d n) = d"
proof -
  assume "near n d"
  then have id: "signed_take_bit 31 (sint (d - n)) = sint (d - n)"
    by (intro signed_take_bit_int_eq_self) (simp_all add: near_def)
  have "bit (d - n) (min k 31) = bit (d - n) k" if "k < 64" for k
  proof -
    have "bit (signed_take_bit 31 (sint (d - n))) k = bit (sint (d - n)) k" by (simp add: id)
    with that show ?thesis by (cases "k = 63") (auto simp: bit_simps min_def split: if_splits)
  qed
  note low = this
  have "(scast (ucast (d - n) :: u32) :: addr) = d - n"
  proof (rule bit_word_eqI)
    fix k assume "k < LENGTH(64)"
    with low [of k] show "bit (scast (ucast (d - n) :: u32) :: addr) k = bit (d - n) k"
      by (auto simp: bit_simps min_def split: if_splits)
  qed
  then show ?thesis by (simp add: rel32_def)
qed

section \<open>Layout of the emitted code\<close>

lemma length_patch: "k + length bs \<le> length xs \<Longrightarrow> length (patch k bs xs) = length xs"
  by (simp add: patch_def)

lemma patch_same: "k + length bs \<le> length xs \<Longrightarrow> take (length bs) (drop k (patch k bs xs)) = bs"
  by (simp add: patch_def min_def)

lemma patch_below: "i + n \<le> k \<Longrightarrow> k + length bs \<le> length xs \<Longrightarrow> take n (drop i (patch k bs xs)) = take n (drop i xs)"
  by (rule nth_equalityI) (auto simp: patch_def nth_append)

lemma patch_above: "k + length bs \<le> i \<Longrightarrow> i + n \<le> length xs \<Longrightarrow>
    take n (drop i (patch k bs xs)) = take n (drop i xs)"
  by (rule nth_equalityI) (auto simp: patch_def nth_append)

lemmas patch_reads = patch_below patch_above length_patch

lemma length_assembly [simp]: "length (assembly a r d) = 129"
  by (simp add: assembly_def Let_def length_patch layout_consts)

lemma length_jmp_bytes [simp]: "length (jmp_bytes a d) = 5"
  by (simp add: jmp_bytes_def)

lemma assembly_resume:
  "take 5 (drop RESUME_JMP_OFFSET (assembly a r d)) = JMP_OPCODE # le_of_word 4 (rel32 r (resume_next a))"
proof -
  have "take 1 (drop RESUME_JMP_OFFSET (assembly a r d)) = [JMP_OPCODE]"
    by (simp add: assembly_def Let_def layout_consts patch_reads) (simp add: assembly_template_def)
  moreover have "take 4 (drop (RESUME_JMP_OFFSET + 1) (assembly a r d)) = le_of_word 4 (rel32 r (resume_next a))"
    using patch_same [of "RESUME_JMP_OFFSET + 1" "le_of_word 4 (rel32 r (resume_next a))"
        "patch (JE_OFFSET + 2) (le_of_word 4 (of_nat (RESUME_OFFSET - (JE_OFFSET + JE_SIZE)))) assembly_template"]
    by (simp add: assembly_def Let_def layout_consts patch_reads)
  ultimately show ?thesis
    using take_add [of 1 4 "drop RESUME_JMP_OFFSET (assembly a r d)"] by (simp add: add.commute)
qed

lemma assembly_detour: "take 8 (drop DETOUR_ADDRESS_OFFSET (assembly a r d)) = le_of_word 8 d"
proof -
  have "take (length (le_of_word 8 d)) (drop DETOUR_ADDRESS_OFFSET (assembly a r d)) = le_of_word 8 d"
    unfolding assembly_def Let_def by (rule patch_same) (simp add: layout_consts length_patch)
  then show ?thesis by simp
qed

lemma assembly_je:
  "take 6 (drop JE_OFFSET (assembly a r d)) = [0x0F, 0x84] @ le_of_word 4 (45 :: u32)"
  by (simp add: assembly_def Let_def layout_consts patch_reads)
    (simp add: assembly_template_def patch_def)

section \<open>States of an installed hook\<close>

text \<open>
  \<open>armed m h\<close>: the injection point jumps to the trampoline. \<open>built m h saved detour\<close>: the
  trampoline holds the saved bytes and the code that calls \<open>detour\<close> and resumes at
  \<open>effective_resume\<close>. \<open>separate h\<close>: target window and trampoline pages do not overlap.
\<close>

definition armed :: "mem \<Rightarrow> midi2i_hook \<Rightarrow> bool" where
  "armed m h \<longleftrightarrow> load_bytes m (mh_target h) JMP_SIZE = Some (jmp_bytes (mh_target h) (mh_allocated h))"

definition built :: "mem \<Rightarrow> midi2i_hook \<Rightarrow> u8 list \<Rightarrow> addr \<Rightarrow> bool" where
  "built m h saved detour \<longleftrightarrow>
     load_bytes m (mh_allocated h) HOOK_SIZE = Some saved
     \<and> load_bytes m (mh_allocated h + of_nat HOOK_SIZE) (length assembly_template)
        = Some (assembly (mh_allocated h) (effective_resume h) detour)"

definition separate :: "midi2i_hook \<Rightarrow> bool" where
  "separate h \<longleftrightarrow> apart (mh_target h) HOOK_SIZE (mh_allocated h) (HOOK_SIZE + length assembly_template)"

lemma load_jmp:
  "load_bytes m a 5 = Some (JMP_OPCODE # le_of_word 4 (r :: u32)) \<Longrightarrow> jump_dest m a = Some (a + of_nat JMP_SIZE + scast r)"
proof -
  assume l: "load_bytes m a 5 = Some (JMP_OPCODE # le_of_word 4 r)"
  have "m a = Some JMP_OPCODE" using load_bytes_nth [OF l, of 0] by simp
  moreover have "load_bytes m (a + 1) 4 = Some (le_of_word 4 r)"
    using load_bytes_inside [OF l, of 1 4] by simp
  ultimately show ?thesis by (simp add: jump_dest_def load_le_def word_of_le_of_word JMP_SIZE_def)
qed

lemma armed_jump:
  assumes "armed m h" and "near (mh_target h + of_nat JMP_SIZE) (mh_allocated h)"
  shows "jump_dest m (mh_target h) = Some (mh_allocated h)"
  using load_jmp [of m "mh_target h" "rel32 (mh_allocated h) (mh_target h + of_nat JMP_SIZE)"]
    near_rel32 [OF assms(2)] assms(1)
  by (simp add: armed_def jmp_bytes_def JMP_SIZE_def)

lemma built_resume_jump:
  assumes "built m h saved detour" and "near (resume_next (mh_allocated h)) (effective_resume h)"
  shows "jump_dest m (mh_allocated h + of_nat (HOOK_SIZE + RESUME_JMP_OFFSET)) = Some (effective_resume h)"
proof -
  have "load_bytes m (mh_allocated h + of_nat HOOK_SIZE + of_nat RESUME_JMP_OFFSET) 5
      = Some (take 5 (drop RESUME_JMP_OFFSET (assembly (mh_allocated h) (effective_resume h) detour)))"
    by (rule load_bytes_inside) (use assms(1) in \<open>auto simp: built_def layout_consts\<close>)
  from load_jmp [OF this [unfolded assembly_resume]] near_rel32 [OF assms(2)]
  show ?thesis by (simp add: resume_next_def layout_consts ac_simps)
qed

lemma built_detour:
  assumes "built m h saved detour"
  shows "load64 m (mh_allocated h + of_nat (HOOK_SIZE + DETOUR_ADDRESS_OFFSET)) = Some detour"
proof -
  have "load_bytes m (mh_allocated h + of_nat HOOK_SIZE + of_nat DETOUR_ADDRESS_OFFSET) 8
      = Some (take 8 (drop DETOUR_ADDRESS_OFFSET (assembly (mh_allocated h) (effective_resume h) detour)))"
    by (rule load_bytes_inside) (use assms in \<open>auto simp: built_def layout_consts\<close>)
  from this [unfolded assembly_detour] show ?thesis
    by (simp add: load_le_def word_of_le_of_word layout_consts ac_simps)
qed

section \<open>The operations establish and keep these states\<close>

lemma built_put_target:
  "separate h \<Longrightarrow> length bs \<le> 8 \<Longrightarrow> 0 < length bs \<Longrightarrow> built m h saved detour \<Longrightarrow> built (put (mh_target h) bs m) h saved detour"
proof -
  assume s: "separate h" and bs: "length bs \<le> 8" "0 < length bs" and b: "built m h saved detour"
  have t: "apart (mh_target h) (length bs) (mh_allocated h) 137"
    using apart_sub [of "mh_target h" 8 "mh_allocated h" 137 0 "length bs"] s bs
    by (simp add: separate_def layout_consts)
  have "apart (mh_target h) (length bs) (mh_allocated h + of_nat i) n" if "i + n \<le> 137" "0 < n" for i n
    by (rule apart_sub_right [OF t that])
  from this [of 0 8] this [of 8 129] b show ?thesis
    by (simp add: built_def load_bytes_put_apart layout_consts)
qed

lemma built_put_apart:
  assumes "built m h saved detour" and ap: "apart q (length bs) (mh_allocated h) 137"
  shows "built (put q bs m) h saved detour"
  using assms(1) apart_sub_right [OF ap, of 0 8] apart_sub_right [OF ap, of 8 129]
  by (simp add: built_def load_bytes_put_apart layout_consts)

text \<open>What the constructor needs of its surroundings: the eight bytes at the target are mapped
  and the new pages do not overlap them.\<close>

definition room_for :: "os_env \<Rightarrow> mem \<Rightarrow> addr \<Rightarrow> addr \<Rightarrow> bool" where
  "room_for OS m target p \<longleftrightarrow>
     mapped m target HOOK_SIZE \<and> HOOK_SIZE + length assembly_template \<le> unat (align_up total_size (os_page_size OS))
     \<and> apart p (unat (align_up total_size (os_page_size OS))) target HOOK_SIZE"

lemma room_separate: "room_for OS m t p \<Longrightarrow> apart t 8 p 137"
  by (auto simp: room_for_def layout_consts apart_def)

lemma midi2i_hook_ctor_ok:
  assumes alloc: "allocate_nearby_memory (os_page_size OS) (proc_maps J) (os_allocate_rwx OS) target total_size = Some p"
    and p: "p \<noteq> 0" and room: "room_for OS m target p"
    and saved: "load_bytes m target HOOK_SIZE = Some saved"
    and h: "h = \<lparr>mh_target = target, mh_allocated = p, mh_allocated_size = total_size,
                  mh_current_chain_resume = ctor_chain_resume chain, mh_error = False\<rparr>"
  shows "midi2i_hook_ctor OS J m target detour chain =
           Some (h, put target (jmp_bytes target p)
                      (put (p + 8) (assembly p (effective_resume h) detour)
                        (put p saved (map_pages OS p total_size m))))"
proof -
  let ?n = "unat (align_up total_size (os_page_size OS))"
  have pages: "mapped (map_pages OS p total_size m) p 137"
  proof -
    have "mapped (map_pages OS p total_size m) p ?n"
      using mapped_put_same [of "replicate ?n 0" p m] unat_lt64 [of "align_up total_size (os_page_size OS)"]
      by (simp add: map_pages_def)
    then show ?thesis
      by (rule mapped_le) (use room in \<open>simp add: room_for_def layout_consts\<close>)
  qed
  have len: "length saved = 8" using saved by (auto dest: load_bytes_length simp: layout_consts)
  have same: "load_bytes (map_pages OS p total_size m) target 8 = Some saved"
    using saved room by (simp add: map_pages_def load_bytes_put_apart room_for_def layout_consts)
  have tgt: "mapped (map_pages OS p total_size m) target 5"
    by (rule mapped_le [of _ _ 8]) (use room in \<open>simp_all add: room_for_def map_pages_def layout_consts\<close>)
  have p8: "mapped (map_pages OS p total_size m) p 8" "mapped (map_pages OS p total_size m) (p + 8) 129"
    using mapped_le [OF pages, of 8] mapped_add [OF pages, of 8 129] by simp_all
  show ?thesis
    unfolding midi2i_hook_ctor_def h
    by (simp add: alloc p Let_def HOOK_SIZE_def same store_bytes_put len p8 tgt effective_resume_def)
qed

text \<open>A constructed hook is armed, built and separate, and touches nothing else.\<close>

lemma midi2i_hook_ctor_states:
  assumes alloc: "allocate_nearby_memory (os_page_size OS) (proc_maps J) (os_allocate_rwx OS) target total_size = Some p"
    and p: "p \<noteq> 0" and room: "room_for OS m target p"
    and saved: "load_bytes m target HOOK_SIZE = Some saved"
    and ctor: "midi2i_hook_ctor OS J m target detour chain = Some (h, m')"
  shows "h = \<lparr>mh_target = target, mh_allocated = p, mh_allocated_size = total_size,
              mh_current_chain_resume = ctor_chain_resume chain, mh_error = False\<rparr>"
    and "armed m' h" and "built m' h saved detour" and "separate h"
    and "load_bytes m' (target + 5) 3 = Some (drop 5 saved)"
proof -
  have len: "length saved = 8" using saved by (auto dest: load_bytes_length simp: layout_consts)
  show h: "h = \<lparr>mh_target = target, mh_allocated = p, mh_allocated_size = total_size,
              mh_current_chain_resume = ctor_chain_resume chain, mh_error = False\<rparr>"
    using ctor midi2i_hook_ctor_ok [OF alloc p room saved refl] by simp
  let ?m0 = "map_pages OS p total_size m" let ?asm = "assembly p (effective_resume h) detour"
  have m': "m' = put target (jmp_bytes target p) (put (p + 8) ?asm (put p saved ?m0))"
    using ctor midi2i_hook_ctor_ok [OF alloc p room saved h] by simp
  show "armed m' h"
    using load_bytes_put_same [of "jmp_bytes target p" target "put (p + 8) ?asm (put p saved ?m0)"]
    by (simp add: m' armed_def h JMP_SIZE_def)
  show sep: "separate h" using room_separate [OF room] by (simp add: separate_def h layout_consts)
  have "apart (p + 8) 129 p 8" by (simp add: apart_def)
  then have "load_bytes (put (p + 8) ?asm (put p saved ?m0)) p 8 = Some saved"
    using load_bytes_put_same [of saved p ?m0] by (simp add: load_bytes_put_apart len)
  moreover have "load_bytes (put (p + 8) ?asm (put p saved ?m0)) (p + 8) 129 = Some ?asm"
    using load_bytes_put_same [of ?asm "p + 8" "put p saved ?m0"] by simp
  ultimately have "built (put (p + 8) ?asm (put p saved ?m0)) h saved detour"
    by (simp add: built_def h layout_consts)
  with built_put_target [OF sep, of "jmp_bytes target p"] show "built m' h saved detour"
    by (simp add: m' h)
  have ap: "apart target 8 p 137" by (rule room_separate [OF room])
  have t3: "apart (target + 5) 3 p 137" using apart_sub [OF ap, of 5 3] by simp
  have "apart (p + 8) 129 (target + 5) 3" "apart p 8 (target + 5) 3"
    using apart_sub [OF apart_sym [OF t3], of 8 129] apart_sub [OF apart_sym [OF t3], of 0 8] by simp_all
  moreover have "apart target 5 (target + 5) 3" by (simp add: apart_def)
  moreover have "load_bytes ?m0 (target + 5) 3 = load_bytes m (target + 5) 3"
  proof -
    have "apart p (unat (align_up total_size (os_page_size OS))) (target + of_nat 5) 3"
      by (rule apart_sub_right [of _ _ _ 8]) (use room in \<open>simp_all add: room_for_def layout_consts\<close>)
    then show ?thesis by (simp add: map_pages_def load_bytes_put_apart)
  qed
  moreover have "load_bytes m (target + 5) 3 = Some (drop 5 saved)"
    using load_bytes_inside [of m target 8 saved 5 3] saved len by (simp add: layout_consts)
  ultimately show "load_bytes m' (target + 5) 3 = Some (drop 5 saved)"
    by (simp add: m' load_bytes_put_apart len)
qed

lemma verify_armed:
  "armed m h \<Longrightarrow> verify_and_repair OS m h = Some (True, h, m)"
  by (simp add: verify_and_repair_def armed_def)

lemma nth_patch:
  "k + length bs \<le> length xs \<Longrightarrow> i < length xs \<Longrightarrow>
     patch k bs xs ! i = (if i < k then xs ! i else if i < k + length bs then bs ! (i - k) else xs ! i)"
  by (auto simp: patch_def nth_append)

lemma patch_patch:
  "length bs = length cs \<Longrightarrow> k + length bs \<le> length xs \<Longrightarrow> patch k bs (patch k cs xs) = patch k bs xs"
  by (rule nth_equalityI) (auto simp: nth_patch length_patch)

lemma patch_swap:
  "k + length bs \<le> j \<Longrightarrow> j + length cs \<le> length xs \<Longrightarrow>
     patch k bs (patch j cs xs) = patch j cs (patch k bs xs)"
  by (rule nth_equalityI) (auto simp: nth_patch length_patch)

lemma patch_resume:
  "patch (RESUME_JMP_OFFSET + 1) (le_of_word 4 (rel32 r' (resume_next a))) (assembly a r d) = assembly a r' d"
  by (simp add: assembly_def Let_def layout_consts patch_swap patch_patch length_patch)

lemma load_put_patch:
  assumes l: "load_bytes m a n = Some xs" and k: "k + length bs \<le> n" and n: "n \<le> 2 ^ 64"
  shows "load_bytes (put (a + of_nat k) bs m) a n = Some (patch k bs xs)"
proof -
  have len: "length xs = n" using l by (auto dest: load_bytes_length)
  have "put (a + of_nat k) bs m (a + of_nat i) = Some (patch k bs xs ! i)" if i: "i < n" for i
  proof (cases "i < k")
    case True
    have kn: "unat (of_nat k :: addr) = k" "unat (of_nat i :: addr) = i" if "bs \<noteq> []"
      using k n i that by (cases bs; simp add: unat_of_nat take_bit_nat_eq_self)+
    have "\<not> unat (of_nat i - of_nat k :: addr) < length bs"
    proof
      assume lt: "unat (of_nat i - of_nat k :: addr) < length bs"
      then have ne: "bs \<noteq> []" by auto
      have "unat (of_nat i - of_nat k :: addr) = 2 ^ 64 - (k - i)"
        using kn [OF ne] True by (simp add: unat_sub_if' word_le_nat_alt)
      with lt k n show False by linarith
    qed
    then show ?thesis using i True k len load_bytes_nth [OF l i] by (simp add: put_def nth_patch)
  next
    case False
    have "of_nat i - of_nat k = (of_nat (i - k) :: addr)" using False by simp
    moreover have "unat (of_nat (i - k) :: addr) = i - k"
      using i n by (simp add: unat_of_nat take_bit_nat_eq_self del: of_nat_diff)
    ultimately show ?thesis using i False k len load_bytes_nth [OF l i]
      by (auto simp: put_def nth_patch)
  qed
  then show ?thesis using len k by (simp add: load_bytes_Some_iff length_patch)
qed

lemma built_rewrite:
  assumes b: "built m h saved detour" and c: "c \<noteq> 0"
  shows "built (put (mh_allocated h + of_nat (HOOK_SIZE + RESUME_JMP_OFFSET + 1))
            (le_of_word 4 (rel32 c (resume_next (mh_allocated h)))) m) (h\<lparr>mh_current_chain_resume := c\<rparr>) saved detour"
proof -
  let ?a = "mh_allocated h" and ?bs = "le_of_word 4 (rel32 c (resume_next (mh_allocated h)))"
  have "load_bytes (put (?a + of_nat HOOK_SIZE + of_nat (RESUME_JMP_OFFSET + 1)) ?bs m) (?a + of_nat HOOK_SIZE) 129
      = Some (patch (RESUME_JMP_OFFSET + 1) ?bs (assembly ?a (effective_resume h) detour))"
    by (rule load_put_patch) (use b in \<open>simp_all add: built_def layout_consts\<close>)
  note code = this [unfolded patch_resume]
  have pos: "?a + of_nat (HOOK_SIZE + RESUME_JMP_OFFSET + 1) = ?a + of_nat HOOK_SIZE + of_nat (RESUME_JMP_OFFSET + 1)"
    by (simp add: layout_consts)
  have "apart (?a + of_nat HOOK_SIZE + of_nat (RESUME_JMP_OFFSET + 1)) (length ?bs) ?a 8"
    by (simp add: apart_def layout_consts)
  from load_bytes_put_apart [OF this, of m] code show ?thesis using b c unfolding pos
    by (simp add: built_def effective_resume_def [of "h\<lparr>mh_current_chain_resume := c\<rparr>"] HOOK_SIZE_def
        del: of_nat_add)
qed

lemma verify_repairs:
  assumes live: "\<not> mh_error h" "mh_target h \<noteq> 0" "mh_allocated h \<noteq> 0"
    and b: "built m h saved detour" and sep: "separate h" and t: "mapped m (mh_target h) HOOK_SIZE"
    and ok: "\<And>a n. a \<noteq> 0 \<Longrightarrow> n \<noteq> 0 \<Longrightarrow> os_protect OS a n execute_rw" and sz: "mh_allocated_size h \<noteq> 0"
    and na: "\<not> armed m h"
  shows "\<exists>c m'. repair_chain m h = Some c
     \<and> verify_and_repair OS m h = Some (False, h\<lparr>mh_current_chain_resume := c\<rparr>, m')
     \<and> armed m' (h\<lparr>mh_current_chain_resume := c\<rparr>)
     \<and> built m' (h\<lparr>mh_current_chain_resume := c\<rparr>) saved detour
     \<and> (\<forall>q k. apart (mh_target h) HOOK_SIZE q k \<and> apart (mh_allocated h) 137 q k \<longrightarrow> load_bytes m' q k = load_bytes m q k)"
proof -
  let ?t = "mh_target h" and ?a = "mh_allocated h" and ?j = "jmp_bytes (mh_target h) (mh_allocated h)"
  have m1: "mapped m ?t 1" "mapped m (?t + 1) 4" "mapped m ?t 5"
    using mapped_le [OF t, of 1] mapped_add [OF t, of 1 4] mapped_le [OF t, of 5]
    by (simp_all add: layout_consts)
  then obtain b0 rel bytes where "m ?t = Some b0" "load32 m (?t + 1) = Some rel" "load_bytes m ?t 5 = Some bytes"
    using load_le_mapped [of m "?t + 1" 4] load_bytes_mapped [of m ?t 5]
    by (auto simp: mapped_def)
  then obtain c where c: "repair_chain m h = Some c" and bytes: "load_bytes m ?t 5 = Some bytes"
    and cv: "c = mh_current_chain_resume h \<or> is_valid_pointer c"
    by (cases "b0 = JMP_OPCODE"; cases "prior_trampoline ?t rel \<noteq> ?a \<and> is_valid_pointer (prior_trampoline ?t rel)")
      (auto simp: repair_chain_def Let_def)
  let ?h = "h\<lparr>mh_current_chain_resume := c\<rparr>"
  have ne: "bytes \<noteq> ?j" using na bytes by (auto simp: armed_def JMP_SIZE_def)
  define m1 where "m1 = (if c \<noteq> mh_current_chain_resume h
      then put (?a + of_nat (HOOK_SIZE + RESUME_JMP_OFFSET + 1)) (le_of_word 4 (rel32 c (resume_next ?a))) m else m)"
  have bm1: "built m1 ?h saved detour"
    using b built_rewrite [OF b, of c] cv valid_not_null [of c] by (auto simp: m1_def)
  have "mapped m (?a + of_nat HOOK_SIZE) 129"
    by (rule mapped_of_load) (use b in \<open>simp add: built_def\<close>)
  from mapped_add [OF this, of "RESUME_JMP_OFFSET + 1" 4]
  have "mapped m (?a + of_nat (HOOK_SIZE + RESUME_JMP_OFFSET + 1)) 4"
    by (simp add: layout_consts ac_simps)
  then have rw: "(if c \<noteq> mh_current_chain_resume h then rewrite_chain_resume OS m h c else Some m) = Some m1"
    using ok [OF live(3) sz] by (simp add: rewrite_chain_resume_def store_bytes_put m1_def)
  have "mapped m1 ?t 5" using m1(3) by (simp add: m1_def)
  then have v: "verify_and_repair OS m h = Some (False, ?h, put ?t ?j m1)"
    using live ok [OF live(2), of 5] bytes ne c rw
    by (simp add: verify_and_repair_def Let_def JMP_SIZE_def store_bytes_put)
  moreover have "armed (put ?t ?j m1) ?h"
    using load_bytes_put_same [of ?j ?t m1] by (simp add: armed_def JMP_SIZE_def)
  moreover have "built (put ?t ?j m1) ?h saved detour"
    using built_put_target [of ?h ?j m1 saved detour] sep bm1 by (simp add: separate_def)
  moreover have "load_bytes (put ?t ?j m1) q k = load_bytes m q k"
    if ap: "apart ?t HOOK_SIZE q k" "apart ?a 137 q k" for q k
  proof -
    have "apart ?t 5 q k" "apart (?a + of_nat (HOOK_SIZE + RESUME_JMP_OFFSET + 1)) 4 q k"
      using apart_sub [OF ap(1), of 0 5] apart_sub [OF ap(2), of "HOOK_SIZE + RESUME_JMP_OFFSET + 1" 4]
      by (simp_all add: layout_consts)
    then show ?thesis by (simp add: load_bytes_put_apart m1_def)
  qed
  ultimately show ?thesis using c by blast
qed

section \<open>Uninstalling\<close>

lemma load_bytes_unmap_apart:
  "apart p (unat (align_up sz (os_page_size OS))) b k \<Longrightarrow> load_bytes (unmap_pages OS p sz m) b k = load_bytes m b k"
  by (rule load_bytes_cong) (use apart_offset in \<open>force simp: unmap_pages_def\<close>)

lemma midi2i_hook_dtor_restores:
  assumes live: "\<not> mh_error h" "os_protect OS (mh_target h) (of_nat JMP_SIZE) execute_rw"
    and a: "armed m h" and b: "built m h saved detour" and len: "length saved = 8"
    and room: "apart (mh_allocated h) (unat (align_up (mh_allocated_size h) (os_page_size OS))) (mh_target h) HOOK_SIZE"
  shows "midi2i_hook_dtor OS m h =
     Some (unmap_pages OS (mh_allocated h) (mh_allocated_size h) (put (mh_target h) (take 5 saved) m))"
    and "load_bytes (unmap_pages OS (mh_allocated h) (mh_allocated_size h) (put (mh_target h) (take 5 saved) m))
           (mh_target h) 5 = Some (take 5 saved)"
    and "load_bytes (unmap_pages OS (mh_allocated h) (mh_allocated_size h) (put (mh_target h) (take 5 saved) m))
           (mh_target h + 5) 3 = load_bytes m (mh_target h + 5) 3"
proof -
  let ?t = "mh_target h"
  have b0: "m ?t = Some JMP_OPCODE"
    using a load_bytes_nth [of m ?t 5 "jmp_bytes ?t (mh_allocated h)" 0]
    by (simp add: armed_def jmp_bytes_def JMP_SIZE_def)
  have s5: "load_bytes m (mh_allocated h) 5 = Some (take 5 saved)"
    using load_bytes_inside [of m "mh_allocated h" 8 saved 0 5] b by (simp add: built_def layout_consts)
  have "mapped m ?t 5" by (rule mapped_of_load) (use a in \<open>simp add: armed_def JMP_SIZE_def\<close>)
  then show "midi2i_hook_dtor OS m h =
     Some (unmap_pages OS (mh_allocated h) (mh_allocated_size h) (put ?t (take 5 saved) m))"
    using live b0 s5 len by (simp add: midi2i_hook_dtor_def JMP_SIZE_def store_bytes_put)
  have ap: "apart (mh_allocated h) (unat (align_up (mh_allocated_size h) (os_page_size OS))) (?t + of_nat i) n"
    if "i + n \<le> 8" "0 < n" for i n
    by (rule apart_sub_right [of _ _ _ 8]) (use room that in \<open>simp_all add: layout_consts\<close>)
  show "load_bytes (unmap_pages OS (mh_allocated h) (mh_allocated_size h) (put ?t (take 5 saved) m)) ?t 5
      = Some (take 5 saved)"
    using ap [of 0 5] load_bytes_put_same [of "take 5 saved" ?t m] len
    by (simp add: load_bytes_unmap_apart)
  have "apart ?t 5 (?t + 5) 3" by (simp add: apart_def)
  then show "load_bytes (unmap_pages OS (mh_allocated h) (mh_allocated_size h) (put ?t (take 5 saved) m)) (?t + 5) 3
      = load_bytes m (?t + 5) 3"
    using ap [of 5 3] len by (simp add: load_bytes_unmap_apart load_bytes_put_apart)
qed

section \<open>A second hook on the same target\<close>

text \<open>
  When the target already holds a jump, the eight bytes the constructor saves are that jump.
  They are copied to the start of the new trampoline, where the same relative distance leads
  somewhere else.
\<close>

lemma ctor_copied_jump:
  assumes b: "built m h saved detour" and j: "take 5 saved = jmp_bytes (mh_target h) prior"
    and n: "near (mh_target h + of_nat JMP_SIZE) prior"
  shows "jump_dest m (mh_allocated h) = Some (prior + (mh_allocated h - mh_target h))"
proof -
  have "load_bytes m (mh_allocated h) 5 = Some (JMP_OPCODE # le_of_word 4 (rel32 prior (mh_target h + of_nat JMP_SIZE)))"
    using load_bytes_inside [of m "mh_allocated h" 8 saved 0 5] b j
    by (simp add: built_def layout_consts jmp_bytes_def)
  from load_jmp [OF this] near_rel32 [OF n] show ?thesis by (simp add: algebra_simps)
qed

section \<open>The relative jumps reach\<close>

lemma sint_diff:
  "unat (a :: addr) < 2 ^ 62 \<Longrightarrow> unat b < 2 ^ 62 \<Longrightarrow> sint (a - b) = int (unat a) - int (unat b)"
proof -
  assume ab: "unat a < 2 ^ 62" "unat b < 2 ^ 62"
  have "sint (word_of_int (uint a - uint b) :: addr) = signed_take_bit 63 (uint a - uint b)"
    by (subst sint_sbintrunc') simp
  moreover have "signed_take_bit 63 (int (unat a) - int (unat b)) = int (unat a) - int (unat b)"
  proof (rule signed_take_bit_int_eq_self)
    have ab': "unat a < 4611686018427387904" "unat b < 4611686018427387904" using ab by simp_all
    then have "- 9223372036854775808 \<le> int (unat a) - int (unat b)" by linarith
    then show "- (2 ^ 63) \<le> int (unat a) - int (unat b)" by (simp only: power_numeral) simp
    have "int (unat a) - int (unat b) < 9223372036854775808" using ab' by linarith
    then show "int (unat a) - int (unat b) < 2 ^ 63" by (simp only: power_numeral) simp
  qed
  ultimately show ?thesis by (simp add: wi_hom_sub [symmetric] uint_nat [symmetric])
qed

lemma fits_near:
  assumes win: "minimum_application_address \<le> target" "target < user_address_ceiling"
    and f: "fits 12 target total_size rb re p"
  shows "unat target mod 4096 < 0xFFC \<Longrightarrow> near (target + of_nat JMP_SIZE) p"
    and "near (resume_next p) (target + of_nat HOOK_SIZE)"
proof -
  have tot: "unat total_size = 137" by (simp add: total_size_def layout_consts)
  have t: "unat target < 140737488355327" "65536 \<le> unat target"
    using win by (simp_all add: user_address_ceiling_def minimum_application_address_def word_less_nat_alt word_le_nat_alt)
  have p: "unat p mod 4096 = 0" "unat target \<le> unat p + 2147483647"
    "unat p + 137 \<le> unat target + 2147483648" "unat p + 137 \<le> 140737488355328"
    using f search_window [OF win] by (auto simp: fits_def tot word_le_nat_alt)
  have u: "unat (target + 5) = unat target + 5" "unat (target + 8) = unat target + 8"
    "unat (p + 129) = unat p + 129"
    using t p by (simp_all add: unat_word_ariths)
  have "sint (target + 8 - (p + 129)) = int (unat target) + 8 - (int (unat p) + 129)"
    using sint_diff [of "target + 8" "p + 129"] t p u by simp
  moreover have "- 2147483648 \<le> int (unat target) + 8 - (int (unat p) + 129)
     \<and> int (unat target) + 8 - (int (unat p) + 129) < 2147483648" using p(2,3) by linarith
  ultimately show "near (resume_next p) (target + of_nat HOOK_SIZE)"
    by (simp add: near_def resume_next_def layout_consts)
  assume off: "unat target mod 4096 < 0xFFC"
  have d: "sint (p - (target + 5)) = int (unat p) - (int (unat target) + 5)"
    using sint_diff [of p "target + 5"] t p u by simp
  obtain q where q: "unat p = 4096 * q" using p(1) by auto
  obtain a b where ab: "unat target = 4096 * a + b" "b < 4092"
    using off mult_div_mod_eq [of 4096 "unat target"] by (intro that [of "unat target div 4096" "unat target mod 4096"]) simp_all
  have "unat target + 5 \<le> unat p + 2147483648"
  proof (cases "a \<le> q + 524287")
    case False
    with ab q p(2) show ?thesis by linarith
  qed (use ab q in linarith)
  with p(3) have "- 2147483648 \<le> int (unat p) - (int (unat target) + 5)
     \<and> int (unat p) - (int (unat target) + 5) < 2147483648" by linarith
  with d show "near (target + of_nat JMP_SIZE) p"
    by (simp add: near_def JMP_SIZE_def)
qed

text \<open>mmap returns pages that were not in use: they do not overlap the mapped target window.\<close>

definition fresh_pages :: "os_env \<Rightarrow> mem \<Rightarrow> addr \<Rightarrow> bool" where
  "fresh_pages OS m target \<longleftrightarrow>
     (\<forall>hint. os_allocate_rwx OS hint total_size \<noteq> 0 \<longrightarrow> room_for OS m target (os_allocate_rwx OS hint total_size))"

lemma ctor_placed:
  assumes "os_page_size OS = 2 ^ 12" and "honours (os_allocate_rwx OS)" and "fresh_pages OS m target"
    and "minimum_application_address \<le> target" and "target < user_address_ceiling"
    and "unat target mod 4096 < 0xFFC" and "load_bytes m target HOOK_SIZE = Some saved"
  shows "\<exists>h m'. midi2i_hook_ctor OS J m target detour 0 = Some (h, m') \<and>
     (mh_error h \<and> m' = m \<or>
      \<not> mh_error h \<and> mh_target h = target \<and> armed m' h \<and> built m' h saved detour
      \<and> effective_resume h = target + of_nat HOOK_SIZE
      \<and> near (target + of_nat JMP_SIZE) (mh_allocated h)
      \<and> near (resume_next (mh_allocated h)) (target + of_nat HOOK_SIZE))"
proof -
  have k: "(12 :: nat) \<le> 16" by simp
  obtain p where alloc: "allocate_nearby_memory (os_page_size OS) (proc_maps J) (os_allocate_rwx OS) target total_size = Some p"
    and p: "p = 0 \<or> placed 12 (proc_maps J) (os_allocate_rwx OS) target total_size p"
    using allocate_nearby_memory_returns [OF assms(4,5) k assms(2)] assms(1) by metis
  show ?thesis
  proof (cases "p = 0")
    case True
    with alloc show ?thesis by (simp add: midi2i_hook_ctor_def Let_def)
  next
    case False
    with p have pl: "os_allocate_rwx OS p total_size = p" and "\<exists>rb re. fits 12 target total_size rb re p"
      by (auto simp: placed_def)
    then obtain rb re where fit: "fits 12 target total_size rb re p" by blast
    have room: "room_for OS m target p" using assms(3) pl False unfolding fresh_pages_def by metis
    obtain h m' where c: "midi2i_hook_ctor OS J m target detour 0 = Some (h, m')"
      using midi2i_hook_ctor_ok [OF alloc False room assms(7) refl] by blast
    note st = midi2i_hook_ctor_states [OF alloc False room assms(7) c]
    have h: "mh_target h = target" "mh_allocated h = p" "\<not> mh_error h" "effective_resume h = target + of_nat HOOK_SIZE"
      by (simp_all add: st(1) effective_resume_def ctor_chain_resume_def)
    with c st(2,3) fits_near [OF assms(4,5) fit] assms(6) show ?thesis by auto
  qed
qed

lemma ctor_routes:
  assumes "os_page_size OS = 2 ^ 12" and "honours (os_allocate_rwx OS)" and "fresh_pages OS m target"
    and "minimum_application_address \<le> target" and "target < user_address_ceiling"
    and "unat target mod 4096 < 0xFFC" and "load_bytes m target HOOK_SIZE = Some saved"
  shows "\<exists>h m'. midi2i_hook_ctor OS J m target detour 0 = Some (h, m') \<and>
     (mh_error h \<and> m' = m \<or>
      \<not> mh_error h \<and> mh_target h = target \<and> jump_dest m' target = Some (mh_allocated h)
      \<and> load_bytes m' (mh_allocated h) HOOK_SIZE = Some saved
      \<and> load64 m' (mh_allocated h + of_nat (HOOK_SIZE + DETOUR_ADDRESS_OFFSET)) = Some detour
      \<and> jump_dest m' (mh_allocated h + of_nat (HOOK_SIZE + RESUME_JMP_OFFSET)) = Some (target + of_nat HOOK_SIZE))"
proof -
  obtain h m' where c: "midi2i_hook_ctor OS J m target detour 0 = Some (h, m')"
    and st: "mh_error h \<and> m' = m \<or> \<not> mh_error h \<and> mh_target h = target \<and> armed m' h \<and> built m' h saved detour
      \<and> effective_resume h = target + of_nat HOOK_SIZE \<and> near (target + of_nat JMP_SIZE) (mh_allocated h)
      \<and> near (resume_next (mh_allocated h)) (target + of_nat HOOK_SIZE)"
    using ctor_placed [OF assms, of J detour] by blast
  then show ?thesis using armed_jump [of m' h] built_resume_jump [of m' h saved detour] built_detour [of m' h saved detour]
    by (auto simp: built_def)
qed

section \<open>Properties\<close>

text \<open>On an operating system with 4 KiB pages that honours hints, hooking an unhooked
  target whose page offset is below 0xFFC either fails and changes nothing, or the jump at the
  target reaches the trampoline, the trampoline starts with the eight saved bytes, its call
  slot holds the detour, and its resume jump reaches the first byte behind the window.\<close>

theorem install_routes_through_trampoline:
  assumes "os_page_size OS = 2 ^ 12" and "honours (os_allocate_rwx OS)" and "fresh_pages OS m target"
    and "minimum_application_address \<le> target" and "target < user_address_ceiling"
    and "unat target mod 4096 < 0xFFC" and "load_bytes m target HOOK_SIZE = Some saved"
  shows "\<exists>h m'. midi2i_hook_ctor OS J m target detour 0 = Some (h, m') \<and>
     (mh_error h \<and> m' = m \<or>
      \<not> mh_error h \<and> jump_dest m' target = Some (mh_allocated h)
      \<and> load_bytes m' (mh_allocated h) HOOK_SIZE = Some saved
      \<and> load64 m' (mh_allocated h + of_nat (HOOK_SIZE + DETOUR_ADDRESS_OFFSET)) = Some detour
      \<and> jump_dest m' (mh_allocated h + of_nat (HOOK_SIZE + RESUME_JMP_OFFSET)) = Some (target + of_nat HOOK_SIZE))"
  using ctor_routes [OF assms] by blast

text \<open>A concrete process for the witnesses: one mapped code region, one free page behind it.\<close>

definition demo_os :: "addr \<Rightarrow> os_env" where
  "demo_os page = \<lparr>os_page_size = 4096, os_mprotect = (\<lambda>a n p. True),
     os_allocate_rwx = (\<lambda>hint sz. if hint = page then page else 0)\<rparr>"

definition demo_jvm :: "map_line option list \<Rightarrow> jvm" where
  "demo_jvm maps = \<lparr>vm_types = [], vm_structs = [], proc_maps = maps\<rparr>"

definition demo_maps :: "map_line option list" where
  "demo_maps = [Some \<lparr>ml_begin = 0x10000, ml_end = 0x401000, ml_perms = ''r-xp''\<rparr>]"

lemma demo_honours: "honours (os_allocate_rwx (demo_os page))"
  by (auto simp: honours_def demo_os_def)

lemma demo_total: "unat (align_up total_size 4096) = 4096"
  by (simp add: total_size_def layout_consts align_up_def)

lemma demo_room: "unat (target - page) = d \<Longrightarrow> unat (page - target) = e \<Longrightarrow> 4096 \<le> d \<Longrightarrow> 8 \<le> e \<Longrightarrow>
    room_for (demo_os page) ram target page"
  by (simp add: room_for_def demo_os_def demo_total layout_consts apart_def)

lemma demo_fresh: "unat (target - page) = d \<Longrightarrow> unat (page - target) = e \<Longrightarrow> 4096 \<le> d \<Longrightarrow> 8 \<le> e \<Longrightarrow>
    fresh_pages (demo_os page) ram target"
  using demo_room by (auto simp: fresh_pages_def demo_os_def split: if_splits)

lemma install_routes_through_trampoline_witness:
  "\<exists>h m'. midi2i_hook_ctor (demo_os 0x401000) (demo_jvm demo_maps) ram 0x400100 0x500000 0 = Some (h, m') \<and>
     (mh_error h \<and> m' = ram \<or>
      \<not> mh_error h \<and> jump_dest m' 0x400100 = Some (mh_allocated h)
      \<and> load_bytes m' (mh_allocated h) HOOK_SIZE = Some (replicate HOOK_SIZE 0)
      \<and> load64 m' (mh_allocated h + of_nat (HOOK_SIZE + DETOUR_ADDRESS_OFFSET)) = Some 0x500000
      \<and> jump_dest m' (mh_allocated h + of_nat (HOOK_SIZE + RESUME_JMP_OFFSET)) = Some (0x400100 + of_nat HOOK_SIZE))"
  by (rule install_routes_through_trampoline)
    (simp_all add: demo_honours demo_fresh minimum_application_address_def user_address_ceiling_def
      load_bytes_ram, simp add: demo_os_def)

lemma demo_alloc:
  "allocate_nearby_memory (os_page_size (demo_os 0x401000)) (proc_maps (demo_jvm demo_maps))
     (os_allocate_rwx (demo_os 0x401000)) 0x400100 total_size = Some 0x401000"
  by (simp add: allocate_nearby_memory_def demo_jvm_def demo_os_def demo_maps_def total_size_def layout_consts
      search_min_def search_max_def relative_limit_def minimum_application_address_def user_address_ceiling_def
      nearby_walk.simps query_region_def empty_region_def try_allocate_in_region_def align_up_def align_down_def)

text \<open>C22. Installing a hook and destroying it again gives the target its eight original bytes
  back.\<close>

theorem install_uninstall_roundtrip:
  assumes "allocate_nearby_memory (os_page_size OS) (proc_maps J) (os_allocate_rwx OS) target total_size = Some p"
    and "p \<noteq> 0" and "room_for OS m target p" and "load_bytes m target HOOK_SIZE = Some saved"
    and "os_protect OS target (of_nat JMP_SIZE) execute_rw"
    and "midi2i_hook_ctor OS J m target detour chain = Some (h, m')"
  shows "\<exists>m''. midi2i_hook_dtor OS m' h = Some m'' \<and> load_bytes m'' target HOOK_SIZE = Some saved"
proof -
  note st = midi2i_hook_ctor_states [OF assms(1-4,6)]
  have len: "length saved = 8" using assms(4) by (auto dest: load_bytes_length simp: layout_consts)
  let ?m = "unmap_pages OS (mh_allocated h) (mh_allocated_size h) (put (mh_target h) (take 5 saved) m')"
  have room: "apart (mh_allocated h) (unat (align_up (mh_allocated_size h) (os_page_size OS))) (mh_target h) HOOK_SIZE"
    using assms(3) by (simp add: st(1) room_for_def)
  have live: "\<not> mh_error h" "os_protect OS (mh_target h) (of_nat JMP_SIZE) execute_rw"
    using assms(5) by (simp_all add: st(1))
  note d = midi2i_hook_dtor_restores [OF live st(2,3) len room]
  have "load_bytes ?m target (5 + 3) = Some saved"
    unfolding load_bytes_split using d(2,3) st(5) by (simp add: st(1))
  with d(1) show ?thesis by (simp add: HOOK_SIZE_def)
qed

lemma install_uninstall_roundtrip_witness:
  "\<exists>h m' m''. midi2i_hook_ctor (demo_os 0x401000) (demo_jvm demo_maps) ram 0x400100 0x500000 0 = Some (h, m')
     \<and> midi2i_hook_dtor (demo_os 0x401000) m' h = Some m'' \<and> load_bytes m'' 0x400100 HOOK_SIZE = Some (replicate 8 0)"
proof -
  have r: "room_for (demo_os 0x401000) ram 0x400100 0x401000" by (rule demo_room [OF refl refl]) simp_all
  have l: "load_bytes ram 0x400100 HOOK_SIZE = Some (replicate 8 0)" by (simp add: load_bytes_ram HOOK_SIZE_def)
  have pr: "os_protect (demo_os 0x401000) 0x400100 (of_nat JMP_SIZE) execute_rw"
    by (simp add: os_protect_def protect_def demo_os_def JMP_SIZE_def)
  obtain h m' where c: "midi2i_hook_ctor (demo_os 0x401000) (demo_jvm demo_maps) ram 0x400100 0x500000 0 = Some (h, m')"
    using midi2i_hook_ctor_ok [OF demo_alloc _ r l refl] by auto
  with install_uninstall_roundtrip [OF demo_alloc _ r l pr c] show ?thesis by auto
qed

text \<open>C6. Whatever another hooker wrote over the patch window, one pass of verify_and_repair
  points it at the trampoline again, keeps the trampoline intact, and a second pass finds
  nothing to do.\<close>

theorem verify_and_repair_converges:
  assumes "\<not> mh_error h" and "mh_target h \<noteq> 0" and "mh_allocated h \<noteq> 0" and "mh_allocated_size h \<noteq> 0"
    and "built m h saved detour" and "separate h" and "mapped m (mh_target h) HOOK_SIZE"
    and "\<And>a n. a \<noteq> 0 \<Longrightarrow> n \<noteq> 0 \<Longrightarrow> os_protect OS a n execute_rw"
  shows "\<exists>intact h' m'. verify_and_repair OS m h = Some (intact, h', m') \<and> (intact \<longleftrightarrow> armed m h)
     \<and> armed m' h' \<and> built m' h' saved detour \<and> verify_and_repair OS m' h' = Some (True, h', m')"
proof (cases "armed m h")
  case True
  with verify_armed [OF True, of OS] assms(5) show ?thesis by blast
next
  case False
  with verify_repairs [OF assms(1-3,5,6,7,8,4) False] verify_armed show ?thesis by blast
qed

definition demo_hook :: "addr \<Rightarrow> addr \<Rightarrow> midi2i_hook" where
  "demo_hook p chain = \<lparr>mh_target = 0x400100, mh_allocated = p, mh_allocated_size = total_size,
     mh_current_chain_resume = chain, mh_error = False\<rparr>"

definition demo_body :: "midi2i_hook \<Rightarrow> mem \<Rightarrow> mem" where
  "demo_body h m = put (mh_allocated h + 8) (assembly (mh_allocated h) (effective_resume h) 0x500000)
     (put (mh_allocated h) (replicate 8 0) m)"

lemma demo_built: "built (demo_body h m) h (replicate 8 0) 0x500000"
  using load_bytes_put_same [of "assembly (mh_allocated h) (effective_resume h) 0x500000" "mh_allocated h + 8"]
    load_bytes_put_apart [of "mh_allocated h + 8" "assembly (mh_allocated h) (effective_resume h) 0x500000" "mh_allocated h" 8]
    load_bytes_put_same [of "replicate 8 0" "mh_allocated h" m]
  by (simp add: built_def demo_body_def layout_consts apart_def)

lemma demo_mapped: "mapped (demo_body h ram) a n"
  by (simp add: demo_body_def)

lemma demo_protect: "a \<noteq> 0 \<Longrightarrow> n \<noteq> 0 \<Longrightarrow> os_protect (demo_os page) a n execute_rw"
  by (simp add: os_protect_def protect_def demo_os_def)

lemma demo_separate: "separate (demo_hook 0x401000 c)" "separate (demo_hook 0x402000 c)"
  by (simp_all add: separate_def demo_hook_def apart_def layout_consts)

lemma verify_and_repair_converges_witness:
  "\<exists>intact h' m'. verify_and_repair (demo_os 0) (demo_body (demo_hook 0x401000 0) ram) (demo_hook 0x401000 0) = Some (intact, h', m')
     \<and> (intact \<longleftrightarrow> armed (demo_body (demo_hook 0x401000 0) ram) (demo_hook 0x401000 0))
     \<and> armed m' h' \<and> built m' h' (replicate 8 0) 0x500000 \<and> verify_and_repair (demo_os 0) m' h' = Some (True, h', m')"
  by (rule verify_and_repair_converges)
    (simp_all add: demo_built demo_separate demo_mapped demo_protect, simp_all add: demo_hook_def total_size_def layout_consts)

text \<open>Chaining onto another hooker does not work: the eight bytes the constructor copies to
  the start of the trampoline are the other hooker's relative jump, so entering the new
  trampoline jumps by the same distance from the new place, to an address that is off by the
  distance between the trampoline and the target and is not the prior trampoline.\<close>

theorem chained_install_enters_wild_address:
  assumes "allocate_nearby_memory (os_page_size OS) (proc_maps J) (os_allocate_rwx OS) target total_size = Some p"
    and "p \<noteq> 0" and "room_for OS m target p" and "load_bytes m target HOOK_SIZE = Some saved"
    and "take 5 saved = jmp_bytes target prior" and "near (target + of_nat JMP_SIZE) prior"
    and "near (target + of_nat JMP_SIZE) p"
    and "midi2i_hook_ctor OS J m target detour prior = Some (h, m')"
  shows "jump_dest m' target = Some p \<and> jump_dest m' p = Some (prior + (p - target)) \<and> prior + (p - target) \<noteq> prior"
proof -
  note st = midi2i_hook_ctor_states [OF assms(1-4,8)]
  have "p \<noteq> target" using room_separate [OF assms(3)] by (auto simp: apart_def)
  with armed_jump [OF st(2)] ctor_copied_jump [OF st(3), of prior] assms(5-7) show ?thesis
    by (simp add: st(1))
qed

definition demo_hooked :: mem where
  "demo_hooked = put 0x400100 (jmp_bytes 0x400100 0x480000 @ [0, 0, 0]) ram"

lemma chained_install_enters_wild_address_witness:
  "\<exists>h m'. midi2i_hook_ctor (demo_os 0x401000) (demo_jvm demo_maps) demo_hooked 0x400100 0x500000 0x480000 = Some (h, m')
     \<and> jump_dest m' 0x400100 = Some 0x401000 \<and> jump_dest m' 0x401000 = Some (0x480000 + 0xF00)"
proof -
  let ?s = "jmp_bytes 0x400100 0x480000 @ [0, 0, 0]"
  have r: "room_for (demo_os 0x401000) demo_hooked 0x400100 0x401000"
    using demo_room [of "0x400100" "0x401000", OF refl refl] by (simp add: room_for_def demo_hooked_def)
  have l: "load_bytes demo_hooked 0x400100 HOOK_SIZE = Some ?s"
    using load_bytes_put_same [of ?s "0x400100" ram] by (simp add: demo_hooked_def HOOK_SIZE_def)
  have n: "near (0x400100 + of_nat JMP_SIZE) 0x480000" "near (0x400100 + of_nat JMP_SIZE) 0x401000"
    by (simp_all add: near_def JMP_SIZE_def)
  obtain h m' where c: "midi2i_hook_ctor (demo_os 0x401000) (demo_jvm demo_maps) demo_hooked 0x400100 0x500000 0x480000 = Some (h, m')"
    using midi2i_hook_ctor_ok [OF demo_alloc _ r l refl] by auto
  from chained_install_enters_wild_address [OF demo_alloc _ r l _ n c] c show ?thesis by auto
qed

text \<open>Two hooks on one target, the second chained onto the first: when the first runs
  verify_and_repair it chains onto the second, and from then on the resume jump of each leads
  to the trampoline of the other, so no path resumes behind the patch window.\<close>

theorem verify_and_repair_makes_a_cycle:
  assumes "\<not> mh_error a" and "mh_target a \<noteq> 0" and "mh_allocated a \<noteq> 0" and "mh_allocated_size a \<noteq> 0"
    and "built m a saved_a detour_a" and "separate a" and "built m b saved_b detour_b" and "armed m b"
    and "mh_target b = mh_target a" and "mh_current_chain_resume b = mh_allocated a"
    and "is_valid_pointer (mh_allocated b)" and "mh_allocated b \<noteq> mh_allocated a"
    and "mapped m (mh_target a) HOOK_SIZE" and "apart (mh_target a) HOOK_SIZE (mh_allocated b) 137"
    and "apart (mh_allocated a) 137 (mh_allocated b) 137"
    and "\<And>q n. q \<noteq> 0 \<Longrightarrow> n \<noteq> 0 \<Longrightarrow> os_protect OS q n execute_rw"
    and "near (mh_target a + of_nat JMP_SIZE) (mh_allocated b)"
    and "near (mh_target a + of_nat JMP_SIZE) (mh_allocated a)"
    and "near (resume_next (mh_allocated a)) (mh_allocated b)" and "near (resume_next (mh_allocated b)) (mh_allocated a)"
  shows "\<exists>a' m'. verify_and_repair OS m a = Some (False, a', m')
     \<and> jump_dest m' (mh_allocated a + of_nat (HOOK_SIZE + RESUME_JMP_OFFSET)) = Some (mh_allocated b)
     \<and> jump_dest m' (mh_allocated b + of_nat (HOOK_SIZE + RESUME_JMP_OFFSET)) = Some (mh_allocated a)"
proof -
  let ?t = "mh_target a"
  have l5: "load_bytes m ?t 5 = Some (jmp_bytes ?t (mh_allocated b))"
    using assms(8,9) by (simp add: armed_def JMP_SIZE_def)
  have "rel32 (mh_allocated b) (?t + 5) \<noteq> rel32 (mh_allocated a) (?t + 5)"
    using near_rel32 [OF assms(17)] near_rel32 [OF assms(18)] assms(12) by (auto simp: JMP_SIZE_def)
  then have "jmp_bytes ?t (mh_allocated b) \<noteq> jmp_bytes ?t (mh_allocated a)"
    by (simp add: jmp_bytes_def JMP_SIZE_def) (metis le_of_word_inject32)
  with l5 have na: "\<not> armed m a" by (simp add: armed_def JMP_SIZE_def)
  have "m ?t = Some JMP_OPCODE" "load32 m (?t + 1) = Some (rel32 (mh_allocated b) (?t + 5))"
    using load_bytes_nth [OF l5, of 0] load_bytes_inside [OF l5, of 1 4]
    by (simp_all add: jmp_bytes_def load_le_def word_of_le_of_word JMP_SIZE_def)
  then have rc: "repair_chain m a = Some (mh_allocated b)"
    using near_rel32 [OF assms(17)] assms(11,12)
    by (simp add: repair_chain_def prior_trampoline_def JMP_SIZE_def Let_def)
  obtain m' where v: "verify_and_repair OS m a = Some (False, a\<lparr>mh_current_chain_resume := mh_allocated b\<rparr>, m')"
    and ba: "built m' (a\<lparr>mh_current_chain_resume := mh_allocated b\<rparr>) saved_a detour_a"
    and fr: "\<forall>q k. apart ?t HOOK_SIZE q k \<and> apart (mh_allocated a) 137 q k \<longrightarrow> load_bytes m' q k = load_bytes m q k"
    using verify_repairs [OF assms(1-3,5,6,13,16,4) na] rc by auto
  have "load_bytes m' (mh_allocated b + of_nat i) n = load_bytes m (mh_allocated b + of_nat i) n"
    if "i + n \<le> 137" "0 < n" for i n
    using fr apart_sub_right [OF assms(14) that] apart_sub_right [OF assms(15) that] by blast
  from this [of 0 8] this [of 8 129] assms(7) have "built m' b saved_b detour_b"
    by (simp add: built_def layout_consts)
  from built_resume_jump [OF this] built_resume_jump [OF ba] assms(10,19,20) v
  show ?thesis using assms(3) valid_not_null [OF assms(11)] by (auto simp: effective_resume_def)
qed

definition demo_two :: mem where
  "demo_two = put 0x400100 (jmp_bytes 0x400100 0x402000)
     (demo_body (demo_hook 0x402000 0x401000) (demo_body (demo_hook 0x401000 0) ram))"

lemma demo_two_built:
  "built demo_two (demo_hook 0x401000 0) (replicate 8 0) 0x500000"
  "built demo_two (demo_hook 0x402000 0x401000) (replicate 8 0) 0x500000"
proof -
  show "built demo_two (demo_hook 0x402000 0x401000) (replicate 8 0) 0x500000"
    unfolding demo_two_def by (rule built_put_apart [OF demo_built]) (simp add: demo_hook_def apart_def)
  show "built demo_two (demo_hook 0x401000 0) (replicate 8 0) 0x500000"
    unfolding demo_two_def demo_body_def [of "demo_hook 0x402000 0x401000"]
    by (intro built_put_apart demo_built) (simp_all add: demo_hook_def apart_def)
qed

lemma demo_two_armed: "armed demo_two (demo_hook 0x402000 0x401000)"
  using load_bytes_put_same [of "jmp_bytes 0x400100 0x402000" "0x400100"]
  by (simp add: armed_def demo_two_def demo_hook_def JMP_SIZE_def)

lemma demo_two_mapped: "mapped demo_two a n"
  by (simp add: demo_two_def demo_body_def)

lemma verify_and_repair_makes_a_cycle_witness:
  "\<exists>a' m'. verify_and_repair (demo_os 0) demo_two (demo_hook 0x401000 0) = Some (False, a', m')
     \<and> jump_dest m' 0x40107C = Some 0x402000 \<and> jump_dest m' 0x40207C = Some 0x401000"
  using verify_and_repair_makes_a_cycle [of "demo_hook 0x401000 0" demo_two "replicate 8 0" "0x500000"
      "demo_hook 0x402000 0x401000" "replicate 8 0" "0x500000" "demo_os 0"]
    demo_two_built demo_two_armed demo_separate demo_two_mapped demo_protect
  by (simp add: demo_hook_def total_size_def layout_consts near_def apart_def resume_next_def
      is_valid_pointer_def user_address_floor_def user_address_ceiling_def poison_patterns_def)

text \<open>The search window of allocate_nearby_memory starts four bytes too low for the jump it
  serves. For a target at the end of its page and the lowest candidate page, the jump distance
  does not fit in 32 bits: the hook reports success and the patched jump leads 4 GiB past the
  trampoline.\<close>

theorem lowest_candidate_is_out_of_reach:
  "\<exists>h m'. midi2i_hook_ctor (demo_os 0x80001000)
       (demo_jvm [Some \<lparr>ml_begin = 0x10000, ml_end = 0x80001000, ml_perms = ''r-xp''\<rparr>,
                  Some \<lparr>ml_begin = 0x80002000, ml_end = 0x100002000, ml_perms = ''r-xp''\<rparr>])
       ram 0x100000FFF 0x500000 0 = Some (h, m')
     \<and> \<not> mh_error h \<and> mh_allocated h = 0x80001000 \<and> jump_dest m' 0x100000FFF = Some (0x80001000 + 0x100000000)"
proof -
  let ?J = "demo_jvm [Some \<lparr>ml_begin = 0x10000, ml_end = 0x80001000, ml_perms = ''r-xp''\<rparr>,
                  Some \<lparr>ml_begin = 0x80002000, ml_end = 0x100002000, ml_perms = ''r-xp''\<rparr>]"
  have al: "allocate_nearby_memory (os_page_size (demo_os 0x80001000)) (proc_maps ?J)
     (os_allocate_rwx (demo_os 0x80001000)) 0x100000FFF total_size = Some 0x80001000"
    by (simp add: allocate_nearby_memory_def demo_jvm_def demo_os_def total_size_def layout_consts
      search_min_def search_max_def relative_limit_def minimum_application_address_def user_address_ceiling_def
      nearby_walk.simps query_region_def empty_region_def try_allocate_in_region_def align_up_def align_down_def)
  have r: "room_for (demo_os 0x80001000) ram 0x100000FFF 0x80001000" by (rule demo_room [OF refl refl]) simp_all
  have l: "load_bytes ram 0x100000FFF HOOK_SIZE = Some (replicate 8 0)" by (simp add: load_bytes_ram HOOK_SIZE_def)
  obtain h m' where c: "midi2i_hook_ctor (demo_os 0x80001000) ?J ram 0x100000FFF 0x500000 0 = Some (h, m')"
    using midi2i_hook_ctor_ok [OF al _ r l refl] by auto
  note st = midi2i_hook_ctor_states [OF al _ r l c, simplified]
  have "load_bytes m' 0x100000FFF 5 = Some (JMP_OPCODE # le_of_word 4 (rel32 0x80001000 (0x100000FFF + 5)))"
    using st(2) by (simp add: armed_def st(1) jmp_bytes_def JMP_SIZE_def)
  from load_jmp [OF this] have "jump_dest m' 0x100000FFF = Some (0x80001000 + 0x100000000)"
    by (simp add: rel32_def JMP_SIZE_def)
  with c show ?thesis by (simp add: st(1))
qed

end
