(* ===== verification/Klass_Graph.thy ===== *)
theory Klass_Graph
  imports Metadata "HOL-Library.Mapping"
begin

text \<open>
  The class graph of HotSpot: \<open>klass\<close> (vmhook.hpp lines 2585 to 2843), \<open>class_loader_data\<close>,
  \<open>dictionary\<close> and \<open>class_loader_data_graph\<close> (3132 to 3622), and the cached lookup
  \<open>find_class\<close> (6321 to 6403) with \<open>for_each_loaded_class\<close> (6445).

  The two search loops (\<open>find_klass\<close>) follow their chains without a bound. They are partial
  functions: \<open>None\<close> is a search that faults or does not return. The two enumeration loops
  (\<open>for_each_klass\<close>) count their steps and stop at the code's bounds 1048576 and 65536. The only
  exception that leaves a function of this part is the one of \<open>klass::get_next_link\<close>; a result
  \<open>Inl ()\<close> is that exception.
\<close>

section \<open>klass\<close>

definition klass_get_name :: "jvm \<Rightarrow> mem \<Rightarrow> addr \<Rightarrow> addr" where
  "klass_get_name J m this =
     (case vm_struct J ''Klass'' ''_name'' of None \<Rightarrow> 0
      | Some e \<Rightarrow>
          if \<not> is_valid_pointer this then 0
          else let sym = untag_pointer (safe_read_pointer m (this + se_offset e))
               in if is_valid_pointer sym then sym else 0)"

definition klass_get_next_link :: "jvm \<Rightarrow> mem \<Rightarrow> addr \<Rightarrow> (unit + addr) option" where
  "klass_get_next_link J m this =
     (case vm_struct J ''Klass'' ''_next_link'' of None \<Rightarrow> Some (Inl ())
      | Some e \<Rightarrow>
          if \<not> is_valid_pointer this then Some (Inr 0)
          else do {
            nxt \<leftarrow> load64 m (this + se_offset e);
            Some (Inr (if is_valid_pointer nxt then nxt else 0)) })"

definition klass_methods_array :: "jvm \<Rightarrow> mem \<Rightarrow> addr \<Rightarrow> addr option" where
  "klass_methods_array J m this =
     (case vm_struct J ''InstanceKlass'' ''_methods'' of None \<Rightarrow> Some 0
      | Some e \<Rightarrow>
          if \<not> is_valid_pointer this then Some 0
          else do {
            arr \<leftarrow> load64 m (this + se_offset e);
            Some (if is_valid_pointer arr then arr else 0) })"

definition get_methods_count :: "jvm \<Rightarrow> mem \<Rightarrow> addr \<Rightarrow> int option" where
  "get_methods_count J m this = do {
     arr \<leftarrow> klass_methods_array J m this;
     if arr = 0 then Some 0 else map_option sint (load32 m arr) }"

definition get_methods_ptr :: "jvm \<Rightarrow> mem \<Rightarrow> addr \<Rightarrow> addr option" where
  "get_methods_ptr J m this = do {
     arr \<leftarrow> klass_methods_array J m this;
     Some (if arr = 0 then 0 else arr + 8) }"

definition get_java_mirror :: "jvm \<Rightarrow> mem \<Rightarrow> addr \<Rightarrow> addr" where
  "get_java_mirror J m this =
     (case vm_struct J ''Klass'' ''_java_mirror'' of None \<Rightarrow> 0
      | Some e \<Rightarrow>
          if \<not> is_valid_pointer this then 0
          else if se_type_string e = Some ''OopHandle'' then
            let slot = safe_read_pointer m (this + se_offset e)
            in if \<not> is_valid_pointer slot then 0 else safe_read_pointer m slot
          else let mirror = safe_read_pointer m (this + se_offset e)
               in if is_valid_pointer mirror then mirror else 0)"

definition get_super :: "jvm \<Rightarrow> mem \<Rightarrow> addr \<Rightarrow> addr option" where
  "get_super J m this =
     (case vm_struct J ''Klass'' ''_super'' of None \<Rightarrow> Some 0
      | Some e \<Rightarrow>
          if \<not> is_valid_pointer this then Some 0
          else do {
            super \<leftarrow> load64 m (this + se_offset e);
            Some (if is_valid_pointer super then super else 0) })"

definition get_instance_size :: "jvm \<Rightarrow> mem \<Rightarrow> addr \<Rightarrow> u64 option" where
  "get_instance_size J m this =
     (case vm_struct J ''Klass'' ''_layout_helper'' of None \<Rightarrow> Some 0
      | Some e \<Rightarrow>
          if \<not> is_valid_pointer this then Some 0
          else do {
            layout_helper \<leftarrow> load32 m (this + se_offset e);
            Some (if sint layout_helper \<le> 0 then 0 else scast (layout_helper AND NOT 1)) })"

definition get_prototype_header :: "jvm \<Rightarrow> mem \<Rightarrow> addr \<Rightarrow> u64 option" where
  "get_prototype_header J m this =
     (case vm_struct J ''Klass'' ''_prototype_header'' of None \<Rightarrow> Some 1
      | Some e \<Rightarrow> if \<not> is_valid_pointer this then Some 1 else load64 m (this + se_offset e))"

section \<open>class\_loader\_data\<close>

definition cld_get_klasses :: "jvm \<Rightarrow> mem \<Rightarrow> addr \<Rightarrow> addr option" where
  "cld_get_klasses J m this =
     (case vm_struct J ''ClassLoaderData'' ''_klasses'' of None \<Rightarrow> Some 0
      | Some e \<Rightarrow>
          if \<not> is_valid_pointer this then Some 0
          else do {
            k \<leftarrow> load64 m (this + se_offset e);
            Some (if is_valid_pointer k then k else 0) })"

definition cld_get_next :: "jvm \<Rightarrow> mem \<Rightarrow> addr \<Rightarrow> addr" where
  "cld_get_next J m this =
     (case vm_struct J ''ClassLoaderData'' ''_next'' of None \<Rightarrow> 0
      | Some e \<Rightarrow>
          if \<not> is_valid_pointer this then 0
          else let nxt = safe_read_pointer m (this + se_offset e)
               in if is_valid_pointer nxt then nxt else 0)"

definition cld_get_dictionary :: "jvm \<Rightarrow> mem \<Rightarrow> addr \<Rightarrow> addr" where
  "cld_get_dictionary J m this =
     (case vm_struct J ''ClassLoaderData'' ''_dictionary'' of None \<Rightarrow> 0
      | Some e \<Rightarrow>
          if \<not> is_valid_pointer this then 0
          else let dict = safe_read_pointer m (this + se_offset e)
               in if is_valid_pointer dict then dict else 0)"

definition get_class_loader_oop :: "jvm \<Rightarrow> mem \<Rightarrow> addr \<Rightarrow> addr" where
  "get_class_loader_oop J m this =
     (case vm_struct J ''ClassLoaderData'' ''_class_loader'' of None \<Rightarrow> 0
      | Some e \<Rightarrow>
          if \<not> is_valid_pointer this then 0
          else let field_addr = this + se_offset e in
            if se_type_string e = Some ''OopHandle'' then
              let slot = safe_read_pointer m field_addr in
                if \<not> is_valid_pointer slot then 0
                else let loader = safe_read_pointer m slot
                     in if is_valid_pointer loader then loader else 0
            else let loader = safe_read_pointer m field_addr
                 in if is_valid_pointer loader then loader else 0)"

definition klass_to_class_loader_oop :: "jvm \<Rightarrow> mem \<Rightarrow> addr \<Rightarrow> addr option" where
  "klass_to_class_loader_oop J m k =
     (case vm_struct J ''Klass'' ''_class_loader_data'' of None \<Rightarrow> Some 0
      | Some e \<Rightarrow>
          if k = 0 \<or> \<not> is_valid_pointer k then Some 0
          else do {
            cld \<leftarrow> load64 m (k + se_offset e);
            Some (if cld = 0 \<or> \<not> is_valid_pointer cld then 0 else get_class_loader_oop J m cld) })"

section \<open>Searching\<close>

text \<open>The test both searches make: the class has a readable name symbol that spells the name.\<close>

definition klass_named :: "jvm \<Rightarrow> mem \<Rightarrow> string \<Rightarrow> addr \<Rightarrow> bool option" where
  "klass_named J m class_name k =
     (let sym = klass_get_name J m k in
        if is_valid_pointer sym then map_option (\<lambda>s. s = class_name) (symbol_to_string J m sym)
        else Some False)"

definition entry_klass :: "mem \<Rightarrow> addr \<Rightarrow> addr" where
  "entry_klass m dict_entry = untag_pointer (safe_read_pointer m (dict_entry + 16))"

definition entry_next :: "mem \<Rightarrow> addr \<Rightarrow> addr" where
  "entry_next m dict_entry = untag_pointer (safe_read_pointer m dict_entry)"

partial_function (option) find_in_chain :: "jvm \<Rightarrow> mem \<Rightarrow> string \<Rightarrow> addr \<Rightarrow> addr option" where
  [code]: "find_in_chain J m class_name dict_entry =
     (if \<not> is_valid_pointer dict_entry then Some 0
      else let candidate = entry_klass m dict_entry in do {
        hit \<leftarrow> (if is_valid_pointer candidate then klass_named J m class_name candidate else Some False);
        if hit then Some candidate
        else find_in_chain J m class_name (entry_next m dict_entry) })"

definition bucket_head :: "mem \<Rightarrow> addr \<Rightarrow> nat \<Rightarrow> addr" where
  "bucket_head m buckets i = untag_pointer (safe_read_pointer m (buckets + of_nat (8 * i)))"

fun find_in_buckets :: "jvm \<Rightarrow> mem \<Rightarrow> string \<Rightarrow> addr \<Rightarrow> nat list \<Rightarrow> addr option" where
  "find_in_buckets J m class_name buckets [] = Some 0"
| "find_in_buckets J m class_name buckets (i # is) = do {
     k \<leftarrow> find_in_chain J m class_name (bucket_head m buckets i);
     if k \<noteq> 0 then Some k else find_in_buckets J m class_name buckets is }"

definition get_table_size :: "mem \<Rightarrow> addr \<Rightarrow> int option" where
  "get_table_size m this = map_option sint (load32 m this)"

definition get_buckets :: "mem \<Rightarrow> addr \<Rightarrow> addr option" where
  "get_buckets m this = load64 m (this + 8)"

definition dictionary_find_klass :: "jvm \<Rightarrow> mem \<Rightarrow> string \<Rightarrow> addr \<Rightarrow> addr option" where
  "dictionary_find_klass J m class_name this = do {
     table_size \<leftarrow> get_table_size m this;
     buckets \<leftarrow> get_buckets m this;
     if \<not> is_valid_pointer buckets \<or> table_size \<le> 0 \<or> table_size > 0x186A0 then Some 0
     else find_in_buckets J m class_name buckets [0..<nat table_size] }"

partial_function (option) find_in_klasses :: "jvm \<Rightarrow> mem \<Rightarrow> string \<Rightarrow> addr \<Rightarrow> (unit + addr) option" where
  [code]: "find_in_klasses J m class_name k =
     (if \<not> (k \<noteq> 0 \<and> is_valid_pointer k) then Some (Inr 0)
      else do {
        hit \<leftarrow> klass_named J m class_name k;
        if hit then Some (Inr k)
        else do {
          nxt \<leftarrow> klass_get_next_link J m k;
          case nxt of Inl e \<Rightarrow> Some (Inl e) | Inr k' \<Rightarrow> find_in_klasses J m class_name k' } })"

definition use_klasses :: "jvm \<Rightarrow> bool" where
  "use_klasses J = (vm_struct J ''ClassLoaderData'' ''_klasses'' \<noteq> None)"

definition find_in_cld :: "jvm \<Rightarrow> mem \<Rightarrow> string \<Rightarrow> addr \<Rightarrow> (unit + addr) option" where
  "find_in_cld J m class_name cld =
     (if use_klasses J then do {
        k \<leftarrow> cld_get_klasses J m cld;
        find_in_klasses J m class_name k }
      else let dict = cld_get_dictionary J m cld in
        if is_valid_pointer dict then map_option Inr (dictionary_find_klass J m class_name dict)
        else Some (Inr 0))"

partial_function (option) find_in_clds :: "jvm \<Rightarrow> mem \<Rightarrow> string \<Rightarrow> addr \<Rightarrow> (unit + addr) option" where
  [code]: "find_in_clds J m class_name cld =
     (if \<not> is_valid_pointer cld then Some (Inr 0)
      else do {
        r \<leftarrow> find_in_cld J m class_name cld;
        case r of Inl e \<Rightarrow> Some (Inl e)
        | Inr k \<Rightarrow> if k \<noteq> 0 then Some (Inr k)
                   else find_in_clds J m class_name (cld_get_next J m cld) })"

definition graph_get_head :: "jvm \<Rightarrow> mem \<Rightarrow> addr option" where
  "graph_get_head J m =
     (case vm_struct J ''ClassLoaderDataGraph'' ''_head'' of None \<Rightarrow> Some 0
      | Some e \<Rightarrow> do {
          head \<leftarrow> load64 m (se_address e);
          Some (if is_valid_pointer head then head else 0) })"

definition system_dictionary :: "jvm \<Rightarrow> mem \<Rightarrow> string \<Rightarrow> addr option" where
  "system_dictionary J m field =
     (case vm_struct J ''SystemDictionary'' field of None \<Rightarrow> Some 0
      | Some e \<Rightarrow> if se_address e = 0 then Some 0
                  else do {
                    d \<leftarrow> load64 m (se_address e);
                    Some (if is_valid_pointer d then d else 0) })"

fun find_in_system :: "jvm \<Rightarrow> mem \<Rightarrow> string \<Rightarrow> string list \<Rightarrow> addr option" where
  "find_in_system J m class_name [] = Some 0"
| "find_in_system J m class_name (f # fs) = do {
     d \<leftarrow> system_dictionary J m f;
     if d = 0 then find_in_system J m class_name fs
     else do {
       k \<leftarrow> dictionary_find_klass J m class_name d;
       if k \<noteq> 0 then Some k else find_in_system J m class_name fs } }"

definition graph_find_klass :: "jvm \<Rightarrow> mem \<Rightarrow> string \<Rightarrow> (unit + addr) option" where
  "graph_find_klass J m class_name = do {
     head \<leftarrow> graph_get_head J m;
     r \<leftarrow> find_in_clds J m class_name head;
     case r of Inl e \<Rightarrow> Some (Inl e)
     | Inr k \<Rightarrow> if k \<noteq> 0 then Some (Inr k)
                else map_option Inr (find_in_system J m class_name [''_dictionary'', ''_shared_dictionary'']) }"

section \<open>Enumerating\<close>

text \<open>
  The callback gets the class name and the class and may change memory, as the one of
  \<open>deoptimize_methods_if\<close> does, so the walk re-reads the links from the current memory. The
  result carries the flag that \<open>get_next_link\<close> threw after the callbacks already made.
\<close>

type_synonym 'a visit = "string \<Rightarrow> addr \<Rightarrow> mem \<times> 'a \<Rightarrow> (mem \<times> 'a) option"

definition chain_limit :: nat where "chain_limit = 1048576"
definition cld_limit :: nat where "cld_limit = 65536"

definition visit_klass :: "jvm \<Rightarrow> 'a visit \<Rightarrow> addr \<Rightarrow> mem \<times> 'a \<Rightarrow> (mem \<times> 'a) option" where
  "visit_klass J callback k s =
     (let sym = klass_get_name J (fst s) k in
        if is_valid_pointer sym then do { nm \<leftarrow> symbol_to_string J (fst s) sym; callback nm k s }
        else Some s)"

function each_in_chain :: "jvm \<Rightarrow> 'a visit \<Rightarrow> nat \<Rightarrow> addr \<Rightarrow> mem \<times> 'a \<Rightarrow> (mem \<times> 'a) option" where
  "each_in_chain J callback chain_visited dict_entry s =
     (if is_valid_pointer dict_entry \<and> chain_visited < chain_limit then
        let candidate = entry_klass (fst s) dict_entry in do {
          s' \<leftarrow> (if is_valid_pointer candidate then visit_klass J callback candidate s else Some s);
          each_in_chain J callback (chain_visited + 1) (entry_next (fst s') dict_entry) s' }
      else Some s)"
  by pat_completeness auto
termination by (relation "measure (\<lambda>(J, cb, n, e, s). chain_limit - n)") auto

declare each_in_chain.simps [simp del]

fun each_in_buckets :: "jvm \<Rightarrow> 'a visit \<Rightarrow> addr \<Rightarrow> nat list \<Rightarrow> mem \<times> 'a \<Rightarrow> (mem \<times> 'a) option" where
  "each_in_buckets J callback buckets [] s = Some s"
| "each_in_buckets J callback buckets (i # is) s = do {
     s' \<leftarrow> each_in_chain J callback 0 (bucket_head (fst s) buckets i) s;
     each_in_buckets J callback buckets is s' }"

definition dictionary_for_each_klass :: "jvm \<Rightarrow> 'a visit \<Rightarrow> addr \<Rightarrow> mem \<times> 'a \<Rightarrow> (mem \<times> 'a) option" where
  "dictionary_for_each_klass J callback this s = do {
     table_size \<leftarrow> get_table_size (fst s) this;
     buckets \<leftarrow> get_buckets (fst s) this;
     if \<not> is_valid_pointer buckets \<or> table_size \<le> 0 \<or> table_size > 0x186A0 then Some s
     else each_in_buckets J callback buckets [0..<nat table_size] s }"

function each_in_klasses :: "jvm \<Rightarrow> 'a visit \<Rightarrow> nat \<Rightarrow> addr \<Rightarrow> mem \<times> 'a \<Rightarrow> (bool \<times> mem \<times> 'a) option" where
  "each_in_klasses J callback kl_visited k s =
     (if k \<noteq> 0 \<and> is_valid_pointer k \<and> kl_visited < chain_limit then do {
        s' \<leftarrow> visit_klass J callback k s;
        nxt \<leftarrow> klass_get_next_link J (fst s') k;
        case nxt of Inl e \<Rightarrow> Some (True, s')
        | Inr k' \<Rightarrow> each_in_klasses J callback (kl_visited + 1) k' s' }
      else Some (False, s))"
  by pat_completeness auto
termination by (relation "measure (\<lambda>(J, cb, n, k, s). chain_limit - n)") auto

declare each_in_klasses.simps [simp del]

definition each_in_cld :: "jvm \<Rightarrow> 'a visit \<Rightarrow> addr \<Rightarrow> mem \<times> 'a \<Rightarrow> (bool \<times> mem \<times> 'a) option" where
  "each_in_cld J callback cld s =
     (if use_klasses J then do {
        k \<leftarrow> cld_get_klasses J (fst s) cld;
        each_in_klasses J callback 0 k s }
      else if vm_struct J ''ClassLoaderData'' ''_dictionary'' \<noteq> None then
        let dict = cld_get_dictionary J (fst s) cld in
          if is_valid_pointer dict then map_option (Pair False) (dictionary_for_each_klass J callback dict s)
          else Some (False, s)
      else Some (False, s))"

function each_in_clds :: "jvm \<Rightarrow> 'a visit \<Rightarrow> nat \<Rightarrow> addr \<Rightarrow> mem \<times> 'a \<Rightarrow> (bool \<times> mem \<times> 'a) option" where
  "each_in_clds J callback visited cld s =
     (if is_valid_pointer cld \<and> visited < cld_limit then do {
        r \<leftarrow> each_in_cld J callback cld s;
        if fst r then Some r
        else each_in_clds J callback (visited + 1) (cld_get_next J (fst (snd r)) cld) (snd r) }
      else Some (False, s))"
  by pat_completeness auto
termination by (relation "measure (\<lambda>(J, cb, n, k, s). cld_limit - n)") auto

declare each_in_clds.simps [simp del]

fun each_in_system :: "jvm \<Rightarrow> 'a visit \<Rightarrow> string list \<Rightarrow> mem \<times> 'a \<Rightarrow> (mem \<times> 'a) option" where
  "each_in_system J callback [] s = Some s"
| "each_in_system J callback (f # fs) s = do {
     d \<leftarrow> system_dictionary J (fst s) f;
     s' \<leftarrow> (if d = 0 then Some s else dictionary_for_each_klass J callback d s);
     each_in_system J callback fs s' }"

definition graph_for_each_klass :: "jvm \<Rightarrow> 'a visit \<Rightarrow> mem \<times> 'a \<Rightarrow> (bool \<times> mem \<times> 'a) option" where
  "graph_for_each_klass J callback s = do {
     head \<leftarrow> graph_get_head J (fst s);
     r \<leftarrow> each_in_clds J callback 0 head s;
     if fst r \<or> use_klasses J then Some r
     else map_option (Pair False) (each_in_system J callback [''_dictionary'', ''_shared_dictionary''] (snd r)) }"

definition for_each_loaded_class :: "jvm \<Rightarrow> 'a visit \<Rightarrow> mem \<times> 'a \<Rightarrow> (mem \<times> 'a) option" where
  "for_each_loaded_class J visit s = map_option snd (graph_for_each_klass J visit s)"

section \<open>The cached lookup\<close>

text \<open>
  The state of \<open>find_class\<close>: \<open>klass_lookup_cache\<close> and \<open>host_classloader_klass\<close>. The fallback
  \<open>jni_find_class_with_context_loader\<close> runs class loading through the JNI function table; it
  is the parameter \<open>jni_find\<close>, which gives the class or null and leaves memory as it is.
\<close>

record class_cache =
  klass_lookup_cache :: "(string, addr) mapping"
  host_classloader_klass :: addr

definition capture_host_classloader_klass :: "jvm \<Rightarrow> mem \<Rightarrow> addr \<Rightarrow> class_cache \<Rightarrow> class_cache option" where
  "capture_host_classloader_klass J m candidate c =
     (if host_classloader_klass c \<noteq> 0 then Some c
      else if candidate = 0 \<or> \<not> is_valid_pointer candidate then Some c
      else do {
        loader \<leftarrow> klass_to_class_loader_oop J m candidate;
        Some (if loader = 0 then c else c\<lparr>host_classloader_klass := candidate\<rparr>) })"

definition cached_klass_ok :: "jvm \<Rightarrow> mem \<Rightarrow> string \<Rightarrow> addr \<Rightarrow> bool option" where
  "cached_klass_ok J m class_name k =
     (if k \<noteq> 0 \<and> is_valid_pointer k then
        let sym = klass_get_name J m k in
          if sym \<noteq> 0 \<and> is_valid_pointer sym
          then map_option (\<lambda>s. s = class_name) (symbol_to_string J m sym) else Some False
      else Some False)"

text \<open>\<open>unordered_map::insert\<close> keeps an entry that is already there.\<close>

definition cache_insert :: "string \<Rightarrow> addr \<Rightarrow> (string, addr) mapping \<Rightarrow> (string, addr) mapping" where
  "cache_insert cn k c = (if Mapping.lookup c cn = None then Mapping.update cn k c else c)"

definition resolve_class :: "jvm \<Rightarrow> (string \<Rightarrow> addr) \<Rightarrow> mem \<Rightarrow> string \<Rightarrow> class_cache \<Rightarrow> (addr \<times> class_cache) option" where
  "resolve_class J jni_find m class_name c = do {
     r \<leftarrow> graph_find_klass J m class_name;
     case r of Inl e \<Rightarrow> Some (0, c)
     | Inr k \<Rightarrow>
         let found = (if k \<noteq> 0 then k else jni_find class_name) in
           if found = 0 then Some (0, c)
           else do {
             c' \<leftarrow> capture_host_classloader_klass J m found
                    (c\<lparr>klass_lookup_cache := cache_insert class_name found (klass_lookup_cache c)\<rparr>);
             Some (found, c') } }"

definition find_class :: "jvm \<Rightarrow> (string \<Rightarrow> addr) \<Rightarrow> mem \<Rightarrow> string \<Rightarrow> class_cache \<Rightarrow> (addr \<times> class_cache) option" where
  "find_class J jni_find m class_name c =
     (case Mapping.lookup (klass_lookup_cache c) class_name of
        None \<Rightarrow> resolve_class J jni_find m class_name c
      | Some cached \<Rightarrow> do {
          ok \<leftarrow> cached_klass_ok J m class_name cached;
          if ok then Some (cached, c)
          else resolve_class J jni_find m class_name
                 (c\<lparr>klass_lookup_cache := Mapping.delete class_name (klass_lookup_cache c)\<rparr>) })"

section \<open>Facts\<close>

lemma klass_get_name_valid: "klass_get_name J m k \<noteq> 0 \<Longrightarrow> is_valid_pointer (klass_get_name J m k) \<and> is_valid_pointer k"
  by (auto simp: klass_get_name_def Let_def split: option.splits if_splits)

lemma klass_named_valid: "klass_named J m cn k = Some True \<Longrightarrow> is_valid_pointer k"
  by (auto simp: klass_named_def klass_get_name_def Let_def split: option.splits if_splits)

lemma klass_named_unique: "klass_named J m cn k = Some True \<Longrightarrow> klass_named J m cn' k = Some True \<Longrightarrow> cn = cn'"
  by (auto simp: klass_named_def Let_def split: if_splits)

lemma cached_klass_ok_named: "is_valid_pointer k \<Longrightarrow> cached_klass_ok J m cn k = klass_named J m cn k"
  using valid_not_null by (auto simp: cached_klass_ok_def klass_named_def Let_def)

lemma find_in_chain_sound:
  "find_in_chain J m cn e = Some k \<Longrightarrow> k \<noteq> 0 \<longrightarrow> klass_named J m cn k = Some True"
  by (rule find_in_chain.raw_induct [where P = "\<lambda>J m cn e k. k \<noteq> 0 \<longrightarrow> klass_named J m cn k = Some True", rotated])
    (assumption, fastforce simp: Let_def split: if_splits bind_splits)

lemma find_in_buckets_sound:
  "find_in_buckets J m cn b is = Some k \<Longrightarrow> k \<noteq> 0 \<Longrightarrow> klass_named J m cn k = Some True"
  by (induction J m cn b "is" rule: find_in_buckets.induct)
    (auto split: if_splits bind_splits dest: find_in_chain_sound)

lemma dictionary_find_klass_sound:
  "dictionary_find_klass J m cn d = Some k \<Longrightarrow> k \<noteq> 0 \<Longrightarrow> klass_named J m cn k = Some True"
  by (auto simp: dictionary_find_klass_def split: if_splits bind_splits dest: find_in_buckets_sound)

lemma find_in_klasses_sound:
  "find_in_klasses J m cn e = Some r \<Longrightarrow> (\<forall>k. r = Inr k \<and> k \<noteq> 0 \<longrightarrow> klass_named J m cn k = Some True)"
  by (rule find_in_klasses.raw_induct
      [where P = "\<lambda>J m cn e r. \<forall>k. r = Inr k \<and> k \<noteq> 0 \<longrightarrow> klass_named J m cn k = Some True", rotated])
    (assumption, fastforce split: if_splits bind_splits sum.splits)

lemma find_in_cld_sound:
  "find_in_cld J m cn e = Some (Inr k) \<Longrightarrow> k \<noteq> 0 \<Longrightarrow> klass_named J m cn k = Some True"
  by (auto simp: find_in_cld_def Let_def split: if_splits bind_splits
      dest: find_in_klasses_sound dictionary_find_klass_sound)

lemma find_in_clds_sound:
  "find_in_clds J m cn e = Some r \<Longrightarrow> (\<forall>k. r = Inr k \<and> k \<noteq> 0 \<longrightarrow> klass_named J m cn k = Some True)"
  by (rule find_in_clds.raw_induct
      [where P = "\<lambda>J m cn e r. \<forall>k. r = Inr k \<and> k \<noteq> 0 \<longrightarrow> klass_named J m cn k = Some True", rotated])
    (assumption, fastforce split: if_splits bind_splits sum.splits dest: find_in_cld_sound)

lemma find_in_system_sound:
  "find_in_system J m cn fs = Some k \<Longrightarrow> k \<noteq> 0 \<Longrightarrow> klass_named J m cn k = Some True"
  by (induction J m cn fs rule: find_in_system.induct)
    (auto split: if_splits bind_splits dest: dictionary_find_klass_sound)

lemma graph_find_klass_sound:
  "graph_find_klass J m cn = Some (Inr k) \<Longrightarrow> k \<noteq> 0 \<Longrightarrow> klass_named J m cn k = Some True"
  by (auto simp: graph_find_klass_def simp del: find_in_system.simps split: if_splits bind_splits sum.splits
      dest: find_in_clds_sound find_in_system_sound)

lemma capture_keeps_cache:
  "capture_host_classloader_klass J m k c = Some c' \<Longrightarrow> klass_lookup_cache c' = klass_lookup_cache c"
  by (auto simp: capture_host_classloader_klass_def split: if_splits bind_splits)

lemma resolve_class_sound:
  assumes "resolve_class J jni_find m cn c = Some (k, c')" and "k \<noteq> 0"
  shows "klass_named J m cn k = Some True \<or> k = jni_find cn"
    and "klass_lookup_cache c' = cache_insert cn k (klass_lookup_cache c)"
  using assms
  by (auto simp: resolve_class_def Let_def split: if_splits bind_splits sum.splits
      dest: graph_find_klass_sound capture_keeps_cache)

lemma lookup_delete_if: "Mapping.lookup (Mapping.delete k c) k' = (if k = k' then None else Mapping.lookup c k')"
  by (cases "k = k'") auto

lemma find_class_cache:
  assumes "find_class J jni_find m cn c = Some (k, c')" and "k \<noteq> 0"
  shows "Mapping.lookup (klass_lookup_cache c') cn = Some k"
    and "other \<noteq> cn \<Longrightarrow> Mapping.lookup (klass_lookup_cache c') other = Mapping.lookup (klass_lookup_cache c) other"
  using assms
  by (auto simp: find_class_def cache_insert_def lookup_update' lookup_delete_if
      split: option.splits if_splits bind_splits dest!: resolve_class_sound(2))

section \<open>Search and enumeration agree\<close>

text \<open>
  \<open>chain nxt es e\<close>: following \<open>nxt\<close> from \<open>e\<close> visits exactly \<open>es\<close> and then reaches a pointer that
  is not valid. On such a chain, no longer than the bound of the enumeration, the search
  returns the first class the enumeration reports under the name.
\<close>

fun chain :: "(addr \<Rightarrow> addr) \<Rightarrow> addr list \<Rightarrow> addr \<Rightarrow> bool" where
  "chain nxt [] e = (\<not> is_valid_pointer e)"
| "chain nxt (x # xs) e = (is_valid_pointer e \<and> x = e \<and> chain nxt xs (nxt e))"

definition short_chain :: "(addr \<Rightarrow> addr) \<Rightarrow> addr \<Rightarrow> bool" where
  "short_chain nxt e \<longleftrightarrow> (\<exists>es. chain nxt es e \<and> length es \<le> chain_limit)"

definition collect :: "(string \<times> addr) list visit" where
  "collect nm k s = Some (fst s, snd s @ [(nm, k)])"

definition first_named :: "string \<Rightarrow> (string \<times> addr) list \<Rightarrow> addr" where
  "first_named cn xs = (case find (\<lambda>(n, k). n = cn) xs of None \<Rightarrow> 0 | Some (n, k) \<Rightarrow> k)"

definition reported :: "string \<Rightarrow> (string \<times> addr) list \<Rightarrow> (string \<times> addr) list \<Rightarrow> addr \<Rightarrow> bool" where
  "reported cn acc acc' k \<longleftrightarrow> (\<exists>xs. acc' = acc @ xs \<and> k = first_named cn xs \<and> (\<forall>(n, k) \<in> set xs. k \<noteq> 0))"

lemma first_named_Nil [simp]: "first_named cn [] = 0"
  by (simp add: first_named_def)

lemma first_named_Cons [simp]: "first_named cn ((n, k) # xs) = (if n = cn then k else first_named cn xs)"
  by (simp add: first_named_def)

lemma first_named_append:
  "\<forall>(n, k) \<in> set xs. k \<noteq> 0 \<Longrightarrow> first_named cn (xs @ ys) = (if first_named cn xs \<noteq> 0 then first_named cn xs else first_named cn ys)"
  by (induction xs) auto

lemma reported_refl [simp]: "reported cn acc acc 0"
  by (simp add: reported_def)

lemma reported_step:
  "reported cn (acc @ [(n, k)]) acc' k' \<Longrightarrow> k \<noteq> 0 \<Longrightarrow> reported cn acc acc' (if n = cn then k else k')"
  unfolding reported_def by (clarify, rule_tac x = "(n, k) # xs" in exI) auto

lemma reported_trans:
  "reported cn a b k \<Longrightarrow> reported cn b c k' \<Longrightarrow> reported cn a c (if k \<noteq> 0 then k else k')"
  unfolding reported_def by (clarify, rule_tac x = "xs @ xsa" in exI) (auto simp: first_named_append)

lemma visit_collect:
  "visit_klass J collect k (m, acc) = Some s' \<Longrightarrow>
     (\<exists>nm. s' = (m, acc @ [(nm, k)]) \<and> klass_named J m cn k = Some (nm = cn))
     \<or> s' = (m, acc) \<and> klass_named J m cn k = Some False"
  by (auto simp: visit_klass_def klass_named_def collect_def Let_def split: if_splits bind_splits)

lemma find_in_chain_reported:
  "chain (entry_next m) es e \<Longrightarrow> visited + length es \<le> chain_limit \<Longrightarrow>
     each_in_chain J collect visited e (m, acc) = Some s' \<Longrightarrow>
     fst s' = m \<and> (\<exists>k. find_in_chain J m cn e = Some k \<and> reported cn acc (snd s') k)"
proof (induction es arbitrary: e visited acc)
  case Nil
  then show ?case
    by (subst (asm) each_in_chain.simps, subst find_in_chain.simps) auto
next
  case (Cons x es)
  let ?k = "entry_klass m e"
  have e: "is_valid_pointer e" "visited < chain_limit" using Cons.prems by auto
  obtain s1 where v: "(if is_valid_pointer ?k then visit_klass J collect ?k (m, acc) else Some (m, acc)) = Some s1"
    and rest: "each_in_chain J collect (visited + 1) (entry_next (fst s1) e) s1 = Some s'"
    using Cons.prems(3) e by (subst (asm) each_in_chain.simps) (auto simp: Let_def split: bind_splits)
  have tail: "fst s' = m \<and> (\<exists>k. find_in_chain J m cn (entry_next m e) = Some k \<and> reported cn acc1 (snd s') k)"
    if "s1 = (m, acc1)" for acc1
    using Cons.IH [of "entry_next m e" "visited + 1" acc1] Cons.prems rest that by auto
  have unf: "find_in_chain J m cn e = do {
        hit \<leftarrow> (if is_valid_pointer ?k then klass_named J m cn ?k else Some False);
        if hit then Some ?k else find_in_chain J m cn (entry_next m e) }"
    using e by (subst find_in_chain.simps) (simp add: Let_def)
  show ?case
  proof (cases "is_valid_pointer ?k")
    case False
    with v tail [of acc] unf show ?thesis by auto
  next
    case True
    with v have "visit_klass J collect ?k (m, acc) = Some s1" by simp
    from visit_collect [OF this, of cn] show ?thesis
    proof (elim disjE exE conjE)
      fix nm
      assume s1: "s1 = (m, acc @ [(nm, ?k)])" and n: "klass_named J m cn ?k = Some (nm = cn)"
      from tail [OF s1] obtain k where "fst s' = m" "find_in_chain J m cn (entry_next m e) = Some k"
        "reported cn (acc @ [(nm, ?k)]) (snd s') k" by auto
      with n unf True reported_step [of cn acc nm ?k "snd s'" k] valid_not_null [of ?k]
      show ?thesis by (cases "nm = cn") auto
    qed (use tail [of acc] unf True in auto)
  qed
qed

lemma find_in_buckets_reported:
  "\<forall>i \<in> set is. short_chain (entry_next m) (bucket_head m b i) \<Longrightarrow>
     each_in_buckets J collect b is (m, acc) = Some s' \<Longrightarrow>
     fst s' = m \<and> (\<exists>k. find_in_buckets J m cn b is = Some k \<and> reported cn acc (snd s') k)"
proof (induction "is" arbitrary: acc)
  case Nil
  then show ?case by auto
next
  case (Cons i "is")
  obtain s1 where s1: "each_in_chain J collect 0 (bucket_head m b i) (m, acc) = Some s1"
    and rest: "each_in_buckets J collect b is s1 = Some s'"
    using Cons.prems(2) by (auto split: bind_splits)
  obtain es where "chain (entry_next m) es (bucket_head m b i)" "length es \<le> chain_limit"
    using Cons.prems(1) by (auto simp: short_chain_def)
  from find_in_chain_reported [OF this(1) _ s1, of cn] this(2) obtain k where k: "fst s1 = m"
    "find_in_chain J m cn (bucket_head m b i) = Some k" "reported cn acc (snd s1) k" by auto
  with Cons.IH [of "snd s1"] Cons.prems(1) rest obtain k' where k': "fst s' = m"
    "find_in_buckets J m cn b is = Some k'" "reported cn (snd s1) (snd s') k'" by (cases s1) auto
  from reported_trans [OF k(3) k'(3)] k k' show ?case by auto
qed

section \<open>A concrete dictionary\<close>

definition entry_named :: "string \<Rightarrow> string \<Rightarrow> u64 \<Rightarrow> vm_struct_entry_t" where
  "entry_named tn fn off = \<lparr>se_type_name = tn, se_field_name = Some fn, se_type_string = None,
     se_is_static = 0, se_offset = off, se_address = 0\<rparr>"

definition graph_demo_jvm :: jvm where
  "graph_demo_jvm = \<lparr>vm_types = [], vm_structs = [entry_named ''Klass'' ''_name'' 16,
     entry_named ''Symbol'' ''_length'' 8, entry_named ''Symbol'' ''_body'' 10], proc_maps = []\<rparr>"

text \<open>One bucket at 0x21000 with one entry at 0x22000, whose class at 0x23000 is named A.\<close>

definition graph_demo_mem :: mem where
  "graph_demo_mem = image [(0x20000, 4, 1), (0x20008, 8, 0x21000), (0x21000, 8, 0x22000),
     (0x22000, 8, 0), (0x22010, 8, 0x23000), (0x23010, 8, 0x24000), (0x24000, 8, 1), (0x24008, 2, 1), (0x2400A, 1, 65)]"

lemmas ptr_eval = is_valid_pointer_def user_address_floor_def user_address_ceiling_def poison_patterns_def
  untag_pointer_def

lemma graph_demo_loads [simp]:
  "load32 graph_demo_mem 0x20000 = Some 1" "load64 graph_demo_mem 0x20008 = Some 0x21000"
  "load64 graph_demo_mem 0x21000 = Some 0x22000" "load64 graph_demo_mem 0x22000 = Some 0"
  "load64 graph_demo_mem 0x22010 = Some 0x23000" "load64 graph_demo_mem 0x23010 = Some 0x24000"
  "load64 graph_demo_mem 0x24000 = Some 1" "load16 graph_demo_mem 0x24008 = Some 1"
  by (simp_all add: graph_demo_mem_def mem_simps apart_def)

lemma graph_demo_char [simp]: "graph_demo_mem 0x2400A = Some 65"
  by (simp add: graph_demo_mem_def put_def ram_def)

lemma graph_demo_symbol: "symbol_to_string graph_demo_jvm graph_demo_mem 0x24000 = Some ''A''"
  by (simp add: symbol_to_string_def graph_demo_jvm_def iterate_struct_entries_def entry_named_def
      safe_read_pointer_aligned ptr_eval chars_of_bytes_def char_of_def bit_0 Let_def)

lemma graph_demo_klass_name: "klass_get_name graph_demo_jvm graph_demo_mem 0x23000 = 0x24000"
  by (simp add: klass_get_name_def graph_demo_jvm_def iterate_struct_entries_def entry_named_def
      safe_read_pointer_aligned ptr_eval Let_def)

lemma graph_demo_named: "klass_named graph_demo_jvm graph_demo_mem cn 0x23000 = Some (cn = ''A'')"
  by (auto simp: klass_named_def graph_demo_klass_name graph_demo_symbol ptr_eval)

lemma graph_demo_chain:
  "bucket_head graph_demo_mem 0x21000 0 = 0x22000" "entry_klass graph_demo_mem 0x22000 = 0x23000"
  "entry_next graph_demo_mem 0x22000 = 0"
  by (simp_all add: bucket_head_def entry_klass_def entry_next_def safe_read_pointer_aligned ptr_eval)

lemma graph_demo_short: "short_chain (entry_next graph_demo_mem) (bucket_head graph_demo_mem 0x21000 0)"
  unfolding short_chain_def
  by (rule exI [of _ "[0x22000]"]) (simp add: graph_demo_chain ptr_eval chain_limit_def)

lemma graph_demo_collect:
  "dictionary_for_each_klass graph_demo_jvm collect 0x20000 (graph_demo_mem, []) = Some (graph_demo_mem, [(''A'', 0x23000)])"
proof -
  have v: "visit_klass graph_demo_jvm collect 0x23000 (graph_demo_mem, []) = Some (graph_demo_mem, [(''A'', 0x23000)])"
    by (simp add: visit_klass_def graph_demo_klass_name graph_demo_symbol collect_def ptr_eval)
  have "each_in_chain graph_demo_jvm collect 0 0x22000 (graph_demo_mem, []) = Some (graph_demo_mem, [(''A'', 0x23000)])"
    by (subst each_in_chain.simps, subst each_in_chain.simps)
      (simp add: graph_demo_chain v chain_limit_def ptr_eval)
  then show ?thesis
    by (simp add: dictionary_for_each_klass_def get_table_size_def get_buckets_def ptr_eval
        graph_demo_chain)
qed

section \<open>Properties\<close>

text \<open>C23. Whatever the lookup cache holds (stale, moved or freed classes included), a class that
  find_class returns spells the requested name or came from the JNI loader path, and in the
  first case the next lookup answers from the cache with the same class.\<close>

theorem find_class_correct:
  assumes "find_class J jni_find m cn c = Some (k, c')" and "k \<noteq> 0"
  shows "(klass_named J m cn k = Some True \<or> k = jni_find cn)
     \<and> (klass_named J m cn k = Some True \<longrightarrow> find_class J jni_find m cn c' = Some (k, c'))"
proof -
  have cached: "k' = k \<and> c' = c \<and> klass_named J m cn k = Some True"
    if "cached_klass_ok J m cn k' = Some True" "Some (k', c) = Some (k, c')" for k'
    using that cached_klass_ok_named [of k' J m cn] by (auto simp: cached_klass_ok_def split: if_splits)
  have "klass_named J m cn k = Some True \<or> k = jni_find cn"
    using assms cached unfolding find_class_def
    by (auto split: option.splits bind_splits if_splits dest: resolve_class_sound(1))
  moreover have "find_class J jni_find m cn c' = Some (k, c')" if "klass_named J m cn k = Some True"
    using that find_class_cache(1) [OF assms] cached_klass_ok_named [OF klass_named_valid [OF that]]
    by (simp add: find_class_def)
  ultimately show ?thesis by simp
qed

lemma find_class_correct_witness:
  "\<exists>c'. find_class graph_demo_jvm (\<lambda>_. 0) graph_demo_mem ''A''
       \<lparr>klass_lookup_cache = Mapping.update ''A'' 0x23000 Mapping.empty, host_classloader_klass = 0\<rparr> = Some (0x23000, c')
     \<and> find_class graph_demo_jvm (\<lambda>_. 0) graph_demo_mem ''A'' c' = Some (0x23000, c')"
proof -
  let ?c = "\<lparr>klass_lookup_cache = Mapping.update ''A'' 0x23000 Mapping.empty, host_classloader_klass = 0\<rparr>"
  have f: "find_class graph_demo_jvm (\<lambda>_. 0) graph_demo_mem ''A'' ?c = Some (0x23000, ?c)"
    using cached_klass_ok_named [of "0x23000" graph_demo_jvm graph_demo_mem "''A''"]
    by (simp add: find_class_def graph_demo_named ptr_eval)
  from find_class_correct [OF f] f show ?thesis by (simp add: graph_demo_named)
qed

text \<open>On a dictionary whose bucket chains end within the enumeration's bound, the search
  finds exactly the first class that the enumeration reports under the name, and null when it
  reports none; in particular it returns.\<close>

theorem dictionary_search_matches_enumeration:
  assumes "dictionary_for_each_klass J collect d (m, []) = Some (m', xs)"
    and "\<forall>n i. get_table_size m d = Some n \<and> i < nat n \<longrightarrow>
           (\<forall>b. get_buckets m d = Some b \<longrightarrow> short_chain (entry_next m) (bucket_head m b i))"
  shows "dictionary_find_klass J m cn d = Some (first_named cn xs)"
proof -
  obtain n b where nb: "get_table_size m d = Some n" "get_buckets m d = Some b"
    using assms(1) by (auto simp: dictionary_for_each_klass_def split: bind_splits)
  show ?thesis
  proof (cases "\<not> is_valid_pointer b \<or> n \<le> 0 \<or> n > 0x186A0")
    case True
    with assms(1) nb show ?thesis by (auto simp: dictionary_for_each_klass_def dictionary_find_klass_def)
  next
    case False
    with assms(1) nb have "each_in_buckets J collect b [0..<nat n] (m, []) = Some (m', xs)"
      by (auto simp: dictionary_for_each_klass_def)
    moreover have "\<forall>i \<in> set [0..<nat n]. short_chain (entry_next m) (bucket_head m b i)"
      using assms(2) nb by auto
    ultimately show ?thesis
      using find_in_buckets_reported [of "[0..<nat n]" m b J "[]" "(m', xs)" cn] False nb
      by (auto simp: dictionary_find_klass_def reported_def)
  qed
qed

lemma dictionary_search_matches_enumeration_witness:
  "dictionary_find_klass graph_demo_jvm graph_demo_mem ''A'' 0x20000 = Some 0x23000"
  using dictionary_search_matches_enumeration [OF graph_demo_collect, of "''A''"] graph_demo_short
  by (simp add: get_table_size_def get_buckets_def)

text \<open>The enumeration bounds its walk over a bucket chain, the search does not: on a chain
  whose entry links to itself and whose class has another name, the enumeration returns and the
  search never does.\<close>

theorem cyclic_chain_search_diverges:
  assumes "is_valid_pointer e" and "entry_next m e = e" and "\<not> is_valid_pointer (entry_klass m e)"
  shows "find_in_chain J m cn e = None \<and> each_in_chain J callback 0 e (m, a) = Some (m, a)"
proof -
  have "find_in_chain J m cn e \<noteq> Some k" for k
  proof
    assume "find_in_chain J m cn e = Some k"
    then have "(m, e) = (m, e) \<longrightarrow> False"
      by (rule find_in_chain.raw_induct [where P = "\<lambda>J m' cn e' k. (m', e') = (m, e) \<longrightarrow> False", rotated])
        (use assms in \<open>fastforce simp: Let_def split: bind_splits if_splits\<close>)
    then show False by simp
  qed
  moreover have "each_in_chain J callback n e (m, a) = Some (m, a)" for n
  proof (induction "chain_limit - n" arbitrary: n)
    case (Suc x)
    have "each_in_chain J callback (Suc n) e (m, a) = Some (m, a)" by (rule Suc) (use Suc(2) in simp)
    with assms show ?case by (subst each_in_chain.simps) simp
  qed (subst each_in_chain.simps, simp)
  ultimately show ?thesis by (cases "find_in_chain J m cn e") auto
qed

lemma cyclic_chain_search_diverges_witness:
  "find_in_chain graph_demo_jvm (image [(0x22000, 8, 0x22000)]) ''A'' 0x22000 = None"
proof -
  let ?m = "image [(0x22000, 8, 0x22000)]"
  have "entry_next ?m 0x22000 = 0x22000" "entry_klass ?m 0x22000 = 0"
    by (simp_all add: entry_next_def entry_klass_def safe_read_pointer_aligned ptr_eval mem_simps apart_def)
  then show ?thesis
    using cyclic_chain_search_diverges [of "0x22000" ?m graph_demo_jvm "''A''" "\<lambda>_ _ _. None :: (mem \<times> unit) option" "()"]
    by (simp add: ptr_eval)
qed

end
