(* ===== verification/Klass_Fields.thy ===== *)
theory Klass_Fields
  imports Klass_Graph
begin

text \<open>
  Field metadata: the UNSIGNED5 decoder \<open>klass::decode_u5\<close>, the two field tables
  (\<open>find_field_in_stream\<close> for JDK 21 and later, \<open>klass::find_field\<close> for older ones; vmhook.hpp
  lines 2870 to 3121), the cached lookup \<open>vmhook::find_field\<close> over the superclasses (10997) and
  the memory accessors \<open>get_field\<close> and \<open>set_field\<close> (11061 to 11162).

  The template parameter \<open>value_type\<close> is the number of bytes \<open>n\<close> and the word type the caller
  picks. The superclass walk has no bound in the code; it is a partial function here.
\<close>

section \<open>UNSIGNED5\<close>

text \<open>The loop over at most five bytes; \<open>n\<close> counts the bytes left, so the byte's position is \<open>5 - n\<close>.\<close>

fun u5_loop :: "mem \<Rightarrow> addr \<Rightarrow> nat \<Rightarrow> nat \<Rightarrow> u32 \<Rightarrow> (u32 \<times> nat) option" where
  "u5_loop m data stream_pos 0 acc = Some (acc, stream_pos)"
| "u5_loop m data stream_pos (Suc n) acc = do {
     current_byte \<leftarrow> m (data + of_nat stream_pos);
     if current_byte = 0 then Some (- 1, stream_pos)
     else let acc' = acc + push_bit (6 * (4 - n)) (ucast (current_byte - 1)) in
       if current_byte < 192 then Some (acc', stream_pos + 1)
       else u5_loop m data (stream_pos + 1) n acc' }"

definition decode_u5 :: "mem \<Rightarrow> addr \<Rightarrow> nat \<Rightarrow> (u32 \<times> nat) option" where
  "decode_u5 m data stream_pos = u5_loop m data stream_pos 5 0"

section \<open>Field tables\<close>

record field_entry_t =
  fe_offset :: u32
  fe_is_static :: bool
  fe_signature :: string
  fe_declaring_klass :: addr

definition pool_slot :: "mem \<Rightarrow> addr \<Rightarrow> u32 \<Rightarrow> addr option" where
  "pool_slot m constant_pool_base i = load64 m (constant_pool_base + 8 * ucast i)"

text \<open>\<open>index && is_valid_pointer(base[index])\<close>, then \<open>to_string\<close> of the symbol in the slot.\<close>

definition pool_string :: "jvm \<Rightarrow> mem \<Rightarrow> addr \<Rightarrow> u32 \<Rightarrow> string option option" where
  "pool_string J m base i =
     (if i = 0 then Some None
      else do {
        p \<leftarrow> pool_slot m base i;
        if is_valid_pointer p then map_option Some (symbol_to_string J m p) else Some None })"

definition skip_if :: "bool \<Rightarrow> mem \<Rightarrow> addr \<Rightarrow> nat \<Rightarrow> nat option" where
  "skip_if c m data pos = (if c then map_option snd (decode_u5 m data pos) else Some pos)"

text \<open>One iteration reads the five mandatory values and the optional ones the flags announce.
  \<open>Inl\<close> is the end of the stream.\<close>

definition read_field :: "mem \<Rightarrow> addr \<Rightarrow> nat \<Rightarrow> (unit + (u32 \<times> u32 \<times> u32 \<times> u32 \<times> nat)) option" where
  "read_field m data pos = do {
     (name_index, pos) \<leftarrow> decode_u5 m data pos;
     if name_index = - 1 then Some (Inl ())
     else do {
       (sig_index, pos) \<leftarrow> decode_u5 m data pos;
       (field_offset, pos) \<leftarrow> decode_u5 m data pos;
       (access_flags, pos) \<leftarrow> decode_u5 m data pos;
       (field_flags, pos) \<leftarrow> decode_u5 m data pos;
       pos \<leftarrow> skip_if (field_flags AND 1 \<noteq> 0) m data pos;
       pos \<leftarrow> skip_if (field_flags AND 4 \<noteq> 0) m data pos;
       pos \<leftarrow> skip_if (field_flags AND 16 \<noteq> 0) m data pos;
       Some (Inr (name_index, sig_index, field_offset, access_flags, pos)) } }"

fun stream_loop :: "jvm \<Rightarrow> mem \<Rightarrow> string \<Rightarrow> addr \<Rightarrow> addr \<Rightarrow> int \<Rightarrow> nat \<Rightarrow> nat \<Rightarrow> field_entry_t option option" where
  "stream_loop J m name base data len 0 pos = Some None"
| "stream_loop J m name base data len (Suc n) pos =
     (if \<not> int pos < len then Some None
      else do {
        r \<leftarrow> read_field m data pos;
        case r of Inl _ \<Rightarrow> Some None
        | Inr (name_index, sig_index, field_offset, access_flags, pos') \<Rightarrow> do {
            nm \<leftarrow> pool_string J m base name_index;
            if nm = Some name then do {
              sig \<leftarrow> pool_string J m base sig_index;
              Some (Some \<lparr>fe_offset = field_offset, fe_is_static = (access_flags AND 8 \<noteq> 0),
                 fe_signature = (case sig of None \<Rightarrow> '''' | Some s \<Rightarrow> s), fe_declaring_klass = 0\<rparr>) }
            else stream_loop J m name base data len n pos' } })"

definition find_field_in_stream :: "jvm \<Rightarrow> mem \<Rightarrow> addr \<Rightarrow> string \<Rightarrow> addr \<Rightarrow> field_entry_t option option" where
  "find_field_in_stream J m this name base =
     (case vm_struct J ''InstanceKlass'' ''_fieldinfo_stream'' of None \<Rightarrow> Some None
      | Some e \<Rightarrow>
          if \<not> is_valid_pointer this \<or> \<not> is_valid_pointer base then Some None
          else do {
            arr \<leftarrow> load64 m (this + se_offset e);
            if \<not> is_valid_pointer arr then Some None
            else do {
              l \<leftarrow> load32 m arr;
              if sint l \<le> 0 \<or> sint l > 0x4000 then Some None
              else do {
                (num_java_fields, pos) \<leftarrow> decode_u5 m (arr + 4) 0;
                (num_injected_fields, pos) \<leftarrow> decode_u5 m (arr + 4) pos;
                if num_java_fields = - 1 \<or> num_injected_fields = - 1
                   \<or> num_java_fields + num_injected_fields > 4096 then Some None
                else stream_loop J m name base (arr + 4) (sint l)
                       (unat (num_java_fields + num_injected_fields)) pos } } })"

definition field_slots :: nat where "field_slots = 6"

definition field_u2 :: "mem \<Rightarrow> addr \<Rightarrow> nat \<Rightarrow> nat \<Rightarrow> u16 option" where
  "field_u2 m data i k = load16 m (data + of_nat (2 * (i * field_slots + k)))"

definition slot_string :: "jvm \<Rightarrow> mem \<Rightarrow> addr \<Rightarrow> u16 \<Rightarrow> string option option" where
  "slot_string J m base i = do {
     p \<leftarrow> pool_slot m base (ucast i);
     if is_valid_pointer p then map_option Some (symbol_to_string J m p) else Some None }"

fun slots_loop :: "jvm \<Rightarrow> mem \<Rightarrow> string \<Rightarrow> addr \<Rightarrow> addr \<Rightarrow> nat list \<Rightarrow> field_entry_t option option" where
  "slots_loop J m name base data [] = Some None"
| "slots_loop J m name base data (i # is) = do {
     name_index \<leftarrow> field_u2 m data i 1;
     if name_index = 0 then slots_loop J m name base data is
     else do {
       nm \<leftarrow> slot_string J m base name_index;
       if nm \<noteq> Some name then slots_loop J m name base data is
       else do {
         access_flags \<leftarrow> field_u2 m data i 0;
         sig_index \<leftarrow> field_u2 m data i 2;
         low_packed \<leftarrow> field_u2 m data i 4;
         high_packed \<leftarrow> field_u2 m data i 5;
         let packed = push_bit 16 (ucast high_packed) OR ucast low_packed;
         sig \<leftarrow> slot_string J m base sig_index;
         Some (Some \<lparr>fe_offset = drop_bit 2 packed, fe_is_static = (access_flags AND 8 \<noteq> 0),
            fe_signature = (case sig of None \<Rightarrow> '''' | Some s \<Rightarrow> s), fe_declaring_klass = 0\<rparr>) } } }"

definition find_in_fields_array :: "jvm \<Rightarrow> mem \<Rightarrow> addr \<Rightarrow> string \<Rightarrow> addr \<Rightarrow> field_entry_t option option" where
  "find_in_fields_array J m this name base =
     (case vm_struct J ''InstanceKlass'' ''_fields'' of None \<Rightarrow> Some None
      | Some e \<Rightarrow> do {
          fields_array \<leftarrow> load64 m (this + se_offset e);
          if \<not> is_valid_pointer fields_array then Some None
          else do {
            l \<leftarrow> load32 m fields_array;
            if sint l \<le> 0 \<or> sint l < int field_slots then Some None
            else slots_loop J m name base (fields_array + 4) [0..<nat (sint l) div field_slots] } })"

definition klass_find_field :: "jvm \<Rightarrow> mem \<Rightarrow> addr \<Rightarrow> string \<Rightarrow> field_entry_t option option" where
  "klass_find_field J m this name =
     (case vm_struct J ''InstanceKlass'' ''_constants'' of None \<Rightarrow> Some None
      | Some ce \<Rightarrow>
          if \<not> is_valid_pointer this then Some None
          else do {
            cp \<leftarrow> load64 m (this + se_offset ce);
            if \<not> is_valid_pointer cp then Some None
            else let base = cp_get_base J cp in
              if \<not> is_valid_pointer base then Some None
              else if vm_struct J ''InstanceKlass'' ''_fieldinfo_stream'' \<noteq> None
                   then find_field_in_stream J m this name base
                   else find_in_fields_array J m this name base })"

section \<open>Lookup over the superclasses, with its cache\<close>

type_synonym field_cache = "(addr \<times> string, field_entry_t) mapping"

partial_function (option) find_in_supers :: "jvm \<Rightarrow> mem \<Rightarrow> string \<Rightarrow> addr \<Rightarrow> field_entry_t option option" where
  [code]: "find_in_supers J m name k =
     (if k = 0 then Some None
      else do {
        entry \<leftarrow> klass_find_field J m k name;
        case entry of Some e \<Rightarrow> Some (Some (e\<lparr>fe_declaring_klass := k\<rparr>))
        | None \<Rightarrow> do { super \<leftarrow> get_super J m k; find_in_supers J m name super } })"

definition find_field :: "jvm \<Rightarrow> mem \<Rightarrow> addr \<Rightarrow> string \<Rightarrow> field_cache \<Rightarrow> (field_entry_t option \<times> field_cache) option" where
  "find_field J m target_klass name cache =
     (if target_klass = 0 \<or> \<not> is_valid_pointer target_klass then Some (None, cache)
      else case Mapping.lookup cache (target_klass, name) of
        Some e \<Rightarrow> Some (Some e, cache)
      | None \<Rightarrow> do {
          r \<leftarrow> find_in_supers J m name target_klass;
          case r of None \<Rightarrow> Some (None, cache)
          | Some e \<Rightarrow> Some (Some e, Mapping.update (target_klass, name) e cache) })"

section \<open>Reading and writing a field\<close>

text \<open>The address \<open>get_field\<close> and \<open>set_field\<close> copy from and to; \<open>None\<close> inside is an exception
  both functions catch.\<close>

definition field_location :: "jvm \<Rightarrow> mem \<Rightarrow> addr \<Rightarrow> addr \<Rightarrow> field_entry_t \<Rightarrow> addr option" where
  "field_location J m obj target_klass e =
     (if fe_is_static e then
        let mirror_klass = (if fe_declaring_klass e \<noteq> 0 then fe_declaring_klass e else target_klass);
            mirror = get_java_mirror J m mirror_klass
        in if mirror = 0 \<or> \<not> is_valid_pointer mirror then None else Some (mirror + ucast (fe_offset e))
      else if obj = 0 \<or> \<not> is_valid_pointer obj then None
      else Some (obj + ucast (fe_offset e)))"

definition get_field ::
  "nat \<Rightarrow> jvm \<Rightarrow> mem \<Rightarrow> addr \<Rightarrow> addr \<Rightarrow> string \<Rightarrow> field_cache \<Rightarrow> ('a::len word \<times> field_cache) option" where
  "get_field n J m obj target_klass name cache = do {
     (entry, cache') \<leftarrow> find_field J m target_klass name cache;
     case Option.bind entry (field_location J m obj target_klass) of
       None \<Rightarrow> Some (0, cache')
     | Some a \<Rightarrow> do { v \<leftarrow> load_le n m a; Some (v, cache') } }"

definition set_field ::
  "nat \<Rightarrow> jvm \<Rightarrow> mem \<Rightarrow> addr \<Rightarrow> addr \<Rightarrow> string \<Rightarrow> 'a::len word \<Rightarrow> field_cache \<Rightarrow> (mem \<times> field_cache) option" where
  "set_field n J m obj target_klass name v cache = do {
     (entry, cache') \<leftarrow> find_field J m target_klass name cache;
     case Option.bind entry (field_location J m obj target_klass) of
       None \<Rightarrow> Some (m, cache')
     | Some a \<Rightarrow> do { m' \<leftarrow> store_le n m a v; Some (m', cache') } }"

section \<open>The encoder the decoder inverts\<close>

text \<open>
  HotSpot writes a value as base-64 digits, each digit plus one, with an offset of 191 so that
  a byte below 192 ends the value: the reference encoding that the decoder's comment describes.
  \<open>u5_encode n v\<close> may use \<open>n\<close> more bytes; the last one may be any byte.
\<close>

fun u5_encode :: "nat \<Rightarrow> nat \<Rightarrow> nat list" where
  "u5_encode 0 v = []"
| "u5_encode (Suc n) v =
     (if n = 0 \<or> v < 191 then [v + 1] else (192 + (v - 191) mod 64) # u5_encode n ((v - 191) div 64))"

definition u5_bytes :: "u32 \<Rightarrow> u8 list" where
  "u5_bytes v = map of_nat (u5_encode 5 (unat v))"

fun u5_value :: "nat list \<Rightarrow> nat" where
  "u5_value [] = 0"
| "u5_value (b # bs) = (b - 1) + 64 * u5_value bs"

lemma u5_value_encode: "0 < n \<Longrightarrow> u5_value (u5_encode n v) = v"
proof (induction n arbitrary: v)
  case (Suc n)
  show ?case
  proof (cases "n = 0 \<or> v < 191")
    case False
    then have "u5_value (u5_encode (Suc n) v) = 191 + (v - 191) mod 64 + 64 * ((v - 191) div 64)"
      using Suc.IH by simp
    with False mod_mult_div_eq [of "v - 191" 64] show ?thesis by linarith
  qed auto
qed simp

fun u5_shape :: "nat \<Rightarrow> nat list \<Rightarrow> bool" where
  "u5_shape n [] = False"
| "u5_shape 0 (b # bs) = False"
| "u5_shape (Suc n) (b # bs) = (0 < b \<and> b < 256 \<and> (if b < 192 \<or> n = 0 then bs = [] else u5_shape n bs))"

fun u5_max :: "nat \<Rightarrow> nat" where
  "u5_max 0 = 0"
| "u5_max (Suc n) = (if n = 0 then 255 else 191 + 64 * u5_max n)"

lemma u5_encode_shape: "0 < n \<Longrightarrow> v < u5_max n \<Longrightarrow> u5_shape n (u5_encode n v)"
proof (induction n arbitrary: v)
  case (Suc n)
  show ?case
  proof (cases "n = 0 \<or> v < 191")
    case False
    then have "v - 191 < u5_max n * 64" using Suc.prems(2) by (simp split: if_splits) linarith
    then have "(v - 191) div 64 < u5_max n" by (rule less_mult_imp_div_less)
    with Suc.IH False have "u5_shape n (u5_encode n ((v - 191) div 64))" by simp
    moreover have "192 + (v - 191) mod 64 < 256" using mod_less_divisor [of 64 "v - 191"] by linarith
    ultimately show ?thesis using False by simp
  qed (use Suc.prems in auto)
qed simp

lemma u5_loop_value:
  assumes "u5_shape n bs" and "n \<le> 5" and "load_bytes m (data + of_nat pos) (length bs) = Some (map of_nat bs)"
  shows "u5_loop m data pos n acc = Some (acc + push_bit (6 * (5 - n)) (of_nat (u5_value bs)), pos + length bs)"
  using assms
proof (induction n bs arbitrary: pos acc rule: u5_shape.induct)
  case (3 n b bs)
  have b: "m (data + of_nat pos) = Some (of_nat b)"
    and rest: "load_bytes m (data + of_nat (Suc pos)) (length bs) = Some (map of_nat bs)"
    using "3.prems"(3) by (auto split: bind_splits simp: ac_simps)
  have r: "0 < b" "b < 256" using "3.prems"(1) by auto
  then have ub: "unat (of_nat b :: u8) = b" by (simp add: unat_of_nat take_bit_nat_eq_self)
  then have nz: "(of_nat b :: u8) \<noteq> 0" using r by auto
  have lt: "(of_nat b :: u8) < 192 \<longleftrightarrow> b < 192" using ub by (simp add: word_less_nat_alt)
  have "unat (of_nat b - 1 :: u8) = b - 1" using ub nz unat_minus_one by metis
  then have cast: "(ucast (of_nat b - 1 :: u8) :: u32) = of_nat (b - 1)"
    using r unat_ucast_up [where 'a = 8 and 'b = 32, of "of_nat b - 1"]
    by (simp add: word_unat_eq_iff unat_of_nat take_bit_nat_eq_self del: of_nat_diff)
  show ?case
  proof (cases "b < 192 \<or> n = 0")
    case True
    with "3.prems" have "bs = []" by auto
    with True b nz lt cast show ?thesis by (cases "b < 192") (auto simp: Let_def)
  next
    case False
    with "3.prems" have sh: "u5_shape n bs" "n \<le> 5" "n \<noteq> 0" "5 - n = Suc (4 - n)" by auto
    have "push_bit (6 * (4 - n)) (of_nat (b - 1)) + push_bit (6 * (5 - n)) (of_nat (u5_value bs))
        = (push_bit (6 * (4 - n)) (of_nat (b - 1 + 64 * u5_value bs)) :: u32)"
      by (simp add: sh(4) push_bit_eq_mult power_add algebra_simps)
    with "3.IH" [OF _ sh(1,2) rest] False b nz lt cast show ?thesis
      by (simp add: Let_def ac_simps)
  qed
qed auto

lemma decode_u5_bytes:
  assumes "holds m data pos (u5_bytes v)"
  shows "decode_u5 m data pos = Some (v, pos + length (u5_bytes v))"
proof -
  have "5 = Suc (Suc (Suc (Suc (Suc 0))))" by simp
  then have "u5_max 5 = 4329054335" by (simp only: u5_max.simps nat.distinct if_True if_False refl) simp
  then have "unat v < u5_max 5" using unat_lt32 [of v] by simp
  then have "u5_shape 5 (u5_encode 5 (unat v))" by (intro u5_encode_shape) simp_all
  from u5_loop_value [OF this _ , of m data pos 0] assms show ?thesis
    by (simp add: decode_u5_def u5_bytes_def u5_value_encode holds_def)
qed

lemma u5_bytes_nonempty: "0 < length (u5_bytes v)"
proof -
  have "5 = Suc 4" by simp
  then have "u5_encode 5 (unat v) \<noteq> []" by (simp only: u5_encode.simps split: if_split) simp
  then show ?thesis by (simp add: u5_bytes_def)
qed

section \<open>Field streams\<close>

text \<open>A field of the stream and its encoding; the optional values stand for the initialiser,
  the generic signature and the contended group that the flag bits 1, 4 and 16 announce.\<close>

record stream_field =
  sf_name :: u32
  sf_sig :: u32
  sf_offset :: u32
  sf_access :: u32
  sf_flags :: u32
  sf_init :: u32
  sf_generic :: u32
  sf_group :: u32

definition opt_bytes :: "bool \<Rightarrow> u32 \<Rightarrow> u8 list" where
  "opt_bytes c v = (if c then u5_bytes v else [])"

definition field_bytes :: "stream_field \<Rightarrow> u8 list" where
  "field_bytes f = u5_bytes (sf_name f) @ u5_bytes (sf_sig f) @ u5_bytes (sf_offset f) @ u5_bytes (sf_access f)
     @ u5_bytes (sf_flags f) @ opt_bytes (sf_flags f AND 1 \<noteq> 0) (sf_init f)
     @ opt_bytes (sf_flags f AND 4 \<noteq> 0) (sf_generic f) @ opt_bytes (sf_flags f AND 16 \<noteq> 0) (sf_group f)"

lemma skip_opt: "holds m data pos (opt_bytes c v) \<Longrightarrow> skip_if c m data pos = Some (pos + length (opt_bytes c v))"
  by (auto simp: skip_if_def opt_bytes_def decode_u5_bytes)

lemma read_field_bytes:
  "holds m data pos (field_bytes f) \<Longrightarrow> sf_name f \<noteq> - 1 \<Longrightarrow>
     read_field m data pos = Some (Inr (sf_name f, sf_sig f, sf_offset f, sf_access f, pos + length (field_bytes f)))"
  unfolding field_bytes_def holds_append
  by (elim conjE, drule decode_u5_bytes, drule decode_u5_bytes, drule decode_u5_bytes, drule decode_u5_bytes,
      drule decode_u5_bytes, drule skip_opt, drule skip_opt, drule skip_opt) (simp add: read_field_def add.assoc)

definition field_entry :: "(u32 \<Rightarrow> string option) \<Rightarrow> stream_field \<Rightarrow> field_entry_t" where
  "field_entry pool f = \<lparr>fe_offset = sf_offset f, fe_is_static = (sf_access f AND 8 \<noteq> 0),
     fe_signature = (case pool (sf_sig f) of None \<Rightarrow> '''' | Some s \<Rightarrow> s), fe_declaring_klass = 0\<rparr>"

lemma stream_loop_fields:
  assumes "\<forall>i. pool_string J m base i = Some (pool i)"
    and "holds m data pos (concat (map field_bytes fs))" and "\<forall>f \<in> set fs. sf_name f \<noteq> - 1"
    and "int (pos + length (concat (map field_bytes fs))) \<le> len"
  shows "stream_loop J m name base data len (length fs) pos
     = Some (map_option (field_entry pool) (find (\<lambda>f. pool (sf_name f) = Some name) fs))"
  using assms(2-)
proof (induction fs arbitrary: pos)
  case Nil
  then show ?case by simp
next
  case (Cons f fs)
  have h: "holds m data pos (field_bytes f)" "holds m data (pos + length (field_bytes f)) (concat (map field_bytes fs))"
    using Cons.prems(1) by (simp_all add: holds_append)
  have "0 < length (field_bytes f)" using u5_bytes_nonempty [of "sf_name f"] by (simp add: field_bytes_def)
  with Cons.prems(3) have lt: "int pos < len" unfolding concat.simps list.map length_append by linarith
  have r: "read_field m data pos = Some (Inr (sf_name f, sf_sig f, sf_offset f, sf_access f, pos + length (field_bytes f)))"
    using read_field_bytes [OF h(1)] Cons.prems(2) by simp
  have IH: "stream_loop J m name base data len (length fs) (pos + length (field_bytes f))
     = Some (map_option (field_entry pool) (find (\<lambda>f. pool (sf_name f) = Some name) fs))"
    using Cons.IH [OF h(2)] Cons.prems(2,3) by simp
  show ?case
    using lt r IH by (simp add: assms(1) [rule_format] field_entry_def [of pool f])
qed

lemma stream_loop_declaring: "stream_loop J m name base data len n pos = Some (Some e) \<Longrightarrow> fe_declaring_klass e = 0"
  by (induction J m name base data len n pos rule: stream_loop.induct)
    (auto split: if_splits bind_splits sum.splits prod.splits)

lemma slots_loop_declaring: "slots_loop J m name base data is = Some (Some e) \<Longrightarrow> fe_declaring_klass e = 0"
  by (induction J m name base data "is" rule: slots_loop.induct)
    (auto simp: Let_def split: if_splits bind_splits)

lemma klass_find_field_declaring: "klass_find_field J m k name = Some (Some e) \<Longrightarrow> fe_declaring_klass e = 0"
  by (auto simp: klass_find_field_def find_field_in_stream_def find_in_fields_array_def Let_def
      split: option.splits if_splits bind_splits prod.splits dest: stream_loop_declaring slots_loop_declaring)

lemma stream_lookup:
  assumes "vm_struct J ''InstanceKlass'' ''_fieldinfo_stream'' = Some e" and "is_valid_pointer this"
    and "is_valid_pointer base" and "load64 m (this + se_offset e) = Some arr" and "is_valid_pointer arr"
    and "\<forall>i. pool_string J m base i = Some (pool i)" and "\<forall>f \<in> set fs. sf_name f \<noteq> - 1"
    and "bytes = u5_bytes nj @ u5_bytes ni @ concat (map field_bytes fs)"
    and "length bytes \<le> 0x4000" and "load32 m arr = Some (of_nat (length bytes))" and "holds m (arr + 4) 0 bytes"
    and "nj \<noteq> - 1" and "ni \<noteq> - 1" and "length fs = unat (nj + ni)" and "nj + ni \<le> 4096"
  shows "find_field_in_stream J m this name base
     = Some (map_option (field_entry pool) (find (\<lambda>f. pool (sf_name f) = Some name) fs))"
proof -
  have "0 < length bytes" using u5_bytes_nonempty [of nj] by (simp add: assms(8))
  with assms(9) have l: "sint (of_nat (length bytes) :: u32) = int (length bytes)"
    by (simp add: sint_uint signed_take_bit_int_eq_self uint_nat unat_of_nat take_bit_nat_eq_self)
  have h: "holds m (arr + 4) 0 (u5_bytes nj)" "holds m (arr + 4) (length (u5_bytes nj)) (u5_bytes ni)"
    "holds m (arr + 4) (length (u5_bytes nj) + length (u5_bytes ni)) (concat (map field_bytes fs))"
    using assms(11) by (simp_all add: assms(8) holds_append)
  note sl = stream_loop_fields [OF assms(6) h(3) assms(7), of "int (length bytes)" name]
  have "find_field_in_stream J m this name base = stream_loop J m name base (arr + 4) (int (length bytes))
      (length fs) (length (u5_bytes nj) + length (u5_bytes ni))"
    using assms(1-5,9,10,12-14) linorder_not_less [THEN iffD2, OF assms(15)] \<open>0 < length bytes\<close> l
      decode_u5_bytes [OF h(1)] decode_u5_bytes [OF h(2)]
    by (simp add: find_field_in_stream_def not_less [of _ "int _"])
  moreover have "int (length (u5_bytes nj) + length (u5_bytes ni) + length (concat (map field_bytes fs))) \<le> int (length bytes)"
    by (simp add: assms(8))
  ultimately show ?thesis using sl by simp
qed

section \<open>Properties\<close>

text \<open>The UNSIGNED5 decoder inverts the JVM's encoding for every 32-bit value, at every
  position, and leaves the stream position behind the value's last byte.\<close>

theorem decode_u5_roundtrip:
  assumes "holds m data pos (u5_bytes v)"
  shows "decode_u5 m data pos = Some (v, pos + length (u5_bytes v))"
  by (rule decode_u5_bytes [OF assms])

text \<open>C15. On a class whose field stream holds the encoding of any list of fields (with any of the
  optional values), the lookup returns the entry of the first field whose pool symbol spells
  the name, and nothing when there is none.\<close>

theorem find_field_in_stream_roundtrip:
  assumes "vm_struct J ''InstanceKlass'' ''_fieldinfo_stream'' = Some e" and "is_valid_pointer this"
    and "is_valid_pointer base" and "load64 m (this + se_offset e) = Some arr" and "is_valid_pointer arr"
    and "\<forall>i. pool_string J m base i = Some (pool i)" and "\<forall>f \<in> set fs. sf_name f \<noteq> - 1"
    and "bytes = u5_bytes nj @ u5_bytes ni @ concat (map field_bytes fs)"
    and "length bytes \<le> 0x4000" and "load32 m arr = Some (of_nat (length bytes))" and "holds m (arr + 4) 0 bytes"
    and "nj \<noteq> - 1" and "ni \<noteq> - 1" and "length fs = unat (nj + ni)" and "nj + ni \<le> 4096"
  shows "find_field_in_stream J m this name base
     = Some (map_option (field_entry pool) (find (\<lambda>f. pool (sf_name f) = Some name) fs))"
  by (rule stream_lookup [OF assms])

lemma decode_u5_roundtrip_witness:
  "decode_u5 (put 0x1000 (u5_bytes 0xFFFFFFFF) ram) 0x1000 0 = Some (0xFFFFFFFF, length (u5_bytes 0xFFFFFFFF))"
proof -
  have "length (u5_encode n v) \<le> n" for n v by (induction n v rule: u5_encode.induct) auto
  then have "length (u5_bytes 0xFFFFFFFF) \<le> 5" by (simp add: u5_bytes_def)
  then have "length (u5_bytes 0xFFFFFFFF) \<le> 2 ^ 64" by simp
  then have "holds (put 0x1000 (u5_bytes 0xFFFFFFFF) ram) 0x1000 0 (u5_bytes 0xFFFFFFFF)"
    by (simp add: holds_def load_bytes_put_same)
  from decode_u5_roundtrip [OF this] show ?thesis by simp
qed

definition fields_demo_jvm :: jvm where
  "fields_demo_jvm = \<lparr>vm_types = [\<lparr>te_type_name = ''ConstantPool'', te_superclass_name = None,
       te_is_oop_type_type = 0, te_is_integer_type = 0, te_is_unsigned = 0, te_size = 0x1000\<rparr>],
     vm_structs = [entry_named ''InstanceKlass'' ''_fieldinfo_stream'' 8, entry_named ''InstanceKlass'' ''_constants'' 16,
       entry_named ''Symbol'' ''_length'' 8, entry_named ''Symbol'' ''_body'' 10], proc_maps = []\<rparr>"

text \<open>A class at 0x20000 with one field named A of offset 12; its pool is at 0x30000.\<close>

definition fields_demo_mem :: mem where
  "fields_demo_mem = put 0x21004 [2, 1, 2, 2, 13, 1, 1] (image [(0x21000, 4, 7), (0x20008, 8, 0x21000),
     (0x20010, 8, 0x2F000), (0x30008, 8, 0x24000), (0x24000, 8, 1), (0x24008, 2, 1), (0x2400A, 1, 65)])"

lemma fields_demo_loads [simp]:
  "load64 fields_demo_mem 0x20008 = Some 0x21000" "load64 fields_demo_mem 0x20010 = Some 0x2F000" "load32 fields_demo_mem 0x21000 = Some 7"
  "load64 fields_demo_mem 0x30008 = Some 0x24000" "load64 fields_demo_mem 0x24000 = Some 1"
  "load16 fields_demo_mem 0x24008 = Some 1" "fields_demo_mem 0x2400A = Some 65"
  by (simp_all add: fields_demo_mem_def mem_simps apart_def) (simp add: put_def ram_def)

lemma fields_demo_mapped: "mapped fields_demo_mem a n"
  by (simp add: fields_demo_mem_def)

lemma symbol_to_string_total: "\<forall>a n. mapped m a n \<Longrightarrow> symbol_to_string J m p \<noteq> None"
proof -
  assume t: "\<forall>a n. mapped m a n"
  then have tot: "(load16 m a = None) = False" "(load_bytes m a n = None) = False" for a n
    using load_le_None_iff [of 2 m a] load_bytes_mapped [of m a n] by auto
  show ?thesis
    by (auto simp: symbol_to_string_def Let_def tot split: option.splits bind_splits)
qed

lemma pool_string_total: "\<forall>a n. mapped m a n \<Longrightarrow> \<exists>s. pool_string J m base i = Some s"
proof -
  assume t: "\<forall>a n. mapped m a n"
  then obtain p where "pool_slot m base i = Some p"
    using load_le_mapped [of m _ 8] by (force simp: pool_slot_def)
  with symbol_to_string_total [OF t, of J p] show ?thesis by (auto simp: pool_string_def)
qed

lemma fields_demo_pool: "pool_string fields_demo_jvm fields_demo_mem 0x30000 1 = Some (Some ''A'')"
  by (simp add: pool_string_def pool_slot_def symbol_to_string_def fields_demo_jvm_def iterate_struct_entries_def
      entry_named_def safe_read_pointer_aligned ptr_eval chars_of_bytes_def char_of_def bit_0 Let_def)

lemma find_field_in_stream_roundtrip_witness:
  "find_field_in_stream fields_demo_jvm fields_demo_mem 0x20000 ''A'' 0x30000
     = Some (Some \<lparr>fe_offset = 12, fe_is_static = False, fe_signature = ''A'', fe_declaring_klass = 0\<rparr>)"
proof -
  let ?f = "\<lparr>sf_name = 1, sf_sig = 1, sf_offset = 12, sf_access = 0, sf_flags = 0, sf_init = 0, sf_generic = 0, sf_group = 0\<rparr>"
  let ?pool = "\<lambda>i. the (pool_string fields_demo_jvm fields_demo_mem 0x30000 i)"
  have u5: "u5_bytes v = [of_nat (unat v + 1)]" if "unat v < 191" for v
  proof -
    have "5 = Suc 4" by simp
    with that show ?thesis by (simp only: u5_bytes_def u5_encode.simps simp_thms if_True list.map)
  qed
  have b: "u5_bytes 1 @ u5_bytes 0 @ concat (map field_bytes [?f]) = [2, 1, 2, 2, 13, 1, 1]"
    by (simp add: field_bytes_def opt_bytes_def u5)
  have pool: "\<forall>i. pool_string fields_demo_jvm fields_demo_mem 0x30000 i = Some (?pool i)"
    using pool_string_total [of fields_demo_mem] fields_demo_mapped by (metis option.sel)
  have h: "holds fields_demo_mem (0x21000 + 4) 0 [2, 1, 2, 2, 13, 1, 1]"
    using load_bytes_put_same [of "[2, 1, 2, 2, 13, 1, 1]" "0x21004"] by (simp add: holds_def fields_demo_mem_def)
  have st: "vm_struct fields_demo_jvm ''InstanceKlass'' ''_fieldinfo_stream'' = Some (entry_named ''InstanceKlass'' ''_fieldinfo_stream'' 8)"
    by (simp add: fields_demo_jvm_def iterate_struct_entries_def entry_named_def)
  have "find_field_in_stream fields_demo_jvm fields_demo_mem 0x20000 ''A'' 0x30000
     = Some (map_option (field_entry ?pool) (find (\<lambda>f. ?pool (sf_name f) = Some ''A'') [?f]))"
    by (rule find_field_in_stream_roundtrip [where arr = "0x21000" and fs = "[?f]" and nj = 1 and ni = 0,
          OF st _ _ _ _ pool _ refl]) (use h b in \<open>simp_all add: entry_named_def ptr_eval\<close>)
  then show ?thesis by (simp add: fields_demo_pool field_entry_def)
qed

text \<open>
  A cache is coherent when every entry is what the uncached walk finds. Class metadata does not
  change while the program uses the cache, which the code relies on.
\<close>

definition coherent :: "jvm \<Rightarrow> mem \<Rightarrow> field_cache \<Rightarrow> bool" where
  "coherent J m cache \<longleftrightarrow>
     (\<forall>k name e. Mapping.lookup cache (k, name) = Some e \<longrightarrow> find_in_supers J m name k = Some (Some e))"

lemma coherent_empty: "coherent J m Mapping.empty"
  by (simp add: coherent_def)

text \<open>C24. With a coherent cache the cached lookup returns what the walk over the superclasses
  returns, and leaves the cache coherent; the entry it returns names a class on which the field
  is declared.\<close>

theorem find_field_cache_transparent:
  assumes "coherent J m cache" and "is_valid_pointer k" and "find_field J m k name cache = Some (r, cache')"
  shows "find_in_supers J m name k = Some r \<and> coherent J m cache'
     \<and> (\<forall>e. r = Some e \<longrightarrow> klass_find_field J m (fe_declaring_klass e) name = Some (Some (e\<lparr>fe_declaring_klass := 0\<rparr>)))"
proof -
  have c: "find_in_supers J m name k = Some r \<and> coherent J m cache'"
  proof (cases "Mapping.lookup cache (k, name)")
    case None
    with assms valid_not_null [OF assms(2)] show ?thesis
      by (auto simp: find_field_def coherent_def lookup_update' split: option.splits bind_splits if_splits)
  next
    case (Some e)
    with assms valid_not_null [OF assms(2)] have "r = Some e" "cache' = cache" by (auto simp: find_field_def)
    with Some assms(1) show ?thesis by (auto simp: coherent_def)
  qed
  have "\<forall>e. r = Some e \<longrightarrow> klass_find_field J m (fe_declaring_klass e) name = Some (Some (e\<lparr>fe_declaring_klass := 0\<rparr>))"
  proof (rule find_in_supers.raw_induct [where P = "\<lambda>J m name k r. \<forall>e. r = Some e \<longrightarrow>
      klass_find_field J m (fe_declaring_klass e) name = Some (Some (e\<lparr>fe_declaring_klass := 0\<rparr>))", OF _ conjunct1 [OF c]])
    fix f J m name k r
    assume IH: "\<And>J m name k r. f J m name k = Some r \<Longrightarrow> \<forall>e. r = Some e \<longrightarrow>
      klass_find_field J m (fe_declaring_klass e) name = Some (Some (e\<lparr>fe_declaring_klass := 0\<rparr>))"
      and b: "(if k = 0 then Some None
      else do {
        entry \<leftarrow> klass_find_field J m k name;
        case entry of Some e \<Rightarrow> Some (Some (e\<lparr>fe_declaring_klass := k\<rparr>))
        | None \<Rightarrow> do { super \<leftarrow> get_super J m k; f J m name super } }) = Some r"
    have z: "e\<lparr>fe_declaring_klass := 0\<rparr> = e" if "klass_find_field J m k name = Some (Some e)" for e
      using klass_find_field_declaring [OF that] by simp
    show "\<forall>e. r = Some e \<longrightarrow> klass_find_field J m (fe_declaring_klass e) name = Some (Some (e\<lparr>fe_declaring_klass := 0\<rparr>))"
      using IH b z by (fastforce split: if_splits bind_splits option.splits)
  qed
  with c show ?thesis by blast
qed

lemma decode_u5_low:
  "m (data + of_nat pos) = Some b \<Longrightarrow> b \<noteq> 0 \<Longrightarrow> b < 192 \<Longrightarrow> decode_u5 m data pos = Some (ucast (b - 1), pos + 1)"
proof -
  assume b: "m (data + of_nat pos) = Some b" "b \<noteq> 0" "b < 192"
  have "5 = Suc 4" by simp
  with b show ?thesis by (simp only: decode_u5_def u5_loop.simps) simp
qed

lemma fields_demo_bytes:
  "fields_demo_mem 0x21004 = Some 2" "fields_demo_mem 0x21005 = Some 1" "fields_demo_mem 0x21006 = Some 2"
  "fields_demo_mem 0x21007 = Some 2" "fields_demo_mem 0x21008 = Some 13" "fields_demo_mem 0x21009 = Some 1"
  "fields_demo_mem 0x2100A = Some 1"
  by (simp_all add: fields_demo_mem_def put_def)

lemma fields_demo_stream:
  "find_field_in_stream fields_demo_jvm fields_demo_mem 0x20000 ''A'' 0x30000
     = Some (Some \<lparr>fe_offset = 12, fe_is_static = False, fe_signature = ''A'', fe_declaring_klass = 0\<rparr>)"
proof -
  have "read_field fields_demo_mem 0x21004 2 = Some (Inr (1, 1, 12, 0, 7))"
    by (simp add: read_field_def decode_u5_low fields_demo_bytes skip_if_def)
  moreover have "decode_u5 fields_demo_mem 0x21004 0 = Some (1, 1)" "decode_u5 fields_demo_mem 0x21004 1 = Some (0, 2)"
    by (simp_all add: decode_u5_low fields_demo_bytes)
  moreover have "vm_struct fields_demo_jvm ''InstanceKlass'' ''_fieldinfo_stream'' = Some (entry_named ''InstanceKlass'' ''_fieldinfo_stream'' 8)"
    by (simp add: fields_demo_jvm_def iterate_struct_entries_def entry_named_def)
  ultimately show ?thesis
    by (simp add: find_field_in_stream_def entry_named_def ptr_eval fields_demo_pool)
qed

lemma fields_demo_supers:
  "find_in_supers fields_demo_jvm fields_demo_mem ''A'' 0x20000
     = Some (Some \<lparr>fe_offset = 12, fe_is_static = False, fe_signature = ''A'', fe_declaring_klass = 0x20000\<rparr>)"
proof -
  have "klass_find_field fields_demo_jvm fields_demo_mem 0x20000 ''A''
      = find_field_in_stream fields_demo_jvm fields_demo_mem 0x20000 ''A'' 0x30000"
    by (simp add: klass_find_field_def iterate_struct_entries_def iterate_type_entries_def cp_get_base_def entry_named_def
        ptr_eval fields_demo_jvm_def)
  then show ?thesis
    by (subst find_in_supers.simps) (simp add: fields_demo_stream)
qed

lemma find_field_cache_transparent_witness:
  "\<exists>cache'. find_field fields_demo_jvm fields_demo_mem 0x20000 ''A'' Mapping.empty
       = Some (Some \<lparr>fe_offset = 12, fe_is_static = False, fe_signature = ''A'', fe_declaring_klass = 0x20000\<rparr>, cache')
     \<and> coherent fields_demo_jvm fields_demo_mem cache'"
proof -
  have v: "is_valid_pointer 0x20000" by (simp add: ptr_eval)
  have f: "find_field fields_demo_jvm fields_demo_mem 0x20000 ''A'' Mapping.empty
      = Some (Some \<lparr>fe_offset = 12, fe_is_static = False, fe_signature = ''A'', fe_declaring_klass = 0x20000\<rparr>,
          Mapping.update (0x20000, ''A'') \<lparr>fe_offset = 12, fe_is_static = False, fe_signature = ''A'', fe_declaring_klass = 0x20000\<rparr> Mapping.empty)"
    by (simp add: find_field_def fields_demo_supers v)
  from find_field_cache_transparent [OF coherent_empty v f] f show ?thesis by auto
qed

text \<open>What set_field stores in an instance field, get_field reads back, also after the
  lookup went through the cache, and a field of the same object at an address range that does
  not overlap keeps its value.\<close>

theorem get_field_after_set_field:
  assumes "find_field J m k name cache = Some (Some e, cache')" and "\<not> fe_is_static e" and "is_valid_pointer obj"
    and "set_field n J m obj k name (v :: 'a::len word) cache = Some (m', c')"
    and "LENGTH('a) \<le> 8 * n" and "n \<le> 2 ^ 64"
    and "apart (obj + ucast (fe_offset e)) n (obj + ucast (fe_offset e2)) n2"
  shows "get_field n J m' obj k name c' = Some (v, c')
     \<and> (load_le n2 m' (obj + ucast (fe_offset e2)) :: 'b::len word option) = load_le n2 m (obj + ucast (fe_offset e2))"
proof -
  have s: "c' = cache'" "store_le n m (obj + ucast (fe_offset e)) v = Some m'"
    using assms(1-4) valid_not_null [OF assms(3)] by (auto simp: set_field_def field_location_def split: bind_splits)
  have "find_field J m' k name cache' = Some (Some e, cache')"
    using assms(1) by (auto simp: find_field_def split: if_splits option.splits bind_splits)
  with load_store_same [OF s(2) assms(5,6)] load_store_apart [OF s(2) assms(7,6)] s(1) assms(2,3) valid_not_null [OF assms(3)]
  show ?thesis by (simp add: get_field_def field_location_def)
qed

lemma get_field_after_set_field_witness:
  "\<exists>m' c'. set_field 4 fields_demo_jvm fields_demo_mem 0x40000 0x20000 ''A'' (7 :: u32) Mapping.empty = Some (m', c')
     \<and> get_field 4 fields_demo_jvm m' 0x40000 0x20000 ''A'' c' = Some (7 :: u32, c')"
proof -
  let ?e = "\<lparr>fe_offset = 12, fe_is_static = False, fe_signature = ''A'', fe_declaring_klass = 0x20000\<rparr>"
  let ?c = "Mapping.update (0x20000, ''A'') ?e Mapping.empty"
  have f: "find_field fields_demo_jvm fields_demo_mem 0x20000 ''A'' Mapping.empty = Some (Some ?e, ?c)"
    by (simp add: find_field_def fields_demo_supers ptr_eval)
  then obtain m' where s: "set_field 4 fields_demo_jvm fields_demo_mem 0x40000 0x20000 ''A'' (7 :: u32) Mapping.empty = Some (m', ?c)"
    by (auto simp: set_field_def field_location_def ptr_eval store_le_put fields_demo_mapped)
  have "apart (0x40000 + ucast (fe_offset ?e)) 4 (0x40000 + ucast (fe_offset (?e\<lparr>fe_offset := 16\<rparr>))) 4"
    by (simp add: apart_def)
  from get_field_after_set_field [OF f _ _ s _ _ this] s show ?thesis by (auto simp: ptr_eval)
qed

end
