(* ===== verification/Java_Threads.thy ===== *)
theory Java_Threads
  imports Vm_Structs
begin

text \<open>
  The JavaThread layer of vmhook.hpp: \<open>java_thread\<close> (lines 3627 to 3884), the thread lookups
  (3929 to 4016), attaching the current OS thread (4032 to 4163), the choice of an allocation
  thread (4180), the allocation from the SMR thread list (4217) and \<open>for_each_thread\<close> (6651).

  The thread-local and atomic globals are the record \<open>thread_globals\<close>. The invocation interface
  of the JVM is the record \<open>invocation\<close>: a null function pointer is \<open>None\<close>, a call returns its
  result code, the environment it stores and the memory it leaves. What
  \<open>inherit_host_context_classloader_for_current_thread\<close> does by JNI calls is the field
  \<open>iv_inherit\<close>.
\<close>

section \<open>java_thread\<close>

text \<open>The enumeration has the underlying type \<open>int8_t\<close>.\<close>

definition thread_in_Java :: u8 where "thread_in_Java = 8"

definition get_thread_state :: "jvm \<Rightarrow> mem \<Rightarrow> addr \<Rightarrow> u8 option" where
  "get_thread_state J m this =
     (case vm_struct J ''JavaThread'' ''_thread_state'' of None \<Rightarrow> Some 0
      | Some e \<Rightarrow> load8 m (this + se_offset e))"

definition set_thread_state :: "jvm \<Rightarrow> mem \<Rightarrow> addr \<Rightarrow> u8 \<Rightarrow> mem option" where
  "set_thread_state J m this st =
     (case vm_struct J ''JavaThread'' ''_thread_state'' of None \<Rightarrow> Some m
      | Some e \<Rightarrow> store8 m (this + se_offset e) st)"

definition get_suspend_flags :: "jvm \<Rightarrow> mem \<Rightarrow> addr \<Rightarrow> u32 option" where
  "get_suspend_flags J m this =
     (case vm_struct J ''JavaThread'' ''_suspend_flags'' of None \<Rightarrow> Some 0
      | Some e \<Rightarrow> load32 m (this + se_offset e))"

definition either_entry :: "jvm \<Rightarrow> string \<Rightarrow> vm_struct_entry_t option" where
  "either_entry J fn = (case vm_struct J ''JavaThread'' fn of Some e \<Rightarrow> Some e | None \<Rightarrow> vm_struct J ''Thread'' fn)"

definition get_next :: "jvm \<Rightarrow> mem \<Rightarrow> addr \<Rightarrow> addr option" where
  "get_next J m this =
     (case either_entry J ''_next'' of None \<Rightarrow> Some 0
      | Some e \<Rightarrow>
          if \<not> is_valid_pointer this then Some 0
          else do { nx \<leftarrow> load64 m (this + se_offset e); Some (if is_valid_pointer nx then nx else 0) })"

definition get_os_thread_id :: "jvm \<Rightarrow> mem \<Rightarrow> addr \<Rightarrow> u64 option" where
  "get_os_thread_id J m this =
     (case (either_entry J ''_osthread'', vm_struct J ''OSThread'' ''_thread_id'') of
        (Some oe, Some ie) \<Rightarrow>
          if \<not> is_valid_pointer this then Some 0
          else do {
            os_thread \<leftarrow> load64 m (this + se_offset oe);
            if \<not> is_valid_pointer os_thread then Some 0
            else map_option ucast (load32 m (os_thread + se_offset ie)) }
      | _ \<Rightarrow> Some 0)"

text \<open>The result is the new block or null, with the memory in which the TLAB's top has moved.\<close>

definition allocate_tlab :: "jvm \<Rightarrow> mem \<Rightarrow> addr \<Rightarrow> u64 \<Rightarrow> (addr \<times> mem) option" where
  "allocate_tlab J m this byte_size =
     (case (either_entry J ''_tlab'', vm_struct J ''ThreadLocalAllocBuffer'' ''_top'',
            vm_struct J ''ThreadLocalAllocBuffer'' ''_end'') of
        (Some be, Some te, Some ee) \<Rightarrow>
          if byte_size = 0 then Some (0, m)
          else do {
            let tlab = this + se_offset be;
            top \<leftarrow> load64 m (tlab + se_offset te);
            fin \<leftarrow> load64 m (tlab + se_offset ee);
            if \<not> is_valid_pointer top \<or> \<not> is_valid_pointer fin \<or> fin < top then Some (0, m)
            else if fin - top < byte_size then Some (0, m)
            else do {
              m \<leftarrow> store64 m (tlab + se_offset te) (top + byte_size);
              Some (top, m) } }
      | _ \<Rightarrow> Some (0, m))"

section \<open>Finding threads\<close>

definition find_any_java_thread :: "jvm \<Rightarrow> mem \<Rightarrow> addr option" where
  "find_any_java_thread J m =
     (case vm_struct J ''Threads'' ''_thread_list'' of None \<Rightarrow> Some 0
      | Some e \<Rightarrow>
          if se_address e = 0 then Some 0
          else do { head \<leftarrow> load64 m (se_address e); Some (if is_valid_pointer head then head else 0) })"

text \<open>The intrusive list, with the number of visits left.\<close>

fun find_in_list :: "jvm \<Rightarrow> mem \<Rightarrow> u64 \<Rightarrow> nat \<Rightarrow> addr \<Rightarrow> addr option" where
  "find_in_list J m tid 0 thread = Some 0"
| "find_in_list J m tid (Suc n) thread =
     (if \<not> is_valid_pointer thread then Some 0
      else do {
        id \<leftarrow> get_os_thread_id J m thread;
        if id = tid then Some thread
        else do { nx \<leftarrow> get_next J m thread; find_in_list J m tid n nx } })"

text \<open>The SMR list: the address of its array and its length, when the code accepts it.\<close>

definition smr_threads :: "jvm \<Rightarrow> mem \<Rightarrow> (addr \<times> nat) option option" where
  "smr_threads J m =
     (case (vm_struct J ''ThreadsSMRSupport'' ''_java_thread_list'', vm_struct J ''ThreadsList'' ''_length'',
            vm_struct J ''ThreadsList'' ''_threads'') of
        (Some le, Some ne, Some te) \<Rightarrow>
          if se_address le = 0 then Some None
          else do {
            lst \<leftarrow> load64 m (se_address le);
            if \<not> is_valid_pointer lst then Some None
            else do {
              len \<leftarrow> load32 m (lst + se_offset ne);
              if sint len \<le> 0 \<or> 4096 < sint len then Some None
              else do {
                threads \<leftarrow> load64 m (lst + se_offset te);
                if \<not> is_valid_pointer threads then Some None
                else Some (Some (threads, nat (sint len))) } } }
      | _ \<Rightarrow> Some None)"

fun find_in_array :: "jvm \<Rightarrow> mem \<Rightarrow> u64 \<Rightarrow> nat \<Rightarrow> addr \<Rightarrow> addr option" where
  "find_in_array J m tid 0 slot = Some 0"
| "find_in_array J m tid (Suc n) slot = do {
     thread \<leftarrow> load64 m slot;
     id \<leftarrow> (if is_valid_pointer thread then get_os_thread_id J m thread else Some 0);
     if is_valid_pointer thread \<and> id = tid then Some thread
     else find_in_array J m tid n (slot + 8) }"

definition find_java_thread_by_os_thread_id :: "jvm \<Rightarrow> mem \<Rightarrow> u64 \<Rightarrow> addr option" where
  "find_java_thread_by_os_thread_id J m os_thread_id =
     (if os_thread_id = 0 then Some 0
      else do {
        head \<leftarrow> find_any_java_thread J m;
        t \<leftarrow> find_in_list J m os_thread_id 4096 head;
        if t \<noteq> 0 then Some t
        else do {
          smr \<leftarrow> smr_threads J m;
          case smr of None \<Rightarrow> Some 0
          | Some (threads, len) \<Rightarrow> find_in_array J m os_thread_id len threads } })"

section \<open>Attaching the current thread\<close>

record thread_globals =
  current_java_thread :: addr
  current_jni_env :: addr
  last_java_thread :: addr

record invocation =
  iv_jvm_module :: addr
  iv_get_created_java_vms :: "(mem \<Rightarrow> int \<times> addr \<times> int) option"
  iv_vm_functions :: "mem \<Rightarrow> addr \<Rightarrow> addr"
  iv_get_env :: "(mem \<Rightarrow> int \<times> addr) option"
  iv_attach_as_daemon :: "(mem \<Rightarrow> int \<times> addr \<times> mem) option"
  iv_attach :: "(mem \<Rightarrow> int \<times> addr \<times> mem) option"
  iv_inherit :: "thread_globals \<Rightarrow> mem \<Rightarrow> mem"
  iv_os_thread_id :: u64
  iv_yield :: "nat \<Rightarrow> mem \<Rightarrow> mem"

text \<open>The three ways to an environment, tried in order: each call that fails may still have changed memory.\<close>

definition attach_with ::
  "invocation \<Rightarrow> (mem \<Rightarrow> int \<times> addr \<times> mem) option \<Rightarrow> thread_globals \<times> mem \<Rightarrow> bool \<times> thread_globals \<times> mem" where
  "attach_with I call s =
     (case call of None \<Rightarrow> (False, s)
      | Some f \<Rightarrow> (case f (snd s) of (rc, env, m) \<Rightarrow>
          if rc = 0 then let g = (fst s)\<lparr>current_jni_env := env\<rparr> in (True, g, iv_inherit I g m)
          else (False, fst s, m)))"

definition attach_current_native_thread ::
  "invocation \<Rightarrow> thread_globals \<times> mem \<Rightarrow> bool \<times> thread_globals \<times> mem" where
  "attach_current_native_thread I s =
     (if iv_jvm_module I = 0 then (False, s)
      else case iv_get_created_java_vms I of None \<Rightarrow> (False, s)
      | Some get_vms \<Rightarrow> (case get_vms (snd s) of (rc, vm, vm_count) \<Rightarrow>
          if rc \<noteq> 0 \<or> vm_count \<le> 0 \<or> vm = 0 \<or> iv_vm_functions I (snd s) vm = 0 then (False, s)
          else
            (case attach_with I (map_option (\<lambda>f m. let (rc, env) = f m in (rc, env, m)) (iv_get_env I)) s of
               (True, s1) \<Rightarrow> (True, s1)
             | (False, s1) \<Rightarrow> (case attach_with I (iv_attach_as_daemon I) s1 of
                 (True, s2) \<Rightarrow> (True, s2)
               | (False, s2) \<Rightarrow> attach_with I (iv_attach I) s2))))"

definition adopt :: "addr \<Rightarrow> thread_globals \<Rightarrow> thread_globals" where
  "adopt thread g = g\<lparr>current_java_thread := thread, last_java_thread := thread\<rparr>"

text \<open>The search after an attach; \<open>n\<close> attempts are left of 64, and other threads run at each yield.\<close>

fun await_attached ::
  "jvm \<Rightarrow> invocation \<Rightarrow> nat \<Rightarrow> thread_globals \<times> mem \<Rightarrow> (bool \<times> thread_globals \<times> mem) option" where
  "await_attached J I 0 s = Some (False, s)"
| "await_attached J I (Suc n) (g, m) = do {
     t \<leftarrow> find_java_thread_by_os_thread_id J m (iv_os_thread_id I);
     if t \<noteq> 0 then Some (True, adopt t g, m)
     else await_attached J I n (g, iv_yield I n m) }"

definition ensure_current_java_thread ::
  "jvm \<Rightarrow> invocation \<Rightarrow> thread_globals \<times> mem \<Rightarrow> (bool \<times> thread_globals \<times> mem) option" where
  "ensure_current_java_thread J I s =
     (if is_valid_pointer (current_java_thread (fst s)) then
        (if current_jni_env (fst s) = 0 then Some (True, snd (attach_current_native_thread I s))
         else Some (True, s))
      else do {
        existing \<leftarrow> find_java_thread_by_os_thread_id J (snd s) (iv_os_thread_id I);
        if existing \<noteq> 0 then Some (True, adopt existing (fst s), snd s)
        else case attach_current_native_thread I s of
          (False, s) \<Rightarrow> Some (False, s)
        | (True, s) \<Rightarrow> await_attached J I 64 s })"

section \<open>Allocation threads\<close>

definition find_allocation_thread :: "jvm \<Rightarrow> mem \<Rightarrow> thread_globals \<Rightarrow> (addr \<times> thread_globals) option" where
  "find_allocation_thread J m g =
     (if is_valid_pointer (current_java_thread g) then
        Some (current_java_thread g, g\<lparr>last_java_thread := current_java_thread g\<rparr>)
      else if is_valid_pointer (last_java_thread g) then Some (last_java_thread g, g)
      else do {
        discovered \<leftarrow> find_any_java_thread J m;
        Some (discovered, if discovered \<noteq> 0 then g\<lparr>last_java_thread := discovered\<rparr> else g) })"

fun allocate_in_array ::
  "jvm \<Rightarrow> u64 \<Rightarrow> nat \<Rightarrow> addr \<Rightarrow> thread_globals \<times> mem \<Rightarrow> (addr \<times> thread_globals \<times> mem) option" where
  "allocate_in_array J byte_size 0 slot s = Some (0, s)"
| "allocate_in_array J byte_size (Suc n) slot (g, m) = do {
     thread \<leftarrow> load64 m slot;
     if \<not> is_valid_pointer thread then allocate_in_array J byte_size n (slot + 8) (g, m)
     else do {
       (obj, m) \<leftarrow> allocate_tlab J m thread byte_size;
       if obj \<noteq> 0 then Some (obj, g\<lparr>last_java_thread := thread\<rparr>, m)
       else allocate_in_array J byte_size n (slot + 8) (g, m) } }"

definition allocate_from_threads_list ::
  "jvm \<Rightarrow> u64 \<Rightarrow> thread_globals \<times> mem \<Rightarrow> (addr \<times> thread_globals \<times> mem) option" where
  "allocate_from_threads_list J byte_size s = do {
     smr \<leftarrow> smr_threads J (snd s);
     case smr of None \<Rightarrow> Some (0, s)
     | Some (threads, len) \<Rightarrow> allocate_in_array J byte_size len threads s }"

section \<open>Visiting all threads\<close>

record thread_info =
  ti_thread :: addr
  ti_state :: u8
  ti_os_thread_id :: u64

type_synonym 'a thread_visit = "thread_info \<Rightarrow> mem \<times> 'a \<Rightarrow> (mem \<times> 'a) option"

definition invoke_visitor :: "jvm \<Rightarrow> 'a thread_visit \<Rightarrow> addr \<Rightarrow> mem \<times> 'a \<Rightarrow> (mem \<times> 'a) option" where
  "invoke_visitor J visit t s =
     (if \<not> is_valid_pointer t then Some s
      else do {
        st \<leftarrow> get_thread_state J (fst s) t;
        id \<leftarrow> get_os_thread_id J (fst s) t;
        visit \<lparr>ti_thread = t, ti_state = st, ti_os_thread_id = id\<rparr> s })"

text \<open>The intrusive list, with the visits left of 4096 and the threads already seen.\<close>

fun each_listed ::
  "jvm \<Rightarrow> 'a thread_visit \<Rightarrow> nat \<Rightarrow> addr list \<Rightarrow> addr \<Rightarrow> mem \<times> 'a \<Rightarrow> (mem \<times> 'a) option" where
  "each_listed J visit 0 seen current s = Some s"
| "each_listed J visit (Suc n) seen current s =
     (if \<not> is_valid_pointer current \<or> current \<in> set seen then Some s
      else do {
        s \<leftarrow> invoke_visitor J visit current s;
        nx \<leftarrow> get_next J (fst s) current;
        each_listed J visit n (current # seen) nx s })"

fun each_in_array :: "jvm \<Rightarrow> 'a thread_visit \<Rightarrow> nat \<Rightarrow> addr \<Rightarrow> mem \<times> 'a \<Rightarrow> (mem \<times> 'a) option" where
  "each_in_array J visit 0 slot s = Some s"
| "each_in_array J visit (Suc n) slot s = do {
     t \<leftarrow> load64 (fst s) slot;
     s \<leftarrow> invoke_visitor J visit t s;
     each_in_array J visit n (slot + 8) s }"

definition each_in_smr :: "jvm \<Rightarrow> 'a thread_visit \<Rightarrow> mem \<times> 'a \<Rightarrow> (mem \<times> 'a) option" where
  "each_in_smr J visit s =
     (case (vm_struct J ''ThreadsSMRSupport'' ''_java_thread_list'', vm_struct J ''ThreadsList'' ''_length'',
            vm_struct J ''ThreadsList'' ''_threads'') of
        (Some le, Some ne, Some te) \<Rightarrow>
          if se_address le = 0 then Some s
          else do {
            threads_list \<leftarrow> load64 (fst s) (se_address le);
            if \<not> is_valid_pointer threads_list then Some s
            else do {
              len \<leftarrow> load32 (fst s) (threads_list + se_offset ne);
              threads \<leftarrow> load64 (fst s) (threads_list + se_offset te);
              if sint len \<le> 0 \<or> 4096 < sint len \<or> threads = 0 then Some s
              else each_in_array J visit (nat (sint len)) threads s } }
      | _ \<Rightarrow> Some s)"

definition for_each_thread :: "jvm \<Rightarrow> 'a thread_visit \<Rightarrow> mem \<times> 'a \<Rightarrow> (mem \<times> 'a) option" where
  "for_each_thread J visit s = do {
     head \<leftarrow> find_any_java_thread J (fst s);
     if is_valid_pointer head then each_listed J visit 4096 [] head s else each_in_smr J visit s }"

section \<open>The contract of a bump allocator\<close>

text \<open>
  \<open>alloc J m t n\<close> serves \<open>n\<close> bytes from the buffer of owner \<open>t\<close>, whose free part lies between
  \<open>cursor\<close> and \<open>limit\<close>. The contract holds for the table entries that \<open>layout\<close> accepts.
\<close>

fun alloc_all :: "(mem \<Rightarrow> u64 \<Rightarrow> (addr \<times> mem) option) \<Rightarrow> mem \<Rightarrow> u64 list \<Rightarrow> ((addr \<times> u64) list \<times> mem) option" where
  "alloc_all alloc m [] = Some ([], m)"
| "alloc_all alloc m (n # ns) = do {
     (p, m) \<leftarrow> alloc m n;
     (blocks, m) \<leftarrow> alloc_all alloc m ns;
     Some (if p = 0 then blocks else (p, n) # blocks, m) }"

definition disjoint_blocks :: "(addr \<times> u64) list \<Rightarrow> bool" where
  "disjoint_blocks = sorted_wrt (\<lambda>b c. unat (fst b) + unat (snd b) \<le> unat (fst c))"

definition blocks_within :: "addr \<Rightarrow> addr \<Rightarrow> (addr \<times> u64) list \<Rightarrow> bool" where
  "blocks_within lo hi bs \<longleftrightarrow> (\<forall>b \<in> set bs. unat lo \<le> unat (fst b) \<and> unat (fst b) + unat (snd b) \<le> unat hi)"

locale bump_allocator =
  fixes alloc :: "jvm \<Rightarrow> mem \<Rightarrow> addr \<Rightarrow> u64 \<Rightarrow> (addr \<times> mem) option"
    and cursor :: "jvm \<Rightarrow> mem \<Rightarrow> addr \<Rightarrow> addr option"
    and limit :: "jvm \<Rightarrow> mem \<Rightarrow> addr \<Rightarrow> addr option"
    and layout :: "jvm \<Rightarrow> bool"
  assumes miss: "layout J \<Longrightarrow> alloc J m t n = Some (0, m') \<Longrightarrow> m' = m"
    and hit: "layout J \<Longrightarrow> alloc J m t n = Some (p, m') \<Longrightarrow> p \<noteq> 0 \<Longrightarrow>
          cursor J m t = Some p \<and> cursor J m' t = Some (p + n)
          \<and> (\<exists>e. limit J m t = Some e \<and> limit J m' t = Some e \<and> unat p + unat n \<le> unat e)"
begin

lemma blocks:
  assumes "layout J" and "alloc_all (\<lambda>m. alloc J m t) m ns = Some (bs, m')"
    and "cursor J m t = Some c" and "limit J m t = Some e"
  shows "disjoint_blocks bs \<and> blocks_within c e bs"
  using assms(2-4)
proof (induction ns arbitrary: m c bs m')
  case Nil
  then show ?case by (simp add: disjoint_blocks_def blocks_within_def)
next
  case (Cons n ns)
  obtain p m1 bs1 where a: "alloc J m t n = Some (p, m1)"
    and r: "alloc_all (\<lambda>m. alloc J m t) m1 ns = Some (bs1, m')" and bs: "bs = (if p = 0 then bs1 else (p, n) # bs1)"
    using Cons.prems(1) by (auto split: bind_splits)
  show ?case
  proof (cases "p = 0")
    case True
    with a miss [OF assms(1), of m t n m1] have "m1 = m" by simp
    with Cons.IH [OF r] Cons.prems bs True show ?thesis by simp
  next
    case False
    with hit [OF assms(1) a] Cons.prems have h: "p = c" "cursor J m1 t = Some (p + n)" "limit J m1 t = Some e"
      "unat p + unat n \<le> unat e" by auto
    have u: "unat (p + n) = unat p + unat n"
      using h(4) unat_lt64 [of e] by (simp add: unat_word_ariths)
    show ?thesis
      using Cons.IH [OF r h(2,3)] h(1,4) False bs u
      by (auto simp: disjoint_blocks_def blocks_within_def intro: order_trans [OF le_add1])
  qed
qed

end

definition tlab_top_address :: "jvm \<Rightarrow> addr \<Rightarrow> addr option" where
  "tlab_top_address J t =
     (case (either_entry J ''_tlab'', vm_struct J ''ThreadLocalAllocBuffer'' ''_top'') of
        (Some be, Some te) \<Rightarrow> Some (t + se_offset be + se_offset te) | _ \<Rightarrow> None)"

definition tlab_end_address :: "jvm \<Rightarrow> addr \<Rightarrow> addr option" where
  "tlab_end_address J t =
     (case (either_entry J ''_tlab'', vm_struct J ''ThreadLocalAllocBuffer'' ''_end'') of
        (Some be, Some ee) \<Rightarrow> Some (t + se_offset be + se_offset ee) | _ \<Rightarrow> None)"

definition tlab_top :: "jvm \<Rightarrow> mem \<Rightarrow> addr \<Rightarrow> addr option" where
  "tlab_top J m t = Option.bind (tlab_top_address J t) (load64 m)"

definition tlab_end :: "jvm \<Rightarrow> mem \<Rightarrow> addr \<Rightarrow> addr option" where
  "tlab_end J m t = Option.bind (tlab_end_address J t) (load64 m)"

text \<open>The two pointers of a TLAB are two different fields.\<close>

definition tlab_layout :: "jvm \<Rightarrow> bool" where
  "tlab_layout J \<longleftrightarrow>
     (case (vm_struct J ''ThreadLocalAllocBuffer'' ''_top'', vm_struct J ''ThreadLocalAllocBuffer'' ''_end'') of
        (Some te, Some ee) \<Rightarrow> apart (se_offset te) 8 (se_offset ee) 8 | _ \<Rightarrow> True)"

lemma apart_shift: "apart (a + x) n (a + y) k = apart x n y k"
  by (simp add: apart_def)

lemma allocate_tlab_miss: "allocate_tlab J m t n = Some (0, m') \<Longrightarrow> m' = m"
  by (auto simp: allocate_tlab_def Let_def split: option.splits bind_splits if_splits)

lemma allocate_tlab_hit:
  assumes "tlab_layout J" and "allocate_tlab J m t n = Some (p, m')" and "p \<noteq> 0"
  shows "tlab_top J m t = Some p \<and> tlab_top J m' t = Some (p + n)
     \<and> (\<exists>e. tlab_end J m t = Some e \<and> tlab_end J m' t = Some e \<and> unat p + unat n \<le> unat e)"
proof -
  obtain be te ee where e: "either_entry J ''_tlab'' = Some be" "vm_struct J ''ThreadLocalAllocBuffer'' ''_top'' = Some te"
    "vm_struct J ''ThreadLocalAllocBuffer'' ''_end'' = Some ee"
    using assms(2,3) by (auto simp: allocate_tlab_def split: option.splits)
  obtain fin where l: "load64 m (t + se_offset be + se_offset te) = Some p"
    "load64 m (t + se_offset be + se_offset ee) = Some fin" "\<not> fin < p" "\<not> fin - p < n"
    "store64 m (t + se_offset be + se_offset te) (p + n) = Some m'"
    using assms(2,3) e by (auto simp: allocate_tlab_def Let_def split: bind_splits if_splits)
  have ap: "apart (t + se_offset be + se_offset te) 8 (t + se_offset be + se_offset ee) 8"
    using assms(1) e by (simp add: tlab_layout_def apart_shift)
  have "load64 m' (t + se_offset be + se_offset te) = Some (p + n)"
    by (rule load_store_same [OF l(5)]) simp_all
  moreover have "load64 m' (t + se_offset be + se_offset ee) = Some fin"
    using load_store_apart [where 'b = 64, OF l(5) ap] l(2) by simp
  moreover have "unat p + unat n \<le> unat fin"
    using l(3,4) by (simp add: word_less_nat_alt unat_sub word_le_nat_alt not_less)
  ultimately show ?thesis
    using e l by (simp add: tlab_top_def tlab_end_def tlab_top_address_def tlab_end_address_def)
qed

interpretation tlab: bump_allocator allocate_tlab tlab_top tlab_end tlab_layout
  by unfold_locales (blast dest: allocate_tlab_miss allocate_tlab_hit)+

section \<open>The visitor that collects\<close>

definition collect_threads :: "thread_info list thread_visit" where
  "collect_threads = (\<lambda>i (m, xs). Some (m, xs @ [i]))"

lemma collect_threads_eq [simp]: "collect_threads i (m, xs) = Some (m, xs @ [i])"
  by (simp add: collect_threads_def)

definition first_with_id :: "u64 \<Rightarrow> thread_info list \<Rightarrow> thread_info option" where
  "first_with_id tid xs = find (\<lambda>i. ti_os_thread_id i = tid) xs"

lemma each_listed_collect:
  assumes "each_listed J collect_threads n seen t (m, xs) = Some (m', ys)"
  shows "m' = m \<and> (\<exists>zs. ys = xs @ zs \<and> length zs \<le> n \<and> distinct (map ti_thread zs)
     \<and> set (map ti_thread zs) \<inter> set seen = {} \<and> (\<forall>z \<in> set zs. is_valid_pointer (ti_thread z)
        \<and> get_os_thread_id J m (ti_thread z) = Some (ti_os_thread_id z))
     \<and> (\<forall>tid i. first_with_id tid zs = Some i \<longrightarrow> find_in_list J m tid n t = Some (ti_thread i)))"
  using assms
proof (induction n arbitrary: seen t xs)
  case 0
  then show ?case by (simp add: first_with_id_def)
next
  case (Suc n)
  show ?case
  proof (cases "is_valid_pointer t \<and> t \<notin> set seen")
    case False
    with Suc.prems show ?thesis by (auto simp: first_with_id_def)
  next
    case True
    with Suc.prems obtain st id nx where i: "get_thread_state J m t = Some st" "get_os_thread_id J m t = Some id"
      "get_next J m t = Some nx"
      and r: "each_listed J collect_threads n (t # seen) nx (m, xs @ [\<lparr>ti_thread = t, ti_state = st, ti_os_thread_id = id\<rparr>]) = Some (m', ys)"
      by (auto simp: invoke_visitor_def split: bind_splits)
    from Suc.IH [OF r] i True show ?thesis
      by (auto simp: first_with_id_def)
  qed
qed

section \<open>Properties\<close>

text \<open>C27. The blocks that any sequence of TLAB allocations of one thread hands out lie between the
  TLAB's top and end and do not overlap: each starts where or after the one before it ends.\<close>

theorem tlab_allocations_disjoint:
  assumes "tlab_layout J" and "alloc_all (\<lambda>m. allocate_tlab J m t) m ns = Some (bs, m')"
    and "tlab_top J m t = Some c" and "tlab_end J m t = Some e"
  shows "disjoint_blocks bs \<and> blocks_within c e bs"
  by (rule tlab.blocks [OF assms])

text \<open>When HotSpot exports its intrusive thread list, for\_each\_thread reports at most 4096
  threads, each once and with a valid pointer, even on a cyclic list; and looking a thread up
  by an OS thread id gives the first thread reported with that id.\<close>

theorem for_each_thread_matches_lookup:
  assumes "find_any_java_thread J m = Some head" and "head \<noteq> 0"
    and "for_each_thread J collect_threads (m, []) = Some (m', xs)"
  shows "distinct (map ti_thread xs) \<and> length xs \<le> 4096 \<and> (\<forall>i \<in> set xs. is_valid_pointer (ti_thread i))
     \<and> (\<forall>tid i. tid \<noteq> 0 \<and> first_with_id tid xs = Some i \<longrightarrow>
          find_java_thread_by_os_thread_id J m tid = Some (ti_thread i))"
proof -
  have "is_valid_pointer head"
    using assms(1,2) by (auto simp: find_any_java_thread_def split: option.splits bind_splits if_splits)
  with assms(1,3) have "each_listed J collect_threads 4096 [] head (m, []) = Some (m', xs)"
    by (simp add: for_each_thread_def)
  from each_listed_collect [OF this] have l: "length xs \<le> 4096" "distinct (map ti_thread xs)"
    "\<forall>z \<in> set xs. is_valid_pointer (ti_thread z)"
    "\<And>tid i. first_with_id tid xs = Some i \<Longrightarrow> find_in_list J m tid 4096 head = Some (ti_thread i)" by auto
  moreover have "find_java_thread_by_os_thread_id J m tid = Some (ti_thread i)"
    if "tid \<noteq> 0" "first_with_id tid xs = Some i" for tid i
  proof -
    have "i \<in> set xs" using that(2) by (auto simp: first_with_id_def find_Some_iff)
    with l(3) have "ti_thread i \<noteq> 0" by auto
    with l(4) [OF that(2)] that(1) assms(1) show ?thesis by (simp add: find_java_thread_by_os_thread_id_def)
  qed
  ultimately show ?thesis by blast
qed

lemma find_in_list_sound:
  "find_in_list J m tid n t = Some r \<Longrightarrow> r \<noteq> 0 \<Longrightarrow> is_valid_pointer r \<and> get_os_thread_id J m r = Some tid"
  by (induction n arbitrary: t) (auto split: if_splits bind_splits)

lemma find_in_array_sound:
  "find_in_array J m tid n s = Some r \<Longrightarrow> r \<noteq> 0 \<Longrightarrow> is_valid_pointer r \<and> get_os_thread_id J m r = Some tid"
  by (induction n arbitrary: s) (auto split: if_splits bind_splits)

lemma find_by_id_sound:
  "find_java_thread_by_os_thread_id J m tid = Some r \<Longrightarrow> r \<noteq> 0 \<Longrightarrow> is_valid_pointer r \<and> get_os_thread_id J m r = Some tid"
  by (auto simp: find_java_thread_by_os_thread_id_def split: if_splits bind_splits option.splits
      dest: find_in_list_sound find_in_array_sound)

lemma attach_with_thread:
  "attach_with I call s = (b, g', m') \<Longrightarrow> current_java_thread g' = current_java_thread (fst s)"
  by (auto simp: attach_with_def Let_def split: option.splits prod.splits if_splits)

lemma attach_thread:
  "attach_current_native_thread I s = (b, g', m') \<Longrightarrow> current_java_thread g' = current_java_thread (fst s)"
  by (auto simp: attach_current_native_thread_def split: option.splits prod.splits bool.splits if_splits
      dest!: attach_with_thread)

lemma await_attached_sound:
  "await_attached J I n (g, m) = Some (True, g', m') \<Longrightarrow>
     find_java_thread_by_os_thread_id J m' (iv_os_thread_id I) = Some (current_java_thread g') \<and> current_java_thread g' \<noteq> 0"
  by (induction n arbitrary: m) (auto simp: adopt_def split: bind_splits if_splits)

text \<open>C28. When ensure\_current\_java\_thread reports success, the thread it leaves as the current one
  is a valid pointer, and unless it was current before, it is a JavaThread that HotSpot lists
  under this OS thread's id.\<close>

theorem ensure_current_java_thread_sound:
  assumes "ensure_current_java_thread J I (g, m) = Some (True, g', m')"
  shows "is_valid_pointer (current_java_thread g')
     \<and> (current_java_thread g' = current_java_thread g
        \<or> find_java_thread_by_os_thread_id J m' (iv_os_thread_id I) = Some (current_java_thread g')
          \<and> get_os_thread_id J m' (current_java_thread g') = Some (iv_os_thread_id I))"
proof (cases "is_valid_pointer (current_java_thread g)")
  case True
  obtain b g1 m1 where a: "attach_current_native_thread I (g, m) = (b, g1, m1)" by (metis prod_cases3)
  with True assms attach_thread [OF a] show ?thesis
    by (auto simp: ensure_current_java_thread_def split: if_splits)
next
  case False
  then have "find_java_thread_by_os_thread_id J m' (iv_os_thread_id I) = Some (current_java_thread g') \<and> current_java_thread g' \<noteq> 0"
    using assms
    by (auto simp: ensure_current_java_thread_def adopt_def split: bind_splits if_splits prod.splits bool.splits
        dest: await_attached_sound)
  with find_by_id_sound show ?thesis by blast
qed

section \<open>A process with two threads\<close>

definition thread_entry :: "string \<Rightarrow> string \<Rightarrow> u64 \<Rightarrow> addr \<Rightarrow> vm_struct_entry_t" where
  "thread_entry tn fn off a = \<lparr>se_type_name = tn, se_field_name = Some fn, se_type_string = None,
     se_is_static = 0, se_offset = off, se_address = a\<rparr>"

definition threads_jvm :: jvm where
  "threads_jvm = \<lparr>vm_types = [], vm_structs =
     [thread_entry ''JavaThread'' ''_tlab'' 0x100 0, thread_entry ''ThreadLocalAllocBuffer'' ''_top'' 8 0,
      thread_entry ''ThreadLocalAllocBuffer'' ''_end'' 24 0, thread_entry ''Threads'' ''_thread_list'' 0 0x50000,
      thread_entry ''Thread'' ''_next'' 0x10 0, thread_entry ''JavaThread'' ''_thread_state'' 0x20 0,
      thread_entry ''JavaThread'' ''_osthread'' 0x28 0, thread_entry ''OSThread'' ''_thread_id'' 8 0],
     proc_maps = []\<rparr>"

text \<open>The two threads form a cyclic list.\<close>

definition threads_mem :: mem where
  "threads_mem = image [(0x50000, 8, 0x100000), (0x100010, 8, 0x110000), (0x110010, 8, 0x100000),
     (0x100028, 8, 0x120000), (0x110028, 8, 0x130000), (0x120008, 4, 42), (0x130008, 4, 43),
     (0x100108, 8, 0x200000), (0x100118, 8, 0x201000)]"

lemmas threads_eval = threads_jvm_def thread_entry_def iterate_struct_entries_def either_entry_def threads_mem_def
  mem_simps apart_def is_valid_pointer_def user_address_floor_def user_address_ceiling_def poison_patterns_def

lemma tlab_allocations_disjoint_witness:
  "alloc_all (\<lambda>m. allocate_tlab threads_jvm m 0x100000) threads_mem [24, 32]
     = Some ([(0x200000, 24), (0x200018, 32)], put 0x100108 (le_of_word 8 (0x200038 :: u64)) (put 0x100108 (le_of_word 8 (0x200018 :: u64)) threads_mem))
   \<and> disjoint_blocks [(0x200000, 24), (0x200018, 32)] \<and> blocks_within 0x200000 0x201000 [(0x200000, 24), (0x200018, 32)]"
proof -
  have a: "alloc_all (\<lambda>m. allocate_tlab threads_jvm m 0x100000) threads_mem [24, 32]
     = Some ([(0x200000, 24), (0x200018, 32)], put 0x100108 (le_of_word 8 (0x200038 :: u64)) (put 0x100108 (le_of_word 8 (0x200018 :: u64)) threads_mem))"
    by (simp add: allocate_tlab_def store_le_put threads_eval)
  have "tlab_layout threads_jvm" by (simp add: tlab_layout_def threads_eval)
  moreover have "tlab_top threads_jvm threads_mem 0x100000 = Some 0x200000"
    by (simp add: tlab_top_def tlab_top_address_def threads_eval)
  moreover have "tlab_end threads_jvm threads_mem 0x100000 = Some 0x201000"
    by (simp add: tlab_end_def tlab_end_address_def threads_eval)
  ultimately show ?thesis using a tlab_allocations_disjoint [OF _ a] by blast
qed

lemma each_listed_pos:
  "0 < n \<Longrightarrow> each_listed J visit n seen current s =
     (if \<not> is_valid_pointer current \<or> current \<in> set seen then Some s
      else do {
        s \<leftarrow> invoke_visitor J visit current s;
        nx \<leftarrow> get_next J (fst s) current;
        each_listed J visit (n - 1) (current # seen) nx s })"
  by (cases n) simp_all

definition two_threads :: "thread_info list" where
  "two_threads = [\<lparr>ti_thread = 0x100000, ti_state = 0, ti_os_thread_id = 42\<rparr>,
     \<lparr>ti_thread = 0x110000, ti_state = 0, ti_os_thread_id = 43\<rparr>]"

lemma for_each_thread_matches_lookup_witness:
  "for_each_thread threads_jvm collect_threads (threads_mem, []) = Some (threads_mem, two_threads)
   \<and> find_java_thread_by_os_thread_id threads_jvm threads_mem 43 = Some 0x110000"
proof -
  have i: "get_os_thread_id threads_jvm threads_mem 0x100000 = Some 42" "get_os_thread_id threads_jvm threads_mem 0x110000 = Some 43"
    "get_next threads_jvm threads_mem 0x100000 = Some 0x110000" "get_next threads_jvm threads_mem 0x110000 = Some 0x100000"
    "get_thread_state threads_jvm threads_mem 0x100000 = Some 0" "get_thread_state threads_jvm threads_mem 0x110000 = Some 0"
    by (simp_all add: get_os_thread_id_def get_next_def get_thread_state_def threads_eval)
  have v: "is_valid_pointer 0x100000" "is_valid_pointer 0x110000" by (simp_all add: threads_eval)
  have h: "find_any_java_thread threads_jvm threads_mem = Some 0x100000"
    by (simp add: find_any_java_thread_def threads_eval)
  have f: "for_each_thread threads_jvm collect_threads (threads_mem, []) = Some (threads_mem, two_threads)"
    by (simp add: for_each_thread_def h v each_listed_pos invoke_visitor_def i two_threads_def)
  have "first_with_id 43 two_threads = Some \<lparr>ti_thread = 0x110000, ti_state = 0, ti_os_thread_id = 43\<rparr>"
    by (simp add: first_with_id_def two_threads_def)
  with f for_each_thread_matches_lookup [OF h _ f] show ?thesis by fastforce
qed

definition detached :: invocation where
  "detached = \<lparr>iv_jvm_module = 0, iv_get_created_java_vms = None, iv_vm_functions = (\<lambda>_ _. 0), iv_get_env = None,
     iv_attach_as_daemon = None, iv_attach = None, iv_inherit = (\<lambda>_ m. m), iv_os_thread_id = 43, iv_yield = (\<lambda>_ m. m)\<rparr>"

lemma find_in_list_pos:
  "0 < n \<Longrightarrow> find_in_list J m tid n thread =
     (if \<not> is_valid_pointer thread then Some 0
      else do {
        id \<leftarrow> get_os_thread_id J m thread;
        if id = tid then Some thread else do { nx \<leftarrow> get_next J m thread; find_in_list J m tid (n - 1) nx } })"
  using find_in_list.simps(2) [of J m tid "n - 1" thread] by simp

lemma ensure_current_java_thread_sound_witness:
  "ensure_current_java_thread threads_jvm detached (\<lparr>current_java_thread = 0, current_jni_env = 0, last_java_thread = 0\<rparr>, threads_mem)
     = Some (True, \<lparr>current_java_thread = 0x110000, current_jni_env = 0, last_java_thread = 0x110000\<rparr>, threads_mem)
   \<and> get_os_thread_id threads_jvm threads_mem 0x110000 = Some 43"
proof -
  have i: "get_os_thread_id threads_jvm threads_mem 0x100000 = Some 42" "get_os_thread_id threads_jvm threads_mem 0x110000 = Some 43"
    "get_next threads_jvm threads_mem 0x100000 = Some 0x110000"
    by (simp_all add: get_os_thread_id_def get_next_def threads_eval)
  have v: "is_valid_pointer 0x100000" "is_valid_pointer 0x110000" by (simp_all add: threads_eval)
  have "find_any_java_thread threads_jvm threads_mem = Some 0x100000"
    by (simp add: find_any_java_thread_def threads_eval)
  then have "find_java_thread_by_os_thread_id threads_jvm threads_mem 43 = Some 0x110000"
    by (simp add: find_java_thread_by_os_thread_id_def find_in_list_pos v i)
  then have e: "ensure_current_java_thread threads_jvm detached (\<lparr>current_java_thread = 0, current_jni_env = 0, last_java_thread = 0\<rparr>, threads_mem)
     = Some (True, \<lparr>current_java_thread = 0x110000, current_jni_env = 0, last_java_thread = 0x110000\<rparr>, threads_mem)"
    by (simp add: ensure_current_java_thread_def detached_def adopt_def)
  with ensure_current_java_thread_sound [OF e] show ?thesis by (simp add: detached_def)
qed

end
