(* ===== verification/Hook_Registry.thy ===== *)
theory Hook_Registry
  imports Trampoline Klass_Graph Java_Threads
begin

text \<open>
  The hook registry: \<open>hook\<close> (vmhook.hpp lines 8026 to 8301), \<open>common_detour\<close> (5965),
  \<open>verify_hooks\<close> with its \<open>try_reinstall\<close> (8354 to 8631), \<open>shutdown_hooks\<close> (8771),
  \<open>hook_handle::stop\<close> (8883), \<open>deoptimize_methods_if\<close> (6510), \<open>register_class\<close> (6915) and
  \<open>hook_by_signature\<close> (8965).

  The globals the code keeps are the record \<open>vmhook\<close>; what it gets from its surroundings is the
  record \<open>env\<close>. A registered C++ type and a user's detour are numbers. An operation that throws
  inside its own try block returns its failure value with the state it had reached. The
  mutexes serialise these operations, so each is one step of the state.
\<close>

section \<open>State\<close>

record hooked_method =
  hm_method :: addr
  hm_detour :: nat
  hm_original_code :: addr
  hm_original_from_interpreted :: addr
  hm_original_from_compiled :: addr
  hm_was_compiled :: bool
  hm_expected_class_name :: string
  hm_expected_method_name :: string
  hm_expected_signature :: string
  hm_drift_logged :: bool

record i2i_hook_data =
  ih_i2i_entry :: addr
  ih_hook :: midi2i_hook

record env =
  en_jvm :: jvm
  en_os :: os_env
  en_jni_find :: "string \<Rightarrow> addr"
  en_common_detour :: addr

record vmhook =
  vh_mem :: mem
  vh_classes :: class_cache
  type_to_class_map :: "(nat, string) mapping"
  g_hooked_methods :: "hooked_method list"
  g_hooked_i2i_entries :: "i2i_hook_data list"
  vh_locals_offset :: "8 word"
  vh_cached_adapter_offset :: u64
  g_shutdown_requested :: bool
  g_started :: bool

section \<open>Finding classes and methods\<close>

definition vh_find_class :: "env \<Rightarrow> string \<Rightarrow> vmhook \<Rightarrow> (addr \<times> vmhook) option" where
  "vh_find_class E name s = do {
     (k, c) \<leftarrow> find_class (en_jvm E) (en_jni_find E) (vh_mem s) name (vh_classes s);
     Some (k, s\<lparr>vh_classes := c\<rparr>) }"

definition register_class :: "env \<Rightarrow> nat \<Rightarrow> string \<Rightarrow> vmhook \<Rightarrow> (bool \<times> vmhook) option" where
  "register_class E type_id class_name s = do {
     (k, s) \<leftarrow> vh_find_class E class_name s;
     if k = 0 then Some (False, s)
     else Some (True, s\<lparr>type_to_class_map := Mapping.update type_id class_name (type_to_class_map s)\<rparr>) }"

text \<open>The scan both \<open>hook\<close> and \<open>try_reinstall\<close> make over the method array: the first method with
  the name and, when a signature is given, with the signature. The result 0 is no match.\<close>

fun scan_methods :: "jvm \<Rightarrow> mem \<Rightarrow> addr \<Rightarrow> string \<Rightarrow> string \<Rightarrow> nat list \<Rightarrow> addr option" where
  "scan_methods J m methods_array name sig [] = Some 0"
| "scan_methods J m methods_array name sig (i # is) = do {
     method_ptr \<leftarrow> load64 m (methods_array + of_nat (8 * i));
     if method_ptr = 0 \<or> \<not> is_valid_pointer method_ptr then scan_methods J m methods_array name sig is
     else do {
       nm \<leftarrow> method_get_name J m method_ptr;
       if nm \<noteq> name then scan_methods J m methods_array name sig is
       else if sig = [] then Some method_ptr
       else do {
         sg \<leftarrow> method_get_signature J m method_ptr;
         if sg = sig then Some method_ptr else scan_methods J m methods_array name sig is } } }"

text \<open>\<open>None\<close> inside: the class has no methods.\<close>

definition find_method :: "jvm \<Rightarrow> mem \<Rightarrow> addr \<Rightarrow> string \<Rightarrow> string \<Rightarrow> addr option option" where
  "find_method J m k name sig = do {
     method_count \<leftarrow> get_methods_count J m k;
     methods_array \<leftarrow> get_methods_ptr J m k;
     if methods_array = 0 \<or> method_count \<le> 0 then Some None
     else map_option Some (scan_methods J m methods_array name sig [0..<nat method_count]) }"

fun collect_methods :: "jvm \<Rightarrow> mem \<Rightarrow> addr \<Rightarrow> nat list \<Rightarrow> (string \<times> string) list option" where
  "collect_methods J m methods_array [] = Some []"
| "collect_methods J m methods_array (i # is) = do {
     method_ptr \<leftarrow> load64 m (methods_array + of_nat (8 * i));
     if method_ptr = 0 \<or> \<not> is_valid_pointer method_ptr then collect_methods J m methods_array is
     else do {
       nm \<leftarrow> method_get_name J m method_ptr;
       sg \<leftarrow> method_get_signature J m method_ptr;
       rest \<leftarrow> collect_methods J m methods_array is;
       Some ((nm, sg) # rest) } }"

definition collect_klass_methods :: "jvm \<Rightarrow> mem \<Rightarrow> addr \<Rightarrow> (string \<times> string) list option" where
  "collect_klass_methods J m k =
     (if k = 0 then Some []
      else do {
        method_count \<leftarrow> get_methods_count J m k;
        methods_array \<leftarrow> get_methods_ptr J m k;
        if methods_array = 0 \<or> method_count \<le> 0 then Some []
        else collect_methods J m methods_array [0..<nat method_count] })"

definition get_class_methods :: "env \<Rightarrow> nat \<Rightarrow> vmhook \<Rightarrow> ((string \<times> string) list \<times> vmhook) option" where
  "get_class_methods E type_id s =
     (case Mapping.lookup (type_to_class_map s) type_id of None \<Rightarrow> Some ([], s)
      | Some class_name \<Rightarrow> do {
          (k, s) \<leftarrow> vh_find_class E class_name s;
          ms \<leftarrow> collect_klass_methods (en_jvm E) (vh_mem s) k;
          Some (ms, s) })"

definition find_methods_by_signature :: "env \<Rightarrow> nat \<Rightarrow> string \<Rightarrow> vmhook \<Rightarrow> (string list \<times> vmhook) option" where
  "find_methods_by_signature E type_id descriptor s = do {
     (ms, s) \<leftarrow> get_class_methods E type_id s;
     Some (map fst (filter (\<lambda>(name, candidate). candidate = descriptor) ms), s) }"

section \<open>Deoptimising one method\<close>

definition vh_get_adapter :: "env \<Rightarrow> addr \<Rightarrow> vmhook \<Rightarrow> (addr \<times> vmhook) option" where
  "vh_get_adapter E mth s = do {
     (a, off) \<leftarrow> get_adapter (en_jvm E) (vh_mem s) (vh_cached_adapter_offset s) mth;
     Some (a, s\<lparr>vh_cached_adapter_offset := off\<rparr>) }"

definition get_c2i :: "env \<Rightarrow> addr \<Rightarrow> vmhook \<Rightarrow> (addr \<times> vmhook) option" where
  "get_c2i E mth s = do {
     (adapter, s) \<leftarrow> vh_get_adapter E mth s;
     c2i \<leftarrow> get_c2i_entry_from_adapter (en_jvm E) (vh_mem s) adapter;
     Some (c2i, s) }"

text \<open>The last part of \<open>hook\<close>, for a method that was compiled.\<close>

definition hook_deopt :: "env \<Rightarrow> addr \<Rightarrow> addr \<Rightarrow> vmhook \<Rightarrow> vmhook option" where
  "hook_deopt E mth i2i s = do {
     (c2i, s) \<leftarrow> get_c2i E mth s;
     m \<leftarrow> set_from_interpreted_entry (en_jvm E) (vh_mem s) mth i2i;
     m \<leftarrow> (if c2i \<noteq> 0 \<and> is_valid_pointer c2i then set_from_compiled_entry (en_jvm E) m mth c2i else Some m);
     m \<leftarrow> set_code (en_jvm E) m mth 0;
     Some (s\<lparr>vh_mem := m\<rparr>) }"

text \<open>The same part of \<open>verify_hooks\<close> and \<open>try_reinstall\<close>, for a method that has code.\<close>

definition redeopt :: "env \<Rightarrow> addr \<Rightarrow> vmhook \<Rightarrow> vmhook option" where
  "redeopt E mth s = do {
     (c2i, s) \<leftarrow> get_c2i E mth s;
     m \<leftarrow> (if c2i \<noteq> 0 \<and> is_valid_pointer c2i then set_from_compiled_entry (en_jvm E) (vh_mem s) mth c2i
           else Some (vh_mem s));
     i2i \<leftarrow> get_i2i_entry (en_jvm E) m mth;
     m \<leftarrow> (if i2i \<noteq> 0 then set_from_interpreted_entry (en_jvm E) m mth i2i else Some m);
     m \<leftarrow> set_code (en_jvm E) m mth 0;
     Some (s\<lparr>vh_mem := m\<rparr>) }"

section \<open>Installing a hook\<close>

text \<open>Marking a method so that the JIT leaves it alone; the flag is whether the access flags were found.\<close>

definition mark_method :: "env \<Rightarrow> addr \<Rightarrow> vmhook \<Rightarrow> (bool \<times> vmhook) option" where
  "mark_method E mth s = do {
     m \<leftarrow> set_dont_inline (en_jvm E) (vh_mem s) mth True;
     let flags = get_access_flags (en_jvm E) mth;
     if flags = 0 then Some (False, s\<lparr>vh_mem := m\<rparr>)
     else do { m \<leftarrow> arm_no_compile m flags; Some (True, s\<lparr>vh_mem := m\<rparr>) } }"

text \<open>The address in a foreign jump at the injection point, when it is a valid pointer.\<close>

definition detect_chain :: "mem \<Rightarrow> addr \<Rightarrow> addr option" where
  "detect_chain m target = do {
     b \<leftarrow> m target;
     if b = 0xE9 then do {
       rel \<leftarrow> load32 m (target + 1);
       let prior = target + 5 + scast rel;
       Some (if is_valid_pointer prior then prior else 0) }
     else Some 0 }"

text \<open>Patching the i2i stub unless it is patched already. The flag is false for an exception.\<close>

definition patch_i2i :: "env \<Rightarrow> addr \<Rightarrow> vmhook \<Rightarrow> (bool \<times> vmhook) option" where
  "patch_i2i E i2i s =
     (if \<exists>d \<in> set (g_hooked_i2i_entries s). ih_i2i_entry d = i2i then Some (True, s)
      else do {
        (target, lo) \<leftarrow> find_hook_location (en_jvm E) (vh_mem s) (vh_locals_offset s) i2i;
        let s = s\<lparr>vh_locals_offset := lo\<rparr>;
        if target = 0 then Some (False, s)
        else do {
          chain_resume \<leftarrow> detect_chain (vh_mem s) target;
          (h, m) \<leftarrow> midi2i_hook_ctor (en_os E) (en_jvm E) (vh_mem s) target (en_common_detour E) chain_resume;
          if mh_error h then do { m \<leftarrow> midi2i_hook_dtor (en_os E) m h; Some (False, s\<lparr>vh_mem := m\<rparr>) }
          else Some (True, s\<lparr>vh_mem := m,
                 g_hooked_i2i_entries := g_hooked_i2i_entries s @ [\<lparr>ih_i2i_entry = i2i, ih_hook = h\<rparr>]\<rparr>) } })"

text \<open>\<open>auto_repair::ensure_started\<close>, without the worker thread it starts.\<close>

definition ensure_started :: "vmhook \<Rightarrow> vmhook" where
  "ensure_started s = s\<lparr>g_started := True\<rparr>"

definition new_entry :: "env \<Rightarrow> mem \<Rightarrow> addr \<Rightarrow> nat \<Rightarrow> string \<Rightarrow> string \<Rightarrow> hooked_method option" where
  "new_entry E m mth detour class_name method_name = do {
     code \<leftarrow> get_code (en_jvm E) m mth;
     fi \<leftarrow> get_from_interpreted_entry (en_jvm E) m mth;
     fc \<leftarrow> get_from_compiled_entry (en_jvm E) m mth;
     sg \<leftarrow> method_get_signature (en_jvm E) m mth;
     Some \<lparr>hm_method = mth, hm_detour = detour, hm_original_code = code, hm_original_from_interpreted = fi,
           hm_original_from_compiled = fc, hm_was_compiled = (code \<noteq> 0 \<and> is_valid_pointer code),
           hm_expected_class_name = class_name, hm_expected_method_name = method_name,
           hm_expected_signature = sg, hm_drift_logged = False\<rparr> }"

definition install :: "env \<Rightarrow> addr \<Rightarrow> nat \<Rightarrow> string \<Rightarrow> string \<Rightarrow> vmhook \<Rightarrow> (bool \<times> vmhook) option" where
  "install E mth detour class_name method_name s =
     (if \<exists>h \<in> set (g_hooked_methods s). hm_method h = mth then Some (True, s)
      else do {
        (ok, s) \<leftarrow> mark_method E mth s;
        if \<not> ok then Some (False, s)
        else do {
          i2i \<leftarrow> get_i2i_entry (en_jvm E) (vh_mem s) mth;
          if i2i = 0 then Some (False, s)
          else do {
            entry \<leftarrow> new_entry E (vh_mem s) mth detour class_name method_name;
            let s = s\<lparr>g_hooked_methods := g_hooked_methods s @ [entry]\<rparr>;
            (ok, s) \<leftarrow> patch_i2i E i2i s;
            if \<not> ok then Some (False, s)
            else do {
              s \<leftarrow> (if hm_was_compiled entry then hook_deopt E mth i2i s else Some s);
              Some (True, ensure_started s) } } } })"

definition hook :: "env \<Rightarrow> nat \<Rightarrow> string \<Rightarrow> string \<Rightarrow> nat \<Rightarrow> vmhook \<Rightarrow> (bool \<times> vmhook) option" where
  "hook E type_id method_name method_signature detour s =
     (case Mapping.lookup (type_to_class_map s) type_id of None \<Rightarrow> Some (False, s)
      | Some class_name \<Rightarrow> do {
          (k, s) \<leftarrow> vh_find_class E class_name s;
          if k = 0 then Some (False, s)
          else do {
            found \<leftarrow> find_method (en_jvm E) (vh_mem s) k method_name method_signature;
            case found of None \<Rightarrow> Some (False, s)
            | Some mth \<Rightarrow> if mth = 0 then Some (False, s)
                          else install E mth detour class_name method_name s } })"

definition hook_by_signature :: "env \<Rightarrow> nat \<Rightarrow> string \<Rightarrow> nat \<Rightarrow> vmhook \<Rightarrow> (bool \<times> vmhook) option" where
  "hook_by_signature E type_id jvm_descriptor detour s = do {
     (names, s) \<leftarrow> find_methods_by_signature E type_id jvm_descriptor s;
     case names of [] \<Rightarrow> Some (False, s)
     | [name] \<Rightarrow> hook E type_id name jvm_descriptor detour s
     | _ \<Rightarrow> Some (False, s) }"

section \<open>Dispatch\<close>

definition frame_get_method :: "mem \<Rightarrow> addr \<Rightarrow> addr option" where
  "frame_get_method m frame_pointer = load64 m (frame_pointer - 24)"

text \<open>
  A user detour is arbitrary code: \<open>run d frame thread slot s\<close> is the state after detour number
  \<open>d\<close> ran. \<open>seh_invoke_detour\<close> turns whatever it raises into an ordinary return. The result of
  \<open>common_detour\<close> also says which detour ran.
\<close>

type_synonym detours = "nat \<Rightarrow> addr \<Rightarrow> addr \<Rightarrow> addr \<Rightarrow> vmhook \<Rightarrow> vmhook option"

definition common_detour ::
  "env \<Rightarrow> detours \<Rightarrow> addr \<Rightarrow> addr \<Rightarrow> addr \<Rightarrow> vmhook \<Rightarrow> (nat option \<times> vmhook) option" where
  "common_detour E run frame_pointer thread slot s =
     (if g_shutdown_requested s then Some (None, s)
      else if thread = 0 \<or> \<not> is_valid_pointer thread then Some (None, s)
      else do {
        current_method \<leftarrow> frame_get_method (vh_mem s) frame_pointer;
        case find (\<lambda>h. hm_method h = current_method) (g_hooked_methods s) of
          None \<Rightarrow> Some (None, s)
        | Some h \<Rightarrow> do {
            s \<leftarrow> run (hm_detour h) frame_pointer thread slot s;
            m \<leftarrow> set_thread_state (en_jvm E) (vh_mem s) thread thread_in_Java;
            Some (Some (hm_detour h), s\<lparr>vh_mem := m\<rparr>) } })"

section \<open>Repair\<close>

definition try_reinstall :: "env \<Rightarrow> hooked_method \<Rightarrow> vmhook \<Rightarrow> (bool \<times> hooked_method \<times> vmhook) option" where
  "try_reinstall E hm s = do {
     (k, s) \<leftarrow> vh_find_class E (hm_expected_class_name hm) s;
     if k = 0 then Some (False, hm, s)
     else do {
       found \<leftarrow> find_method (en_jvm E) (vh_mem s) k (hm_expected_method_name hm) (hm_expected_signature hm);
       case found of None \<Rightarrow> Some (False, hm, s)
       | Some new_method \<Rightarrow>
           if new_method = 0 then Some (False, hm, s)
           else do {
             (_, s) \<leftarrow> mark_method E new_method s;
             code_now \<leftarrow> get_code (en_jvm E) (vh_mem s) new_method;
             s \<leftarrow> (if code_now \<noteq> 0 \<and> is_valid_pointer code_now then redeopt E new_method s else Some s);
             Some (True, hm\<lparr>hm_method := new_method, hm_drift_logged := False\<rparr>, s) } } }"

text \<open>The branch for a Method whose name or ConstMethod shows that it was freed.\<close>

definition reinstall_step :: "env \<Rightarrow> hooked_method \<Rightarrow> vmhook \<Rightarrow> (nat \<times> hooked_method \<times> vmhook) option" where
  "reinstall_step E hm s = do {
     (ok, hm, s) \<leftarrow> try_reinstall E (hm\<lparr>hm_drift_logged := True\<rparr>) s;
     Some (if ok then 1 else 0, hm, s) }"

definition jit_drifted :: "env \<Rightarrow> mem \<Rightarrow> addr \<Rightarrow> bool option" where
  "jit_drifted E m mth = do {
     code_now \<leftarrow> get_code (en_jvm E) m mth;
     let flags_now = get_access_flags (en_jvm E) mth;
     no_compile_set \<leftarrow> (if flags_now = 0 then Some False
                        else map_option (\<lambda>v. v AND NO_COMPILE \<noteq> 0) (load32 m flags_now));
     Some (code_now \<noteq> 0 \<or> \<not> no_compile_set) }"

definition verify_entry :: "env \<Rightarrow> hooked_method \<Rightarrow> vmhook \<Rightarrow> (nat \<times> hooked_method \<times> vmhook) option" where
  "verify_entry E hm s =
     (if hm_method hm = 0 \<or> hm_drift_logged hm then Some (0, hm, s)
      else do {
        cm \<leftarrow> get_const_method (en_jvm E) (vh_mem s) (hm_method hm);
        if cm = 0 \<or> \<not> is_valid_pointer cm then reinstall_step E hm s
        else do {
          current_name \<leftarrow> method_get_name (en_jvm E) (vh_mem s) (hm_method hm);
          if current_name \<noteq> [] \<and> current_name \<noteq> hm_expected_method_name hm then reinstall_step E hm s
          else do {
            code_now \<leftarrow> get_code (en_jvm E) (vh_mem s) (hm_method hm);
            drifted \<leftarrow> jit_drifted E (vh_mem s) (hm_method hm);
            if drifted then do {
              (_, s) \<leftarrow> mark_method E (hm_method hm) s;
              s \<leftarrow> (if code_now \<noteq> 0 \<and> is_valid_pointer code_now then redeopt E (hm_method hm) s else Some s);
              Some (1, hm\<lparr>hm_drift_logged := True\<rparr>, s) }
            else Some (0, hm\<lparr>hm_drift_logged := False\<rparr>, s) } } })"

fun verify_patches :: "env \<Rightarrow> i2i_hook_data list \<Rightarrow> mem \<Rightarrow> (nat \<times> i2i_hook_data list \<times> mem) option" where
  "verify_patches E [] m = Some (0, [], m)"
| "verify_patches E (d # ds) m = do {
     (intact, h, m) \<leftarrow> verify_and_repair (en_os E) m (ih_hook d);
     (n, ds, m) \<leftarrow> verify_patches E ds m;
     Some (if intact then n else n + 1, d\<lparr>ih_hook := h\<rparr> # ds, m) }"

fun verify_entries :: "env \<Rightarrow> hooked_method list \<Rightarrow> vmhook \<Rightarrow> (nat \<times> hooked_method list \<times> vmhook) option" where
  "verify_entries E [] s = Some (0, [], s)"
| "verify_entries E (hm # hms) s = do {
     (n, hm, s) \<leftarrow> verify_entry E hm s;
     (n', hms, s) \<leftarrow> verify_entries E hms s;
     Some (n + n', hm # hms, s) }"

definition verify_hooks :: "env \<Rightarrow> vmhook \<Rightarrow> (nat \<times> vmhook) option" where
  "verify_hooks E s = do {
     (n, ds, m) \<leftarrow> verify_patches E (g_hooked_i2i_entries s) (vh_mem s);
     let s = s\<lparr>vh_mem := m, g_hooked_i2i_entries := ds\<rparr>;
     (n', hms, s) \<leftarrow> verify_entries E (g_hooked_methods s) s;
     Some (n + n', s\<lparr>g_hooked_methods := hms\<rparr>) }"

section \<open>Removing hooks\<close>

definition unmark_method :: "env \<Rightarrow> addr \<Rightarrow> mem \<Rightarrow> mem option" where
  "unmark_method E mth m = do {
     m \<leftarrow> set_dont_inline (en_jvm E) m mth False;
     let flags = get_access_flags (en_jvm E) mth;
     if flags = 0 then Some m else clear_no_compile m flags }"

fun destroy_patches :: "env \<Rightarrow> i2i_hook_data list \<Rightarrow> mem \<Rightarrow> mem option" where
  "destroy_patches E [] m = Some m"
| "destroy_patches E (d # ds) m = do {
     m \<leftarrow> midi2i_hook_dtor (en_os E) m (ih_hook d);
     destroy_patches E ds m }"

fun unmark_entries :: "env \<Rightarrow> hooked_method list \<Rightarrow> mem \<Rightarrow> mem option" where
  "unmark_entries E [] m = Some m"
| "unmark_entries E (h # hs) m =
     (if hm_method h = 0 \<or> \<not> is_valid_pointer (hm_method h) then unmark_entries E hs m
      else do {
        cm \<leftarrow> get_const_method (en_jvm E) m (hm_method h);
        m \<leftarrow> (if cm = 0 then Some m else unmark_method E (hm_method h) m);
        unmark_entries E hs m })"

definition shutdown_hooks :: "env \<Rightarrow> vmhook \<Rightarrow> vmhook option" where
  "shutdown_hooks E s = do {
     m \<leftarrow> destroy_patches E (g_hooked_i2i_entries s) (vh_mem s);
     m \<leftarrow> unmark_entries E (g_hooked_methods s) m;
     Some (s\<lparr>vh_mem := m, g_hooked_methods := [], g_hooked_i2i_entries := [], g_started := False,
             g_shutdown_requested := False\<rparr>) }"

text \<open>\<open>vector::erase\<close> of the first entry for the method.\<close>

fun erase_first :: "addr \<Rightarrow> hooked_method list \<Rightarrow> hooked_method list" where
  "erase_first mth [] = []"
| "erase_first mth (h # hs) = (if hm_method h = mth then hs else h # erase_first mth hs)"

text \<open>A hook handle is the Method pointer it owns, or null; the result carries the handle's new value.\<close>

definition hook_handle_stop :: "env \<Rightarrow> addr \<Rightarrow> vmhook \<Rightarrow> (addr \<times> vmhook) option" where
  "hook_handle_stop E handle s =
     (if handle = 0 then Some (0, s)
      else if \<forall>h \<in> set (g_hooked_methods s). hm_method h \<noteq> handle then Some (0, s)
      else do {
        m \<leftarrow> unmark_method E handle (vh_mem s);
        Some (0, s\<lparr>vh_mem := m, g_hooked_methods := erase_first handle (g_hooked_methods s)\<rparr>) })"

section \<open>Deoptimising every method a predicate selects\<close>

record deopt_count =
  dc_deoptimized :: nat
  dc_skipped :: nat
  dc_cached_offset :: u64

definition deopt_method ::
  "jvm \<Rightarrow> (string \<Rightarrow> addr \<Rightarrow> bool) \<Rightarrow> string \<Rightarrow> addr \<Rightarrow> mem \<times> deopt_count \<Rightarrow> (mem \<times> deopt_count) option" where
  "deopt_method J predicate class_name mth s =
     (if mth = 0 \<or> \<not> is_valid_pointer mth then Some s
      else do {
        code \<leftarrow> get_code J (fst s) mth;
        if code = 0 \<or> \<not> is_valid_pointer code \<or> \<not> predicate class_name mth then Some s
        else do {
          i2i \<leftarrow> get_i2i_entry J (fst s) mth;
          (adapter, off) \<leftarrow> get_adapter J (fst s) (dc_cached_offset (snd s)) mth;
          c2i \<leftarrow> get_c2i_entry_from_adapter J (fst s) adapter;
          let d = (snd s)\<lparr>dc_cached_offset := off\<rparr>;
          if i2i = 0 \<or> c2i = 0 \<or> \<not> is_valid_pointer c2i then Some (fst s, d\<lparr>dc_skipped := dc_skipped d + 1\<rparr>)
          else do {
            m \<leftarrow> set_from_interpreted_entry J (fst s) mth i2i;
            m \<leftarrow> set_from_compiled_entry J m mth c2i;
            m \<leftarrow> set_code J m mth 0;
            Some (m, d\<lparr>dc_deoptimized := dc_deoptimized d + 1\<rparr>) } } })"

fun deopt_methods ::
  "jvm \<Rightarrow> (string \<Rightarrow> addr \<Rightarrow> bool) \<Rightarrow> string \<Rightarrow> addr \<Rightarrow> nat list \<Rightarrow> mem \<times> deopt_count \<Rightarrow> (mem \<times> deopt_count) option" where
  "deopt_methods J predicate class_name methods [] s = Some s"
| "deopt_methods J predicate class_name methods (i # is) s = do {
     mth \<leftarrow> load64 (fst s) (methods + of_nat (8 * i));
     s \<leftarrow> deopt_method J predicate class_name mth s;
     deopt_methods J predicate class_name methods is s }"

definition deopt_class :: "jvm \<Rightarrow> (string \<Rightarrow> addr \<Rightarrow> bool) \<Rightarrow> deopt_count visit" where
  "deopt_class J predicate class_name k s =
     (if k = 0 then Some s
      else do {
        method_count \<leftarrow> get_methods_count J (fst s) k;
        methods \<leftarrow> get_methods_ptr J (fst s) k;
        if methods = 0 \<or> method_count \<le> 0 then Some s
        else deopt_methods J predicate class_name methods [0..<nat method_count] s })"

definition deoptimize_methods_if :: "env \<Rightarrow> (string \<Rightarrow> addr \<Rightarrow> bool) \<Rightarrow> vmhook \<Rightarrow> (nat \<times> vmhook) option" where
  "deoptimize_methods_if E predicate s = do {
     (m, d) \<leftarrow> for_each_loaded_class (en_jvm E) (deopt_class (en_jvm E) predicate)
       (vh_mem s, \<lparr>dc_deoptimized = 0, dc_skipped = 0, dc_cached_offset = vh_cached_adapter_offset s\<rparr>);
     Some (dc_deoptimized d, s\<lparr>vh_mem := m, vh_cached_adapter_offset := dc_cached_offset d\<rparr>) }"

definition deoptimize_all_jit_compiled_methods :: "env \<Rightarrow> vmhook \<Rightarrow> (nat \<times> vmhook) option" where
  "deoptimize_all_jit_compiled_methods E s = deoptimize_methods_if E (\<lambda>_ _. True) s"

section \<open>Well-formed registries\<close>

definition registry_ok :: "vmhook \<Rightarrow> bool" where
  "registry_ok s \<longleftrightarrow> distinct (map ih_i2i_entry (g_hooked_i2i_entries s))
     \<and> (\<forall>d \<in> set (g_hooked_i2i_entries s). \<not> mh_error (ih_hook d) \<and> ih_i2i_entry d \<noteq> 0)
     \<and> (\<forall>h \<in> set (g_hooked_methods s). hm_method h \<noteq> 0)"

definition same_registry :: "vmhook \<Rightarrow> vmhook \<Rightarrow> bool" where
  "same_registry s s' \<longleftrightarrow> g_hooked_methods s' = g_hooked_methods s \<and> g_hooked_i2i_entries s' = g_hooked_i2i_entries s
     \<and> g_shutdown_requested s' = g_shutdown_requested s \<and> type_to_class_map s' = type_to_class_map s"

lemma same_registry_refl [simp]: "same_registry s s"
  by (simp add: same_registry_def)

lemma same_registry_trans: "same_registry a b \<Longrightarrow> same_registry b c \<Longrightarrow> same_registry a c"
  by (simp add: same_registry_def)

lemma same_registry_ok: "same_registry s s' \<Longrightarrow> registry_ok s' = registry_ok s"
  by (simp add: same_registry_def registry_ok_def)

lemma vh_find_class_registry: "vh_find_class E n s = Some (k, s') \<Longrightarrow> same_registry s s'"
  by (auto simp: vh_find_class_def same_registry_def split: bind_splits)

lemma mark_method_registry: "mark_method E mth s = Some (ok, s') \<Longrightarrow> same_registry s s'"
  by (auto simp: mark_method_def Let_def same_registry_def split: bind_splits if_splits)

lemma get_c2i_registry: "get_c2i E mth s = Some (c, s') \<Longrightarrow> same_registry s s'"
  by (auto simp: get_c2i_def vh_get_adapter_def same_registry_def split: bind_splits)

lemma hook_deopt_registry: "hook_deopt E mth i2i s = Some s' \<Longrightarrow> same_registry s s'"
  by (auto simp: hook_deopt_def same_registry_def split: bind_splits dest!: get_c2i_registry)

lemma redeopt_registry: "redeopt E mth s = Some s' \<Longrightarrow> same_registry s s'"
  by (auto simp: redeopt_def same_registry_def split: bind_splits dest!: get_c2i_registry)

lemma ctor_error_iff:
  "midi2i_hook_ctor OS J m target detour ch = Some (h, m') \<Longrightarrow> mh_error h \<longleftrightarrow> mh_allocated h = 0"
  by (auto simp: midi2i_hook_ctor_def Let_def split: bind_splits if_splits)

lemma patch_i2i_cases:
  assumes "patch_i2i E i2i s = Some (ok, s')"
  shows "same_registry s s' \<and> (ok \<longrightarrow> (\<exists>d \<in> set (g_hooked_i2i_entries s). ih_i2i_entry d = i2i))
     \<or> ok \<and> (\<exists>h. \<not> mh_error h \<and> g_hooked_methods s' = g_hooked_methods s
          \<and> g_hooked_i2i_entries s' = g_hooked_i2i_entries s @ [\<lparr>ih_i2i_entry = i2i, ih_hook = h\<rparr>]
          \<and> (\<forall>d \<in> set (g_hooked_i2i_entries s). ih_i2i_entry d \<noteq> i2i)
          \<and> g_shutdown_requested s' = g_shutdown_requested s \<and> type_to_class_map s' = type_to_class_map s)"
  using assms by (auto simp: patch_i2i_def Let_def same_registry_def split: bind_splits if_splits prod.splits)

lemma patch_i2i_ok: "patch_i2i E i2i s = Some (ok, s') \<Longrightarrow> i2i \<noteq> 0 \<Longrightarrow> registry_ok s \<Longrightarrow> registry_ok s'"
  by (drule patch_i2i_cases) (auto simp: registry_ok_def same_registry_def)

lemma new_entry_method: "new_entry E m mth d cn mn = Some e \<Longrightarrow> hm_method e = mth \<and> hm_detour e = d
     \<and> hm_expected_class_name e = cn \<and> hm_expected_method_name e = mn \<and> \<not> hm_drift_logged e"
  by (auto simp: new_entry_def split: bind_splits)

lemma install_ok:
  assumes "install E mth d cn mn s = Some (ok, s')" and "mth \<noteq> 0" and "registry_ok s"
  shows "registry_ok s'"
proof (cases "\<exists>h \<in> set (g_hooked_methods s). hm_method h = mth")
  case False
  with assms(1) obtain ok1 s1 where mk: "mark_method E mth s = Some (ok1, s1)"
    by (auto simp: install_def split: bind_splits)
  have r1: "registry_ok s1" using mark_method_registry [OF mk] assms(3) by (simp add: same_registry_ok)
  show ?thesis
  proof (cases "ok1 \<and> get_i2i_entry (en_jvm E) (vh_mem s1) mth \<noteq> Some 0")
    case True
    with assms(1) mk False obtain i2i e ok2 s2 where i2i: "i2i \<noteq> 0" and e: "new_entry E (vh_mem s1) mth d cn mn = Some e"
      and p: "patch_i2i E i2i (s1\<lparr>g_hooked_methods := g_hooked_methods s1 @ [e]\<rparr>) = Some (ok2, s2)"
      and rest: "(if \<not> ok2 then Some (False, s2) else do {
              s \<leftarrow> (if hm_was_compiled e then hook_deopt E mth i2i s2 else Some s2);
              Some (True, ensure_started s) }) = Some (ok, s')"
      by (auto simp: install_def Let_def split: bind_splits if_splits)
    have "registry_ok (s1\<lparr>g_hooked_methods := g_hooked_methods s1 @ [e]\<rparr>)"
      using r1 new_entry_method [OF e] assms(2) by (auto simp: registry_ok_def)
    with patch_i2i_ok [OF p i2i] have "registry_ok s2" by simp
    with rest show ?thesis
      by (auto simp: ensure_started_def same_registry_def registry_ok_def split: if_splits bind_splits
          dest!: hook_deopt_registry)
  next
    case no: False
    with assms(1) mk False r1 show ?thesis by (auto simp: install_def split: if_splits)
  qed
qed (use assms in \<open>auto simp: install_def\<close>)

lemma hook_ok: "hook E t mn sg d s = Some (ok, s') \<Longrightarrow> registry_ok s \<Longrightarrow> registry_ok s'"
  by (auto simp: hook_def split: option.splits bind_splits if_splits dest!: vh_find_class_registry
      elim!: install_ok simp: same_registry_ok)

lemma register_class_ok: "register_class E t cn s = Some (ok, s') \<Longrightarrow> registry_ok s \<Longrightarrow> registry_ok s'"
  by (auto simp: register_class_def registry_ok_def same_registry_def split: bind_splits if_splits
      dest!: vh_find_class_registry)

lemma try_reinstall_props:
  assumes "try_reinstall E hm s = Some (ok, hm', s')"
  shows "same_registry s s' \<and> (hm_method hm \<noteq> 0 \<longrightarrow> hm_method hm' \<noteq> 0)"
  using assms
  by (auto simp: try_reinstall_def split: bind_splits if_splits option.splits
      dest!: vh_find_class_registry mark_method_registry redeopt_registry) (simp_all add: same_registry_def)

lemma verify_entry_props:
  assumes "verify_entry E hm s = Some (n, hm', s')"
  shows "same_registry s s' \<and> (hm_method hm \<noteq> 0 \<longrightarrow> hm_method hm' \<noteq> 0)"
  using assms
  by (auto simp: verify_entry_def reinstall_step_def split: bind_splits if_splits
      dest!: try_reinstall_props mark_method_registry redeopt_registry) (simp_all add: same_registry_def)

lemma verify_entries_props:
  "verify_entries E hms s = Some (n, hms', s') \<Longrightarrow> \<forall>h \<in> set hms. hm_method h \<noteq> 0 \<Longrightarrow>
     same_registry s s' \<and> (\<forall>h \<in> set hms'. hm_method h \<noteq> 0)"
proof (induction E hms s arbitrary: n hms' s' rule: verify_entries.induct)
  case (2 E hm hms s)
  obtain n1 hm1 s1 n2 hms2 where v: "verify_entry E hm s = Some (n1, hm1, s1)"
    "verify_entries E hms s1 = Some (n2, hms2, s')" "hms' = hm1 # hms2"
    using "2.prems"(1) by (auto split: bind_splits)
  have "same_registry s1 s' \<and> (\<forall>h \<in> set hms2. hm_method h \<noteq> 0)"
    by (rule "2.IH" [OF v(1) refl refl v(2)]) (use "2.prems"(2) in simp)
  with verify_entry_props [OF v(1)] "2.prems"(2) v(3) show ?case
    by (auto intro: same_registry_trans)
qed auto

lemma verify_and_repair_error: "verify_and_repair OS m h = Some (b, h', m') \<Longrightarrow> mh_error h' = mh_error h"
  by (auto simp: verify_and_repair_def Let_def split: bind_splits if_splits)

lemma verify_patches_props:
  "verify_patches E ds m = Some (n, ds', m') \<Longrightarrow>
     map ih_i2i_entry ds' = map ih_i2i_entry ds \<and> map (mh_error \<circ> ih_hook) ds' = map (mh_error \<circ> ih_hook) ds"
proof (induction E ds m arbitrary: n ds' m' rule: verify_patches.induct)
  case (2 E d ds m)
  obtain b h m1 n1 ds1 where v: "verify_and_repair (en_os E) m (ih_hook d) = Some (b, h, m1)"
    "verify_patches E ds m1 = Some (n1, ds1, m')" "ds' = d\<lparr>ih_hook := h\<rparr> # ds1"
    using "2.prems" by (auto split: bind_splits)
  with "2.IH" [OF v(1) refl refl v(2)] verify_and_repair_error [OF v(1)] show ?case by simp
qed auto

lemma verify_hooks_ok: "verify_hooks E s = Some (n, s') \<Longrightarrow> registry_ok s \<Longrightarrow> registry_ok s'"
proof -
  assume v: "verify_hooks E s = Some (n, s')" and ok: "registry_ok s"
  then obtain n1 ds m n2 hms s2 where p: "verify_patches E (g_hooked_i2i_entries s) (vh_mem s) = Some (n1, ds, m)"
    and e: "verify_entries E (g_hooked_methods s) (s\<lparr>vh_mem := m, g_hooked_i2i_entries := ds\<rparr>) = Some (n2, hms, s2)"
    and s': "s' = s2\<lparr>g_hooked_methods := hms\<rparr>"
    by (auto simp: verify_hooks_def Let_def split: bind_splits)
  have i: "map ih_i2i_entry ds = map ih_i2i_entry (g_hooked_i2i_entries s)"
    "map (mh_error \<circ> ih_hook) ds = map (mh_error \<circ> ih_hook) (g_hooked_i2i_entries s)"
    using verify_patches_props [OF p] by auto
  have "(\<forall>d \<in> set ds. \<not> mh_error (ih_hook d) \<and> ih_i2i_entry d \<noteq> 0)"
  proof
    fix d assume "d \<in> set ds"
    then have "ih_i2i_entry d \<in> ih_i2i_entry ` set (g_hooked_i2i_entries s)"
      "mh_error (ih_hook d) \<in> (mh_error \<circ> ih_hook) ` set (g_hooked_i2i_entries s)"
      using arg_cong [OF i(1), of set] arg_cong [OF i(2), of set] by (auto simp: image_iff)
    with ok show "\<not> mh_error (ih_hook d) \<and> ih_i2i_entry d \<noteq> 0" by (auto simp: registry_ok_def)
  qed
  with verify_entries_props [OF e] ok i(1) show ?thesis by (auto simp: registry_ok_def same_registry_def s')
qed

lemma shutdown_hooks_ok: "shutdown_hooks E s = Some s' \<Longrightarrow> registry_ok s'"
  by (auto simp: shutdown_hooks_def registry_ok_def split: bind_splits)

lemma erase_first_subset: "set (erase_first mth hs) \<subseteq> set hs"
  by (induction hs) auto

lemma hook_handle_stop_ok: "hook_handle_stop E handle s = Some (x, s') \<Longrightarrow> registry_ok s \<Longrightarrow> registry_ok s'"
  using erase_first_subset by (fastforce simp: hook_handle_stop_def registry_ok_def split: if_splits bind_splits)

lemma deoptimize_registry: "deoptimize_methods_if E p s = Some (n, s') \<Longrightarrow> same_registry s s'"
  by (auto simp: deoptimize_methods_if_def same_registry_def split: bind_splits)

section \<open>The registry as a state machine\<close>

inductive vh_step :: "env \<Rightarrow> vmhook \<Rightarrow> vmhook \<Rightarrow> bool" for E :: env where
  step_register: "register_class E t cn s = Some (ok, s') \<Longrightarrow> vh_step E s s'"
| step_hook: "hook E t mn sg d s = Some (ok, s') \<Longrightarrow> vh_step E s s'"
| step_hook_by_signature: "hook_by_signature E t sg d s = Some (ok, s') \<Longrightarrow> vh_step E s s'"
| step_stop: "hook_handle_stop E handle s = Some (handle', s') \<Longrightarrow> vh_step E s s'"
| step_verify: "verify_hooks E s = Some (n, s') \<Longrightarrow> vh_step E s s'"
| step_deopt: "deoptimize_methods_if E p s = Some (n, s') \<Longrightarrow> vh_step E s s'"
| step_shutdown: "shutdown_hooks E s = Some s' \<Longrightarrow> vh_step E s s'"

inductive vh_reach :: "env \<Rightarrow> vmhook \<Rightarrow> vmhook \<Rightarrow> bool" for E :: env and s0 :: vmhook where
  reach_start: "vh_reach E s0 s0"
| reach_step: "vh_reach E s0 s \<Longrightarrow> vh_step E s s' \<Longrightarrow> vh_reach E s0 s'"

lemma hook_by_signature_ok: "hook_by_signature E t sg d s = Some (ok, s') \<Longrightarrow> registry_ok s \<Longrightarrow> registry_ok s'"
  by (auto simp: hook_by_signature_def find_methods_by_signature_def get_class_methods_def same_registry_ok
      split: bind_splits list.splits option.splits dest!: vh_find_class_registry elim!: hook_ok)

lemma vh_step_ok: "vh_step E s s' \<Longrightarrow> registry_ok s \<Longrightarrow> registry_ok s'"
  by (induction rule: vh_step.induct)
    (auto dest: register_class_ok hook_ok hook_by_signature_ok hook_handle_stop_ok verify_hooks_ok
      shutdown_hooks_ok deoptimize_registry simp: same_registry_ok)

section \<open>What the Method looks like afterwards\<close>

text \<open>\<open>interpreted\<close>: no compiled code, interpreted calls enter \<open>i2i\<close>, compiled calls enter \<open>c2i\<close>.\<close>

definition interpreted :: "jvm \<Rightarrow> mem \<Rightarrow> addr \<Rightarrow> addr \<Rightarrow> addr \<Rightarrow> bool" where
  "interpreted J m mth i2i c2i \<longleftrightarrow> get_code J m mth = Some 0
     \<and> get_from_interpreted_entry J m mth = Some i2i \<and> get_from_compiled_entry J m mth = Some c2i"

text \<open>The three entry fields exist in the Method and do not overlap.\<close>

definition entry_fields :: "jvm \<Rightarrow> addr \<Rightarrow> bool" where
  "entry_fields J mth \<longleftrightarrow>
     (\<exists>ce ie fe. vm_struct J ''Method'' ''_code'' = Some ce
        \<and> vm_struct J ''Method'' ''_from_interpreted_entry'' = Some ie \<and> from_compiled_struct J = Some fe
        \<and> apart (mth + se_offset ce) 8 (mth + se_offset ie) 8 \<and> apart (mth + se_offset ce) 8 (mth + se_offset fe) 8
        \<and> apart (mth + se_offset fe) 8 (mth + se_offset ie) 8)"

lemma relink_interpreted:
  assumes "entry_fields J mth" and "set_from_interpreted_entry J m mth i2i = Some m1"
    and "set_from_compiled_entry J m1 mth c2i = Some m2" and "set_code J m2 mth 0 = Some m3"
  shows "interpreted J m3 mth i2i c2i"
proof -
  obtain ce ie fe where st: "vm_struct J ''Method'' ''_code'' = Some ce"
    "vm_struct J ''Method'' ''_from_interpreted_entry'' = Some ie" "from_compiled_struct J = Some fe"
    and ap: "apart (mth + se_offset ce) 8 (mth + se_offset ie) 8" "apart (mth + se_offset ce) 8 (mth + se_offset fe) 8"
      "apart (mth + se_offset fe) 8 (mth + se_offset ie) 8"
    using assms(1) unfolding entry_fields_def by blast
  have s: "store64 m (mth + se_offset ie) i2i = Some m1" "store64 m1 (mth + se_offset fe) c2i = Some m2"
    "store64 m2 (mth + se_offset ce) 0 = Some m3"
    using assms(2-4) st by (simp_all add: set_from_interpreted_entry_def set_from_compiled_entry_def set_code_def)
  have "load64 m3 (mth + se_offset ce) = Some 0" using load_store_same [OF s(3)] by simp
  moreover have "load64 m3 (mth + se_offset ie) = Some i2i"
    using load_store_same [OF s(1)] load_store_apart [where 'b = 64, OF s(2) ap(3)]
      load_store_apart [where 'b = 64, OF s(3) ap(1)] by simp
  moreover have "load64 m3 (mth + se_offset fe) = Some c2i"
    using load_store_same [OF s(2)] load_store_apart [where 'b = 64, OF s(3) ap(2)] by simp
  ultimately show ?thesis
    using st by (simp add: interpreted_def get_code_def get_from_interpreted_entry_def get_from_compiled_entry_def)
qed

lemma deopt_method_effect:
  assumes "entry_fields J mth" and "deopt_method J p cn mth (m, d) = Some (m', d')"
  shows "(m' = m \<and> dc_deoptimized d' = dc_deoptimized d)
     \<or> dc_deoptimized d' = dc_deoptimized d + 1 \<and> p cn mth
       \<and> (\<exists>code i2i c2i. get_code J m mth = Some code \<and> is_valid_pointer code
            \<and> get_i2i_entry J m mth = Some i2i \<and> i2i \<noteq> 0 \<and> is_valid_pointer c2i \<and> interpreted J m' mth i2i c2i)"
proof -
  consider "m' = m \<and> dc_deoptimized d' = dc_deoptimized d"
    | code i2i c2i m1 m2 where "dc_deoptimized d' = dc_deoptimized d + 1" "p cn mth" "get_code J m mth = Some code"
        "is_valid_pointer code" "get_i2i_entry J m mth = Some i2i" "i2i \<noteq> 0" "is_valid_pointer c2i"
        "set_from_interpreted_entry J m mth i2i = Some m1" "set_from_compiled_entry J m1 mth c2i = Some m2"
        "set_code J m2 mth 0 = Some m'"
    using assms(2) by (auto simp: deopt_method_def Let_def split: if_splits bind_splits)
  then show ?thesis
    by cases (use relink_interpreted [OF assms(1)] in blast)+
qed

text \<open>The flag words of a method.\<close>

definition flag_fields :: "jvm \<Rightarrow> addr \<Rightarrow> bool" where
  "flag_fields J mth \<longleftrightarrow> get_flags J mth \<noteq> 0 \<and> get_access_flags J mth \<noteq> 0
     \<and> apart (get_flags J mth) 2 (get_access_flags J mth) 4"

lemma mark_flags:
  assumes "flag_fields (en_jvm E) mth" and "mark_method E mth s = Some (ok, s')"
    and "load32 (vh_mem s) (get_access_flags (en_jvm E) mth) = Some a" and "load16 (vh_mem s) (get_flags (en_jvm E) mth) = Some f"
  shows "ok \<and> load32 (vh_mem s') (get_access_flags (en_jvm E) mth) = Some (a OR NO_COMPILE)
     \<and> load16 (vh_mem s') (get_flags (en_jvm E) mth) = Some (f OR dont_inline_bit)"
proof -
  let ?F = "get_flags (en_jvm E) mth" and ?A = "get_access_flags (en_jvm E) mth"
  have nz: "?F \<noteq> 0" "?A \<noteq> 0" and ap: "apart ?F 2 ?A 4"
    using assms(1) by (auto simp: flag_fields_def)
  obtain m1 m2 v where m1: "store16 (vh_mem s) ?F (f OR dont_inline_bit) = Some m1"
    and v: "load32 m1 ?A = Some v" and m2: "store32 m1 ?A (v OR NO_COMPILE) = Some m2"
    and s': "ok" "s' = s\<lparr>vh_mem := m2\<rparr>"
    using assms(2,4) nz
    by (auto simp: mark_method_def set_dont_inline_def arm_no_compile_def Let_def split: bind_splits)
  have "v = a" using v load_store_apart [where 'b = 32, OF m1 ap] assms(3) by simp
  with load_store_same [OF m2] load_store_apart [where 'b = 16, OF m2 apart_sym [OF ap]] load_store_same [OF m1] s'
  show ?thesis by simp
qed

lemma unmark_flags:
  assumes "flag_fields (en_jvm E) mth" and "unmark_method E mth m = Some m'"
    and "load32 m (get_access_flags (en_jvm E) mth) = Some a" and "load16 m (get_flags (en_jvm E) mth) = Some f"
  shows "load32 m' (get_access_flags (en_jvm E) mth) = Some (a AND NOT NO_COMPILE)
     \<and> load16 m' (get_flags (en_jvm E) mth) = Some (f AND NOT dont_inline_bit)"
proof -
  let ?F = "get_flags (en_jvm E) mth" and ?A = "get_access_flags (en_jvm E) mth"
  have nz: "?F \<noteq> 0" "?A \<noteq> 0" and ap: "apart ?F 2 ?A 4"
    using assms(1) by (auto simp: flag_fields_def)
  obtain m1 v where m1: "store16 m ?F (f AND NOT dont_inline_bit) = Some m1"
    and v: "load32 m1 ?A = Some v" and m2: "store32 m1 ?A (v AND NOT NO_COMPILE) = Some m'"
    using assms(2,4) nz
    by (auto simp: unmark_method_def set_dont_inline_def clear_no_compile_def Let_def split: bind_splits)
  have "v = a" using v load_store_apart [where 'b = 32, OF m1 ap] assms(3) by simp
  with load_store_same [OF m2] load_store_apart [where 'b = 16, OF m2 apart_sym [OF ap]] load_store_same [OF m1]
  show ?thesis by simp
qed

section \<open>Properties\<close>

text \<open>C4. Every state that any sequence of registering, hooking, stopping handles, verifying,
  deoptimising and shutting down reaches from a well-formed registry is well-formed: at most
  one live patch per i2i stub, no failed trampoline kept, no entry without a Method.\<close>

theorem registry_invariant:
  assumes "vh_reach E s0 s" and "registry_ok s0"
  shows "registry_ok s"
  using assms by (induction rule: vh_reach.induct) (auto dest: vh_step_ok)

text \<open>When the i2i stub cannot be patched, the installation returns false but leaves its
  registry entry behind, so the next attempt on the same method reports success although no
  trampoline was ever installed for the stub.\<close>

theorem failed_install_then_reports_success:
  assumes "\<forall>h \<in> set (g_hooked_methods s). hm_method h \<noteq> mth"
    and "\<forall>d \<in> set (g_hooked_i2i_entries s). ih_i2i_entry d \<noteq> i2i"
    and "mark_method E mth s = Some (True, s1)" and "get_i2i_entry (en_jvm E) (vh_mem s1) mth = Some i2i" and "i2i \<noteq> 0"
    and "new_entry E (vh_mem s1) mth d cn mn = Some e"
    and "patch_i2i E i2i (s1\<lparr>g_hooked_methods := g_hooked_methods s1 @ [e]\<rparr>) = Some (False, s2)"
  shows "install E mth d cn mn s = Some (False, s2) \<and> install E mth d cn mn s2 = Some (True, s2)
     \<and> (\<forall>d \<in> set (g_hooked_i2i_entries s2). ih_i2i_entry d \<noteq> i2i)"
proof -
  have r: "same_registry s s1" by (rule mark_method_registry [OF assms(3)])
  have r2: "same_registry (s1\<lparr>g_hooked_methods := g_hooked_methods s1 @ [e]\<rparr>) s2"
    using patch_i2i_cases [OF assms(7)] by simp
  have "install E mth d cn mn s = Some (False, s2)"
    using assms by (auto simp: install_def)
  moreover have "\<exists>h \<in> set (g_hooked_methods s2). hm_method h = mth"
    using r2 new_entry_method [OF assms(6)] by (auto simp: same_registry_def)
  ultimately show ?thesis
    using r r2 assms(2) by (auto simp: install_def same_registry_def)
qed

text \<open>A concrete process: one Method at 0x50000 whose i2i stub at 0x60000 has two bytes left in
  its region, both zero.\<close>

definition reg_demo_jvm :: jvm where
  "reg_demo_jvm = \<lparr>vm_types = [], vm_structs = [entry_named ''Method'' ''_constMethod'' 8,
     entry_named ''Method'' ''_access_flags'' 0x28, entry_named ''Method'' ''_flags'' 0x2E,
     entry_named ''Method'' ''_i2i_entry'' 0x30, entry_named ''Method'' ''_from_interpreted_entry'' 0x38,
     entry_named ''Method'' ''_code'' 0x40, entry_named ''Method'' ''_from_compiled_entry'' 0x48,
     entry_named ''Method'' ''_adapter'' 0x50, entry_named ''AdapterHandlerEntry'' ''_c2i_entry'' 8,
     entry_named ''JavaThread'' ''_thread_state'' 0x100],
     proc_maps = [Some \<lparr>ml_begin = 0x10000, ml_end = 0x60002, ml_perms = ''r-xp''\<rparr>]\<rparr>"

definition reg_demo_env :: env where
  "reg_demo_env = \<lparr>en_jvm = reg_demo_jvm, en_os = demo_os 0, en_jni_find = (\<lambda>_. 0), en_common_detour = 0x500000\<rparr>"

definition reg_demo :: "mem \<Rightarrow> hooked_method list \<Rightarrow> vmhook" where
  "reg_demo m hms = \<lparr>vh_mem = m, vh_classes = \<lparr>klass_lookup_cache = Mapping.empty, host_classloader_klass = 0\<rparr>,
     type_to_class_map = Mapping.empty, g_hooked_methods = hms, g_hooked_i2i_entries = [],
     vh_locals_offset = default_locals_offset, vh_cached_adapter_offset = 0, g_shutdown_requested = False,
     g_started = False\<rparr>"

lemma reg_demo_structs [simp]:
  "vm_struct reg_demo_jvm ''Method'' ''_constMethod'' = Some (entry_named ''Method'' ''_constMethod'' 8)"
  "vm_struct reg_demo_jvm ''Method'' ''_access_flags'' = Some (entry_named ''Method'' ''_access_flags'' 0x28)"
  "vm_struct reg_demo_jvm ''Method'' ''_flags'' = Some (entry_named ''Method'' ''_flags'' 0x2E)"
  "vm_struct reg_demo_jvm ''Method'' ''_i2i_entry'' = Some (entry_named ''Method'' ''_i2i_entry'' 0x30)"
  "vm_struct reg_demo_jvm ''Method'' ''_from_interpreted_entry'' = Some (entry_named ''Method'' ''_from_interpreted_entry'' 0x38)"
  "vm_struct reg_demo_jvm ''Method'' ''_code'' = Some (entry_named ''Method'' ''_code'' 0x40)"
  "from_compiled_struct reg_demo_jvm = Some (entry_named ''Method'' ''_from_compiled_entry'' 0x48)"
  "vm_struct reg_demo_jvm ''Method'' ''_adapter'' = Some (entry_named ''Method'' ''_adapter'' 0x50)"
  "vm_struct reg_demo_jvm ''AdapterHandlerEntry'' ''_c2i_entry'' = Some (entry_named ''AdapterHandlerEntry'' ''_c2i_entry'' 8)"
  "vm_struct reg_demo_jvm ''JavaThread'' ''_thread_state'' = Some (entry_named ''JavaThread'' ''_thread_state'' 0x100)"
  "vm_struct reg_demo_jvm ''ConstMethod'' ''_name_index'' = None"
  by (simp_all add: reg_demo_jvm_def iterate_struct_entries_def entry_named_def from_compiled_struct_def)

lemma entry_named_offset [simp]: "se_offset (entry_named tn fn off) = off"
  by (simp add: entry_named_def)

lemma reg_demo_en [simp]: "en_jvm reg_demo_env = reg_demo_jvm" "en_os reg_demo_env = demo_os 0"
  by (simp_all add: reg_demo_env_def)

lemma reg_demo_sel [simp]: "vh_mem (reg_demo m hms) = m" "g_hooked_methods (reg_demo m hms) = hms"
  "g_hooked_i2i_entries (reg_demo m hms) = []" "vh_locals_offset (reg_demo m hms) = default_locals_offset"
  "g_shutdown_requested (reg_demo m hms) = False"
  by (simp_all add: reg_demo_def)

lemma reg_demo_update [simp]: "(reg_demo m hms)\<lparr>vh_mem := m'\<rparr> = reg_demo m' hms"
  "(reg_demo m hms)\<lparr>g_hooked_methods := hms'\<rparr> = reg_demo m hms'"
  by (simp_all add: reg_demo_def)

lemma reg_demo_flags [simp]: "get_flags reg_demo_jvm p = p + 0x2E" "get_access_flags reg_demo_jvm p = p + 0x28"
  by (simp_all add: get_flags_def get_access_flags_def)

definition reg_marked :: "mem \<Rightarrow> mem" where
  "reg_marked m = put 0x50028 (le_of_word 4 (0 OR NO_COMPILE)) (put 0x5002E (le_of_word 2 (0 OR dont_inline_bit)) m)"

definition reg_demo_mem :: mem where
  "reg_demo_mem = image [(0x50030, 8, 0x60000)]"

lemma reg_demo_mark: "mark_method reg_demo_env 0x50000 (reg_demo reg_demo_mem hms) = Some (True, reg_demo (reg_marked reg_demo_mem) hms)"
  by (simp add: mark_method_def set_dont_inline_def arm_no_compile_def store_le_put reg_demo_mem_def reg_marked_def
      mem_simps apart_def)

lemma reg_demo_loads:
  "load64 (reg_marked reg_demo_mem) 0x50030 = Some 0x60000" "load64 (reg_marked reg_demo_mem) 0x50040 = Some 0"
  "load64 (reg_marked reg_demo_mem) 0x50038 = Some 0" "load64 (reg_marked reg_demo_mem) 0x50048 = Some 0"
  "load64 (reg_marked reg_demo_mem) 0x50008 = Some 0"
  by (simp_all add: reg_marked_def reg_demo_mem_def mem_simps apart_def)

lemma reg_demo_i2i: "get_i2i_entry reg_demo_jvm (reg_marked reg_demo_mem) 0x50000 = Some 0x60000"
  by (simp add: get_i2i_entry_def reg_demo_loads)

lemma reg_demo_entry:
  "\<exists>e. new_entry reg_demo_env (reg_marked reg_demo_mem) 0x50000 d cn mn = Some e"
  by (simp add: new_entry_def get_code_def get_from_interpreted_entry_def get_from_compiled_entry_def
      method_get_signature_def get_const_method_def reg_demo_loads)

lemma reg_demo_no_match: "reg_marked reg_demo_mem 0x60000 = Some 0" "reg_marked reg_demo_mem 0x60001 = Some 0"
  by (simp_all add: reg_marked_def reg_demo_mem_def put_def ram_def)

lemma scan_two: "scan m a 2 ps = do {
     hit \<leftarrow> match_pattern m a ps;
     if hit then Some a else do { hit \<leftarrow> match_pattern m (a + 1) ps; if hit then Some (a + 1) else Some 0 } }"
  by (simp only: numeral_2_eq_2 scan.simps)

lemma reg_demo_patch: "patch_i2i reg_demo_env 0x60000 (reg_demo (reg_marked reg_demo_mem) hms)
    = Some (False, reg_demo (reg_marked reg_demo_mem) hms)"
proof -
  have "find_stub_size reg_demo_jvm 0x60000 = 2"
    by (simp add: find_stub_size_def reg_demo_jvm_def query_region_def empty_region_def)
  moreover have "scan (reg_marked reg_demo_mem) 0x60000 2 pattern_full = Some 0"
    "scan (reg_marked reg_demo_mem) 0x60000 2 pattern_fallback = Some 0"
    by (simp_all add: scan_two pattern_full_def pattern_fallback_def reg_demo_no_match)
  ultimately show ?thesis
    by (simp add: patch_i2i_def find_hook_location_def reg_demo_def)
qed

lemma failed_install_then_reports_success_witness:
  "\<exists>s. install reg_demo_env 0x50000 1 ''A'' ''f'' (reg_demo reg_demo_mem []) = Some (False, s)
     \<and> install reg_demo_env 0x50000 1 ''A'' ''f'' s = Some (True, s)"
proof -
  obtain e where e: "new_entry reg_demo_env (vh_mem (reg_demo (reg_marked reg_demo_mem) [])) 0x50000 1 ''A'' ''f'' = Some e"
    using reg_demo_entry [of 1 "''A''" "''f''"] by auto
  have p: "patch_i2i reg_demo_env 0x60000 ((reg_demo (reg_marked reg_demo_mem) [])\<lparr>g_hooked_methods :=
      g_hooked_methods (reg_demo (reg_marked reg_demo_mem) []) @ [e]\<rparr>) = Some (False, reg_demo (reg_marked reg_demo_mem) [e])"
    by (simp add: reg_demo_patch)
  from failed_install_then_reports_success [OF _ _ reg_demo_mark _ _ e p] show ?thesis
    by (auto simp: reg_demo_i2i)
qed

definition reg_demo_hm :: hooked_method where
  "reg_demo_hm = \<lparr>hm_method = 1, hm_detour = 7, hm_original_code = 0, hm_original_from_interpreted = 0,
     hm_original_from_compiled = 0, hm_was_compiled = False, hm_expected_class_name = ''A'',
     hm_expected_method_name = ''f'', hm_expected_signature = '''', hm_drift_logged = False\<rparr>"

lemma registry_invariant_witness:
  "vh_reach reg_demo_env (reg_demo ram [reg_demo_hm]) (reg_demo ram []) \<and> registry_ok (reg_demo ram [])"
proof -
  have "shutdown_hooks reg_demo_env (reg_demo ram [reg_demo_hm]) = Some (reg_demo ram [])"
    by (simp add: shutdown_hooks_def reg_demo_hm_def is_valid_pointer_def) (simp add: reg_demo_def)
  then have r: "vh_reach reg_demo_env (reg_demo ram [reg_demo_hm]) (reg_demo ram [])"
    by (intro reach_step [OF reach_start] step_shutdown)
  have "registry_ok (reg_demo ram [reg_demo_hm])" by (simp add: registry_ok_def reg_demo_hm_def)
  from r registry_invariant [OF r this] show ?thesis by simp
qed

text \<open>The repair pass keeps a hook alive for one drift only: after it repaired a method whose
  JIT state had drifted, the entry is skipped by every later pass, in every later state, so
  the next drift is neither repaired nor noticed.\<close>

theorem repaired_entry_is_never_checked_again:
  assumes "verify_entry E hm s = Some (n, hm', s')" and "hm_method hm \<noteq> 0" and "\<not> hm_drift_logged hm"
    and "get_const_method (en_jvm E) (vh_mem s) (hm_method hm) = Some cm" and "is_valid_pointer cm"
    and "method_get_name (en_jvm E) (vh_mem s) (hm_method hm) = Some nm" and "nm = [] \<or> nm = hm_expected_method_name hm"
    and "jit_drifted E (vh_mem s) (hm_method hm) = Some True"
  shows "n = 1 \<and> hm_method hm' = hm_method hm \<and> (\<forall>later. verify_entry E hm' later = Some (0, hm', later))"
proof -
  obtain code where "get_code (en_jvm E) (vh_mem s) (hm_method hm) = Some code"
    using assms(8) by (auto simp: jit_drifted_def split: bind_splits)
  with assms(2-8) valid_not_null [OF assms(5)] have "verify_entry E hm s = do {
      (_, s) \<leftarrow> mark_method E (hm_method hm) s;
      s \<leftarrow> (if code \<noteq> 0 \<and> is_valid_pointer code then redeopt E (hm_method hm) s else Some s);
      Some (1, hm\<lparr>hm_drift_logged := True\<rparr>, s) }"
    by (auto simp: verify_entry_def)
  with assms(1) have "n = 1 \<and> hm' = hm\<lparr>hm_drift_logged := True\<rparr>" by (auto split: bind_splits)
  then show ?thesis by (simp add: verify_entry_def)
qed

text \<open>After a repair moved a registry entry to the Method's new address, the handle that
  installed it stops nothing: stop finds no entry for the old address, leaves the registry as
  it is, and the detour still fires for frames of the new Method.\<close>

theorem stop_after_reinstall_is_lost:
  assumes "try_reinstall E hm s = Some (True, hm', s')" and "hm_method hm' \<noteq> hm_method hm" and "hm_method hm \<noteq> 0"
    and "g_hooked_methods s = [hm]" and "is_valid_pointer thread" and "\<not> g_shutdown_requested s"
    and "s2 = s'\<lparr>g_hooked_methods := [hm']\<rparr>" and "frame_get_method (vh_mem s2) fr = Some (hm_method hm')"
    and "run (hm_detour hm') fr thread slot s2 = Some s3"
    and "set_thread_state (en_jvm E) (vh_mem s3) thread thread_in_Java = Some m4"
  shows "hook_handle_stop E (hm_method hm) s2 = Some (0, s2)
     \<and> common_detour E run fr thread slot s2 = Some (Some (hm_detour hm), s3\<lparr>vh_mem := m4\<rparr>)"
proof -
  have "hm_detour hm' = hm_detour hm" "g_shutdown_requested s' = g_shutdown_requested s"
    using assms(1) try_reinstall_props [OF assms(1)]
    by (auto simp: try_reinstall_def same_registry_def split: bind_splits if_splits option.splits)
  with assms valid_not_null [OF assms(5)] show ?thesis
    by (auto simp: hook_handle_stop_def common_detour_def)
qed

text \<open>C10. Stopping a handle silences its hook: when the registry has one entry for the Method,
  no frame of that Method dispatches a detour any more, and every other hook still does what
  it did.\<close>

theorem stop_silences_the_hook:
  assumes "hook_handle_stop E mth s = Some (handle, s')" and "mth \<noteq> 0" and "distinct (map hm_method (g_hooked_methods s))"
  shows "handle = 0 \<and> (\<forall>h. (h \<in> set (g_hooked_methods s')) = (h \<in> set (g_hooked_methods s) \<and> hm_method h \<noteq> mth))
     \<and> (\<forall>run fr thread slot. frame_get_method (vh_mem s') fr = Some mth \<longrightarrow> common_detour E run fr thread slot s' = Some (None, s'))"
proof -
  have er: "set (erase_first mth hs) = {h \<in> set hs. hm_method h \<noteq> mth}" if "distinct (map hm_method hs)" for hs
  proof (use that in \<open>induction hs\<close>)
    case (Cons a hs)
    then show ?case by (cases "hm_method a = mth") (auto simp: image_iff)
  qed simp
  have "handle = 0 \<and> (s' = s \<and> (\<forall>h \<in> set (g_hooked_methods s). hm_method h \<noteq> mth))
      \<or> handle = 0 \<and> g_hooked_methods s' = erase_first mth (g_hooked_methods s)"
  proof (cases "\<forall>h \<in> set (g_hooked_methods s). hm_method h \<noteq> mth")
    case True
    with assms(1,2) show ?thesis by (simp add: hook_handle_stop_def)
  next
    case False
    then have "hook_handle_stop E mth s = do {
        m \<leftarrow> unmark_method E mth (vh_mem s);
        Some (0, s\<lparr>vh_mem := m, g_hooked_methods := erase_first mth (g_hooked_methods s)\<rparr>) }"
      using assms(2) unfolding hook_handle_stop_def by (simp only: if_False)
    with assms(1) show ?thesis by (cases "unmark_method E mth (vh_mem s)") auto
  qed
  then have "handle = 0 \<and> set (g_hooked_methods s') = {h \<in> set (g_hooked_methods s). hm_method h \<noteq> mth}"
  proof (elim disjE conjE)
    assume "g_hooked_methods s' = erase_first mth (g_hooked_methods s)" "handle = 0"
    then show ?thesis using er [OF assms(3)] by simp
  qed blast
  moreover from this have "find (\<lambda>h. hm_method h = mth) (g_hooked_methods s') = None"
    by (auto simp: find_None_iff)
  ultimately show ?thesis by (auto simp: common_detour_def)
qed

lemma stop_silences_the_hook_witness:
  "\<exists>s'. hook_handle_stop reg_demo_env 0x50000 (reg_demo ram [reg_demo_hm\<lparr>hm_method := 0x50000\<rparr>]) = Some (0, s')
     \<and> g_hooked_methods s' = []"
proof -
  let ?s = "reg_demo ram [reg_demo_hm\<lparr>hm_method := 0x50000\<rparr>]"
  obtain h s' where st: "hook_handle_stop reg_demo_env 0x50000 ?s = Some (h, s')"
    by (simp add: hook_handle_stop_def unmark_method_def set_dont_inline_def clear_no_compile_def store_le_put mem_simps apart_def)
  have "distinct (map hm_method (g_hooked_methods ?s))" by simp
  from stop_silences_the_hook [OF st _ this] have "h = 0" "\<forall>x. x \<notin> set (g_hooked_methods s')" by auto
  with st show ?thesis by (cases "g_hooked_methods s'") auto
qed

definition reg_cm_mem :: mem where
  "reg_cm_mem = image [(0x50008, 8, 0x51000)]"

lemma repaired_entry_is_never_checked_again_witness:
  "\<exists>hm' s'. verify_entry reg_demo_env (reg_demo_hm\<lparr>hm_method := 0x50000\<rparr>) (reg_demo reg_cm_mem [])
       = Some (1, hm', s') \<and> (\<forall>later. verify_entry reg_demo_env hm' later = Some (0, hm', later))"
proof -
  let ?m = reg_cm_mem and ?hm = "reg_demo_hm\<lparr>hm_method := 0x50000\<rparr>"
  have cm: "get_const_method reg_demo_jvm ?m 0x50000 = Some 0x51000"
    by (simp add: get_const_method_def reg_cm_mem_def mem_simps apart_def)
  have nm: "method_get_name reg_demo_jvm ?m 0x50000 = Some ''''"
    by (simp add: method_get_name_def cm ptr_eval cm_get_name_def cm_pool_symbol_def)
  have code: "get_code reg_demo_jvm ?m 0x50000 = Some 0"
    by (simp add: get_code_def reg_cm_mem_def mem_simps apart_def)
  have dr: "jit_drifted reg_demo_env ?m 0x50000 = Some True"
    by (simp add: jit_drifted_def code) (simp add: reg_cm_mem_def mem_simps apart_def NO_COMPILE_def)
  have v: "is_valid_pointer 0x51000" by (simp add: ptr_eval)
  have mk: "\<exists>s. mark_method reg_demo_env 0x50000 (reg_demo ?m []) = Some (True, s)"
    by (simp add: mark_method_def set_dont_inline_def arm_no_compile_def store_le_put reg_cm_mem_def mem_simps apart_def)
  then obtain s where mk: "mark_method reg_demo_env 0x50000 (reg_demo ?m []) = Some (True, s)" ..
  have "verify_entry reg_demo_env ?hm (reg_demo ?m []) = Some (1, ?hm\<lparr>hm_drift_logged := True\<rparr>, s)"
    using cm nm code dr v mk by (simp add: verify_entry_def reg_demo_hm_def)
  with repaired_entry_is_never_checked_again [OF this] cm nm dr v show ?thesis
    by (auto simp: reg_demo_hm_def)
qed

text \<open>A class A at 0x23000 with one method at 0x50000.\<close>

definition reg_class_jvm :: jvm where
  "reg_class_jvm = reg_demo_jvm\<lparr>vm_structs := vm_structs reg_demo_jvm @ [entry_named ''Klass'' ''_name'' 16,
     entry_named ''Symbol'' ''_length'' 8, entry_named ''Symbol'' ''_body'' 10, entry_named ''InstanceKlass'' ''_methods'' 0x20]\<rparr>"

definition reg_class_mem :: mem where
  "reg_class_mem = image [(0x23010, 8, 0x24000), (0x24000, 8, 1), (0x24008, 2, 1), (0x2400A, 1, 65),
     (0x23020, 8, 0x25000), (0x25000, 4, 1), (0x25008, 8, 0x50000), (0x7FFE8, 8, 0x50000)]"

definition reg_class_state :: "mem \<Rightarrow> hooked_method list \<Rightarrow> vmhook" where
  "reg_class_state m hms = (reg_demo m hms)\<lparr>vh_classes :=
     \<lparr>klass_lookup_cache = Mapping.update ''A'' 0x23000 Mapping.empty, host_classloader_klass = 0\<rparr>\<rparr>"

lemma reg_class_loads:
  "load64 reg_class_mem 0x23010 = Some 0x24000" "load64 reg_class_mem 0x24000 = Some 1"
  "load16 reg_class_mem 0x24008 = Some 1" "load64 reg_class_mem 0x23020 = Some 0x25000"
  "load32 reg_class_mem 0x25000 = Some 1" "load64 reg_class_mem 0x25008 = Some 0x50000"
  "load64 reg_class_mem 0x50008 = Some 0" "load64 reg_class_mem 0x50040 = Some 0"
  "load16 reg_class_mem 0x5002E = Some 0"
  by (simp_all add: reg_class_mem_def mem_simps apart_def)

lemma reg_class_char: "reg_class_mem 0x2400A = Some 65"
  by (simp add: reg_class_mem_def put_def ram_def)

lemma reg_class_find: "find_class reg_class_jvm jf reg_class_mem ''A''
    \<lparr>klass_lookup_cache = Mapping.update ''A'' 0x23000 Mapping.empty, host_classloader_klass = 0\<rparr>
  = Some (0x23000, \<lparr>klass_lookup_cache = Mapping.update ''A'' 0x23000 Mapping.empty, host_classloader_klass = 0\<rparr>)"
proof -
  have "klass_get_name reg_class_jvm reg_class_mem 0x23000 = 0x24000"
    by (simp add: klass_get_name_def reg_class_jvm_def reg_demo_jvm_def iterate_struct_entries_def entry_named_def
        safe_read_pointer_aligned ptr_eval Let_def reg_class_loads)
  moreover have "symbol_to_string reg_class_jvm reg_class_mem 0x24000 = Some ''A''"
    by (simp add: symbol_to_string_def reg_class_jvm_def reg_demo_jvm_def iterate_struct_entries_def entry_named_def
        safe_read_pointer_aligned ptr_eval chars_of_bytes_def char_of_def bit_0 Let_def reg_class_loads reg_class_char)
  ultimately show ?thesis by (simp add: find_class_def cached_klass_ok_def ptr_eval)
qed

lemma reg_class_method: "find_method reg_class_jvm reg_class_mem 0x23000 '''' '''' = Some (Some 0x50000)"
proof -
  have "method_get_name reg_class_jvm reg_class_mem 0x50000 = Some ''''"
    by (simp add: method_get_name_def get_const_method_def reg_class_jvm_def reg_demo_jvm_def iterate_struct_entries_def
        entry_named_def ptr_eval reg_class_loads)
  moreover have "klass_methods_array reg_class_jvm reg_class_mem 0x23000 = Some 0x25000"
    by (simp add: klass_methods_array_def reg_class_jvm_def reg_demo_jvm_def iterate_struct_entries_def entry_named_def
        ptr_eval reg_class_loads)
  ultimately show ?thesis
    by (simp add: find_method_def get_methods_count_def get_methods_ptr_def reg_class_loads ptr_eval)
qed

definition reg_class_env :: env where
  "reg_class_env = reg_demo_env\<lparr>en_jvm := reg_class_jvm\<rparr>"

lemma reg_class_fields: "get_flags reg_class_jvm p = p + 0x2E" "get_access_flags reg_class_jvm p = p + 0x28"
  "vm_struct reg_class_jvm ''Method'' ''_code'' = Some (entry_named ''Method'' ''_code'' 0x40)"
  "vm_struct reg_class_jvm ''JavaThread'' ''_thread_state'' = Some (entry_named ''JavaThread'' ''_thread_state'' 0x100)"
  by (simp_all add: get_flags_def get_access_flags_def reg_class_jvm_def reg_demo_jvm_def iterate_struct_entries_def entry_named_def)

lemma reg_class_reinstall:
  "\<exists>s'. try_reinstall reg_class_env (reg_demo_hm\<lparr>hm_method := 0x70000, hm_expected_method_name := ''''\<rparr>)
       (reg_class_state reg_class_mem hms)
     = Some (True, reg_demo_hm\<lparr>hm_method := 0x50000, hm_expected_method_name := ''''\<rparr>, s')
     \<and> (\<forall>a n. mapped (vh_mem s') a n) \<and> load64 (vh_mem s') 0x7FFE8 = Some 0x50000"
proof -
  have tot: "mapped reg_class_mem a n" for a n by (simp add: reg_class_mem_def)
  have l: "load64 reg_class_mem 0x7FFE8 = Some 0x50000" by (simp add: reg_class_mem_def mem_simps apart_def)
  have c: "vh_find_class reg_class_env ''A'' (reg_class_state reg_class_mem hms) = Some (0x23000, reg_class_state reg_class_mem hms)"
    using reg_class_find [of "en_jni_find reg_class_env"]
    by (simp add: vh_find_class_def reg_class_env_def reg_class_state_def reg_demo_def)
  have af: "load32 reg_class_mem 0x50028 = Some 0" by (simp add: reg_class_mem_def mem_simps apart_def)
  let ?m = "put 0x50028 (le_of_word 4 (0 OR NO_COMPILE)) (put 0x5002E (le_of_word 2 (0 OR dont_inline_bit)) reg_class_mem)"
  have mk: "mark_method reg_class_env 0x50000 (reg_class_state reg_class_mem hms) = Some (True, reg_class_state ?m hms)"
    by (simp add: mark_method_def set_dont_inline_def arm_no_compile_def store_le_put reg_class_env_def reg_class_fields
        reg_class_state_def reg_class_loads af tot mem_simps apart_def)
      (simp add: reg_demo_def)
  have code: "get_code reg_class_jvm ?m 0x50000 = Some 0"
    by (simp add: get_code_def reg_class_fields reg_class_loads mem_simps apart_def)
  have "try_reinstall reg_class_env (reg_demo_hm\<lparr>hm_method := 0x70000, hm_expected_method_name := ''''\<rparr>)
       (reg_class_state reg_class_mem hms)
     = Some (True, reg_demo_hm\<lparr>hm_method := 0x50000, hm_expected_method_name := ''''\<rparr>, reg_class_state ?m hms)"
    using c mk code reg_class_method
    by (simp add: try_reinstall_def reg_demo_hm_def reg_class_env_def reg_class_state_def)
  moreover have "load64 ?m 0x7FFE8 = Some 0x50000" by (simp add: mem_simps apart_def l)
  ultimately show ?thesis using tot by (auto simp: reg_class_state_def)
qed

lemma stop_after_reinstall_is_lost_witness:
  "\<exists>s2 s3. g_hooked_methods s2 \<noteq> [] \<and> hook_handle_stop reg_class_env 0x70000 s2 = Some (0, s2)
     \<and> common_detour reg_class_env (\<lambda>d fr th sl s. Some s) 0x80000 0x90000 0 s2 = Some (Some 7, s3)"
proof -
  let ?hm = "reg_demo_hm\<lparr>hm_method := 0x70000, hm_expected_method_name := ''''\<rparr>"
  let ?hm' = "reg_demo_hm\<lparr>hm_method := 0x50000, hm_expected_method_name := ''''\<rparr>"
  obtain s' where r: "try_reinstall reg_class_env ?hm (reg_class_state reg_class_mem [?hm]) = Some (True, ?hm', s')"
    and tot: "\<forall>a n. mapped (vh_mem s') a n" and fr: "load64 (vh_mem s') 0x7FFE8 = Some 0x50000"
    using reg_class_reinstall by blast
  let ?s2 = "s'\<lparr>g_hooked_methods := [?hm']\<rparr>"
  have f: "frame_get_method (vh_mem ?s2) 0x80000 = Some (hm_method ?hm')"
    using fr by (simp add: frame_get_method_def)
  obtain m4 where m4: "set_thread_state (en_jvm reg_class_env) (vh_mem ?s2) 0x90000 thread_in_Java = Some m4"
    using tot by (simp add: set_thread_state_def reg_class_env_def reg_class_fields store_le_put)
  have st: "g_hooked_methods (reg_class_state reg_class_mem [?hm]) = [?hm]" "\<not> g_shutdown_requested (reg_class_state reg_class_mem [?hm])"
    by (simp_all add: reg_class_state_def)
  have th: "is_valid_pointer 0x90000" by (simp add: ptr_eval)
  have run: "(\<lambda>d fr th sl s. Some s) (hm_detour ?hm') 0x80000 0x90000 0 ?s2 = Some ?s2" by simp
  note th = stop_after_reinstall_is_lost [where run = "\<lambda>d fr th sl s. Some s" and slot = 0, OF r _ _ st(1) th st(2) refl f run m4]
  show ?thesis
    by (rule exI [of _ ?s2], rule exI [of _ "?s2\<lparr>vh_mem := m4\<rparr>"]) (use th in \<open>simp add: reg_demo_hm_def\<close>)
qed

lemma or_and_not: "(x OR y) AND NOT y = x AND NOT y" for x y :: "'a::len word"
  by (rule bit_word_eqI) (auto simp: bit_simps)

text \<open>Hooking marks a method against the JIT and stopping or shutting down takes exactly those
  marks away: the four NO\_COMPILE bits and the dont-inline bit are set by the first and cleared
  by the second, and every other bit of the two flag words keeps its value.\<close>

theorem mark_unmark_flags:
  assumes "flag_fields (en_jvm E) mth" and "mark_method E mth s = Some (ok, s')" and "unmark_method E mth (vh_mem s') = Some m"
    and "load32 (vh_mem s) (get_access_flags (en_jvm E) mth) = Some a" and "load16 (vh_mem s) (get_flags (en_jvm E) mth) = Some f"
  shows "ok \<and> load32 (vh_mem s') (get_access_flags (en_jvm E) mth) = Some (a OR NO_COMPILE)
     \<and> load16 (vh_mem s') (get_flags (en_jvm E) mth) = Some (f OR dont_inline_bit)
     \<and> load32 m (get_access_flags (en_jvm E) mth) = Some (a AND NOT NO_COMPILE)
     \<and> load16 m (get_flags (en_jvm E) mth) = Some (f AND NOT dont_inline_bit)"
  using mark_flags [OF assms(1,2,4,5)] unmark_flags [OF assms(1,3)] by (auto simp: or_and_not)

lemma mark_unmark_flags_witness:
  "\<exists>s' m. mark_method reg_demo_env 0x50000 (reg_demo ram []) = Some (True, s')
     \<and> unmark_method reg_demo_env 0x50000 (vh_mem s') = Some m
     \<and> load32 (vh_mem s') 0x50028 = Some NO_COMPILE \<and> load32 m 0x50028 = Some 0"
proof -
  have mk: "mark_method reg_demo_env 0x50000 (reg_demo ram []) = Some (True, reg_demo (reg_marked ram) [])"
    by (simp add: mark_method_def set_dont_inline_def arm_no_compile_def store_le_put reg_marked_def mem_simps apart_def)
  have "\<exists>m. unmark_method reg_demo_env 0x50000 (vh_mem (reg_demo (reg_marked ram) [])) = Some m"
    by (simp add: unmark_method_def set_dont_inline_def clear_no_compile_def store_le_put reg_marked_def mem_simps apart_def)
  then obtain m where un: "unmark_method reg_demo_env 0x50000 (vh_mem (reg_demo (reg_marked ram) [])) = Some m" ..
  have fl: "flag_fields (en_jvm reg_demo_env) 0x50000" by (simp add: flag_fields_def apart_def)
  have "load32 (vh_mem (reg_demo ram [])) (get_access_flags (en_jvm reg_demo_env) 0x50000) = Some 0"
    "load16 (vh_mem (reg_demo ram [])) (get_flags (en_jvm reg_demo_env) 0x50000) = Some 0"
    by (simp_all add: load_le_ram)
  from mark_unmark_flags [OF fl mk un this] mk un show ?thesis by auto
qed

text \<open>Deoptimising a compiled method makes it interpreted: its compiled code is gone, calls
  from the interpreter enter the i2i stub and calls from compiled code enter the c2i adapter.
  A method the pass skips or cannot recover keeps its memory unchanged.\<close>

theorem deopt_method_interpreted:
  assumes "entry_fields J mth" and "deopt_method J p cn mth (m, d) = Some (m', d')"
  shows "(m' = m \<and> dc_deoptimized d' = dc_deoptimized d)
     \<or> dc_deoptimized d' = dc_deoptimized d + 1 \<and> p cn mth
       \<and> (\<exists>code i2i c2i. get_code J m mth = Some code \<and> is_valid_pointer code
            \<and> get_i2i_entry J m mth = Some i2i \<and> i2i \<noteq> 0 \<and> is_valid_pointer c2i \<and> interpreted J m' mth i2i c2i)"
  by (rule deopt_method_effect [OF assms])

definition deopt_demo_mem :: mem where
  "deopt_demo_mem = image [(0x50040, 8, 0x61000), (0x50030, 8, 0x60000), (0x50050, 8, 0x62000), (0x62008, 8, 0x63000)]"

lemma deopt_method_interpreted_witness:
  "\<exists>m' d' i2i c2i. deopt_method reg_demo_jvm (\<lambda>_ _. True) ''A'' 0x50000
       (deopt_demo_mem, \<lparr>dc_deoptimized = 0, dc_skipped = 0, dc_cached_offset = 0\<rparr>) = Some (m', d')
     \<and> dc_deoptimized d' = 1 \<and> interpreted reg_demo_jvm m' 0x50000 i2i c2i"
proof -
  let ?d = "\<lparr>dc_deoptimized = 0, dc_skipped = 0, dc_cached_offset = 0\<rparr>"
  have l: "load64 deopt_demo_mem 0x50040 = Some 0x61000" "load64 deopt_demo_mem 0x50030 = Some 0x60000"
    "load64 deopt_demo_mem 0x50050 = Some 0x62000" "load64 deopt_demo_mem 0x62008 = Some 0x63000"
    "mapped deopt_demo_mem a n" for a n
    by (simp_all add: deopt_demo_mem_def mem_simps apart_def)
  have ef: "entry_fields reg_demo_jvm 0x50000" by (simp add: entry_fields_def apart_def)
  obtain m' d' where r: "deopt_method reg_demo_jvm (\<lambda>_ _. True) ''A'' 0x50000 (deopt_demo_mem, ?d) = Some (m', d')"
    and c: "dc_deoptimized d' = 1"
    by (simp add: deopt_method_def get_code_def get_i2i_entry_def get_adapter_def get_c2i_entry_from_adapter_def
        set_from_interpreted_entry_def set_from_compiled_entry_def set_code_def store_le_put l ptr_eval Let_def)
  from deopt_method_interpreted [OF ef r] r c show ?thesis by auto
qed

end
