(* ===== verification/Java_Heap.thy ===== *)
theory Java_Heap
  imports Klass_Fields Compressed_Oops Java_Threads
begin

text \<open>
  Objects and arrays on the Java heap: \<open>make_java_object\<close> (vmhook.hpp line 11188),
  \<open>make_java_array\<close> (11298), \<open>array_length\<close>, \<open>get_array_element\<close> and \<open>set_array_element\<close> (11542 to
  11605) and the heap scan \<open>for_each_instance\<close> (6781).

  The state these operations thread through is the record \<open>heap\<close>: memory, the thread globals,
  and the two lookup caches. The JNI lookup of a class is a parameter. An array element type
  is a word type with its size in bytes.
\<close>

record heap =
  hp_mem :: mem
  hp_threads :: thread_globals
  hp_classes :: class_cache
  hp_fields :: field_cache

record heap_env =
  he_jvm :: jvm
  he_invocation :: invocation
  he_jni_find :: "string \<Rightarrow> addr"
  he_jni_array_klass :: "string \<Rightarrow> addr"

section \<open>Allocating objects\<close>

text \<open>The walk over the thread list, with the visits left of 256.\<close>

fun allocate_in_list ::
  "jvm \<Rightarrow> u64 \<Rightarrow> nat \<Rightarrow> addr \<Rightarrow> thread_globals \<times> mem \<Rightarrow> (addr \<times> thread_globals \<times> mem) option" where
  "allocate_in_list J object_size 0 candidate s = Some (0, s)"
| "allocate_in_list J object_size (Suc n) candidate (g, m) =
     (if \<not> is_valid_pointer candidate then Some (0, g, m)
      else do {
        (obj, m) \<leftarrow> allocate_tlab J m candidate object_size;
        if obj \<noteq> 0 then Some (obj, g\<lparr>last_java_thread := candidate\<rparr>, m)
        else do { nx \<leftarrow> get_next J m candidate; allocate_in_list J object_size n nx (g, m) } })"

definition allocate_object :: "jvm \<Rightarrow> u64 \<Rightarrow> thread_globals \<times> mem \<Rightarrow> (addr \<times> thread_globals \<times> mem) option" where
  "allocate_object J object_size s = do {
     (thread, g) \<leftarrow> find_allocation_thread J (snd s) (fst s);
     (obj, m) \<leftarrow> (if is_valid_pointer thread then allocate_tlab J (snd s) thread object_size else Some (0, snd s));
     (obj, s) \<leftarrow> (if obj = 0 then do {
                  head \<leftarrow> find_any_java_thread J m;
                  allocate_in_list J object_size 256 head (g, m) }
                else Some (obj, g, m));
     if obj = 0 then allocate_from_threads_list J object_size s else Some (obj, s) }"

definition mark_offset :: "jvm \<Rightarrow> u64" where
  "mark_offset J =
     (case vm_struct J ''oopDesc'' ''_mark'' of Some e \<Rightarrow> se_offset e
      | None \<Rightarrow> (case vm_struct J ''oopDesc'' ''_markWord'' of Some e \<Rightarrow> se_offset e | None \<Rightarrow> 0))"

definition stamp_klass :: "jvm \<Rightarrow> mem \<Rightarrow> addr \<Rightarrow> addr \<Rightarrow> mem option" where
  "stamp_klass J m obj k =
     (case vm_struct J ''oopDesc'' ''_metadata._compressed_klass'' of
        Some e \<Rightarrow> do { c \<leftarrow> encode_klass_pointer J m k; store32 m (obj + se_offset e) c }
      | None \<Rightarrow> (case vm_struct J ''oopDesc'' ''_metadata._klass'' of
          Some e \<Rightarrow> store64 m (obj + se_offset e) k
        | None \<Rightarrow> do { c \<leftarrow> encode_klass_pointer J m k; store32 m (obj + 8) c }))"

definition stamp_header :: "jvm \<Rightarrow> mem \<Rightarrow> addr \<Rightarrow> addr \<Rightarrow> mem option" where
  "stamp_header J m obj k = do {
     proto \<leftarrow> get_prototype_header J m k;
     m \<leftarrow> store64 m (obj + mark_offset J) proto;
     stamp_klass J m obj k }"

definition object_size :: "u64 \<Rightarrow> u64" where
  "object_size requested = (requested + 7) AND NOT 7"

definition make_java_object :: "heap_env \<Rightarrow> addr \<Rightarrow> u64 \<Rightarrow> heap \<Rightarrow> (addr \<times> heap) option" where
  "make_java_object E k requested_size h = do {
     (ok, g, m) \<leftarrow> ensure_current_java_thread (he_jvm E) (he_invocation E) (hp_threads h, hp_mem h);
     let h = h\<lparr>hp_threads := g, hp_mem := m\<rparr>;
     if \<not> ok then Some (0, h)
     else if k = 0 \<or> requested_size = 0 then Some (0, h)
     else do {
       (obj, g, m) \<leftarrow> allocate_object (he_jvm E) (object_size requested_size) (g, m);
       if obj = 0 then Some (0, h\<lparr>hp_threads := g, hp_mem := m\<rparr>)
       else do {
         m \<leftarrow> store_bytes m obj (replicate (unat (object_size requested_size)) 0);
         m \<leftarrow> stamp_header (he_jvm E) m obj k;
         Some (obj, h\<lparr>hp_threads := g, hp_mem := m\<rparr>) } } }"

section \<open>Arrays\<close>

definition array_header_size :: u64 where "array_header_size = 16"

definition heap_find_class :: "heap_env \<Rightarrow> string \<Rightarrow> heap \<Rightarrow> (addr \<times> heap) option" where
  "heap_find_class E cn h = do {
     (k, c) \<leftarrow> find_class (he_jvm E) (he_jni_find E) (hp_mem h) cn (hp_classes h);
     Some (k, h\<lparr>hp_classes := c\<rparr>) }"

text \<open>\<open>length\<close> is an \<open>int32_t\<close>; \<open>he_jni_array_klass\<close> is the klass of the mirror that JNI FindClass gives, or null.\<close>

definition make_java_array :: "heap_env \<Rightarrow> string \<Rightarrow> u32 \<Rightarrow> u64 \<Rightarrow> heap \<Rightarrow> (addr \<times> heap) option" where
  "make_java_array E class_name len element_size h =
     (if sint len < 0 then Some (0, h)
      else do {
        (k, h) \<leftarrow> heap_find_class E class_name h;
        let array_klass = (if k = 0 \<and> class_name \<noteq> [] \<and> hd class_name = CHR ''['' then he_jni_array_klass E class_name else k);
        if array_klass = 0 then Some (0, h)
        else do {
          (arr, h) \<leftarrow> make_java_object E array_klass (array_header_size + scast len * element_size) h;
          if arr = 0 then Some (0, h)
          else do { m \<leftarrow> store32 (hp_mem h) (arr + 12) len; Some (arr, h\<lparr>hp_mem := m\<rparr>) } } })"

definition array_length :: "mem \<Rightarrow> addr \<Rightarrow> u32 option" where
  "array_length m arr = (if \<not> is_valid_pointer arr then Some 0 else load32 m (arr + 12))"

text \<open>The offset of an element is computed in \<open>int32_t\<close>.\<close>

definition element_address :: "nat \<Rightarrow> addr \<Rightarrow> u32 \<Rightarrow> addr" where
  "element_address n arr index = arr + 16 + scast (index * of_nat n)"

definition get_array_element :: "nat \<Rightarrow> mem \<Rightarrow> addr \<Rightarrow> u32 \<Rightarrow> 'a::len word option" where
  "get_array_element n m arr index =
     (if \<not> is_valid_pointer arr then Some 0
      else do {
        len \<leftarrow> array_length m arr;
        if sint index < 0 \<or> sint len \<le> sint index then Some 0
        else load_le n m (element_address n arr index) })"

definition set_array_element :: "nat \<Rightarrow> mem \<Rightarrow> addr \<Rightarrow> u32 \<Rightarrow> 'a::len word \<Rightarrow> mem option" where
  "set_array_element n m arr index v =
     (if \<not> is_valid_pointer arr then Some m
      else do {
        len \<leftarrow> array_length m arr;
        if sint index < 0 \<or> sint len \<le> sint index then Some m
        else store_le n m (element_address n arr index) v })"

section \<open>Scanning the heap for instances\<close>

text \<open>The visitor gets the address of the object; an exception it throws is caught.\<close>

type_synonym 'a instance_visit = "addr \<Rightarrow> mem \<times> 'a \<Rightarrow> (mem \<times> 'a) option"

text \<open>
  One chunk: \<open>buffer\<close> is the copy of the bytes at \<open>p\<close>, \<open>visits\<close> counts the reports so far.
\<close>

function scan_chunk ::
  "jvm \<Rightarrow> 'a instance_visit \<Rightarrow> addr \<Rightarrow> nat \<Rightarrow> addr \<Rightarrow> u8 list \<Rightarrow> nat \<Rightarrow> nat \<Rightarrow> mem \<times> 'a \<Rightarrow> (nat \<times> mem \<times> 'a) option" where
  "scan_chunk J visit target max_visits p buffer off visits s =
     (if off + 12 \<le> length buffer \<and> visits < max_visits then do {
        let narrow = (word_of_le (take 4 (drop (off + 8) buffer)) :: u32);
        decoded \<leftarrow> decode_klass_pointer J (fst s) narrow;
        if narrow = 0 \<or> decoded \<noteq> target then scan_chunk J visit target max_visits p buffer (off + 8) visits s
        else do {
          s \<leftarrow> visit (p + of_nat off) s;
          scan_chunk J visit target max_visits p buffer (off + 8) (visits + 1) s } }
      else Some (visits, s))"
  by pat_completeness auto
termination by (relation "measure (\<lambda>(J, visit, target, mx, p, buffer, off, visits, s). length buffer - off)") auto

declare scan_chunk.simps [simp del]

definition chunk_size :: nat where "chunk_size = 4096"

partial_function (option) scan_heap ::
  "jvm \<Rightarrow> 'a instance_visit \<Rightarrow> addr \<Rightarrow> nat \<Rightarrow> addr \<Rightarrow> addr \<Rightarrow> nat \<Rightarrow> mem \<times> 'a \<Rightarrow> (nat \<times> mem \<times> 'a) option" where
  [code]: "scan_heap J visit target max_visits scan_end p visits s =
     (if p < scan_end \<and> visits < max_visits then
        (case safe_read (fst s) p (min chunk_size (unat (scan_end - p))) of
           None \<Rightarrow> scan_heap J visit target max_visits scan_end (p + of_nat chunk_size) visits s
         | Some buffer \<Rightarrow> do {
             (visits, s) \<leftarrow> scan_chunk J visit target max_visits p buffer 0 visits s;
             scan_heap J visit target max_visits scan_end (p + of_nat chunk_size) visits s })
      else Some (visits, s))"

text \<open>The reserved region of the collected heap: its start and its size in bytes.\<close>

definition heap_region :: "jvm \<Rightarrow> mem \<Rightarrow> (addr \<times> u64) option option" where
  "heap_region J m =
     (case (vm_struct J ''Universe'' ''_collectedHeap'', vm_struct J ''CollectedHeap'' ''_reserved'',
            vm_struct J ''MemRegion'' ''_start'', vm_struct J ''MemRegion'' ''_word_size'') of
        (Some he, Some re, Some se, Some we) \<Rightarrow>
          if se_address he = 0 then Some None
          else do {
            collected_heap \<leftarrow> load64 m (se_address he);
            if \<not> is_valid_pointer collected_heap then Some None
            else do {
              let memregion = collected_heap + se_offset re;
              heap_start \<leftarrow> load64 m (memregion + se_offset se);
              heap_word_count \<leftarrow> load64 m (memregion + se_offset we);
              let heap_byte_size = heap_word_count * 8;
              if \<not> is_valid_pointer heap_start \<or> heap_byte_size = 0 then Some None
              else Some (Some (heap_start, heap_byte_size)) } }
      | _ \<Rightarrow> Some None)"

text \<open>\<open>class_name\<close> is what the type map has for the wrapper type.\<close>

definition for_each_instance ::
  "heap_env \<Rightarrow> 'a instance_visit \<Rightarrow> string option \<Rightarrow> nat \<Rightarrow> heap \<Rightarrow> 'a \<Rightarrow> (nat \<times> heap \<times> 'a) option" where
  "for_each_instance E visit class_name max_visits h a =
     (case class_name of None \<Rightarrow> Some (0, h, a)
      | Some cn \<Rightarrow> do {
          (target, h) \<leftarrow> heap_find_class E cn h;
          if target = 0 then Some (0, h, a)
          else do {
            r \<leftarrow> heap_region (he_jvm E) (hp_mem h);
            case r of None \<Rightarrow> Some (0, h, a)
            | Some (heap_start, heap_byte_size) \<Rightarrow> do {
                (visits, m, a) \<leftarrow> scan_heap (he_jvm E) visit target max_visits (heap_start + heap_byte_size)
                                   heap_start 0 (hp_mem h, a);
                Some (visits, h\<lparr>hp_mem := m\<rparr>, a) } } })"

section \<open>The contract of an indexed store\<close>

text \<open>
  \<open>sound m a n\<close>: the store at \<open>a\<close> has \<open>n\<close> elements and lies within \<open>extent n\<close> mapped bytes.
  \<open>fill\<close> and \<open>elements\<close> are the loops that write and read consecutive elements.
\<close>

fun fill :: "(mem \<Rightarrow> addr \<Rightarrow> u32 \<Rightarrow> 'v \<Rightarrow> mem option) \<Rightarrow> mem \<Rightarrow> addr \<Rightarrow> nat \<Rightarrow> 'v list \<Rightarrow> mem option" where
  "fill set_at m a i [] = Some m"
| "fill set_at m a i (v # vs) = do { m \<leftarrow> set_at m a (of_nat i) v; fill set_at m a (Suc i) vs }"

fun elements :: "(mem \<Rightarrow> addr \<Rightarrow> u32 \<Rightarrow> 'v option) \<Rightarrow> mem \<Rightarrow> addr \<Rightarrow> nat \<Rightarrow> nat \<Rightarrow> 'v list option" where
  "elements get_at m a i 0 = Some []"
| "elements get_at m a i (Suc n) = do {
     v \<leftarrow> get_at m a (of_nat i); vs \<leftarrow> elements get_at m a (Suc i) n; Some (v # vs) }"

locale indexed_store =
  fixes get_at :: "mem \<Rightarrow> addr \<Rightarrow> u32 \<Rightarrow> 'v option"
    and set_at :: "mem \<Rightarrow> addr \<Rightarrow> u32 \<Rightarrow> 'v \<Rightarrow> mem option"
    and sound :: "mem \<Rightarrow> addr \<Rightarrow> nat \<Rightarrow> bool"
    and extent :: "nat \<Rightarrow> nat"
  assumes set_total: "sound m a n \<Longrightarrow> i < n \<Longrightarrow> \<exists>m'. set_at m a (of_nat i) v = Some m'"
    and set_sound: "sound m a n \<Longrightarrow> i < n \<Longrightarrow> set_at m a (of_nat i) v = Some m' \<Longrightarrow> sound m' a n"
    and get_same: "sound m a n \<Longrightarrow> i < n \<Longrightarrow> set_at m a (of_nat i) v = Some m' \<Longrightarrow> get_at m' a (of_nat i) = Some v"
    and get_other: "sound m a n \<Longrightarrow> i < n \<Longrightarrow> j < n \<Longrightarrow> i \<noteq> j \<Longrightarrow> set_at m a (of_nat i) v = Some m' \<Longrightarrow>
          get_at m' a (of_nat j) = get_at m a (of_nat j)"
    and set_frame: "sound m a n \<Longrightarrow> i < n \<Longrightarrow> set_at m a (of_nat i) v = Some m' \<Longrightarrow> apart a (extent n) b k \<Longrightarrow>
          load_bytes m' b k = load_bytes m b k"
begin

lemma fill_spec:
  assumes "sound m a n" and "i + length vs \<le> n"
  shows "\<exists>m'. fill set_at m a i vs = Some m' \<and> sound m' a n
     \<and> (\<forall>j < n. get_at m' a (of_nat j) = (if i \<le> j \<and> j < i + length vs then Some (vs ! (j - i)) else get_at m a (of_nat j)))
     \<and> (\<forall>b k. apart a (extent n) b k \<longrightarrow> load_bytes m' b k = load_bytes m b k)"
  using assms
proof (induction vs arbitrary: m i)
  case Nil
  then show ?case by auto
next
  case (Cons v vs)
  then have i: "i < n" "Suc i + length vs \<le> n" by auto
  obtain m1 where m1: "set_at m a (of_nat i) v = Some m1" using set_total [OF Cons.prems(1) i(1)] by blast
  obtain m2 where m2: "fill set_at m1 a (Suc i) vs = Some m2" "sound m2 a n"
    "\<And>j. j < n \<Longrightarrow> get_at m2 a (of_nat j) = (if Suc i \<le> j \<and> j < Suc i + length vs then Some (vs ! (j - Suc i)) else get_at m1 a (of_nat j))"
    "\<And>b k. apart a (extent n) b k \<Longrightarrow> load_bytes m2 b k = load_bytes m1 b k"
    using Cons.IH [OF set_sound [OF Cons.prems(1) i(1) m1] i(2)] by blast
  have "get_at m2 a (of_nat j) = (if i \<le> j \<and> j < i + length (v # vs) then Some ((v # vs) ! (j - i)) else get_at m a (of_nat j))"
    if j: "j < n" for j
  proof (cases "j = i")
    case True
    with m2(3) [OF j] get_same [OF Cons.prems(1) i(1) m1] show ?thesis by simp
  next
    case False
    with m2(3) [OF j] get_other [OF Cons.prems(1) i(1) j _ m1] show ?thesis by (auto simp: nth_Cons' Suc_le_eq)
  qed
  with m1 m2(1,2,4) set_frame [OF Cons.prems(1) i(1) m1] show ?case by auto
qed

lemma elements_Some:
  "(\<And>j. j < k \<Longrightarrow> get_at m a (of_nat (i + j)) = Some (vs ! j)) \<Longrightarrow> length vs = k \<Longrightarrow> elements get_at m a i k = Some vs"
proof (induction k arbitrary: i vs)
  case (Suc k)
  then obtain v ws where vs: "vs = v # ws" by (cases vs) auto
  have "get_at m a (of_nat i) = Some v" using Suc.prems(1) [of 0] vs by simp
  moreover have "elements get_at m a (Suc i) k = Some ws"
    by (rule Suc.IH) (use Suc.prems(1) [of "Suc j" for j] Suc.prems(2) vs in auto)
  ultimately show ?case by (simp add: vs)
qed simp

lemma elements_fill:
  assumes "sound m a n" and "i + length vs \<le> n" and "fill set_at m a i vs = Some m'"
  shows "elements get_at m' a i (length vs) = Some vs"
proof -
  have "\<forall>j < n. get_at m' a (of_nat j) = (if i \<le> j \<and> j < i + length vs then Some (vs ! (j - i)) else get_at m a (of_nat j))"
    using fill_spec [OF assms(1,2)] assms(3) by auto
  then show ?thesis using assms(2) by (intro elements_Some) (auto simp del: of_nat_add)
qed

end

section \<open>Java arrays are indexed stores\<close>

definition array_sound :: "nat \<Rightarrow> mem \<Rightarrow> addr \<Rightarrow> nat \<Rightarrow> bool" where
  "array_sound sz m a n \<longleftrightarrow> is_valid_pointer a \<and> load32 m (a + 12) = Some (of_nat n) \<and> mapped m a (16 + n * sz)
     \<and> n * sz < 2 ^ 31 \<and> n < 2 ^ 31 \<and> 0 < sz \<and> sz \<le> 8"

lemma sint_of_nat32: "n < 2 ^ 31 \<Longrightarrow> sint (of_nat n :: u32) = int n"
  by (simp add: signed_of_nat signed_take_bit_int_eq_self)

lemma scast_of_nat32: "n < 2 ^ 31 \<Longrightarrow> (scast (of_nat n :: u32) :: u64) = of_nat n"
proof -
  assume n: "n < 2 ^ 31"
  have "(scast (of_nat n :: u32) :: u64) = word_of_int (sint (of_nat n :: u32))" by (rule scast_eq)
  with sint_of_nat32 [OF n] show ?thesis by simp
qed

lemma element_address_nat:
  "n * sz < 2 ^ 31 \<Longrightarrow> i < n \<Longrightarrow> element_address sz a (of_nat i) = a + of_nat (16 + i * sz)"
proof -
  assume a: "n * sz < 2 ^ 31" "i < n"
  then have "i * sz < 2 ^ 31" using mult_le_mono1 [of i n sz] by linarith
  from scast_of_nat32 [OF this] show ?thesis by (simp add: element_address_def add.assoc)
qed

lemma store_load_bytes:
  "store_le n m a v = Some m' \<Longrightarrow> n \<le> 2 ^ 64 \<Longrightarrow> apart a n b k \<Longrightarrow> load_bytes m' b k = load_bytes m b k"
  by (auto simp: store_le_put load_bytes_put_apart split: if_splits)

lemma apart_inside:
  assumes "i + n \<le> j" and "j + k \<le> 2 ^ 64" and "0 < n" and "0 < k"
  shows "apart (a + of_nat i) n (a + of_nat j) k"
proof -
  obtain d where d: "j = i + d" using assms(1) le_iff_add [of i j] by auto
  have u: "unat (of_nat d :: addr) = d" using assms d by (simp add: unat_of_nat take_bit_nat_eq_self)
  have "(of_nat (2 ^ 64 - d) :: addr) = of_nat (2 ^ 64) - of_nat d" using assms d by (intro of_nat_diff) simp
  also have "(of_nat (2 ^ 64) :: addr) = 0" by simp
  finally have "unat (- (of_nat d :: addr)) = unat (of_nat (2 ^ 64 - d) :: addr)" by simp
  then have m: "unat (- (of_nat d :: addr)) = 2 ^ 64 - d"
    using assms d by (simp add: unat_of_nat take_bit_nat_eq_self)
  have "(a + of_nat j) - (a + of_nat i) = of_nat d" "(a + of_nat i) - (a + of_nat j) = - of_nat d"
    by (simp_all add: d)
  with u m assms d show ?thesis by (simp only: apart_def) auto
qed

lemma array_sound_access:
  assumes "array_sound sz m a n" and "i < n"
  shows "get_array_element sz m a (of_nat i) = load_le sz m (a + of_nat (16 + i * sz))"
    and "set_array_element sz m a (of_nat i) v = store_le sz m (a + of_nat (16 + i * sz)) v"
    and "mapped m (a + of_nat (16 + i * sz)) sz" and "16 + i * sz + sz \<le> 16 + n * sz"
proof -
  have n: "n < 2 ^ 31" "i < 2 ^ 31" "n * sz < 2 ^ 31" using assms by (auto simp: array_sound_def)
  have "\<not> sint (of_nat i :: u32) < 0" "\<not> sint (of_nat n :: u32) \<le> sint (of_nat i :: u32)"
    using assms(2) n by (simp_all add: sint_of_nat32)
  then show "get_array_element sz m a (of_nat i) = load_le sz m (a + of_nat (16 + i * sz))"
    "set_array_element sz m a (of_nat i) v = store_le sz m (a + of_nat (16 + i * sz)) v"
    using assms(1) by (simp_all only: get_array_element_def set_array_element_def array_length_def array_sound_def
        element_address_nat [OF n(3) assms(2)] if_True if_False simp_thms bind.bind_lunit)
  have le: "i * sz + sz \<le> n * sz" using assms(2) mult_le_mono1 [of "Suc i" n sz] by simp
  then show "16 + i * sz + sz \<le> 16 + n * sz" by simp
  then show "mapped m (a + of_nat (16 + i * sz)) sz"
    using assms(1) mapped_add [of m a "16 + n * sz" "16 + i * sz" sz] by (simp add: array_sound_def)
qed

lemma array_slots_apart:
  assumes "array_sound sz m a n" and "i < n" and "j < n" and "i \<noteq> j"
  shows "apart (a + of_nat (16 + i * sz)) sz (a + of_nat (16 + j * sz)) sz"
proof -
  have sz: "0 < sz" "sz \<le> 8" "n * sz < 2 ^ 31" using assms(1) by (auto simp: array_sound_def)
  have bd: "16 + x * sz + sz \<le> 2 ^ 64" if "x < n" for x
    using array_sound_access(4) [OF assms(1) that] sz by simp
  have step: "16 + x * sz + sz \<le> 16 + y * sz" if "x < y" for x y
    using that mult_le_mono1 [of "Suc x" y sz] by simp
  show ?thesis
  proof (cases "i < j")
    case True
    from apart_inside [OF step [OF True] bd [OF assms(3)] sz(1) sz(1)] show ?thesis .
  next
    case False
    with assms(4) have "j < i" by simp
    from apart_sym [OF apart_inside [OF step [OF this] bd [OF assms(2)] sz(1) sz(1)]] show ?thesis .
  qed
qed

lemma array_store_laws:
  assumes "LENGTH('a) \<le> 8 * sz"
  shows "indexed_store (get_array_element sz :: mem \<Rightarrow> addr \<Rightarrow> u32 \<Rightarrow> 'a::len word option) (set_array_element sz)
     (array_sound sz) (\<lambda>n. 16 + n * sz)"
proof
  fix m a n i and v :: "'a word"
  assume s: "array_sound sz m a n" and i: "i < n"
  have sz: "0 < sz" "sz \<le> 8" "n * sz < 2 ^ 31" using s by (auto simp: array_sound_def)
  then show "\<exists>m'. set_array_element sz m a (of_nat i) v = Some m'"
    using array_sound_access(3) [OF s i] by (simp add: array_sound_access(2) [OF s i] store_le_put)
  fix m'
  assume "set_array_element sz m a (of_nat i) v = Some m'"
  then have st: "store_le sz m (a + of_nat (16 + i * sz)) v = Some m'" by (simp only: array_sound_access(2) [OF s i])
  have "apart (a + of_nat 12) 4 (a + of_nat (16 + i * sz)) sz"
    using array_sound_access(4) [OF s i] sz by (intro apart_inside) auto
  then have "apart (a + of_nat (16 + i * sz)) sz (a + 12) 4" by (simp add: apart_sym)
  then have "load32 m' (a + 12) = load32 m (a + 12)" by (rule load_store_apart [where 'b = 32, OF st]) (use sz in simp)
  then show s': "array_sound sz m' a n"
    using s st store_le_mapped [OF st] sz by (auto simp: array_sound_def)
  show "get_array_element sz m' a (of_nat i) = Some v"
    unfolding array_sound_access(1) [OF s' i] using sz assms by (intro load_store_same [OF st]) auto
  show "get_array_element sz m' a (of_nat j) = (get_array_element sz m a (of_nat j) :: 'a word option)"
    if "j < n" "i \<noteq> j" for j
    unfolding array_sound_access(1) [OF s' that(1)] array_sound_access(1) [OF s that(1)]
    using sz by (intro load_store_apart [OF st array_slots_apart [OF s i that]]) simp
  show "load_bytes m' b k = load_bytes m b k" if "apart a (16 + n * sz) b k" for b k
    using sz by (intro store_load_bytes [OF st] apart_sub [OF that array_sound_access(4) [OF s i]]) auto
qed

interpretation bytes: indexed_store "get_array_element 1 :: mem \<Rightarrow> addr \<Rightarrow> u32 \<Rightarrow> u8 option" "set_array_element 1"
  "array_sound 1" "\<lambda>n. 16 + n * 1"
  by (rule array_store_laws) simp

interpretation shorts: indexed_store "get_array_element 2 :: mem \<Rightarrow> addr \<Rightarrow> u32 \<Rightarrow> u16 option" "set_array_element 2"
  "array_sound 2" "\<lambda>n. 16 + n * 2"
  by (rule array_store_laws) simp

interpretation ints: indexed_store "get_array_element 4 :: mem \<Rightarrow> addr \<Rightarrow> u32 \<Rightarrow> u32 option" "set_array_element 4"
  "array_sound 4" "\<lambda>n. 16 + n * 4"
  by (rule array_store_laws) simp

interpretation longs: indexed_store "get_array_element 8 :: mem \<Rightarrow> addr \<Rightarrow> u32 \<Rightarrow> u64 option" "set_array_element 8"
  "array_sound 8" "\<lambda>n. 16 + n * 8"
  by (rule array_store_laws) simp

section \<open>What a fresh object holds\<close>

lemma allocate_tlab_valid: "allocate_tlab J m t n = Some (p, m') \<Longrightarrow> p \<noteq> 0 \<Longrightarrow> is_valid_pointer p"
  by (auto simp: allocate_tlab_def Let_def split: option.splits bind_splits if_splits)

lemma allocate_in_array_valid:
  "allocate_in_array J n k slot s = Some (p, s') \<Longrightarrow> p \<noteq> 0 \<Longrightarrow> is_valid_pointer p"
  by (induction J n k slot s rule: allocate_in_array.induct)
    (auto split: bind_splits if_splits dest: allocate_tlab_valid)

lemma allocate_in_list_valid:
  "allocate_in_list J n k c s = Some (p, s') \<Longrightarrow> p \<noteq> 0 \<Longrightarrow> is_valid_pointer p"
  by (induction J n k c s rule: allocate_in_list.induct)
    (auto split: bind_splits if_splits dest: allocate_tlab_valid)

lemma allocate_object_valid: "allocate_object J n s = Some (p, s') \<Longrightarrow> p \<noteq> 0 \<Longrightarrow> is_valid_pointer p"
  by (auto simp: allocate_object_def allocate_from_threads_list_def split: bind_splits if_splits option.splits)
    (blast intro: allocate_tlab_valid allocate_in_list_valid allocate_in_array_valid)+

text \<open>The header of the 64-bit VM with compressed class pointers: mark word at 0, klass word at 8.\<close>

definition header_layout :: "jvm \<Rightarrow> bool" where
  "header_layout J \<longleftrightarrow> mark_offset J = 0
     \<and> (case vm_struct J ''oopDesc'' ''_metadata._compressed_klass'' of Some e \<Rightarrow> se_offset e = 8
        | None \<Rightarrow> vm_struct J ''oopDesc'' ''_metadata._klass'' = None)"

lemma stamp_header_stores:
  assumes "header_layout J" and "stamp_header J m obj k = Some m'"
  shows "\<exists>proto m1 c. store64 m obj proto = Some m1 \<and> encode_klass_pointer J m1 k = Some c \<and> store32 m1 (obj + 8) c = Some m'"
  using assms by (auto simp: header_layout_def stamp_header_def stamp_klass_def split: bind_splits option.splits)

lemma make_java_object_stores:
  assumes "make_java_object E k sz h = Some (obj, h')" and "obj \<noteq> 0" and "header_layout (he_jvm E)"
  shows "\<exists>m0 m1 proto c. is_valid_pointer obj \<and> mapped m0 obj (unat (object_size sz))
     \<and> store64 (put obj (replicate (unat (object_size sz)) 0) m0) obj proto = Some m1
     \<and> encode_klass_pointer (he_jvm E) m1 k = Some c \<and> store32 m1 (obj + 8) c = Some (hp_mem h')"
proof -
  obtain g m s1 m0 where a: "allocate_object (he_jvm E) (object_size sz) (g, m) = Some (obj, s1, m0)"
    and b: "store_bytes m0 obj (replicate (unat (object_size sz)) 0) \<bind> (\<lambda>m. stamp_header (he_jvm E) m obj k) = Some (hp_mem h')"
    using assms(1,2) by (auto simp: make_java_object_def Let_def split: bind_splits if_splits)
  have len: "unat (object_size sz) \<le> 2 ^ 64" using unat_lt64 [of "object_size sz"] by simp
  with b have mp: "mapped m0 obj (unat (object_size sz))"
    and st: "stamp_header (he_jvm E) (put obj (replicate (unat (object_size sz)) 0) m0) obj k = Some (hp_mem h')"
    by (auto simp: store_bytes_put split: if_splits bind_splits)
  from stamp_header_stores [OF assms(3) st] mp allocate_object_valid [OF a assms(2)] show ?thesis by blast
qed

lemma offset_unat: "i < 2 ^ 64 \<Longrightarrow> k \<le> i \<Longrightarrow> unat (a + of_nat i - (a + of_nat k :: addr)) = i - k"
proof -
  assume "i < 2 ^ 64" "k \<le> i"
  then have "a + of_nat i - (a + of_nat k) = (of_nat (i - k) :: addr)" by (simp add: of_nat_diff)
  with \<open>i < 2 ^ 64\<close> show ?thesis by (simp add: unat_of_nat take_bit_nat_eq_self del: of_nat_diff)
qed

lemma make_java_object_body:
  assumes "make_java_object E k sz h = Some (obj, h')" and "obj \<noteq> 0" and "header_layout (he_jvm E)"
  shows "is_valid_pointer obj \<and> mapped (hp_mem h') obj (unat (object_size sz))
     \<and> (\<forall>i. 12 \<le> i \<and> i < unat (object_size sz) \<longrightarrow> hp_mem h' (obj + of_nat i) = Some 0)"
proof -
  obtain m0 m1 proto c where v: "is_valid_pointer obj" and mp: "mapped m0 obj (unat (object_size sz))"
    and s1: "store64 (put obj (replicate (unat (object_size sz)) 0) m0) obj proto = Some m1"
    and s2: "store32 m1 (obj + 8) c = Some (hp_mem h')"
    using make_java_object_stores [OF assms] by blast
  have "hp_mem h' (obj + of_nat i) = Some 0" if i: "12 \<le> i" "i < unat (object_size sz)" for i
  proof -
    have "i < 2 ^ 64" using i(2) unat_lt64 [of "object_size sz"] by simp
    then have u: "unat (obj + of_nat i - obj) = i" "unat (obj + of_nat i - (obj + 8)) = i - 8"
      using offset_unat [of i 0 obj] offset_unat [of i 8 obj] i(1) by simp_all
    have "hp_mem h' = put (obj + 8) (le_of_word 4 c) (put obj (le_of_word 8 proto) (put obj (replicate (unat (object_size sz)) 0) m0))"
      using s1 s2 by (simp add: store_le_put split: if_splits)
    with u i show ?thesis by (auto simp: put_def)
  qed
  moreover have "mapped (hp_mem h') obj (unat (object_size sz))"
    using store_le_mapped [OF s2] store_le_mapped [OF s1] mp by simp
  ultimately show ?thesis using v by blast
qed

lemma make_java_array_stores:
  assumes "make_java_array E cn len es h = Some (arr, h')" and "arr \<noteq> 0"
  shows "\<exists>k h0 h1. k \<noteq> 0 \<and> \<not> sint len < 0 \<and> make_java_object E k (array_header_size + scast len * es) h0 = Some (arr, h1)
     \<and> store32 (hp_mem h1) (arr + 12) len = Some (hp_mem h')"
  using assms by (auto simp: make_java_array_def Let_def split: bind_splits if_splits) blast+

lemma unat_round8: "unat v + 7 < 2 ^ 64 \<Longrightarrow> unat v \<le> unat (object_size v)"
proof -
  assume v: "unat v + 7 < 2 ^ 64"
  have "(7 :: u64) = 2 ^ 3 - 1" by simp
  then have "unat (object_size v) = unat (v + 7) div 8 * 8"
    unfolding object_size_def using unat_page_floor [of "v + 7" 3] by simp
  moreover have "unat (v + 7) = unat v + 7" using v by (simp add: unat_word_ariths)
  ultimately show ?thesis by simp
qed

text \<open>The words that hold the base and the shift of the class pointers are not in the object's header.\<close>

definition klass_words_apart :: "jvm \<Rightarrow> addr \<Rightarrow> bool" where
  "klass_words_apart J obj \<longleftrightarrow>
     (\<forall>e. narrow_klass_base J = Some e \<longrightarrow> apart (obj + 8) 4 (se_address e) 8)
     \<and> (\<forall>e. narrow_klass_shift J = Some e \<longrightarrow> apart (obj + 8) 4 (se_address e) 4)"

lemma klass_config_store:
  assumes "klass_words_apart J obj" and "store32 m (obj + 8) c = Some m'"
  shows "klass_config J m' = klass_config J m"
proof -
  have "load64 m' (se_address e) = load64 m (se_address e)" if "narrow_klass_base J = Some e" for e
    using assms(1) that by (intro load_store_apart [where 'b = 64, OF assms(2)]) (auto simp: klass_words_apart_def)
  moreover have "load32 m' (se_address e) = load32 m (se_address e)" if "narrow_klass_shift J = Some e" for e
    using assms(1) that by (intro load_store_apart [where 'b = 32, OF assms(2)]) (auto simp: klass_words_apart_def)
  ultimately show ?thesis by (auto simp: klass_config_def read_config_def split: option.splits)
qed

section \<open>What the heap scan reports\<close>

definition collect_objects :: "addr list instance_visit" where
  "collect_objects = (\<lambda>p (m, xs). Some (m, xs @ [p]))"

text \<open>A report from the chunk at \<open>p\<close> with the copy \<open>buffer\<close>.\<close>

definition chunk_hit :: "jvm \<Rightarrow> mem \<Rightarrow> addr \<Rightarrow> u8 list \<Rightarrow> nat \<Rightarrow> bool" where
  "chunk_hit J m target buffer off \<longleftrightarrow> off mod 8 = 0 \<and> off + 12 \<le> length buffer
     \<and> (\<exists>n. n = (word_of_le (take 4 (drop (off + 8) buffer)) :: u32) \<and> n \<noteq> 0 \<and> decode_klass_pointer J m n = Some target)"

lemma scan_chunk_collect:
  assumes "scan_chunk J collect_objects target mx p buffer off visits (m, xs) = Some (v, m', ys)" and "off mod 8 = 0"
    and "visits \<le> mx"
  shows "m' = m \<and> v \<le> mx \<and> (\<exists>offs. ys = xs @ map (\<lambda>off. p + of_nat off) offs \<and> v = visits + length offs
     \<and> (\<forall>x \<in> set offs. chunk_hit J m target buffer x)
     \<and> (v < mx \<longrightarrow> (\<forall>x \<ge> off. chunk_hit J m target buffer x \<longrightarrow> x \<in> set offs)))"
  using assms
proof (induction "length buffer - off" arbitrary: off visits xs rule: less_induct)
  case less
  show ?case
  proof (cases "off + 12 \<le> length buffer \<and> visits < mx")
    case False
    with less.prems show ?thesis
      by (auto simp: scan_chunk.simps [of _ _ _ _ _ _ off] chunk_hit_def)
  next
    case True
    define n where "n = (word_of_le (take 4 (drop (off + 8) buffer)) :: u32)"
    from True less.prems(1) obtain d where d: "decode_klass_pointer J m n = Some d"
      by (auto simp: scan_chunk.simps [of _ _ _ _ _ _ off] n_def Let_def split: bind_splits)
    have dec: "length buffer - (off + 8) < length buffer - off" and al: "(off + 8) mod 8 = 0"
      using True less.prems(2) by auto
    have hit: "chunk_hit J m target buffer off \<longleftrightarrow> n \<noteq> 0 \<and> d = target"
      using d True less.prems(2) by (auto simp: chunk_hit_def n_def)
    have next8: "x = off \<or> off + 8 \<le> x" if "off \<le> x" "chunk_hit J m target buffer x" for x
    proof -
      have "x mod 8 = 0" using that(2) by (simp add: chunk_hit_def)
      with that(1) less.prems(2) show ?thesis by presburger
    qed
    show ?thesis
    proof (cases "n \<noteq> 0 \<and> d = target")
      case True': False
      from less.prems(1) True True' d
      have r: "scan_chunk J collect_objects target mx p buffer (off + 8) visits (m, xs) = Some (v, m', ys)"
        by (simp add: scan_chunk.simps [of _ _ _ _ _ _ off] n_def Let_def)
      from less.hyps [OF dec r al less.prems(3)] hit True' next8 show ?thesis by blast
    next
      case eq: True
      with less.prems(1) True d
      have r: "scan_chunk J collect_objects target mx p buffer (off + 8) (visits + 1) (m, xs @ [p + of_nat off]) = Some (v, m', ys)"
        by (simp add: scan_chunk.simps [of _ _ _ _ _ _ off] n_def Let_def collect_objects_def)
      have "visits + 1 \<le> mx" using True by simp
      from less.hyps [OF dec r al this] obtain offs where o: "m' = m" "v \<le> mx"
        "ys = (xs @ [p + of_nat off]) @ map (\<lambda>off. p + of_nat off) offs" "v = visits + 1 + length offs"
        "\<forall>x \<in> set offs. chunk_hit J m target buffer x"
        "v < mx \<longrightarrow> (\<forall>x \<ge> off + 8. chunk_hit J m target buffer x \<longrightarrow> x \<in> set offs)" by blast
      have "v < mx \<longrightarrow> (\<forall>x \<ge> off. chunk_hit J m target buffer x \<longrightarrow> x \<in> set (off # offs))"
        using o(6) next8 by auto
      with o hit eq show ?thesis by (intro conjI exI [of _ "off # offs"]) auto
    qed
  qed
qed

text \<open>The addresses that the scan of \<open>[start, fin)\<close> can report.\<close>

definition heap_chunk :: "mem \<Rightarrow> addr \<Rightarrow> addr \<Rightarrow> u8 list option" where
  "heap_chunk m fin p = safe_read m p (min chunk_size (unat (fin - p)))"

definition reportable :: "jvm \<Rightarrow> mem \<Rightarrow> addr \<Rightarrow> addr \<Rightarrow> addr \<Rightarrow> addr set" where
  "reportable J m target fin start = {a. \<exists>k off buffer. unat start + 4096 * k < unat fin
     \<and> heap_chunk m fin (start + of_nat (4096 * k)) = Some buffer \<and> chunk_hit J m target buffer off
     \<and> a = start + of_nat (4096 * k) + of_nat off}"

lemma reportable_step:
  assumes "start < fin" and "unat fin + 4096 < 2 ^ 64"
  shows "reportable J m target fin start =
     {start + of_nat off | off. \<exists>buffer. heap_chunk m fin start = Some buffer \<and> chunk_hit J m target buffer off}
     \<union> reportable J m target fin (start + 4096)" (is "?L = ?H \<union> ?R")
proof -
  have "unat start < unat fin" using assms(1) by (simp add: word_less_nat_alt)
  with assms(2) have u: "unat (start + 4096) = unat start + 4096" by (simp add: unat_word_ariths)
  have R: "a \<in> ?R \<longleftrightarrow> (\<exists>k off buffer. unat start + 4096 * Suc k < unat fin
     \<and> heap_chunk m fin (start + of_nat (4096 * Suc k)) = Some buffer \<and> chunk_hit J m target buffer off
     \<and> a = start + of_nat (4096 * Suc k) + of_nat off)" for a
    by (simp add: reportable_def u ac_simps)
  show ?thesis
  proof (intro set_eqI iffI)
    fix a
    assume "a \<in> ?L"
    then obtain k off buffer where a: "unat start + 4096 * k < unat fin" "heap_chunk m fin (start + of_nat (4096 * k)) = Some buffer"
      "chunk_hit J m target buffer off" "a = start + of_nat (4096 * k) + of_nat off"
      by (auto simp: reportable_def)
    then show "a \<in> ?H \<union> ?R"
      by (cases k) (simp, blast, simp only: Un_iff R, blast)
  next
    fix a
    assume "a \<in> ?H \<union> ?R"
    then show "a \<in> ?L"
    proof
      assume "a \<in> ?H"
      then obtain off buffer where "heap_chunk m fin start = Some buffer" "chunk_hit J m target buffer off"
        "a = start + of_nat off" by auto
      with \<open>unat start < unat fin\<close> show ?thesis
        unfolding reportable_def by - (rule CollectI, rule exI [of _ 0], rule exI [of _ off], rule exI [of _ buffer], simp)
    next
      assume "a \<in> ?R"
      then show ?thesis unfolding R by (auto simp only: reportable_def mem_Collect_eq)
    qed
  qed
qed

lemma reportable_end: "\<not> start < fin \<Longrightarrow> reportable J m target fin start = {}"
  by (auto simp: reportable_def word_less_nat_alt)

lemma scan_heap_collect:
  assumes "scan_heap J collect_objects target mx fin p visits (m, xs) = Some (v, m', ys)"
    and "unat fin + 4096 < 2 ^ 64" and "visits \<le> mx"
  shows "m' = m \<and> v \<le> mx \<and> (\<exists>zs. ys = xs @ zs \<and> v = visits + length zs \<and> set zs \<subseteq> reportable J m target fin p
     \<and> (v < mx \<longrightarrow> set zs = reportable J m target fin p))"
  using assms(1,3)
proof (induction "unat fin - unat p" arbitrary: p visits xs rule: less_induct)
  case less
  show ?case
  proof (cases "p < fin \<and> visits < mx")
    case False
    with less.prems show ?thesis
      using reportable_end [of p fin J m target] by (subst (asm) scan_heap.simps) auto
  next
    case True
    have up: "unat p < unat fin" using True by (simp add: word_less_nat_alt)
    with assms(2) have u: "unat (p + 4096) = unat p + 4096" by (simp add: unat_word_ariths)
    have dec: "unat fin - unat (p + 4096) < unat fin - unat p" using up u by simp
    note rep = reportable_step [OF conjunct1 [OF True] assms(2), of J m target]
    show ?thesis
    proof (cases "heap_chunk m fin p")
      case None
      from less.prems(1) None True
      have r: "scan_heap J collect_objects target mx fin (p + 4096) visits (m, xs) = Some (v, m', ys)"
        by (subst (asm) scan_heap.simps) (simp add: heap_chunk_def chunk_size_def)
      from less.hyps [OF dec r less.prems(2)] rep None show ?thesis by auto
    next
      case (Some buffer)
      from less.prems(1) Some True obtain v1 m1 xs1
        where c: "scan_chunk J collect_objects target mx p buffer 0 visits (m, xs) = Some (v1, m1, xs1)"
        and r: "scan_heap J collect_objects target mx fin (p + 4096) v1 (m1, xs1) = Some (v, m', ys)"
        by (subst (asm) scan_heap.simps) (auto simp: heap_chunk_def chunk_size_def split: bind_splits)
      from scan_chunk_collect [OF c _ less.prems(2)] obtain offs where o: "m1 = m" "v1 \<le> mx"
        "xs1 = xs @ map (\<lambda>off. p + of_nat off) offs" "v1 = visits + length offs"
        "\<forall>x \<in> set offs. chunk_hit J m target buffer x" "v1 < mx \<longrightarrow> (\<forall>x. chunk_hit J m target buffer x \<longrightarrow> x \<in> set offs)"
        by auto
      from less.hyps [OF dec r [unfolded o(1)] o(2)] obtain zs where z: "m' = m" "v \<le> mx" "ys = xs1 @ zs" "v = v1 + length zs"
        "set zs \<subseteq> reportable J m target fin (p + 4096)" "v < mx \<longrightarrow> set zs = reportable J m target fin (p + 4096)" by blast
      have "set (map (\<lambda>off. p + of_nat off) offs @ zs) \<subseteq> reportable J m target fin p"
        using o(5) z(5) Some unfolding rep by auto
      moreover have "set (map (\<lambda>off. p + of_nat off) offs @ zs) = reportable J m target fin p" if "v < mx"
      proof -
        have "v1 < mx" using that z(4) by simp
        with o(5,6) have "{x. chunk_hit J m target buffer x} = set offs" by auto
        then have "set (map (\<lambda>off. p + of_nat off) offs) = {p + of_nat off | off. chunk_hit J m target buffer off}" by auto
        with z(6) that Some show ?thesis unfolding rep by simp
      qed
      ultimately show ?thesis
        using z(1-4) o(3,4) by (intro conjI exI [of _ "map (\<lambda>off. p + of_nat off) offs @ zs"]) auto
    qed
  qed
qed

lemma reportable_sound:
  assumes "a \<in> reportable J m target fin start"
  shows "\<exists>n. load32 m (a + 8) = Some n \<and> n \<noteq> 0 \<and> decode_klass_pointer J m n = Some target"
    and "unat (a - start) mod 8 = 0" and "unat (a - start) mod 4096 \<noteq> 4088"
proof -
  obtain k off buffer where a: "a = start + of_nat (4096 * k) + of_nat off"
    and c: "heap_chunk m fin (start + of_nat (4096 * k)) = Some buffer" and h: "chunk_hit J m target buffer off"
    using assms by (auto simp: reportable_def)
  obtain len where l: "load_bytes m (start + of_nat (4096 * k)) len = Some buffer" "length buffer = len" "len \<le> 4096"
  proof -
    have "load_bytes m (start + of_nat (4096 * k)) (min chunk_size (unat (fin - (start + of_nat (4096 * k))))) = Some buffer"
      using safe_read_Some [OF c [unfolded heap_chunk_def]] by blast
    from that [OF this load_bytes_length [OF this]] show ?thesis by (simp add: chunk_size_def)
  qed
  have oc: "off mod 8 = 0" "off + 12 \<le> len" using h l by (auto simp: chunk_hit_def)
  have "load_bytes m (start + of_nat (4096 * k) + of_nat (off + 8)) 4 = Some (take 4 (drop (off + 8) buffer))"
    using oc by (intro load_bytes_inside [OF l(1)]) simp
  then have "load32 m (a + 8) = Some (word_of_le (take 4 (drop (off + 8) buffer)))"
    by (simp add: load_le_def a add.assoc)
  with h show "\<exists>n. load32 m (a + 8) = Some n \<and> n \<noteq> 0 \<and> decode_klass_pointer J m n = Some target"
    by (auto simp: chunk_hit_def)
  have "a - start = of_nat (4096 * k + off)" by (simp add: a)
  then have u: "unat (a - start) = (4096 * k + off) mod 2 ^ 64" by (simp only: unat_of_nat) (simp add: take_bit_eq_mod)
  have d: "(8 :: nat) dvd 2 ^ 64" "(4096 :: nat) dvd 2 ^ 64" by simp_all
  from u d(2) have "unat (a - start) mod 4096 = off mod 4096" by (simp add: mod_mod_cancel)
  with oc l(3) show "unat (a - start) mod 4096 \<noteq> 4088" by auto
  from u d(1) have "unat (a - start) mod 8 = (4096 * k + off) mod 8" by (simp add: mod_mod_cancel)
  with oc(1) show "unat (a - start) mod 8 = 0" by (simp add: mod_add_eq [symmetric])
qed

section \<open>Properties\<close>

text \<open>An object that make\_java\_object returns is a valid pointer to mapped memory, every byte
  behind its header is zero, and its klass word decodes to the class it was made from.\<close>

theorem fresh_object_has_its_class:
  assumes "make_java_object E k sz h = Some (obj, h')" and "obj \<noteq> 0" and "header_layout (he_jvm E)"
    and "klass_config (he_jvm E) (hp_mem h') = Some (base, s)" and "no_wrap base s" and "representable base s k"
    and "is_valid_pointer k" and "klass_words_apart (he_jvm E) obj"
  shows "is_valid_pointer obj \<and> mapped (hp_mem h') obj (unat (object_size sz))
     \<and> (\<forall>i. 12 \<le> i \<and> i < unat (object_size sz) \<longrightarrow> hp_mem h' (obj + of_nat i) = Some 0)
     \<and> klass_from_oop (he_jvm E) (hp_mem h') obj = Some k"
proof -
  note body = make_java_object_body [OF assms(1-3)]
  obtain m1 c where e: "encode_klass_pointer (he_jvm E) m1 k = Some c" and st: "store32 m1 (obj + 8) c = Some (hp_mem h')"
    using make_java_object_stores [OF assms(1-3)] by blast
  have "klass_config (he_jvm E) m1 = Some (base, s)"
    using klass_config_store [OF assms(8) st] assms(4) by simp
  from klass_codec.encode_law [OF this valid_not_null [OF assms(7)]] e
  have "encode_klass_pointer (he_jvm E) (hp_mem h') k = Some c"
    using klass_codec.encode_law [OF assms(4) valid_not_null [OF assms(7)]] by simp
  from klass_codec.decode_encode [OF assms(4-6) this] have "decode_klass_pointer (he_jvm E) (hp_mem h') c = Some k" by simp
  moreover have "load32 (hp_mem h') (obj + 8) = Some c" by (rule load_store_same [OF st]) simp_all
  ultimately show ?thesis
    using body assms(7) by (simp add: klass_from_oop_def valid_not_null)
qed

text \<open>An array that make\_java\_array returns is a well-formed array of the requested length whose
  elements are all zero.\<close>

theorem fresh_array_is_zeroed:
  assumes "make_java_array E cn len (of_nat sz) h = Some (arr, h')" and "arr \<noteq> 0" and "header_layout (he_jvm E)"
    and "0 < sz" and "sz \<le> 8" and "n = nat (sint len)" and "n * sz < 2 ^ 31"
  shows "array_sound sz (hp_mem h') arr n
     \<and> elements (get_array_element sz) (hp_mem h') arr 0 n = Some (replicate n (0 :: 'a::len word))"
proof -
  obtain k h0 h1 where nn: "\<not> sint len < 0"
    and mk: "make_java_object E k (array_header_size + scast len * of_nat sz) h0 = Some (arr, h1)"
    and st: "store32 (hp_mem h1) (arr + 12) len = Some (hp_mem h')"
    using make_java_array_stores [OF assms(1,2)] by blast
  have len: "len = of_nat n" using nn assms(6) by simp
  have n31: "n < 2 ^ 31" using sint_lt [of len] nn assms(6) by simp
  have "unat (array_header_size + scast len * of_nat sz) = 16 + n * sz"
  proof -
    have "array_header_size + scast len * of_nat sz = (of_nat (16 + n * sz) :: u64)"
      unfolding len scast_of_nat32 [OF n31] by (simp add: array_header_size_def)
    then show ?thesis using assms(7) by (simp only: unat_of_nat) (simp add: take_bit_nat_eq_self)
  qed
  then have size: "16 + n * sz \<le> unat (object_size (array_header_size + scast len * of_nat sz))"
    using unat_round8 [of "array_header_size + scast len * of_nat sz"] assms(7) by simp
  note body = make_java_object_body [OF mk assms(2,3)]
  have mp: "mapped (hp_mem h1) arr (16 + n * sz)" by (rule mapped_le [OF _ size]) (use body in blast)
  have "load32 (hp_mem h') (arr + 12) = Some len" by (rule load_store_same [OF st]) simp_all
  then have snd: "array_sound sz (hp_mem h') arr n"
    using body store_le_mapped [OF st _ mp] assms(4,5,7) n31 len by (simp add: array_sound_def)
  have zero: "get_array_element sz (hp_mem h') arr (of_nat j) = Some (0 :: 'a word)" if j: "j < n" for j
  proof -
    have le: "16 + j * sz + sz \<le> 16 + n * sz" by (rule array_sound_access(4) [OF snd j])
    have "apart (arr + of_nat 12) 4 (arr + of_nat (16 + j * sz)) sz"
      using le assms(4,7) by (intro apart_inside) auto
    then have "load_bytes (hp_mem h') (arr + of_nat (16 + j * sz)) sz = load_bytes (hp_mem h1) (arr + of_nat (16 + j * sz)) sz"
      by (intro store_load_bytes [OF st]) simp_all
    also have "\<dots> = Some (replicate sz 0)"
    proof -
      have "hp_mem h1 (arr + of_nat (16 + j * sz) + of_nat i) = Some 0" if "i < sz" for i
      proof -
        have "16 + j * sz + i < unat (object_size (array_header_size + scast len * of_nat sz))" "12 \<le> 16 + j * sz + i"
          using that le size by auto
        with body have "hp_mem h1 (arr + of_nat (16 + j * sz + i)) = Some 0" by blast
        then show ?thesis by (simp add: add.assoc)
      qed
      then show ?thesis by (simp add: load_bytes_Some_iff)
    qed
    finally show ?thesis by (simp only: array_sound_access(1) [OF snd j]) (simp add: load_le_def)
  qed
  have "elements (get_array_element sz) (hp_mem h') arr i k = Some (replicate k (0 :: 'a word))" if "i + k \<le> n" for i k
    using that by (induction k arbitrary: i) (auto simp: zero)
  from this [of 0 n] snd show ?thesis by simp
qed


section \<open>A process with a heap\<close>

definition heap_jvm :: jvm where
  "heap_jvm = threads_jvm\<lparr>vm_structs := vm_structs threads_jvm @
     [thread_entry ''CompressedKlassPointers'' ''_base'' 0 0x60000, thread_entry ''CompressedKlassPointers'' ''_shift'' 0 0x60008,
      thread_entry ''Universe'' ''_collectedHeap'' 0 0x60010, thread_entry ''CollectedHeap'' ''_reserved'' 0x10 0,
      thread_entry ''MemRegion'' ''_start'' 0 0, thread_entry ''MemRegion'' ''_word_size'' 8 0]\<rparr>"

text \<open>Class pointers are relative to 0x10000 in units of 8; the heap is the 8 KiB at 0x300000.\<close>

definition heap_cells :: "(addr \<times> nat \<times> u64) list" where
  "heap_cells = [(0x60000, 8, 0x10000), (0x60008, 4, 3), (0x60010, 8, 0x70000), (0x70010, 8, 0x300000), (0x70018, 8, 0x400),
     (0x100108, 8, 0x200000), (0x100118, 8, 0x201000)]"

definition heap_mem :: mem where "heap_mem = image heap_cells"

definition demo_heap :: "mem \<Rightarrow> heap" where
  "demo_heap m = \<lparr>hp_mem = m, hp_threads = \<lparr>current_java_thread = 0x100000, current_jni_env = 1, last_java_thread = 0\<rparr>,
     hp_classes = \<lparr>klass_lookup_cache = Mapping.empty, host_classloader_klass = 1\<rparr>, hp_fields = Mapping.empty\<rparr>"

definition demo_heap_env :: heap_env where
  "demo_heap_env = \<lparr>he_jvm = heap_jvm, he_invocation = detached, he_jni_find = (\<lambda>_. 0x40000), he_jni_array_klass = (\<lambda>_. 0)\<rparr>"

lemmas heap_eval = heap_jvm_def heap_mem_def heap_cells_def threads_eval

lemma demo_header_layout: "header_layout heap_jvm"
  by (simp add: header_layout_def mark_offset_def heap_eval)

lemma demo_klass_words: "narrow_klass_base heap_jvm = Some (thread_entry ''CompressedKlassPointers'' ''_base'' 0 0x60000)"
  "narrow_klass_shift heap_jvm = Some (thread_entry ''CompressedKlassPointers'' ''_shift'' 0 0x60008)"
  by (simp_all add: narrow_klass_base_def narrow_klass_shift_def first_entry_def heap_eval)

lemma demo_allocate:
  "allocate_object heap_jvm 24 (hp_threads (demo_heap heap_mem), heap_mem) =
     Some (0x200000, (hp_threads (demo_heap heap_mem))\<lparr>last_java_thread := 0x100000\<rparr>, put 0x100108 (le_of_word 8 (0x200018 :: u64)) heap_mem)"
  by (simp add: allocate_object_def find_allocation_thread_def demo_heap_def allocate_tlab_def store_le_put heap_eval)

definition demo_object_mem :: "mem \<Rightarrow> mem" where
  "demo_object_mem m = put 0x200008 (le_of_word 4 (0x6000 :: u32)) (put 0x200000 (le_of_word 8 (1 :: u64))
     (put 0x200000 (replicate 24 0) (put 0x100108 (le_of_word 8 (0x200018 :: u64)) m)))"

lemma demo_make:
  assumes "hp_mem h = heap_mem" and "hp_threads h = hp_threads (demo_heap heap_mem)"
  shows "make_java_object demo_heap_env 0x40000 24 h = Some (0x200000,
     h\<lparr>hp_threads := (hp_threads (demo_heap heap_mem))\<lparr>last_java_thread := 0x100000\<rparr>, hp_mem := demo_object_mem heap_mem\<rparr>)"
proof -
  have e: "ensure_current_java_thread heap_jvm detached (hp_threads (demo_heap heap_mem), heap_mem) =
      Some (True, hp_threads (demo_heap heap_mem), heap_mem)"
    by (simp add: ensure_current_java_thread_def demo_heap_def heap_eval)
  have o: "object_size 24 = 24" by (simp add: object_size_def)
  let ?m = "put 0x200000 (replicate 24 0) (put 0x100108 (le_of_word 8 (0x200018 :: u64)) heap_mem)"
  have b: "store_bytes (put 0x100108 (le_of_word 8 (0x200018 :: u64)) heap_mem) 0x200000 (replicate 24 0) = Some ?m"
    by (simp add: store_bytes_put heap_mem_def)
  have "encode_klass_pointer heap_jvm (put 0x200000 (le_of_word 8 (1 :: u64)) ?m) 0x40000 = Some 0x6000"
    by (simp add: encode_klass_pointer_def demo_klass_words) (simp add: heap_eval)
  then have st: "stamp_header heap_jvm ?m 0x200000 0x40000 = Some (demo_object_mem heap_mem)"
    by (simp add: stamp_header_def stamp_klass_def mark_offset_def get_prototype_header_def heap_jvm_def threads_jvm_def
        thread_entry_def iterate_struct_entries_def store_le_put heap_mem_def demo_object_mem_def)
  show ?thesis
    using assms by (simp add: make_java_object_def demo_heap_env_def e o demo_allocate b st)
qed

lemma demo_object_config: "klass_config heap_jvm (demo_object_mem heap_mem) = Some (0x10000, 3)"
  by (simp add: klass_config_def read_config_def demo_klass_words demo_object_mem_def) (simp add: heap_eval)

lemma fresh_object_has_its_class_witness:
  "klass_from_oop heap_jvm (demo_object_mem heap_mem) 0x200000 = Some 0x40000
   \<and> demo_object_mem heap_mem 0x200010 = Some 0"
proof -
  have w: "klass_words_apart heap_jvm 0x200000"
    by (simp add: klass_words_apart_def demo_klass_words thread_entry_def apart_def)
  have "no_wrap 0x10000 3" "representable 0x10000 3 0x40000" "is_valid_pointer 0x40000"
    by (simp_all add: no_wrap_def representable_def ptr_simps is_valid_pointer_def user_address_floor_def
        user_address_ceiling_def poison_patterns_def)
  with fresh_object_has_its_class [OF demo_make [of "demo_heap heap_mem"]] demo_header_layout demo_object_config w
  have r: "klass_from_oop heap_jvm (demo_object_mem heap_mem) 0x200000 = Some 0x40000"
    "\<forall>i. 12 \<le> i \<and> i < unat (object_size 24) \<longrightarrow> demo_object_mem heap_mem (0x200000 + of_nat i) = Some 0"
    by (simp_all add: demo_heap_env_def demo_heap_def)
  have "unat (object_size 24) = 24" by (simp add: object_size_def)
  with r(2) [rule_format, of 16] r(1) show ?thesis by simp
qed

lemma demo_find_class:
  "find_class heap_jvm (\<lambda>_. 0x40000) heap_mem cn (hp_classes (demo_heap heap_mem)) =
     Some (0x40000, \<lparr>klass_lookup_cache = Mapping.update cn 0x40000 Mapping.empty, host_classloader_klass = 1\<rparr>)"
proof -
  have "graph_find_klass heap_jvm heap_mem cn = Some (Inr 0)"
    by (simp add: graph_find_klass_def graph_get_head_def system_dictionary_def find_in_clds.simps heap_jvm_def threads_jvm_def
        thread_entry_def iterate_struct_entries_def)
  then show ?thesis
    by (simp add: find_class_def resolve_class_def demo_heap_def cache_insert_def capture_host_classloader_klass_def)
qed

lemma fresh_array_is_zeroed_witness:
  "\<exists>h'. make_java_array demo_heap_env ''[I'' 2 4 (demo_heap heap_mem) = Some (0x200000, h')
     \<and> elements (get_array_element 4) (hp_mem h') 0x200000 0 2 = Some [0 :: u32, 0]"
proof -
  define h0 where "h0 = (demo_heap heap_mem)\<lparr>hp_classes := \<lparr>klass_lookup_cache = Mapping.update ''[I'' 0x40000 Mapping.empty, host_classloader_klass = 1\<rparr>\<rparr>"
  define h1 where "h1 = h0\<lparr>hp_threads := (hp_threads (demo_heap heap_mem))\<lparr>last_java_thread := 0x100000\<rparr>, hp_mem := demo_object_mem heap_mem\<rparr>"
  have f: "heap_find_class demo_heap_env ''[I'' (demo_heap heap_mem) = Some (0x40000, h0)"
    using demo_find_class by (simp add: heap_find_class_def demo_heap_env_def demo_heap_def h0_def)
  have mk: "make_java_object demo_heap_env 0x40000 24 h0 = Some (0x200000, h1)"
    unfolding h1_def by (rule demo_make) (simp_all add: h0_def demo_heap_def)
  have hm: "hp_mem h1 = demo_object_mem heap_mem" by (simp add: h1_def)
  have sz: "array_header_size + scast (2 :: u32) * of_nat 4 = 24" by (simp add: array_header_size_def)
  have mp: "mapped (demo_object_mem heap_mem) a n" for a n by (simp add: demo_object_mem_def heap_mem_def)
  have m: "make_java_array demo_heap_env ''[I'' 2 (of_nat 4) (demo_heap heap_mem) =
      Some (0x200000, h1\<lparr>hp_mem := put 0x20000C (le_of_word 4 (2 :: u32)) (demo_object_mem heap_mem)\<rparr>)" (is "_ = Some (_, ?h')")
    unfolding make_java_array_def sz by (simp add: f mk store_le_put mp hm del: le_of_word.simps)
  have "header_layout (he_jvm demo_heap_env)" using demo_header_layout by (simp add: demo_heap_env_def)
  from conjunct2 [OF fresh_array_is_zeroed [OF m _ this _ _ refl]]
  have e: "elements (get_array_element 4) (hp_mem ?h') 0x200000 0 (nat (sint (2 :: u32))) = Some (replicate (nat (sint (2 :: u32))) (0 :: u32))"
    by simp
  have two: "nat (sint (2 :: u32)) = 2" by simp
  have "make_java_array demo_heap_env ''[I'' 2 4 (demo_heap heap_mem) = Some (0x200000, ?h')" using m by simp
  moreover have "replicate 2 (0 :: u32) = [0, 0]" by (simp add: numeral_2_eq_2)
  ultimately show ?thesis using e unfolding two by metis
qed

text \<open>A chunk without a single klass word of the target.\<close>

lemma scan_chunk_none:
  assumes "\<And>k. off \<le> k \<Longrightarrow> k mod 8 = 0 \<Longrightarrow> k + 12 \<le> length buffer \<Longrightarrow> word_of_le (take 4 (drop (k + 8) buffer)) = (0 :: u32)"
    and "off mod 8 = 0"
  shows "scan_chunk J visit target mx p buffer off visits s = Some (visits, s)"
  using assms
proof (induction "length buffer - off" arbitrary: off rule: less_induct)
  case less
  show ?case
  proof (cases "off + 12 \<le> length buffer \<and> visits < mx")
    case True
    have "scan_chunk J visit target mx p buffer (off + 8) visits s = Some (visits, s)"
    proof (rule less.hyps)
      show "length buffer - (off + 8) < length buffer - off" using True by arith
      show "word_of_le (take 4 (drop (k + 8) buffer)) = (0 :: u32)"
        if "off + 8 \<le> k" "k mod 8 = 0" "k + 12 \<le> length buffer" for k
        by (rule less.prems(1) [OF _ that(2,3)]) (use that(1) in arith)
      show "(off + 8) mod 8 = 0" using less.prems(2) by presburger
    qed
    moreover have "word_of_le (take 4 (drop (off + 8) buffer)) = (0 :: u32)"
      by (rule less.prems(1)) (use less.prems(2) True in simp_all)
    ultimately show ?thesis
      using True by (subst scan_chunk.simps) (simp add: decode_klass_pointer_def)
  next
    case False
    then show ?thesis by (subst scan_chunk.simps) auto
  qed
qed

text \<open>The heap of 8 KiB with one object, which starts 8 bytes before the second chunk.\<close>

definition boundary_mem :: mem where
  "boundary_mem = image ((0x301000, 4, 0x6000) # heap_cells)"

lemma boundary_chunk1: "n = 4096 \<Longrightarrow> load_bytes boundary_mem 0x300000 n = Some (replicate n 0)"
  by (simp add: boundary_mem_def heap_cells_def load_bytes_put_apart apart_def load_bytes_ram)

lemma boundary_chunk2:
  assumes "n = 4092"
  shows "load_bytes boundary_mem 0x301000 (4 + n) = Some ([0, 0x60, 0, 0] @ replicate n 0)"
proof -
  have "load_bytes boundary_mem 0x301000 4 = Some (le_of_word 4 (0x6000 :: u64))"
    unfolding boundary_mem_def image.simps using load_bytes_put_same [of "le_of_word 4 (0x6000 :: u64)" "0x301000"] by simp
  moreover have "le_of_word 4 (0x6000 :: u64) = [0, 0x60, 0, 0]"
  proof -
    have "(4 :: nat) = Suc (Suc (Suc (Suc 0)))" by simp
    then show ?thesis by (simp only: le_of_word.simps) simp
  qed
  moreover have "load_bytes boundary_mem (0x301000 + of_nat 4) n = Some (replicate n 0)"
    using assms by (simp add: boundary_mem_def heap_cells_def load_bytes_put_apart apart_def load_bytes_ram)
  ultimately show ?thesis using load_bytes_split [of boundary_mem "0x301000" 4 n] by (simp)
qed

text \<open>An object whose header starts in the last eight bytes of a 4096-byte chunk is missed: its
  klass word is the first word of the next chunk, where the scan looks for headers only from
  offset 0, so a heap whose one instance lies there is reported to have none.\<close>

theorem boundary_instance_is_missed:
  "klass_from_oop heap_jvm boundary_mem 0x300FF8 = Some 0x40000
   \<and> heap_region heap_jvm boundary_mem = Some (Some (0x300000, 0x2000))
   \<and> scan_heap heap_jvm visit 0x40000 mx (0x300000 + 0x2000) 0x300000 0 (boundary_mem, a) = Some (0, boundary_mem, a)"
proof -
  have k: "klass_from_oop heap_jvm boundary_mem 0x300FF8 = Some 0x40000"
  proof -
    have l: "load32 boundary_mem 0x301000 = Some 0x6000" "load64 boundary_mem 0x60000 = Some 0x10000"
      "load32 boundary_mem 0x60008 = Some 3"
      by (simp_all add: boundary_mem_def heap_eval)
    have "is_valid_pointer 0x300FF8" "is_valid_pointer 0x40000" by (simp_all add: threads_eval)
    with l show ?thesis by (simp add: klass_from_oop_def decode_klass_pointer_def demo_klass_words thread_entry_def)
  qed
  have r: "heap_region heap_jvm boundary_mem = Some (Some (0x300000, 0x2000))"
    by (simp add: heap_region_def boundary_mem_def heap_eval)
  obtain n :: nat where n: "n = 4096" by blast
  obtain n2 :: nat where n2: "n2 = 4092" by blast
  have z1: "take 4 (drop (k + 8) (replicate n 0)) = replicate 4 (0 :: u8)" if "k + 12 \<le> n" for k
    using that by (simp add: min_def)
  have z2: "take 4 (drop (k + 8) ([0, 0x60, 0, 0] @ replicate n2 0)) = replicate 4 (0 :: u8)" if "k + 12 \<le> 4 + n2" for k
    using that by (simp only: drop_append) (simp add: min_def)
  have c1: "scan_chunk heap_jvm visit 0x40000 mx 0x300000 (replicate n 0) 0 0 s = Some (0, s)" for s
    by (rule scan_chunk_none) (simp_all only: z1 length_replicate word_of_le_zeros mod_0)
  have c2: "scan_chunk heap_jvm visit 0x40000 mx 0x301000 ([0, 0x60, 0, 0] @ replicate n2 0) 0 0 s = Some (0, s)" for s
  proof (rule scan_chunk_none)
    fix k assume "k + 12 \<le> length ([0, 0x60, 0, 0] @ replicate n2 (0 :: u8))"
    then show "word_of_le (take 4 (drop (k + 8) ([0, 0x60, 0, 0] @ replicate n2 0))) = (0 :: u32)"
      using z2 [of k] by simp
  qed simp
  have r1: "safe_read boundary_mem 0x300000 4096 = Some (replicate n 0)"
    using boundary_chunk1 [OF n] n by (simp add: safe_read_def)
  have r2: "safe_read boundary_mem 0x301000 4096 = Some ([0, 0x60, 0, 0] @ replicate n2 0)"
    using boundary_chunk2 [OF n2] n2 by (simp add: safe_read_def)
  have "scan_heap heap_jvm visit 0x40000 mx (0x300000 + 0x2000) 0x302000 0 (boundary_mem, a) = Some (0, boundary_mem, a)"
    by (subst scan_heap.simps) simp
  then have "scan_heap heap_jvm visit 0x40000 mx (0x300000 + 0x2000) 0x301000 0 (boundary_mem, a) = Some (0, boundary_mem, a)"
    by (subst scan_heap.simps) (simp add: chunk_size_def r2 c2 [simplified])
  then have "scan_heap heap_jvm visit 0x40000 mx (0x300000 + 0x2000) 0x300000 0 (boundary_mem, a) = Some (0, boundary_mem, a)"
    by (subst scan_heap.simps) (simp add: chunk_size_def r1 c1)
  with k r show ?thesis by blast
qed

text \<open>A heap of 16 bytes with one object.\<close>

definition one_object_mem :: mem where
  "one_object_mem = image ((0x300008, 4, 0x6000) # (0x70018, 8, 2) # heap_cells)"


end
