(* ===== verification/Java_Strings.thy ===== *)
theory Java_Strings
  imports Java_Heap
begin

text \<open>
  Strings: \<open>make_java_string\<close> (vmhook.hpp line 11364), \<open>read_java_string\<close> (15723) and
  \<open>write_java_string\<close> (15893). A C++ string is the list of its bytes.
\<close>

section \<open>UTF-8 to UTF-16\<close>

text \<open>One code point from the bytes that are left, with the number of bytes it takes.\<close>

definition next_cp :: "u8 list \<Rightarrow> u32 \<times> nat" where
  "next_cp bs = (let b0 = hd bs; n = length bs; c = (\<lambda>i. ucast (bs ! i) AND 0x3F :: u32) in
     if b0 < 0x80 then (ucast b0, 1)
     else if b0 AND 0xE0 = 0xC0 \<and> 1 < n then (push_bit 6 (ucast b0 AND 0x1F) OR c 1, 2)
     else if b0 AND 0xF0 = 0xE0 \<and> 2 < n then (push_bit 12 (ucast b0 AND 0x0F) OR push_bit 6 (c 1) OR c 2, 3)
     else if b0 AND 0xF8 = 0xF0 \<and> 3 < n
     then (push_bit 18 (ucast b0 AND 0x07) OR push_bit 12 (c 1) OR push_bit 6 (c 2) OR c 3, 4)
     else (0xFFFD, 1))"

definition cp_units :: "u32 \<Rightarrow> u16 list" where
  "cp_units cp =
     (if 0x10000 \<le> cp then let cp = cp - 0x10000 in
        [ucast (0xD800 + drop_bit 10 cp), ucast (0xDC00 + (cp AND 0x3FF))]
      else [ucast cp])"

lemma next_cp_adv: "0 < snd (next_cp bs)"
  by (simp add: next_cp_def Let_def)

function utf8_units :: "u8 list \<Rightarrow> u16 list" where
  "utf8_units bs = (if bs = [] then [] else let (cp, adv) = next_cp bs in cp_units cp @ utf8_units (drop adv bs))"
  by pat_completeness auto
termination
proof (relation "measure length")
  fix bs :: "u8 list" and x y z
  assume "bs \<noteq> []" "x = next_cp bs" "(y, z) = x"
  with next_cp_adv [of bs] have "0 < z" by (metis snd_conv)
  with \<open>bs \<noteq> []\<close> show "(drop z bs, bs) \<in> measure length" by simp
qed simp

declare utf8_units.simps [simp del]

section \<open>UTF-16 to UTF-8\<close>

definition cp_utf8 :: "u32 \<Rightarrow> u8 list" where
  "cp_utf8 cp =
     (if cp < 0x80 then [ucast cp]
      else if cp < 0x800 then [ucast (0xC0 OR drop_bit 6 cp), ucast (0x80 OR (cp AND 0x3F))]
      else if cp < 0x10000 then [ucast (0xE0 OR drop_bit 12 cp), ucast (0x80 OR (drop_bit 6 cp AND 0x3F)), ucast (0x80 OR (cp AND 0x3F))]
      else [ucast (0xF0 OR drop_bit 18 cp), ucast (0x80 OR (drop_bit 12 cp AND 0x3F)),
            ucast (0x80 OR (drop_bit 6 cp AND 0x3F)), ucast (0x80 OR (cp AND 0x3F))])"

fun utf16_to_utf8 :: "u16 list \<Rightarrow> u8 list" where
  "utf16_to_utf8 [] = []"
| "utf16_to_utf8 [u] = cp_utf8 (ucast u)"
| "utf16_to_utf8 (u # low # us) =
     (if 0xD800 \<le> u \<and> u \<le> 0xDBFF \<and> 0xDC00 \<le> low \<and> low \<le> 0xDFFF then
        cp_utf8 (0x10000 + push_bit 10 (ucast u - 0xD800) + (ucast low - 0xDC00)) @ utf16_to_utf8 us
      else cp_utf8 (ucast u) @ utf16_to_utf8 (low # us))"

section \<open>The body of a string\<close>

text \<open>
  What \<open>make_java_string\<close> writes: the class of the backing array, its element size, its length,
  its bytes and the coder. \<open>compact\<close> says that the class has a field \<open>coder\<close>.
\<close>

record string_body =
  sb_array :: string
  sb_element :: u64
  sb_length :: u32
  sb_bytes :: "u8 list"
  sb_coder :: u8

definition string_units :: "u8 list \<Rightarrow> u16 list" where
  "string_units value_bytes = take 4096 (utf8_units value_bytes)"

definition unit_bytes :: "u16 list \<Rightarrow> u8 list" where
  "unit_bytes us = concat (map (le_of_word 2) us)"

definition make_body :: "bool \<Rightarrow> u16 list \<Rightarrow> string_body" where
  "make_body compact us =
     (if compact \<and> (\<forall>u \<in> set us. u \<le> 0xFF) then
        \<lparr>sb_array = ''[B'', sb_element = 1, sb_length = of_nat (length us), sb_bytes = map ucast us, sb_coder = 0\<rparr>
      else if compact then
        \<lparr>sb_array = ''[B'', sb_element = 1, sb_length = of_nat (length us) * 2, sb_bytes = unit_bytes us, sb_coder = 1\<rparr>
      else \<lparr>sb_array = ''[C'', sb_element = 2, sb_length = of_nat (length us), sb_bytes = unit_bytes us, sb_coder = 0\<rparr>)"

fun load_units :: "mem \<Rightarrow> addr \<Rightarrow> nat \<Rightarrow> u16 list option" where
  "load_units m a 0 = Some []"
| "load_units m a (Suc n) = do { u \<leftarrow> load16 m a; us \<leftarrow> load_units m (a + 2) n; Some (u # us) }"

text \<open>
  The characters of a string whose array is \<open>arr\<close> and whose array length is \<open>n\<close>; \<open>coder\<close> is
  \<open>None\<close> for the classic layout.
\<close>

definition read_chars :: "mem \<Rightarrow> addr \<Rightarrow> u8 option \<Rightarrow> nat \<Rightarrow> u8 list option" where
  "read_chars m arr coder n =
     (case coder of
        None \<Rightarrow> map_option utf16_to_utf8 (load_units m (arr + 16) n)
      | Some c \<Rightarrow>
          if c = 0 then map_option (\<lambda>bs. concat (map (\<lambda>b. cp_utf8 (ucast b)) bs)) (load_bytes m (arr + 16) n)
          else map_option utf16_to_utf8 (load_units m (arr + 16) (n div 2)))"

section \<open>Strings as objects\<close>

abbreviation string_class :: string where "string_class \<equiv> ''java/lang/String''"

definition heap_get_field :: "nat \<Rightarrow> heap_env \<Rightarrow> addr \<Rightarrow> addr \<Rightarrow> string \<Rightarrow> heap \<Rightarrow> ('a::len word \<times> heap) option" where
  "heap_get_field n E obj k name h = do {
     (v, fc) \<leftarrow> get_field n (he_jvm E) (hp_mem h) obj k name (hp_fields h);
     Some (v, h\<lparr>hp_fields := fc\<rparr>) }"

definition heap_set_field :: "nat \<Rightarrow> heap_env \<Rightarrow> addr \<Rightarrow> addr \<Rightarrow> string \<Rightarrow> 'a::len word \<Rightarrow> heap \<Rightarrow> heap option" where
  "heap_set_field n E obj k name v h = do {
     (m, fc) \<leftarrow> set_field n (he_jvm E) (hp_mem h) obj k name v (hp_fields h);
     Some (h\<lparr>hp_mem := m, hp_fields := fc\<rparr>) }"

definition has_field :: "heap_env \<Rightarrow> addr \<Rightarrow> string \<Rightarrow> heap \<Rightarrow> bool option" where
  "has_field E k name h = map_option (\<lambda>e. e \<noteq> None) (klass_find_field (he_jvm E) (hp_mem h) k name)"

text \<open>The write of a field that older or newer classes may lack.\<close>

definition set_if_present :: "heap_env \<Rightarrow> addr \<Rightarrow> addr \<Rightarrow> string \<Rightarrow> u32 \<Rightarrow> heap \<Rightarrow> heap option" where
  "set_if_present E obj k name v h = do {
     present \<leftarrow> has_field E k name h;
     if present then heap_set_field 4 E obj k name v h else Some h }"

definition make_java_string :: "heap_env \<Rightarrow> u8 list \<Rightarrow> heap \<Rightarrow> (addr \<times> heap) option" where
  "make_java_string E value_bytes h = do {
     (k, h) \<leftarrow> heap_find_class E string_class h;
     if k = 0 then Some (0, h)
     else do {
       instance_size \<leftarrow> get_instance_size (he_jvm E) (hp_mem h) k;
       (string_oop, h) \<leftarrow> make_java_object E k instance_size h;
       if string_oop = 0 then Some (0, h)
       else do {
         compact \<leftarrow> has_field E k ''coder'' h;
         let us = string_units value_bytes;
         let body = make_body compact us;
         (value_array, h) \<leftarrow> make_java_array E (sb_array body) (sb_length body) (sb_element body) h;
         if value_array = 0 then Some (0, h)
         else do {
           m \<leftarrow> store_bytes (hp_mem h) (value_array + 16) (sb_bytes body);
           c \<leftarrow> encode_oop_pointer (he_jvm E) m value_array;
           h \<leftarrow> heap_set_field 4 E string_oop k ''value'' c (h\<lparr>hp_mem := m\<rparr>);
           h \<leftarrow> (if compact then heap_set_field 1 E string_oop k ''coder'' (sb_coder body) h
                 else do {
                   h \<leftarrow> set_if_present E string_oop k ''offset'' 0 h;
                   set_if_present E string_oop k ''count'' (of_nat (length us)) h });
           h \<leftarrow> set_if_present E string_oop k ''hash'' 0 h;
           Some (string_oop, h) } } } }"

definition read_java_string :: "heap_env \<Rightarrow> addr \<Rightarrow> heap \<Rightarrow> (u8 list \<times> heap) option" where
  "read_java_string E string_oop h =
     (if \<not> is_valid_pointer string_oop then Some ([], h)
      else do {
        (k, h) \<leftarrow> heap_find_class E string_class h;
        if k = 0 then Some ([], h)
        else do {
          (arr_compressed :: u32, h) \<leftarrow> heap_get_field 4 E string_oop k ''value'' h;
          if arr_compressed = 0 then Some ([], h)
          else do {
            arr \<leftarrow> decode_oop_pointer (he_jvm E) (hp_mem h) arr_compressed;
            if \<not> is_valid_pointer arr then Some ([], h)
            else do {
              len \<leftarrow> load32 (hp_mem h) (arr + 12);
              if sint len \<le> 0 \<or> 4096 < sint len then Some ([], h)
              else do {
                has_coder \<leftarrow> has_field E k ''coder'' h;
                (coder, h) \<leftarrow> (if has_coder then do {
                    (c :: u8, h) \<leftarrow> heap_get_field 1 E string_oop k ''coder'' h; Some (Some c, h) }
                  else Some (None, h));
                s \<leftarrow> read_chars (hp_mem h) arr coder (nat (sint len));
                Some (s, h) } } } } })"

definition write_java_string :: "heap_env \<Rightarrow> addr \<Rightarrow> u8 list \<Rightarrow> heap \<Rightarrow> heap option" where
  "write_java_string E string_oop value_bytes h =
     (if \<not> is_valid_pointer string_oop then Some h
      else do {
        (k, h) \<leftarrow> heap_find_class E string_class h;
        if k = 0 then Some h
        else do {
          (value_field, fc) \<leftarrow> find_field (he_jvm E) (hp_mem h) k ''value'' (hp_fields h);
          let h = h\<lparr>hp_fields := fc\<rparr>;
          case value_field of None \<Rightarrow> Some h
          | Some e \<Rightarrow> do {
              compressed \<leftarrow> load32 (hp_mem h) (string_oop + ucast (fe_offset e));
              arr \<leftarrow> decode_array_oop (he_jvm E) (hp_mem h) compressed;
              if arr = 0 then Some h
              else do {
                len \<leftarrow> array_length (hp_mem h) arr;
                let writable = nat (min (sint len) (sint (of_nat (length value_bytes) :: u32)));
                m \<leftarrow> (if fe_signature e = ''[C''
                      then fill (set_array_element 2) (hp_mem h) arr 0 (map ucast (take writable value_bytes) :: u16 list)
                      else fill (set_array_element 1) (hp_mem h) arr 0 (take writable value_bytes));
                Some (h\<lparr>hp_mem := m\<rparr>) } } } })"

section \<open>The Unicode encodings\<close>

text \<open>The two encoding forms of a code point as the Unicode standard defines them, with numbers.\<close>

definition scalar :: "nat \<Rightarrow> bool" where
  "scalar c \<longleftrightarrow> c < 0x110000 \<and> \<not> (0xD800 \<le> c \<and> c \<le> 0xDFFF)"

definition utf8 :: "nat \<Rightarrow> nat list" where
  "utf8 c =
     (if c < 0x80 then [c]
      else if c < 0x800 then [0xC0 + c div 64, 0x80 + c mod 64]
      else if c < 0x10000 then [0xE0 + c div 4096, 0x80 + c div 64 mod 64, 0x80 + c mod 64]
      else [0xF0 + c div 262144, 0x80 + c div 4096 mod 64, 0x80 + c div 64 mod 64, 0x80 + c mod 64])"

definition utf16 :: "nat \<Rightarrow> nat list" where
  "utf16 c = (if c < 0x10000 then [c] else [0xD800 + (c - 0x10000) div 1024, 0xDC00 + (c - 0x10000) mod 1024])"

lemma unat_nat32: "n < 4294967296 \<Longrightarrow> unat (of_nat n :: u32) = n"
  by (simp add: unat_of_nat take_bit_nat_eq_self)

lemma less_nat32: "n < 4294967296 \<Longrightarrow> (of_nat n :: u32) < numeral k \<longleftrightarrow> n < unat (numeral k :: u32)"
  by (simp add: word_less_nat_alt unat_nat32)

lemma drop_nat32: "n < 4294967296 \<Longrightarrow> drop_bit k (of_nat n :: u32) = of_nat (n div 2 ^ k)"
proof -
  assume n: "n < 4294967296"
  then have "n div 2 ^ k < 4294967296" using div_le_dividend [of n "2 ^ k"] by linarith
  moreover have "unat (drop_bit k (of_nat n :: u32)) = n div 2 ^ k"
    using n by (simp only: unsigned_drop_bit_eq) (simp add: unat_nat32 take_bit_nat_eq_self drop_bit_eq_div)
  ultimately show ?thesis by (simp only: word_unat_eq_iff unat_nat32)
qed

lemma and_low_nat: "(of_nat n :: 'a::len word) AND mask k = of_nat (n mod 2 ^ k)"
  unfolding take_bit_eq_mask [symmetric] take_bit_of_nat take_bit_eq_mod [where 'a = nat] by (rule refl)

lemma or_low_nat: "j < 2 ^ k \<Longrightarrow> push_bit k (a :: 'a::len word) OR of_nat j = push_bit k a + of_nat j"
proof -
  assume j: "j < 2 ^ k"
  have "\<not> bit (push_bit k a) i \<or> \<not> bit (of_nat j :: 'a word) i" for i
  proof (cases "i < k")
    case False
    have "\<not> bit j i" using j False by (metis bit_take_bit_iff take_bit_nat_eq_self)
    then show ?thesis by (simp add: bit_of_nat_iff)
  qed (simp add: bit_simps)
  then show ?thesis by (simp add: disjunctive_add)
qed

lemma ucast_of_nat32: "n < 4294967296 \<Longrightarrow> (ucast (of_nat n :: u32) :: 'a::len word) = of_nat n"
proof -
  assume n: "n < 4294967296"
  have "(ucast (of_nat n :: u32) :: 'a word) = of_nat (unat (of_nat n :: u32))" by (simp only: of_nat_unat)
  then show ?thesis by (simp only: unat_nat32 [OF n])
qed

lemma ucast_nat32: "n < 256 \<Longrightarrow> (ucast (of_nat n :: u32) :: u8) = of_nat n"
  by (rule ucast_of_nat32) simp

lemma ucast_unit_nat32: "n < 65536 \<Longrightarrow> (ucast (of_nat n :: u32) :: u16) = of_nat n"
  by (rule ucast_of_nat32) simp

lemma tag_or:
  "j < 64 \<Longrightarrow> 0x80 OR (of_nat j :: u32) = of_nat (0x80 + j)" "j < 64 \<Longrightarrow> 0xC0 OR (of_nat j :: u32) = of_nat (0xC0 + j)"
  "j < 32 \<Longrightarrow> 0xE0 OR (of_nat j :: u32) = of_nat (0xE0 + j)" "j < 16 \<Longrightarrow> 0xF0 OR (of_nat j :: u32) = of_nat (0xF0 + j)"
  using or_low_nat [of j 6 "2 :: u32"] or_low_nat [of j 6 "3 :: u32"] or_low_nat [of j 5 "7 :: u32"]
    or_low_nat [of j 4 "15 :: u32"] by simp_all

lemma low6: "(of_nat n :: u32) AND 0x3F = of_nat (n mod 64)"
  using and_low_nat [of n 6, where 'a = 32] by (simp add: mask_eq_exp_minus_1)

lemma cp_utf8_nat: "c < 0x110000 \<Longrightarrow> cp_utf8 (of_nat c) = map of_nat (utf8 c)"
proof -
  assume c: "c < 0x110000"
  have b: "c div 64 < 32" if "c < 0x800" using that by simp
  have b': "c div 4096 < 16" if "c < 0x10000" using that by simp
  have b'': "c div 262144 < 16" using c by simp
  show ?thesis
    using c b b' b''
    by (simp add: cp_utf8_def utf8_def less_nat32 drop_nat32 low6 tag_or ucast_nat32 del: of_nat_add)
qed

lemma lead_bytes:
  "k < 32 \<Longrightarrow> (of_nat (0xC0 + k) :: u8) AND 0xE0 = 0xC0"
  "k < 16 \<Longrightarrow> (of_nat (0xE0 + k) :: u8) AND 0xE0 = 0xE0 \<and> (of_nat (0xE0 + k) :: u8) AND 0xF0 = 0xE0"
  "k < 8 \<Longrightarrow> (of_nat (0xF0 + k) :: u8) AND 0xE0 = 0xE0 \<and> (of_nat (0xF0 + k) :: u8) AND 0xF0 = 0xF0
     \<and> (of_nat (0xF0 + k) :: u8) AND 0xF8 = 0xF0"
proof -
  have "\<forall>k \<in> set [0..<32]. (of_nat (0xC0 + k) :: u8) AND 0xE0 = 0xC0" by code_simp
  then show "k < 32 \<Longrightarrow> (of_nat (0xC0 + k) :: u8) AND 0xE0 = 0xC0" by (simp del: of_nat_add)
  have "\<forall>k \<in> set [0..<16]. (of_nat (0xE0 + k) :: u8) AND 0xE0 = 0xE0 \<and> (of_nat (0xE0 + k) :: u8) AND 0xF0 = 0xE0" by code_simp
  then show "k < 16 \<Longrightarrow> (of_nat (0xE0 + k) :: u8) AND 0xE0 = 0xE0 \<and> (of_nat (0xE0 + k) :: u8) AND 0xF0 = 0xE0"
    by (simp del: of_nat_add)
  have "\<forall>k \<in> set [0..<8]. (of_nat (0xF0 + k) :: u8) AND 0xE0 = 0xE0 \<and> (of_nat (0xF0 + k) :: u8) AND 0xF0 = 0xF0
      \<and> (of_nat (0xF0 + k) :: u8) AND 0xF8 = 0xF0" by code_simp
  then show "k < 8 \<Longrightarrow> (of_nat (0xF0 + k) :: u8) AND 0xE0 = 0xE0 \<and> (of_nat (0xF0 + k) :: u8) AND 0xF0 = 0xF0
      \<and> (of_nat (0xF0 + k) :: u8) AND 0xF8 = 0xF0"
    by (simp del: of_nat_add)
qed

lemma ucast_nat8: "n < 256 \<Longrightarrow> (ucast (of_nat n :: u8) :: 'a::len word) = of_nat n"
proof -
  assume n: "n < 256"
  have "(ucast (of_nat n :: u8) :: 'a word) = of_nat (unat (of_nat n :: u8))" by (simp only: of_nat_unat)
  with n show ?thesis by (simp add: unat_of_nat take_bit_nat_eq_self)
qed

lemma less_nat8: "n < 256 \<Longrightarrow> (of_nat n :: u8) < 0x80 \<longleftrightarrow> n < 0x80"
  by (simp add: word_less_nat_alt unat_of_nat take_bit_nat_eq_self)

lemma low_bits:
  "(of_nat n :: u32) AND 0x1F = of_nat (n mod 32)" "(of_nat n :: u32) AND 0x0F = of_nat (n mod 16)"
  "(of_nat n :: u32) AND 0x07 = of_nat (n mod 8)" "(of_nat n :: u32) AND 0x3FF = of_nat (n mod 1024)"
  using and_low_nat [of n 5, where 'a = 32] and_low_nat [of n 4, where 'a = 32] and_low_nat [of n 3, where 'a = 32]
    and_low_nat [of n 10, where 'a = 32]
  by (simp_all add: mask_eq_exp_minus_1)

lemma push_or:
  "j < 2 ^ k \<Longrightarrow> push_bit k (of_nat i :: u32) OR of_nat j = of_nat (i * 2 ^ k + j)"
  by (simp only: or_low_nat) (simp add: push_bit_eq_mult)

lemma push_nat: "push_bit k (of_nat i :: u32) = of_nat (i * 2 ^ k)"
  by (simp add: push_bit_eq_mult)

lemma or_nat: "j < 2 ^ s \<Longrightarrow> a = i * 2 ^ s \<Longrightarrow> (of_nat a :: u32) OR of_nat j = of_nat (a + j)"
  using push_or [of j s i] by (simp only: push_nat)

lemma tag_mod:
  "k < 32 \<Longrightarrow> (0xC0 + k) mod 32 = k" "k < 16 \<Longrightarrow> (0xE0 + k) mod 16 = k" "k < 8 \<Longrightarrow> (0xF0 + k) mod 8 = k"
  "k < 64 \<Longrightarrow> (0x80 + k) mod 64 = k" for k :: nat
  using mod_mult_self3 [of 6 32 k] mod_mult_self3 [of 14 16 k] mod_mult_self3 [of 30 8 k] mod_mult_self3 [of 2 64 k]
  by simp_all

lemma base64: "c = c div 4096 * 4096 + c div 64 mod 64 * 64 + c mod 64"
  "c = c div 262144 * 262144 + c div 4096 mod 64 * 4096 + c div 64 mod 64 * 64 + c mod 64" for c :: nat
proof -
  have d: "c div 4096 = c div 64 div 64" "c div 262144 = c div 4096 div 64" by (simp_all flip: div_mult2_eq)
  have "c = c div 64 * 64 + c mod 64" "c div 64 = c div 64 div 64 * 64 + c div 64 mod 64"
    "c div 4096 = c div 4096 div 64 * 64 + c div 4096 mod 64" by simp_all
  with d show "c = c div 4096 * 4096 + c div 64 mod 64 * 64 + c mod 64"
    "c = c div 262144 * 262144 + c div 4096 mod 64 * 4096 + c div 64 mod 64 * 64 + c mod 64" by linarith+
qed

lemma next_cp_utf8: "c < 0x110000 \<Longrightarrow> next_cp (map of_nat (utf8 c) @ bs) = (of_nat c, length (utf8 c))"
proof -
  assume c: "c < 0x110000"
  consider "c < 0x80" | "0x80 \<le> c" "c < 0x800" | "0x800 \<le> c" "c < 0x10000" | "0x10000 \<le> c" by linarith
  then show ?thesis
  proof cases
    case 1
    then show ?thesis by (simp add: next_cp_def utf8_def less_nat8 ucast_nat8 Let_def)
  next
    case 2
    define k where "k = c div 64"
    define j where "j = c mod 64"
    have r: "k < 32" "j < 64" "c = k * 64 + j" using 2 by (simp_all add: k_def j_def)
    have u: "utf8 c = [0xC0 + k, 0x80 + j]" using 2 by (simp add: utf8_def k_def j_def)
    have p: "push_bit 6 (of_nat k :: u32) OR of_nat j = of_nat c"
      using push_or [of j 6 k] r by simp
    show ?thesis
      using r(1,2) p lead_bytes(1) [OF r(1)]
      by (simp add: next_cp_def u less_nat8 ucast_nat8 low6 low_bits tag_mod Let_def del: of_nat_add push_bit_and)
  next
    case 3
    define k where "k = c div 4096"
    define j where "j = c div 64 mod 64"
    define i where "i = c mod 64"
    have r: "k < 16" "j < 64" "i < 64" using 3 by (simp_all add: k_def j_def i_def)
    have cv: "c = k * 4096 + j * 64 + i" unfolding k_def j_def i_def by (rule base64(1))
    have u: "utf8 c = [0xE0 + k, 0x80 + j, 0x80 + i]" using 3 by (simp add: utf8_def k_def j_def i_def)
    have p: "push_bit 12 (of_nat k :: u32) OR push_bit 6 (of_nat j) OR of_nat i = of_nat c"
    proof -
      have "push_bit 12 (of_nat k :: u32) OR push_bit 6 (of_nat j) = of_nat (k * 4096 + j * 64)"
        using push_or [of "j * 64" 12 k] r by (simp add: push_nat)
      moreover have "(of_nat (k * 4096 + j * 64) :: u32) OR of_nat i = of_nat (k * 4096 + j * 64 + i)"
        by (rule or_nat [where s = 6 and i = "k * 64 + j"]) (use r in simp_all)
      ultimately show ?thesis by (simp only: cv or.assoc [symmetric])
    qed
    show ?thesis
      using r p lead_bytes(2) [OF r(1)]
      by (simp add: next_cp_def u less_nat8 ucast_nat8 low6 low_bits tag_mod Let_def del: of_nat_add push_bit_and)
  next
    case 4
    define k where "k = c div 262144"
    define j where "j = c div 4096 mod 64"
    define i where "i = c div 64 mod 64"
    define h where "h = c mod 64"
    have r: "k < 8" "j < 64" "i < 64" "h < 64" using c by (simp_all add: k_def j_def i_def h_def)
    have cv: "c = k * 262144 + j * 4096 + i * 64 + h" unfolding k_def j_def i_def h_def by (rule base64(2))
    have u: "utf8 c = [0xF0 + k, 0x80 + j, 0x80 + i, 0x80 + h]" using 4 by (simp add: utf8_def k_def j_def i_def h_def)
    have p: "push_bit 18 (of_nat k :: u32) OR push_bit 12 (of_nat j) OR push_bit 6 (of_nat i) OR of_nat h = of_nat c"
    proof -
      have "push_bit 18 (of_nat k :: u32) OR push_bit 12 (of_nat j) = of_nat (k * 262144 + j * 4096)"
        using push_or [of "j * 4096" 18 k] r by (simp add: push_nat)
      moreover have "(of_nat (k * 262144 + j * 4096) :: u32) OR push_bit 6 (of_nat i) = of_nat (k * 262144 + j * 4096 + i * 64)"
        using or_nat [of "i * 64" 12 "k * 262144 + j * 4096" "k * 64 + j"] r by (simp add: push_nat)
      moreover have "(of_nat (k * 262144 + j * 4096 + i * 64) :: u32) OR of_nat h = of_nat (k * 262144 + j * 4096 + i * 64 + h)"
        by (rule or_nat [where s = 6 and i = "k * 4096 + j * 64 + i"]) (use r in simp_all)
      ultimately show ?thesis by (simp only: cv or.assoc [symmetric])
    qed
    show ?thesis
      using r p lead_bytes(3) [OF r(1)]
      by (simp add: next_cp_def u less_nat8 ucast_nat8 low6 low_bits tag_mod Let_def del: of_nat_add push_bit_and)
  qed
qed

lemma ge_nat32: "n < 4294967296 \<Longrightarrow> 0x10000 \<le> (of_nat n :: u32) \<longleftrightarrow> 0x10000 \<le> n"
  by (simp add: word_le_nat_alt unat_nat32)

lemma cp_units_nat: "c < 0x110000 \<Longrightarrow> cp_units (of_nat c) = map of_nat (utf16 c)"
proof (cases "0x10000 \<le> c")
  case True
  assume c: "c < 0x110000"
  have d: "(of_nat c :: u32) - 0x10000 = of_nat (c - 0x10000)" using True by (simp add: of_nat_diff)
  have b: "(c - 0x10000) div 1024 < 1024" using c by linarith
  have "0xD800 + (of_nat ((c - 0x10000) div 1024) :: u32) = of_nat (0xD800 + (c - 0x10000) div 1024)"
    "0xDC00 + (of_nat ((c - 0x10000) mod 1024) :: u32) = of_nat (0xDC00 + (c - 0x10000) mod 1024)" by simp_all
  with True c b d show ?thesis
    by (simp add: cp_units_def utf16_def ge_nat32 drop_nat32 low_bits ucast_unit_nat32 Let_def del: of_nat_add of_nat_diff)
qed (simp add: cp_units_def utf16_def ge_nat32 ucast_unit_nat32)

lemma utf8_units_cons:
  assumes "c < 0x110000"
  shows "utf8_units (map of_nat (utf8 c) @ bs) = map of_nat (utf16 c) @ utf8_units bs"
proof -
  have ne: "utf8 c \<noteq> []" by (simp add: utf8_def)
  show ?thesis
    by (subst utf8_units.simps) (simp add: ne next_cp_utf8 [OF assms] cp_units_nat [OF assms])
qed

lemma unat_nat16: "n < 65536 \<Longrightarrow> unat (of_nat n :: u16) = n"
  by (simp add: unat_of_nat take_bit_nat_eq_self)

lemma ucast_nat16: "n < 65536 \<Longrightarrow> (ucast (of_nat n :: u16) :: u32) = of_nat n"
proof -
  assume n: "n < 65536"
  have "(ucast (of_nat n :: u16) :: u32) = of_nat (unat (of_nat n :: u16))" by (simp only: of_nat_unat)
  then show ?thesis by (simp only: unat_nat16 [OF n])
qed

lemma utf16_to_utf8_cons:
  assumes "scalar c"
  shows "utf16_to_utf8 (map of_nat (utf16 c) @ us) = map of_nat (utf8 c) @ utf16_to_utf8 us"
proof (cases "c < 0x10000")
  case True
  then have u: "utf16 c = [c]" by (simp add: utf16_def)
  have no: "\<not> (0xD800 \<le> (of_nat c :: u16) \<and> (of_nat c :: u16) \<le> 0xDBFF)"
    using assms True by (auto simp: scalar_def word_le_nat_alt unat_nat16)
  have e: "cp_utf8 (ucast (of_nat c :: u16)) = map of_nat (utf8 c)"
    using assms True by (simp add: ucast_nat16 cp_utf8_nat scalar_def)
  show ?thesis using no e by (cases us) (auto simp: u)
next
  case False
  define h where "h = (c - 0x10000) div 1024"
  define l where "l = (c - 0x10000) mod 1024"
  have c: "c < 0x110000" using assms by (simp add: scalar_def)
  have r: "h < 1024" "l < 1024" using c unfolding h_def l_def by linarith+
  have cv: "c = 0x10000 + h * 1024 + l" using False unfolding h_def l_def by simp
  have u: "utf16 c = [0xD800 + h, 0xDC00 + l]" using False by (simp add: utf16_def h_def l_def)
  have yes: "0xD800 \<le> (of_nat (0xD800 + h) :: u16)" "(of_nat (0xD800 + h) :: u16) \<le> 0xDBFF"
    "0xDC00 \<le> (of_nat (0xDC00 + l) :: u16)" "(of_nat (0xDC00 + l) :: u16) \<le> 0xDFFF"
    using r by (simp_all add: word_le_nat_alt unat_nat16 del: of_nat_add)
  have v: "0x10000 + push_bit 10 (ucast (of_nat (0xD800 + h) :: u16) - 0xD800) + (ucast (of_nat (0xDC00 + l) :: u16) - 0xDC00) = (of_nat c :: u32)"
  proof -
    have "(ucast (of_nat (0xD800 + h) :: u16) :: u32) - 0xD800 = of_nat h"
      "(ucast (of_nat (0xDC00 + l) :: u16) :: u32) - 0xDC00 = of_nat l"
      using r by (simp_all only: ucast_nat16) simp_all
    then show ?thesis by (simp add: cv push_nat)
  qed
  show ?thesis
    using yes by (simp only: u list.map append_Cons append_Nil utf16_to_utf8.simps if_True simp_thms v cp_utf8_nat [OF c])
qed

definition encode_text :: "nat list \<Rightarrow> u8 list" where
  "encode_text cs = concat (map (\<lambda>c. map of_nat (utf8 c)) cs)"

definition encode_units :: "nat list \<Rightarrow> u16 list" where
  "encode_units cs = concat (map (\<lambda>c. map of_nat (utf16 c)) cs)"

lemma utf8_units_text: "\<forall>c \<in> set cs. scalar c \<Longrightarrow> utf8_units (encode_text cs) = encode_units cs"
proof (induction cs)
  case Nil
  show ?case by (subst utf8_units.simps) (simp add: encode_text_def encode_units_def)
next
  case (Cons c cs)
  then have "c < 0x110000" by (simp add: scalar_def)
  from utf8_units_cons [OF this, of "encode_text cs"] Cons show ?case
    by (simp add: encode_text_def encode_units_def)
qed

lemma utf16_to_utf8_units: "\<forall>c \<in> set cs. scalar c \<Longrightarrow> utf16_to_utf8 (encode_units cs) = encode_text cs"
proof (induction cs)
  case (Cons c cs)
  with utf16_to_utf8_cons [of c "encode_units cs"] show ?case
    by (simp add: encode_text_def encode_units_def)
qed (simp add: encode_text_def encode_units_def)

section \<open>What is written is read\<close>

lemma length_unit_bytes [simp]: "length (unit_bytes us) = 2 * length us"
  by (induction us) (simp_all add: unit_bytes_def)

lemma load_units_bytes: "load_bytes m a (2 * length us) = Some (unit_bytes us) \<Longrightarrow> load_units m a (length us) = Some us"
proof (induction us arbitrary: a)
  case (Cons u us)
  have "load_bytes m a (2 + 2 * length us) = Some (le_of_word 2 u @ unit_bytes us)"
    using Cons.prems by (simp add: unit_bytes_def)
  then obtain x y where xy: "load_bytes m a 2 = Some x" "load_bytes m (a + of_nat 2) (2 * length us) = Some y"
    "x @ y = le_of_word 2 u @ unit_bytes us"
    unfolding load_bytes_split by (auto split: bind_splits)
  then have "x = le_of_word 2 u" "y = unit_bytes us" using load_bytes_length [OF xy(1)] by simp_all
  with xy(1,2) Cons.IH [of "a + 2"] show ?case by (simp add: load_le_def word_of_le_of_word)
qed simp

lemma narrow_latin1: "u \<le> 0xFF \<Longrightarrow> (ucast (ucast (u :: u16) :: u8) :: u32) = ucast u"
proof -
  assume "u \<le> 0xFF"
  then have n: "unat u < 256" by (simp add: word_le_nat_alt)
  have "(ucast u :: u8) = of_nat (unat u)" by (simp only: of_nat_unat)
  then have "(ucast (ucast u :: u8) :: u32) = of_nat (unat u)" using n by (simp only: ucast_nat8)
  then show ?thesis by (simp only: of_nat_unat)
qed

lemma latin1_utf8:
  "\<forall>u \<in> set us. u \<le> 0xFF \<Longrightarrow> concat (map (\<lambda>b. cp_utf8 (ucast b)) (map ucast us :: u8 list)) = utf16_to_utf8 us"
proof (induction us rule: utf16_to_utf8.induct)
  case (3 u low us)
  then have "\<not> 0xD800 \<le> u" by (auto simp: word_le_nat_alt)
  with 3 show ?case by (simp add: narrow_latin1)
qed (simp_all add: narrow_latin1)

text \<open>
  The string object at \<open>oop\<close> as the reader finds it: its class \<open>k\<close> and its array, and with
  \<open>string_object\<close> also its coder (\<open>None\<close> in the classic layout). \<open>h2\<close> is the heap record with the
  caches the lookups leave.
\<close>

definition string_header :: "heap_env \<Rightarrow> heap \<Rightarrow> addr \<Rightarrow> addr \<Rightarrow> addr \<Rightarrow> heap \<Rightarrow> bool" where
  "string_header E h oop k arr h2 \<longleftrightarrow> is_valid_pointer oop \<and> is_valid_pointer arr \<and> k \<noteq> 0 \<and> hp_mem h2 = hp_mem h
     \<and> (\<exists>h1 c. heap_find_class E string_class h = Some (k, h1)
        \<and> heap_get_field 4 E oop k ''value'' h1 = Some (c :: u32, h2) \<and> c \<noteq> 0
        \<and> decode_oop_pointer (he_jvm E) (hp_mem h2) c = Some arr)"

definition string_object :: "heap_env \<Rightarrow> heap \<Rightarrow> addr \<Rightarrow> addr \<Rightarrow> u8 option \<Rightarrow> bool" where
  "string_object E h oop arr coder \<longleftrightarrow> (\<exists>k h2. string_header E h oop k arr h2
     \<and> has_field E k ''coder'' h2 = Some (coder \<noteq> None)
     \<and> (\<forall>b. coder = Some b \<longrightarrow> (\<exists>h3. heap_get_field 1 E oop k ''coder'' h2 = Some (b, h3) \<and> hp_mem h3 = hp_mem h)))"

lemma read_java_string_rejected:
  assumes "string_header E h oop k arr h2" and "load32 (hp_mem h) (arr + 12) = Some len" and "sint len \<le> 0 \<or> 4096 < sint len"
  shows "read_java_string E oop h = Some ([], h2)"
  using assms by (auto simp: string_header_def read_java_string_def)

lemma read_java_string_object:
  assumes "string_object E h oop arr coder" and "load32 (hp_mem h) (arr + 12) = Some len" and "0 < sint len" "sint len \<le> 4096"
    and "read_chars (hp_mem h) arr coder (nat (sint len)) = Some s"
  shows "\<exists>h'. read_java_string E oop h = Some (s, h')"
  using assms by (auto simp: string_object_def string_header_def read_java_string_def split: option.splits)

text \<open>The body that \<open>make_java_string\<close> writes for a text lies behind the header of the array.\<close>

definition body_at :: "mem \<Rightarrow> addr \<Rightarrow> string_body \<Rightarrow> bool" where
  "body_at m arr body \<longleftrightarrow> load32 m (arr + 12) = Some (sb_length body)
     \<and> load_bytes m (arr + 16) (length (sb_bytes body)) = Some (sb_bytes body)"

definition body_coder :: "bool \<Rightarrow> string_body \<Rightarrow> u8 option" where
  "body_coder compact body = (if compact then Some (sb_coder body) else None)"

lemma body_length:
  assumes "length us \<le> 4096"
  shows "sint (sb_length (make_body compact us)) =
     (if compact \<and> \<not> (\<forall>u \<in> set us. u \<le> 0xFF) then 2 * int (length us) else int (length us))"
proof -
  have "(of_nat (length us) :: u32) * 2 = of_nat (length us * 2)" by simp
  moreover have "sint (of_nat (length us * 2) :: u32) = int (length us * 2)" "sint (of_nat (length us) :: u32) = int (length us)"
    by (rule sint_of_nat32, use assms in simp)+
  ultimately show ?thesis by (auto simp: make_body_def)
qed

lemma read_chars_body:
  assumes "length us \<le> 4096" and "body_at m arr (make_body compact us)"
  shows "read_chars m arr (body_coder compact (make_body compact us)) (nat (sint (sb_length (make_body compact us))))
     = Some (utf16_to_utf8 us)"
proof (cases "compact \<and> (\<forall>u \<in> set us. u \<le> 0xFF)")
  case True
  then have "load_bytes m (arr + 16) (length us) = Some (map ucast us)"
    using assms(2) by (simp add: body_at_def make_body_def)
  with True body_length [OF assms(1), of compact] latin1_utf8 [of us] show ?thesis
    by (simp add: read_chars_def body_coder_def make_body_def)
next
  case False
  then have b: "sb_bytes (make_body compact us) = unit_bytes us" by (auto simp: make_body_def)
  then have "load_units m (arr + 16) (length us) = Some us"
    using assms(2) by (intro load_units_bytes) (simp add: body_at_def)
  moreover have "nat (2 * int (length us)) div 2 = length us" by simp
  ultimately show ?thesis
    using False body_length [OF assms(1), of compact]
    by (auto simp: read_chars_def body_coder_def make_body_def)
qed

section \<open>Properties\<close>

text \<open>C30. Converting any text of Unicode scalar values from UTF-8 to UTF-16 and back gives the same
  bytes: the decoder of make\_java\_string produces the text's UTF-16 form and the encoder of
  read\_java\_string its UTF-8 form, surrogate pairs included.\<close>

theorem utf8_utf16_roundtrip:
  assumes "\<forall>c \<in> set cs. scalar c"
  shows "utf8_units (encode_text cs) = encode_units cs \<and> utf16_to_utf8 (utf8_units (encode_text cs)) = encode_text cs"
  using utf8_units_text [OF assms] utf16_to_utf8_units [OF assms] by simp

lemma utf8_utf16_roundtrip_witness:
  "utf16_to_utf8 (utf8_units [0x41, 0xC3, 0xA9, 0xE2, 0x82, 0xAC, 0xF0, 0x9F, 0x98, 0x80]) =
     [0x41, 0xC3, 0xA9, 0xE2, 0x82, 0xAC, 0xF0, 0x9F, 0x98, 0x80]"
proof -
  have e: "encode_text [0x41, 0xE9, 0x20AC, 0x1F600] = [0x41, 0xC3, 0xA9, 0xE2, 0x82, 0xAC, 0xF0, 0x9F, 0x98, 0x80]"
    by (simp add: encode_text_def utf8_def)
  have p: "\<forall>c \<in> set [0x41, 0xE9, 0x20AC, 0x1F600]. scalar c" by (simp add: scalar_def)
  show ?thesis using conjunct2 [OF utf8_utf16_roundtrip [OF p]] unfolding e .
qed

text \<open>C31. A text whose body make\_java\_string wrote behind an array header reads back byte for
  byte, in the classic layout and in both codings of the compact layout, as long as the array
  has between 1 and 4096 elements.\<close>

theorem java_string_reads_back:
  assumes "\<forall>c \<in> set cs. scalar c" and "length (encode_units cs) \<le> 4096"
    and "body = make_body compact (string_units (encode_text cs))" and "body_at (hp_mem h) arr body"
    and "string_object E h oop arr (body_coder compact body)" and "0 < sint (sb_length body)" and "sint (sb_length body) \<le> 4096"
  shows "\<exists>h'. read_java_string E oop h = Some (encode_text cs, h')"
proof -
  have u: "string_units (encode_text cs) = encode_units cs"
    using assms(2) utf8_units_text [OF assms(1)] by (simp add: string_units_def)
  with read_chars_body [OF assms(2)] assms(3,4)
  have "read_chars (hp_mem h) arr (body_coder compact body) (nat (sint (sb_length body))) = Some (encode_text cs)"
    by (simp add: utf16_to_utf8_units [OF assms(1)])
  with read_java_string_object [OF assms(5) _ assms(6,7)] assms(4) show ?thesis by (simp add: body_at_def)
qed

text \<open>Make\_java\_string accepts up to 4096 UTF-16 units, but a text with a unit above 255 takes
  two array bytes per unit in the compact layout and read\_java\_string rejects arrays of more
  than 4096: with 2049 units or more such a text reads back as the empty string.\<close>

theorem long_utf16_string_reads_empty:
  assumes "2048 < length us" and "length us \<le> 4096" and "\<exists>u \<in> set us. \<not> u \<le> 0xFF"
    and "body = make_body True us" and "body_at (hp_mem h) arr body" and "string_header E h oop k arr h2"
  shows "read_java_string E oop h = Some ([], h2)"
proof -
  have "4096 < sint (sb_length body)"
    using body_length [OF assms(2), of True] assms(1,3,4) by auto
  with read_java_string_rejected [OF assms(6)] assms(5) show ?thesis by (simp add: body_at_def)
qed

text \<open>Write\_java\_string overwrites the first characters of the backing byte array with the new
  text, as many as fit, keeps the rest of the array and its length, and changes no memory
  outside the array.\<close>

theorem write_java_string_overwrites_prefix:
  assumes "heap_find_class E string_class h = Some (k, h1)" and "k \<noteq> 0" and "is_valid_pointer oop"
    and "find_field (he_jvm E) (hp_mem h) k ''value'' (hp_fields h1) = Some (Some e, fc)" and "fe_signature e \<noteq> ''[C''"
    and "load32 (hp_mem h) (oop + ucast (fe_offset e)) = Some c" and "decode_array_oop (he_jvm E) (hp_mem h) c = Some arr"
    and "arr \<noteq> 0" and "array_sound 1 (hp_mem h) arr n" and "length text < 2 ^ 31"
  shows "\<exists>h'. write_java_string E oop text h = Some h' \<and> array_sound 1 (hp_mem h') arr n
     \<and> (\<forall>j < n. get_array_element 1 (hp_mem h') arr (of_nat j) =
          (if j < length text then Some (text ! j) else get_array_element 1 (hp_mem h) arr (of_nat j :: u32)))
     \<and> (\<forall>b i. apart arr (16 + n) b i \<longrightarrow> load_bytes (hp_mem h') b i = load_bytes (hp_mem h) b i)"
proof -
  have m: "hp_mem h1 = hp_mem h" using assms(1) by (auto simp: heap_find_class_def split: bind_splits)
  have n31: "n < 2 ^ 31" using assms(9) by (simp add: array_sound_def)
  have len: "array_length (hp_mem h) arr = Some (of_nat n)"
    using assms(9) by (simp add: array_length_def array_sound_def)
  define w where "w = take (min n (length text)) text"
  have wr: "nat (min (sint (of_nat n :: u32)) (sint (of_nat (length text) :: u32))) = min n (length text)"
    using sint_of_nat32 [OF n31] sint_of_nat32 [OF assms(10)] by simp
  have "0 + length w \<le> n" by (simp add: w_def)
  from bytes.fill_spec [OF assms(9) this] obtain m' where f: "fill (set_array_element 1) (hp_mem h) arr 0 w = Some m'"
    "array_sound 1 m' arr n"
    "\<And>j. j < n \<Longrightarrow> get_array_element 1 m' arr (of_nat j) = (if j < length w then Some (w ! j) else get_array_element 1 (hp_mem h) arr (of_nat j))"
    "\<And>b i. apart arr (16 + n) b i \<Longrightarrow> load_bytes m' b i = load_bytes (hp_mem h) b i" by auto
  have "write_java_string E oop text h = Some (h1\<lparr>hp_fields := fc, hp_mem := m'\<rparr>)"
    using assms(1-8) m len f(1) wr by (simp add: write_java_string_def w_def)
  with f(2-4) show ?thesis by (auto simp: w_def)
qed

section \<open>A process with a string\<close>

definition string_jvm :: jvm where
  "string_jvm = heap_jvm\<lparr>vm_structs := vm_structs heap_jvm @
     [thread_entry ''CompressedOops'' ''_base'' 0 0x60020, thread_entry ''CompressedOops'' ''_shift'' 0 0x60028]\<rparr>"

definition string_env :: heap_env where
  "string_env = demo_heap_env\<lparr>he_jvm := string_jvm\<rparr>"

text \<open>The string at 0x210000 has its array at 0x220000; \<open>bs\<close> are the array's bytes.\<close>

definition string_mem :: "u64 \<Rightarrow> u8 list \<Rightarrow> mem" where
  "string_mem len bs = put 0x220010 bs (image [(0x22000C, 4, len), (0x21000C, 4, 0x44000), (0x60020, 8, 0), (0x60028, 4, 3)])"

definition value_field :: field_entry_t where
  "value_field = \<lparr>fe_offset = 12, fe_is_static = False, fe_signature = ''[B'', fe_declaring_klass = 0x40000\<rparr>"

definition string_heap :: "mem \<Rightarrow> heap" where
  "string_heap m = (demo_heap m)\<lparr>hp_fields := Mapping.update (0x40000, ''value'') value_field Mapping.empty\<rparr>"

definition string_heap2 :: "mem \<Rightarrow> heap" where
  "string_heap2 m = (string_heap m)\<lparr>hp_classes := \<lparr>klass_lookup_cache = Mapping.update string_class 0x40000 Mapping.empty,
     host_classloader_klass = 1\<rparr>\<rparr>"

lemma string_find_class: "heap_find_class string_env string_class (string_heap m) = Some (0x40000, string_heap2 m)"
proof -
  have "graph_find_klass string_jvm m string_class = Some (Inr 0)"
    by (simp add: graph_find_klass_def graph_get_head_def system_dictionary_def find_in_clds.simps string_jvm_def heap_jvm_def
        threads_jvm_def thread_entry_def iterate_struct_entries_def)
  then show ?thesis
    by (simp add: heap_find_class_def find_class_def resolve_class_def string_env_def demo_heap_env_def string_heap_def
        string_heap2_def demo_heap_def cache_insert_def capture_host_classloader_klass_def)
qed

lemma string_valid: "is_valid_pointer 0x210000" "is_valid_pointer 0x220000" "is_valid_pointer 0x40000"
  by (simp_all add: threads_eval)

lemma string_loads:
  assumes "length bs \<le> 5000"
  shows "load32 (string_mem len bs) 0x22000C = Some (ucast len)" "load32 (string_mem len bs) 0x21000C = Some 0x44000"
    "load64 (string_mem len bs) 0x60020 = Some 0" "load32 (string_mem len bs) 0x60028 = Some 3"
    "load_bytes (string_mem len bs) 0x220010 (length bs) = Some bs"
  using assms load_bytes_put_same [of bs "0x220010"]
  by (simp_all add: string_mem_def mem_simps apart_def unsigned_take_bit_eq take_bit_word_eq_self)

lemma string_header_demo:
  assumes "length bs \<le> 5000"
  shows "string_header string_env (string_heap (string_mem len bs)) 0x210000 0x40000 0x220000 (string_heap2 (string_mem len bs))"
proof -
  let ?m = "string_mem len bs"
  have fe: "find_field string_jvm ?m 0x40000 ''value'' (hp_fields (string_heap ?m)) = Some (Some value_field, hp_fields (string_heap ?m))"
    using string_valid(3) by (simp add: find_field_def string_heap_def valid_not_null)
  have "heap_get_field 4 string_env 0x210000 0x40000 ''value'' (string_heap2 ?m) = Some (0x44000 :: u32, string_heap2 ?m)"
    using fe string_valid(1) string_loads(2) [OF assms, of len]
    by (simp add: heap_get_field_def get_field_def string_env_def string_heap2_def field_location_def value_field_def
        valid_not_null string_heap_def demo_heap_def)
  moreover have "decode_oop_pointer string_jvm ?m 0x44000 = Some 0x220000"
    using string_loads(3,4) [OF assms, of len]
    by (simp add: decode_oop_pointer_def narrow_oop_base_def narrow_oop_shift_def first_entry_def string_jvm_def heap_jvm_def
        threads_jvm_def thread_entry_def iterate_struct_entries_def)
  moreover have "he_jvm string_env = string_jvm" "hp_mem (string_heap2 ?m) = ?m" "hp_mem (string_heap ?m) = ?m"
    by (simp_all add: string_env_def string_heap2_def string_heap_def demo_heap_def)
  ultimately show ?thesis
    using string_find_class [of ?m] string_valid by (simp add: string_header_def)
qed

lemma string_object_demo:
  assumes "length bs \<le> 5000"
  shows "string_object string_env (string_heap (string_mem len bs)) 0x210000 0x220000 None"
proof -
  have "has_field string_env 0x40000 ''coder'' (string_heap2 (string_mem len bs)) = Some False"
    by (simp add: has_field_def klass_find_field_def string_env_def string_jvm_def heap_jvm_def threads_jvm_def
        thread_entry_def iterate_struct_entries_def)
  with string_header_demo [OF assms, of len] show ?thesis by (auto simp: string_object_def)
qed

lemma java_string_reads_back_witness:
  "\<exists>h'. read_java_string string_env 0x210000 (string_heap (string_mem 1 [0xAC, 0x20])) = Some ([0xE2, 0x82, 0xAC], h')"
proof -
  let ?body = "make_body False (string_units (encode_text [0x20AC]))"
  have us: "string_units (encode_text [0x20AC]) = [0x20AC]"
    using utf8_units_text [of "[0x20AC]"] by (simp add: string_units_def encode_units_def utf16_def scalar_def)
  have bs: "sb_bytes ?body = [0xAC, 0x20]"
  proof -
    have "(2 :: nat) = Suc (Suc 0)" by simp
    then have "le_of_word 2 (0x20AC :: u16) = [0xAC, 0x20]" by (simp only: le_of_word.simps) simp
    then show ?thesis by (simp add: us make_body_def unit_bytes_def)
  qed
  have n: "sb_length ?body = 1" by (simp add: us make_body_def)
  have b: "body_at (hp_mem (string_heap (string_mem 1 [0xAC, 0x20]))) 0x220000 ?body"
    using string_loads(1,5) [of "[0xAC, 0x20]" 1] by (simp add: body_at_def bs n string_heap_def demo_heap_def numeral_2_eq_2)
  have o: "string_object string_env (string_heap (string_mem 1 [0xAC, 0x20])) 0x210000 0x220000 (body_coder False ?body)"
    using string_object_demo [of "[0xAC, 0x20]" 1] by (simp add: body_coder_def)
  have "encode_text [0x20AC] = [0xE2, 0x82, 0xAC]" by (simp add: encode_text_def utf8_def)
  moreover have "length (encode_units [0x20AC]) \<le> 4096" "\<forall>c \<in> set [0x20AC]. scalar c"
    by (simp_all add: encode_units_def utf16_def scalar_def)
  moreover have "0 < sint (sb_length ?body)" "sint (sb_length ?body) \<le> 4096" unfolding n by simp_all
  ultimately show ?thesis
    using java_string_reads_back [OF _ _ refl b o] by metis
qed

lemma long_utf16_string_reads_empty_witness:
  "read_java_string string_env 0x210000 (string_heap (string_mem 4098 (unit_bytes (replicate 2049 0x20AC))))
     = Some ([], string_heap2 (string_mem 4098 (unit_bytes (replicate 2049 0x20AC))))"
proof -
  obtain n :: nat where n: "n = 2049" by blast
  let ?us = "replicate n (0x20AC :: u16)"
  let ?h = "string_heap (string_mem 4098 (unit_bytes ?us))"
  have len: "length (unit_bytes ?us) \<le> 5000" using n by simp
  have body: "sb_length (make_body True ?us) = 4098" "sb_bytes (make_body True ?us) = unit_bytes ?us"
    using n by (simp_all add: make_body_def)
  have "body_at (hp_mem ?h) 0x220000 (make_body True ?us)"
    using string_loads(1,5) [OF len, of 4098] by (simp add: body_at_def body string_heap_def demo_heap_def)
  from long_utf16_string_reads_empty [OF _ _ _ refl this string_header_demo [OF len]] n show ?thesis by simp
qed

lemma write_java_string_overwrites_prefix_witness:
  "\<exists>h'. write_java_string string_env 0x210000 [0x58] (string_heap (string_mem 2 [0x61, 0x62])) = Some h'
     \<and> get_array_element 1 (hp_mem h') 0x220000 0 = Some (0x58 :: u8)
     \<and> get_array_element 1 (hp_mem h') 0x220000 1 = Some (0x62 :: u8)"
proof -
  let ?m = "string_mem 2 [0x61, 0x62]"
  have h: "hp_mem (string_heap ?m) = ?m" "he_jvm string_env = string_jvm" by (simp_all add: string_heap_def demo_heap_def string_env_def)
  have snd: "array_sound 1 ?m 0x220000 2"
    using string_loads(1) [of "[0x61, 0x62]" 2] string_valid(2) by (simp add: array_sound_def string_mem_def)
  have snd': "array_sound 1 (hp_mem (string_heap ?m)) 0x220000 2" unfolding h by (rule snd)
  have f: "find_field (he_jvm string_env) (hp_mem (string_heap ?m)) 0x40000 ''value'' (hp_fields (string_heap2 ?m))
      = Some (Some value_field, hp_fields (string_heap2 ?m))"
    using string_valid(3) by (simp add: find_field_def string_heap2_def string_heap_def valid_not_null)
  have l: "load32 (hp_mem (string_heap ?m)) (0x210000 + ucast (fe_offset value_field)) = Some 0x44000"
    using string_loads(2) [of "[0x61, 0x62]" 2] by (simp add: h value_field_def)
  have d: "decode_array_oop (he_jvm string_env) (hp_mem (string_heap ?m)) 0x44000 = Some 0x220000"
    using string_loads(3,4) [of "[0x61, 0x62]" 2] string_valid(2)
    by (simp add: h decode_array_oop_def decode_oop_pointer_def narrow_oop_base_def narrow_oop_shift_def first_entry_def
        string_jvm_def heap_jvm_def threads_jvm_def thread_entry_def iterate_struct_entries_def)
  have s: "fe_signature value_field \<noteq> ''[C''" by (simp add: value_field_def)
  have old: "get_array_element 1 ?m 0x220000 (of_nat 1) = Some (0x62 :: u8)"
  proof -
    have "get_array_element 1 ?m 0x220000 (of_nat 1) = (load_le 1 ?m (0x220000 + of_nat (16 + 1 * 1)) :: u8 option)"
      by (rule array_sound_access(1) [OF snd]) simp
    then show ?thesis by (simp add: string_mem_def load_le_def put_def)
  qed
  obtain h' where "write_java_string string_env 0x210000 [0x58] (string_heap ?m) = Some h'"
    "\<forall>j < 2. get_array_element 1 (hp_mem h') 0x220000 (of_nat j) =
       (if j < 1 then Some ([0x58 :: u8] ! j) else get_array_element 1 ?m 0x220000 (of_nat j :: u32))"
    using write_java_string_overwrites_prefix [OF string_find_class _ string_valid(1) f s l d _ snd', of "[0x58]"]
    by (auto simp: h)
  with old show ?thesis by (auto dest: spec [of _ 0] spec [of _ 1])
qed

end
