(* ===== verification/Field_Proxy.thy ===== *)
theory Field_Proxy
  imports Java_Strings
begin

text \<open>
  Typed access to a field: \<open>field_proxy\<close> with its variant \<open>value_t\<close> (vmhook.hpp lines 11635 to
  12283), the signature tables \<open>sig_char_to_basic_type\<close> and \<open>jvm_primitive_byte_width\<close> (12324 to
  12374), \<open>field_oop\<close> (15870) and the in-place writers \<open>set_str_field\<close>, \<open>set_bool_array\<close>,
  \<open>set_prim_array\<close> and \<open>set_str_array\<close> (15957 to 16069).

  The floating-point alternatives hold the bit pattern of the number. A C++ type that the
  templates are instantiated with is its size in bytes \<open>n\<close> and a word type; a wrapper object is
  the address of the Java object it wraps.
\<close>

section \<open>Signatures\<close>

definition sig_char_to_basic_type :: "char \<Rightarrow> nat" where
  "sig_char_to_basic_type c =
     (if c = CHR ''Z'' then 4 else if c = CHR ''C'' then 5 else if c = CHR ''F'' then 6
      else if c = CHR ''D'' then 7 else if c = CHR ''B'' then 8 else if c = CHR ''S'' then 9
      else if c = CHR ''I'' then 10 else if c = CHR ''J'' then 11 else if c = CHR ''L'' then 12
      else if c = CHR ''['' then 13 else if c = CHR ''V'' then 14 else 12)"

definition jvm_primitive_byte_width :: "string \<Rightarrow> nat" where
  "jvm_primitive_byte_width sg =
     (if length sg \<noteq> 1 then 0
      else if hd sg \<in> {CHR ''Z'', CHR ''B''} then 1
      else if hd sg \<in> {CHR ''S'', CHR ''C''} then 2
      else if hd sg \<in> {CHR ''I'', CHR ''F''} then 4
      else if hd sg \<in> {CHR ''J'', CHR ''D''} then 8
      else 0)"

definition find_call_stub_entry :: "jvm \<Rightarrow> mem \<Rightarrow> addr option" where
  "find_call_stub_entry J m =
     (case vm_struct J ''StubRoutines'' ''_call_stub_entry'' of None \<Rightarrow> Some 0
      | Some e \<Rightarrow>
          if se_address e = 0 then Some 0
          else do { stub \<leftarrow> load64 m (se_address e); Some (if is_valid_pointer stub then stub else 0) })"

section \<open>The proxy and its value\<close>

record field_proxy =
  fp_pointer :: addr
  fp_signature :: string
  fp_static :: bool

datatype field_value =
  Val_Z u8 | Val_B u8 | Val_S u16 | Val_I u32 | Val_J u64 | Val_F u32 | Val_D u64 | Val_C u16 | Val_Ref u32

text \<open>A value is the variant with the signature of the field it came from.\<close>

record value_t =
  vt_data :: field_value
  vt_signature :: string

definition fp_get :: "mem \<Rightarrow> field_proxy \<Rightarrow> value_t option" where
  "fp_get m p = (let a = fp_pointer p; sg = fp_signature p in
     map_option (\<lambda>v. \<lparr>vt_data = v, vt_signature = sg\<rparr>)
     (if a = 0 then Some (Val_I 0)
      else if sg = ''Z'' then map_option Val_Z (load8 m a)
      else if sg = ''B'' then map_option Val_B (load8 m a)
      else if sg = ''S'' then map_option Val_S (load16 m a)
      else if sg = ''I'' then map_option Val_I (load32 m a)
      else if sg = ''J'' then map_option Val_J (load64 m a)
      else if sg = ''F'' then map_option Val_F (load32 m a)
      else if sg = ''D'' then map_option Val_D (load64 m a)
      else if sg = ''C'' then map_option Val_C (load16 m a)
      else map_option Val_Ref (load32 m a)))"

definition fp_is_reference :: "field_proxy \<Rightarrow> bool" where
  "fp_is_reference p \<longleftrightarrow> fp_signature p \<noteq> [] \<and> hd (fp_signature p) \<in> {CHR ''L'', CHR ''[''}"

definition get_compressed_oop :: "mem \<Rightarrow> field_proxy \<Rightarrow> u32 option" where
  "get_compressed_oop m p = (if fp_pointer p = 0 \<or> \<not> fp_is_reference p then Some 0 else load32 m (fp_pointer p))"

definition field_oop :: "jvm \<Rightarrow> mem \<Rightarrow> field_proxy \<Rightarrow> addr option" where
  "field_oop J m p = do { c \<leftarrow> get_compressed_oop m p; decode_array_oop J m c }"

section \<open>Writing\<close>

text \<open>A trivially copyable value of \<open>n\<close> bytes.\<close>

definition fp_set_scalar :: "nat \<Rightarrow> mem \<Rightarrow> field_proxy \<Rightarrow> 'a::len word \<Rightarrow> mem option" where
  "fp_set_scalar n m p v =
     (if fp_pointer p = 0 then Some m
      else if fp_signature p = ''C'' \<and> n = 1 then store16 m (fp_pointer p) (ucast (ucast v :: u8))
      else if jvm_primitive_byte_width (fp_signature p) \<noteq> 0 \<and> n \<noteq> jvm_primitive_byte_width (fp_signature p) then Some m
      else store_le n m (fp_pointer p) v)"

text \<open>A \<open>unique_ptr\<close> to a wrapper; a null pointer and a wrapper of null write the null reference.\<close>

definition fp_set_wrapper :: "jvm \<Rightarrow> mem \<Rightarrow> field_proxy \<Rightarrow> addr \<Rightarrow> mem option" where
  "fp_set_wrapper J m p oop =
     (if jvm_primitive_byte_width (fp_signature p) \<noteq> 0 then Some m
      else if fp_pointer p = 0 then Some m
      else do {
        compressed \<leftarrow> (if oop \<noteq> 0 then encode_oop_pointer J m oop else Some 0);
        store32 m (fp_pointer p) compressed })"

definition set_str_field :: "heap_env \<Rightarrow> field_proxy \<Rightarrow> u8 list \<Rightarrow> heap \<Rightarrow> heap option" where
  "set_str_field E p text h = do {
     oop \<leftarrow> field_oop (he_jvm E) (hp_mem h) p;
     write_java_string E oop text h }"

definition fp_set_string :: "heap_env \<Rightarrow> field_proxy \<Rightarrow> u8 list \<Rightarrow> heap \<Rightarrow> heap option" where
  "fp_set_string E p text h =
     (if jvm_primitive_byte_width (fp_signature p) \<noteq> 0 then Some h else set_str_field E p text h)"

text \<open>The number of elements a vector of \<open>k\<close> elements writes into the array.\<close>

definition write_count :: "u32 \<Rightarrow> nat \<Rightarrow> nat" where
  "write_count len k = nat (min (sint len) (sint (of_nat k :: u32)))"

text \<open>
  The common shape of the array writers: the elements of \<open>vs\<close> that fit, stored in order by the
  element writer \<open>set_at\<close>.
\<close>

definition set_array :: "(mem \<Rightarrow> addr \<Rightarrow> u32 \<Rightarrow> 'v \<Rightarrow> mem option) \<Rightarrow> jvm \<Rightarrow> mem \<Rightarrow> field_proxy \<Rightarrow> 'v list \<Rightarrow> mem option" where
  "set_array set_at J m p vs = do {
     arr \<leftarrow> field_oop J m p;
     if arr = 0 then Some m
     else do {
       len \<leftarrow> array_length m arr;
       fill set_at m arr 0 (take (write_count len (length vs)) vs) } }"

definition set_bool_array :: "jvm \<Rightarrow> mem \<Rightarrow> field_proxy \<Rightarrow> bool list \<Rightarrow> mem option" where
  "set_bool_array J m p vs = set_array (set_array_element 1) J m p (map (\<lambda>b. if b then 1 else 0 :: u8) vs)"

definition set_prim_array :: "nat \<Rightarrow> jvm \<Rightarrow> mem \<Rightarrow> field_proxy \<Rightarrow> 'a::len word list \<Rightarrow> mem option" where
  "set_prim_array n J m p vs = set_array (set_array_element n) J m p vs"

text \<open>The instance for \<open>char\<close>, which widens into a Java \<open>char[]\<close>.\<close>

definition set_char_array :: "jvm \<Rightarrow> mem \<Rightarrow> field_proxy \<Rightarrow> u8 list \<Rightarrow> mem option" where
  "set_char_array J m p vs =
     (if fp_signature p = ''[C'' then set_array (set_array_element 2) J m p (map ucast vs :: u16 list)
      else set_array (set_array_element 1) J m p vs)"

fun write_strings :: "heap_env \<Rightarrow> addr \<Rightarrow> nat \<Rightarrow> u8 list list \<Rightarrow> heap \<Rightarrow> heap option" where
  "write_strings E arr i [] h = Some h"
| "write_strings E arr i (t # ts) h = do {
     compressed \<leftarrow> get_array_element 4 (hp_mem h) arr (of_nat i);
     oop \<leftarrow> decode_oop_pointer (he_jvm E) (hp_mem h) compressed;
     h \<leftarrow> write_java_string E oop t h;
     write_strings E arr (Suc i) ts h }"

definition set_str_array :: "heap_env \<Rightarrow> field_proxy \<Rightarrow> u8 list list \<Rightarrow> heap \<Rightarrow> heap option" where
  "set_str_array E p ts h = do {
     arr \<leftarrow> field_oop (he_jvm E) (hp_mem h) p;
     if arr = 0 then Some h
     else do {
       len \<leftarrow> array_length (hp_mem h) arr;
       write_strings E arr 0 (take (write_count len (length ts)) ts) h } }"

text \<open>\<open>set\<close> of a vector refuses a primitive field before it looks at the element type.\<close>

definition fp_set_prim_vector :: "nat \<Rightarrow> jvm \<Rightarrow> mem \<Rightarrow> field_proxy \<Rightarrow> 'a::len word list \<Rightarrow> mem option" where
  "fp_set_prim_vector n J m p vs =
     (if jvm_primitive_byte_width (fp_signature p) \<noteq> 0 then Some m else set_prim_array n J m p vs)"

section \<open>Converting a value\<close>

text \<open>The elements of the array that a compressed reference points to; null or an empty array give the empty vector.\<close>

definition array_elements :: "nat \<Rightarrow> jvm \<Rightarrow> mem \<Rightarrow> u32 \<Rightarrow> 'a::len word list option" where
  "array_elements n J m compressed = do {
     arr \<leftarrow> decode_array_oop J m compressed;
     if arr = 0 then Some []
     else do {
       len \<leftarrow> array_length m arr;
       elements (get_array_element n) m arr 0 (nat (sint len)) } }"

fun read_strings :: "heap_env \<Rightarrow> u32 list \<Rightarrow> heap \<Rightarrow> (u8 list list \<times> heap) option" where
  "read_strings E [] h = Some ([], h)"
| "read_strings E (c # cs) h = do {
     oop \<leftarrow> decode_oop_pointer (he_jvm E) (hp_mem h) c;
     (s, h) \<leftarrow> read_java_string E oop h;
     (ss, h) \<leftarrow> read_strings E cs h;
     Some (s # ss, h) }"

text \<open>The target types of \<open>cast_for_variant\<close> that read references; any other alternative gives the empty value.\<close>

definition ref_of :: "value_t \<Rightarrow> u32 option" where
  "ref_of v = (case vt_data v of Val_Ref c \<Rightarrow> Some c | _ \<Rightarrow> None)"

definition as_string :: "heap_env \<Rightarrow> value_t \<Rightarrow> heap \<Rightarrow> (u8 list \<times> heap) option" where
  "as_string E v h =
     (case ref_of v of None \<Rightarrow> Some ([], h)
      | Some c \<Rightarrow> do { oop \<leftarrow> decode_oop_pointer (he_jvm E) (hp_mem h) c; read_java_string E oop h })"

definition as_bools :: "jvm \<Rightarrow> mem \<Rightarrow> value_t \<Rightarrow> bool list option" where
  "as_bools J m v = (case ref_of v of None \<Rightarrow> Some []
     | Some c \<Rightarrow> map_option (map (\<lambda>b. b \<noteq> 0)) (array_elements 1 J m c :: u8 list option))"

definition as_chars :: "jvm \<Rightarrow> mem \<Rightarrow> value_t \<Rightarrow> u8 list option" where
  "as_chars J m v = (case ref_of v of None \<Rightarrow> Some []
     | Some c \<Rightarrow>
         if vt_signature v = ''[C'' then map_option (map ucast) (array_elements 2 J m c :: u16 list option)
         else array_elements 1 J m c)"

definition as_prims :: "nat \<Rightarrow> jvm \<Rightarrow> mem \<Rightarrow> value_t \<Rightarrow> 'a::len word list option" where
  "as_prims n J m v = (case ref_of v of None \<Rightarrow> Some [] | Some c \<Rightarrow> array_elements n J m c)"

definition as_strings :: "heap_env \<Rightarrow> value_t \<Rightarrow> heap \<Rightarrow> (u8 list list \<times> heap) option" where
  "as_strings E v h = (case ref_of v of None \<Rightarrow> Some ([], h)
     | Some c \<Rightarrow> do { cs \<leftarrow> array_elements 4 (he_jvm E) (hp_mem h) c; read_strings E cs h })"

text \<open>A \<open>unique_ptr\<close>: the address the new wrapper holds, or null.\<close>

definition as_wrapper :: "jvm \<Rightarrow> mem \<Rightarrow> value_t \<Rightarrow> addr option" where
  "as_wrapper J m v = (case ref_of v of None \<Rightarrow> Some 0
     | Some c \<Rightarrow>
         if vt_signature v = [] \<or> hd (vt_signature v) \<noteq> CHR ''L'' then Some 0
         else do { d \<leftarrow> decode_oop_pointer J m c; Some (if is_valid_pointer d then d else 0) })"

definition as_pointer :: "jvm \<Rightarrow> mem \<Rightarrow> value_t \<Rightarrow> addr option" where
  "as_pointer J m v = (case ref_of v of None \<Rightarrow> Some 0 | Some c \<Rightarrow> decode_oop_pointer J m c)"

section \<open>Typing\<close>

text \<open>The alternative of \<open>value_t\<close> that a descriptor selects, and the value that \<open>w\<close> bytes of a field stand for.\<close>

definition typed_as :: "string \<Rightarrow> field_value \<Rightarrow> bool" where
  "typed_as sg v = (case v of
       Val_Z _ \<Rightarrow> sg = ''Z'' | Val_B _ \<Rightarrow> sg = ''B'' | Val_S _ \<Rightarrow> sg = ''S'' | Val_I _ \<Rightarrow> sg = ''I''
     | Val_J _ \<Rightarrow> sg = ''J'' | Val_F _ \<Rightarrow> sg = ''F'' | Val_D _ \<Rightarrow> sg = ''D'' | Val_C _ \<Rightarrow> sg = ''C''
     | Val_Ref _ \<Rightarrow> jvm_primitive_byte_width sg = 0)"

definition typed_value :: "string \<Rightarrow> u64 \<Rightarrow> field_value" where
  "typed_value sg w =
     (if sg = ''Z'' then Val_Z (ucast w) else if sg = ''B'' then Val_B (ucast w) else if sg = ''S'' then Val_S (ucast w)
      else if sg = ''I'' then Val_I (ucast w) else if sg = ''J'' then Val_J w else if sg = ''F'' then Val_F (ucast w)
      else if sg = ''D'' then Val_D w else if sg = ''C'' then Val_C (ucast w) else Val_Ref (ucast w))"

lemma primitive_signatures:
  "jvm_primitive_byte_width sg \<noteq> 0 \<longleftrightarrow> sg \<in> {''Z'', ''B'', ''S'', ''C'', ''I'', ''F'', ''J'', ''D''}"
proof (cases sg)
  case Nil
  then show ?thesis by (simp add: jvm_primitive_byte_width_def)
next
  case (Cons c cs)
  then show ?thesis by (cases cs) (auto simp: jvm_primitive_byte_width_def)
qed

lemma primitive_width_le: "jvm_primitive_byte_width sg \<le> 8"
  by (simp add: jvm_primitive_byte_width_def)

lemma jvm_primitive_byte_width_simps [simp]:
  "jvm_primitive_byte_width ''Z'' = 1" "jvm_primitive_byte_width ''B'' = 1" "jvm_primitive_byte_width ''S'' = 2"
  "jvm_primitive_byte_width ''C'' = 2" "jvm_primitive_byte_width ''I'' = 4" "jvm_primitive_byte_width ''F'' = 4"
  "jvm_primitive_byte_width ''J'' = 8" "jvm_primitive_byte_width ''D'' = 8"
  by (simp_all add: jvm_primitive_byte_width_def)

text \<open>A store of \<open>n\<close> bytes reads back, through any word type, as the low \<open>n\<close> bytes of the value.\<close>

lemma load_after_store:
  assumes "store_le n m a (v :: 'a::len word) = Some m'" and "n \<le> 2 ^ 64"
  shows "load_le n m' a = Some (ucast (take_bit (8 * n) v))"
  using assms by (auto simp: store_le_put load_put_cell split: if_splits)

lemma fp_get_stored:
  assumes "store_le (jvm_primitive_byte_width sg) m a (v :: u64) = Some m'"
    and "jvm_primitive_byte_width sg \<noteq> 0" and "a \<noteq> 0" and "fp_pointer p = a" and "fp_signature p = sg"
  shows "fp_get m' p = Some \<lparr>vt_data = typed_value sg v, vt_signature = sg\<rparr>"
proof -
  from assms(2) have "sg \<in> {''Z'', ''B'', ''S'', ''C'', ''I'', ''F'', ''J'', ''D''}" by (simp only: primitive_signatures)
  with assms show ?thesis
    by (auto simp: fp_get_def typed_value_def load_after_store take_bit_cast take_bit_word_eq_self)
qed

lemma elements_length: "elements get_at m a i n = Some vs \<Longrightarrow> length vs = n"
  by (induction n arbitrary: i vs) (auto split: bind_splits)

lemma elements_nth:
  "elements get_at m a i n = Some vs \<Longrightarrow> j < n \<Longrightarrow> get_at m a (of_nat (i + j)) = Some (vs ! j)"
proof (induction n arbitrary: i j vs)
  case (Suc n)
  then show ?case by (cases j) (force split: bind_splits simp del: of_nat_Suc of_nat_add)+
qed simp

section \<open>Properties\<close>

text \<open>Reading a field gives the alternative of the variant that the field's descriptor names,
  and every descriptor that is not primitive gives a compressed reference; only a proxy without
  a field (a null pointer) gives an int whatever its descriptor says.\<close>

theorem fp_get_typed:
  assumes "fp_get m p = Some v"
  shows "vt_signature v = fp_signature p
     \<and> (if fp_pointer p = 0 then vt_data v = Val_I 0 else typed_as (fp_signature p) (vt_data v))"
proof -
  let ?sg = "fp_signature p"
  show ?thesis
  proof (cases "fp_pointer p = 0")
    case True
    with assms show ?thesis by (auto simp: fp_get_def)
  next
    case False
    consider "?sg = ''Z''" | "?sg = ''B''" | "?sg = ''S''" | "?sg = ''C''" | "?sg = ''I''" | "?sg = ''F''" | "?sg = ''J''"
      | "?sg = ''D''" | "jvm_primitive_byte_width ?sg = 0" "?sg \<notin> {''Z'', ''B'', ''S'', ''C'', ''I'', ''F'', ''J'', ''D''}"
      using primitive_signatures [of ?sg] by blast
    then show ?thesis
      by cases (use assms False in \<open>auto simp: fp_get_def Let_def typed_as_def\<close>)
  qed
qed

lemma fp_get_typed_witness:
  "fp_get (image [(0x1000, 4, 42)]) \<lparr>fp_pointer = 0x1000, fp_signature = ''I'', fp_static = False\<rparr>
     = Some \<lparr>vt_data = Val_I 42, vt_signature = ''I''\<rparr> \<and> typed_as ''I'' (Val_I 42)"
proof -
  let ?p = "\<lparr>fp_pointer = 0x1000, fp_signature = ''I'', fp_static = False\<rparr>"
  have g: "fp_get (image [(0x1000, 4, 42)]) ?p = Some \<lparr>vt_data = Val_I 42, vt_signature = ''I''\<rparr>"
    by (simp add: fp_get_def mem_simps take_bit_word_eq_self unsigned_take_bit_eq)
  with fp_get_typed [OF g] show ?thesis by simp
qed

text \<open>C32. Writing a C++ value of n bytes into a primitive field: when n is the field's width the
  field then reads back as that value; a one-byte value widens into a char field; with any other
  size the memory is left as it was. In every case no byte outside the field changes.\<close>

theorem fp_set_scalar_type_safe:
  assumes "jvm_primitive_byte_width (fp_signature p) = w" and "w \<noteq> 0" and "fp_pointer p \<noteq> 0"
    and "fp_set_scalar n m p (v :: u64) = Some m'"
  shows "(n = w \<longrightarrow> fp_get m' p = Some \<lparr>vt_data = typed_value (fp_signature p) v, vt_signature = fp_signature p\<rparr>)
     \<and> (n = 1 \<and> fp_signature p = ''C'' \<longrightarrow> fp_get m' p = Some \<lparr>vt_data = Val_C (ucast (ucast v :: u8)), vt_signature = ''C''\<rparr>)
     \<and> (n \<noteq> w \<and> \<not> (n = 1 \<and> fp_signature p = ''C'') \<longrightarrow> m' = m)
     \<and> (\<forall>b k. apart (fp_pointer p) w b k \<longrightarrow> load_bytes m' b k = load_bytes m b k)"
proof (cases "n = 1 \<and> fp_signature p = ''C''")
  case True
  then have st: "store_le 2 m (fp_pointer p) (ucast (ucast v :: u8) :: u16) = Some m'"
    using assms(3,4) by (simp add: fp_set_scalar_def)
  have "load16 m' (fp_pointer p) = Some (ucast (ucast v :: u8))" by (rule load_store_same [OF st]) simp_all
  with True assms(1,3) store_load_bytes [OF st] show ?thesis by (auto simp: fp_get_def)
next
  case False
  show ?thesis
  proof (cases "n = w")
    case True
    then have st: "store_le w m (fp_pointer p) v = Some m'"
      using False assms by (auto simp: fp_set_scalar_def)
    have "w \<le> 2 ^ 64" using primitive_width_le [of "fp_signature p"] assms(1) by simp
    from fp_get_stored [OF _ _ assms(3) refl refl] st assms(1,2) store_load_bytes [OF st this] True False
    show ?thesis by auto
  next
    case n: False
    then have "m' = m" using False assms by (auto simp: fp_set_scalar_def)
    with n False show ?thesis by blast
  qed
qed

lemma fp_set_scalar_type_safe_witness:
  "\<exists>m'. fp_set_scalar 4 (image []) \<lparr>fp_pointer = 0x1000, fp_signature = ''I'', fp_static = False\<rparr> (7 :: u64) = Some m'
     \<and> fp_get m' \<lparr>fp_pointer = 0x1000, fp_signature = ''I'', fp_static = False\<rparr> = Some \<lparr>vt_data = Val_I 7, vt_signature = ''I''\<rparr>
     \<and> load_bytes m' 0x1004 4 = load_bytes (image []) 0x1004 4"
proof -
  let ?p = "\<lparr>fp_pointer = 0x1000, fp_signature = ''I'', fp_static = False\<rparr>"
  have s: "fp_set_scalar 4 (image []) ?p (7 :: u64) = Some (put 0x1000 (le_of_word 4 (7 :: u64)) (image []))"
    by (simp add: fp_set_scalar_def store_le_put)
  have a: "apart 0x1000 4 0x1004 4" by (simp add: apart_def)
  from s a fp_set_scalar_type_safe [OF _ _ _ s, of 4] show ?thesis by (simp add: typed_value_def)
qed

text \<open>The size guard of the scalar write does not apply to reference fields: storing an
  eight-byte value into a field of reference type overwrites the four bytes behind the four-byte
  slot with the upper half of the value.\<close>

theorem wide_scalar_overruns_reference:
  assumes "fp_is_reference p" and "fp_pointer p \<noteq> 0" and "fp_set_scalar 8 m p (v :: u64) = Some m'"
  shows "load32 m' (fp_pointer p + 4) = Some (ucast (drop_bit 32 v))"
proof -
  have "jvm_primitive_byte_width (fp_signature p) = 0 \<and> fp_signature p \<noteq> ''C''"
    using assms(1) by (auto simp: fp_is_reference_def jvm_primitive_byte_width_def)
  with assms(2,3) have "mapped m (fp_pointer p) 8 \<and> m' = put (fp_pointer p) (le_of_word 8 v) m"
    by (auto simp: fp_set_scalar_def store_le_put split: if_splits)
  moreover have "load_bytes (put (fp_pointer p) (le_of_word 8 v) m) (fp_pointer p + of_nat 4) 4
      = Some (take 4 (drop 4 (le_of_word 8 v)))"
    by (rule load_bytes_put_inner) simp_all
  moreover have "take 4 (drop 4 (le_of_word 8 v)) = le_of_word 4 (drop_bit 32 v)"
    by (simp add: numeral_eq_Suc)
  ultimately show ?thesis
    by (simp add: load_le_def word_of_le_of_word_cast take_bit_cast)
qed

lemma wide_scalar_overruns_reference_witness:
  "\<exists>m'. fp_set_scalar 8 (image [(0x1004, 4, 0xAAAA)]) \<lparr>fp_pointer = 0x1000, fp_signature = ''LA;'', fp_static = False\<rparr> (0x500000007 :: u64) = Some m'
     \<and> load32 m' 0x1004 = Some 5 \<and> load32 (image [(0x1004, 4, 0xAAAA)]) 0x1004 = Some 0xAAAA"
proof -
  let ?p = "\<lparr>fp_pointer = 0x1000, fp_signature = ''LA;'', fp_static = False\<rparr>"
  have s: "\<exists>m'. fp_set_scalar 8 (image [(0x1004, 4, 0xAAAA)]) ?p (0x500000007 :: u64) = Some m'"
    by (simp add: fp_set_scalar_def store_le_put jvm_primitive_byte_width_def del: image.simps)
  have r: "fp_is_reference ?p" by (simp add: fp_is_reference_def)
  from s obtain m' where m': "fp_set_scalar 8 (image [(0x1004, 4, 0xAAAA)]) ?p (0x500000007 :: u64) = Some m'" ..
  have "load32 (image [(0x1004, 4, 0xAAAA)]) 0x1004 = Some 0xAAAA"
    by (simp add: mem_simps take_bit_word_eq_self unsigned_take_bit_eq)
  with wide_scalar_overruns_reference [OF r _ m'] m' show ?thesis by simp
qed

text \<open>Setting an array field from a vector overwrites the first elements of the Java array with the
  vector's, as many as fit, whatever the element width; the rest of the array, its length and all
  memory outside it stay as they were, so the array then reads as the overwritten list.\<close>

theorem set_prim_array_then_read:
  assumes "field_oop J m p = Some arr" and "array_sound n m arr k" and "LENGTH('a) \<le> 8 * n" and "length vs < 2 ^ 31"
    and "elements (get_array_element n) m arr 0 k = Some (old :: 'a::len word list)"
  shows "\<exists>m'. set_prim_array n J m p vs = Some m' \<and> array_sound n m' arr k
     \<and> elements (get_array_element n) m' arr 0 k = Some (take k vs @ drop (length vs) old)
     \<and> (\<forall>b i. apart arr (16 + k * n) b i \<longrightarrow> load_bytes m' b i = load_bytes m b i)"
proof -
  have k31: "k < 2 ^ 31" and v: "is_valid_pointer arr" using assms(2) by (auto simp: array_sound_def)
  then have len: "array_length m arr = Some (of_nat k)" "arr \<noteq> 0"
    using assms(2) by (auto simp: array_length_def array_sound_def valid_not_null)
  have wc: "write_count (of_nat k) (length vs) = min k (length vs)"
    using k31 assms(4) by (simp only: write_count_def sint_of_nat32)
  define w where "w = take (min k (length vs)) vs"
  have "0 + length w \<le> k" by (simp add: w_def)
  from indexed_store.fill_spec [OF array_store_laws [OF assms(3)] assms(2) this]
  obtain m' where f: "fill (set_array_element n) m arr 0 w = Some m'" "array_sound n m' arr k"
    "\<And>j. j < k \<Longrightarrow> get_array_element n m' arr (of_nat j) = (if j < length w then Some (w ! j) else get_array_element n m arr (of_nat j))"
    "\<And>b i. apart arr (16 + k * n) b i \<Longrightarrow> load_bytes m' b i = load_bytes m b i" by auto
  have s: "set_prim_array n J m p vs = Some m'"
    using f(1) by (simp add: set_prim_array_def set_array_def assms(1) len wc w_def)
  have lo: "length old = k" using elements_length [OF assms(5)] .
  have "elements (get_array_element n) m' arr 0 k = Some (take k vs @ drop (length vs) old)"
  proof (rule indexed_store.elements_Some [OF array_store_laws [OF assms(3)]])
    fix j assume j: "j < k"
    have "get_array_element n m arr (of_nat j) = Some (old ! j)" using elements_nth [OF assms(5) j] by simp
    with f(3) [OF j] j lo show "get_array_element n m' arr (of_nat (0 + j)) = Some ((take k vs @ drop (length vs) old) ! j)"
      by (auto simp: w_def nth_append min_def)
  qed (simp add: lo)
  with s f(2,4) show ?thesis by blast
qed

lemma string_decode:
  assumes "length bs \<le> 5000"
  shows "decode_array_oop string_jvm (string_mem len bs) 0x44000 = Some 0x220000"
  using string_loads(3,4) [OF assms, of len] string_valid(2)
  by (simp add: decode_array_oop_def decode_oop_pointer_def narrow_oop_base_def narrow_oop_shift_def first_entry_def
      string_jvm_def heap_jvm_def threads_jvm_def thread_entry_def iterate_struct_entries_def)

definition bytes_field :: field_proxy where
  "bytes_field = \<lparr>fp_pointer = 0x21000C, fp_signature = ''[B'', fp_static = False\<rparr>"

lemma bytes_field_oop:
  "length bs \<le> 5000 \<Longrightarrow> field_oop string_jvm (string_mem len bs) bytes_field = Some 0x220000"
  using string_loads(2) [of bs len] string_decode [of bs len]
  by (simp add: field_oop_def get_compressed_oop_def fp_is_reference_def bytes_field_def)

lemma set_prim_array_then_read_witness:
  "\<exists>m'. set_prim_array 1 string_jvm (string_mem 2 [0x61, 0x62]) bytes_field [0x58 :: u8] = Some m'
     \<and> elements (get_array_element 1) m' 0x220000 0 2 = Some [0x58 :: u8, 0x62]"
proof -
  let ?m = "string_mem 2 [0x61, 0x62]"
  have snd: "array_sound 1 ?m 0x220000 2"
    using string_loads(1) [of "[0x61, 0x62]" 2] string_valid(2) by (simp add: array_sound_def string_mem_def)
  have "elements (get_array_element 1) ?m 0x220000 0 2 = Some [0x61 :: u8, 0x62]"
  proof (rule bytes.elements_Some)
    fix j :: nat assume j: "j < 2"
    have g: "get_array_element 1 ?m 0x220000 (of_nat (0 + j)) = (load_le 1 ?m (0x220000 + of_nat (16 + j * 1)) :: u8 option)"
      using array_sound_access(1) [OF snd j] by simp
    from j consider "j = 0" | "j = 1" by linarith
    then show "get_array_element 1 ?m 0x220000 (of_nat (0 + j)) = Some ([0x61 :: u8, 0x62] ! j)"
      unfolding g by cases (simp_all add: string_mem_def load_le_def put_def)
  qed simp
  with set_prim_array_then_read [OF bytes_field_oop snd, of "[0x58 :: u8]"] show ?thesis by auto
qed

end
