(* ===== verification/Jni_Bridge.thy ===== *)
theory Jni_Bridge
  imports Java_Strings "HOL-Library.Multiset"
begin

text \<open>
  The JNI helpers of vmhook.hpp (lines 9116 to 10273): the function-table lookup, one wrapper
  per JNI function the header uses, the class lookup through class loaders
  (\<open>jni_find_class_with_context_loader\<close>, 9534), the inheritance of the host's context class
  loader (9784) and the packing of call arguments (9944 to 10273).

  The JVM behind the function table is not part of the repository. Its state is the parameter
  type of \<open>jni_world\<close>, and \<open>je_call\<close> says what calling a function pointer of the table does to
  the world: it may change memory, the thread globals and the JVM's own state, and it may not
  return (\<open>None\<close>). Which pointer is called is read out of the table in memory, as the code does.
\<close>

section \<open>The function table\<close>

datatype jni_arg = Word u64 | Text "u8 list" | Values "u64 list"

record 'w jni_world =
  jw_heap :: heap
  jw_vm :: 'w

record 'w jni_env =
  je_heap :: heap_env
  je_call :: "addr \<Rightarrow> jni_arg list \<Rightarrow> 'w jni_world \<Rightarrow> (u64 \<times> 'w jni_world) option"

abbreviation je_jvm :: "'w jni_env \<Rightarrow> jvm" where "je_jvm E \<equiv> he_jvm (je_heap E)"
abbreviation jw_mem :: "'w jni_world \<Rightarrow> mem" where "jw_mem w \<equiv> hp_mem (jw_heap w)"
abbreviation jni_env_pointer :: "'w jni_world \<Rightarrow> addr" where "jni_env_pointer w \<equiv> current_jni_env (hp_threads (jw_heap w))"

definition jni_function :: "nat \<Rightarrow> mem \<Rightarrow> addr \<Rightarrow> addr option" where
  "jni_function index m jni =
     (if jni = 0 then Some 0
      else do {
        table \<leftarrow> load64 m jni;
        if table = 0 then Some 0 else load64 m (table + 8 * of_nat index) })"

text \<open>The common shape of the wrappers: a null function pointer gives null.\<close>

definition call_jni_slot :: "'w jni_env \<Rightarrow> nat \<Rightarrow> jni_arg list \<Rightarrow> 'w jni_world \<Rightarrow> (u64 \<times> 'w jni_world) option" where
  "call_jni_slot E index args w = do {
     f \<leftarrow> jni_function index (jw_mem w) (jni_env_pointer w);
     if f = 0 then Some (0, w) else je_call E f (Word (jni_env_pointer w) # args) w }"

text \<open>A C string argument ends at the first NUL byte.\<close>

definition c_str :: "u8 list \<Rightarrow> jni_arg" where
  "c_str bs = Text (takeWhile (\<lambda>b. b \<noteq> 0) bs)"

definition bytes_of_chars :: "string \<Rightarrow> u8 list" where
  "bytes_of_chars s = map (\<lambda>c. of_nat (of_char c)) s"

abbreviation c_name :: "string \<Rightarrow> jni_arg" where "c_name s \<equiv> c_str (bytes_of_chars s)"

definition ensure_thread :: "'w jni_env \<Rightarrow> 'w jni_world \<Rightarrow> (bool \<times> 'w jni_world) option" where
  "ensure_thread E w = do {
     (ok, g, m) \<leftarrow> ensure_current_java_thread (je_jvm E) (he_invocation (je_heap E)) (hp_threads (jw_heap w), jw_mem w);
     Some (ok, w\<lparr>jw_heap := (jw_heap w)\<lparr>hp_threads := g, hp_mem := m\<rparr>\<rparr>) }"

section \<open>One wrapper per JNI function\<close>

definition jni_decode_object :: "mem \<Rightarrow> addr \<Rightarrow> addr option" where
  "jni_decode_object m handle =
     (if handle = 0 then Some 0
      else do { oop \<leftarrow> load64 m handle; Some (if is_valid_pointer oop then oop else 0) })"

definition jni_delete_local_ref :: "'w jni_env \<Rightarrow> addr \<Rightarrow> 'w jni_world \<Rightarrow> 'w jni_world option" where
  "jni_delete_local_ref E handle w =
     (if handle = 0 then Some w else map_option snd (call_jni_slot E 23 [Word handle] w))"

definition jni_new_global_ref :: "'w jni_env \<Rightarrow> addr \<Rightarrow> 'w jni_world \<Rightarrow> (addr \<times> 'w jni_world) option" where
  "jni_new_global_ref E handle w =
     (if handle = 0 then Some (0, w) else call_jni_slot E 21 [Word handle] w)"

definition jni_delete_global_ref :: "'w jni_env \<Rightarrow> addr \<Rightarrow> 'w jni_world \<Rightarrow> 'w jni_world option" where
  "jni_delete_global_ref E handle w =
     (if handle = 0 then Some w else map_option snd (call_jni_slot E 22 [Word handle] w))"

text \<open>\<open>storage\<close> is the address of the caller's local variable.\<close>

definition jni_oop_handle :: "mem \<Rightarrow> addr \<Rightarrow> addr \<Rightarrow> (addr \<times> mem) option" where
  "jni_oop_handle m oop storage = do { m \<leftarrow> store64 m storage oop; Some (storage, m) }"

definition jni_find_class :: "'w jni_env \<Rightarrow> string \<Rightarrow> 'w jni_world \<Rightarrow> (addr \<times> 'w jni_world) option" where
  "jni_find_class E class_name w = do {
     (ok, w) \<leftarrow> ensure_thread E w;
     if \<not> ok then Some (0, w) else call_jni_slot E 6 [c_name class_name] w }"

definition jni_exception_clear :: "'w jni_env \<Rightarrow> 'w jni_world \<Rightarrow> 'w jni_world option" where
  "jni_exception_clear E w = do {
     check \<leftarrow> jni_function 228 (jw_mem w) (jni_env_pointer w);
     clear \<leftarrow> jni_function 17 (jw_mem w) (jni_env_pointer w);
     if check = 0 \<or> clear = 0 then Some w
     else do {
       (pending, w) \<leftarrow> je_call E check [Word (jni_env_pointer w)] w;
       if (ucast pending :: u8) = 0 then Some w
       else map_option snd (je_call E clear [Word (jni_env_pointer w)] w) } }"

definition jni_get_object_class :: "'w jni_env \<Rightarrow> addr \<Rightarrow> 'w jni_world \<Rightarrow> (addr \<times> 'w jni_world) option" where
  "jni_get_object_class E handle w = call_jni_slot E 31 [Word handle] w"

definition jni_get_method_id :: "'w jni_env \<Rightarrow> addr \<Rightarrow> string \<Rightarrow> string \<Rightarrow> 'w jni_world \<Rightarrow> (addr \<times> 'w jni_world) option" where
  "jni_get_method_id E cls name sg w = do {
     w \<leftarrow> jni_exception_clear E w;
     (mid, w) \<leftarrow> call_jni_slot E 33 [Word cls, c_name name, c_name sg] w;
     w \<leftarrow> (if mid = 0 then jni_exception_clear E w else Some w);
     Some (mid, w) }"

definition jni_get_static_method_id :: "'w jni_env \<Rightarrow> addr \<Rightarrow> string \<Rightarrow> string \<Rightarrow> 'w jni_world \<Rightarrow> (addr \<times> 'w jni_world) option" where
  "jni_get_static_method_id E cls name sg w = call_jni_slot E 113 [Word cls, c_name name, c_name sg] w"

definition jni_get_static_field_id :: "'w jni_env \<Rightarrow> addr \<Rightarrow> string \<Rightarrow> string \<Rightarrow> 'w jni_world \<Rightarrow> (addr \<times> 'w jni_world) option" where
  "jni_get_static_field_id E cls name sg w = call_jni_slot E 144 [Word cls, c_name name, c_name sg] w"

definition jni_get_static_object_field :: "'w jni_env \<Rightarrow> addr \<Rightarrow> addr \<Rightarrow> 'w jni_world \<Rightarrow> (addr \<times> 'w jni_world) option" where
  "jni_get_static_object_field E cls fid w = call_jni_slot E 145 [Word cls, Word fid] w"

definition jni_call_object_method ::
  "'w jni_env \<Rightarrow> addr \<Rightarrow> addr \<Rightarrow> u64 list \<Rightarrow> 'w jni_world \<Rightarrow> (addr \<times> 'w jni_world) option" where
  "jni_call_object_method E object mid args w = call_jni_slot E 36 [Word object, Word mid, Values args] w"

definition jni_call_static_object_method ::
  "'w jni_env \<Rightarrow> addr \<Rightarrow> addr \<Rightarrow> u64 list \<Rightarrow> 'w jni_world \<Rightarrow> (addr \<times> 'w jni_world) option" where
  "jni_call_static_object_method E cls mid args w = call_jni_slot E 116 [Word cls, Word mid, Values args] w"

definition jni_new_string_utf :: "'w jni_env \<Rightarrow> u8 list \<Rightarrow> 'w jni_world \<Rightarrow> (addr \<times> 'w jni_world) option" where
  "jni_new_string_utf E text w = call_jni_slot E 167 [c_str text] w"

text \<open>The bytes up to the terminating NUL.\<close>

partial_function (option) read_c_str :: "mem \<Rightarrow> addr \<Rightarrow> u8 list option" where
  "read_c_str m a = do {
     b \<leftarrow> m a;
     if b = 0 then Some [] else do { bs \<leftarrow> read_c_str m (a + 1); Some (b # bs) } }"

definition jni_get_string_utf :: "'w jni_env \<Rightarrow> addr \<Rightarrow> 'w jni_world \<Rightarrow> (u8 list \<times> 'w jni_world) option" where
  "jni_get_string_utf E handle w =
     (if handle = 0 then Some ([], w)
      else do {
        get_chars \<leftarrow> jni_function 169 (jw_mem w) (jni_env_pointer w);
        release \<leftarrow> jni_function 170 (jw_mem w) (jni_env_pointer w);
        if get_chars = 0 then Some ([], w)
        else do {
          (chars, w) \<leftarrow> je_call E get_chars [Word (jni_env_pointer w), Word handle] w;
          if chars = 0 then Some ([], w)
          else do {
            text \<leftarrow> read_c_str (jw_mem w) chars;
            w \<leftarrow> (if release = 0 then Some w
                 else map_option snd (je_call E release [Word (jni_env_pointer w), Word handle, Word chars] w));
            Some (text, w) } } })"

definition jni_klass_from_class_mirror :: "jvm \<Rightarrow> mem \<Rightarrow> addr \<Rightarrow> addr option" where
  "jni_klass_from_class_mirror J m class_handle = do {
     class_oop \<leftarrow> jni_decode_object m class_handle;
     if class_oop = 0 \<or> \<not> is_valid_pointer class_oop then Some 0
     else case vm_struct J ''java_lang_Class'' ''_klass_offset'' of
       None \<Rightarrow> Some 0
     | Some e \<Rightarrow>
         if se_address e = 0 then Some 0
         else do {
           off \<leftarrow> load32 m (se_address e);
           let raw = safe_read_pointer m (class_oop + scast off);
           Some (if is_valid_pointer raw then untag_pointer raw else 0) } }"

section \<open>Class lookup through the loaders\<close>

text \<open>\<open>local_ref_bag\<close> collects the handles that its destructor deletes on every return.\<close>

definition track :: "addr \<Rightarrow> addr list \<Rightarrow> addr list" where
  "track handle bag = (if handle = 0 then bag else bag @ [handle])"

fun delete_refs :: "'w jni_env \<Rightarrow> addr list \<Rightarrow> 'w jni_world \<Rightarrow> 'w jni_world option" where
  "delete_refs E [] w = Some w"
| "delete_refs E (h # hs) w = do { w \<leftarrow> jni_delete_local_ref E h w; delete_refs E hs w }"

text \<open>The return of a function that owns a bag: null after clearing the exception.\<close>

definition give_up :: "'w jni_env \<Rightarrow> addr list \<Rightarrow> 'w jni_world \<Rightarrow> (addr \<times> addr list \<times> 'w jni_world) option" where
  "give_up E bag w = do { w \<leftarrow> jni_exception_clear E w; Some (0, bag, w) }"

definition dotted :: "string \<Rightarrow> string" where
  "dotted s = map (\<lambda>c. if c = CHR ''/'' then CHR ''.'' else c) s"

definition load_with_loader ::
  "'w jni_env \<Rightarrow> string \<Rightarrow> addr \<Rightarrow> addr list \<Rightarrow> 'w jni_world \<Rightarrow> (addr \<times> addr list \<times> 'w jni_world) option" where
  "load_with_loader E class_name loader bag w =
     (if loader = 0 then Some (0, bag, w)
      else do {
        (cls, w) \<leftarrow> jni_find_class E ''java/lang/ClassLoader'' w;
        let bag = track cls bag;
        if cls = 0 then give_up E bag w
        else do {
          (mid, w) \<leftarrow> jni_get_method_id E cls ''loadClass'' ''(Ljava/lang/String;)Ljava/lang/Class;'' w;
          if mid = 0 then give_up E bag w
          else do {
            (name, w) \<leftarrow> jni_new_string_utf E (bytes_of_chars (dotted class_name)) w;
            let bag = track name bag;
            if name = 0 then give_up E bag w
            else do {
              (mirror, w) \<leftarrow> jni_call_object_method E loader mid [name] w;
              let bag = track mirror bag;
              k \<leftarrow> jni_klass_from_class_mirror (je_jvm E) (jw_mem w) mirror;
              w \<leftarrow> jni_exception_clear E w;
              Some (k, bag, w) } } } })"

text \<open>The three loaders in turn: the thread's context loader, the system loader, Minecraft's launcher.\<close>

definition try_context_loader ::
  "'w jni_env \<Rightarrow> string \<Rightarrow> addr list \<Rightarrow> 'w jni_world \<Rightarrow> (addr \<times> addr list \<times> 'w jni_world) option" where
  "try_context_loader E class_name bag w = do {
     (cls, w) \<leftarrow> jni_find_class E ''java/lang/Thread'' w;
     let bag = track cls bag;
     if cls = 0 then Some (0, bag, w)
     else do {
       (current_id, w) \<leftarrow> jni_get_static_method_id E cls ''currentThread'' ''()Ljava/lang/Thread;'' w;
       (loader_id, w) \<leftarrow> jni_get_method_id E cls ''getContextClassLoader'' ''()Ljava/lang/ClassLoader;'' w;
       if current_id = 0 \<or> loader_id = 0 then Some (0, bag, w)
       else do {
         (thread, w) \<leftarrow> jni_call_static_object_method E cls current_id [] w;
         let bag = track thread bag;
         (loader, w) \<leftarrow> (if thread = 0 then Some (0, w) else jni_call_object_method E thread loader_id [] w);
         let bag = track loader bag;
         load_with_loader E class_name loader bag w } } }"

definition try_system_loader ::
  "'w jni_env \<Rightarrow> string \<Rightarrow> addr list \<Rightarrow> 'w jni_world \<Rightarrow> (addr \<times> addr list \<times> 'w jni_world) option" where
  "try_system_loader E class_name bag w = do {
     (cls, w) \<leftarrow> jni_find_class E ''java/lang/ClassLoader'' w;
     let bag = track cls bag;
     if cls = 0 then Some (0, bag, w)
     else do {
       (mid, w) \<leftarrow> jni_get_static_method_id E cls ''getSystemClassLoader'' ''()Ljava/lang/ClassLoader;'' w;
       (loader, w) \<leftarrow> (if mid = 0 then Some (0, w) else jni_call_static_object_method E cls mid [] w);
       let bag = track loader bag;
       load_with_loader E class_name loader bag w } }"

definition try_launch_loader ::
  "'w jni_env \<Rightarrow> string \<Rightarrow> addr list \<Rightarrow> 'w jni_world \<Rightarrow> (addr \<times> addr list \<times> 'w jni_world) option" where
  "try_launch_loader E class_name bag w = do {
     (cls, w) \<leftarrow> jni_find_class E ''net/minecraft/launchwrapper/Launch'' w;
     let bag = track cls bag;
     if cls = 0 then give_up E bag w
     else do {
       (fid, w) \<leftarrow> jni_get_static_field_id E cls ''classLoader'' ''Lnet/minecraft/launchwrapper/LaunchClassLoader;'' w;
       (loader, w) \<leftarrow> (if fid = 0 then Some (0, w) else jni_get_static_object_field E cls fid w);
       let bag = track loader bag;
       (k, bag, w) \<leftarrow> load_with_loader E class_name loader bag w;
       if k \<noteq> 0 then Some (k, bag, w) else give_up E bag w } }"

text \<open>The composition of the three loaders, which share the bag.\<close>

definition try_loaders :: "'w jni_env \<Rightarrow> string \<Rightarrow> 'w jni_world \<Rightarrow> (addr \<times> addr list \<times> 'w jni_world) option" where
  "try_loaders E n w = do {
     (k, bag, w) \<leftarrow> try_context_loader E n [] w;
     (if k \<noteq> 0 then Some (k, bag, w)
      else do {
        w \<leftarrow> jni_exception_clear E w;
        (k, bag, w) \<leftarrow> try_system_loader E n bag w;
        if k \<noteq> 0 then Some (k, bag, w)
        else do { w \<leftarrow> jni_exception_clear E w; try_launch_loader E n bag w } }) }"

definition jni_find_class_with_context_loader :: "'w jni_env \<Rightarrow> string \<Rightarrow> 'w jni_world \<Rightarrow> (addr \<times> 'w jni_world) option" where
  "jni_find_class_with_context_loader E class_name w = do {
     (ok, w) \<leftarrow> ensure_thread E w;
     if \<not> ok then Some (0, w)
     else do {
       (k, bag, w) \<leftarrow> try_loaders E class_name w;
       w \<leftarrow> delete_refs E bag w;
       Some (k, w) } }"

text \<open>\<open>storage\<close> is the address of the local variable that holds the loader's oop.\<close>

definition inherit_host_context_classloader :: "'w jni_env \<Rightarrow> addr \<Rightarrow> 'w jni_world \<Rightarrow> 'w jni_world option" where
  "inherit_host_context_classloader E storage w = (let host = host_classloader_klass (hp_classes (jw_heap w)) in
     if host = 0 then Some w
     else do {
       loader \<leftarrow> klass_to_class_loader_oop (je_jvm E) (jw_mem w) host;
       if loader = 0 \<or> jni_env_pointer w = 0 then Some w
       else do {
         (cls, w) \<leftarrow> jni_find_class E ''java/lang/Thread'' w;
         if cls = 0 then jni_exception_clear E w
         else do {
           (current_id, w) \<leftarrow> jni_get_static_method_id E cls ''currentThread'' ''()Ljava/lang/Thread;'' w;
           (set_id, w) \<leftarrow> jni_get_method_id E cls ''setContextClassLoader'' ''(Ljava/lang/ClassLoader;)V'' w;
           if current_id = 0 \<or> set_id = 0 then jni_exception_clear E w
           else do {
             (thread, w) \<leftarrow> jni_call_static_object_method E cls current_id [] w;
             if thread = 0 then jni_exception_clear E w
             else do {
               (handle, m) \<leftarrow> jni_oop_handle (jw_mem w) loader storage;
               let w = w\<lparr>jw_heap := (jw_heap w)\<lparr>hp_mem := m\<rparr>\<rparr>;
               f \<leftarrow> jni_function 63 (jw_mem w) (jni_env_pointer w);
               if f = 0 then Some w
               else do {
                 (_, w) \<leftarrow> je_call E f [Word (jni_env_pointer w), Word thread, Word set_id, Values [handle]] w;
                 jni_exception_clear E w } } } } } })"

section \<open>Packing call arguments\<close>

text \<open>
  The argument types the templates accept. A wrapper carries the number of its C++ type and the
  object it wraps; a \<open>unique_ptr\<close> may be null.
\<close>

datatype java_arg =
    Arg_String "u8 list" | Arg_CString "u8 list option" | Arg_Unique nat "addr option" | Arg_Object nat addr
  | Arg_Bool bool | Arg_I8 u8 | Arg_U8 u8 | Arg_I16 u16 | Arg_U16 u16 | Arg_I32 u32 | Arg_I64 u64
  | Arg_Float u32 | Arg_Double u64

definition wrapper_signature :: "(nat, string) mapping \<Rightarrow> nat \<Rightarrow> string" where
  "wrapper_signature types t = (case Mapping.lookup types t of None \<Rightarrow> ''Ljava/lang/Object;''
     | Some cn \<Rightarrow> ''L'' @ cn @ '';'')"

fun jni_signature_for_arg :: "(nat, string) mapping \<Rightarrow> java_arg \<Rightarrow> string" where
  "jni_signature_for_arg types (Arg_String _) = ''Ljava/lang/String;''"
| "jni_signature_for_arg types (Arg_CString _) = ''Ljava/lang/String;''"
| "jni_signature_for_arg types (Arg_Unique t _) = wrapper_signature types t"
| "jni_signature_for_arg types (Arg_Object t _) = wrapper_signature types t"
| "jni_signature_for_arg types (Arg_Bool _) = ''Z''"
| "jni_signature_for_arg types (Arg_I8 _) = ''B''"
| "jni_signature_for_arg types (Arg_U8 _) = ''B''"
| "jni_signature_for_arg types (Arg_I16 _) = ''S''"
| "jni_signature_for_arg types (Arg_U16 _) = ''C''"
| "jni_signature_for_arg types (Arg_I32 _) = ''I''"
| "jni_signature_for_arg types (Arg_I64 _) = ''J''"
| "jni_signature_for_arg types (Arg_Float _) = ''F''"
| "jni_signature_for_arg types (Arg_Double _) = ''D''"

text \<open>The 8 bytes of the union \<open>jni_value\<close> after it was zeroed and one member was written.\<close>

fun scalar_value :: "java_arg \<Rightarrow> u64" where
  "scalar_value (Arg_Bool b) = (if b then 1 else 0)"
| "scalar_value (Arg_I8 v) = ucast (scast v :: u32)"
| "scalar_value (Arg_U8 v) = ucast v"
| "scalar_value (Arg_I16 v) = ucast (scast v :: u32)"
| "scalar_value (Arg_U16 v) = ucast v"
| "scalar_value (Arg_I32 v) = ucast v"
| "scalar_value (Arg_I64 v) = v"
| "scalar_value (Arg_Float v) = ucast v"
| "scalar_value (Arg_Double v) = v"
| "scalar_value _ = 0"

text \<open>
  The vector \<open>object_handles\<close> with the address of its buffer: a push beyond the capacity moves
  the elements to a new buffer, whose address is the allocator's choice.
\<close>

record handle_vector =
  hv_base :: addr
  hv_items :: "addr list"
  hv_capacity :: nat

definition push_handle :: "(handle_vector \<Rightarrow> addr \<times> nat) \<Rightarrow> addr \<Rightarrow> handle_vector \<Rightarrow> handle_vector" where
  "push_handle grow oop v =
     (if length (hv_items v) < hv_capacity v then v\<lparr>hv_items := hv_items v @ [oop]\<rparr>
      else (case grow v of (b, c) \<Rightarrow> \<lparr>hv_base = b, hv_items = hv_items v @ [oop], hv_capacity = c\<rparr>))"

definition back_address :: "handle_vector \<Rightarrow> addr" where
  "back_address v = hv_base v + 8 * of_nat (length (hv_items v) - 1)"

record jni_args =
  ja_values :: "u64 list"
  ja_handles :: handle_vector
  ja_release :: "bool list"

definition push_value :: "u64 \<Rightarrow> bool \<Rightarrow> jni_args \<Rightarrow> jni_args" where
  "push_value v release a = a\<lparr>ja_values := ja_values a @ [v], ja_release := ja_release a @ [release]\<rparr>"

definition push_object :: "(handle_vector \<Rightarrow> addr \<times> nat) \<Rightarrow> addr \<Rightarrow> jni_args \<Rightarrow> jni_args" where
  "push_object grow oop a = (let v = push_handle grow oop (ja_handles a)
     in push_value (back_address v) False (a\<lparr>ja_handles := v\<rparr>))"

definition append_jni_arg ::
  "'w jni_env \<Rightarrow> (handle_vector \<Rightarrow> addr \<times> nat) \<Rightarrow> java_arg \<Rightarrow> jni_args \<times> 'w jni_world \<Rightarrow> (jni_args \<times> 'w jni_world) option" where
  "append_jni_arg E grow x s = (case s of (a, w) \<Rightarrow> (case x of
       Arg_String text \<Rightarrow> do { (h, w) \<leftarrow> jni_new_string_utf E text w; Some (push_value h (h \<noteq> 0) a, w) }
     | Arg_CString text \<Rightarrow> do {
         (h, w) \<leftarrow> jni_new_string_utf E (case text of None \<Rightarrow> [] | Some t \<Rightarrow> t) w; Some (push_value h (h \<noteq> 0) a, w) }
     | Arg_Unique _ obj \<Rightarrow> Some (push_object grow (case obj of None \<Rightarrow> 0 | Some oop \<Rightarrow> oop) a, w)
     | Arg_Object _ oop \<Rightarrow> Some (push_object grow oop a, w)
     | _ \<Rightarrow> Some (push_value (scalar_value x) False a, w)))"

fun append_jni_args ::
  "'w jni_env \<Rightarrow> (handle_vector \<Rightarrow> addr \<times> nat) \<Rightarrow> java_arg list \<Rightarrow> jni_args \<times> 'w jni_world \<Rightarrow> (jni_args \<times> 'w jni_world) option" where
  "append_jni_args E grow [] s = Some s"
| "append_jni_args E grow (x # xs) s = do { s \<leftarrow> append_jni_arg E grow x s; append_jni_args E grow xs s }"

text \<open>\<open>reserve\<close>: a buffer of at least \<open>n\<close> elements.\<close>

definition reserve :: "(handle_vector \<Rightarrow> nat \<Rightarrow> addr) \<Rightarrow> nat \<Rightarrow> handle_vector \<Rightarrow> handle_vector" where
  "reserve alloc n v = (if n \<le> hv_capacity v then v else v\<lparr>hv_base := alloc v n, hv_capacity := n\<rparr>)"

definition make_jni_args ::
  "'w jni_env \<Rightarrow> (handle_vector \<Rightarrow> nat \<Rightarrow> addr) \<Rightarrow> (handle_vector \<Rightarrow> addr \<times> nat) \<Rightarrow> java_arg list \<Rightarrow> handle_vector \<Rightarrow> 'w jni_world \<Rightarrow>
     (jni_args \<times> 'w jni_world) option" where
  "make_jni_args E alloc grow xs v w =
     append_jni_args E grow xs (\<lparr>ja_values = [], ja_handles = reserve alloc (length xs) v, ja_release = []\<rparr>, w)"

text \<open>The allocation-free form: the value, whether it must be released, and the caller's storage slot.\<close>

definition write_jni_arg_to_slot ::
  "'w jni_env \<Rightarrow> addr \<Rightarrow> java_arg \<Rightarrow> 'w jni_world \<Rightarrow> (u64 \<times> bool \<times> 'w jni_world) option" where
  "write_jni_arg_to_slot E storage x w = (let object = (\<lambda>oop. do {
         m \<leftarrow> store64 (jw_mem w) storage oop; Some (storage, False, w\<lparr>jw_heap := (jw_heap w)\<lparr>hp_mem := m\<rparr>\<rparr>) })
     in case x of
       Arg_String text \<Rightarrow> do { (h, w) \<leftarrow> jni_new_string_utf E text w; Some (h, h \<noteq> 0, w) }
     | Arg_CString None \<Rightarrow> Some (0, False, w)
     | Arg_CString (Some text) \<Rightarrow> do { (h, w) \<leftarrow> jni_new_string_utf E text w; Some (h, h \<noteq> 0, w) }
     | Arg_Unique _ obj \<Rightarrow> object (case obj of None \<Rightarrow> 0 | Some oop \<Rightarrow> oop)
     | Arg_Object _ oop \<Rightarrow> object oop
     | _ \<Rightarrow> Some (scalar_value x, False, w))"

section \<open>Local references\<close>

text \<open>
  What JNI documents about local references: FindClass, NewObject, GetObjectClass, the object-returning
  calls, GetStaticObjectField and NewStringUTF give a new reference or null, DeleteLocalRef
  removes one and is in the table, and no other function the header calls creates or removes any. \<open>refs\<close> reads the
  live references out of the JVM's state, \<open>kind\<close> says which function a pointer of the table is,
  and \<open>ok\<close> is a condition on the world that every call keeps. The table has 233 entries.
\<close>

definition creates_ref :: "nat \<Rightarrow> bool" where
  "creates_ref i \<longleftrightarrow> i \<in> {6, 30, 31, 36, 116, 145, 167}"

definition ref_after :: "nat \<Rightarrow> jni_arg list \<Rightarrow> u64 \<Rightarrow> addr multiset \<Rightarrow> addr multiset" where
  "ref_after i args r R =
     (if creates_ref i then (if r = 0 then R else add_mset r R)
      else if i = 23 then (case args of [_, Word h] \<Rightarrow> R - {#h#} | _ \<Rightarrow> R)
      else R)"

definition ref_contract :: "'w jni_env \<Rightarrow> (addr \<Rightarrow> nat) \<Rightarrow> ('w \<Rightarrow> addr multiset) \<Rightarrow> ('w jni_world \<Rightarrow> bool) \<Rightarrow> bool" where
  "ref_contract E kind refs ok \<longleftrightarrow>
     (\<forall>w i f. ok w \<longrightarrow> i < 233 \<longrightarrow> jni_function i (jw_mem w) (jni_env_pointer w) = Some f \<longrightarrow> f \<noteq> 0 \<longrightarrow> kind f = i)
   \<and> (\<forall>w f args r w'. ok w \<longrightarrow> je_call E f args w = Some (r, w') \<longrightarrow>
        ok w' \<and> refs (jw_vm w') = ref_after (kind f) args r (refs (jw_vm w)))
   \<and> (\<forall>w. ok w \<longrightarrow> jni_function 23 (jw_mem w) (jni_env_pointer w) \<noteq> Some 0)
   \<and> (\<forall>w b w'. ok w \<longrightarrow> ensure_thread E w = Some (b, w') \<longrightarrow> ok w')"

text \<open>\<open>holding refs ok R bag w\<close>: the live references are \<open>R\<close> and those the bag still has to delete.\<close>

definition holding ::
  "('w \<Rightarrow> addr multiset) \<Rightarrow> ('w jni_world \<Rightarrow> bool) \<Rightarrow> addr multiset \<Rightarrow> addr list \<Rightarrow> 'w jni_world \<Rightarrow> bool" where
  "holding refs ok R bag w \<longleftrightarrow> ok w \<and> 0 \<notin> set bag \<and> refs (jw_vm w) = R + mset bag"

lemma creates_ref_slots [simp]:
  "creates_ref 6" "creates_ref 30" "creates_ref 31" "creates_ref 36" "creates_ref 116" "creates_ref 145" "creates_ref 167"
  "\<not> creates_ref 17" "\<not> creates_ref 23" "\<not> creates_ref 33" "\<not> creates_ref 63" "\<not> creates_ref 113"
  "\<not> creates_ref 144" "\<not> creates_ref 228"
  by (simp_all add: creates_ref_def)

lemma mset_track: "mset (track h bag) = (if h = 0 then mset bag else add_mset h (mset bag))"
  by (simp add: track_def)

lemma set_track: "0 \<notin> set bag \<Longrightarrow> 0 \<notin> set (track h bag)"
  by (simp add: track_def)

lemma call_holding:
  assumes "ref_contract E kind refs ok" and "holding refs ok R bag w" and "je_call E f args w = Some (r, w')"
    and "\<not> creates_ref (kind f)" and "kind f \<noteq> 23"
  shows "holding refs ok R bag w'"
proof -
  have "ok w" using assms(2) by (simp add: holding_def)
  with assms(1,3) have "ok w' \<and> refs (jw_vm w') = ref_after (kind f) args r (refs (jw_vm w))"
    unfolding ref_contract_def by blast
  with assms(2,4,5) show ?thesis by (simp add: holding_def ref_after_def)
qed

lemma slot_kind:
  assumes "ref_contract E kind refs ok" and "holding refs ok R bag w"
    and "jni_function i (jw_mem w) (jni_env_pointer w) = Some f" and "f \<noteq> 0" and "i < 233"
  shows "kind f = i"
  using assms unfolding ref_contract_def holding_def by blast

lemma slot_neutral:
  assumes "ref_contract E kind refs ok" and "holding refs ok R bag w" and "call_jni_slot E i args w = Some (r, w')"
    and "\<not> creates_ref i" and "i \<noteq> 23" and "i < 233"
  shows "holding refs ok R bag w'"
proof -
  obtain f where f: "jni_function i (jw_mem w) (jni_env_pointer w) = Some f"
    and c: "(if f = 0 then Some (0, w) else je_call E f (Word (jni_env_pointer w) # args) w) = Some (r, w')"
    using assms(3) by (auto simp: call_jni_slot_def split: bind_splits)
  show ?thesis
  proof (cases "f = 0")
    case True
    with c assms(2) show ?thesis by simp
  next
    case False
    from slot_kind [OF assms(1,2) f False assms(6)] c False show ?thesis
      using call_holding [OF assms(1,2)] assms(4,5) by auto
  qed
qed

lemma slot_creating:
  assumes "ref_contract E kind refs ok" and "holding refs ok R bag w" and "call_jni_slot E i args w = Some (r, w')"
    and "creates_ref i"
  shows "holding refs ok R (track r bag) w'"
proof -
  obtain f where f: "jni_function i (jw_mem w) (jni_env_pointer w) = Some f"
    and c: "(if f = 0 then Some (0, w) else je_call E f (Word (jni_env_pointer w) # args) w) = Some (r, w')"
    using assms(3) by (auto simp: call_jni_slot_def split: bind_splits)
  show ?thesis
  proof (cases "f = 0")
    case True
    with c assms(2) show ?thesis by (auto simp: track_def)
  next
    case False
    have "i < 233" using assms(4) by (auto simp: creates_ref_def)
    then have k: "kind f = i" by (rule slot_kind [OF assms(1,2) f False])
    have "ok w" using assms(2) by (simp add: holding_def)
    with assms(1) c False have "ok w' \<and> refs (jw_vm w') = ref_after (kind f) (Word (jni_env_pointer w) # args) r (refs (jw_vm w))"
      unfolding ref_contract_def by (metis (no_types, lifting))
    with k assms(2,4) show ?thesis by (simp add: holding_def ref_after_def mset_track set_track)
  qed
qed

lemma delete_holding:
  assumes "ref_contract E kind refs ok" and "holding refs ok R (h # bag) w" and "jni_delete_local_ref E h w = Some w'"
  shows "holding refs ok R bag w'"
proof -
  have t: "jni_function 23 (jw_mem w) (jni_env_pointer w) \<noteq> Some 0"
    using assms(1,2) unfolding ref_contract_def holding_def by blast
  obtain f r where f: "jni_function 23 (jw_mem w) (jni_env_pointer w) = Some f" "f \<noteq> 0"
    and c: "je_call E f [Word (jni_env_pointer w), Word h] w = Some (r, w')"
    using assms(2,3) t by (auto simp: holding_def jni_delete_local_ref_def call_jni_slot_def split: bind_splits if_splits)
  have "ok w" using assms(2) by (simp add: holding_def)
  with assms(1) c have "ok w' \<and> refs (jw_vm w') = ref_after (kind f) [Word (jni_env_pointer w), Word h] r (refs (jw_vm w))"
    unfolding ref_contract_def by blast
  moreover have "kind f = 23" by (rule slot_kind [OF assms(1,2) f]) simp
  ultimately show ?thesis using assms(2) by (simp add: holding_def ref_after_def creates_ref_def)
qed

lemma delete_refs_holding:
  assumes "ref_contract E kind refs ok"
  shows "holding refs ok R bag w \<Longrightarrow> delete_refs E bag w = Some w' \<Longrightarrow> holding refs ok R [] w'"
proof (induction bag arbitrary: w)
  case Nil
  then show ?case by simp
next
  case (Cons h bag)
  then obtain w1 where "jni_delete_local_ref E h w = Some w1" "delete_refs E bag w1 = Some w'"
    by (auto split: bind_splits)
  moreover have "holding refs ok R bag w1"
    using delete_holding [OF assms Cons.prems(1) calculation(1)] .
  ultimately show ?case using Cons.IH by auto
qed

text \<open>Every operation keeps the balance between the references and the bag.\<close>

lemma ensure_holding:
  assumes "ref_contract E kind refs ok" and "holding refs ok R bag w" and "ensure_thread E w = Some (b, w')"
  shows "holding refs ok R bag w'"
proof -
  have "jw_vm w' = jw_vm w" using assms(3) by (auto simp: ensure_thread_def split: bind_splits)
  moreover have "ok w'" using assms unfolding ref_contract_def holding_def by blast
  ultimately show ?thesis using assms(2) by (simp add: holding_def)
qed

lemma find_class_holding:
  assumes "ref_contract E kind refs ok" and "holding refs ok R bag w" and "jni_find_class E n w = Some (r, w')"
  shows "holding refs ok R (track r bag) w'"
proof -
  obtain b w1 where e: "ensure_thread E w = Some (b, w1)"
    and c: "(if \<not> b then Some (0, w1) else call_jni_slot E 6 [c_name n] w1) = Some (r, w')"
    using assms(3) by (auto simp: jni_find_class_def split: bind_splits)
  from ensure_holding [OF assms(1,2) e] have h: "holding refs ok R bag w1" .
  show ?thesis
  proof (cases b)
    case True
    then show ?thesis using c slot_creating [OF assms(1) h] by (simp add: creates_ref_def)
  next
    case False
    with c h show ?thesis by (auto simp: track_def)
  qed
qed

lemma exception_clear_holding:
  assumes "ref_contract E kind refs ok" and "holding refs ok R bag w" and "jni_exception_clear E w = Some w'"
  shows "holding refs ok R bag w'"
proof -
  obtain check clear where f: "jni_function 228 (jw_mem w) (jni_env_pointer w) = Some check"
    "jni_function 17 (jw_mem w) (jni_env_pointer w) = Some clear"
    using assms(3) by (auto simp: jni_exception_clear_def split: bind_splits)
  show ?thesis
  proof (cases "check = 0 \<or> clear = 0")
    case True
    with assms(2,3) f show ?thesis by (simp add: jni_exception_clear_def)
  next
    case False
    then have k: "kind check = 228" "kind clear = 17" using slot_kind [OF assms(1,2)] f by auto
    from False assms(3) f obtain pending w1 where p: "je_call E check [Word (jni_env_pointer w)] w = Some (pending, w1)"
      and c: "(if (ucast pending :: u8) = 0 then Some w1
         else map_option snd (je_call E clear [Word (jni_env_pointer w1)] w1)) = Some w'"
      by (auto simp: jni_exception_clear_def split: bind_splits)
    have h: "holding refs ok R bag w1" by (rule call_holding [OF assms(1,2) p]) (simp_all add: k creates_ref_def)
    with c call_holding [OF assms(1) h] k show ?thesis by (auto simp: creates_ref_def split: if_splits)
  qed
qed

lemma method_id_holding:
  assumes "ref_contract E kind refs ok" and "holding refs ok R bag w" and "jni_get_method_id E c n sg w = Some (r, w')"
  shows "holding refs ok R bag w'"
proof -
  obtain w1 w2 where e: "jni_exception_clear E w = Some w1" "call_jni_slot E 33 [Word c, c_name n, c_name sg] w1 = Some (r, w2)"
    "(if r = 0 then jni_exception_clear E w2 else Some w2) = Some w'"
    using assms(3) by (auto simp: jni_get_method_id_def split: bind_splits)
  have h1: "holding refs ok R bag w1" by (rule exception_clear_holding [OF assms(1,2) e(1)])
  have "holding refs ok R bag w2" by (rule slot_neutral [OF assms(1) h1 e(2)]) (simp_all add: creates_ref_def)
  with e(3) exception_clear_holding [OF assms(1)] show ?thesis by (auto split: if_splits)
qed

lemma static_ids_holding:
  assumes "ref_contract E kind refs ok" and "holding refs ok R bag w"
  shows "jni_get_static_method_id E c n sg w = Some (r, w') \<Longrightarrow> holding refs ok R bag w'"
    and "jni_get_static_field_id E c n sg w = Some (r, w') \<Longrightarrow> holding refs ok R bag w'"
  unfolding jni_get_static_method_id_def jni_get_static_field_id_def
  by - (rule slot_neutral [OF assms], assumption, simp_all)+

lemma objects_holding:
  assumes "ref_contract E kind refs ok" and "holding refs ok R bag w"
  shows "jni_get_static_object_field E c f w = Some (r, w') \<Longrightarrow> holding refs ok R (track r bag) w'"
    and "jni_call_object_method E c f xs w = Some (r, w') \<Longrightarrow> holding refs ok R (track r bag) w'"
    and "jni_call_static_object_method E c f xs w = Some (r, w') \<Longrightarrow> holding refs ok R (track r bag) w'"
    and "jni_new_string_utf E t w = Some (r, w') \<Longrightarrow> holding refs ok R (track r bag) w'"
  unfolding jni_get_static_object_field_def jni_call_object_method_def jni_call_static_object_method_def jni_new_string_utf_def
  by - (rule slot_creating [OF assms], assumption, simp)+

lemma track_0 [simp]: "track 0 bag = bag"
  by (simp add: track_def)

text \<open>
  A verification-condition rule per operation: \<open>returns c Q\<close> says that whatever \<open>c\<close> returns
  satisfies \<open>Q\<close>, and each rule consumes the balance before a call and gives the one after it.
\<close>

definition returns :: "'a option \<Rightarrow> ('a \<Rightarrow> bool) \<Rightarrow> bool" where
  "returns c Q \<longleftrightarrow> (\<forall>r. c = Some r \<longrightarrow> Q r)"

lemma returns_Some: "Q r \<Longrightarrow> returns (Some r) Q"
  by (simp add: returns_def)

lemma returns_if: "(b \<Longrightarrow> returns x Q) \<Longrightarrow> (\<not> b \<Longrightarrow> returns y Q) \<Longrightarrow> returns (if b then x else y) Q"
  by simp

lemma returns_bind: "(\<And>r. c = Some r \<Longrightarrow> returns (f r) Q) \<Longrightarrow> returns (c \<bind> f) Q"
  by (auto simp: returns_def bind_eq_Some_conv)

lemma returns_bind_pair: "(\<And>r w. c = Some (r, w) \<Longrightarrow> returns (f r w) Q) \<Longrightarrow> returns (c \<bind> (\<lambda>(r, w). f r w)) Q"
  by (auto intro!: returns_bind)

lemma returns_bind_if:
  "(b \<Longrightarrow> returns (x \<bind> f) Q) \<Longrightarrow> (\<not> b \<Longrightarrow> returns (y \<bind> f) Q) \<Longrightarrow> returns ((if b then x else y) \<bind> f) Q"
  by simp

lemma returns_bind_Some: "returns (f r w) Q \<Longrightarrow> returns (Some (r, w) \<bind> (\<lambda>(r, w). f r w)) Q"
  by simp

lemma vc_rules:
  assumes "ref_contract E kind refs ok" and "holding refs ok R bag w"
  shows "(\<And>r w'. holding refs ok R (track r bag) w' \<Longrightarrow> returns (f r w') Q) \<Longrightarrow>
           returns (jni_find_class E n w \<bind> (\<lambda>(r, w'). f r w')) Q"
    and "(\<And>r w'. holding refs ok R bag w' \<Longrightarrow> returns (f r w') Q) \<Longrightarrow>
           returns (jni_get_method_id E c n sg w \<bind> (\<lambda>(r, w'). f r w')) Q"
    and "(\<And>r w'. holding refs ok R bag w' \<Longrightarrow> returns (f r w') Q) \<Longrightarrow>
           returns (jni_get_static_method_id E c n sg w \<bind> (\<lambda>(r, w'). f r w')) Q"
    and "(\<And>r w'. holding refs ok R bag w' \<Longrightarrow> returns (f r w') Q) \<Longrightarrow>
           returns (jni_get_static_field_id E c n sg w \<bind> (\<lambda>(r, w'). f r w')) Q"
    and "(\<And>r w'. holding refs ok R (track r bag) w' \<Longrightarrow> returns (f r w') Q) \<Longrightarrow>
           returns (jni_get_static_object_field E c x w \<bind> (\<lambda>(r, w'). f r w')) Q"
    and "(\<And>r w'. holding refs ok R (track r bag) w' \<Longrightarrow> returns (f r w') Q) \<Longrightarrow>
           returns (jni_call_object_method E c x xs w \<bind> (\<lambda>(r, w'). f r w')) Q"
    and "(\<And>r w'. holding refs ok R (track r bag) w' \<Longrightarrow> returns (f r w') Q) \<Longrightarrow>
           returns (jni_call_static_object_method E c x xs w \<bind> (\<lambda>(r, w'). f r w')) Q"
    and "(\<And>r w'. holding refs ok R (track r bag) w' \<Longrightarrow> returns (f r w') Q) \<Longrightarrow>
           returns (jni_new_string_utf E t w \<bind> (\<lambda>(r, w'). f r w')) Q"
    and "(\<And>w'. holding refs ok R bag w' \<Longrightarrow> returns (g w') Q) \<Longrightarrow> returns (jni_exception_clear E w \<bind> g) Q"
  by - (rule returns_bind_pair returns_bind,
      blast intro: find_class_holding [OF assms] method_id_holding [OF assms] static_ids_holding [OF assms]
        objects_holding [OF assms] exception_clear_holding [OF assms])+

lemma load_holding:
  assumes "ref_contract E kind refs ok" and "holding refs ok R bag w"
  shows "returns (load_with_loader E n l bag w) (\<lambda>(k, bag', w'). holding refs ok R bag' w')"
  unfolding load_with_loader_def give_up_def Let_def
  using assms(2)
  by - (assumption | rule returns_if vc_rules [OF assms(1)] returns_bind | (rule returns_Some, simp))+

lemma load_bind:
  assumes "ref_contract E kind refs ok" and "holding refs ok R bag w"
    and "\<And>k bag' w'. holding refs ok R bag' w' \<Longrightarrow> returns (f k bag' w') Q"
  shows "returns (load_with_loader E n l bag w \<bind> (\<lambda>(k, bag', w'). f k bag' w')) Q"
  using load_holding [OF assms(1,2), of n l] assms(3) by (auto simp: returns_def bind_eq_Some_conv)

text \<open>A call that a null identifier skips gives null, which the bag does not take.\<close>

lemma bind_null: "returns (f 0 w) Q \<Longrightarrow> returns (Some (0, w) \<bind> (\<lambda>(r, w). f r w)) Q"
  by simp

lemma track_null: "holding refs ok R bag w \<Longrightarrow> holding refs ok R (track 0 bag) w"
  by simp

lemmas path_rules = returns_bind_if bind_null returns_if track_null

lemma context_holding:
  assumes "ref_contract E kind refs ok" and "holding refs ok R bag w"
  shows "returns (try_context_loader E n bag w) (\<lambda>(k, bag', w'). holding refs ok R bag' w')"
  unfolding try_context_loader_def Let_def
  using assms(2)
  by - (assumption | rule vc_rules [OF assms(1)] path_rules load_holding [OF assms(1)]
      | (rule returns_Some, simp; fail))+

lemma system_holding:
  assumes "ref_contract E kind refs ok" and "holding refs ok R bag w"
  shows "returns (try_system_loader E n bag w) (\<lambda>(k, bag', w'). holding refs ok R bag' w')"
  unfolding try_system_loader_def Let_def
  using assms(2)
  by - (assumption | rule vc_rules [OF assms(1)] path_rules load_holding [OF assms(1)]
      | (rule returns_Some, simp; fail))+

lemma launch_holding:
  assumes "ref_contract E kind refs ok" and "holding refs ok R bag w"
  shows "returns (try_launch_loader E n bag w) (\<lambda>(k, bag', w'). holding refs ok R bag' w')"
  unfolding try_launch_loader_def Let_def give_up_def
  using assms(2)
  by - (assumption | rule load_bind [OF assms(1), where R = R] vc_rules [OF assms(1)] path_rules
      | (rule returns_Some, simp; fail))+

lemma ensure_bind:
  assumes "ref_contract E kind refs ok" and "holding refs ok R bag w"
    and "\<And>b w'. holding refs ok R bag w' \<Longrightarrow> returns (f b w') Q"
  shows "returns (ensure_thread E w \<bind> (\<lambda>(b, w'). f b w')) Q"
  using ensure_holding [OF assms(1,2)] assms(3) by (auto intro!: returns_bind)

lemma delete_bind:
  assumes "ref_contract E kind refs ok" and "holding refs ok R bag w"
    and "\<And>w'. holding refs ok R [] w' \<Longrightarrow> returns (f w') Q"
  shows "returns (delete_refs E bag w \<bind> f) Q"
  using delete_refs_holding [OF assms(1,2)] assms(3) by (auto intro!: returns_bind)

lemma triple_bind:
  "returns c (\<lambda>(k, bag, w). P bag w) \<Longrightarrow> (\<And>k bag w. P bag w \<Longrightarrow> returns (f k bag w) Q) \<Longrightarrow>
     returns (c \<bind> (\<lambda>(k, bag, w). f k bag w)) Q"
  by (auto simp: returns_def bind_eq_Some_conv)

lemma loaders_holding:
  assumes "ref_contract E kind refs ok" and "holding refs ok R [] w"
  shows "returns (try_loaders E n w) (\<lambda>(k, bag, w'). holding refs ok R bag w')"
  unfolding try_loaders_def
  using assms(2)
  by - (assumption | rule triple_bind [OF context_holding [OF assms(1)]] triple_bind [OF system_holding [OF assms(1)]]
      launch_holding [OF assms(1)] vc_rules [OF assms(1)] path_rules | (rule returns_Some, simp; fail))+

lemma void_call_bind:
  assumes "ref_contract E kind refs ok" and "holding refs ok R bag w"
    and "jni_function 63 (jw_mem w) (jni_env_pointer w) = Some f" and "f \<noteq> 0"
    and "\<And>w'. holding refs ok R bag w' \<Longrightarrow> returns (g w') Q"
  shows "returns (je_call E f args w \<bind> (\<lambda>(_, w'). g w')) Q"
proof (rule returns_bind_pair)
  fix r w' assume "je_call E f args w = Some (r, w')"
  moreover have "kind f = 63" by (rule slot_kind [OF assms(1-4)]) simp
  ultimately show "returns (g w') Q" using call_holding [OF assms(1,2)] assms(5) by auto
qed

text \<open>The condition survives a write of the stack slot \<open>storage\<close>.\<close>

definition slot_apart :: "('w jni_world \<Rightarrow> bool) \<Rightarrow> addr \<Rightarrow> bool" where
  "slot_apart ok storage \<longleftrightarrow> (\<forall>w m oop. ok w \<longrightarrow> store64 (jw_mem w) storage oop = Some m \<longrightarrow>
     ok (w\<lparr>jw_heap := (jw_heap w)\<lparr>hp_mem := m\<rparr>\<rparr>))"

lemma oop_handle_bind:
  assumes "slot_apart ok storage" and "holding refs ok R bag w"
    and "\<And>handle m. holding refs ok R bag (w\<lparr>jw_heap := (jw_heap w)\<lparr>hp_mem := m\<rparr>\<rparr>) \<Longrightarrow> returns (f handle m) Q"
  shows "returns (jni_oop_handle (jw_mem w) oop storage \<bind> (\<lambda>(handle, m). f handle m)) Q"
proof (rule returns_bind_pair)
  fix handle m assume "jni_oop_handle (jw_mem w) oop storage = Some (handle, m)"
  then have "store64 (jw_mem w) storage oop = Some m" by (auto simp: jni_oop_handle_def bind_eq_Some_conv)
  with assms(1,2) have "holding refs ok R bag (w\<lparr>jw_heap := (jw_heap w)\<lparr>hp_mem := m\<rparr>\<rparr>)" by (auto simp: holding_def slot_apart_def)
  then show "returns (f handle m) Q" by (rule assms(3))
qed

lemma exception_clear_returns:
  assumes "ref_contract E kind refs ok" and "holding refs ok R bag w" and "\<And>w'. holding refs ok R bag w' \<Longrightarrow> Q w'"
  shows "returns (jni_exception_clear E w) Q"
  using exception_clear_holding [OF assms(1,2)] assms(3) by (auto simp: returns_def)

section \<open>The handles of object arguments\<close>

fun object_of :: "java_arg \<Rightarrow> addr option" where
  "object_of (Arg_Unique _ None) = Some 0"
| "object_of (Arg_Unique _ (Some oop)) = Some oop"
| "object_of (Arg_Object _ oop) = Some oop"
| "object_of _ = None"

fun is_text :: "java_arg \<Rightarrow> bool" where
  "is_text (Arg_String _) = True"
| "is_text (Arg_CString _) = True"
| "is_text _ = False"

fun objects :: "java_arg list \<Rightarrow> addr list" where
  "objects [] = []"
| "objects (x # xs) = (case object_of x of None \<Rightarrow> objects xs | Some oop \<Rightarrow> oop # objects xs)"

text \<open>The value of the argument after \<open>k\<close> handles in the buffer at \<open>base\<close>.\<close>

definition value_ok :: "addr \<Rightarrow> nat \<Rightarrow> java_arg \<Rightarrow> u64 \<Rightarrow> bool" where
  "value_ok base k x v \<longleftrightarrow> (case object_of x of Some _ \<Rightarrow> v = base + 8 * of_nat k
     | None \<Rightarrow> \<not> is_text x \<longrightarrow> v = scalar_value x)"

lemma append_one:
  assumes "append_jni_arg E grow x (a, w) = Some (a', w')"
    and "length (hv_items (ja_handles a)) < hv_capacity (ja_handles a)"
  shows "hv_base (ja_handles a') = hv_base (ja_handles a) \<and> hv_capacity (ja_handles a') = hv_capacity (ja_handles a)
     \<and> hv_items (ja_handles a') = hv_items (ja_handles a) @ objects [x]
     \<and> (\<exists>v. ja_values a' = ja_values a @ [v] \<and> value_ok (hv_base (ja_handles a)) (length (hv_items (ja_handles a))) x v)"
  using assms
  by (cases x) (auto simp: append_jni_arg_def push_value_def push_object_def push_handle_def back_address_def value_ok_def
      Let_def bind_eq_Some_conv split: option.splits)

lemma append_all:
  "append_jni_args E grow xs (a, w) = Some (a', w') \<Longrightarrow>
     length (hv_items (ja_handles a)) + length xs \<le> hv_capacity (ja_handles a) \<Longrightarrow>
   hv_base (ja_handles a') = hv_base (ja_handles a) \<and> hv_items (ja_handles a') = hv_items (ja_handles a) @ objects xs
   \<and> (\<exists>vs. ja_values a' = ja_values a @ vs \<and> length vs = length xs
        \<and> (\<forall>i < length xs. value_ok (hv_base (ja_handles a)) (length (hv_items (ja_handles a)) + length (objects (take i xs))) (xs ! i) (vs ! i)))"
proof (induction xs arbitrary: a w)
  case Nil
  then show ?case by simp
next
  case (Cons x xs)
  from Cons.prems(1) obtain a1 w1 where s: "append_jni_arg E grow x (a, w) = Some (a1, w1)"
    and r: "append_jni_args E grow xs (a1, w1) = Some (a', w')" by (auto simp: bind_eq_Some_conv)
  have "length (hv_items (ja_handles a)) < hv_capacity (ja_handles a)" using Cons.prems(2) by simp
  from append_one [OF s this] obtain v where o: "hv_base (ja_handles a1) = hv_base (ja_handles a)"
    "hv_capacity (ja_handles a1) = hv_capacity (ja_handles a)" "hv_items (ja_handles a1) = hv_items (ja_handles a) @ objects [x]"
    "ja_values a1 = ja_values a @ [v]" "value_ok (hv_base (ja_handles a)) (length (hv_items (ja_handles a))) x v" by blast
  have len: "length (objects [x]) \<le> 1" by (simp split: option.splits)
  with o Cons.prems(2) have "length (hv_items (ja_handles a1)) + length xs \<le> hv_capacity (ja_handles a1)"
    by (simp del: objects.simps)
  from Cons.IH [OF r this] obtain vs where i: "hv_base (ja_handles a') = hv_base (ja_handles a1)"
    "hv_items (ja_handles a') = hv_items (ja_handles a1) @ objects xs" "ja_values a' = ja_values a1 @ vs" "length vs = length xs"
    "\<forall>i < length xs. value_ok (hv_base (ja_handles a1)) (length (hv_items (ja_handles a1)) + length (objects (take i xs))) (xs ! i) (vs ! i)"
    by blast
  have app: "objects (x # ys) = objects [x] @ objects ys" for ys by (simp split: option.splits)
  have each: "value_ok (hv_base (ja_handles a)) (length (hv_items (ja_handles a)) + length (objects (take j (x # xs)))) ((x # xs) ! j) ((v # vs) ! j)"
    if "j < length (x # xs)" for j
  proof (cases j)
    case 0
    with o(5) show ?thesis by simp
  next
    case (Suc k)
    with i(5) o(1,3) that show ?thesis by (simp only: take_Suc_Cons app [of "take k xs"] nth_Cons_Suc length_append add.assoc) simp
  qed
  have "hv_base (ja_handles a') = hv_base (ja_handles a)" using i(1) o(1) by simp
  moreover have "hv_items (ja_handles a') = hv_items (ja_handles a) @ objects (x # xs)"
    unfolding app [of xs] using i(2) o(3) by (simp del: objects.simps)
  moreover have "ja_values a' = ja_values a @ v # vs" "length (v # vs) = length (x # xs)" using i(3,4) o(4) by simp_all
  ultimately show ?case using each by blast
qed

section \<open>Properties\<close>


text \<open>Installing the host's context class loader leaks a local reference: once FindClass gave the
  handle of java.lang.Thread, every path through the function returns without deleting it.\<close>

theorem inherit_leaks_thread_class:
  assumes "ref_contract E kind refs ok" and "ok w"
    and "slot_apart ok storage"
    and "host_classloader_klass (hp_classes (jw_heap w)) = host" and "host \<noteq> 0"
    and "klass_to_class_loader_oop (je_jvm E) (jw_mem w) host = Some loader" and "loader \<noteq> 0" and "jni_env_pointer w \<noteq> 0"
    and "jni_find_class E ''java/lang/Thread'' w = Some (cls, w1)" and "cls \<noteq> 0"
    and "inherit_host_context_classloader E storage w = Some w'"
  shows "add_mset cls (refs (jw_vm w)) \<subseteq># refs (jw_vm w')"
proof -
  let ?R = "refs (jw_vm w)" and ?Q = "\<lambda>w'. add_mset cls (refs (jw_vm w)) \<subseteq># refs (jw_vm w')"
  have h: "holding refs ok ?R [] w" using assms(2) by (simp add: holding_def)
  have h1: "holding refs ok ?R (track cls []) w1" by (rule find_class_holding [OF assms(1) h assms(9)])
  have q1: "?Q v" if "holding refs ok ?R (track cls []) v" for v
    using that assms(10) by (simp add: holding_def mset_track)
  have q2: "?Q v" if "holding refs ok ?R (track x (track cls [])) v" for x v
    using that assms(10) by (simp add: holding_def mset_track split: if_splits)
  have eqF: "(a = b) = False" if "a \<noteq> b" for a b :: addr using that by simp
  have "returns (inherit_host_context_classloader E storage w) ?Q"
    unfolding inherit_host_context_classloader_def Let_def assms(4,6,9) bind.bind_lunit prod.case
      eqF [OF assms(5)] eqF [OF assms(7)] eqF [OF assms(8)] eqF [OF assms(10)] if_False simp_thms
    using h1
    by - (assumption | rule exception_clear_returns [OF assms(1) _ q1] exception_clear_returns [OF assms(1) _ q2]
        vc_rules [OF assms(1)] oop_handle_bind [OF assms(3)] void_call_bind [OF assms(1)] returns_bind returns_if
      | (rule returns_Some, erule q2))+
  with assms(11) show ?thesis by (simp add: returns_def)
qed

section \<open>A JVM with two functions\<close>

text \<open>
  Its table has FindClass, which gives a new handle for every class, and DeleteLocalRef; the
  JVM's state is the list of live references.
\<close>

definition loader_jvm :: jvm where
  "loader_jvm = threads_jvm\<lparr>vm_structs := vm_structs threads_jvm @
     [thread_entry ''Klass'' ''_class_loader_data'' 0x10 0, thread_entry ''ClassLoaderData'' ''_class_loader'' 0x20 0]\<rparr>"

definition jni_mem :: mem where
  "jni_mem = image [(0x90000, 8, 0x91000), (0x91030, 8, 0x7006), (0x910B8, 8, 0x7023),
     (0x300010, 8, 0x310000), (0x310020, 8, 0x320000)]"

definition demo_slot :: "nat \<Rightarrow> addr" where
  "demo_slot i = (if i = 6 then 0x7006 else if i = 23 then 0x7023 else 0)"

definition demo_kind :: "addr \<Rightarrow> nat" where
  "demo_kind f = (if f = 0x7006 then 6 else 23)"

definition demo_call :: "addr \<Rightarrow> jni_arg list \<Rightarrow> addr list jni_world \<Rightarrow> (u64 \<times> addr list jni_world) option" where
  "demo_call f args w =
     (if f = 0x7006 then let h = 0x5000 + 8 * of_nat (length (jw_vm w)) in
        (if h = 0 then Some (0, w) else Some (h, w\<lparr>jw_vm := h # jw_vm w\<rparr>))
      else case args of [_, Word h] \<Rightarrow> Some (0, w\<lparr>jw_vm := remove1 h (jw_vm w)\<rparr>) | _ \<Rightarrow> Some (0, w))"

definition demo_jni :: "addr list jni_env" where
  "demo_jni = \<lparr>je_heap = demo_heap_env\<lparr>he_jvm := loader_jvm\<rparr>, je_call = demo_call\<rparr>"

definition demo_ok :: "addr list jni_world \<Rightarrow> bool" where
  "demo_ok w \<longleftrightarrow> jni_env_pointer w = 0x90000 \<and> current_java_thread (hp_threads (jw_heap w)) = 0x100000
     \<and> load64 (jw_mem w) 0x90000 = Some 0x91000
     \<and> (\<forall>i < 233. load64 (jw_mem w) (0x91000 + of_nat (8 * i)) = Some (demo_slot i))"

definition demo_world :: "addr list \<Rightarrow> addr list jni_world" where
  "demo_world hs = \<lparr>jw_heap = (demo_heap jni_mem)\<lparr>hp_threads := \<lparr>current_java_thread = 0x100000,
     current_jni_env = 0x90000, last_java_thread = 0\<rparr>, hp_classes := \<lparr>klass_lookup_cache = Mapping.empty,
     host_classloader_klass = 0x300000\<rparr>\<rparr>, jw_vm = hs\<rparr>"

lemma demo_function: "demo_ok w \<Longrightarrow> i < 233 \<Longrightarrow> jni_function i (jw_mem w) (jni_env_pointer w) = Some (demo_slot i)"
  by (simp add: jni_function_def demo_ok_def)

lemma demo_call_heap: "demo_call f args w = Some (r, w') \<Longrightarrow> jw_heap w' = jw_heap w"
  by (auto simp: demo_call_def Let_def split: if_splits list.splits jni_arg.splits)

lemma demo_ensure: "demo_ok w \<Longrightarrow> ensure_thread demo_jni w = Some (True, w)"
proof -
  have "is_valid_pointer 0x100000" by (simp add: is_valid_pointer_def user_address_floor_def user_address_ceiling_def poison_patterns_def)
  then show "demo_ok w \<Longrightarrow> ?thesis" by (simp add: ensure_thread_def ensure_current_java_thread_def demo_ok_def)
qed

lemma demo_contract: "ref_contract demo_jni demo_kind mset demo_ok"
  unfolding ref_contract_def
proof (intro conjI allI impI)
  fix w i f assume "demo_ok w" "i < 233" "jni_function i (jw_mem w) (jni_env_pointer w) = Some f" "f \<noteq> 0"
  then show "demo_kind f = i" by (auto simp: demo_function demo_slot_def demo_kind_def split: if_splits)
next
  fix w :: "addr list jni_world" and f args r w' assume a: "demo_ok w" "je_call demo_jni f args w = Some (r, w')"
  then have c: "demo_call f args w = Some (r, w')" by (simp add: demo_jni_def)
  from demo_call_heap [OF c] a(1) show "demo_ok w'" by (simp add: demo_ok_def)
  from c show "mset (jw_vm w') = ref_after (demo_kind f) args r (mset (jw_vm w))"
    by (auto simp: demo_call_def Let_def ref_after_def demo_kind_def split: if_splits list.splits jni_arg.splits)
next
  fix w assume "demo_ok w"
  then show "jni_function 23 (jw_mem w) (jni_env_pointer w) \<noteq> Some 0" by (simp add: demo_function demo_slot_def)
next
  fix w b w' assume "demo_ok w" "ensure_thread demo_jni w = Some (b, w')"
  then show "demo_ok w'" by (simp add: demo_ensure)
qed

lemma demo_table: "i < 233 \<Longrightarrow> load64 jni_mem (0x91000 + of_nat (8 * i)) = Some (demo_slot i)"
proof -
  assume i: "i < 233"
  have ap: "apart (0x91000 + of_nat (8 * k)) 8 (0x91000 + of_nat (8 * i)) 8" if "k \<noteq> i" "k < 233" for k
    using apart_inside [of "8 * k" 8 "8 * i" 8 "0x91000"] apart_sym [OF apart_inside [of "8 * i" 8 "8 * k" 8 "0x91000"]] that i
    by (cases "k < i") auto
  have e: "apart 0x90000 8 (0x90000 + of_nat (0x1000 + 8 * i)) 8"
    using apart_inside [of 0 8 "0x1000 + 8 * i" 8 "0x90000"] i by simp
  have k: "apart (0x90000 + of_nat (0x1000 + 8 * i)) 8 (0x90000 + of_nat 0x270010) 8"
      "apart (0x90000 + of_nat (0x1000 + 8 * i)) 8 (0x90000 + of_nat 0x280020) 8"
    using i by - (rule apart_inside; simp)+
  have k1: "apart 0x300010 8 (0x91000 + 8 * of_nat i) 8" and k2: "apart 0x310020 8 (0x91000 + 8 * of_nat i) 8"
    using k by (simp_all add: apart_sym)
  have n: "load64 (image [(0x300010, 8, 0x310000), (0x310020, 8, 0x320000)]) (0x91000 + of_nat (8 * i)) = Some 0"
    using k1 k2 by (simp add: mem_simps)
  consider "i = 6" | "i = 23" | "i \<noteq> 6" "i \<noteq> 23" by blast
  then show ?thesis
  proof cases
    case 3
    with ap [of 6] ap [of 23] e n show ?thesis by (simp add: jni_mem_def mem_simps demo_slot_def)
  qed (simp_all add: jni_mem_def mem_simps demo_slot_def apart_def take_bit_word_eq_self unsigned_take_bit_eq)
qed

lemma demo_world_ok: "demo_ok (demo_world hs)"
proof -
  have "load64 jni_mem 0x90000 = Some 0x91000"
    by (simp add: jni_mem_def mem_simps apart_def take_bit_word_eq_self unsigned_take_bit_eq)
  with demo_table show ?thesis by (simp add: demo_ok_def demo_world_def demo_heap_def)
qed

lemma demo_world_vm [simp]: "jw_vm (demo_world hs) = hs" "(demo_world hs)\<lparr>jw_vm := hs'\<rparr> = demo_world hs'"
  by (simp_all add: demo_world_def)

definition demo_handle :: "addr list \<Rightarrow> addr" where
  "demo_handle hs = 0x5000 + 8 * of_nat (length hs)"

lemma demo_find:
  "demo_handle hs \<noteq> 0 \<Longrightarrow> jni_find_class demo_jni n (demo_world hs) = Some (demo_handle hs, demo_world (demo_handle hs # hs))"
  by (simp add: jni_find_class_def demo_ensure demo_world_ok call_jni_slot_def demo_function)
    (simp add: demo_slot_def demo_jni_def demo_call_def Let_def demo_handle_def)

lemma demo_missing:
  assumes "i < 233" and "i \<noteq> 6" and "i \<noteq> 23"
  shows "call_jni_slot demo_jni i args (demo_world hs) = Some (0, demo_world hs)"
  using assms by (simp add: call_jni_slot_def demo_function demo_world_ok demo_slot_def)

lemma demo_no_exception: "jni_exception_clear demo_jni (demo_world hs) = Some (demo_world hs)"
  by (simp add: jni_exception_clear_def demo_function demo_world_ok demo_slot_def)

lemma demo_delete: "h \<noteq> 0 \<Longrightarrow> jni_delete_local_ref demo_jni h (demo_world hs) = Some (demo_world (remove1 h hs))"
  by (simp add: jni_delete_local_ref_def call_jni_slot_def demo_function demo_world_ok)
    (simp add: demo_slot_def demo_jni_def demo_call_def)

lemmas demo_steps = demo_find demo_missing demo_no_exception demo_delete demo_ensure demo_world_ok
  jni_get_static_method_id_def jni_get_method_id_def jni_get_static_field_id_def track_def demo_handle_def


lemma demo_host: "klass_to_class_loader_oop loader_jvm jni_mem 0x300000 = Some 0x320000"
proof -
  have l: "load64 jni_mem 0x300010 = Some 0x310000" "load64 jni_mem 0x310020 = Some 0x320000"
    by (simp_all add: jni_mem_def mem_simps apart_def take_bit_word_eq_self unsigned_take_bit_eq)
  have r: "safe_read_pointer jni_mem 0x310020 = 0x320000"
    using l(2) by (subst safe_read_pointer_aligned) (simp_all add: user_address_floor_def user_address_ceiling_def)
  show ?thesis
    using l(1) r by (simp add: klass_to_class_loader_oop_def get_class_loader_oop_def loader_jvm_def threads_jvm_def thread_entry_def
        iterate_struct_entries_def is_valid_pointer_def user_address_floor_def user_address_ceiling_def poison_patterns_def)
qed

lemma demo_slot_apart: "slot_apart demo_ok 0x200000"
  unfolding slot_apart_def
proof (intro allI impI)
  fix w :: "addr list jni_world" and m oop assume ok: "demo_ok w" and st: "store64 (jw_mem w) 0x200000 oop = Some m"
  have "load64 m 0x90000 = load64 (jw_mem w) 0x90000"
    by (rule load_store_apart [where 'b = 64, OF st]) (simp_all add: apart_def)
  moreover have "load64 m (0x91000 + of_nat (8 * i)) = load64 (jw_mem w) (0x91000 + of_nat (8 * i))" if "i < 233" for i
  proof (rule load_store_apart [where 'b = 64, OF st])
    have "apart (0x91000 + of_nat (8 * i)) 8 (0x91000 + of_nat 0x16F000) 8" using that by - (rule apart_inside; simp)
    then show "apart 0x200000 8 (0x91000 + of_nat (8 * i)) 8" by (simp add: apart_sym)
  qed simp
  ultimately show "demo_ok (w\<lparr>jw_heap := (jw_heap w)\<lparr>hp_mem := m\<rparr>\<rparr>)" using ok by (simp add: demo_ok_def)
qed

lemma inherit_leaks_thread_class_witness:
  "\<exists>w'. inherit_host_context_classloader demo_jni 0x200000 (demo_world [7]) = Some w' \<and> {#0x5008, 7#} \<subseteq># mset (jw_vm w')"
proof -
  have f: "jni_find_class demo_jni ''java/lang/Thread'' (demo_world [7]) = Some (0x5008, demo_world [0x5008, 7])"
    by (simp add: demo_find demo_handle_def)
  have h: "host_classloader_klass (hp_classes (jw_heap (demo_world [7]))) = 0x300000" "jni_env_pointer (demo_world [7]) \<noteq> 0"
    "jw_mem (demo_world [7]) = jni_mem" by (simp_all add: demo_world_def demo_heap_def)
  have k: "klass_to_class_loader_oop (je_jvm demo_jni) (jw_mem (demo_world [7])) 0x300000 = Some 0x320000"
    using demo_host h(3) by (simp add: demo_jni_def)
  have "\<exists>w'. inherit_host_context_classloader demo_jni 0x200000 (demo_world [7]) = Some w'"
    using h k by (simp add: inherit_host_context_classloader_def f demo_steps)
  then obtain w' where r: "inherit_host_context_classloader demo_jni 0x200000 (demo_world [7]) = Some w'" by blast
  from inherit_leaks_thread_class [OF demo_contract demo_world_ok demo_slot_apart h(1) _ k _ h(2) f _ r] r show ?thesis by auto
qed

text \<open>C35. The JNI values that make\_jni\_args builds stay valid: every object argument's value is the
  address, in the final buffer of handles, of the slot that holds that argument's object (the
  buffer is reserved first, so no later argument moves it), and every scalar is its value in the
  union's bytes, narrow integers widened with their sign.\<close>

theorem make_jni_args_handles_valid:
  assumes "make_jni_args E alloc grow xs v w = Some (a, w')" and "hv_items v = []"
  shows "hv_items (ja_handles a) = objects xs \<and> length (ja_values a) = length xs
     \<and> (\<forall>i < length xs. value_ok (hv_base (ja_handles a)) (length (objects (take i xs))) (xs ! i) (ja_values a ! i))"
proof -
  have room: "length (hv_items (reserve alloc (length xs) v)) + length xs \<le> hv_capacity (reserve alloc (length xs) v)"
    using assms(2) by (simp add: reserve_def)
  have "hv_items (reserve alloc (length xs) v) = []" using assms(2) by (simp add: reserve_def)
  with append_all [OF assms(1) [unfolded make_jni_args_def]] room show ?thesis by auto
qed

lemma make_jni_args_handles_valid_witness:
  "\<exists>a w'. make_jni_args demo_jni (\<lambda>_ _. 0x8000) (\<lambda>v. (hv_base v + 0x100, 2 * hv_capacity v + 1))
       [Arg_I8 0xFF, Arg_Object 0 0x210000, Arg_Unique 1 None] \<lparr>hv_base = 0, hv_items = [], hv_capacity = 0\<rparr> (demo_world []) = Some (a, w')
     \<and> ja_values a = [0xFFFFFFFF, 0x8000, 0x8008] \<and> hv_items (ja_handles a) = [0x210000, 0]"
proof -
  let ?xs = "[Arg_I8 0xFF, Arg_Object 0 0x210000, Arg_Unique 1 None]" and ?v = "\<lparr>hv_base = 0, hv_items = [], hv_capacity = 0\<rparr>"
  let ?a = "\<lparr>ja_values = [0xFFFFFFFF, 0x8000, 0x8008], ja_handles = \<lparr>hv_base = 0x8000, hv_items = [0x210000, 0], hv_capacity = 3\<rparr>,
    ja_release = [False, False, False]\<rparr>"
  have e: "scalar_value (Arg_I8 0xFF) = 0xFFFFFFFF" by code_simp
  have m: "make_jni_args demo_jni (\<lambda>_ _. 0x8000) (\<lambda>v. (hv_base v + 0x100, 2 * hv_capacity v + 1)) ?xs ?v (demo_world [])
      = Some (?a, demo_world [])"
    by (simp add: make_jni_args_def reserve_def append_jni_arg_def push_value_def push_object_def push_handle_def back_address_def Let_def e del: scalar_value.simps)
  from make_jni_args_handles_valid [OF m] m show ?thesis by simp
qed

end
