(* ===== verification/Frames.thy ===== *)
theory Frames
  imports Jni_Bridge Hook_Registry
begin

text \<open>
  What a detour sees of the interpreted frame it interrupts: \<open>return_slot\<close> and \<open>return_value\<close>
  (vmhook.hpp lines 1107 to 1209, 7610 to 7956), \<open>frame::get_locals\<close>, \<open>get_arguments\<close> and
  \<open>get_argument\<close> (5021 to 5321), \<open>method_args\<close> (4912), the slot numbering of typed detours
  (\<open>java_slot_offsets\<close>, 7391 to 7442) and \<open>extract_frame_arg\<close> (7444).

  A frame is the value of rbp; slot \<open>i\<close> of the locals is the word \<open>8 * i\<close> bytes below the
  locals pointer. Slot numbers are \<open>int32_t\<close>. Floating-point values are their bit patterns.
\<close>

section \<open>The return slot\<close>

record return_slot =
  rs_cancel :: bool
  rs_retval :: u64

text \<open>A signed integer narrower than 8 bytes is sign-extended; any other value fills the low bytes of a zeroed cell.\<close>

definition rv_set_signed :: "'a::len word \<Rightarrow> return_slot \<Rightarrow> return_slot" where
  "rv_set_signed v r = r\<lparr>rs_cancel := True, rs_retval := scast v\<rparr>"

definition rv_set_bytes :: "'a::len word \<Rightarrow> return_slot \<Rightarrow> return_slot" where
  "rv_set_bytes v r = r\<lparr>rs_cancel := True, rs_retval := ucast v\<rparr>"

definition rv_set_null :: "return_slot \<Rightarrow> return_slot" where
  "rv_set_null r = r\<lparr>rs_cancel := True, rs_retval := 0\<rparr>"

definition rv_cancel :: "return_slot \<Rightarrow> return_slot" where
  "rv_cancel r = r\<lparr>rs_cancel := True\<rparr>"

section \<open>Locals\<close>

definition get_locals :: "u8 \<Rightarrow> mem \<Rightarrow> addr \<Rightarrow> addr option" where
  "get_locals locals_offset m fp = do {
     v \<leftarrow> load64 m (fp + scast locals_offset);
     Some (if is_valid_pointer v then v else if v < 0x1000 then fp + v * 8 else 0) }"

definition local_slot :: "addr \<Rightarrow> u32 \<Rightarrow> addr" where
  "local_slot locals index = locals - scast index * 8"

definition decode_slot :: "jvm \<Rightarrow> mem \<Rightarrow> u64 \<Rightarrow> addr option" where
  "decode_slot J m raw =
     (if raw = 0 then Some 0
      else if raw \<le> 0xFFFFFFFF then decode_oop_pointer J m (ucast raw)
      else Some raw)"

definition max_jvm_locals :: int where "max_jvm_locals = 0xFFFF"

text \<open>\<open>get_argument\<close>: the read of a slot that every type shares, then the pointer and the scalar types of \<open>n\<close> bytes.\<close>

definition read_slot :: "u8 \<Rightarrow> mem \<Rightarrow> addr \<Rightarrow> u32 \<Rightarrow> (addr \<times> u64) option option" where
  "read_slot lo m fp index =
     (if sint index < 0 \<or> max_jvm_locals < sint index then Some None
      else do {
        locals \<leftarrow> get_locals lo m fp;
        if locals = 0 then Some None
        else do { raw \<leftarrow> load64 m (local_slot locals index); Some (Some (locals, raw)) } })"

definition get_pointer_argument :: "jvm \<Rightarrow> u8 \<Rightarrow> mem \<Rightarrow> addr \<Rightarrow> u32 \<Rightarrow> addr option" where
  "get_pointer_argument J lo m fp index = do {
     r \<leftarrow> read_slot lo m fp index;
     case r of None \<Rightarrow> Some 0 | Some (_, raw) \<Rightarrow> decode_slot J m raw }"

definition get_scalar_argument :: "nat \<Rightarrow> u8 \<Rightarrow> mem \<Rightarrow> addr \<Rightarrow> u32 \<Rightarrow> u64 option" where
  "get_scalar_argument n lo m fp index = do {
     r \<leftarrow> read_slot lo m fp index;
     case r of None \<Rightarrow> Some 0
     | Some (locals, raw) \<Rightarrow>
         if 8 < n then Some 0
         else do {
           v \<leftarrow> (if 4 < n then load64 m (local_slot locals (index + 1)) else Some raw);
           Some (take_bit (8 * n) v) } }"

section \<open>Typed arguments\<close>

text \<open>The C++ parameter types of a detour; \<open>T_other n\<close> is any other trivially copyable type of \<open>n\<close> bytes.\<close>

datatype cpp_type =
    T_bool | T_i8 | T_u8 | T_i16 | T_u16 | T_i32 | T_u32 | T_i64 | T_u64 | T_float | T_double
  | T_other nat | T_pointer | T_string | T_unique nat

definition is_java_double_slot :: "cpp_type \<Rightarrow> bool" where
  "is_java_double_slot t \<longleftrightarrow> t \<in> {T_i64, T_u64, T_double}"

fun cpp_size :: "cpp_type \<Rightarrow> nat" where
  "cpp_size T_bool = 1" | "cpp_size T_i8 = 1" | "cpp_size T_u8 = 1" | "cpp_size T_i16 = 2" | "cpp_size T_u16 = 2"
| "cpp_size T_i32 = 4" | "cpp_size T_u32 = 4" | "cpp_size T_i64 = 8" | "cpp_size T_u64 = 8" | "cpp_size T_float = 4"
| "cpp_size T_double = 8" | "cpp_size (T_other n) = n" | "cpp_size T_pointer = 8" | "cpp_size T_string = 32"
| "cpp_size (T_unique _) = 8"

fun slot_offsets :: "u32 \<Rightarrow> cpp_type list \<Rightarrow> u32 list" where
  "slot_offsets acc [] = []"
| "slot_offsets acc (t # ts) = acc # slot_offsets (acc + (if is_java_double_slot t then 2 else 1)) ts"

definition java_slot_offsets :: "cpp_type list \<Rightarrow> u32 list" where
  "java_slot_offsets ts = slot_offsets 0 ts"

definition get_argument :: "jvm \<Rightarrow> u8 \<Rightarrow> mem \<Rightarrow> addr \<Rightarrow> cpp_type \<Rightarrow> u32 \<Rightarrow> u64 option" where
  "get_argument J lo m fp t index =
     (if t = T_pointer then get_pointer_argument J lo m fp index
      else get_scalar_argument (cpp_size t) lo m fp index)"

fun get_typed_arguments :: "jvm \<Rightarrow> u8 \<Rightarrow> mem \<Rightarrow> addr \<Rightarrow> cpp_type list \<Rightarrow> u32 list \<Rightarrow> u64 list option" where
  "get_typed_arguments J lo m fp (t # ts) (i # is) = do {
     v \<leftarrow> get_argument J lo m fp t i; vs \<leftarrow> get_typed_arguments J lo m fp ts is; Some (v # vs) }"
| "get_typed_arguments J lo m fp _ _ = Some []"

text \<open>The typed \<open>get_arguments\<close>: the slots come from the same rule as \<open>java_slot_offsets\<close>.\<close>

definition get_arguments_as :: "jvm \<Rightarrow> u8 \<Rightarrow> mem \<Rightarrow> addr \<Rightarrow> cpp_type list \<Rightarrow> u64 list option" where
  "get_arguments_as J lo m fp ts = get_typed_arguments J lo m fp ts (slot_offsets 0 ts)"

text \<open>\<open>extract_frame_arg\<close> for a typed detour's parameter; a wrapper is the address of the wrapped object.\<close>

datatype frame_arg = FA_text "u8 list" | FA_object addr | FA_bits u64

definition extract_frame_arg ::
  "heap_env \<Rightarrow> (nat, string) mapping \<Rightarrow> (string, unit) mapping \<Rightarrow> u8 \<Rightarrow> addr \<Rightarrow> cpp_type \<Rightarrow> u32 \<Rightarrow> heap \<Rightarrow> (frame_arg \<times> heap) option" where
  "extract_frame_arg E types factories lo fp t index h = do {
     r \<leftarrow> read_slot lo (hp_mem h) fp index;
     case r of
       None \<Rightarrow> Some (case t of T_string \<Rightarrow> FA_text [] | T_unique _ \<Rightarrow> FA_object 0 | T_pointer \<Rightarrow> FA_object 0 | _ \<Rightarrow> FA_bits 0, h)
     | Some (locals, raw) \<Rightarrow> (case t of
         T_string \<Rightarrow> do {
           oop \<leftarrow> decode_slot (he_jvm E) (hp_mem h) raw;
           (s, h) \<leftarrow> read_java_string E oop h;
           Some (FA_text s, h) }
       | T_unique ty \<Rightarrow> do {
           oop \<leftarrow> decode_slot (he_jvm E) (hp_mem h) raw;
           Some (FA_object (if oop = 0 then 0 else case Mapping.lookup types ty of None \<Rightarrow> 0
             | Some cn \<Rightarrow> (case Mapping.lookup factories cn of None \<Rightarrow> 0 | Some _ \<Rightarrow> oop)), h) }
       | T_pointer \<Rightarrow> do { oop \<leftarrow> decode_slot (he_jvm E) (hp_mem h) raw; Some (FA_object oop, h) }
       | _ \<Rightarrow> do {
           v \<leftarrow> (if 4 < cpp_size t then load64 (hp_mem h) (local_slot locals (index + 1)) else Some raw);
           Some (FA_bits (take_bit (8 * cpp_size t) v), h) }) }"

section \<open>Arguments by descriptor\<close>

definition find_from :: "char \<Rightarrow> string \<Rightarrow> nat \<Rightarrow> nat option" where
  "find_from c s pos = (let n = length (takeWhile (\<lambda>d. d \<noteq> c) (drop pos s))
     in if pos + n < length s then Some (pos + n) else None)"

record argument_entry =
  ae_decoded_oop :: addr
  ae_class_name :: string

text \<open>The position behind an array type: \<open>[L...;\<close>, or one character after the bracket.\<close>

definition skip_array :: "string \<Rightarrow> nat \<Rightarrow> nat \<Rightarrow> nat" where
  "skip_array d close pos =
     (if pos + 1 < close \<and> d ! (pos + 1) = CHR ''L''
      then (case find_from CHR '';'' d (pos + 1) of None \<Rightarrow> close | Some semi \<Rightarrow> semi + 1)
      else pos + 2)"

lemma find_from_ge: "find_from c s pos = Some i \<Longrightarrow> pos \<le> i \<and> i < length s"
  by (auto simp: find_from_def Let_def split: if_splits)

function collect_arguments ::
  "jvm \<Rightarrow> mem \<Rightarrow> addr \<Rightarrow> string \<Rightarrow> nat \<Rightarrow> nat \<Rightarrow> u32 \<Rightarrow> argument_entry list option" where
  "collect_arguments J m locals d close pos slot =
     (if close \<le> pos then Some []
      else if d ! pos = CHR ''L'' then
        (case find_from CHR '';'' d pos of None \<Rightarrow> Some []
         | Some semi \<Rightarrow> do {
             raw \<leftarrow> load64 m (local_slot locals slot);
             decoded \<leftarrow> decode_slot J m raw;
             rest \<leftarrow> collect_arguments J m locals d close (semi + 1) (slot + 1);
             Some (\<lparr>ae_decoded_oop = if is_valid_pointer decoded then decoded else 0,
                    ae_class_name = take (semi - pos - 1) (drop (pos + 1) d)\<rparr> # rest) })
      else collect_arguments J m locals d close
        (if d ! pos = CHR ''['' then skip_array d close pos else pos + 1)
        (slot + (if d ! pos \<in> {CHR ''J'', CHR ''D''} then 2 else 1)))"
  by pat_completeness auto
termination
  by (relation "measure (\<lambda>(J, m, locals, d, close, pos, slot). close - pos)")
    (auto simp: skip_array_def dest!: find_from_ge split: option.splits)

declare collect_arguments.simps [simp del]

definition get_arguments :: "jvm \<Rightarrow> u8 \<Rightarrow> mem \<Rightarrow> addr \<Rightarrow> argument_entry list option" where
  "get_arguments J lo m fp = do {
     mth \<leftarrow> frame_get_method m fp;
     if mth = 0 \<or> \<not> is_valid_pointer mth then Some []
     else do {
       d \<leftarrow> method_get_signature J m mth;
       if d = [] then Some []
       else case (find_from CHR ''('' d 0, find_from CHR '')'' d 0) of
         (Some opening, Some closing) \<Rightarrow>
           if closing \<le> opening then Some []
           else do {
             locals \<leftarrow> get_locals lo m fp;
             if locals = 0 then Some [] else collect_arguments J m locals d closing (opening + 1) 0 }
       | _ \<Rightarrow> Some [] } }"

definition method_args_at :: "argument_entry list \<Rightarrow> nat \<Rightarrow> addr" where
  "method_args_at args index = (if length args \<le> index then 0 else ae_decoded_oop (args ! index))"

text \<open>\<open>as<T>\<close>: the address the new wrapper holds, or null.\<close>

definition method_args_as :: "argument_entry list \<Rightarrow> nat \<Rightarrow> addr" where
  "method_args_as args index =
     (if length args \<le> index then 0
      else let raw = ae_decoded_oop (args ! index) in if raw = 0 then 0 else raw)"

section \<open>Writing arguments\<close>

text \<open>The guards that every \<open>set_arg\<close> shares, then one operation per kind of value. The result says whether the write happened.\<close>

definition with_locals :: "u8 \<Rightarrow> addr \<Rightarrow> u32 \<Rightarrow> 's \<Rightarrow> ('s \<Rightarrow> mem) \<Rightarrow> (addr \<Rightarrow> (bool \<times> 's) option) \<Rightarrow> (bool \<times> 's) option" where
  "with_locals lo fp index s mem_of write =
     (if fp = 0 \<or> sint index < 0 \<or> max_jvm_locals < sint index then Some (False, s)
      else do {
        locals \<leftarrow> get_locals lo (mem_of s) fp;
        if locals = 0 then Some (False, s) else write locals })"

definition store_oop :: "mem \<Rightarrow> addr \<Rightarrow> u32 \<Rightarrow> addr \<Rightarrow> (bool \<times> mem) option" where
  "store_oop m locals index oop = do { m \<leftarrow> store64 m (local_slot locals index) oop; Some (True, m) }"

definition set_arg_object :: "u8 \<Rightarrow> mem \<Rightarrow> addr \<Rightarrow> u32 \<Rightarrow> addr \<Rightarrow> (bool \<times> mem) option" where
  "set_arg_object lo m fp index oop = with_locals lo fp index m id (\<lambda>locals. store_oop m locals index oop)"

definition set_arg_scalar :: "u8 \<Rightarrow> mem \<Rightarrow> addr \<Rightarrow> u32 \<Rightarrow> nat \<Rightarrow> u64 \<Rightarrow> (bool \<times> mem) option" where
  "set_arg_scalar lo m fp index n v = with_locals lo fp index m id (\<lambda>locals.
     if 8 < n then Some (False, m)
     else do {
       m \<leftarrow> store64 m (local_slot locals (if 4 < n then index + 1 else index)) (take_bit (8 * n) v);
       Some (True, m) })"

text \<open>A string goes through JNI when it is there, and through \<open>make_java_string\<close> otherwise; a null C string is the empty text.\<close>

definition with_heap :: "'w jni_world \<Rightarrow> mem \<Rightarrow> 'w jni_world" where
  "with_heap w m = w\<lparr>jw_heap := (jw_heap w)\<lparr>hp_mem := m\<rparr>\<rparr>"

definition set_arg_string :: "'w jni_env \<Rightarrow> u8 \<Rightarrow> addr \<Rightarrow> u32 \<Rightarrow> u8 list option \<Rightarrow> 'w jni_world \<Rightarrow> (bool \<times> 'w jni_world) option" where
  "set_arg_string E lo fp index text w = with_locals lo fp index w jw_mem (\<lambda>locals. do {
     let t = (case text of None \<Rightarrow> [] | Some t \<Rightarrow> t);
     (handle, w) \<leftarrow> jni_new_string_utf E t w;
     (oop, w) \<leftarrow> (if handle \<noteq> 0 then do { oop \<leftarrow> jni_decode_object (jw_mem w) handle; Some (oop, w) }
                  else do { (oop, h) \<leftarrow> make_java_string (je_heap E) t (jw_heap w); Some (oop, w\<lparr>jw_heap := h\<rparr>) });
     if oop = 0 then do { w \<leftarrow> jni_delete_local_ref E handle w; Some (False, w) }
     else do {
       (stored, m) \<leftarrow> store_oop (jw_mem w) locals index oop;
       w \<leftarrow> jni_delete_local_ref E handle (with_heap w m);
       Some (stored, w) } })"

section \<open>The call stack\<close>

record caller_info =
  ci_method :: addr
  ci_class_name :: string
  ci_method_name :: string
  ci_signature :: string

definition no_caller :: caller_info where
  "no_caller = \<lparr>ci_method = 0, ci_class_name = [], ci_method_name = [], ci_signature = []\<rparr>"

definition caller_valid :: "caller_info \<Rightarrow> bool" where
  "caller_valid c \<longleftrightarrow> ci_method c \<noteq> 0"

definition pool_holder_name :: "jvm \<Rightarrow> mem \<Rightarrow> addr \<Rightarrow> string option" where
  "pool_holder_name J m k =
     (if k = 0 \<or> \<not> is_valid_pointer k then Some []
      else let sym = klass_get_name J m k in if sym = 0 then Some [] else symbol_to_string J m sym)"

definition caller :: "jvm \<Rightarrow> mem \<Rightarrow> addr \<Rightarrow> caller_info option" where
  "caller J m fp =
     (if fp = 0 \<or> \<not> is_valid_pointer fp then Some no_caller
      else do {
        caller_rbp \<leftarrow> load64 m fp;
        if \<not> is_valid_pointer caller_rbp \<or> \<not> is_valid_pointer (caller_rbp - 24) then Some no_caller
        else do {
          mth \<leftarrow> load64 m (caller_rbp - 24);
          if mth = 0 \<or> \<not> is_valid_pointer mth then Some no_caller
          else do {
            name \<leftarrow> method_get_name J m mth;
            if name = [] then Some no_caller
            else do {
              sg \<leftarrow> method_get_signature J m mth;
              cm \<leftarrow> get_const_method J m mth;
              cp \<leftarrow> (if cm = 0 then Some 0 else cm_get_constants J m cm);
              cls \<leftarrow> (if cp = 0 then Some []
                else case vm_struct J ''ConstantPool'' ''_pool_holder'' of None \<Rightarrow> Some []
                  | Some e \<Rightarrow> do { k \<leftarrow> load64 m (cp + se_offset e); pool_holder_name J m k });
              Some \<lparr>ci_method = mth, ci_class_name = cls, ci_method_name = name, ci_signature = sg\<rparr> } } } })"

text \<open>\<open>klass::get_name\<close> gives null or a valid pointer, so both callers of \<open>pool_holder_name\<close> agree on its test.\<close>

text \<open>One step of the walk from a saved-rbp slot: the caller's frame and its description, or the end.\<close>

definition trace_step :: "jvm \<Rightarrow> mem \<Rightarrow> addr \<Rightarrow> (addr \<times> caller_info) option option" where
  "trace_step J m rbp_slot =
     (if \<not> is_valid_pointer rbp_slot then Some None
      else do {
        caller_rbp \<leftarrow> load64 m rbp_slot;
        if \<not> is_valid_pointer caller_rbp then Some None
        else if caller_rbp \<le> rbp_slot \<or> 0x100000 < caller_rbp - rbp_slot then Some None
        else if \<not> is_valid_pointer (caller_rbp - 24) then Some None
        else do {
          mth \<leftarrow> load64 m (caller_rbp - 24);
          if mth = 0 \<or> \<not> is_valid_pointer mth then Some None
          else do {
            cm \<leftarrow> get_const_method J m mth;
            if cm = 0 \<or> \<not> is_valid_pointer cm then Some None
            else do {
              cp \<leftarrow> cm_get_constants J m cm;
              if cp = 0 \<or> \<not> is_valid_pointer cp then Some None
              else do {
                name \<leftarrow> method_get_name J m mth;
                if name = [] then Some None
                else do {
                  sg \<leftarrow> method_get_signature J m mth;
                  cls \<leftarrow> (case vm_struct J ''ConstantPool'' ''_pool_holder'' of None \<Rightarrow> Some []
                    | Some e \<Rightarrow>
                        if \<not> is_valid_pointer (cp + se_offset e) then Some []
                        else do { k \<leftarrow> load64 m (cp + se_offset e); pool_holder_name J m k });
                  Some (Some (caller_rbp, \<lparr>ci_method = mth, ci_class_name = cls, ci_method_name = name, ci_signature = sg\<rparr>)) } } } } } })"

fun walk_frames :: "jvm \<Rightarrow> mem \<Rightarrow> nat \<Rightarrow> addr \<Rightarrow> (addr \<times> caller_info) list option" where
  "walk_frames J m 0 rbp_slot = Some []"
| "walk_frames J m (Suc n) rbp_slot = do {
     r \<leftarrow> trace_step J m rbp_slot;
     case r of None \<Rightarrow> Some []
     | Some (rbp, info) \<Rightarrow> do { rest \<leftarrow> walk_frames J m n rbp; Some ((rbp, info) # rest) } }"

definition stack_trace :: "jvm \<Rightarrow> mem \<Rightarrow> addr \<Rightarrow> nat \<Rightarrow> caller_info list option" where
  "stack_trace J m fp max_depth =
     (if fp = 0 then Some []
      else map_option (map snd) (walk_frames J m (if max_depth = 0 then 64 else max_depth) fp))"

section \<open>Descriptors as the JVM defines them\<close>

text \<open>
  A parameter type, its text in a method descriptor and the local slots it takes. This is the
  reference that the parsers are compared with.
\<close>

datatype java_type = JT_prim char | JT_obj string | JT_arr java_type

fun jt_text :: "java_type \<Rightarrow> string" where
  "jt_text (JT_prim c) = [c]"
| "jt_text (JT_obj cn) = CHR ''L'' # cn @ '';''"
| "jt_text (JT_arr t) = CHR ''['' # jt_text t"

fun jt_wf :: "java_type \<Rightarrow> bool" where
  "jt_wf (JT_prim c) \<longleftrightarrow> c \<in> set ''ZBCSIJFD''"
| "jt_wf (JT_obj cn) \<longleftrightarrow> CHR '';'' \<notin> set cn \<and> CHR '')'' \<notin> set cn \<and> CHR ''('' \<notin> set cn \<and> cn \<noteq> []"
| "jt_wf (JT_arr t) \<longleftrightarrow> jt_wf t"

fun jt_slots :: "java_type \<Rightarrow> nat" where
  "jt_slots (JT_prim c) = (if c \<in> {CHR ''J'', CHR ''D''} then 2 else 1)"
| "jt_slots _ = 1"

fun flat_array :: "java_type \<Rightarrow> bool" where
  "flat_array (JT_arr (JT_arr _)) = False"
| "flat_array _ = True"

definition descriptor :: "java_type list \<Rightarrow> string \<Rightarrow> string" where
  "descriptor ps ret = ''('' @ concat (map jt_text ps) @ '')'' @ ret"

text \<open>The object parameters at their slots.\<close>

fun object_entries :: "jvm \<Rightarrow> mem \<Rightarrow> addr \<Rightarrow> u32 \<Rightarrow> java_type list \<Rightarrow> argument_entry list option" where
  "object_entries J m locals slot [] = Some []"
| "object_entries J m locals slot (p # ps) = (case p of
     JT_obj cn \<Rightarrow> do {
       raw \<leftarrow> load64 m (local_slot locals slot);
       decoded \<leftarrow> decode_slot J m raw;
       rest \<leftarrow> object_entries J m locals (slot + 1) ps;
       Some (\<lparr>ae_decoded_oop = if is_valid_pointer decoded then decoded else 0, ae_class_name = cn\<rparr> # rest) }
   | _ \<Rightarrow> object_entries J m locals (slot + of_nat (jt_slots p)) ps)"

lemma find_from_append: "c \<notin> set xs \<Longrightarrow> find_from c (pre @ xs @ c # post) (length pre) = Some (length pre + length xs)"
proof -
  assume "c \<notin> set xs"
  then have "takeWhile (\<lambda>d. d \<noteq> c) (xs @ c # post) = xs" by (induction xs) auto
  then show ?thesis by (simp add: find_from_def Let_def)
qed

lemma jt_text_chars: "jt_wf t \<Longrightarrow> CHR '')'' \<notin> set (jt_text t) \<and> CHR ''('' \<notin> set (jt_text t)"
  by (induction t) auto

lemma params_chars: "\<forall>p \<in> set ps. jt_wf p \<Longrightarrow> CHR '')'' \<notin> set (concat (map jt_text ps))"
  using jt_text_chars by fastforce

lemma collect_object:
  assumes "CHR '';'' \<notin> set cn" and "close = length pre + length cn + 2 + k"
  shows "collect_arguments J m locals (pre @ CHR ''L'' # cn @ CHR '';'' # post) close (length pre) slot = do {
     raw \<leftarrow> load64 m (local_slot locals slot);
     decoded \<leftarrow> decode_slot J m raw;
     rest \<leftarrow> collect_arguments J m locals (pre @ CHR ''L'' # cn @ CHR '';'' # post) close (length pre + length cn + 2) (slot + 1);
     Some (\<lparr>ae_decoded_oop = if is_valid_pointer decoded then decoded else 0, ae_class_name = cn\<rparr> # rest) }"
proof -
  have f: "find_from CHR '';'' (pre @ CHR ''L'' # cn @ CHR '';'' # post) (length pre) = Some (length pre + Suc (length cn))"
    using find_from_append [of "CHR '';''" "CHR ''L'' # cn" pre post] assms(1) by simp
  show ?thesis
    by (subst collect_arguments.simps) (simp add: f assms(2) nth_append)
qed

lemma collect_skip:
  assumes "length pre < close" and "c \<noteq> CHR ''L''"
  shows "collect_arguments J m locals (pre @ c # post) close (length pre) slot =
     collect_arguments J m locals (pre @ c # post) close
       (if c = CHR ''['' then skip_array (pre @ c # post) close (length pre) else length pre + 1)
       (slot + (if c \<in> {CHR ''J'', CHR ''D''} then 2 else 1))"
  using assms by (subst collect_arguments.simps) (simp add: nth_append)

lemma collect_params:
  assumes "\<forall>p \<in> set ps. jt_wf p \<and> flat_array p"
  shows "close = length pre + length (concat (map jt_text ps)) \<Longrightarrow>
     collect_arguments J m locals (pre @ concat (map jt_text ps) @ CHR '')'' # ret) close (length pre) slot
       = object_entries J m locals slot ps"
  using assms
proof (induction ps arbitrary: pre slot)
  case Nil
  then show ?case by (subst collect_arguments.simps) simp
next
  case (Cons p ps)
  let ?rest = "concat (map jt_text ps) @ CHR '')'' # ret"
  have ih: "collect_arguments J m locals (pre @ jt_text p @ ?rest) close (length pre + length (jt_text p)) slot'
      = object_entries J m locals slot' ps" for slot'
    using Cons.IH [of "pre @ jt_text p" slot'] Cons.prems by simp
  have wf: "jt_wf p" "flat_array p" using Cons.prems(2) by auto
  show ?case
  proof (cases p)
    case (JT_prim c)
    then have c: "c \<in> set ''ZBCSIJFD''" using wf by simp
    then have "c \<noteq> CHR ''L''" "c \<noteq> CHR ''[''" by auto
    with collect_skip [of pre close c] Cons.prems(1) JT_prim ih show ?thesis by simp
  next
    case (JT_obj cn)
    with wf have "CHR '';'' \<notin> set cn" by simp
    moreover have "close = length pre + length cn + 2 + length (concat (map jt_text ps))" using Cons.prems(1) JT_obj by simp
    ultimately show ?thesis using collect_object [of cn close pre _ J m locals ?rest slot] JT_obj ih by simp
  next
    case (JT_arr t)
    have skip: "skip_array (pre @ jt_text p @ ?rest) close (length pre) = length pre + length (jt_text p)"
    proof (cases t)
      case (JT_prim c)
      then have "c \<in> set ''ZBCSIJFD''" using wf JT_arr by simp
      then have "c \<noteq> CHR ''L''" by auto
      with JT_prim JT_arr show ?thesis by (simp add: skip_array_def nth_append)
    next
      case (JT_obj cn)
      with wf JT_arr have "CHR '';'' \<notin> set cn" by simp
      then have "find_from CHR '';'' (pre @ CHR ''['' # CHR ''L'' # cn @ CHR '';'' # ?rest) (Suc (length pre)) = Some (length pre + length cn + 2)"
        using find_from_append [of "CHR '';''" "CHR ''L'' # cn" "pre @ ''[''" ?rest] by simp
      with JT_obj JT_arr Cons.prems(1) show ?thesis by (simp add: skip_array_def nth_append)
    next
      case (JT_arr t')
      with wf \<open>p = JT_arr t\<close> show ?thesis by simp
    qed
    have "length pre < close" using Cons.prems(1) JT_arr by simp
    from collect_skip [OF this, of "CHR ''[''" J m locals "jt_text t @ ?rest" slot] skip ih JT_arr show ?thesis by simp
  qed
qed

section \<open>Storing and reading a slot\<close>

lemma load_take_bit: "store64 m a (take_bit k v :: u64) = Some m' \<Longrightarrow> load64 m' a = Some (take_bit k v)"
  by (rule load_store_same) simp_all

text \<open>The frame's locals word does not overlap slot \<open>index\<close>.\<close>

definition slot_ok :: "u8 \<Rightarrow> addr \<Rightarrow> addr \<Rightarrow> u32 \<Rightarrow> bool" where
  "slot_ok lo fp locals index \<longleftrightarrow> apart (local_slot locals index) 8 (fp + scast lo) 8"

lemma get_locals_store:
  assumes "store64 m (local_slot locals index) v = Some m'" and "slot_ok lo fp locals index"
  shows "get_locals lo m' fp = get_locals lo m fp"
proof -
  have "load64 m' (fp + scast lo) = load64 m (fp + scast lo)"
    by (rule load_store_apart [where 'b = 64, OF assms(1)]) (use assms(2) in \<open>simp_all add: slot_ok_def\<close>)
  then show ?thesis by (simp add: get_locals_def)
qed

lemma with_locals_Some:
  assumes "with_locals lo fp index s mem_of write = Some (True, s')" and "\<And>r. write 0 = Some r \<Longrightarrow> True"
  shows "\<exists>locals. fp \<noteq> 0 \<and> 0 \<le> sint index \<and> sint index \<le> max_jvm_locals \<and> get_locals lo (mem_of s) fp = Some locals
     \<and> locals \<noteq> 0 \<and> write locals = Some (True, s')"
  using assms(1) by (auto simp: with_locals_def bind_eq_Some_conv split: if_splits)

section \<open>Walking the frames\<close>

text \<open>The frames that a walk reports: each is saved in the slot of the one before it and lies above it, at most 1 MiB away.\<close>

fun rbp_chain :: "mem \<Rightarrow> addr \<Rightarrow> addr list \<Rightarrow> bool" where
  "rbp_chain m slot [] = True"
| "rbp_chain m slot (r # rs) \<longleftrightarrow> load64 m slot = Some r \<and> slot < r \<and> r - slot \<le> 0x100000 \<and> rbp_chain m r rs"

lemma trace_step_Some:
  assumes "trace_step J m slot = Some (Some (r, info))"
  shows "load64 m slot = Some r \<and> slot < r \<and> r - slot \<le> 0x100000 \<and> frame_get_method m r = Some (ci_method info)
     \<and> is_valid_pointer (ci_method info) \<and> method_get_name J m (ci_method info) = Some (ci_method_name info)
     \<and> method_get_signature J m (ci_method info) = Some (ci_signature info) \<and> ci_method_name info \<noteq> []"
  using assms
  by (auto simp: trace_step_def frame_get_method_def bind_eq_Some_conv not_le not_less split: if_splits option.splits)

lemma walk_frames_chain:
  "walk_frames J m n slot = Some fs \<Longrightarrow> length fs \<le> n \<and> rbp_chain m slot (map fst fs)
     \<and> (\<forall>(r, info) \<in> set fs. frame_get_method m r = Some (ci_method info) \<and> is_valid_pointer (ci_method info)
          \<and> method_get_name J m (ci_method info) = Some (ci_method_name info) \<and> ci_method_name info \<noteq> [])"
proof (induction n arbitrary: slot fs)
  case 0
  then show ?case by simp
next
  case (Suc n)
  show ?case
  proof (cases "trace_step J m slot")
    case None
    with Suc.prems show ?thesis by simp
  next
    case (Some o1)
    show ?thesis
    proof (cases o1)
      case None
      with Some Suc.prems show ?thesis by simp
    next
      case (Some f)
      obtain r info where f: "f = (r, info)" by (cases f)
      with Some \<open>trace_step J m slot = Some o1\<close> have st: "trace_step J m slot = Some (Some (r, info))" by simp
      with Suc.prems obtain rest where rest: "walk_frames J m n r = Some rest" "fs = (r, info) # rest"
        by (auto simp: bind_eq_Some_conv)
      from Suc.IH [OF rest(1)] trace_step_Some [OF st] rest(2) show ?thesis by auto
    qed
  qed
qed

lemma rbp_chain_sorted: "rbp_chain m slot rs \<Longrightarrow> sorted_wrt (<) (slot # rs)"
  by (induction rs arbitrary: slot) (auto intro: order.strict_trans)

section \<open>Typed parameters and descriptors\<close>

text \<open>A C++ parameter type stands for the descriptor of its Java counterpart.\<close>

fun stands_for :: "cpp_type \<Rightarrow> java_type \<Rightarrow> bool" where
  "stands_for t (JT_prim c) \<longleftrightarrow>
     (c = CHR ''Z'' \<and> t = T_bool) \<or> (c = CHR ''B'' \<and> t \<in> {T_i8, T_u8}) \<or> (c = CHR ''S'' \<and> t = T_i16) \<or> (c = CHR ''C'' \<and> t = T_u16)
     \<or> (c = CHR ''I'' \<and> t \<in> {T_i32, T_u32}) \<or> (c = CHR ''J'' \<and> t \<in> {T_i64, T_u64}) \<or> (c = CHR ''F'' \<and> t = T_float)
     \<or> (c = CHR ''D'' \<and> t = T_double)"
| "stands_for t _ \<longleftrightarrow> t \<in> {T_pointer, T_string} \<or> (\<exists>n. t = T_unique n)"

fun jvm_slots :: "u32 \<Rightarrow> java_type list \<Rightarrow> u32 list" where
  "jvm_slots acc [] = []"
| "jvm_slots acc (p # ps) = acc # jvm_slots (acc + of_nat (jt_slots p)) ps"

lemma stands_for_double: "stands_for t p \<Longrightarrow> jt_wf p \<Longrightarrow> is_java_double_slot t \<longleftrightarrow> jt_slots p = 2"
  by (cases p) (auto simp: is_java_double_slot_def)

lemma jt_slots_cases: "jt_slots p = 1 \<or> jt_slots p = 2"
  by (cases p) auto

lemma slot_offsets_jvm:
  "list_all2 stands_for ts ps \<Longrightarrow> \<forall>p \<in> set ps. jt_wf p \<Longrightarrow> slot_offsets acc ts = jvm_slots acc ps"
proof (induction ts ps arbitrary: acc rule: list_all2_induct)
  case (Cons t ts p ps)
  with stands_for_double [of t p] jt_slots_cases [of p] show ?case by auto
qed simp

section \<open>Properties\<close>


text \<open>A two-dimensional array parameter is counted as two parameters: an object parameter that
  follows an int[][] is read from the slot behind its own.\<close>

theorem nested_array_shifts_slots:
  assumes "frame_get_method m fp = Some mth" and "is_valid_pointer mth"
    and "method_get_signature J m mth = Some (descriptor [JT_arr (JT_arr (JT_prim CHR ''I'')), JT_obj ''A''] ret)"
    and "get_locals lo m fp = Some locals" and "locals \<noteq> 0"
  shows "get_arguments J lo m fp = object_entries J m locals 2 [JT_obj ''A'']
     \<and> object_entries J m locals 0 [JT_arr (JT_arr (JT_prim CHR ''I'')), JT_obj ''A''] = object_entries J m locals 1 [JT_obj ''A'']"
proof -
  let ?d = "descriptor [JT_arr (JT_arr (JT_prim CHR ''I'')), JT_obj ''A''] ret"
  have d: "?d = ''([[ILA;)'' @ ret" by (simp add: descriptor_def)
  have f: "find_from CHR ''('' ?d 0 = Some 0" "find_from CHR '')'' ?d 0 = Some 7" by (simp_all add: d find_from_def)
  have p: "?d ! 1 = CHR ''[''" "?d ! 2 = CHR ''[''" "?d ! 3 = CHR ''I''" by (simp_all add: d)
  have "collect_arguments J m locals ?d 7 1 0 = collect_arguments J m locals ?d 7 3 1"
    using p by (subst collect_arguments.simps) (simp add: skip_array_def numeral_eq_Suc)
  also have "\<dots> = collect_arguments J m locals ?d 7 4 2"
    using p by (subst collect_arguments.simps) (simp add: skip_array_def numeral_eq_Suc)
  also have "\<dots> = object_entries J m locals 2 [JT_obj ''A'']"
    using collect_params [of "[JT_obj ''A'']" 7 "''([[I''" J m locals ret 2] by (simp add: d numeral_eq_Suc)
  finally show ?thesis
    using assms f valid_not_null [OF assms(2)] by (simp add: get_arguments_def d)
qed

text \<open>The slots that typed detours read are the JVM's: when each C++ parameter type stands for its
  descriptor (64-bit integers for long, double for double), the offsets computed from the C++
  types are the sums of the slot widths of the parameters before.\<close>

theorem java_slot_offsets_are_jvm_slots:
  assumes "list_all2 stands_for ts ps" and "\<forall>p \<in> set ps. jt_wf p"
  shows "java_slot_offsets ts = jvm_slots 0 ps"
  unfolding java_slot_offsets_def by (rule slot_offsets_jvm [OF assms])

lemma java_slot_offsets_are_jvm_slots_witness:
  "java_slot_offsets [T_i32, T_i64, T_pointer, T_double, T_bool] = [0, 1, 3, 4, 6]"
proof -
  let ?ps = "[JT_prim CHR ''I'', JT_prim CHR ''J'', JT_obj ''A'', JT_prim CHR ''D'', JT_prim CHR ''Z'']"
  have "list_all2 stands_for [T_i32, T_i64, T_pointer, T_double, T_bool] ?ps" "\<forall>p \<in> set ?ps. jt_wf p" by simp_all
  from java_slot_offsets_are_jvm_slots [OF this] show ?thesis by simp
qed

text \<open>A scalar that set\_arg wrote into a slot is what a detour's parameter of the same size reads
  from that slot, for every size up to 8 bytes (the 8-byte ones live in the slot below): set\_arg
  and the reader agree on where and how a value is stored.\<close>

theorem set_arg_then_get_argument:
  assumes "set_arg_scalar lo m fp index n v = Some (True, m')"
    and "get_locals lo m fp = Some locals" and "slot_ok lo fp locals (if 4 < n then index + 1 else index)"
    and "4 < n \<longrightarrow> apart (local_slot locals (index + 1)) 8 (local_slot locals index) 8" and "mapped m (local_slot locals index) 8"
  shows "get_scalar_argument n lo m' fp index = Some (take_bit (8 * n) v)"
proof -
  let ?i = "if 4 < n then index + 1 else index"
  from assms(1,2) have g: "0 \<le> sint index" "sint index \<le> max_jvm_locals" "locals \<noteq> 0" "n \<le> 8"
    and st: "store64 m (local_slot locals ?i) (take_bit (8 * n) v) = Some m'"
    by (auto simp: set_arg_scalar_def with_locals_def bind_eq_Some_conv split: if_splits)
  have gl: "get_locals lo m' fp = Some locals" using get_locals_store [OF st assms(3)] assms(2) by simp
  have l: "load64 m' (local_slot locals ?i) = Some (take_bit (8 * n) v)" by (rule load_take_bit [OF st])
  have "mapped m' (local_slot locals index) 8" using store_le_mapped [OF st _ assms(5)] by simp
  then obtain raw where r: "load64 m' (local_slot locals index) = Some (raw :: u64)" using load_le_mapped by blast
  show ?thesis
    using g gl l r by (cases "4 < n") (simp_all add: get_scalar_argument_def read_slot_def not_less)
qed

text \<open>C38. stack\_trace always ends after at most its depth limit (64 by default), and reports a chain of
  frames: each frame pointer is the one saved in the frame before, lies strictly above it and at
  most 1 MiB away, so no frame is reported twice, and every entry names the method of its frame.\<close>

theorem stack_trace_walks_the_chain:
  assumes "stack_trace J m fp max_depth = Some infos"
  shows "length infos \<le> (if max_depth = 0 then 64 else max_depth)
     \<and> (\<exists>rbps. length rbps = length infos \<and> rbp_chain m fp rbps \<and> sorted_wrt (<) (fp # rbps)
          \<and> (\<forall>i < length infos. frame_get_method m (rbps ! i) = Some (ci_method (infos ! i))
               \<and> method_get_name J m (ci_method (infos ! i)) = Some (ci_method_name (infos ! i)) \<and> caller_valid (infos ! i)))"
proof (cases "fp = 0")
  case True
  with assms show ?thesis by (simp add: stack_trace_def)
next
  case False
  let ?n = "if max_depth = 0 then 64 else max_depth"
  from assms False obtain fs where fs: "walk_frames J m ?n fp = Some fs" "infos = map snd fs"
    by (auto simp: stack_trace_def)
  from walk_frames_chain [OF fs(1)] have w: "length fs \<le> ?n" "rbp_chain m fp (map fst fs)"
    "\<forall>(r, info) \<in> set fs. frame_get_method m r = Some (ci_method info) \<and> is_valid_pointer (ci_method info)
       \<and> method_get_name J m (ci_method info) = Some (ci_method_name info) \<and> ci_method_name info \<noteq> []" by blast+
  have "frame_get_method m (map fst fs ! i) = Some (ci_method (infos ! i))
      \<and> method_get_name J m (ci_method (infos ! i)) = Some (ci_method_name (infos ! i)) \<and> caller_valid (infos ! i)"
    if "i < length infos" for i
    using w(3) that nth_mem [of i fs] fs(2) by (fastforce simp: caller_valid_def dest: valid_not_null)
  with w fs(2) rbp_chain_sorted [OF w(2)] show ?thesis by (intro conjI exI [of _ "map fst fs"]) auto
qed

text \<open>The first entry of stack\_trace is what caller reports, whenever its class name could be read.\<close>

theorem stack_trace_starts_with_caller:
  assumes "stack_trace J m fp max_depth = Some (info # rest)" and "ci_class_name info \<noteq> []"
  shows "caller J m fp = Some info"
proof -
  have fp: "fp \<noteq> 0" using assms(1) by (auto simp: stack_trace_def)
  obtain n fs where fs: "walk_frames J m n fp = Some fs" "info # rest = map snd fs"
    using assms(1) fp by (auto simp: stack_trace_def)
  then obtain k where n: "n = Suc k" by (cases n) auto
  from fs n have "trace_step J m fp \<noteq> None" by (auto simp: bind_eq_Some_conv)
  with fs n obtain r where st: "trace_step J m fp = Some (Some (r, info))"
    by (auto simp: bind_eq_Some_conv split: option.splits)
  let ?e = "vm_struct J ''ConstantPool'' ''_pool_holder''"
  obtain mth cm cp cls where t: "is_valid_pointer fp" "load64 m fp = Some r" "is_valid_pointer r" "is_valid_pointer (r - 24)"
    "load64 m (r - 24) = Some mth" "is_valid_pointer mth" "get_const_method J m mth = Some cm" "is_valid_pointer cm"
    "cm_get_constants J m cm = Some cp" "is_valid_pointer cp" "method_get_name J m mth = Some (ci_method_name info)"
    "ci_method_name info \<noteq> []" "method_get_signature J m mth = Some (ci_signature info)" "info = \<lparr>ci_method = mth, ci_class_name = cls,
       ci_method_name = ci_method_name info, ci_signature = ci_signature info\<rparr>"
    "(case ?e of None \<Rightarrow> Some [] | Some e \<Rightarrow> if \<not> is_valid_pointer (cp + se_offset e) then Some []
        else do { k \<leftarrow> load64 m (cp + se_offset e); pool_holder_name J m k }) = Some cls"
    using st by (simp add: trace_step_def bind_eq_Some_conv split: if_splits) (elim exE conjE, force)
  from t(14) have c: "ci_class_name info = cls" by (metis caller_info.select_convs(2))
  obtain e where e: "?e = Some e" "do { k \<leftarrow> load64 m (cp + se_offset e); pool_holder_name J m k } = Some cls"
    using t(15) assms(2) c by (auto split: option.splits if_splits)
  have nz: "mth \<noteq> 0" "cm \<noteq> 0" "cp \<noteq> 0" using t(6,8,10) by auto
  have "caller J m fp = Some \<lparr>ci_method = mth, ci_class_name = cls, ci_method_name = ci_method_name info, ci_signature = ci_signature info\<rparr>"
    by (simp add: caller_def fp t(1-13) nz e)
  with t(14) show ?thesis by simp
qed

text \<open>Set\_arg stores an object as its full address, but the readers take any slot value below
  4 GiB for a compressed reference: an object at such an address is read back as the address
  that its own address decodes to, and only objects above 4 GiB read back as themselves.\<close>

theorem low_heap_argument_misread:
  assumes "set_arg_object lo m fp index oop = Some (True, m')" and "get_locals lo m fp = Some locals"
    and "slot_ok lo fp locals index" and "oop \<noteq> 0"
  shows "get_pointer_argument J lo m' fp index = (if oop \<le> 0xFFFFFFFF then decode_oop_pointer J m' (ucast oop) else Some oop)"
proof -
  from assms(1,2) have g: "0 \<le> sint index" "sint index \<le> max_jvm_locals" "locals \<noteq> 0"
    and st: "store64 m (local_slot locals index) oop = Some m'"
    by (auto simp: set_arg_object_def with_locals_def store_oop_def bind_eq_Some_conv split: if_splits)
  have gl: "get_locals lo m' fp = Some locals" using get_locals_store [OF st assms(3)] assms(2) by simp
  have "load64 m' (local_slot locals index) = Some oop" by (rule load_store_same [OF st]) simp_all
  with g gl assms(4) show ?thesis by (simp add: get_pointer_argument_def read_slot_def decode_slot_def not_less)
qed

section \<open>A frame in memory\<close>

definition frame_jvm :: jvm where
  "frame_jvm = \<lparr>vm_types = [\<lparr>te_type_name = ''ConstantPool'', te_superclass_name = None, te_is_oop_type_type = 0,
       te_is_integer_type = 0, te_is_unsigned = 0, te_size = 0x20\<rparr>],
     vm_structs = [thread_entry ''Method'' ''_constMethod'' 8 0, thread_entry ''ConstMethod'' ''_constants'' 8 0,
       thread_entry ''ConstMethod'' ''_name_index'' 0x10 0, thread_entry ''ConstMethod'' ''_signature_index'' 0x12 0,
       thread_entry ''Symbol'' ''_length'' 8 0, thread_entry ''Symbol'' ''_body'' 16 0,
       thread_entry ''ConstantPool'' ''_pool_holder'' 0x10 0, thread_entry ''Klass'' ''_name'' 0x10 0,
       thread_entry ''CompressedOops'' ''_base'' 0 0x60020, thread_entry ''CompressedOops'' ''_shift'' 0 0x60028],
     proc_maps = [Some \<lparr>ml_begin = 0x40000, ml_end = 0x200000, ml_perms = ''rw-p''\<rparr>]\<rparr>"

text \<open>
  The frame at 0x80000 runs the method at 0x50000, whose name is the symbol at 0x53000 and whose
  descriptor is the one at 0x54000; its locals end at 0x81000. The frame at 0x80100 called it.
\<close>

definition frame_cells :: "(addr \<times> nat \<times> u64) list" where
  "frame_cells = [(0x7FFE8, 8, 0x50000), (0x800E8, 8, 0x50000), (0x80000, 8, 0x80100), (0x7FFC8, 8, 0x81000),
     (0x50008, 8, 0x51000), (0x51008, 8, 0x52000), (0x51010, 2, 1), (0x51012, 2, 2), (0x52028, 8, 0x53000), (0x52030, 8, 0x54000),
     (0x52010, 8, 0x55000), (0x55010, 8, 0x53000), (0x53000, 8, 1), (0x53008, 2, 1), (0x54000, 8, 1), (0x60028, 4, 3),
     (0x81000, 8, 0x500000000), (0x80FF8, 8, 0x600000000), (0x80FF0, 8, 0x700000000)]"

definition frame_mem :: "string \<Rightarrow> mem" where
  "frame_mem d = put 0x54010 (bytes_of_chars d) (put 0x53010 [109] (image ((0x54008, 2, of_nat (length d)) # frame_cells)))"

lemma chars_of_bytes_of_chars: "chars_of_bytes (bytes_of_chars s) = s"
proof -
  have "char_of (unat (of_nat (of_char c) :: u8)) = c" for c
  proof -
    have "of_char c < (256 :: nat)" by (rule nat_of_char_less_256)
    then have "unat (of_nat (of_char c) :: u8) = of_char c" by (simp add: unat_of_nat take_bit_nat_eq_self)
    then show ?thesis by simp
  qed
  then show ?thesis by (simp add: chars_of_bytes_def bytes_of_chars_def comp_def)
qed

lemma length_bytes_of_chars [simp]: "length (bytes_of_chars s) = length s"
  by (simp add: bytes_of_chars_def)

lemmas frame_ptr = is_valid_pointer_def user_address_floor_def user_address_ceiling_def poison_patterns_def
lemmas frame_eval = frame_jvm_def iterate_struct_entries_def thread_entry_def

lemma frame_structs [simp]:
  "vm_struct frame_jvm ''Method'' ''_constMethod'' = Some (thread_entry ''Method'' ''_constMethod'' 8 0)"
  "vm_struct frame_jvm ''ConstMethod'' ''_constants'' = Some (thread_entry ''ConstMethod'' ''_constants'' 8 0)"
  "vm_struct frame_jvm ''ConstMethod'' ''_name_index'' = Some (thread_entry ''ConstMethod'' ''_name_index'' 0x10 0)"
  "vm_struct frame_jvm ''ConstMethod'' ''_signature_index'' = Some (thread_entry ''ConstMethod'' ''_signature_index'' 0x12 0)"
  "vm_struct frame_jvm ''Symbol'' ''_length'' = Some (thread_entry ''Symbol'' ''_length'' 8 0)"
  "vm_struct frame_jvm ''Symbol'' ''_body'' = Some (thread_entry ''Symbol'' ''_body'' 16 0)"
  "vm_struct frame_jvm ''ConstantPool'' ''_pool_holder'' = Some (thread_entry ''ConstantPool'' ''_pool_holder'' 0x10 0)"
  "vm_struct frame_jvm ''Klass'' ''_name'' = Some (thread_entry ''Klass'' ''_name'' 0x10 0)"
  "vm_struct frame_jvm ''CompressedOops'' ''_base'' = Some (thread_entry ''CompressedOops'' ''_base'' 0 0x60020)"
  "vm_struct frame_jvm ''CompressedOops'' ''_shift'' = Some (thread_entry ''CompressedOops'' ''_shift'' 0 0x60028)"
  by (simp_all add: frame_eval)

lemma thread_entry_sel [simp]: "se_offset (thread_entry tn fn off a) = off" "se_address (thread_entry tn fn off a) = a"
  "se_type_string (thread_entry tn fn off a) = None"
  by (simp_all add: thread_entry_def)

lemma frame_loads:
  assumes "length d < 0x1000"
  shows "load64 (frame_mem d) 0x7FFE8 = Some 0x50000" "load64 (frame_mem d) 0x800E8 = Some 0x50000"
    "load64 (frame_mem d) 0x80000 = Some 0x80100" "load64 (frame_mem d) 0x7FFC8 = Some 0x81000"
    "load64 (frame_mem d) 0x50008 = Some 0x51000" "load64 (frame_mem d) 0x51008 = Some 0x52000"
    "load16 (frame_mem d) 0x51010 = Some 1" "load16 (frame_mem d) 0x51012 = Some 2"
    "load64 (frame_mem d) 0x52028 = Some 0x53000" "load64 (frame_mem d) 0x52030 = Some 0x54000"
    "load64 (frame_mem d) 0x52010 = Some 0x55000" "load64 (frame_mem d) 0x55010 = Some 0x53000"
    "load16 (frame_mem d) 0x53008 = Some 1" "load64 (frame_mem d) 0x53000 = Some 1" "load64 (frame_mem d) 0x54000 = Some 1"
    "load64 (frame_mem d) 0x81000 = Some 0x500000000" "load64 (frame_mem d) 0x80FF8 = Some 0x600000000"
    "load64 (frame_mem d) 0x80FF0 = Some 0x700000000" "load64 (frame_mem d) 0x60020 = Some 0" "load32 (frame_mem d) 0x60028 = Some 3"
  using assms
  by (simp_all add: frame_mem_def frame_cells_def mem_simps apart_def take_bit_word_eq_self unsigned_take_bit_eq)

lemma frame_texts:
  assumes "length d < 0x1000"
  shows "load_bytes (frame_mem d) 0x53010 1 = Some [109]" "load_bytes (frame_mem d) 0x54010 (length d) = Some (bytes_of_chars d)"
    "load16 (frame_mem d) 0x54008 = Some (of_nat (length d))"
proof -
  show "load_bytes (frame_mem d) 0x53010 1 = Some [109]"
  proof -
    have "load_bytes (frame_mem d) 0x53010 (length [109 :: u8]) = Some [109]"
      unfolding frame_mem_def using assms by (subst load_bytes_put_apart) (simp add: apart_def, rule load_bytes_put_same, simp)
    then show ?thesis by simp
  qed
  show "load_bytes (frame_mem d) 0x54010 (length d) = Some (bytes_of_chars d)"
    using assms load_bytes_put_same [of "bytes_of_chars d" "0x54010"] by (simp add: frame_mem_def)
  show "load16 (frame_mem d) 0x54008 = Some (of_nat (length d))"
    using assms by (simp add: frame_mem_def mem_simps apart_def take_bit_cast unsigned_of_nat take_bit_nat_eq_self)
qed

lemma frame_strings:
  assumes "length d < 0x1000" and "d \<noteq> []"
  shows "symbol_to_string frame_jvm (frame_mem d) 0x53000 = Some ''m''" "symbol_to_string frame_jvm (frame_mem d) 0x54000 = Some d"
proof -
  have s: "safe_read_pointer (frame_mem d) 0x53000 = 1" "safe_read_pointer (frame_mem d) 0x54000 = 1"
    using frame_loads [OF assms(1)]
    by (simp_all add: safe_read_pointer_aligned user_address_floor_def user_address_ceiling_def)
  have c: "chars_of_bytes [109] = ''m''"
    by (simp add: chars_of_bytes_def char_of_def bit_0)
  show "symbol_to_string frame_jvm (frame_mem d) 0x53000 = Some ''m''"
    using s frame_loads [OF assms(1)] frame_texts [OF assms(1)] c
    by (simp add: symbol_to_string_def frame_ptr)
  have u: "unat (of_nat (length d) :: u16) = length d" using assms(1) by (simp add: unat_of_nat take_bit_nat_eq_self)
  then have "(of_nat (length d) :: u16) \<noteq> 0" "\<not> (of_nat (length d) :: u16) > 0x1000"
    using assms by (auto simp: word_less_nat_alt simp flip: unat_eq_zero)
  then show "symbol_to_string frame_jvm (frame_mem d) 0x54000 = Some d"
    using s frame_loads [OF assms(1)] frame_texts [OF assms(1)] u chars_of_bytes_of_chars [of d]
    by (simp add: symbol_to_string_def frame_ptr)
qed

lemma frame_method:
  assumes "length d < 0x1000" and "d \<noteq> []"
  shows "method_get_name frame_jvm (frame_mem d) 0x50000 = Some ''m''" "method_get_signature frame_jvm (frame_mem d) 0x50000 = Some d"
    "get_const_method frame_jvm (frame_mem d) 0x50000 = Some 0x51000" "cm_get_constants frame_jvm (frame_mem d) 0x51000 = Some 0x52000"
proof -
  show c: "get_const_method frame_jvm (frame_mem d) 0x50000 = Some 0x51000" "cm_get_constants frame_jvm (frame_mem d) 0x51000 = Some 0x52000"
    using frame_loads [OF assms(1)] by (simp_all add: get_const_method_def cm_get_constants_def)
  have b: "cp_get_base frame_jvm 0x52000 = 0x52020" "cp_get_length frame_jvm (frame_mem d) 0x52000 = Some (- 1)"
    by (simp_all add: cp_get_base_def cp_get_length_def iterate_type_entries_def) (simp_all add: frame_eval)
  have r: "is_readable_pointer frame_jvm 0x52028" "is_readable_pointer frame_jvm 0x52030"
    by (simp_all add: is_readable_pointer_def frame_jvm_def query_region_def empty_region_def perm_at_def
        user_address_floor_def user_address_ceiling_def Let_def)
  have "cm_get_name frame_jvm (frame_mem d) 0x51000 = Some 0x53000" "cm_get_signature frame_jvm (frame_mem d) 0x51000 = Some 0x54000"
    using b r c frame_loads [OF assms(1)]
    by (simp_all add: cm_get_name_def cm_get_signature_def cm_pool_symbol_def frame_ptr Let_def)
  with c frame_strings [OF assms]
  show "method_get_name frame_jvm (frame_mem d) 0x50000 = Some ''m''" "method_get_signature frame_jvm (frame_mem d) 0x50000 = Some d"
    by (simp_all add: method_get_name_def method_get_signature_def frame_ptr)
qed

lemma frame_locals: "length d < 0x1000 \<Longrightarrow> get_locals 0xC8 (frame_mem d) 0x80000 = Some 0x81000"
proof -
  assume d: "length d < 0x1000"
  have "(scast (0xC8 :: u8) :: u64) = - 56" by code_simp
  then show ?thesis using frame_loads(4) [OF d] by (simp add: get_locals_def frame_ptr)
qed

lemma frame_get: "length d < 0x1000 \<Longrightarrow> frame_get_method (frame_mem d) 0x80000 = Some 0x50000"
  using frame_loads(1) [of d] by (simp add: frame_get_method_def)


lemma nested_array_shifts_slots_witness:
  "get_arguments frame_jvm 0xC8 (frame_mem ''([[ILA;)V'') 0x80000 = Some [\<lparr>ae_decoded_oop = 0x700000000, ae_class_name = ''A''\<rparr>]
   \<and> object_entries frame_jvm (frame_mem ''([[ILA;)V'') 0x81000 0 [JT_arr (JT_arr (JT_prim CHR ''I'')), JT_obj ''A''] =
       Some [\<lparr>ae_decoded_oop = 0x600000000, ae_class_name = ''A''\<rparr>]"
proof -
  let ?d = "descriptor [JT_arr (JT_arr (JT_prim CHR ''I'')), JT_obj ''A''] ''V''"
  have d: "?d = ''([[ILA;)V''" by (simp add: descriptor_def)
  have len: "length ?d < 0x1000" "?d \<noteq> []" by (simp_all add: d)
  have v: "is_valid_pointer 0x50000" "is_valid_pointer 0x600000000" "is_valid_pointer 0x700000000" by (simp_all add: frame_ptr)
  have s: "local_slot 0x81000 1 = 0x80FF8" "local_slot 0x81000 2 = 0x80FF0" by (simp_all add: local_slot_def)
  from nested_array_shifts_slots [OF frame_get [OF len(1)] v(1) frame_method(2) [OF len] frame_locals [OF len(1)]]
  show ?thesis using frame_loads(17,18) [OF len(1)] s v(2,3) by (simp add: d decode_slot_def)
qed

lemma set_arg_then_get_argument_witness:
  "\<exists>m'. set_arg_scalar 0xC8 (frame_mem ''()V'') 0x80000 1 8 0x1122334455667788 = Some (True, m')
     \<and> get_scalar_argument 8 0xC8 m' 0x80000 1 = Some 0x1122334455667788"
proof -
  let ?m = "frame_mem ''()V''"
  have gl: "get_locals 0xC8 ?m 0x80000 = Some 0x81000" by (rule frame_locals) simp
  have sl: "local_slot 0x81000 1 = 0x80FF8" "local_slot 0x81000 2 = 0x80FF0" by (simp_all add: local_slot_def)
  have c: "(scast (0xC8 :: u8) :: u64) = - 56" by code_simp
  have mp: "mapped ?m a n" for a n by (simp add: frame_mem_def)
  obtain m' where s: "set_arg_scalar 0xC8 ?m 0x80000 1 8 0x1122334455667788 = Some (True, m')"
    using gl mp sl by (simp add: set_arg_scalar_def with_locals_def max_jvm_locals_def store_le_put)
  have ok: "slot_ok 0xC8 0x80000 0x81000 (if 4 < (8 :: nat) then 1 + 1 else 1)" using sl c by (simp add: slot_ok_def apart_def)
  have "4 < (8 :: nat) \<longrightarrow> apart (local_slot 0x81000 (1 + 1)) 8 (local_slot 0x81000 1) 8" using sl by (simp add: apart_def)
  from set_arg_then_get_argument [OF s gl ok this mp] s show ?thesis by (simp add: take_bit_word_eq_self)
qed

lemma frame_caller:
  assumes "length d < 0x1000" and "d \<noteq> []"
  shows "walk_frames frame_jvm (frame_mem d) 1 0x80000 = Some [(0x80100, \<lparr>ci_method = 0x50000, ci_class_name = ''m'', ci_method_name = ''m'', ci_signature = d\<rparr>)]"
proof -
  have n: "safe_read_pointer (frame_mem d) 0x55010 = 0x53000"
    using frame_loads(12) [OF assms(1)] by (simp add: safe_read_pointer_aligned user_address_floor_def user_address_ceiling_def)
  then have k: "klass_get_name frame_jvm (frame_mem d) 0x55000 = 0x53000"
    by (simp add: klass_get_name_def untag_pointer_def frame_ptr Let_def)
  have "trace_step frame_jvm (frame_mem d) 0x80000 = Some (Some (0x80100, \<lparr>ci_method = 0x50000, ci_class_name = ''m'', ci_method_name = ''m'', ci_signature = d\<rparr>))"
    using frame_loads [OF assms(1)] frame_method [OF assms] frame_strings [OF assms] k
    by (simp add: trace_step_def frame_ptr pool_holder_name_def)
  then show ?thesis by simp
qed

lemma stack_trace_walks_the_chain_witness:
  "stack_trace frame_jvm (frame_mem ''()V'') 0x80000 1 = Some [\<lparr>ci_method = 0x50000, ci_class_name = ''m'', ci_method_name = ''m'', ci_signature = ''()V''\<rparr>]
   \<and> (\<exists>r. rbp_chain (frame_mem ''()V'') 0x80000 [r])"
proof -
  have t: "stack_trace frame_jvm (frame_mem ''()V'') 0x80000 1 = Some [\<lparr>ci_method = 0x50000, ci_class_name = ''m'', ci_method_name = ''m'', ci_signature = ''()V''\<rparr>]"
    using frame_caller [of "''()V''"] by (simp add: stack_trace_def del: walk_frames.simps)
  from stack_trace_walks_the_chain [OF t] obtain rs where "length rs = 1" "rbp_chain (frame_mem ''()V'') 0x80000 rs" by auto
  then show ?thesis using t by (cases rs) auto
qed

lemma stack_trace_starts_with_caller_witness:
  "caller frame_jvm (frame_mem ''()V'') 0x80000 = Some \<lparr>ci_method = 0x50000, ci_class_name = ''m'', ci_method_name = ''m'', ci_signature = ''()V''\<rparr>"
proof -
  have t: "stack_trace frame_jvm (frame_mem ''()V'') 0x80000 1 = Some [\<lparr>ci_method = 0x50000, ci_class_name = ''m'', ci_method_name = ''m'', ci_signature = ''()V''\<rparr>]"
    using frame_caller [of "''()V''"] by (simp add: stack_trace_def del: walk_frames.simps)
  show ?thesis by (rule stack_trace_starts_with_caller [OF t]) simp
qed

lemma low_heap_argument_misread_witness:
  "\<exists>m'. set_arg_object 0xC8 (frame_mem ''()V'') 0x80000 1 0x210000 = Some (True, m')
     \<and> get_pointer_argument frame_jvm 0xC8 m' 0x80000 1 = Some 0x1080000"
proof -
  let ?m = "frame_mem ''()V''"
  have gl: "get_locals 0xC8 ?m 0x80000 = Some 0x81000" by (rule frame_locals) simp
  have sl: "local_slot 0x81000 1 = 0x80FF8" by (simp add: local_slot_def)
  have c: "(scast (0xC8 :: u8) :: u64) = - 56" by code_simp
  have "mapped ?m 0x80FF8 8" by (simp add: frame_mem_def)
  then have st: "store64 ?m 0x80FF8 0x210000 = Some (put 0x80FF8 (le_of_word 8 (0x210000 :: u64)) ?m)" by (simp add: store_le_put)
  let ?m' = "put 0x80FF8 (le_of_word 8 (0x210000 :: u64)) ?m"
  have s: "set_arg_object 0xC8 ?m 0x80000 1 0x210000 = Some (True, ?m')"
    using gl sl st by (simp add: set_arg_object_def with_locals_def max_jvm_locals_def store_oop_def)
  have ok: "slot_ok 0xC8 0x80000 0x81000 1" using sl c by (simp add: slot_ok_def apart_def)
  have "load64 ?m' 0x60020 = Some 0" "load32 ?m' 0x60028 = Some 3"
    using frame_loads(19,20) [of "''()V''"] by (simp_all add: load_put_apart apart_def)
  then have "decode_oop_pointer frame_jvm ?m' 0x210000 = Some 0x1080000"
    by (simp add: decode_oop_pointer_def narrow_oop_base_def narrow_oop_shift_def first_entry_def frame_eval)
  with low_heap_argument_misread [OF s gl ok, of frame_jvm] s show ?thesis by simp
qed

end
