(* ===== verification/Method_Proxy.thy ===== *)
theory Method_Proxy
  imports Frames Field_Proxy
begin

text \<open>
  Calling Java methods: \<open>method_proxy\<close> and its variant \<open>value_t\<close> (vmhook.hpp lines 12394 to
  13900). Overload resolution compares the C++ argument types with method descriptors
  (13590 to 13869); \<open>call_jni\<close> (12591) calls through the JNI function table and \<open>call\<close> (13200)
  through HotSpot's call stub.

  A call through a raw function pointer is \<open>je_call\<close>. The addresses of a call's stack arrays are
  the record \<open>call_frame\<close>. The caches that a proxy keeps in mutable members are fields of the
  record, and every call returns the proxy with its new caches.
\<close>

section \<open>The proxy and its value\<close>

datatype method_value =
    MV_void | MV_Z bool | MV_B u8 | MV_S u16 | MV_I u32 | MV_J u64 | MV_F u32 | MV_D u64 | MV_C u16 | MV_Ref u32
  | MV_Text "u8 list"

record method_proxy =
  mp_object :: addr
  mp_method :: addr
  mp_signature :: string
  mp_static_field :: bool
  mp_pinned :: bool
  mp_cached_method_id :: addr
  mp_cached_class_handle :: addr
  mp_cached_ret_char :: char

definition make_method_proxy :: "addr \<Rightarrow> addr \<Rightarrow> string \<Rightarrow> bool \<Rightarrow> method_proxy" where
  "make_method_proxy obj mth sg pinned = \<lparr>mp_object = obj, mp_method = mth, mp_signature = sg, mp_static_field = False,
     mp_pinned = pinned, mp_cached_method_id = 0, mp_cached_class_handle = 0, mp_cached_ret_char = CHR 0x00\<rparr>"

definition mv_is_void :: "method_value \<Rightarrow> bool" where
  "mv_is_void v \<longleftrightarrow> v = MV_void"

definition mv_is_string :: "method_value \<Rightarrow> bool" where
  "mv_is_string v \<longleftrightarrow> (case v of MV_Text _ \<Rightarrow> True | _ \<Rightarrow> False)"

definition mv_as_string :: "heap_env \<Rightarrow> method_value \<Rightarrow> heap \<Rightarrow> (u8 list \<times> heap) option" where
  "mv_as_string E v h = (case v of
       MV_Text t \<Rightarrow> Some (t, h)
     | MV_Ref c \<Rightarrow> do { oop \<leftarrow> decode_oop_pointer (he_jvm E) (hp_mem h) c; read_java_string E oop h }
     | _ \<Rightarrow> Some ([], h))"

definition mv_as_wrapper :: "jvm \<Rightarrow> mem \<Rightarrow> method_value \<Rightarrow> addr option" where
  "mv_as_wrapper J m v = (case v of
       MV_Ref c \<Rightarrow> do { d \<leftarrow> decode_oop_pointer J m c; Some (if is_valid_pointer d then d else 0) }
     | _ \<Rightarrow> Some 0)"

definition mv_as_pointer :: "jvm \<Rightarrow> mem \<Rightarrow> method_value \<Rightarrow> addr option" where
  "mv_as_pointer J m v = (case v of MV_Ref c \<Rightarrow> decode_oop_pointer J m c | _ \<Rightarrow> Some 0)"

definition mp_name :: "jvm \<Rightarrow> mem \<Rightarrow> method_proxy \<Rightarrow> string option" where
  "mp_name J m p = (if mp_method p = 0 then Some [] else method_get_name J m (mp_method p))"

definition mp_is_static :: "jvm \<Rightarrow> mem \<Rightarrow> method_proxy \<Rightarrow> bool option" where
  "mp_is_static J m p =
     (if mp_method p \<noteq> 0 \<and> get_access_flags J (mp_method p) \<noteq> 0
      then do { flags \<leftarrow> load32 m (get_access_flags J (mp_method p)); Some (flags AND 0x0008 \<noteq> 0) }
      else Some (mp_static_field p))"

definition mp_is_reference :: "method_proxy \<Rightarrow> bool" where
  "mp_is_reference p = (case find_from CHR '')'' (mp_signature p) 0 of None \<Rightarrow> False
     | Some close \<Rightarrow> close + 1 < length (mp_signature p) \<and> mp_signature p ! (close + 1) \<in> {CHR ''L'', CHR ''[''})"

definition mp_get_compressed_oop :: "mem \<Rightarrow> method_proxy \<Rightarrow> u32 option" where
  "mp_get_compressed_oop m p = (if mp_object p = 0 then Some 0 else load32 m (mp_object p))"

section \<open>Overload resolution\<close>

definition wrapper_matches :: "(nat, string) mapping \<Rightarrow> nat \<Rightarrow> string \<Rightarrow> bool" where
  "wrapper_matches types t d \<longleftrightarrow> 3 \<le> length d \<and> hd d = CHR ''L'' \<and> last d = CHR '';''
     \<and> (case Mapping.lookup types t of None \<Rightarrow> True | Some cn \<Rightarrow> take (length d - 2) (drop 1 d) = cn)"

text \<open>The template depends on the argument's type only, which is the constructor of \<open>java_arg\<close>.\<close>

fun argument_matches_descriptor :: "(nat, string) mapping \<Rightarrow> java_arg \<Rightarrow> string \<Rightarrow> bool" where
  "argument_matches_descriptor types (Arg_String _) d \<longleftrightarrow> d = ''Ljava/lang/String;''"
| "argument_matches_descriptor types (Arg_CString _) d \<longleftrightarrow> d = ''Ljava/lang/String;''"
| "argument_matches_descriptor types (Arg_Unique t _) d \<longleftrightarrow> wrapper_matches types t d"
| "argument_matches_descriptor types (Arg_Object t _) d \<longleftrightarrow> wrapper_matches types t d"
| "argument_matches_descriptor types (Arg_Bool _) d \<longleftrightarrow> d = ''Z''"
| "argument_matches_descriptor types (Arg_U16 _) d \<longleftrightarrow> d = ''C''"
| "argument_matches_descriptor types (Arg_I8 _) d \<longleftrightarrow> d = ''B''"
| "argument_matches_descriptor types (Arg_U8 _) d \<longleftrightarrow> d = ''B''"
| "argument_matches_descriptor types (Arg_I16 _) d \<longleftrightarrow> d = ''S''"
| "argument_matches_descriptor types (Arg_I32 _) d \<longleftrightarrow> d = ''I''"
| "argument_matches_descriptor types (Arg_I64 _) d \<longleftrightarrow> d = ''J''"
| "argument_matches_descriptor types (Arg_Float _) d \<longleftrightarrow> d = ''F''"
| "argument_matches_descriptor types (Arg_Double _) d \<longleftrightarrow> d = ''D''"

text \<open>The result is the descriptor, empty when there is none, and the position behind it.\<close>

definition next_argument_descriptor :: "string \<Rightarrow> nat \<Rightarrow> nat \<Rightarrow> string \<times> nat" where
  "next_argument_descriptor sg start close =
     (let position = start + length (takeWhile (\<lambda>c. c = CHR ''['') (take (close - start) (drop start sg))) in
      if close \<le> position then ([], position)
      else if sg ! position = CHR ''L'' then
        (case find_from CHR '';'' sg position of
           None \<Rightarrow> ([], position)
         | Some semicolon \<Rightarrow>
             if close < semicolon then ([], position)
             else (take (semicolon + 1 - start) (drop start sg), semicolon + 1))
      else (take (position + 1 - start) (drop start sg), position + 1))"

fun match_arguments :: "(nat, string) mapping \<Rightarrow> java_arg list \<Rightarrow> string \<Rightarrow> nat \<Rightarrow> nat \<Rightarrow> bool" where
  "match_arguments types [] sg position close \<longleftrightarrow> position = close"
| "match_arguments types (x # xs) sg position close \<longleftrightarrow>
     (case next_argument_descriptor sg position close of (d, position') \<Rightarrow>
        d \<noteq> [] \<and> argument_matches_descriptor types x d \<and> match_arguments types xs sg position' close)"

definition signature_matches_arguments :: "(nat, string) mapping \<Rightarrow> java_arg list \<Rightarrow> string \<Rightarrow> bool" where
  "signature_matches_arguments types xs sg \<longleftrightarrow>
     (case (find_from CHR ''('' sg 0, find_from CHR '')'' sg 0) of
        (Some opening, Some closing) \<Rightarrow> opening \<le> closing \<and> match_arguments types xs sg (opening + 1) closing
      | _ \<Rightarrow> False)"

text \<open>The first method of one class with the name and a matching descriptor.\<close>

fun match_methods ::
  "(nat, string) mapping \<Rightarrow> java_arg list \<Rightarrow> jvm \<Rightarrow> mem \<Rightarrow> addr \<Rightarrow> string \<Rightarrow> nat list \<Rightarrow> addr option" where
  "match_methods types xs J m methods_array name [] = Some 0"
| "match_methods types xs J m methods_array name (i # is) = do {
     mth \<leftarrow> load64 m (methods_array + of_nat (8 * i));
     if mth = 0 \<or> \<not> is_valid_pointer mth then match_methods types xs J m methods_array name is
     else do {
       nm \<leftarrow> method_get_name J m mth;
       if nm \<noteq> name then match_methods types xs J m methods_array name is
       else do {
         sg \<leftarrow> method_get_signature J m mth;
         if signature_matches_arguments types xs sg then Some mth
         else match_methods types xs J m methods_array name is } } }"

partial_function (option) match_in_supers ::
  "(nat, string) mapping \<Rightarrow> java_arg list \<Rightarrow> jvm \<Rightarrow> mem \<Rightarrow> string \<Rightarrow> addr \<Rightarrow> addr option" where
  [code]: "match_in_supers types xs J m name k =
     (if k = 0 then Some 0
      else do {
        count \<leftarrow> get_methods_count J m k;
        methods_array \<leftarrow> get_methods_ptr J m k;
        found \<leftarrow> (if methods_array = 0 \<or> count \<le> 0 then Some 0
                 else match_methods types xs J m methods_array name [0..<nat count]);
        if found \<noteq> 0 then Some found
        else do { super \<leftarrow> get_super J m k; match_in_supers types xs J m name super } })"

text \<open>The class that declares the method, read from its constant pool; null when a link is missing.\<close>

definition pool_holder :: "jvm \<Rightarrow> mem \<Rightarrow> addr \<Rightarrow> addr option" where
  "pool_holder J m mth = do {
     cm \<leftarrow> get_const_method J m mth;
     if cm = 0 \<or> \<not> is_valid_pointer cm then Some 0
     else do {
       cp \<leftarrow> cm_get_constants J m cm;
       if cp = 0 \<or> \<not> is_valid_pointer cp then Some 0
       else case vm_struct J ''ConstantPool'' ''_pool_holder'' of None \<Rightarrow> Some 0
         | Some e \<Rightarrow> do {
             holder \<leftarrow> load64 m (cp + se_offset e);
             Some (if holder \<noteq> 0 \<and> is_valid_pointer holder then holder else 0) } } }"

definition resolve_compatible_method ::
  "(nat, string) mapping \<Rightarrow> java_arg list \<Rightarrow> jvm \<Rightarrow> mem \<Rightarrow> method_proxy \<Rightarrow> addr option" where
  "resolve_compatible_method types xs J m p =
     (if mp_pinned p \<or> signature_matches_arguments types xs (mp_signature p) then Some (mp_method p)
      else do {
        k \<leftarrow> (if mp_object p \<noteq> 0 then klass_from_object_header J m (mp_object p)
              else if mp_method p \<noteq> 0 then pool_holder J m (mp_method p) else Some 0);
        if k = 0 then Some (mp_method p)
        else do {
          name \<leftarrow> mp_name J m p;
          found \<leftarrow> match_in_supers types xs J m name k;
          Some (if found \<noteq> 0 then found else mp_method p) } })"

section \<open>Calling through JNI\<close>

record call_frame =
  cf_handles :: addr
  cf_object :: addr
  cf_receiver :: addr

text \<open>Function pointer \<open>index\<close> of the table that the call read at its start.\<close>

definition table_entry :: "addr \<Rightarrow> nat \<Rightarrow> 'w jni_world \<Rightarrow> addr option" where
  "table_entry table index w = load64 (jw_mem w) (table + 8 * of_nat index)"

definition call_pointer :: "'w jni_env \<Rightarrow> addr \<Rightarrow> addr \<Rightarrow> jni_arg list \<Rightarrow> 'w jni_world \<Rightarrow> (u64 \<times> 'w jni_world) option" where
  "call_pointer E env f args w = je_call E f (Word env # args) w"

text \<open>Clears a pending exception with the two functions already looked up.\<close>

definition clear_pending :: "'w jni_env \<Rightarrow> addr \<Rightarrow> addr \<Rightarrow> addr \<Rightarrow> 'w jni_world \<Rightarrow> 'w jni_world option" where
  "clear_pending E env exc_check exc_clear w =
     (if exc_clear = 0 then Some w
      else do {
        (pending, w) \<leftarrow> call_pointer E env exc_check [] w;
        if (ucast pending :: u8) = 0 then Some w else map_option snd (call_pointer E env exc_clear [] w) })"

text \<open>
  \<open>Throwable.toString\<close> of the exception, for the log: the class handle and the string handle it
  obtained, or null.
\<close>

definition describe_throwable ::
  "'w jni_env \<Rightarrow> addr \<Rightarrow> addr \<Rightarrow> addr \<Rightarrow> addr \<Rightarrow> 'w jni_world \<Rightarrow> (addr \<times> addr \<times> 'w jni_world) option" where
  "describe_throwable E env table exc_check throwable w = do {
     get_object_class \<leftarrow> table_entry table 31 w;
     get_method_id \<leftarrow> table_entry table 33 w;
     call_object_method \<leftarrow> table_entry table 36 w;
     get_utf \<leftarrow> table_entry table 169 w;
     release_utf \<leftarrow> table_entry table 170 w;
     exc_clear \<leftarrow> table_entry table 17 w;
     if get_object_class = 0 \<or> get_method_id = 0 \<or> call_object_method = 0 \<or> get_utf = 0 \<or> release_utf = 0 then Some (0, 0, w)
     else do {
       (cls, w) \<leftarrow> call_pointer E env get_object_class [Word throwable] w;
       if cls = 0 then Some (0, 0, w)
       else do {
         (mid, w) \<leftarrow> call_pointer E env get_method_id [Word cls, c_name ''toString'', c_name ''()Ljava/lang/String;''] w;
         w \<leftarrow> clear_pending E env exc_check exc_clear w;
         if mid = 0 then Some (cls, 0, w)
         else do {
           (result, w) \<leftarrow> call_pointer E env call_object_method [Word throwable, Word mid] w;
           w \<leftarrow> clear_pending E env exc_check exc_clear w;
           if result = 0 then Some (cls, 0, w)
           else do {
             (utf, w) \<leftarrow> call_pointer E env get_utf [Word result, Word 0] w;
             w \<leftarrow> (if utf = 0 then Some w
                  else do {
                    _ \<leftarrow> read_c_str (jw_mem w) utf;
                    map_option snd (call_pointer E env release_utf [Word result, Word utf] w) });
             Some (cls, result, w) } } } } }"

fun delete_with :: "'w jni_env \<Rightarrow> addr \<Rightarrow> addr \<Rightarrow> addr list \<Rightarrow> 'w jni_world \<Rightarrow> 'w jni_world option" where
  "delete_with E env f [] w = Some w"
| "delete_with E env f (h # hs) w = do {
     w \<leftarrow> (if h = 0 then Some w else map_option snd (call_pointer E env f [Word h] w));
     delete_with E env f hs w }"

definition check_callee_exception :: "'w jni_env \<Rightarrow> addr \<Rightarrow> addr \<Rightarrow> 'w jni_world \<Rightarrow> 'w jni_world option" where
  "check_callee_exception E env table w = do {
     exc_check \<leftarrow> table_entry table 228 w;
     if exc_check = 0 then Some w
     else do {
       (pending, w) \<leftarrow> call_pointer E env exc_check [] w;
       if (ucast pending :: u8) = 0 then Some w
       else do {
         exc_occurred \<leftarrow> table_entry table 15 w;
         (throwable, w) \<leftarrow> (if exc_occurred = 0 then Some (0, w) else call_pointer E env exc_occurred [] w);
         exc_describe \<leftarrow> table_entry table 16 w;
         w \<leftarrow> (if exc_describe \<noteq> 0 then map_option snd (call_pointer E env exc_describe [] w)
              else do {
                exc_clear \<leftarrow> table_entry table 17 w;
                if exc_clear = 0 then Some w else map_option snd (call_pointer E env exc_clear [] w) });
         (cls, result, w) \<leftarrow> (if throwable = 0 then Some (0, 0, w) else describe_throwable E env table exc_check throwable w);
         delete_ref \<leftarrow> table_entry table 23 w;
         if delete_ref = 0 then Some w else delete_with E env delete_ref [throwable, cls, result] w } } }"

fun write_args :: "'w jni_env \<Rightarrow> addr \<Rightarrow> java_arg list \<Rightarrow> 'w jni_world \<Rightarrow> ((u64 \<times> bool) list \<times> 'w jni_world) option" where
  "write_args E storage [] w = Some ([], w)"
| "write_args E storage (x # xs) w = do {
     (v, release, w) \<leftarrow> write_jni_arg_to_slot E storage x w;
     (vs, w) \<leftarrow> write_args E (storage + 8) xs w;
     Some ((v, release) # vs, w) }"

text \<open>The handles that the destructor of \<open>string_handle_cleanup\<close> deletes.\<close>

definition to_release :: "(u64 \<times> bool) list \<Rightarrow> addr list" where
  "to_release vs = map fst (filter snd vs)"

text \<open>The last closing parenthesis of a descriptor.\<close>

definition rfind_paren :: "string \<Rightarrow> nat option" where
  "rfind_paren s = (if CHR '')'' \<in> set s then Some (length s - 1 - length (takeWhile (\<lambda>c. c \<noteq> CHR '')'') (rev s))) else None)"

text \<open>The JNI slot of the \<open>Call...MethodA\<close> function for a return type, for instance and for static calls.\<close>

definition call_slot :: "char \<Rightarrow> bool \<Rightarrow> nat" where
  "call_slot ret is_static =
     (if ret = CHR ''V'' then (if is_static then 143 else 63)
      else if ret = CHR ''Z'' then (if is_static then 119 else 39)
      else if ret = CHR ''B'' then (if is_static then 122 else 42)
      else if ret = CHR ''C'' then (if is_static then 125 else 45)
      else if ret = CHR ''S'' then (if is_static then 128 else 48)
      else if ret = CHR ''I'' then (if is_static then 131 else 51)
      else if ret = CHR ''J'' then (if is_static then 134 else 54)
      else if ret = CHR ''F'' then (if is_static then 137 else 57)
      else if ret = CHR ''D'' then (if is_static then 140 else 60)
      else (if is_static then 116 else 36))"

definition scalar_result :: "char \<Rightarrow> u64 \<Rightarrow> method_value" where
  "scalar_result ret r =
     (if ret = CHR ''Z'' then MV_Z ((ucast r :: u8) \<noteq> 0) else if ret = CHR ''B'' then MV_B (ucast r)
      else if ret = CHR ''C'' then MV_C (ucast r) else if ret = CHR ''S'' then MV_S (ucast r)
      else if ret = CHR ''I'' then MV_I (ucast r) else if ret = CHR ''J'' then MV_J r
      else if ret = CHR ''F'' then MV_F (ucast r) else if ret = CHR ''D'' then MV_D r else MV_void)"

definition object_result :: "'w jni_env \<Rightarrow> string \<Rightarrow> addr \<Rightarrow> 'w jni_world \<Rightarrow> (method_value \<times> 'w jni_world) option" where
  "object_result E sg handle w =
     (if (case rfind_paren sg of None \<Rightarrow> False | Some r \<Rightarrow> drop (r + 1) sg = ''Ljava/lang/String;'') then do {
        (text, w) \<leftarrow> jni_get_string_utf E handle w;
        w \<leftarrow> jni_delete_local_ref E handle w;
        Some (MV_Text text, w) }
      else do {
        oop \<leftarrow> jni_decode_object (jw_mem w) handle;
        w \<leftarrow> jni_delete_local_ref E handle w;
        if oop = 0 then Some (MV_void, w)
        else do { c \<leftarrow> encode_oop_pointer (je_jvm E) (jw_mem w) oop; Some (MV_Ref c, w) } })"

text \<open>The dispatch on the return type, once the arguments are in place.\<close>

definition dispatch ::
  "'w jni_env \<Rightarrow> addr \<Rightarrow> addr \<Rightarrow> method_proxy \<Rightarrow> string \<Rightarrow> char \<Rightarrow> addr \<Rightarrow> u64 list \<Rightarrow> 'w jni_world \<Rightarrow> (method_value \<times> 'w jni_world) option" where
  "dispatch E env table p sg ret receiver values w = (let is_static = (mp_object p = 0); mid = mp_cached_method_id p in
     if ret = CHR ''V'' then do {
       name \<leftarrow> mp_name (je_jvm E) (jw_mem w) p;
       if \<not> is_static \<and> name \<in> {''<init>'', ''<clinit>''} \<and> mp_cached_class_handle p \<noteq> 0 then do {
         f \<leftarrow> table_entry table 93 w;
         if f = 0 then Some (MV_void, w)
         else do {
           (_, w) \<leftarrow> call_pointer E env f [Word receiver, Word (mp_cached_class_handle p), Word mid, Values values] w;
           w \<leftarrow> check_callee_exception E env table w;
           Some (MV_void, w) } }
       else do {
         f \<leftarrow> table_entry table (call_slot ret is_static) w;
         if f = 0 then Some (MV_void, w)
         else do {
           (_, w) \<leftarrow> call_pointer E env f [Word receiver, Word mid, Values values] w;
           w \<leftarrow> check_callee_exception E env table w;
           Some (MV_void, w) } } }
     else if ret \<in> set ''ZBCSIJFDL['' then do {
       f \<leftarrow> table_entry table (call_slot ret is_static) w;
       if f = 0 then Some (MV_void, w)
       else do {
         (r, w) \<leftarrow> call_pointer E env f [Word receiver, Word mid, Values values] w;
         w \<leftarrow> check_callee_exception E env table w;
         if ret \<in> {CHR ''L'', CHR ''[''} then object_result E sg r w
         else Some (scalar_result ret r, w) } }
     else Some (MV_void, w))"

text \<open>
  Looks the method identifier up unless the proxy has one; \<open>False\<close> is the early return. A proxy
  that already has an identifier keeps it.
\<close>

definition ensure_method_id ::
  "'w jni_env \<Rightarrow> call_frame \<Rightarrow> string \<Rightarrow> method_proxy \<Rightarrow> 'w jni_world \<Rightarrow> (bool \<times> method_proxy \<times> 'w jni_world) option" where
  "ensure_method_id E cf sg p w =
     (if mp_cached_method_id p \<noteq> 0 then Some (True, p, w)
      else do {
        (cls, w) \<leftarrow> (if mp_object p = 0 then
            (if mp_method p = 0 then Some (0, w)
             else do {
               holder \<leftarrow> pool_holder (je_jvm E) (jw_mem w) (mp_method p);
               let sym = (if holder = 0 then 0 else klass_get_name (je_jvm E) (jw_mem w) holder);
               if sym = 0 then Some (0, w)
               else do { cn \<leftarrow> symbol_to_string (je_jvm E) (jw_mem w) sym; jni_find_class E cn w } })
          else do {
            (handle, m) \<leftarrow> jni_oop_handle (jw_mem w) (mp_object p) (cf_object cf);
            jni_get_object_class E handle (with_heap w m) });
        if cls = 0 then Some (False, p, w)
        else do {
          let p = p\<lparr>mp_cached_class_handle := cls\<rparr>;
          name \<leftarrow> mp_name (je_jvm E) (jw_mem w) p;
          (mid, w) \<leftarrow> (if mp_object p = 0 then jni_get_static_method_id E cls name sg w else jni_get_method_id E cls name sg w);
          let p = p\<lparr>mp_cached_method_id := mid\<rparr>;
          if mid = 0 then do { w \<leftarrow> jni_exception_clear E w; Some (False, p, w) }
          else Some (True, p, w) } })"

definition call_jni ::
  "'w jni_env \<Rightarrow> (nat, string) mapping \<Rightarrow> call_frame \<Rightarrow> java_arg list \<Rightarrow> method_proxy \<Rightarrow> 'w jni_world \<Rightarrow>
     (method_value \<times> method_proxy \<times> 'w jni_world) option" where
  "call_jni E types cf xs p w = (let env = jni_env_pointer w in
     if env = 0 then Some (MV_void, p, w)
     else do {
       selected \<leftarrow> resolve_compatible_method types xs (je_jvm E) (jw_mem w) p;
       sg \<leftarrow> (if selected \<noteq> 0 \<and> selected \<noteq> mp_method p then method_get_signature (je_jvm E) (jw_mem w) selected
             else Some (mp_signature p));
       let ret = (if mp_cached_ret_char p \<noteq> CHR 0x00 then Some (mp_cached_ret_char p)
                  else map_option (\<lambda>r. if r + 1 < length sg then sg ! (r + 1) else CHR ''V'') (rfind_paren sg));
       case ret of None \<Rightarrow> Some (MV_void, p, w)
       | Some ret \<Rightarrow> do {
           (ok, p, w) \<leftarrow> ensure_method_id E cf sg (p\<lparr>mp_cached_ret_char := ret\<rparr>) w;
           if \<not> ok then Some (MV_void, p, w)
           else do {
             (vs, w) \<leftarrow> write_args E (cf_handles cf) xs w;
             table \<leftarrow> load64 (jw_mem w) env;
             (receiver, w) \<leftarrow> (if mp_object p = 0 then Some (mp_cached_class_handle p, w)
               else do { (h, m) \<leftarrow> jni_oop_handle (jw_mem w) (mp_object p) (cf_receiver cf); Some (h, with_heap w m) });
             (v, w) \<leftarrow> dispatch E env table p sg ret receiver (map fst vs) w;
             w \<leftarrow> delete_refs E (to_release vs) w;
             Some (v, p, w) } } })"

section \<open>Calling through the call stub\<close>

text \<open>One word per argument; a string becomes a new Java string, null when that fails.\<close>

definition pack_argument :: "heap_env \<Rightarrow> java_arg \<Rightarrow> heap \<Rightarrow> (u64 \<times> heap) option" where
  "pack_argument E x h = (case x of
       Arg_String t \<Rightarrow> make_java_string E t h
     | Arg_CString t \<Rightarrow> make_java_string E (case t of None \<Rightarrow> [] | Some t \<Rightarrow> t) h
     | Arg_Unique _ obj \<Rightarrow> Some (case obj of None \<Rightarrow> 0 | Some oop \<Rightarrow> oop, h)
     | Arg_Object _ oop \<Rightarrow> Some (oop, h)
     | Arg_I8 v \<Rightarrow> Some (ucast v, h)
     | Arg_I16 v \<Rightarrow> Some (ucast v, h)
     | _ \<Rightarrow> Some (scalar_value x, h))"

text \<open>At most 8 words; the arguments behind the eighth are dropped.\<close>

fun pack_arguments :: "heap_env \<Rightarrow> java_arg list \<Rightarrow> u64 list \<Rightarrow> heap \<Rightarrow> (u64 list \<times> heap) option" where
  "pack_arguments E [] params h = Some (params, h)"
| "pack_arguments E (x # xs) params h =
     (if 8 \<le> length params then pack_arguments E xs params h
      else do { (v, h) \<leftarrow> pack_argument E x h; pack_arguments E xs (params @ [v]) h })"

definition stub_result :: "heap_env \<Rightarrow> string \<Rightarrow> char \<Rightarrow> u64 \<Rightarrow> heap \<Rightarrow> (method_value \<times> heap) option" where
  "stub_result E sg ret r h =
     (if ret = CHR ''Z'' then Some (MV_Z (r AND 1 \<noteq> 0), h)
      else if ret \<in> set ''BSIJCFDV'' then Some (scalar_result ret r, h)
      else if r = 0 then Some (MV_void, h)
      else if (case rfind_paren sg of None \<Rightarrow> False | Some i \<Rightarrow> drop (i + 1) sg = ''Ljava/lang/String;'') then do {
        (t, h) \<leftarrow> read_java_string E r h; Some (MV_Text t, h) }
      else do { c \<leftarrow> encode_oop_pointer (he_jvm E) (hp_mem h) r; Some (MV_Ref c, h) })"

definition mp_call ::
  "'w jni_env \<Rightarrow> (nat, string) mapping \<Rightarrow> call_frame \<Rightarrow> java_arg list \<Rightarrow> method_proxy \<Rightarrow> 'w jni_world \<Rightarrow>
     (method_value \<times> method_proxy \<times> 'w jni_world) option" where
  "mp_call E types cf xs p w = (let J = je_jvm E; mth = mp_method p in
     if mth = 0 \<or> \<not> is_valid_pointer mth then Some (MV_void, p, w)
     else do {
       stub \<leftarrow> find_call_stub_entry J (jw_mem w);
       if stub = 0 then do {
         (ok, w) \<leftarrow> ensure_thread E w;
         if ok then call_jni E types cf xs p w else Some (MV_void, p, w) }
       else do {
         selected \<leftarrow> resolve_compatible_method types xs J (jw_mem w) p;
         sg \<leftarrow> (if selected \<noteq> 0 then method_get_signature J (jw_mem w) selected else Some (mp_signature p));
         (ok, w) \<leftarrow> ensure_thread E w;
         let thread = current_java_thread (hp_threads (jw_heap w));
         if \<not> ok \<or> thread = 0 then Some (MV_void, p, w)
         else do {
           entry \<leftarrow> get_from_interpreted_entry J (jw_mem w) selected;
           if entry = 0 \<or> \<not> is_valid_pointer entry then Some (MV_void, p, w)
           else do {
             let ret = (case rfind_paren sg of None \<Rightarrow> CHR ''V'' | Some r \<Rightarrow> if r + 1 < length sg then sg ! (r + 1) else CHR 0x00);
             (params, h) \<leftarrow> pack_arguments (je_heap E) xs (if mp_object p \<noteq> 0 \<and> \<not> mp_static_field p then [mp_object p] else []) (jw_heap w);
             previous \<leftarrow> get_thread_state J (hp_mem h) thread;
             m \<leftarrow> set_thread_state J (hp_mem h) thread thread_in_Java;
             (r, w) \<leftarrow> je_call E stub [Word (- 1), Word (of_nat (sig_char_to_basic_type ret)), Word selected, Word entry,
               Values params, Word (of_nat (length params)), Word thread] (w\<lparr>jw_heap := h\<lparr>hp_mem := m\<rparr>\<rparr>);
             m \<leftarrow> set_thread_state J (jw_mem w) thread previous;
             (v, h) \<leftarrow> stub_result (je_heap E) sg ret r ((jw_heap w)\<lparr>hp_mem := m\<rparr>);
             Some (v, p, w\<lparr>jw_heap := h\<rparr>) } } } })"

section \<open>The parser and the descriptors\<close>

text \<open>A type's text is some brackets and then one character or a class name between L and a semicolon.\<close>

lemma jt_text_shape:
  "jt_wf t \<Longrightarrow> \<exists>n b. jt_text t = replicate n CHR ''['' @ b
     \<and> ((\<exists>c. b = [c] \<and> c \<noteq> CHR ''['' \<and> c \<noteq> CHR ''L'') \<or> (\<exists>cn. b = CHR ''L'' # cn @ '';'' \<and> CHR '';'' \<notin> set cn))"
proof (induction t)
  case (JT_prim c)
  then have "c \<noteq> CHR ''['' \<and> c \<noteq> CHR ''L''" by auto
  then show ?case by (intro exI [of _ 0] exI [of _ "[c]"]) simp
next
  case (JT_obj cn)
  then show ?case by (intro exI [of _ 0] exI [of _ "CHR ''L'' # cn @ '';''"]) simp
next
  case (JT_arr t)
  then obtain n b where "jt_text t = replicate n CHR ''['' @ b"
    "(\<exists>c. b = [c] \<and> c \<noteq> CHR ''['' \<and> c \<noteq> CHR ''L'') \<or> (\<exists>cn. b = CHR ''L'' # cn @ '';'' \<and> CHR '';'' \<notin> set cn)" by auto
  then show ?case by (intro exI [of _ "Suc n"] exI [of _ b]) simp
qed

lemma takeWhile_brackets:
  "b \<noteq> [] \<Longrightarrow> hd b \<noteq> CHR ''['' \<Longrightarrow> takeWhile (\<lambda>c. c = CHR ''['') (replicate n CHR ''['' @ b) = replicate n CHR ''[''"
  by (cases b; induction n) auto

lemma next_descriptor:
  assumes "jt_wf t"
  shows "next_argument_descriptor (pre @ jt_text t @ post) (length pre) (length pre + length (jt_text t) + k) =
     (jt_text t, length pre + length (jt_text t))"
proof -
  obtain n b where t: "jt_text t = replicate n CHR ''['' @ b"
    and b: "(\<exists>c. b = [c] \<and> c \<noteq> CHR ''['' \<and> c \<noteq> CHR ''L'') \<or> (\<exists>cn. b = CHR ''L'' # cn @ '';'' \<and> CHR '';'' \<notin> set cn)"
    using jt_text_shape [OF assms] by blast
  from b have ne: "b \<noteq> []" "hd b \<noteq> CHR ''[''" by auto
  let ?s = "pre @ replicate n CHR ''['' @ b @ post"
  have tk: "take (n + length b + k) (replicate n CHR ''['' @ b @ post) = replicate n CHR ''['' @ b @ take k post" by simp
  have pos: "length (takeWhile (\<lambda>c. c = CHR ''['') (take (n + length b + k) (drop (length pre) ?s))) = n"
    using takeWhile_brackets [of "b @ take k post" n] ne by (simp add: tk)
  from b show ?thesis
  proof
    assume "\<exists>c. b = [c] \<and> c \<noteq> CHR ''['' \<and> c \<noteq> CHR ''L''"
    then obtain c where c: "b = [c]" "c \<noteq> CHR ''L''" by blast
    have "?s ! (length pre + n) = c" using c by (simp add: nth_append)
    with pos c show ?thesis by (simp add: next_argument_descriptor_def t add.assoc Let_def)
  next
    assume "\<exists>cn. b = CHR ''L'' # cn @ '';'' \<and> CHR '';'' \<notin> set cn"
    then obtain cn where c: "b = CHR ''L'' # cn @ '';''" "CHR '';'' \<notin> set cn" by blast
    have h: "?s ! (length pre + n) = CHR ''L''" using c by (simp add: nth_append)
    have f: "find_from CHR '';'' ?s (length pre + n) = Some (length pre + n + Suc (length cn))"
      using find_from_append [of "CHR '';''" "CHR ''L'' # cn" "pre @ replicate n CHR ''[''" post] c by simp
    have "take (Suc (Suc (n + length cn))) (replicate n CHR ''['' @ CHR ''L'' # cn @ CHR '';'' # post) =
        replicate n CHR ''['' @ CHR ''L'' # cn @ '';''" by simp
    with pos h f c show ?thesis by (simp add: next_argument_descriptor_def t add.assoc Let_def)
  qed
qed

lemma next_descriptor_end: "fst (next_argument_descriptor s close close) = []"
  by (simp add: next_argument_descriptor_def Let_def)

lemma jt_text_nonempty [simp]: "jt_text t \<noteq> []"
  by (cases t) auto

lemma match_params:
  assumes "\<forall>p \<in> set ps. jt_wf p"
  shows "match_arguments types xs (pre @ concat (map jt_text ps) @ post) (length pre) (length pre + length (concat (map jt_text ps)))
     \<longleftrightarrow> list_all2 (\<lambda>x p. argument_matches_descriptor types x (jt_text p)) xs ps"
  using assms
proof (induction xs arbitrary: pre ps)
  case Nil
  then show ?case by (cases ps) auto
next
  case (Cons x xs)
  show ?case
  proof (cases ps)
    case Nil
    with next_descriptor_end [of "pre @ post" "length pre"] show ?thesis by (auto split: prod.splits)
  next
    case (Cons p qs)
    have wf: "jt_wf p" "\<forall>p \<in> set qs. jt_wf p" using Cons.prems \<open>ps = p # qs\<close> by auto
    from next_descriptor [OF wf(1), of pre "concat (map jt_text qs) @ post" "length (concat (map jt_text qs))"]
    have n: "next_argument_descriptor (pre @ concat (map jt_text ps) @ post) (length pre) (length pre + length (concat (map jt_text ps)))
       = (jt_text p, length pre + length (jt_text p))" using Cons by (simp add: add.assoc)
    from Cons.IH [of qs "pre @ jt_text p"] wf(2)
    have "match_arguments types xs (pre @ concat (map jt_text ps) @ post) (length pre + length (jt_text p)) (length pre + length (concat (map jt_text ps)))
       \<longleftrightarrow> list_all2 (\<lambda>x p. argument_matches_descriptor types x (jt_text p)) xs qs" using Cons by (simp add: add.assoc)
    then show ?thesis using n Cons by simp
  qed
qed

section \<open>Resolution\<close>

definition compatible :: "(nat, string) mapping \<Rightarrow> java_arg list \<Rightarrow> jvm \<Rightarrow> mem \<Rightarrow> string \<Rightarrow> addr \<Rightarrow> bool" where
  "compatible types xs J m name mth \<longleftrightarrow> is_valid_pointer mth \<and> method_get_name J m mth = Some name
     \<and> (\<exists>sg. method_get_signature J m mth = Some sg \<and> signature_matches_arguments types xs sg)"

lemma match_methods_sound:
  "match_methods types xs J m arr name is = Some r \<Longrightarrow> r \<noteq> 0 \<Longrightarrow> compatible types xs J m name r"
proof (induction "is")
  case (Cons i "is")
  then show ?case by (auto simp: compatible_def bind_eq_Some_conv split: if_splits)
qed simp

lemma match_in_supers_sound:
  "match_in_supers types xs J m name k = Some r \<Longrightarrow> r \<noteq> 0 \<longrightarrow> compatible types xs J m name r"
  by (rule match_in_supers.raw_induct
      [where P = "\<lambda>types xs J m name k r. r \<noteq> 0 \<longrightarrow> compatible types xs J m name r", rotated])
    (assumption, fastforce split: if_splits bind_splits dest: match_methods_sound)

section \<open>The descriptor that the arguments write\<close>

text \<open>A class name as it is registered: non-empty, without the characters that delimit descriptors.\<close>

definition names_ok :: "(nat, string) mapping \<Rightarrow> bool" where
  "names_ok types \<longleftrightarrow> (\<forall>t cn. Mapping.lookup types t = Some cn \<longrightarrow> jt_wf (JT_obj cn))"

definition wrapper_type :: "(nat, string) mapping \<Rightarrow> nat \<Rightarrow> java_type" where
  "wrapper_type types t = JT_obj (case Mapping.lookup types t of None \<Rightarrow> ''java/lang/Object'' | Some cn \<Rightarrow> cn)"

fun argument_type :: "(nat, string) mapping \<Rightarrow> java_arg \<Rightarrow> java_type" where
  "argument_type types (Arg_Unique t _) = wrapper_type types t"
| "argument_type types (Arg_Object t _) = wrapper_type types t"
| "argument_type types (Arg_String _) = JT_obj ''java/lang/String''"
| "argument_type types (Arg_CString _) = JT_obj ''java/lang/String''"
| "argument_type types x = JT_prim (hd (jni_signature_for_arg types x))"

lemma argument_type_text: "jt_text (argument_type types x) = jni_signature_for_arg types x"
  by (cases x) (auto simp: wrapper_type_def wrapper_signature_def split: option.splits)

lemma argument_type_wf: "names_ok types \<Longrightarrow> jt_wf (argument_type types x)"
  by (cases x) (auto simp: wrapper_type_def names_ok_def split: option.splits)

lemma own_descriptor_matches:
  "names_ok types \<Longrightarrow> argument_matches_descriptor types x (jni_signature_for_arg types x)"
  by (cases x) (auto simp: wrapper_matches_def wrapper_signature_def names_ok_def Suc_le_eq split: option.splits)

section \<open>Results of a call\<close>

lemma dispatch_scalar:
  assumes "dispatch E env table p sg ret receiver values w = Some (v, w')" and "ret \<noteq> CHR ''L''" and "ret \<noteq> CHR ''[''"
  shows "v = MV_void \<or> (\<exists>r. v = scalar_result ret r)"
  using assms by (auto simp: dispatch_def Let_def bind_eq_Some_conv split: if_splits)

lemma ensure_method_id_cached:
  "mp_cached_method_id p \<noteq> 0 \<Longrightarrow> ensure_method_id E cf sg p w = Some (True, p, w)"
  by (simp add: ensure_method_id_def)

lemma pack_arguments_length:
  "pack_arguments E xs params h = Some (ps, h') \<Longrightarrow>
     length ps = max (length params) (min 8 (length params + length xs))"
proof (induction xs arbitrary: params h)
  case (Cons x xs)
  show ?case
  proof (cases "8 \<le> length params")
    case True
    with Cons.prems Cons.IH show ?thesis by fastforce
  next
    case False
    with Cons.prems obtain v h1 where "pack_arguments E xs (params @ [v]) h1 = Some (ps, h')"
      by (auto simp: bind_eq_Some_conv)
    from Cons.IH [OF this] False show ?thesis by simp
  qed
qed simp

lemma matches_descriptor:
  assumes "\<forall>p \<in> set ps. jt_wf p"
  shows "signature_matches_arguments types xs (descriptor ps ret) \<longleftrightarrow>
    list_all2 (\<lambda>x p. argument_matches_descriptor types x (jt_text p)) xs ps"
proof -
  have c: "find_from CHR '')'' (descriptor ps ret) 0 = Some (length ''('' + length (concat (map jt_text ps)))"
    using find_from_append [of "CHR '')''" "''('' @ concat (map jt_text ps)" "[]" ret] params_chars [OF assms]
    by (simp add: descriptor_def)
  have o: "find_from CHR ''('' (descriptor ps ret) 0 = Some 0"
    using find_from_append [of "CHR ''(''" "[]" "[]"] by (simp add: descriptor_def)
  from match_params [OF assms, of types xs "''(''" "'')'' @ ret"] show ?thesis
    by (simp add: signature_matches_arguments_def c o) (simp add: descriptor_def)
qed

section \<open>Properties\<close>

text \<open>C36. Parsing a well-formed method descriptor is inverse to writing it: the arguments of a call
  match a descriptor exactly when there are as many arguments as parameter types and each
  argument's type matches the type at its position.\<close>

theorem signature_matches_iff:
  assumes "\<forall>p \<in> set ps. jt_wf p"
  shows "signature_matches_arguments types xs (descriptor ps ret) \<longleftrightarrow>
    list_all2 (\<lambda>x p. argument_matches_descriptor types x (jt_text p)) xs ps"
  by (rule matches_descriptor [OF assms])

lemma signature_matches_iff_witness:
  "signature_matches_arguments Mapping.empty [Arg_I32 7, Arg_String []] (descriptor [JT_prim CHR ''I'', JT_obj ''java/lang/String''] ''V'')
   \<and> \<not> signature_matches_arguments Mapping.empty [Arg_I32 7] (descriptor [JT_arr (JT_prim CHR ''I'')] ''V'')"
  using signature_matches_iff [of "[JT_prim CHR ''I'', JT_obj ''java/lang/String'']" Mapping.empty "[Arg_I32 7, Arg_String []]" "''V''"]
    signature_matches_iff [of "[JT_arr (JT_prim CHR ''I'')]" Mapping.empty "[Arg_I32 7]" "''V''"] by simp

text \<open>The descriptor that the bridge writes for the arguments of a constructor call is one that
  overload resolution accepts for the same arguments, whatever the return type, when the
  registered class names are well formed.\<close>

theorem own_signature_matches:
  assumes "names_ok types"
  shows "signature_matches_arguments types xs (''('' @ concat (map (jni_signature_for_arg types) xs) @ '')'' @ ret)"
proof -
  have wf: "\<forall>p \<in> set (map (argument_type types) xs). jt_wf p" using assms by (simp add: argument_type_wf)
  have "signature_matches_arguments types xs (descriptor (map (argument_type types) xs) ret)"
    unfolding matches_descriptor [OF wf] using assms
    by (simp add: list_all2_conv_all_nth argument_type_text own_descriptor_matches)
  then show ?thesis by (simp add: descriptor_def comp_def argument_type_text)
qed

lemma own_signature_matches_witness:
  "signature_matches_arguments (Mapping.update 1 ''p/C'' Mapping.empty) [Arg_Object 1 0, Arg_I64 5] ''(Lp/C;J)V''"
  using own_signature_matches [of "Mapping.update 1 ''p/C'' Mapping.empty" "[Arg_Object 1 0, Arg_I64 5]" "''V''"]
  by (simp add: names_ok_def wrapper_signature_def lookup_update' split: if_splits)

text \<open>Overload resolution returns the proxy's own method, or a method with a valid pointer, the
  proxy's method name and a descriptor that the arguments match.\<close>

theorem resolve_compatible_method_sound:
  assumes "resolve_compatible_method types xs J m p = Some r"
  shows "r = mp_method p \<or> (\<exists>name. mp_name J m p = Some name \<and> compatible types xs J m name r)"
  using assms
  by (auto simp: resolve_compatible_method_def bind_eq_Some_conv dest!: match_in_supers_sound split: if_splits)

lemma resolve_compatible_method_sound_witness:
  "resolve_compatible_method Mapping.empty [Arg_I32 1] frame_jvm (frame_mem ''(J)V'') (make_method_proxy 0 0x50000 ''(J)V'' False) = Some 0x50000
   \<and> ((0x50000 :: addr) = 0x50000 \<or> (\<exists>name. mp_name frame_jvm (frame_mem ''(J)V'') (make_method_proxy 0 0x50000 ''(J)V'' False) = Some name
     \<and> compatible Mapping.empty [Arg_I32 1] frame_jvm (frame_mem ''(J)V'') name 0x50000))"
proof -
  have l: "length ''(J)V'' < 0x1000" "''(J)V'' \<noteq> []" by simp_all
  have sg: "\<not> signature_matches_arguments Mapping.empty [Arg_I32 1] ''(J)V''"
    using matches_descriptor [of "[JT_prim CHR ''J'']" Mapping.empty "[Arg_I32 1]" "''V''"] by (simp add: descriptor_def)
  have holder: "pool_holder frame_jvm (frame_mem ''(J)V'') 0x50000 = Some 0x55000"
    using frame_method [OF l] frame_loads [OF l(1)] by (simp add: pool_holder_def frame_ptr)
  have n: "match_in_supers Mapping.empty [Arg_I32 1] frame_jvm (frame_mem ''(J)V'') ''m'' 0x55000 = Some 0"
    by (simp add: match_in_supers.simps [of _ _ _ _ _ "0x55000"] get_methods_count_def get_methods_ptr_def
        klass_methods_array_def get_super_def frame_eval)
      (subst match_in_supers.simps, simp)
  have r: "resolve_compatible_method Mapping.empty [Arg_I32 1] frame_jvm (frame_mem ''(J)V'') (make_method_proxy 0 0x50000 ''(J)V'' False) = Some 0x50000"
    using sg holder n frame_method [OF l] by (simp add: resolve_compatible_method_def make_method_proxy_def mp_name_def)
  from resolve_compatible_method_sound [OF r] r show ?thesis by (simp add: make_method_proxy_def)
qed

text \<open>A proxy whose first call cached a method identifier and a return character makes every later
  call with them: the proxy stays as it is, and the result is read with the cached return
  character, whichever overload the later arguments resolve to.\<close>

theorem cached_overload_is_reused:
  assumes "call_jni E types cf xs p w = Some (v, p', w')"
    and "mp_cached_method_id p \<noteq> 0" and "mp_cached_ret_char p \<notin> {CHR 0x00, CHR ''L'', CHR ''[''}"
  shows "p' = p \<and> (v = MV_void \<or> (\<exists>r. v = scalar_result (mp_cached_ret_char p) r))"
  using assms
  by (auto simp: call_jni_def Let_def ensure_method_id_cached bind_eq_Some_conv dest!: dispatch_scalar split: if_splits prod.splits)

text \<open>A static method called through slot 131, which reads an int; the argument list of the proxy is for a long.\<close>

definition call_mem :: mem where
  "call_mem = image [(0x90000, 8, 0x91000), (0x91418, 8, 0x7131)]"

definition call_world :: "addr list jni_world" where
  "call_world = (demo_world [])\<lparr>jw_heap := (jw_heap (demo_world []))\<lparr>hp_mem := call_mem\<rparr>\<rparr>"

definition stale_proxy :: method_proxy where
  "stale_proxy = (make_method_proxy 0 0 ''(J)J'' False)\<lparr>mp_cached_method_id := 0x6000, mp_cached_class_handle := 0x6008,
     mp_cached_ret_char := CHR ''I''\<rparr>"

lemma call_mem_loads:
  "load64 call_mem 0x90000 = Some 0x91000" "load64 call_mem 0x91418 = Some 0x7131" "load64 call_mem 0x91720 = Some 0"
  by (simp_all add: call_mem_def mem_simps apart_def take_bit_word_eq_self unsigned_take_bit_eq)

lemma stale_call:
  "call_jni demo_jni Mapping.empty \<lparr>cf_handles = 0, cf_object = 0, cf_receiver = 0\<rparr> [Arg_I64 5] stale_proxy call_world =
     Some (MV_I 0, stale_proxy, call_world)"
proof -
  have sg: "signature_matches_arguments Mapping.empty [Arg_I64 5] ''(J)J''"
    using matches_descriptor [of "[JT_prim CHR ''J'']" Mapping.empty "[Arg_I64 5]" "''J''"] by (simp add: descriptor_def)
  have sel: "resolve_compatible_method Mapping.empty [Arg_I64 5] (je_jvm demo_jni) (jw_mem call_world) stale_proxy = Some 0"
    using sg by (simp add: resolve_compatible_method_def stale_proxy_def make_method_proxy_def)
  have w: "jni_env_pointer call_world = 0x90000" "jw_mem call_world = call_mem"
    by (simp_all add: call_world_def demo_world_def demo_heap_def)
  show ?thesis
    using sel w call_mem_loads
    by (simp add: call_jni_def stale_proxy_def make_method_proxy_def ensure_method_id_def dispatch_def Let_def table_entry_def
        call_slot_def call_pointer_def demo_jni_def demo_call_def check_callee_exception_def scalar_result_def to_release_def
        write_jni_arg_to_slot_def)
qed

lemma cached_overload_is_reused_witness:
  "mp_signature stale_proxy = ''(J)J'' \<and> (MV_I 0 = MV_void \<or> (\<exists>r. MV_I 0 = scalar_result CHR ''I'' r))"
  using cached_overload_is_reused [OF stale_call] by (simp add: stale_proxy_def make_method_proxy_def)

end
