(* ===== verification/Object_Base.thy ===== *)
theory Object_Base
  imports Method_Proxy
begin

text \<open>
  The base class of every wrapper: \<open>object_base\<close> (vmhook.hpp lines 13967 to 14427). An object is
  the number of its dynamic C++ type and the Java object it wraps. The registered types are the
  map \<open>types\<close>; the class and field caches are those of the heap.
\<close>

section \<open>The object\<close>

record object_base =
  ob_type :: nat
  ob_instance :: addr

text \<open>Moving from an object leaves it without an instance; the result is the target and the source.\<close>

definition ob_move :: "object_base \<Rightarrow> object_base \<times> object_base" where
  "ob_move other = (other, other\<lparr>ob_instance := 0\<rparr>)"

definition ob_move_assign :: "object_base \<Rightarrow> object_base \<Rightarrow> object_base \<times> object_base" where
  "ob_move_assign this other = (this\<lparr>ob_instance := ob_instance other\<rparr>, other\<lparr>ob_instance := 0\<rparr>)"

definition resolve_klass :: "heap_env \<Rightarrow> (nat, string) mapping \<Rightarrow> nat \<Rightarrow> heap \<Rightarrow> (addr \<times> heap) option" where
  "resolve_klass E types type_id h =
     (case Mapping.lookup types type_id of None \<Rightarrow> Some (0, h) | Some cn \<Rightarrow> heap_find_class E cn h)"

section \<open>Fields\<close>

definition heap_find_field :: "heap_env \<Rightarrow> addr \<Rightarrow> string \<Rightarrow> heap \<Rightarrow> (field_entry_t option \<times> heap) option" where
  "heap_find_field E k name h = do {
     (e, c) \<leftarrow> find_field (he_jvm E) (hp_mem h) k name (hp_fields h);
     Some (e, h\<lparr>hp_fields := c\<rparr>) }"

text \<open>A static field lives in the mirror of the class that declares it.\<close>

definition mirror_proxy :: "jvm \<Rightarrow> mem \<Rightarrow> addr \<Rightarrow> field_entry_t \<Rightarrow> field_proxy option" where
  "mirror_proxy J m k e =
     (let mirror = get_java_mirror J m (if fe_declaring_klass e \<noteq> 0 then fe_declaring_klass e else k) in
      if mirror = 0 \<or> \<not> is_valid_pointer mirror then None
      else Some \<lparr>fp_pointer = mirror + ucast (fe_offset e), fp_signature = fe_signature e, fp_static = True\<rparr>)"

definition entry_proxy :: "jvm \<Rightarrow> mem \<Rightarrow> addr \<Rightarrow> addr \<Rightarrow> field_entry_t \<Rightarrow> field_proxy option" where
  "entry_proxy J m obj k e =
     (if fe_is_static e then mirror_proxy J m k e
      else if obj = 0 then None
      else Some \<lparr>fp_pointer = obj + ucast (fe_offset e), fp_signature = fe_signature e, fp_static = False\<rparr>)"

definition ob_get_field ::
  "heap_env \<Rightarrow> (nat, string) mapping \<Rightarrow> object_base \<Rightarrow> string \<Rightarrow> heap \<Rightarrow> (field_proxy option \<times> heap) option" where
  "ob_get_field E types this name h = do {
     (k, h) \<leftarrow> resolve_klass E types (ob_type this) h;
     if k = 0 then Some (None, h)
     else do {
       (entry, h) \<leftarrow> heap_find_field E k name h;
       Some (Option.bind entry (entry_proxy (he_jvm E) (hp_mem h) (ob_instance this) k), h) } }"

definition ob_static_field ::
  "heap_env \<Rightarrow> (nat, string) mapping \<Rightarrow> nat \<Rightarrow> string \<Rightarrow> heap \<Rightarrow> (field_proxy option \<times> heap) option" where
  "ob_static_field E types type_id name h = do {
     (k, h) \<leftarrow> resolve_klass E types type_id h;
     if k = 0 then Some (None, h)
     else do {
       (entry, h) \<leftarrow> heap_find_field E k name h;
       Some (Option.bind entry (\<lambda>e. if fe_is_static e then mirror_proxy (he_jvm E) (hp_mem h) k e else None), h) } }"

section \<open>Methods\<close>

text \<open>The first method with the name in the class or one of its superclasses, null when there is none.\<close>

partial_function (option) find_method_in_supers :: "jvm \<Rightarrow> mem \<Rightarrow> string \<Rightarrow> addr \<Rightarrow> addr option" where
  [code]: "find_method_in_supers J m name k =
     (if k = 0 then Some 0
      else do {
        method_count \<leftarrow> get_methods_count J m k;
        methods_array \<leftarrow> get_methods_ptr J m k;
        found \<leftarrow> (if methods_array = 0 \<or> method_count \<le> 0 then Some 0
                 else scan_methods J m methods_array name [] [0..<nat method_count]);
        if found \<noteq> 0 then Some found
        else do { super \<leftarrow> get_super J m k; find_method_in_supers J m name super } })"

fun scan_exact :: "jvm \<Rightarrow> mem \<Rightarrow> addr \<Rightarrow> string \<Rightarrow> string \<Rightarrow> nat list \<Rightarrow> addr option" where
  "scan_exact J m methods_array name sig [] = Some 0"
| "scan_exact J m methods_array name sig (i # is) = do {
     mth \<leftarrow> load64 m (methods_array + of_nat (8 * i));
     if mth = 0 \<or> \<not> is_valid_pointer mth then scan_exact J m methods_array name sig is
     else do {
       sg \<leftarrow> method_get_signature J m mth;
       nm \<leftarrow> method_get_name J m mth;
       if nm = name \<and> sg = sig then Some mth else scan_exact J m methods_array name sig is } }"

partial_function (option) find_exact_in_supers :: "jvm \<Rightarrow> mem \<Rightarrow> string \<Rightarrow> string \<Rightarrow> addr \<Rightarrow> addr option" where
  [code]: "find_exact_in_supers J m name sig k =
     (if k = 0 then Some 0
      else do {
        method_count \<leftarrow> get_methods_count J m k;
        methods_array \<leftarrow> get_methods_ptr J m k;
        found \<leftarrow> (if methods_array = 0 \<or> method_count \<le> 0 then Some 0
                 else scan_exact J m methods_array name sig [0..<nat method_count]);
        if found \<noteq> 0 then Some found
        else do { super \<leftarrow> get_super J m k; find_exact_in_supers J m name sig super } })"

text \<open>The proxy of a method that was found, on the object or null; pinned when the caller gave the descriptor.\<close>

definition found_proxy :: "jvm \<Rightarrow> mem \<Rightarrow> addr \<Rightarrow> bool \<Rightarrow> addr \<Rightarrow> method_proxy option option" where
  "found_proxy J m obj pinned mth =
     (if mth = 0 then Some None
      else do { sg \<leftarrow> method_get_signature J m mth; Some (Some (make_method_proxy obj mth sg pinned)) })"

definition ob_get_method ::
  "heap_env \<Rightarrow> (nat, string) mapping \<Rightarrow> object_base \<Rightarrow> string \<Rightarrow> heap \<Rightarrow> (method_proxy option \<times> heap) option" where
  "ob_get_method E types this name h = do {
     (k, h) \<leftarrow> resolve_klass E types (ob_type this) h;
     mth \<leftarrow> find_method_in_supers (he_jvm E) (hp_mem h) name k;
     p \<leftarrow> found_proxy (he_jvm E) (hp_mem h) (ob_instance this) False mth;
     Some (p, h) }"

definition ob_get_exact_method ::
  "heap_env \<Rightarrow> (nat, string) mapping \<Rightarrow> object_base \<Rightarrow> string \<Rightarrow> string \<Rightarrow> heap \<Rightarrow> (method_proxy option \<times> heap) option" where
  "ob_get_exact_method E types this name sig h = do {
     (k, h) \<leftarrow> resolve_klass E types (ob_type this) h;
     mth \<leftarrow> find_exact_in_supers (he_jvm E) (hp_mem h) name sig k;
     p \<leftarrow> found_proxy (he_jvm E) (hp_mem h) (ob_instance this) True mth;
     Some (p, h) }"

definition ob_static_method ::
  "heap_env \<Rightarrow> (nat, string) mapping \<Rightarrow> nat \<Rightarrow> string \<Rightarrow> heap \<Rightarrow> (method_proxy option \<times> heap) option" where
  "ob_static_method E types type_id name h = do {
     (k, h) \<leftarrow> resolve_klass E types type_id h;
     mth \<leftarrow> find_method_in_supers (he_jvm E) (hp_mem h) name k;
     p \<leftarrow> found_proxy (he_jvm E) (hp_mem h) 0 False mth;
     Some (p, h) }"

definition ob_static_exact_method ::
  "heap_env \<Rightarrow> (nat, string) mapping \<Rightarrow> nat \<Rightarrow> string \<Rightarrow> string \<Rightarrow> heap \<Rightarrow> (method_proxy option \<times> heap) option" where
  "ob_static_exact_method E types type_id name sig h = do {
     (k, h) \<leftarrow> resolve_klass E types type_id h;
     mth \<leftarrow> find_exact_in_supers (he_jvm E) (hp_mem h) name sig k;
     p \<leftarrow> found_proxy (he_jvm E) (hp_mem h) 0 True mth;
     Some (p, h) }"

section \<open>What a lookup finds\<close>

definition method_named :: "jvm \<Rightarrow> mem \<Rightarrow> string \<Rightarrow> addr \<Rightarrow> bool" where
  "method_named J m name mth \<longleftrightarrow> is_valid_pointer mth \<and> method_get_name J m mth = Some name"

lemma scan_methods_sound:
  "scan_methods J m arr name [] is = Some r \<Longrightarrow> r \<noteq> 0 \<Longrightarrow> method_named J m name r"
  by (induction J m arr name "[] :: string" "is" rule: scan_methods.induct)
    (auto simp: method_named_def bind_eq_Some_conv split: if_splits)

lemma scan_exact_sound:
  "scan_exact J m arr name sig is = Some r \<Longrightarrow> r \<noteq> 0 \<Longrightarrow> method_named J m name r \<and> method_get_signature J m r = Some sig"
  by (induction J m arr name sig "is" rule: scan_exact.induct)
    (auto simp: method_named_def bind_eq_Some_conv split: if_splits)

lemma find_method_in_supers_sound:
  "find_method_in_supers J m name k = Some r \<Longrightarrow> r \<noteq> 0 \<longrightarrow> method_named J m name r"
  by (rule find_method_in_supers.raw_induct [where P = "\<lambda>J m name k r. r \<noteq> 0 \<longrightarrow> method_named J m name r", rotated])
    (assumption, fastforce split: if_splits bind_splits dest: scan_methods_sound)

lemma find_exact_in_supers_sound:
  "find_exact_in_supers J m name sig k = Some r \<Longrightarrow>
     r \<noteq> 0 \<longrightarrow> method_named J m name r \<and> method_get_signature J m r = Some sig"
  by (rule find_exact_in_supers.raw_induct
      [where P = "\<lambda>J m name sig k r. r \<noteq> 0 \<longrightarrow> method_named J m name r \<and> method_get_signature J m r = Some sig", rotated])
    (assumption, fastforce split: if_splits bind_splits dest: scan_exact_sound)

lemma found_proxy_Some:
  "found_proxy J m obj pinned mth = Some (Some p) \<longleftrightarrow>
     mth \<noteq> 0 \<and> (\<exists>sg. method_get_signature J m mth = Some sg \<and> p = make_method_proxy obj mth sg pinned)"
  by (auto simp: found_proxy_def bind_eq_Some_conv)

text \<open>
  A method that was looked up with its descriptor has that name and descriptor, and overload
  resolution keeps it, whatever the arguments of the call.
\<close>

theorem exact_method_is_pinned:
  assumes "ob_get_exact_method E types this name sig h = Some (Some p, h')"
  shows "method_named (he_jvm E) (hp_mem h') name (mp_method p) \<and> mp_signature p = sig \<and> mp_object p = ob_instance this
     \<and> resolve_compatible_method types xs J m p = Some (mp_method p)"
proof -
  from assms obtain k h1 mth where m: "find_exact_in_supers (he_jvm E) (hp_mem h1) name sig k = Some mth"
    and f: "found_proxy (he_jvm E) (hp_mem h1) (ob_instance this) True mth = Some (Some p)" and h: "h' = h1"
    unfolding ob_get_exact_method_def by (fastforce simp: bind_eq_Some_conv)
  from f obtain sg where p: "mth \<noteq> 0" "method_get_signature (he_jvm E) (hp_mem h1) mth = Some sg"
    "p = make_method_proxy (ob_instance this) mth sg True" by (auto simp: found_proxy_Some)
  with find_exact_in_supers_sound [OF m] h show ?thesis by (simp add: make_method_proxy_def resolve_compatible_method_def)
qed

text \<open>A method that was looked up by its name alone has that name and the descriptor the proxy holds.\<close>

theorem named_method_has_name:
  assumes "ob_get_method E types this name h = Some (Some p, h')"
  shows "method_named (he_jvm E) (hp_mem h') name (mp_method p) \<and> mp_object p = ob_instance this
     \<and> method_get_signature (he_jvm E) (hp_mem h') (mp_method p) = Some (mp_signature p)"
proof -
  from assms obtain k h1 mth where m: "find_method_in_supers (he_jvm E) (hp_mem h1) name k = Some mth"
    and f: "found_proxy (he_jvm E) (hp_mem h1) (ob_instance this) False mth = Some (Some p)" and h: "h' = h1"
    unfolding ob_get_method_def by (fastforce simp: bind_eq_Some_conv)
  from f obtain sg where p: "mth \<noteq> 0" "method_get_signature (he_jvm E) (hp_mem h1) mth = Some sg"
    "p = make_method_proxy (ob_instance this) mth sg False" by (auto simp: found_proxy_Some)
  with find_method_in_supers_sound [OF m] h show ?thesis by (simp add: make_method_proxy_def)
qed

end
