(* ===== verification/Collections.thy ===== *)
theory Collections
  imports Object_Base "HOL-Library.Tree"
begin

text \<open>
  Reading Java collections without calling Java: the walks over \<open>LinkedList\<close>, \<open>HashMap\<close> and
  \<open>TreeMap\<close> (vmhook.hpp lines 15182 to 15622), the wrappers \<open>collection\<close> and \<open>map\<close> (14643 to
  15142) and the conversions \<open>to_vector\<close> and \<open>to_entries\<close> of a field's value (15638 to 15711).

  The elements of a result are the wrapped objects, 0 for a null \<open>unique_ptr\<close>. The walks read
  the memory and use the field cache; their inner loop over the left children has no bound in the
  code and is a partial function.
\<close>

section \<open>Reading a reference field\<close>

definition read_ref :: "jvm \<Rightarrow> mem \<Rightarrow> addr \<Rightarrow> field_entry_t \<Rightarrow> addr option" where
  "read_ref J m obj e = do { c \<leftarrow> load32 m (obj + ucast (fe_offset e)); decode_oop_pointer J m c }"

definition live :: "addr \<Rightarrow> bool" where
  "live p \<longleftrightarrow> p \<noteq> 0 \<and> is_valid_pointer p"

definition wrapped :: "addr \<Rightarrow> addr" where
  "wrapped p = (if live p then p else 0)"

section \<open>Reading a node\<close>

text \<open>
  The part of the loops that reads one node: what it reports and the node's link, \<open>next\<close> for a
  list and \<open>right\<close> for a tree; \<open>None\<close> inside is the \<open>break\<close> of the loop.
\<close>

type_synonym 'a visit = "addr \<Rightarrow> field_cache \<Rightarrow> (('a \<times> addr) option \<times> field_cache) option"

definition visit_single :: "jvm \<Rightarrow> mem \<Rightarrow> string \<Rightarrow> string \<Rightarrow> addr visit" where
  "visit_single J m item link node c = do {
     k \<leftarrow> klass_from_oop J m node;
     if k = 0 then Some (None, c)
     else do {
       (item_entry, c) \<leftarrow> find_field J m k item c;
       (link_entry, c) \<leftarrow> find_field J m k link c;
       case (item_entry, link_entry) of
         (Some item_entry, Some link_entry) \<Rightarrow> do {
           item_oop \<leftarrow> read_ref J m node item_entry;
           link_oop \<leftarrow> read_ref J m node link_entry;
           Some (Some (wrapped item_oop, link_oop), c) }
       | _ \<Rightarrow> Some (None, c) } }"

definition visit_pair :: "jvm \<Rightarrow> mem \<Rightarrow> string \<Rightarrow> (addr \<times> addr) visit" where
  "visit_pair J m link node c = do {
     k \<leftarrow> klass_from_oop J m node;
     if k = 0 then Some (None, c)
     else do {
       (key_entry, c) \<leftarrow> find_field J m k ''key'' c;
       (value_entry, c) \<leftarrow> find_field J m k ''value'' c;
       (link_entry, c) \<leftarrow> find_field J m k link c;
       case (key_entry, value_entry, link_entry) of
         (Some key_entry, Some value_entry, Some link_entry) \<Rightarrow> do {
           key_oop \<leftarrow> read_ref J m node key_entry;
           value_oop \<leftarrow> read_ref J m node value_entry;
           link_oop \<leftarrow> read_ref J m node link_entry;
           Some (Some ((wrapped key_oop, wrapped value_oop), link_oop), c) }
       | _ \<Rightarrow> Some (None, c) } }"

text \<open>The loop over linked nodes, with the iterations left.\<close>

fun chain_walk :: "'a visit \<Rightarrow> nat \<Rightarrow> addr \<Rightarrow> field_cache \<Rightarrow> ('a list \<times> field_cache) option" where
  "chain_walk visit 0 node c = Some ([], c)"
| "chain_walk visit (Suc guard) node c =
     (if \<not> live node then Some ([], c)
      else do {
        (r, c) \<leftarrow> visit node c;
        case r of None \<Rightarrow> Some ([], c)
        | Some (x, next_oop) \<Rightarrow> do { (rest, c) \<leftarrow> chain_walk visit guard next_oop c; Some (x # rest, c) } })"

section \<open>LinkedList\<close>

definition linked_list_walk_items :: "jvm \<Rightarrow> mem \<Rightarrow> addr \<Rightarrow> u32 \<Rightarrow> field_cache \<Rightarrow> (addr list \<times> field_cache) option" where
  "linked_list_walk_items J m list_oop n c =
     (if \<not> live list_oop \<or> sint n \<le> 0 then Some ([], c)
      else do {
        k \<leftarrow> klass_from_oop J m list_oop;
        if k = 0 then Some ([], c)
        else do {
          (first, c) \<leftarrow> find_field J m k ''first'' c;
          case first of None \<Rightarrow> Some ([], c)
          | Some first \<Rightarrow> do {
              node \<leftarrow> read_ref J m list_oop first;
              chain_walk (visit_single J m ''item'' ''next'') (nat (sint n)) node c } } })"

section \<open>HashMap\<close>

text \<open>The loop over the buckets of the table.\<close>

fun walk_buckets ::
  "(addr \<Rightarrow> field_cache \<Rightarrow> ('a list \<times> field_cache) option) \<Rightarrow> jvm \<Rightarrow> mem \<Rightarrow> addr \<Rightarrow> nat list \<Rightarrow> field_cache \<Rightarrow>
     ('a list \<times> field_cache) option" where
  "walk_buckets bucket_walk J m table [] c = Some ([], c)"
| "walk_buckets bucket_walk J m table (bucket # bs) c = do {
     head \<leftarrow> (get_array_element 4 m table (of_nat bucket) :: u32 option);
     node \<leftarrow> decode_oop_pointer J m head;
     (xs, c) \<leftarrow> bucket_walk node c;
     (ys, c) \<leftarrow> walk_buckets bucket_walk J m table bs c;
     Some (xs @ ys, c) }"

definition walk_table ::
  "(addr \<Rightarrow> field_cache \<Rightarrow> ('a list \<times> field_cache) option) \<Rightarrow> jvm \<Rightarrow> mem \<Rightarrow> addr \<Rightarrow> field_cache \<Rightarrow>
     ('a list \<times> field_cache) option" where
  "walk_table bucket_walk J m map_oop c =
     (if \<not> live map_oop then Some ([], c)
      else do {
        k \<leftarrow> klass_from_oop J m map_oop;
        if k = 0 then Some ([], c)
        else do {
          (entry, c) \<leftarrow> find_field J m k ''table'' c;
          case entry of None \<Rightarrow> Some ([], c)
          | Some entry \<Rightarrow> do {
              compressed \<leftarrow> load32 m (map_oop + ucast (fe_offset entry));
              table \<leftarrow> decode_array_oop J m compressed;
              if \<not> live table then Some ([], c)
              else do {
                bucket_count \<leftarrow> array_length m table;
                walk_buckets bucket_walk J m table [0..<nat (sint bucket_count)] c } } } })"

text \<open>A bucket's walk has at most \<open>1 << 20\<close> iterations.\<close>

definition hash_map_walk_entries :: "jvm \<Rightarrow> mem \<Rightarrow> addr \<Rightarrow> field_cache \<Rightarrow> ((addr \<times> addr) list \<times> field_cache) option" where
  "hash_map_walk_entries J m = walk_table (chain_walk (visit_pair J m ''next'') 1048576) J m"

definition hash_map_walk_keys :: "jvm \<Rightarrow> mem \<Rightarrow> addr \<Rightarrow> field_cache \<Rightarrow> (addr list \<times> field_cache) option" where
  "hash_map_walk_keys J m = walk_table (chain_walk (visit_single J m ''key'' ''next'') 1048576) J m"

section \<open>TreeMap\<close>

text \<open>
  The inner loop pushes the nodes on the path of left children; it leaves the stack. The outer
  loop takes the top of the stack, reports it and goes on with its right child.
\<close>

partial_function (option) descend_left ::
  "jvm \<Rightarrow> mem \<Rightarrow> addr \<Rightarrow> addr list \<Rightarrow> field_cache \<Rightarrow> (addr list \<times> field_cache) option" where
  [code]: "descend_left J m node stack c =
     (if \<not> live node then Some (stack, c)
      else do {
        k \<leftarrow> klass_from_oop J m node;
        if k = 0 then Some (stack, c)
        else do {
          (entry, c) \<leftarrow> find_field J m k ''left'' c;
          case entry of None \<Rightarrow> Some (stack, c)
          | Some e \<Rightarrow> do { left_oop \<leftarrow> read_ref J m node e; descend_left J m left_oop (node # stack) c } } })"

partial_function (option) tree_walk ::
  "'a visit \<Rightarrow> jvm \<Rightarrow> mem \<Rightarrow> nat \<Rightarrow> addr \<Rightarrow> addr list \<Rightarrow> field_cache \<Rightarrow> ('a list \<times> field_cache) option" where
  [code]: "tree_walk visit J m visited node stack c =
     (if \<not> live node \<and> stack = [] then Some ([], c)
      else do {
        (stack, c) \<leftarrow> descend_left J m node stack c;
        case stack of [] \<Rightarrow> Some ([], c)
        | n # stack \<Rightarrow> do {
            (r, c) \<leftarrow> visit n c;
            case r of None \<Rightarrow> Some ([], c)
            | Some (x, right_oop) \<Rightarrow> do {
                (rest, c) \<leftarrow> (if 16777216 < visited + 1 then Some ([], c)
                             else tree_walk visit J m (visited + 1) right_oop stack c);
                Some (x # rest, c) } } })"

definition walk_root ::
  "(addr \<Rightarrow> field_cache \<Rightarrow> ('a list \<times> field_cache) option) \<Rightarrow> jvm \<Rightarrow> mem \<Rightarrow> addr \<Rightarrow> field_cache \<Rightarrow>
     ('a list \<times> field_cache) option" where
  "walk_root walk J m map_oop c =
     (if \<not> live map_oop then Some ([], c)
      else do {
        k \<leftarrow> klass_from_oop J m map_oop;
        if k = 0 then Some ([], c)
        else do {
          (entry, c) \<leftarrow> find_field J m k ''root'' c;
          case entry of None \<Rightarrow> Some ([], c)
          | Some entry \<Rightarrow> do {
              root \<leftarrow> read_ref J m map_oop entry;
              if \<not> live root then Some ([], c) else walk root c } } })"

definition tree_map_walk_entries :: "jvm \<Rightarrow> mem \<Rightarrow> addr \<Rightarrow> field_cache \<Rightarrow> ((addr \<times> addr) list \<times> field_cache) option" where
  "tree_map_walk_entries J m = walk_root (\<lambda>root. tree_walk (visit_pair J m ''right'') J m 0 root []) J m"

definition tree_map_walk_keys :: "jvm \<Rightarrow> mem \<Rightarrow> addr \<Rightarrow> field_cache \<Rightarrow> (addr list \<times> field_cache) option" where
  "tree_map_walk_keys J m = walk_root (\<lambda>root. tree_walk (visit_single J m ''key'' ''right'') J m 0 root []) J m"

section \<open>Converting a value to an integer\<close>

text \<open>
  \<open>static_cast\<close> of the stored alternative to a 32-bit integer; alternatives that do not convert
  give 0. How \<open>float\<close> and \<open>double\<close> convert depends on the target's sign, so it is a parameter.
\<close>

record float_casts =
  fc_float :: "u32 \<Rightarrow> u32"
  fc_double :: "u64 \<Rightarrow> u32"

definition vt_as_word32 :: "float_casts \<Rightarrow> value_t \<Rightarrow> u32" where
  "vt_as_word32 fc v = (case vt_data v of
       Val_Z b \<Rightarrow> if b \<noteq> 0 then 1 else 0 | Val_B b \<Rightarrow> scast b | Val_S s \<Rightarrow> scast s | Val_I i \<Rightarrow> i | Val_J j \<Rightarrow> ucast j
     | Val_F f \<Rightarrow> fc_float fc f | Val_D d \<Rightarrow> fc_double fc d | Val_C ch \<Rightarrow> ucast ch | Val_Ref r \<Rightarrow> r)"

definition mv_as_word32 :: "float_casts \<Rightarrow> method_value \<Rightarrow> u32" where
  "mv_as_word32 fc v = (case v of
       MV_void \<Rightarrow> 0 | MV_Z b \<Rightarrow> if b then 1 else 0 | MV_B b \<Rightarrow> scast b | MV_S s \<Rightarrow> scast s | MV_I i \<Rightarrow> i | MV_J j \<Rightarrow> ucast j
     | MV_F f \<Rightarrow> fc_float fc f | MV_D d \<Rightarrow> fc_double fc d | MV_C ch \<Rightarrow> ucast ch | MV_Ref r \<Rightarrow> r | MV_Text _ \<Rightarrow> 0)"

section \<open>The wrappers collection and map\<close>

text \<open>What the member functions of the wrappers use: the JNI environment, the registered types, the casts to \<open>int32_t\<close> and to \<open>uint32_t\<close>, and a call's stack arrays.\<close>

record 'w coll_env =
  ce_jni :: "'w jni_env"
  ce_types :: "(nat, string) mapping"
  ce_signed :: float_casts
  ce_unsigned :: float_casts
  ce_frame :: call_frame

abbreviation ce_jvm :: "'w coll_env \<Rightarrow> jvm" where "ce_jvm E \<equiv> je_jvm (ce_jni E)"

abbreviation with_fields :: "'w jni_world \<Rightarrow> field_cache \<Rightarrow> 'w jni_world" where
  "with_fields w c \<equiv> w\<lparr>jw_heap := (jw_heap w)\<lparr>hp_fields := c\<rparr>\<rparr>"

abbreviation jw_fields :: "'w jni_world \<Rightarrow> field_cache" where "jw_fields w \<equiv> hp_fields (jw_heap w)"

definition get_field_by_oop_klass ::
  "'w coll_env \<Rightarrow> addr \<Rightarrow> string \<Rightarrow> 'w jni_world \<Rightarrow> (field_proxy option \<times> 'w jni_world) option" where
  "get_field_by_oop_klass E inst name w = do {
     k \<leftarrow> klass_from_oop (ce_jvm E) (jw_mem w) inst;
     if k = 0 then Some (None, w)
     else do {
       (entry, c) \<leftarrow> find_field (ce_jvm E) (jw_mem w) k name (jw_fields w);
       Some (Option.bind entry (entry_proxy (ce_jvm E) (jw_mem w) inst k), with_fields w c) } }"

definition get_method_by_oop_klass ::
  "'w coll_env \<Rightarrow> addr \<Rightarrow> string \<Rightarrow> 'w jni_world \<Rightarrow> method_proxy option option" where
  "get_method_by_oop_klass E inst name w = do {
     k \<leftarrow> klass_from_oop (ce_jvm E) (jw_mem w) inst;
     mth \<leftarrow> find_method_in_supers (ce_jvm E) (jw_mem w) name k;
     found_proxy (ce_jvm E) (jw_mem w) inst False mth }"

definition coll_size :: "'w coll_env \<Rightarrow> addr \<Rightarrow> 'w jni_world \<Rightarrow> (u32 \<times> 'w jni_world) option" where
  "coll_size E inst w = do {
     proxy \<leftarrow> get_method_by_oop_klass E inst ''size'' w;
     case proxy of None \<Rightarrow> Some (0, w)
     | Some p \<Rightarrow> do {
         (v, _, w) \<leftarrow> mp_call (ce_jni E) (ce_types E) (ce_frame E) [] p w;
         Some (mv_as_word32 (ce_signed E) v, w) } }"

definition coll_is_empty :: "'w coll_env \<Rightarrow> addr \<Rightarrow> 'w jni_world \<Rightarrow> (bool \<times> 'w jni_world) option" where
  "coll_is_empty E inst w = map_option (\<lambda>(n, w). (n = 0, w)) (coll_size E inst w)"

definition map_size :: "'w coll_env \<Rightarrow> addr \<Rightarrow> 'w jni_world \<Rightarrow> (u32 \<times> 'w jni_world) option" where
  "map_size E inst w = do {
     proxy \<leftarrow> get_method_by_oop_klass E inst ''size'' w;
     case proxy of
       Some p \<Rightarrow> do {
         (v, _, w) \<leftarrow> mp_call (ce_jni E) (ce_types E) (ce_frame E) [] p w;
         Some (mv_as_word32 (ce_signed E) v, w) }
     | None \<Rightarrow> do {
         (f, w) \<leftarrow> get_field_by_oop_klass E inst ''size'' w;
         case f of None \<Rightarrow> Some (0, w)
         | Some f \<Rightarrow> do { v \<leftarrow> fp_get (jw_mem w) f; Some (vt_as_word32 (ce_signed E) v, w) } } }"

definition map_is_empty :: "'w coll_env \<Rightarrow> addr \<Rightarrow> 'w jni_world \<Rightarrow> (bool \<times> 'w jni_world) option" where
  "map_is_empty E inst w = map_option (\<lambda>(n, w). (n = 0, w)) (map_size E inst w)"

text \<open>The elements of an array of references.\<close>

fun array_objects :: "jvm \<Rightarrow> mem \<Rightarrow> addr \<Rightarrow> nat list \<Rightarrow> addr list option" where
  "array_objects J m arr [] = Some []"
| "array_objects J m arr (i # is) = do {
     c \<leftarrow> (get_array_element 4 m arr (of_nat i) :: u32 option);
     oop \<leftarrow> decode_oop_pointer J m c;
     rest \<leftarrow> array_objects J m arr is;
     Some (wrapped oop # rest) }"

text \<open>
  The loop of calls \<open>get(index)\<close> on one method proxy. The call is written
  \<open>call<std::uint32_t>(index)\<close>, so the argument is a 32-bit integer.
\<close>

fun call_get :: "'w coll_env \<Rightarrow> method_proxy \<Rightarrow> nat list \<Rightarrow> 'w jni_world \<Rightarrow> (addr list \<times> 'w jni_world) option" where
  "call_get E p [] w = Some ([], w)"
| "call_get E p (i # is) w = do {
     (v, p, w) \<leftarrow> mp_call (ce_jni E) (ce_types E) (ce_frame E) [Arg_I32 (of_nat i)] p w;
     oop \<leftarrow> decode_oop_pointer (ce_jvm E) (jw_mem w) (mv_as_word32 (ce_unsigned E) v);
     (rest, w) \<leftarrow> call_get E p is w;
     Some (wrapped oop # rest, w) }"

text \<open>A walk over the object that a field refers to.\<close>

definition walk_field ::
  "'w coll_env \<Rightarrow> (addr \<Rightarrow> field_cache \<Rightarrow> (addr list \<times> field_cache) option) \<Rightarrow> field_proxy \<Rightarrow> 'w jni_world \<Rightarrow>
     (addr list \<times> 'w jni_world) option" where
  "walk_field E walk f w = do {
     v \<leftarrow> fp_get (jw_mem w) f;
     oop \<leftarrow> decode_oop_pointer (ce_jvm E) (jw_mem w) (vt_as_word32 (ce_unsigned E) v);
     if live oop then do { (xs, c) \<leftarrow> walk oop (jw_fields w); Some (xs, with_fields w c) } else Some ([], w) }"

definition to_vector_generic :: "'w coll_env \<Rightarrow> addr \<Rightarrow> 'w jni_world \<Rightarrow> (addr list \<times> 'w jni_world) option" where
  "to_vector_generic E inst w = do {
     (n, w) \<leftarrow> coll_size E inst w;
     if sint n \<le> 0 then Some ([], w)
     else do {
       get \<leftarrow> get_method_by_oop_klass E inst ''get'' w;
       case get of None \<Rightarrow> Some ([], w) | Some p \<Rightarrow> call_get E p [0..<nat (sint n)] w } }"

definition to_vector_linked :: "'w coll_env \<Rightarrow> addr \<Rightarrow> field_proxy option \<Rightarrow> 'w jni_world \<Rightarrow> (addr list \<times> 'w jni_world) option" where
  "to_vector_linked E inst size_opt w = do {
     (first_opt, w) \<leftarrow> get_field_by_oop_klass E inst ''first'' w;
     case (first_opt, size_opt) of
       (Some _, Some sf) \<Rightarrow> do {
         v \<leftarrow> fp_get (jw_mem w) sf;
         let n = vt_as_word32 (ce_signed E) v;
         if 0 < sint n
         then do { (xs, c) \<leftarrow> linked_list_walk_items (ce_jvm E) (jw_mem w) inst n (jw_fields w); Some (xs, with_fields w c) }
         else Some ([], w) }
     | _ \<Rightarrow> do {
         (map_field, w) \<leftarrow> get_field_by_oop_klass E inst ''map'' w;
         case map_field of Some f \<Rightarrow> walk_field E (hash_map_walk_keys (ce_jvm E) (jw_mem w)) f w
         | None \<Rightarrow> do {
             (tree_field, w) \<leftarrow> get_field_by_oop_klass E inst ''m'' w;
             case tree_field of Some f \<Rightarrow> walk_field E (tree_map_walk_keys (ce_jvm E) (jw_mem w)) f w
             | None \<Rightarrow> to_vector_generic E inst w } } }"

definition to_vector :: "'w coll_env \<Rightarrow> addr \<Rightarrow> 'w jni_world \<Rightarrow> (addr list \<times> 'w jni_world) option" where
  "to_vector E inst w =
     (if \<not> live inst then Some ([], w)
      else do {
        (size_opt, w) \<leftarrow> get_field_by_oop_klass E inst ''size'' w;
        (data_opt, w) \<leftarrow> get_field_by_oop_klass E inst ''elementData'' w;
        case (size_opt, data_opt) of
          (Some sf, Some df) \<Rightarrow> do {
            v \<leftarrow> fp_get (jw_mem w) sf;
            let n = vt_as_word32 (ce_signed E) v;
            if sint n \<le> 0 then Some ([], w)
            else do {
              d \<leftarrow> fp_get (jw_mem w) df;
              arr \<leftarrow> decode_array_oop (ce_jvm E) (jw_mem w) (vt_as_word32 (ce_unsigned E) d);
              if live arr then do { xs \<leftarrow> array_objects (ce_jvm E) (jw_mem w) arr [0..<nat (sint n)]; Some (xs, w) }
              else to_vector_linked E inst size_opt w } }
        | _ \<Rightarrow> to_vector_linked E inst size_opt w })"

definition to_entries :: "'w coll_env \<Rightarrow> addr \<Rightarrow> 'w jni_world \<Rightarrow> ((addr \<times> addr) list \<times> 'w jni_world) option" where
  "to_entries E inst w =
     (if \<not> live inst then Some ([], w)
      else do {
        (table, w) \<leftarrow> get_field_by_oop_klass E inst ''table'' w;
        if table \<noteq> None then do {
          (xs, c) \<leftarrow> hash_map_walk_entries (ce_jvm E) (jw_mem w) inst (jw_fields w); Some (xs, with_fields w c) }
        else do {
          (root, w) \<leftarrow> get_field_by_oop_klass E inst ''root'' w;
          if root \<noteq> None then do {
            (xs, c) \<leftarrow> tree_map_walk_entries (ce_jvm E) (jw_mem w) inst (jw_fields w); Some (xs, with_fields w c) }
          else Some ([], w) } })"

section \<open>The conversions of a field's value\<close>

definition value_to_vector :: "'w coll_env \<Rightarrow> value_t \<Rightarrow> 'w jni_world \<Rightarrow> (addr list \<times> 'w jni_world) option" where
  "value_to_vector E v w = do {
     oop \<leftarrow> decode_oop_pointer (ce_jvm E) (jw_mem w) (vt_as_word32 (ce_unsigned E) v);
     if \<not> live oop then Some ([], w)
     else if 2 \<le> length (vt_signature v) \<and> hd (vt_signature v) = CHR ''['' \<and> vt_signature v ! 1 \<in> {CHR ''L'', CHR ''[''} then do {
       n \<leftarrow> array_length (jw_mem w) oop;
       xs \<leftarrow> array_objects (ce_jvm E) (jw_mem w) oop [0..<nat (sint n)];
       Some (xs, w) }
     else to_vector E oop w }"

definition value_to_entries :: "'w coll_env \<Rightarrow> value_t \<Rightarrow> 'w jni_world \<Rightarrow> ((addr \<times> addr) list \<times> 'w jni_world) option" where
  "value_to_entries E v w = do {
     oop \<leftarrow> decode_oop_pointer (ce_jvm E) (jw_mem w) (vt_as_word32 (ce_unsigned E) v);
     if \<not> live oop then Some ([], w) else to_entries E oop w }"

section \<open>What the nodes represent\<close>

text \<open>
  The contents of the Java objects, without the cache: \<open>ref_at\<close> is a reference field of an object;
  a list, a tree and a table of buckets are related to the nodes that hold them.
\<close>

definition ref_at :: "jvm \<Rightarrow> mem \<Rightarrow> addr \<Rightarrow> string \<Rightarrow> addr \<Rightarrow> bool" where
  "ref_at J m node name p \<longleftrightarrow> (\<exists>k e. klass_from_oop J m node = Some k \<and> k \<noteq> 0
     \<and> find_in_supers J m name k = Some (Some e) \<and> read_ref J m node e = Some p)"

definition single_at :: "jvm \<Rightarrow> mem \<Rightarrow> string \<Rightarrow> string \<Rightarrow> addr \<Rightarrow> addr \<Rightarrow> addr \<Rightarrow> bool" where
  "single_at J m item link node x nxt \<longleftrightarrow> (\<exists>i. ref_at J m node item i \<and> x = wrapped i) \<and> ref_at J m node link nxt"

definition pair_at :: "jvm \<Rightarrow> mem \<Rightarrow> string \<Rightarrow> addr \<Rightarrow> addr \<times> addr \<Rightarrow> addr \<Rightarrow> bool" where
  "pair_at J m link node x nxt \<longleftrightarrow>
     (\<exists>k v. ref_at J m node ''key'' k \<and> ref_at J m node ''value'' v \<and> x = (wrapped k, wrapped v)) \<and> ref_at J m node link nxt"

fun chain_at :: "(addr \<Rightarrow> 'a \<Rightarrow> addr \<Rightarrow> bool) \<Rightarrow> 'a list \<Rightarrow> addr \<Rightarrow> bool" where
  "chain_at R [] node \<longleftrightarrow> \<not> live node"
| "chain_at R (x # xs) node \<longleftrightarrow> live node \<and> (\<exists>nxt. R node x nxt \<and> chain_at R xs nxt)"

fun tree_at :: "jvm \<Rightarrow> mem \<Rightarrow> (addr \<Rightarrow> 'a \<Rightarrow> addr \<Rightarrow> bool) \<Rightarrow> 'a tree \<Rightarrow> addr \<Rightarrow> bool" where
  "tree_at J m R Leaf node \<longleftrightarrow> \<not> live node"
| "tree_at J m R (Node l x r) node \<longleftrightarrow> live node \<and> (\<exists>ln rn. ref_at J m node ''left'' ln \<and> tree_at J m R l ln
     \<and> R node x rn \<and> tree_at J m R r rn)"

definition bucket_at :: "jvm \<Rightarrow> mem \<Rightarrow> (addr \<Rightarrow> 'a \<Rightarrow> addr \<Rightarrow> bool) \<Rightarrow> addr \<Rightarrow> nat \<Rightarrow> 'a list \<Rightarrow> bool" where
  "bucket_at J m R table i xs \<longleftrightarrow> (\<exists>head node. get_array_element 4 m table (of_nat i) = Some (head :: u32)
     \<and> decode_oop_pointer J m head = Some node \<and> chain_at R xs node)"

lemma klass_from_oop_valid: "klass_from_oop J m p = Some k \<Longrightarrow> k \<noteq> 0 \<Longrightarrow> is_valid_pointer k"
  by (auto simp: klass_from_oop_def bind_eq_Some_conv split: if_splits)

lemma find_field_coherent:
  assumes "coherent J m c" and "is_valid_pointer k" and "find_in_supers J m name k = Some r"
  shows "\<exists>c'. find_field J m k name c = Some (r, c') \<and> coherent J m c'"
proof (cases "Mapping.lookup c (k, name)")
  case None
  with assms valid_not_null [OF assms(2)] show ?thesis
    by (auto simp: find_field_def coherent_def lookup_update' split: option.splits)
next
  case (Some e)
  with assms valid_not_null [OF assms(2)] show ?thesis by (fastforce simp: find_field_def coherent_def)
qed

lemma find_ref:
  assumes "coherent J m c" and "ref_at J m node name p" and "klass_from_oop J m node = Some k"
  shows "\<exists>e c'. find_field J m k name c = Some (Some e, c') \<and> coherent J m c' \<and> read_ref J m node e = Some p \<and> k \<noteq> 0"
proof -
  from assms(2,3) obtain e where e: "k \<noteq> 0" "find_in_supers J m name k = Some (Some e)" "read_ref J m node e = Some p"
    by (auto simp: ref_at_def)
  from find_field_coherent [OF assms(1) klass_from_oop_valid [OF assms(3) e(1)] e(2)] e show ?thesis by blast
qed

lemma ref_at_klass: "ref_at J m node name p \<Longrightarrow> \<exists>k. klass_from_oop J m node = Some k \<and> k \<noteq> 0"
  by (auto simp: ref_at_def)

fun spine :: "'a tree \<Rightarrow> ('a \<times> 'a tree) list" where
  "spine Leaf = []"
| "spine (Node l x r) = spine l @ [(x, r)]"

definition pending :: "('a \<times> 'a tree) list \<Rightarrow> 'a list" where
  "pending ts = concat (map (\<lambda>(x, r). x # inorder r) ts)"

lemma pending_simps [simp]:
  "pending [] = []" "pending ((x, r) # ts) = x # inorder r @ pending ts" "pending (ts @ us) = pending ts @ pending us"
  by (simp_all add: pending_def)

lemma pending_spine: "pending (spine t) = inorder t"
  by (induction t) auto

section \<open>The walks over a reader of nodes\<close>

text \<open>
  What the walks need of the part that reads a node: with a coherent cache it reports what the
  node holds, and keeps the cache coherent.
\<close>

locale node_reader =
  fixes J :: jvm and m :: mem and visit :: "'a visit" and node_at :: "addr \<Rightarrow> 'a \<Rightarrow> addr \<Rightarrow> bool"
  assumes visit_law: "coherent J m c \<Longrightarrow> node_at n x nxt \<Longrightarrow> \<exists>c'. visit n c = Some (Some (x, nxt), c') \<and> coherent J m c'"
begin

lemma chain_walk_contents:
  "coherent J m c \<Longrightarrow> chain_at node_at xs n \<Longrightarrow> \<exists>c'. chain_walk visit g n c = Some (take g xs, c') \<and> coherent J m c'"
proof (induction g arbitrary: xs n c)
  case (Suc g)
  show ?case
  proof (cases xs)
    case Nil
    with Suc.prems show ?thesis by simp
  next
    case (Cons x ys)
    with Suc.prems obtain nxt where n: "live n" "node_at n x nxt" "chain_at node_at ys nxt" by auto
    from visit_law [OF Suc.prems(1) n(2)] obtain c1 where c1: "visit n c = Some (Some (x, nxt), c1)" "coherent J m c1" by blast
    from Suc.IH [OF c1(2) n(3)] n c1 Cons show ?thesis by auto
  qed
qed auto

lemma walk_buckets_contents:
  "coherent J m c \<Longrightarrow> list_all2 (bucket_at J m node_at table) bs xss \<Longrightarrow>
     \<exists>c'. walk_buckets (chain_walk visit g) J m table bs c = Some (concat (map (take g) xss), c') \<and> coherent J m c'"
proof (induction bs arbitrary: xss c)
  case (Cons b bs)
  then obtain xs yss where x: "xss = xs # yss" "bucket_at J m node_at table b xs" "list_all2 (bucket_at J m node_at table) bs yss"
    by (auto simp: list_all2_Cons1)
  then obtain head node where h: "get_array_element 4 m table (of_nat b) = Some (head :: u32)"
    "decode_oop_pointer J m head = Some node" "chain_at node_at xs node" by (auto simp: bucket_at_def)
  from chain_walk_contents [OF Cons.prems(1) h(3)] obtain c1 where c1:
    "chain_walk visit g node c = Some (take g xs, c1)" "coherent J m c1" by blast
  from Cons.IH [OF c1(2) x(3)] h c1 x show ?case by auto
qed auto

lemma descend_contents:
  "coherent J m c \<Longrightarrow> tree_at J m node_at t node \<Longrightarrow>
     \<exists>path c'. descend_left J m node stack c = Some (path @ stack, c') \<and> coherent J m c'
       \<and> list_all2 (\<lambda>(x, r) n. \<exists>rn. node_at n x rn \<and> tree_at J m node_at r rn) (spine t) path"
proof (induction t arbitrary: node stack c)
  case Leaf
  then show ?case by (subst descend_left.simps) simp
next
  case (Node l x r)
  then obtain ln rn where n: "live node" "ref_at J m node ''left'' ln" "tree_at J m node_at l ln" "node_at node x rn"
    "tree_at J m node_at r rn" by auto
  from ref_at_klass [OF n(2)] obtain k where k: "klass_from_oop J m node = Some k" "k \<noteq> 0" by blast
  from find_ref [OF Node.prems(1) n(2) k(1)] obtain e c1 where e: "find_field J m k ''left'' c = Some (Some e, c1)"
    "coherent J m c1" "read_ref J m node e = Some ln" by blast
  from Node.IH(1) [OF e(2) n(3), of "node # stack"] obtain path c2 where p:
    "descend_left J m ln (node # stack) c1 = Some (path @ node # stack, c2)" "coherent J m c2"
    "list_all2 (\<lambda>(x, r) n. \<exists>rn. node_at n x rn \<and> tree_at J m node_at r rn) (spine l) path" by blast
  have "descend_left J m node stack c = Some ((path @ [node]) @ stack, c2)"
    using n k e p by (subst descend_left.simps) simp
  moreover have "list_all2 (\<lambda>(x, r) n. \<exists>rn. node_at n x rn \<and> tree_at J m node_at r rn) (spine (Node l x r)) (path @ [node])"
    using p(3) n by (auto intro: list_all2_appendI)
  ultimately show ?case using p(2) by blast
qed

text \<open>
  The stack of the tree walk: the nodes still to report, each with its right subtree. \<open>spine\<close> is
  the path of left children and \<open>pending\<close> what a stack stands for.
\<close>

lemma tree_walk_contents:
  "coherent J m c \<Longrightarrow> tree_at J m node_at t node \<Longrightarrow> list_all2 (\<lambda>(x, r) n. \<exists>rn. node_at n x rn \<and> tree_at J m node_at r rn) ts stack \<Longrightarrow>
     visited \<le> 16777216 \<Longrightarrow>
     \<exists>c'. tree_walk visit J m visited node stack c = Some (take (16777217 - visited) (inorder t @ pending ts), c') \<and> coherent J m c'"
proof (induction "length (inorder t @ pending ts)" arbitrary: t node ts stack visited c)
  case 0
  from 0(1) have t: "t = Leaf" and "pending ts = []" by (cases t; simp)+
  then have e: "t = Leaf" "ts = []" by (cases ts; auto)+
  with 0 show ?case by (subst tree_walk.simps) simp
next
  case (Suc k)
  from descend_contents [OF Suc.prems(1,2)] obtain path c1 where d:
    "descend_left J m node stack c = Some (path @ stack, c1)" "coherent J m c1"
    "list_all2 (\<lambda>(x, r) n. \<exists>rn. node_at n x rn \<and> tree_at J m node_at r rn) (spine t) path" by blast
  have p: "pending (spine t @ ts) = inorder t @ pending ts" by (simp add: pending_spine)
  with Suc.hyps(2) obtain x r us where us: "spine t @ ts = (x, r) # us" by (cases "spine t @ ts") auto
  have "list_all2 (\<lambda>(x, r) n. \<exists>rn. node_at n x rn \<and> tree_at J m node_at r rn) (spine t @ ts) (path @ stack)"
    using d(3) Suc.prems(3) by (rule list_all2_appendI)
  then obtain n rest rn where n: "path @ stack = n # rest" "node_at n x rn" "tree_at J m node_at r rn"
    "list_all2 (\<lambda>(x, r) n. \<exists>rn. node_at n x rn \<and> tree_at J m node_at r rn) us rest"
    by (auto simp: us list_all2_Cons1)
  from visit_law [OF d(2) n(2)] obtain c2 where c2: "visit n c1 = Some (Some (x, rn), c2)" "coherent J m c2" by blast
  have nonempty: "\<not> (\<not> live node \<and> stack = [])"
    using Suc.prems(2,3) us by (cases t) auto
  have out: "inorder t @ pending ts = x # inorder r @ pending us" using p us by simp
  show ?case
  proof (cases "visited = 16777216")
    case True
    with nonempty d n c2 out show ?thesis by (subst tree_walk.simps) simp
  next
    case False
    with Suc.prems(4) have v: "visited + 1 \<le> 16777216" "16777217 - visited = Suc (16777217 - (visited + 1))" by simp_all
    have len: "k = length (inorder r @ pending us)" using Suc.hyps(2) out by simp
    from Suc.hyps(1) [OF len c2(2) n(3,4) v(1)] nonempty d n c2 out v show ?thesis
      by (subst tree_walk.simps) fastforce
  qed
qed

end

lemma single_reader: "node_reader J m (visit_single J m item link) (single_at J m item link)"
proof
  fix c n x nxt assume c: "coherent J m c" and s: "single_at J m item link n x nxt"
  then obtain i k where r: "ref_at J m n item i" "x = wrapped i" "ref_at J m n link nxt"
    and k: "klass_from_oop J m n = Some k" by (auto simp: single_at_def dest: ref_at_klass)
  from find_ref [OF c r(1) k] obtain e1 c1 where 1: "find_field J m k item c = Some (Some e1, c1)" "coherent J m c1"
    "read_ref J m n e1 = Some i" "k \<noteq> 0" by blast
  from find_ref [OF 1(2) r(3) k] obtain e2 c2 where "find_field J m k link c1 = Some (Some e2, c2)" "coherent J m c2"
    "read_ref J m n e2 = Some nxt" by blast
  with 1 k r show "\<exists>c'. visit_single J m item link n c = Some (Some (x, nxt), c') \<and> coherent J m c'"
    by (simp add: visit_single_def)
qed

lemma pair_reader: "node_reader J m (visit_pair J m link) (pair_at J m link)"
proof
  fix c n x nxt assume c: "coherent J m c" and s: "pair_at J m link n x nxt"
  then obtain i v k where r: "ref_at J m n ''key'' i" "ref_at J m n ''value'' v" "x = (wrapped i, wrapped v)" "ref_at J m n link nxt"
    and k: "klass_from_oop J m n = Some k" by (auto simp: pair_at_def dest: ref_at_klass)
  from find_ref [OF c r(1) k] obtain e1 c1 where 1: "find_field J m k ''key'' c = Some (Some e1, c1)" "coherent J m c1"
    "read_ref J m n e1 = Some i" "k \<noteq> 0" by blast
  from find_ref [OF 1(2) r(2) k] obtain e2 c2 where 2: "find_field J m k ''value'' c1 = Some (Some e2, c2)" "coherent J m c2"
    "read_ref J m n e2 = Some v" by blast
  from find_ref [OF 2(2) r(4) k] obtain e3 c3 where "find_field J m k link c2 = Some (Some e3, c3)" "coherent J m c3"
    "read_ref J m n e3 = Some nxt" by blast
  with 1 2 k r show "\<exists>c'. visit_pair J m link n c = Some (Some (x, nxt), c') \<and> coherent J m c'"
    by (simp add: visit_pair_def)
qed

interpretation singles: node_reader J m "visit_single J m item link" "single_at J m item link" for J m item link
  by (rule single_reader)

interpretation pairs: node_reader J m "visit_pair J m link" "pair_at J m link" for J m link
  by (rule pair_reader)

section \<open>The objects\<close>

text \<open>A hash table's buckets, a tree map's entries and a linked list's items, as the object holds them.\<close>

definition hash_map_at :: "jvm \<Rightarrow> mem \<Rightarrow> addr \<Rightarrow> (addr \<times> addr) list list \<Rightarrow> bool" where
  "hash_map_at J m inst xss \<longleftrightarrow> live inst \<and> (\<exists>k e compressed table n. klass_from_oop J m inst = Some k \<and> k \<noteq> 0
     \<and> find_in_supers J m ''table'' k = Some (Some e) \<and> \<not> fe_is_static e
     \<and> load32 m (inst + ucast (fe_offset e)) = Some compressed \<and> decode_array_oop J m compressed = Some table \<and> live table
     \<and> array_length m table = Some n
     \<and> list_all2 (bucket_at J m (pair_at J m ''next'') table) [0..<nat (sint n)] xss)"

definition root_at :: "jvm \<Rightarrow> mem \<Rightarrow> addr \<Rightarrow> addr \<Rightarrow> bool" where
  "root_at J m inst root \<longleftrightarrow> live inst \<and> (\<exists>k e. klass_from_oop J m inst = Some k \<and> k \<noteq> 0
     \<and> find_in_supers J m ''table'' k = Some None \<and> find_in_supers J m ''root'' k = Some (Some e) \<and> \<not> fe_is_static e
     \<and> read_ref J m inst e = Some root)"

definition tree_map_at :: "jvm \<Rightarrow> mem \<Rightarrow> addr \<Rightarrow> (addr \<times> addr) tree \<Rightarrow> bool" where
  "tree_map_at J m inst t \<longleftrightarrow> (\<exists>root. root_at J m inst root \<and> tree_at J m (pair_at J m ''right'') t root)"

definition linked_list_at :: "jvm \<Rightarrow> mem \<Rightarrow> addr \<Rightarrow> addr list \<Rightarrow> bool" where
  "linked_list_at J m inst xs \<longleftrightarrow> live inst
     \<and> (\<exists>first. ref_at J m inst ''first'' first \<and> chain_at (single_at J m ''item'' ''next'') xs first)"

lemma field_absent:
  assumes "coherent (ce_jvm E) (jw_mem w) (jw_fields w)" and "klass_from_oop (ce_jvm E) (jw_mem w) inst = Some k" and "k \<noteq> 0"
    and "find_in_supers (ce_jvm E) (jw_mem w) name k = Some None"
  shows "\<exists>c. get_field_by_oop_klass E inst name w = Some (None, with_fields w c) \<and> coherent (ce_jvm E) (jw_mem w) c"
proof -
  from find_field_coherent [OF assms(1) klass_from_oop_valid [OF assms(2,3)] assms(4)] obtain c where
    "find_field (ce_jvm E) (jw_mem w) k name (jw_fields w) = Some (None, c)" "coherent (ce_jvm E) (jw_mem w) c" by blast
  with assms show ?thesis by (auto simp: get_field_by_oop_klass_def)
qed

lemma field_present:
  assumes "coherent (ce_jvm E) (jw_mem w) (jw_fields w)" and "klass_from_oop (ce_jvm E) (jw_mem w) inst = Some k" and "k \<noteq> 0"
    and "find_in_supers (ce_jvm E) (jw_mem w) name k = Some (Some e)" and "\<not> fe_is_static e" and "live inst"
  shows "\<exists>f c. get_field_by_oop_klass E inst name w = Some (Some f, with_fields w c) \<and> coherent (ce_jvm E) (jw_mem w) c"
proof -
  from find_field_coherent [OF assms(1) klass_from_oop_valid [OF assms(2,3)] assms(4)] obtain c where
    "find_field (ce_jvm E) (jw_mem w) k name (jw_fields w) = Some (Some e, c)" "coherent (ce_jvm E) (jw_mem w) c" by blast
  with assms show ?thesis by (auto simp: get_field_by_oop_klass_def entry_proxy_def live_def)
qed

text \<open>Up to the call of the tree walk, \<open>to_entries\<close> depends on the root alone.\<close>

lemma to_entries_root:
  assumes "root_at (ce_jvm E) (jw_mem w) inst root" and "coherent (ce_jvm E) (jw_mem w) (jw_fields w)"
  shows "\<exists>c. coherent (ce_jvm E) (jw_mem w) c \<and> to_entries E inst w = (if \<not> live root then Some ([], with_fields w c)
     else do { (xs, c') \<leftarrow> tree_walk (visit_pair (ce_jvm E) (jw_mem w) ''right'') (ce_jvm E) (jw_mem w) 0 root [] c;
               Some (xs, with_fields w c') })"
proof -
  let ?J = "ce_jvm E" and ?m = "jw_mem w"
  from assms(1) obtain k e where r: "live inst" "klass_from_oop ?J ?m inst = Some k" "k \<noteq> 0"
    "find_in_supers ?J ?m ''table'' k = Some None" "find_in_supers ?J ?m ''root'' k = Some (Some e)" "\<not> fe_is_static e"
    "read_ref ?J ?m inst e = Some root" by (auto simp: root_at_def)
  from field_absent [OF assms(2) r(2,3,4)] obtain c1 where 1: "get_field_by_oop_klass E inst ''table'' w = Some (None, with_fields w c1)"
    "coherent ?J ?m c1" by blast
  from field_present [of E "with_fields w c1" inst k "''root''" e] 1 r obtain f c2 where 2:
    "get_field_by_oop_klass E inst ''root'' (with_fields w c1) = Some (Some f, with_fields w c2)" "coherent ?J ?m c2" by auto
  from find_field_coherent [OF 2(2) klass_from_oop_valid [OF r(2,3)] r(5)] obtain c3 where 3:
    "find_field ?J ?m k ''root'' c2 = Some (Some e, c3)" "coherent ?J ?m c3" by blast
  have "to_entries E inst w = (if \<not> live root then Some ([], with_fields w c3)
     else do { (xs, c') \<leftarrow> tree_walk (visit_pair ?J ?m ''right'') ?J ?m 0 root [] c3; Some (xs, with_fields w c') })"
    using r 1(1) 2(1) 3(1) by (simp add: to_entries_def tree_map_walk_entries_def walk_root_def)
  with 3(2) show ?thesis by blast
qed

section \<open>Properties\<close>

text \<open>On a HashMap, \<open>to_entries\<close> returns the entries of the buckets in their order, each bucket cut
  after 1048576 nodes, with a null pointer for a null key or value. It leaves the memory and
  everything but the field cache as they are.\<close>

theorem hash_map_entries:
  assumes "hash_map_at (ce_jvm E) (jw_mem w) inst xss" and "coherent (ce_jvm E) (jw_mem w) (jw_fields w)"
  shows "\<exists>c. to_entries E inst w = Some (concat (map (take 1048576) xss), with_fields w c) \<and> coherent (ce_jvm E) (jw_mem w) c"
proof -
  let ?J = "ce_jvm E" and ?m = "jw_mem w"
  from assms(1) obtain k e compressed table n where r: "live inst" "klass_from_oop ?J ?m inst = Some k" "k \<noteq> 0"
    "find_in_supers ?J ?m ''table'' k = Some (Some e)" "\<not> fe_is_static e"
    and t: "load32 ?m (inst + ucast (fe_offset e)) = Some compressed" "decode_array_oop ?J ?m compressed = Some table" "live table"
      "array_length ?m table = Some n"
    and b: "list_all2 (bucket_at ?J ?m (pair_at ?J ?m ''next'') table) [0..<nat (sint n)] xss"
    by (auto simp: hash_map_at_def)
  from field_present [OF assms(2) r(2,3,4,5,1)] obtain f c1 where 1:
    "get_field_by_oop_klass E inst ''table'' w = Some (Some f, with_fields w c1)" "coherent ?J ?m c1" by blast
  from find_field_coherent [OF 1(2) klass_from_oop_valid [OF r(2,3)] r(4)] obtain c2 where 2:
    "find_field ?J ?m k ''table'' c1 = Some (Some e, c2)" "coherent ?J ?m c2" by blast
  from pairs.walk_buckets_contents [OF 2(2) b, of 1048576] obtain c3 where
    "walk_buckets (chain_walk (visit_pair ?J ?m ''next'') 1048576) ?J ?m table [0..<nat (sint n)] c2
      = Some (concat (map (take 1048576) xss), c3)" "coherent ?J ?m c3" by blast
  with r t 1 2 show ?thesis by (auto simp: to_entries_def hash_map_walk_entries_def walk_table_def)
qed

text \<open>C37. On a TreeMap, \<open>to_entries\<close> implements the in-order traversal of the tree that the nodes
  represent, so the entries come in the order of the keys. It returns at most 16777217 entries.\<close>

theorem tree_map_entries:
  assumes "tree_map_at (ce_jvm E) (jw_mem w) inst t" and "coherent (ce_jvm E) (jw_mem w) (jw_fields w)"
  shows "\<exists>c. to_entries E inst w = Some (take 16777217 (inorder t), with_fields w c) \<and> coherent (ce_jvm E) (jw_mem w) c"
proof -
  from assms(1) obtain root where r: "root_at (ce_jvm E) (jw_mem w) inst root"
    "tree_at (ce_jvm E) (jw_mem w) (pair_at (ce_jvm E) (jw_mem w) ''right'') t root" by (auto simp: tree_map_at_def)
  from to_entries_root [OF r(1) assms(2)] obtain c where c: "coherent (ce_jvm E) (jw_mem w) c"
    "to_entries E inst w = (if \<not> live root then Some ([], with_fields w c)
     else do { (xs, c') \<leftarrow> tree_walk (visit_pair (ce_jvm E) (jw_mem w) ''right'') (ce_jvm E) (jw_mem w) 0 root [] c;
               Some (xs, with_fields w c') })" by blast
  from pairs.tree_walk_contents [OF c(1) r(2) list_all2_Nil [THEN iffD2], of "[]" 0] c r(2) show ?thesis
    by (cases t) auto
qed

text \<open>The walk over a LinkedList returns its items from the first node on, as many as the size that
  the caller passes, and none when that is negative.\<close>

theorem linked_list_items:
  assumes "linked_list_at J m inst xs" and "coherent J m c"
  shows "\<exists>c'. linked_list_walk_items J m inst n c = Some (take (nat (sint n)) xs, c') \<and> coherent J m c'"
proof (cases "sint n \<le> 0")
  case True
  with assms(2) show ?thesis by (simp add: linked_list_walk_items_def)
next
  case False
  from assms(1) obtain first where r: "live inst" "ref_at J m inst ''first'' first"
    "chain_at (single_at J m ''item'' ''next'') xs first" by (auto simp: linked_list_at_def)
  from ref_at_klass [OF r(2)] obtain k where k: "klass_from_oop J m inst = Some k" "k \<noteq> 0" by blast
  from find_ref [OF assms(2) r(2) k(1)] obtain e c1 where e: "find_field J m k ''first'' c = Some (Some e, c1)" "coherent J m c1"
    "read_ref J m inst e = Some first" by blast
  from singles.chain_walk_contents [OF e(2) r(3), of "nat (sint n)"] e k r False show ?thesis
    by (auto simp: linked_list_walk_items_def)
qed

text \<open>The guard of the tree walk counts reported nodes only: on a root whose left link points to
  itself the inner loop pushes the node forever, and \<open>to_entries\<close> never returns.\<close>

theorem cyclic_tree_never_returns:
  assumes "root_at (ce_jvm E) (jw_mem w) inst root" and "live root"
    and "ref_at (ce_jvm E) (jw_mem w) root ''left'' root" and "coherent (ce_jvm E) (jw_mem w) (jw_fields w)"
  shows "to_entries E inst w = None"
proof -
  let ?J = "ce_jvm E" and ?m = "jw_mem w"
  have never: "descend_left ?J ?m root stack c \<noteq> Some r" if "coherent ?J ?m c" for stack c r
  proof
    assume "descend_left ?J ?m root stack c = Some r"
    then have "(?J, ?m, root) = (?J, ?m, root) \<longrightarrow> coherent ?J ?m c \<longrightarrow> False"
    proof (rule descend_left.raw_induct [where P = "\<lambda>J m node stack c r. (J, m, node) = (?J, ?m, root) \<longrightarrow> coherent ?J ?m c \<longrightarrow> False", rotated])
      fix f J m node stack c r
      assume IH: "\<And>J m node stack c r. f J m node stack c = Some r \<Longrightarrow> (J, m, node) = (?J, ?m, root) \<longrightarrow> coherent ?J ?m c \<longrightarrow> False"
        and b: "(if \<not> live node then Some (stack, c)
          else do {
            k \<leftarrow> klass_from_oop J m node;
            if k = 0 then Some (stack, c)
            else do {
              (entry, c) \<leftarrow> find_field J m k ''left'' c;
              case entry of None \<Rightarrow> Some (stack, c)
              | Some e \<Rightarrow> do { left_oop \<leftarrow> read_ref J m node e; f J m left_oop (node # stack) c } } }) = Some r"
      show "(J, m, node) = (?J, ?m, root) \<longrightarrow> coherent ?J ?m c \<longrightarrow> False"
      proof (intro impI)
        assume eq: "(J, m, node) = (?J, ?m, root)" and c: "coherent ?J ?m c"
        from ref_at_klass [OF assms(3)] obtain k where k: "klass_from_oop ?J ?m root = Some k" "k \<noteq> 0" by blast
        from find_ref [OF c assms(3) k(1)] obtain e c1 where e: "find_field ?J ?m k ''left'' c = Some (Some e, c1)"
          "coherent ?J ?m c1" "read_ref ?J ?m root e = Some root" by blast
        from b eq assms(2) k e have "f ?J ?m root (root # stack) c1 = Some r" by simp
        from IH [OF this] e(2) show False by simp
      qed
    qed
    with that show False by simp
  qed
  from to_entries_root [OF assms(1,4)] obtain c where c: "coherent ?J ?m c"
    "to_entries E inst w = (if \<not> live root then Some ([], with_fields w c)
     else do { (xs, c') \<leftarrow> tree_walk (visit_pair ?J ?m ''right'') ?J ?m 0 root [] c; Some (xs, with_fields w c') })" by blast
  have "descend_left ?J ?m root [] c = None" using never [OF c(1)] by (cases "descend_left ?J ?m root [] c") auto
  with c(2) assms(2) show ?thesis by (subst (asm) tree_walk.simps) simp
qed

section \<open>A tree map, a hash map and a cyclic tree in memory\<close>

text \<open>A memory given by its pieces in ascending order; a load of a whole piece finds it.\<close>

fun layout :: "(addr \<times> u8 list) list \<Rightarrow> mem" where
  "layout [] = ram"
| "layout ((a, bs) # cs) = put a bs (layout cs)"

fun ascending :: "nat \<Rightarrow> (addr \<times> u8 list) list \<Rightarrow> bool" where
  "ascending p [] \<longleftrightarrow> True"
| "ascending p ((a, bs) # cs) \<longleftrightarrow> p \<le> unat a \<and> 0 < length bs \<and> unat a + length bs \<le> 2 ^ 64 \<and> ascending (unat a + length bs) cs"

lemma ascending_bounds: "ascending p cs \<Longrightarrow> (b, bs) \<in> set cs \<Longrightarrow> p \<le> unat b \<and> unat b + length bs \<le> 2 ^ 64"
  by (induction p cs rule: ascending.induct) auto

lemma apart_ascending:
  assumes "unat a + n \<le> unat b" and "unat b + k \<le> 2 ^ 64" and "0 < n"
  shows "apart a n b k"
proof -
  have le: "a \<le> b" using assms(1) by (simp add: word_le_nat_alt)
  then have d: "unat (b - a) = unat b - unat a" by (simp add: unat_sub)
  then have "unat (a - b) = 2 ^ 64 - unat (b - a)" if "b \<noteq> a"
    using unat_plus_if' [of "a - b" "b - a"] that unat_gt_0 [of "b - a"] by (auto split: if_splits)
  moreover have "b \<noteq> a" using assms by auto
  ultimately show ?thesis using d assms unfolding apart_def by linarith
qed

lemma layout_bytes: "ascending p cs \<Longrightarrow> (b, bs) \<in> set cs \<Longrightarrow> load_bytes (layout cs) b (length bs) = Some bs"
proof (induction p cs rule: ascending.induct)
  case (2 p a as cs)
  show ?case
  proof (cases "(b, bs) = (a, as)")
    case True
    with 2 show ?thesis by (auto intro!: load_bytes_put_same)
  next
    case False
    with 2 have "apart a (length as) b (length bs)" using ascending_bounds [of "unat a + length as" cs b bs]
      by (intro apart_ascending) auto
    with False 2 show ?thesis by (auto simp: load_bytes_put_apart)
  qed
qed simp

lemma layout_load:
  "ascending p cs \<Longrightarrow> (b, le_of_word n v) \<in> set cs \<Longrightarrow> load_le n (layout cs) b = Some (ucast (take_bit (8 * n) v))"
  using layout_bytes [of p cs b "le_of_word n v"] by (simp add: load_le_def word_of_le_of_word_cast)

text \<open>
  Compressed references are the addresses themselves. The class at 0x20000 has the fields root,
  left, right, key and value, the one at 0x22000 table, key, value and next; both use the
  constant pool at 0x30000. There are a tree map of two entries at 0x200000, a hash map with one
  entry in two buckets at 0x220000 and a tree map at 0x250000 whose root's left link is the root.
\<close>

definition coll_jvm :: jvm where
  "coll_jvm = \<lparr>vm_types = [\<lparr>te_type_name = ''ConstantPool'', te_superclass_name = None,
       te_is_oop_type_type = 0, te_is_integer_type = 0, te_is_unsigned = 0, te_size = 0x1000\<rparr>],
     vm_structs = [entry_named ''InstanceKlass'' ''_fieldinfo_stream'' 8, entry_named ''InstanceKlass'' ''_constants'' 16,
       entry_named ''Symbol'' ''_length'' 8, entry_named ''Symbol'' ''_body'' 10,
       thread_entry ''CompressedOops'' ''_base'' 0 0x60000, thread_entry ''CompressedOops'' ''_shift'' 0 0x60008,
       thread_entry ''CompressedKlassPointers'' ''_base'' 0 0x60000, thread_entry ''CompressedKlassPointers'' ''_shift'' 0 0x60008],
     proc_maps = []\<rparr>"

abbreviation cell64 :: "addr \<Rightarrow> u64 \<Rightarrow> addr \<times> u8 list" where "cell64 a v \<equiv> (a, le_of_word 8 v)"
abbreviation cell32 :: "addr \<Rightarrow> u32 \<Rightarrow> addr \<times> u8 list" where "cell32 a v \<equiv> (a, le_of_word 4 v)"
abbreviation symbol_cells :: "addr \<Rightarrow> string \<Rightarrow> (addr \<times> u8 list) list" where
  "symbol_cells a s \<equiv> [cell64 a 1, (a + 8, le_of_word 2 (of_nat (length s) :: u16)), (a + 10, bytes_of_chars s)]"

definition tree_stream :: "u8 list" where
  "tree_stream = [6,1, 2,1,13,1,1, 3,1,21,1,1, 4,1,25,1,1, 5,1,13,1,1, 6,1,17,1,1]"

definition hash_stream :: "u8 list" where
  "hash_stream = [5,1, 8,1,13,1,1, 5,1,13,1,1, 6,1,17,1,1, 7,1,21,1,1]"

definition coll_cells :: "(addr \<times> u8 list) list" where
  "coll_cells = [cell64 0x20008 0x21000, cell64 0x20010 0x2F000, cell32 0x21000 27, (0x21004, tree_stream),
     cell64 0x22008 0x23000, cell64 0x22010 0x2F000, cell32 0x23000 22, (0x23004, hash_stream)]
   @ symbol_cells 0x24100 ''root'' @ symbol_cells 0x24200 ''left'' @ symbol_cells 0x24300 ''right'' @ symbol_cells 0x24400 ''key''
   @ symbol_cells 0x24500 ''value'' @ symbol_cells 0x24600 ''next'' @ symbol_cells 0x24700 ''table''
   @ [cell64 0x30008 0x24100, cell64 0x30010 0x24200, cell64 0x30018 0x24300, cell64 0x30020 0x24400, cell64 0x30028 0x24500,
     cell64 0x30030 0x24600, cell64 0x30038 0x24700, cell64 0x60000 0, cell32 0x60008 0]
   @ [cell32 0x200008 0x20000, cell32 0x20000C 0x210000,
     cell32 0x210008 0x20000, cell32 0x21000C 0x300000, cell32 0x210010 0x310000, cell32 0x210014 0, cell32 0x210018 0x211000,
     cell32 0x211008 0x20000, cell32 0x21100C 0x301000, cell32 0x211010 0, cell32 0x211014 0, cell32 0x211018 0,
     cell32 0x220008 0x22000, cell32 0x22000C 0x230000, cell32 0x23000C 2, cell32 0x230010 0x240000, cell32 0x230014 0,
     cell32 0x240008 0x22000, cell32 0x24000C 0x300000, cell32 0x240010 0x310000, cell32 0x240014 0,
     cell32 0x250008 0x20000, cell32 0x25000C 0x260000, cell32 0x260008 0x20000, cell32 0x260014 0x260000]"

definition coll_mem :: mem where
  "coll_mem = layout coll_cells"

lemma coll_ascending: "ascending 0 coll_cells"
  by (simp add: coll_cells_def tree_stream_def hash_stream_def)

lemma coll_load: "(b, le_of_word n v) \<in> set coll_cells \<Longrightarrow> LENGTH('a::len) \<le> 8 * n \<Longrightarrow> load_le n coll_mem b = Some (v :: 'a word)"
  by (simp add: coll_mem_def layout_load [OF coll_ascending] take_bit_word_eq_self)

lemma coll_bytes: "(b, bs) \<in> set coll_cells \<Longrightarrow> load_bytes coll_mem b (length bs) = Some bs"
  unfolding coll_mem_def by (rule layout_bytes [OF coll_ascending])

lemma class_loads:
  "load64 coll_mem 0x20008 = Some 0x21000" "load64 coll_mem 0x20010 = Some 0x2F000" "load32 coll_mem 0x21000 = Some 27"
  "load64 coll_mem 0x22008 = Some 0x23000" "load64 coll_mem 0x22010 = Some 0x2F000" "load32 coll_mem 0x23000 = Some 22"
  "load64 coll_mem 0x60000 = Some 0" "load32 coll_mem 0x60008 = Some 0"
  by (rule coll_load, simp add: coll_cells_def, simp)+

lemma pool_loads:
  "load64 coll_mem 0x30008 = Some 0x24100" "load64 coll_mem 0x30010 = Some 0x24200" "load64 coll_mem 0x30018 = Some 0x24300"
  "load64 coll_mem 0x30020 = Some 0x24400" "load64 coll_mem 0x30028 = Some 0x24500" "load64 coll_mem 0x30038 = Some 0x24700"
  "load64 coll_mem 0x30030 = Some 0x24600"
  by (rule coll_load, simp add: coll_cells_def, simp)+

lemma tree_object_loads:
  "load32 coll_mem 0x200008 = Some 0x20000" "load32 coll_mem 0x20000C = Some 0x210000"
  "load32 coll_mem 0x210008 = Some 0x20000" "load32 coll_mem 0x21000C = Some 0x300000" "load32 coll_mem 0x210010 = Some 0x310000"
  "load32 coll_mem 0x210014 = Some 0" "load32 coll_mem 0x210018 = Some 0x211000"
  "load32 coll_mem 0x211008 = Some 0x20000" "load32 coll_mem 0x21100C = Some 0x301000" "load32 coll_mem 0x211010 = Some 0"
  "load32 coll_mem 0x211014 = Some 0" "load32 coll_mem 0x211018 = Some 0"
  by (rule coll_load, simp add: coll_cells_def, simp)+

lemma hash_object_loads:
  "load32 coll_mem 0x220008 = Some 0x22000" "load32 coll_mem 0x22000C = Some 0x230000" "load32 coll_mem 0x23000C = Some 2"
  "load32 coll_mem 0x230010 = Some 0x240000" "load32 coll_mem 0x230014 = Some 0"
  "load32 coll_mem 0x240008 = Some 0x22000" "load32 coll_mem 0x24000C = Some 0x300000" "load32 coll_mem 0x240010 = Some 0x310000"
  "load32 coll_mem 0x240014 = Some 0"
  by (rule coll_load, simp add: coll_cells_def, simp)+

lemma cyclic_object_loads:
  "load32 coll_mem 0x250008 = Some 0x20000" "load32 coll_mem 0x25000C = Some 0x260000"
  "load32 coll_mem 0x260008 = Some 0x20000" "load32 coll_mem 0x260014 = Some 0x260000"
  by (rule coll_load, simp add: coll_cells_def, simp)+

lemmas coll_eval = coll_jvm_def entry_named_def thread_entry_def iterate_struct_entries_def iterate_type_entries_def

lemma symbol_text:
  assumes "set (symbol_cells a s) \<subseteq> set coll_cells" and "0 < length s" and "length s \<le> 0x1000" and "a AND 7 = 0"
    and "user_address_floor < a" and "a < user_address_ceiling" and "is_valid_pointer (a + 10)"
  shows "symbol_to_string coll_jvm coll_mem a = Some s"
proof -
  have h: "load64 coll_mem a = Some 1" and l: "load16 coll_mem (a + 8) = Some (of_nat (length s))"
    using assms(1) by (auto intro!: coll_load)
  have b: "load_bytes coll_mem (a + 10) (length s) = Some (bytes_of_chars s)"
    using coll_bytes [of "a + 10" "bytes_of_chars s"] assms(1) by simp
  have u: "unat (of_nat (length s) :: u16) = length s" using assms(3) by (simp add: unat_of_nat take_bit_nat_eq_self)
  then have "(of_nat (length s) :: u16) \<noteq> 0" "\<not> (of_nat (length s) :: u16) > 0x1000"
    using assms(2,3) by (auto simp: word_less_nat_alt simp flip: unat_eq_zero)
  moreover have "safe_read_pointer coll_mem a = 1" using assms(4-6) h by (simp add: safe_read_pointer_aligned)
  moreover have "vm_struct coll_jvm ''Symbol'' ''_length'' = Some (entry_named ''Symbol'' ''_length'' 8)"
    "vm_struct coll_jvm ''Symbol'' ''_body'' = Some (entry_named ''Symbol'' ''_body'' 10)" by (simp_all add: coll_eval)
  ultimately show ?thesis
    using l b u assms(7) chars_of_bytes_of_chars [of s] by (simp add: symbol_to_string_def entry_named_def Let_def)
qed

lemma coll_symbols:
  "symbol_to_string coll_jvm coll_mem 0x24100 = Some ''root''" "symbol_to_string coll_jvm coll_mem 0x24200 = Some ''left''"
  "symbol_to_string coll_jvm coll_mem 0x24300 = Some ''right''" "symbol_to_string coll_jvm coll_mem 0x24400 = Some ''key''"
  "symbol_to_string coll_jvm coll_mem 0x24500 = Some ''value''" "symbol_to_string coll_jvm coll_mem 0x24600 = Some ''next''"
  "symbol_to_string coll_jvm coll_mem 0x24700 = Some ''table''"
  by (rule symbol_text, simp add: coll_cells_def, simp, simp, simp, simp add: ptr_eval, simp add: ptr_eval, simp add: ptr_eval)+

lemma coll_pool:
  "pool_string coll_jvm coll_mem 0x30000 1 = Some (Some ''root'')" "pool_string coll_jvm coll_mem 0x30000 2 = Some (Some ''left'')"
  "pool_string coll_jvm coll_mem 0x30000 3 = Some (Some ''right'')" "pool_string coll_jvm coll_mem 0x30000 4 = Some (Some ''key'')"
  "pool_string coll_jvm coll_mem 0x30000 5 = Some (Some ''value'')" "pool_string coll_jvm coll_mem 0x30000 6 = Some (Some ''next'')"
  "pool_string coll_jvm coll_mem 0x30000 7 = Some (Some ''table'')" "pool_string coll_jvm coll_mem 0x30000 0 = Some None"
  using coll_symbols pool_loads by (simp_all add: pool_string_def pool_slot_def ptr_eval)

definition coll_field :: "u32 \<Rightarrow> u32 \<Rightarrow> stream_field" where
  "coll_field name off = \<lparr>sf_name = name, sf_sig = 0, sf_offset = off, sf_access = 0, sf_flags = 0, sf_init = 0, sf_generic = 0,
     sf_group = 0\<rparr>"

definition coll_entry :: "addr \<Rightarrow> u32 \<Rightarrow> field_entry_t" where
  "coll_entry k off = \<lparr>fe_offset = off, fe_is_static = False, fe_signature = [], fe_declaring_klass = k\<rparr>"

lemma mapped_layout: "mapped (layout cs) a n"
  by (induction cs rule: layout.induct) simp_all

lemma coll_stream:
  assumes "load64 coll_mem (k + 8) = Some arr" and "load64 coll_mem (k + 16) = Some 0x2F000" and "load32 coll_mem arr = Some (of_nat (length bs))"
    and "(arr + 4, bs) \<in> set coll_cells" and "bs = u5_bytes nj @ u5_bytes 0 @ concat (map field_bytes fs)"
    and "is_valid_pointer k" and "is_valid_pointer arr" and "length bs \<le> 0x4000" and "length fs = unat nj" and "nj \<le> 4096"
    and "\<forall>f \<in> set fs. sf_name f \<noteq> - 1" and "k \<noteq> 0"
  shows "find_in_supers coll_jvm coll_mem name k = Some (map_option (\<lambda>f. (field_entry (the \<circ> pool_string coll_jvm coll_mem 0x30000) f)
     \<lparr>fe_declaring_klass := k\<rparr>) (find (\<lambda>f. pool_string coll_jvm coll_mem 0x30000 (sf_name f) = Some (Some name)) fs))"
proof -
  let ?pool = "the \<circ> pool_string coll_jvm coll_mem 0x30000"
  have pool: "\<forall>i. pool_string coll_jvm coll_mem 0x30000 i = Some (?pool i)"
    using pool_string_total [of coll_mem] mapped_layout by (fastforce simp: coll_mem_def)
  have same: "(\<lambda>f. ?pool (sf_name f) = Some name) = (\<lambda>f. pool_string coll_jvm coll_mem 0x30000 (sf_name f) = Some (Some name))"
    using pool by (metis option.inject)
  have st: "vm_struct coll_jvm ''InstanceKlass'' ''_fieldinfo_stream'' = Some (entry_named ''InstanceKlass'' ''_fieldinfo_stream'' 8)"
    "vm_struct coll_jvm ''InstanceKlass'' ''_constants'' = Some (entry_named ''InstanceKlass'' ''_constants'' 16)"
    "vm_struct coll_jvm ''Klass'' ''_super'' = None" by (simp_all add: coll_eval)
  have base: "cp_get_base coll_jvm 0x2F000 = 0x30000" by (simp add: cp_get_base_def coll_eval)
  have v: "is_valid_pointer 0x30000" "is_valid_pointer 0x2F000" by (simp_all add: ptr_eval)
  have "holds coll_mem (arr + 4) 0 bs" using coll_bytes [OF assms(4)] by (simp add: holds_def)
  moreover have "\<not> (- 1 :: u32) \<le> 4096" by code_simp
  with assms(10) have "nj \<noteq> - 1" by blast
  ultimately have "find_field_in_stream coll_jvm coll_mem k name 0x30000
     = Some (map_option (field_entry ?pool) (find (\<lambda>f. ?pool (sf_name f) = Some name) fs))"
    using assms v by (intro stream_lookup [OF st(1) _ _ _ _ pool _ assms(5)]) (auto simp: entry_named_def)
  then have "klass_find_field coll_jvm coll_mem k name
     = Some (map_option (field_entry ?pool) (find (\<lambda>f. ?pool (sf_name f) = Some name) fs))"
    using assms v st base by (simp add: klass_find_field_def entry_named_def Let_def)
  then show ?thesis
    unfolding same using assms(12) st(3)
    by (subst find_in_supers.simps) (auto simp: get_super_def find_in_supers.simps [of _ _ _ 0] split: option.splits)
qed

lemma u5_small: "unat v < 191 \<Longrightarrow> u5_bytes v = [of_nat (unat v + 1)]"
proof -
  assume "unat v < 191"
  moreover have "5 = Suc 4" by simp
  ultimately show ?thesis by (simp only: u5_bytes_def u5_encode.simps simp_thms if_True list.map)
qed

lemma coll_bytes_of:
  "tree_stream = u5_bytes 5 @ u5_bytes 0 @ concat (map field_bytes
     [coll_field 1 12, coll_field 2 20, coll_field 3 24, coll_field 4 12, coll_field 5 16])"
  "hash_stream = u5_bytes 4 @ u5_bytes 0 @ concat (map field_bytes [coll_field 7 12, coll_field 4 12, coll_field 5 16, coll_field 6 20])"
  by (simp_all add: tree_stream_def hash_stream_def field_bytes_def opt_bytes_def u5_small coll_field_def)

lemma tree_class:
  "find_in_supers coll_jvm coll_mem ''table'' 0x20000 = Some None"
  "find_in_supers coll_jvm coll_mem ''root'' 0x20000 = Some (Some (coll_entry 0x20000 12))"
  "find_in_supers coll_jvm coll_mem ''left'' 0x20000 = Some (Some (coll_entry 0x20000 20))"
  "find_in_supers coll_jvm coll_mem ''right'' 0x20000 = Some (Some (coll_entry 0x20000 24))"
  "find_in_supers coll_jvm coll_mem ''key'' 0x20000 = Some (Some (coll_entry 0x20000 12))"
  "find_in_supers coll_jvm coll_mem ''value'' 0x20000 = Some (Some (coll_entry 0x20000 16))"
proof -
  have "(0x21004, tree_stream) \<in> set coll_cells" "length tree_stream = 27" by (simp_all add: coll_cells_def tree_stream_def)
  then have s: "find_in_supers coll_jvm coll_mem name 0x20000 = Some (map_option (\<lambda>f. (field_entry (the \<circ> pool_string coll_jvm coll_mem 0x30000) f)
     \<lparr>fe_declaring_klass := 0x20000\<rparr>) (find (\<lambda>f. pool_string coll_jvm coll_mem 0x30000 (sf_name f) = Some (Some name))
       [coll_field 1 12, coll_field 2 20, coll_field 3 24, coll_field 4 12, coll_field 5 16]))" for name
    using class_loads by (intro coll_stream [where arr = "0x21000", OF _ _ _ _ coll_bytes_of(1)]) (simp_all add: ptr_eval coll_field_def)
  show "find_in_supers coll_jvm coll_mem ''table'' 0x20000 = Some None"
    "find_in_supers coll_jvm coll_mem ''root'' 0x20000 = Some (Some (coll_entry 0x20000 12))"
    "find_in_supers coll_jvm coll_mem ''left'' 0x20000 = Some (Some (coll_entry 0x20000 20))"
    "find_in_supers coll_jvm coll_mem ''right'' 0x20000 = Some (Some (coll_entry 0x20000 24))"
    "find_in_supers coll_jvm coll_mem ''key'' 0x20000 = Some (Some (coll_entry 0x20000 12))"
    "find_in_supers coll_jvm coll_mem ''value'' 0x20000 = Some (Some (coll_entry 0x20000 16))"
    unfolding s by (simp_all add: coll_field_def coll_pool field_entry_def coll_entry_def)
qed

lemma hash_class:
  "find_in_supers coll_jvm coll_mem ''table'' 0x22000 = Some (Some (coll_entry 0x22000 12))"
  "find_in_supers coll_jvm coll_mem ''key'' 0x22000 = Some (Some (coll_entry 0x22000 12))"
  "find_in_supers coll_jvm coll_mem ''value'' 0x22000 = Some (Some (coll_entry 0x22000 16))"
  "find_in_supers coll_jvm coll_mem ''next'' 0x22000 = Some (Some (coll_entry 0x22000 20))"
proof -
  have "(0x23004, hash_stream) \<in> set coll_cells" "length hash_stream = 22" by (simp_all add: coll_cells_def hash_stream_def)
  then have s: "find_in_supers coll_jvm coll_mem name 0x22000 = Some (map_option (\<lambda>f. (field_entry (the \<circ> pool_string coll_jvm coll_mem 0x30000) f)
     \<lparr>fe_declaring_klass := 0x22000\<rparr>) (find (\<lambda>f. pool_string coll_jvm coll_mem 0x30000 (sf_name f) = Some (Some name))
       [coll_field 7 12, coll_field 4 12, coll_field 5 16, coll_field 6 20]))" for name
    using class_loads by (intro coll_stream [where arr = "0x23000", OF _ _ _ _ coll_bytes_of(2)]) (simp_all add: ptr_eval coll_field_def)
  show "find_in_supers coll_jvm coll_mem ''table'' 0x22000 = Some (Some (coll_entry 0x22000 12))"
    "find_in_supers coll_jvm coll_mem ''key'' 0x22000 = Some (Some (coll_entry 0x22000 12))"
    "find_in_supers coll_jvm coll_mem ''value'' 0x22000 = Some (Some (coll_entry 0x22000 16))"
    "find_in_supers coll_jvm coll_mem ''next'' 0x22000 = Some (Some (coll_entry 0x22000 20))"
    unfolding s by (simp_all add: coll_field_def coll_pool field_entry_def coll_entry_def)
qed

lemma coll_decode: "decode_oop_pointer coll_jvm coll_mem c = Some (ucast c)" "decode_klass_pointer coll_jvm coll_mem c = Some (ucast c)"
proof -
  have "first_entry coll_jvm [(''CompressedOops'', ''_narrow_oop._base''), (''CompressedOops'', ''_base''), (''Universe'', ''_narrow_oop._base'')]
      = Some (thread_entry ''CompressedOops'' ''_base'' 0 0x60000)"
    "first_entry coll_jvm [(''CompressedOops'', ''_narrow_oop._shift''), (''CompressedOops'', ''_shift''), (''Universe'', ''_narrow_oop._shift'')]
      = Some (thread_entry ''CompressedOops'' ''_shift'' 0 0x60008)"
    "first_entry coll_jvm [(''CompressedKlassPointers'', ''_narrow_klass._base''), (''CompressedKlassPointers'', ''_base''),
      (''Universe'', ''_narrow_klass._base'')] = Some (thread_entry ''CompressedKlassPointers'' ''_base'' 0 0x60000)"
    "first_entry coll_jvm [(''CompressedKlassPointers'', ''_narrow_klass._shift''), (''CompressedKlassPointers'', ''_shift''),
      (''Universe'', ''_narrow_klass._shift'')] = Some (thread_entry ''CompressedKlassPointers'' ''_shift'' 0 0x60008)"
    by (simp_all add: first_entry_def coll_eval)
  then show "decode_oop_pointer coll_jvm coll_mem c = Some (ucast c)" "decode_klass_pointer coll_jvm coll_mem c = Some (ucast c)"
    using class_loads by (simp_all add: decode_oop_pointer_def decode_klass_pointer_def narrow_oop_base_def narrow_oop_shift_def
      narrow_klass_base_def narrow_klass_shift_def)
qed

definition demo_coll :: "addr list coll_env" where
  "demo_coll = \<lparr>ce_jni = demo_jni\<lparr>je_heap := (je_heap demo_jni)\<lparr>he_jvm := coll_jvm\<rparr>\<rparr>, ce_types = Mapping.empty,
     ce_signed = \<lparr>fc_float = (\<lambda>_. 0), fc_double = (\<lambda>_. 0)\<rparr>, ce_unsigned = \<lparr>fc_float = (\<lambda>_. 0), fc_double = (\<lambda>_. 0)\<rparr>,
     ce_frame = \<lparr>cf_handles = 0, cf_object = 0, cf_receiver = 0\<rparr>\<rparr>"

definition coll_world :: "addr list jni_world" where
  "coll_world = (demo_world [])\<lparr>jw_heap := (jw_heap (demo_world []))\<lparr>hp_mem := coll_mem, hp_fields := Mapping.empty\<rparr>\<rparr>"

lemma coll_world_sel [simp]: "ce_jvm demo_coll = coll_jvm" "jw_mem coll_world = coll_mem" "jw_fields coll_world = Mapping.empty"
  by (simp_all add: demo_coll_def coll_world_def)

lemma tree_klass:
  "klass_from_oop coll_jvm coll_mem 0x200000 = Some 0x20000" "klass_from_oop coll_jvm coll_mem 0x210000 = Some 0x20000"
  "klass_from_oop coll_jvm coll_mem 0x211000 = Some 0x20000" "klass_from_oop coll_jvm coll_mem 0x250000 = Some 0x20000"
  "klass_from_oop coll_jvm coll_mem 0x260000 = Some 0x20000" "klass_from_oop coll_jvm coll_mem 0x220000 = Some 0x22000"
  "klass_from_oop coll_jvm coll_mem 0x240000 = Some 0x22000"
  using tree_object_loads hash_object_loads cyclic_object_loads
  by (simp_all add: klass_from_oop_def coll_decode ptr_eval)

lemma coll_live [simp]:
  "live 0x200000" "live 0x210000" "live 0x211000" "live 0x220000" "live 0x230000" "live 0x240000" "live 0x250000" "live 0x260000"
  "live 0x300000" "live 0x301000" "live 0x310000" "\<not> live 0"
  by (simp_all add: live_def ptr_eval)

lemma coll_ref:
  assumes "klass_from_oop coll_jvm coll_mem n = Some k" and "k \<noteq> 0"
    and "find_in_supers coll_jvm coll_mem name k = Some (Some (coll_entry k off))" and "load32 coll_mem (n + ucast off) = Some c"
  shows "ref_at coll_jvm coll_mem n name p \<longleftrightarrow> p = ucast c"
  using assms by (auto simp: ref_at_def read_ref_def coll_entry_def coll_decode)

lemma tree_refs [simp]:
  "ref_at coll_jvm coll_mem 0x210000 ''left'' p \<longleftrightarrow> p = 0" "ref_at coll_jvm coll_mem 0x210000 ''right'' p \<longleftrightarrow> p = 0x211000"
  "ref_at coll_jvm coll_mem 0x210000 ''key'' p \<longleftrightarrow> p = 0x300000" "ref_at coll_jvm coll_mem 0x210000 ''value'' p \<longleftrightarrow> p = 0x310000"
  "ref_at coll_jvm coll_mem 0x211000 ''left'' p \<longleftrightarrow> p = 0" "ref_at coll_jvm coll_mem 0x211000 ''right'' p \<longleftrightarrow> p = 0"
  "ref_at coll_jvm coll_mem 0x211000 ''key'' p \<longleftrightarrow> p = 0x301000" "ref_at coll_jvm coll_mem 0x211000 ''value'' p \<longleftrightarrow> p = 0"
  "ref_at coll_jvm coll_mem 0x260000 ''left'' p \<longleftrightarrow> p = 0x260000"
  using tree_object_loads cyclic_object_loads
  by (simp_all add: coll_ref [OF tree_klass(2) _ tree_class(3)] coll_ref [OF tree_klass(2) _ tree_class(4)]
      coll_ref [OF tree_klass(2) _ tree_class(5)] coll_ref [OF tree_klass(2) _ tree_class(6)]
      coll_ref [OF tree_klass(3) _ tree_class(3)] coll_ref [OF tree_klass(3) _ tree_class(4)]
      coll_ref [OF tree_klass(3) _ tree_class(5)] coll_ref [OF tree_klass(3) _ tree_class(6)]
      coll_ref [OF tree_klass(5) _ tree_class(3)])

lemma hash_refs [simp]:
  "ref_at coll_jvm coll_mem 0x240000 ''key'' p \<longleftrightarrow> p = 0x300000" "ref_at coll_jvm coll_mem 0x240000 ''value'' p \<longleftrightarrow> p = 0x310000"
  "ref_at coll_jvm coll_mem 0x240000 ''next'' p \<longleftrightarrow> p = 0"
  using hash_object_loads
  by (simp_all add: coll_ref [OF tree_klass(7) _ hash_class(2)] coll_ref [OF tree_klass(7) _ hash_class(3)]
      coll_ref [OF tree_klass(7) _ hash_class(4)])

lemma coll_roots:
  "root_at coll_jvm coll_mem 0x200000 0x210000" "root_at coll_jvm coll_mem 0x250000 0x260000"
  using tree_klass(1,4) tree_class(1,2) tree_object_loads(2) cyclic_object_loads(2)
  by (simp_all add: root_at_def read_ref_def coll_decode coll_entry_def)

lemma hash_map_entries_witness:
  "\<exists>c. to_entries demo_coll 0x220000 coll_world = Some ([(0x300000, 0x310000)], with_fields coll_world c)
     \<and> coherent coll_jvm coll_mem c"
proof -
  have arr: "get_array_element 4 coll_mem 0x230000 0 = Some (0x240000 :: u32)" "get_array_element 4 coll_mem 0x230000 1 = Some (0 :: u32)"
    "array_length coll_mem 0x230000 = Some 2"
    using hash_object_loads by (simp_all add: get_array_element_def array_length_def element_address_def ptr_eval)
  have "list_all2 (bucket_at coll_jvm coll_mem (pair_at coll_jvm coll_mem ''next'') 0x230000) [0, 1] [[(0x300000, 0x310000)], []]"
    using arr by (simp add: bucket_at_def coll_decode pair_at_def wrapped_def)
  then have "hash_map_at coll_jvm coll_mem 0x220000 [[(0x300000, 0x310000)], []]"
    using tree_klass(6) hash_class(1) hash_object_loads(2) arr(3)
    by (simp add: hash_map_at_def coll_entry_def decode_array_oop_def coll_decode ptr_eval upt_rec)
  with hash_map_entries [of demo_coll coll_world "0x220000" "[[(0x300000, 0x310000)], []]"] coherent_empty [of coll_jvm coll_mem]
  show ?thesis by simp
qed

lemma tree_map_entries_witness:
  "\<exists>c. to_entries demo_coll 0x200000 coll_world = Some ([(0x300000, 0x310000), (0x301000, 0)], with_fields coll_world c)
     \<and> coherent coll_jvm coll_mem c"
proof -
  let ?t = "Node Leaf (0x300000, 0x310000) (Node Leaf (0x301000, 0) Leaf)"
  have "tree_map_at coll_jvm coll_mem 0x200000 ?t"
    unfolding tree_map_at_def by (rule exI [of _ "0x210000"]) (simp add: coll_roots pair_at_def wrapped_def)
  with tree_map_entries [of demo_coll coll_world "0x200000" ?t] coherent_empty [of coll_jvm coll_mem] show ?thesis by simp
qed

lemma cyclic_tree_never_returns_witness: "to_entries demo_coll 0x250000 coll_world = None"
  by (rule cyclic_tree_never_returns [where root = "0x260000"]) (simp_all add: coll_roots coherent_empty)

end
