(* ===== verification/Object_Creation.thy ===== *)
theory Object_Creation
  imports Object_Base
begin

text \<open>
  Creating and keeping Java objects: \<open>jni_make_unique\<close> (vmhook.hpp line 10297) and
  \<open>make_unique\<close> (10826), the class lookup through the loader of an object (10647) with the
  overrides of the class cache (10742 to 10807), and \<open>global_ref\<close> with \<open>pin\<close> (16834 to 16951).

  \<open>storage\<close> is the address of the local variable that a handle points to; \<open>alloc\<close> and \<open>grow\<close> are the
  choices of the vector's allocator. \<open>construct\<close> is the member function of the wrapper that
  \<open>make_unique\<close> calls on an object it allocated itself, the identity when the wrapper has none.
\<close>

section \<open>Creating an object\<close>

text \<open>What the log line prints: the name of the class that the new object's header names.\<close>

definition returned_class_name :: "jvm \<Rightarrow> mem \<Rightarrow> addr \<Rightarrow> string option" where
  "returned_class_name J m oop = do {
     narrow \<leftarrow> load32 m (oop + 8);
     k \<leftarrow> decode_klass_pointer J m narrow;
     if k = 0 \<or> \<not> is_valid_pointer k then Some ''<unresolved>''
     else let sym = klass_get_name J m k in
       if sym = 0 \<or> \<not> is_valid_pointer sym then Some ''<unresolved>'' else symbol_to_string J m sym }"

text \<open>The call of the constructor: the object or null, and the handle that NewObjectA returned or null.\<close>

definition new_object ::
  "'w jni_env \<Rightarrow> (nat, string) mapping \<Rightarrow> addr \<Rightarrow> java_arg list \<Rightarrow> u64 list \<Rightarrow> 'w jni_world \<Rightarrow> (addr \<times> addr \<times> 'w jni_world) option" where
  "new_object E types klass xs values w = do {
     (mid, w) \<leftarrow> jni_get_method_id E klass ''<init>'' (''('' @ concat (map (jni_signature_for_arg types) xs) @ '')V'') w;
     if mid = 0 then Some (0, 0, w)
     else do {
       f \<leftarrow> jni_function 30 (jw_mem w) (jni_env_pointer w);
       if f = 0 then Some (0, 0, w)
       else do {
         (handle, w) \<leftarrow> je_call E f [Word (jni_env_pointer w), Word klass, Word mid, Values values] w;
         oop \<leftarrow> jni_decode_object (jw_mem w) handle;
         if oop = 0 then Some (0, handle, w)
         else do {
           _ \<leftarrow> returned_class_name (je_jvm E) (jw_mem w) oop;
           Some (oop, handle, w) } } } }"

definition jni_make_unique ::
  "'w jni_env \<Rightarrow> (nat, string) mapping \<Rightarrow> (handle_vector \<Rightarrow> nat \<Rightarrow> addr) \<Rightarrow> (handle_vector \<Rightarrow> addr \<times> nat) \<Rightarrow> addr \<Rightarrow>
     string \<Rightarrow> java_arg list \<Rightarrow> 'w jni_world \<Rightarrow> (addr \<times> 'w jni_world) option" where
  "jni_make_unique E types alloc grow storage class_name xs w = do {
     (k, h) \<leftarrow> heap_find_class (je_heap E) class_name (jw_heap w);
     let w = w\<lparr>jw_heap := h\<rparr>;
     let mirror = get_java_mirror (je_jvm E) (jw_mem w) k;
     if k = 0 \<or> mirror = 0 \<or> \<not> is_valid_pointer mirror then Some (0, w)
     else do {
       (klass, m) \<leftarrow> jni_oop_handle (jw_mem w) mirror storage;
       (a, w) \<leftarrow> make_jni_args E alloc grow xs \<lparr>hv_base = 0, hv_items = [], hv_capacity = 0\<rparr>
         (w\<lparr>jw_heap := (jw_heap w)\<lparr>hp_mem := m\<rparr>\<rparr>);
       (oop, handle, w) \<leftarrow> new_object E types klass xs (ja_values a) w;
       w \<leftarrow> delete_refs E (map fst (filter snd (zip (ja_values a) (ja_release a)))) w;
       w \<leftarrow> jni_delete_local_ref E handle w;
       Some (oop, w) } }"

text \<open>The fallback: an object from a TLAB, without a constructor call.\<close>

definition tlab_make_unique ::
  "'w jni_env \<Rightarrow> (addr \<Rightarrow> 'w jni_world \<Rightarrow> 'w jni_world option) \<Rightarrow> string \<Rightarrow> 'w jni_world \<Rightarrow> (addr \<times> 'w jni_world) option" where
  "tlab_make_unique E construct class_name w = do {
     (k, h) \<leftarrow> heap_find_class (je_heap E) class_name (jw_heap w);
     if k = 0 then Some (0, w\<lparr>jw_heap := h\<rparr>)
     else do {
       raw_size \<leftarrow> get_instance_size (je_jvm E) (hp_mem h) k;
       let size = object_size raw_size;
       if size = 0 then Some (0, w\<lparr>jw_heap := h\<rparr>)
       else do {
         (obj, g, m) \<leftarrow> allocate_object (je_jvm E) size (hp_threads h, hp_mem h);
         if obj = 0 then Some (0, w\<lparr>jw_heap := h\<lparr>hp_threads := g, hp_mem := m\<rparr>\<rparr>)
         else do {
           m \<leftarrow> store_bytes m obj (replicate (unat size) 0);
           m \<leftarrow> stamp_header (je_jvm E) m obj k;
           w \<leftarrow> construct obj (w\<lparr>jw_heap := h\<lparr>hp_threads := g, hp_mem := m\<rparr>\<rparr>);
           Some (obj, w) } } } }"

definition make_unique ::
  "'w jni_env \<Rightarrow> (nat, string) mapping \<Rightarrow> (handle_vector \<Rightarrow> nat \<Rightarrow> addr) \<Rightarrow> (handle_vector \<Rightarrow> addr \<times> nat) \<Rightarrow> addr \<Rightarrow>
     (addr \<Rightarrow> 'w jni_world \<Rightarrow> 'w jni_world option) \<Rightarrow> nat \<Rightarrow> java_arg list \<Rightarrow> 'w jni_world \<Rightarrow> (addr \<times> 'w jni_world) option" where
  "make_unique E types alloc grow storage construct type_id xs w = do {
     (ok, w) \<leftarrow> ensure_thread E w;
     if \<not> ok then Some (0, w)
     else case Mapping.lookup types type_id of None \<Rightarrow> Some (0, w)
     | Some class_name \<Rightarrow> do {
         (oop, w) \<leftarrow> jni_make_unique E types alloc grow storage class_name xs w;
         if oop \<noteq> 0 then Some (oop, w) else tlab_make_unique E construct class_name w } }"

section \<open>Classes through the loader of an object\<close>

definition find_class_via_oop :: "'w jni_env \<Rightarrow> addr \<Rightarrow> addr \<Rightarrow> string \<Rightarrow> 'w jni_world \<Rightarrow> (addr \<times> 'w jni_world) option" where
  "find_class_via_oop E storage anchor_oop class_name w =
     (if anchor_oop = 0 then Some (0, w)
      else do {
        (ok, w) \<leftarrow> ensure_thread E w;
        if \<not> ok then Some (0, w)
        else do {
          (anchor, m) \<leftarrow> jni_oop_handle (jw_mem w) anchor_oop storage;
          (anchor_class, w) \<leftarrow> jni_get_object_class E anchor (w\<lparr>jw_heap := (jw_heap w)\<lparr>hp_mem := m\<rparr>\<rparr>);
          if anchor_class = 0 then do { w \<leftarrow> jni_exception_clear E w; Some (0, w) }
          else do {
            (class_class, w) \<leftarrow> jni_get_object_class E anchor_class w;
            if class_class = 0 then do {
              w \<leftarrow> jni_exception_clear E w; w \<leftarrow> jni_delete_local_ref E anchor_class w; Some (0, w) }
            else do {
              (get_loader_id, w) \<leftarrow> jni_get_method_id E class_class ''getClassLoader'' ''()Ljava/lang/ClassLoader;'' w;
              w \<leftarrow> jni_delete_local_ref E class_class w;
              if get_loader_id = 0 then do { w \<leftarrow> jni_delete_local_ref E anchor_class w; Some (0, w) }
              else do {
                (loader, w) \<leftarrow> jni_call_object_method E anchor_class get_loader_id [] w;
                w \<leftarrow> jni_delete_local_ref E anchor_class w;
                w \<leftarrow> jni_exception_clear E w;
                if loader = 0 then Some (0, w)
                else do {
                  (cl_class, w) \<leftarrow> jni_get_object_class E loader w;
                  if cl_class = 0 then do { w \<leftarrow> jni_delete_local_ref E loader w; Some (0, w) }
                  else do {
                    (load_class_id, w) \<leftarrow> jni_get_method_id E cl_class ''loadClass'' ''(Ljava/lang/String;)Ljava/lang/Class;'' w;
                    w \<leftarrow> jni_delete_local_ref E cl_class w;
                    if load_class_id = 0 then do { w \<leftarrow> jni_delete_local_ref E loader w; Some (0, w) }
                    else do {
                      (name, w) \<leftarrow> jni_new_string_utf E (bytes_of_chars (dotted class_name)) w;
                      if name = 0 then do { w \<leftarrow> jni_delete_local_ref E loader w; Some (0, w) }
                      else do {
                        (mirror, w) \<leftarrow> jni_call_object_method E loader load_class_id [name] w;
                        w \<leftarrow> jni_delete_local_ref E name w;
                        w \<leftarrow> jni_delete_local_ref E loader w;
                        w \<leftarrow> jni_exception_clear E w;
                        if mirror = 0 then Some (0, w)
                        else do {
                          k \<leftarrow> jni_klass_from_class_mirror (je_jvm E) (jw_mem w) mirror;
                          w \<leftarrow> jni_delete_local_ref E mirror w;
                          Some (k, w) } } } } } } } } } })"

abbreviation jw_classes :: "'w jni_world \<Rightarrow> class_cache" where "jw_classes w \<equiv> hp_classes (jw_heap w)"

abbreviation with_classes :: "'w jni_world \<Rightarrow> class_cache \<Rightarrow> 'w jni_world" where
  "with_classes w c \<equiv> w\<lparr>jw_heap := (jw_heap w)\<lparr>hp_classes := c\<rparr>\<rparr>"

definition override_class_lookup :: "string \<Rightarrow> addr \<Rightarrow> class_cache \<Rightarrow> class_cache" where
  "override_class_lookup class_name k c = c\<lparr>klass_lookup_cache := Mapping.update class_name k (klass_lookup_cache c)\<rparr>"

definition evict_class_lookup :: "string \<Rightarrow> class_cache \<Rightarrow> class_cache" where
  "evict_class_lookup class_name c = c\<lparr>klass_lookup_cache := Mapping.delete class_name (klass_lookup_cache c)\<rparr>"

fun reanchor_classes :: "'w jni_env \<Rightarrow> addr \<Rightarrow> addr \<Rightarrow> string list \<Rightarrow> bool \<Rightarrow> 'w jni_world \<Rightarrow> (bool \<times> 'w jni_world) option" where
  "reanchor_classes E storage anchor_oop [] all_resolved w = Some (all_resolved, w)"
| "reanchor_classes E storage anchor_oop (n # ns) all_resolved w = do {
     (k, w) \<leftarrow> find_class_via_oop E storage anchor_oop n w;
     if k \<noteq> 0 then reanchor_classes E storage anchor_oop ns all_resolved (with_classes w (override_class_lookup n k (jw_classes w)))
     else reanchor_classes E storage anchor_oop ns False w }"

definition reanchor_classes_via_oop :: "'w jni_env \<Rightarrow> addr \<Rightarrow> addr \<Rightarrow> string list \<Rightarrow> 'w jni_world \<Rightarrow> (bool \<times> 'w jni_world) option" where
  "reanchor_classes_via_oop E storage anchor_oop names w =
     (if anchor_oop = 0 then Some (False, w) else reanchor_classes E storage anchor_oop names True w)"

section \<open>Global references\<close>

text \<open>A \<open>global_ref\<close> is its handle, null when it is empty.\<close>

definition gr_construct :: "'w jni_env \<Rightarrow> addr \<Rightarrow> addr \<Rightarrow> 'w jni_world \<Rightarrow> (addr \<times> 'w jni_world) option" where
  "gr_construct E storage raw_oop w =
     (if raw_oop = 0 then Some (0, w)
      else do {
        (handle, m) \<leftarrow> jni_oop_handle (jw_mem w) raw_oop storage;
        jni_new_global_ref E handle (w\<lparr>jw_heap := (jw_heap w)\<lparr>hp_mem := m\<rparr>\<rparr>) })"

definition gr_destroy :: "'w jni_env \<Rightarrow> addr \<Rightarrow> 'w jni_world \<Rightarrow> 'w jni_world option" where
  "gr_destroy E handle w = jni_delete_global_ref E handle w"

text \<open>The new values of the target and of the source.\<close>

definition gr_move :: "addr \<Rightarrow> addr \<times> addr" where
  "gr_move other = (other, 0)"

definition gr_move_assign :: "'w jni_env \<Rightarrow> addr \<Rightarrow> addr \<Rightarrow> 'w jni_world \<Rightarrow> (addr \<times> addr \<times> 'w jni_world) option" where
  "gr_move_assign E this other w = do { w \<leftarrow> jni_delete_global_ref E this w; Some (other, 0, w) }"

definition gr_reset :: "'w jni_env \<Rightarrow> addr \<Rightarrow> 'w jni_world \<Rightarrow> (addr \<times> 'w jni_world) option" where
  "gr_reset E this w = do { w \<leftarrow> jni_delete_global_ref E this w; Some (0, w) }"

definition gr_oop :: "mem \<Rightarrow> addr \<Rightarrow> addr option" where
  "gr_oop m handle = (if handle = 0 then Some 0 else load64 m (handle AND NOT 7))"

definition gr_bool :: "addr \<Rightarrow> bool" where
  "gr_bool handle \<longleftrightarrow> handle \<noteq> 0"

definition pin :: "'w jni_env \<Rightarrow> addr \<Rightarrow> object_base option \<Rightarrow> 'w jni_world \<Rightarrow> (addr \<times> 'w jni_world) option" where
  "pin E storage wrapper w = (case wrapper of None \<Rightarrow> Some (0, w) | Some obj \<Rightarrow> gr_construct E storage (ob_instance obj) w)"

section \<open>No local reference is leaked\<close>

lemma object_class_bind:
  assumes "ref_contract E kind refs ok" and "holding refs ok R bag w"
    and "\<And>r w'. holding refs ok R (track r bag) w' \<Longrightarrow> returns (f r w') Q"
  shows "returns (jni_get_object_class E h w \<bind> (\<lambda>(r, w'). f r w')) Q"
proof (rule returns_bind_pair)
  fix r w' assume "jni_get_object_class E h w = Some (r, w')"
  then have "holding refs ok R (track r bag) w'"
    unfolding jni_get_object_class_def by (rule slot_creating [OF assms(1,2)]) simp
  then show "returns (f r w') Q" by (rule assms(3))
qed

lemma holding_swap: "holding refs ok R (track a (track b bag)) w \<longleftrightarrow> holding refs ok R (track b (track a bag)) w"
  by (auto simp: holding_def mset_track track_def)

lemma delete_tracked:
  assumes "ref_contract E kind refs ok" and "holding refs ok R (track h bag) w"
    and "jni_delete_local_ref E h w = Some w'"
  shows "holding refs ok R bag w'"
proof (cases "h = 0")
  case True
  with assms(2,3) show ?thesis by (simp add: jni_delete_local_ref_def)
next
  case False
  with assms(2) have "holding refs ok R (h # bag) w" by (simp add: holding_def mset_track track_def)
  then show ?thesis by (rule delete_holding [OF assms(1) _ assms(3)])
qed

lemma delete_ref_bind:
  assumes "ref_contract E kind refs ok" and "holding refs ok R (track h bag) w"
    and "\<And>w'. holding refs ok R bag w' \<Longrightarrow> returns (f w') Q"
  shows "returns (jni_delete_local_ref E h w \<bind> f) Q"
  using delete_tracked [OF assms(1,2)] assms(3) by (auto intro!: returns_bind)

lemma delete_second_bind:
  assumes "ref_contract E kind refs ok" and "holding refs ok R (track g (track h bag)) w"
    and "\<And>w'. holding refs ok R (track g bag) w' \<Longrightarrow> returns (f w') Q"
  shows "returns (jni_delete_local_ref E h w \<bind> f) Q"
  using delete_ref_bind [OF assms(1) assms(2) [unfolded holding_swap [of _ _ _ g]] assms(3)] .

lemma via_oop_holding:
  assumes "ref_contract E kind refs ok" and "slot_apart ok storage" and "holding refs ok R [] w"
  shows "returns (find_class_via_oop E storage anchor cn w) (\<lambda>(k, w'). holding refs ok R [] w')"
  unfolding find_class_via_oop_def
  using assms(3)
  by - (assumption | rule ensure_bind [OF assms(1)] oop_handle_bind [OF assms(2)] object_class_bind [OF assms(1)]
      vc_rules [OF assms(1)] delete_ref_bind [OF assms(1)] delete_second_bind [OF assms(1)] returns_if returns_bind
    | (rule returns_Some, simp; fail))+

text \<open>The handles of the string arguments that the cleanup of \<open>jni_make_unique\<close> deletes.\<close>

abbreviation args_bag :: "jni_args \<Rightarrow> addr list" where
  "args_bag a \<equiv> map fst (filter snd (zip (ja_values a) (ja_release a)))"

lemma args_bag_push:
  "length (ja_values a) = length (ja_release a) \<Longrightarrow> args_bag (push_value v b a) = args_bag a @ (if b then [v] else [])"
  by (simp add: push_value_def)

lemma append_arg_holding:
  assumes "ref_contract E kind refs ok" and "length (ja_values a) = length (ja_release a)" and "holding refs ok R (args_bag a) w"
  shows "returns (append_jni_arg E grow x (a, w)) (\<lambda>(a', w'). length (ja_values a') = length (ja_release a') \<and> holding refs ok R (args_bag a') w')"
proof -
  have push: "length (ja_values (push_value v b a)) = length (ja_release (push_value v b a))" for v b
    using assms(2) by (simp add: push_value_def)
  have obj: "args_bag (push_object grow oop a) = args_bag a"
      "length (ja_values (push_object grow oop a)) = length (ja_release (push_object grow oop a))" for oop
    using assms(2) by (simp_all add: push_object_def push_value_def Let_def)
  have str: "returns (jni_new_string_utf E t w \<bind> (\<lambda>(h, w). Some (push_value h (h \<noteq> 0) a, w)))
      (\<lambda>(a', w'). length (ja_values a') = length (ja_release a') \<and> holding refs ok R (args_bag a') w')" for t
  proof (rule vc_rules(8) [OF assms(1,3)], rule returns_Some)
    fix h w' assume "holding refs ok R (track h (args_bag a)) w'"
    then show "case (push_value h (h \<noteq> 0) a, w') of (a', w') \<Rightarrow>
        length (ja_values a') = length (ja_release a') \<and> holding refs ok R (args_bag a') w'"
      using push [of h "h \<noteq> 0"] args_bag_push [OF assms(2), of h "h \<noteq> 0"] by (cases "h = 0") (simp_all add: track_def)
  qed
  show ?thesis
    using assms(2,3) str obj push args_bag_push [OF assms(2)]
    by (cases x) (simp_all add: append_jni_arg_def returns_def)
qed

lemma append_args_holding:
  assumes "ref_contract E kind refs ok"
  shows "length (ja_values a) = length (ja_release a) \<Longrightarrow> holding refs ok R (args_bag a) w \<Longrightarrow>
    returns (append_jni_args E grow xs (a, w)) (\<lambda>(a', w'). holding refs ok R (args_bag a') w')"
proof (induction xs arbitrary: a w)
  case Nil
  then show ?case by (simp add: returns_def)
next
  case (Cons x xs)
  from append_arg_holding [OF assms Cons.prems, of grow x] Cons.IH show ?case
    by (fastforce simp: returns_def bind_eq_Some_conv)
qed

lemma new_object_holding:
  assumes "ref_contract E kind refs ok" and "holding refs ok R bag w"
  shows "returns (new_object E types klass xs values w) (\<lambda>(oop, handle, w'). holding refs ok R (track handle bag) w')"
  unfolding new_object_def
proof (rule vc_rules(2) [OF assms])
  fix mid w1 assume h: "holding refs ok R bag w1"
  show "returns (if mid = 0 then Some (0, 0, w1)
     else do {
       f \<leftarrow> jni_function 30 (jw_mem w1) (jni_env_pointer w1);
       if f = 0 then Some (0, 0, w1)
       else do {
         (handle, w) \<leftarrow> je_call E f [Word (jni_env_pointer w1), Word klass, Word mid, Values values] w1;
         oop \<leftarrow> jni_decode_object (jw_mem w) handle;
         if oop = 0 then Some (0, handle, w)
         else do {
           _ \<leftarrow> returned_class_name (je_jvm E) (jw_mem w) oop;
           Some (oop, handle, w) } } }) (\<lambda>(oop, handle, w'). holding refs ok R (track handle bag) w')"
  proof (intro returns_if returns_bind)
    fix f r w2 assume f: "jni_function 30 (jw_mem w1) (jni_env_pointer w1) = Some f" "f \<noteq> 0"
      and c: "je_call E f [Word (jni_env_pointer w1), Word klass, Word mid, Values values] w1 = Some r"
    have "call_jni_slot E 30 [Word klass, Word mid, Values values] w1 = Some r"
      using f c by (simp add: call_jni_slot_def)
    then have "holding refs ok R (track (fst r) bag) (snd r)"
      using slot_creating [OF assms(1) h, of 30 _ "fst r" "snd r"] by simp
    then show "returns (case r of (handle, w) \<Rightarrow> do {
         oop \<leftarrow> jni_decode_object (jw_mem w) handle;
         if oop = 0 then Some (0, handle, w)
         else do {
           _ \<leftarrow> returned_class_name (je_jvm E) (jw_mem w) oop;
           Some (oop, handle, w) } }) (\<lambda>(oop, handle, w'). holding refs ok R (track handle bag) w')"
      by (cases r) (auto simp: returns_def bind_eq_Some_conv split: if_splits)
  qed (use h in \<open>auto intro: returns_Some\<close>)
qed

text \<open>The condition on the world does not depend on the caches of classes and fields.\<close>

definition cache_free :: "('w jni_world \<Rightarrow> bool) \<Rightarrow> bool" where
  "cache_free ok \<longleftrightarrow> (\<forall>w h. ok w \<longrightarrow> hp_mem h = jw_mem w \<longrightarrow> hp_threads h = hp_threads (jw_heap w) \<longrightarrow> ok (w\<lparr>jw_heap := h\<rparr>))"

lemma heap_find_class_keeps: "heap_find_class E cn h = Some (k, h') \<Longrightarrow> hp_mem h' = hp_mem h \<and> hp_threads h' = hp_threads h"
  by (auto simp: heap_find_class_def bind_eq_Some_conv)

lemma args_bind:
  assumes "ref_contract E kind refs ok" and "holding refs ok R [] w"
    and "\<And>a w'. holding refs ok R (args_bag a) w' \<Longrightarrow> returns (f a w') Q"
  shows "returns (make_jni_args E alloc grow xs v w \<bind> (\<lambda>(a, w'). f a w')) Q"
  using append_args_holding [OF assms(1), of "\<lparr>ja_values = [], ja_handles = reserve alloc (length xs) v, ja_release = []\<rparr>" R w grow xs]
    assms(2,3) by (auto simp: make_jni_args_def returns_def bind_eq_Some_conv)

lemma new_object_bind:
  assumes "ref_contract E kind refs ok" and "holding refs ok R bag w"
    and "\<And>oop handle w'. holding refs ok R (track handle bag) w' \<Longrightarrow> returns (f oop handle w') Q"
  shows "returns (new_object E types klass xs values w \<bind> (\<lambda>(oop, handle, w'). f oop handle w')) Q"
  using new_object_holding [OF assms(1,2), of types klass xs "values"] assms(3) by (auto simp: returns_def bind_eq_Some_conv)

lemma delete_bag_bind:
  assumes "ref_contract E kind refs ok" and "holding refs ok R (track handle bag) w"
    and "\<And>w'. holding refs ok R (track handle []) w' \<Longrightarrow> returns (f w') Q"
  shows "returns (delete_refs E bag w \<bind> f) Q"
proof (rule returns_bind)
  fix w' assume d: "delete_refs E bag w = Some w'"
  have "holding refs ok (R + mset (track handle [])) bag w" using assms(2) by (auto simp: holding_def mset_track track_def split: if_splits)
  from delete_refs_holding [OF assms(1) this d] have "holding refs ok R (track handle []) w'"
    by (auto simp: holding_def mset_track track_def split: if_splits)
  then show "returns (f w') Q" by (rule assms(3))
qed

text \<open>Constructing a Java object through NewObjectA leaks no local reference: on every path, the
  string handles of the arguments and the handle of the new object are deleted before the return.\<close>

theorem jni_make_unique_releases_refs:
  assumes "ref_contract E kind refs ok" and "slot_apart ok storage" and "cache_free ok" and "ok w"
    and "jni_make_unique E types alloc grow storage cn xs w = Some (oop, w')"
  shows "ok w' \<and> refs (jw_vm w') = refs (jw_vm w)"
proof -
  let ?Q = "\<lambda>(oop, w'). holding refs ok (refs (jw_vm w)) [] w'"
  have "returns (jni_make_unique E types alloc grow storage cn xs w) ?Q"
    unfolding jni_make_unique_def
  proof (rule returns_bind_pair)
    fix k h assume "heap_find_class (je_heap E) cn (jw_heap w) = Some (k, h)"
    from heap_find_class_keeps [OF this] assms(3,4) have "holding refs ok (refs (jw_vm w)) [] (w\<lparr>jw_heap := h\<rparr>)"
      by (simp add: holding_def cache_free_def)
    then show "returns (let w = w\<lparr>jw_heap := h\<rparr>; mirror = get_java_mirror (je_jvm E) (jw_mem w) k in
       if k = 0 \<or> mirror = 0 \<or> \<not> is_valid_pointer mirror then Some (0, w)
       else do {
         (klass, m) \<leftarrow> jni_oop_handle (jw_mem w) mirror storage;
         (a, w) \<leftarrow> make_jni_args E alloc grow xs \<lparr>hv_base = 0, hv_items = [], hv_capacity = 0\<rparr>
           (w\<lparr>jw_heap := (jw_heap w)\<lparr>hp_mem := m\<rparr>\<rparr>);
         (oop, handle, w) \<leftarrow> new_object E types klass xs (ja_values a) w;
         w \<leftarrow> delete_refs E (args_bag a) w;
         w \<leftarrow> jni_delete_local_ref E handle w;
         Some (oop, w) }) ?Q"
      unfolding Let_def
      by - (assumption | rule oop_handle_bind [OF assms(2)] args_bind [OF assms(1)] new_object_bind [OF assms(1)]
          delete_bag_bind [OF assms(1)] delete_ref_bind [OF assms(1)] returns_if | (rule returns_Some, simp; fail))+
  qed
  with assms(5) show ?thesis by (simp add: returns_def holding_def)
qed

lemma demo_cache_free: "cache_free demo_ok"
  by (auto simp: cache_free_def demo_ok_def)

lemma jni_make_unique_releases_refs_witness:
  "\<exists>oop w'. jni_make_unique demo_jni Mapping.empty (\<lambda>_ _. 0x8000) (\<lambda>v. (0x9000, 8)) 0x200000 ''A'' [Arg_I32 1] (demo_world [7]) = Some (oop, w')
     \<and> mset (jw_vm w') = {#7#}"
proof -
  let ?h = "(jw_heap (demo_world [7]))\<lparr>hp_classes := \<lparr>klass_lookup_cache = Mapping.update ''A'' 0x40000 Mapping.empty, host_classloader_klass = 0x300000\<rparr>\<rparr>"
  have "graph_find_klass loader_jvm jni_mem ''A'' = Some (Inr 0)"
    by (simp add: graph_find_klass_def graph_get_head_def system_dictionary_def find_in_clds.simps loader_jvm_def threads_jvm_def
        thread_entry_def iterate_struct_entries_def)
  then have f: "heap_find_class (je_heap demo_jni) ''A'' (jw_heap (demo_world [7])) = Some (0x40000, ?h)"
    by (simp add: heap_find_class_def find_class_def resolve_class_def cache_insert_def capture_host_classloader_klass_def
        demo_jni_def demo_world_def demo_heap_def demo_heap_env_def)
  have "get_java_mirror loader_jvm m 0x40000 = 0" for m
    by (simp add: get_java_mirror_def loader_jvm_def threads_jvm_def thread_entry_def iterate_struct_entries_def)
  then have r: "jni_make_unique demo_jni Mapping.empty (\<lambda>_ _. 0x8000) (\<lambda>v. (0x9000, 8)) 0x200000 ''A'' [Arg_I32 1] (demo_world [7])
      = Some (0, (demo_world [7])\<lparr>jw_heap := ?h\<rparr>)"
    by (simp add: jni_make_unique_def f Let_def) (simp add: demo_jni_def)
  from jni_make_unique_releases_refs [OF demo_contract demo_slot_apart demo_cache_free demo_world_ok r] r show ?thesis by auto
qed

text \<open>The lookup through the loader of an object leaks none either.\<close>

theorem find_class_via_oop_releases_refs:
  assumes "ref_contract E kind refs ok" and "slot_apart ok storage" and "ok w"
    and "find_class_via_oop E storage anchor cn w = Some (k, w')"
  shows "ok w' \<and> refs (jw_vm w') = refs (jw_vm w)"
proof -
  have "holding refs ok (refs (jw_vm w)) [] w" using assms(3) by (simp add: holding_def)
  from via_oop_holding [OF assms(1,2) this, of anchor cn] assms(4) show ?thesis by (simp add: returns_def holding_def)
qed

end
