(* ===== verification/Global_Refs.thy ===== *)
theory Global_Refs
  imports Object_Creation "HOL-Library.Multiset"
begin

text \<open>
  The ownership of global references: any number of \<open>global_ref\<close> variables (vmhook.hpp lines 16834
  to 16924) under construction, moves, assignments, resets and destruction, and the references
  that the JVM keeps for them.
\<close>

section \<open>Variables\<close>

text \<open>The variables of a program in a list; \<open>storage\<close> is where the constructor keeps its argument.\<close>

inductive gr_step :: "'w jni_env \<Rightarrow> addr \<Rightarrow> addr list \<times> 'w jni_world \<Rightarrow> addr list \<times> 'w jni_world \<Rightarrow> bool"
  for E :: "'w jni_env" and storage :: addr where
  gr_new: "gr_construct E storage raw_oop w = Some (h, w') \<Longrightarrow> gr_step E storage (vs, w) (vs @ [h], w')"
| gr_pin: "pin E storage wrapper w = Some (h, w') \<Longrightarrow> gr_step E storage (vs, w) (vs @ [h], w')"
| gr_moved: "i < length vs \<Longrightarrow> gr_move (vs ! i) = (h, rest) \<Longrightarrow> gr_step E storage (vs, w) (vs[i := rest] @ [h], w)"
| gr_assigned: "i < length vs \<Longrightarrow> j < length vs \<Longrightarrow> i \<noteq> j \<Longrightarrow> gr_move_assign E (vs ! i) (vs ! j) w = Some (h, rest, w') \<Longrightarrow>
    gr_step E storage (vs, w) (vs[i := h, j := rest], w')"
| gr_resetted: "i < length vs \<Longrightarrow> gr_reset E (vs ! i) w = Some (h, w') \<Longrightarrow> gr_step E storage (vs, w) (vs[i := h], w')"
| gr_gone: "gr_destroy E h w = Some w' \<Longrightarrow> gr_step E storage (vs @ h # us, w) (vs @ us, w')"

inductive gr_reach :: "'w jni_env \<Rightarrow> addr \<Rightarrow> 'w jni_world \<Rightarrow> addr list \<times> 'w jni_world \<Rightarrow> bool"
  for E :: "'w jni_env" and storage :: addr and w0 :: "'w jni_world" where
  gr_start: "gr_reach E storage w0 ([], w0)"
| gr_next: "gr_reach E storage w0 s \<Longrightarrow> gr_step E storage s s' \<Longrightarrow> gr_reach E storage w0 s'"

section \<open>The contract of the two functions\<close>

text \<open>
  What the JNI specification says of NewGlobalRef (slot 21) and DeleteGlobalRef (slot 22), for the
  multiset \<open>globals\<close> of live global references: the first adds what it returns, the second takes its
  argument away. \<open>ok\<close> is a condition on the world that the calls keep, and under which the table has
  the second function.
\<close>

definition global_contract :: "'w jni_env \<Rightarrow> ('w \<Rightarrow> addr multiset) \<Rightarrow> ('w jni_world \<Rightarrow> bool) \<Rightarrow> bool" where
  "global_contract E globals ok \<longleftrightarrow>
     (\<forall>w f args r w'. ok w \<longrightarrow> jni_function 21 (jw_mem w) (jni_env_pointer w) = Some f \<longrightarrow> f \<noteq> 0 \<longrightarrow> je_call E f args w = Some (r, w') \<longrightarrow>
        ok w' \<and> globals (jw_vm w') = (if r = 0 then globals (jw_vm w) else add_mset r (globals (jw_vm w))))
   \<and> (\<forall>w f h r w'. ok w \<longrightarrow> jni_function 22 (jw_mem w) (jni_env_pointer w) = Some f \<longrightarrow> f \<noteq> 0 \<longrightarrow>
        je_call E f [Word (jni_env_pointer w), Word h] w = Some (r, w') \<longrightarrow> ok w' \<and> globals (jw_vm w') = globals (jw_vm w) - {#h#})
   \<and> (\<forall>w. ok w \<longrightarrow> jni_function 22 (jw_mem w) (jni_env_pointer w) \<noteq> Some 0)"

text \<open>The reference that a variable owns, and those of a list of variables.\<close>

definition owned1 :: "addr \<Rightarrow> addr multiset" where
  "owned1 h = (if h = 0 then {#} else {#h#})"

primrec owned :: "addr list \<Rightarrow> addr multiset" where
  "owned [] = {#}"
| "owned (h # vs) = owned1 h + owned vs"

lemma owned1_simps [simp]: "owned1 0 = {#}" "h \<noteq> 0 \<Longrightarrow> owned1 h = {#h#}"
  by (simp_all add: owned1_def)

lemma owned_append [simp]: "owned (vs @ us) = owned vs + owned us"
  by (induction vs) (simp_all add: ac_simps)

lemma owned_update: "i < length vs \<Longrightarrow> owned (vs[i := h]) + owned1 (vs ! i) = owned vs + owned1 h"
proof (induction vs arbitrary: i)
  case (Cons v vs)
  then show ?case by (cases i) (simp_all add: ac_simps)
qed simp

lemma delete_global:
  assumes "global_contract E globals ok" and "ok w" and "jni_delete_global_ref E h w = Some w'" and "globals (jw_vm w) = R + owned1 h"
  shows "ok w' \<and> globals (jw_vm w') = R"
proof (cases "h = 0")
  case False
  have "jni_function 22 (jw_mem w) (jni_env_pointer w) \<noteq> Some 0" using assms(1,2) unfolding global_contract_def by blast
  with False assms(3) obtain f r where f: "jni_function 22 (jw_mem w) (jni_env_pointer w) = Some f" "f \<noteq> 0"
    "je_call E f [Word (jni_env_pointer w), Word h] w = Some (r, w')"
    by (auto simp: jni_delete_global_ref_def call_jni_slot_def bind_eq_Some_conv split: if_splits)
  with assms(1,2) have "ok w' \<and> globals (jw_vm w') = globals (jw_vm w) - {#h#}" unfolding global_contract_def by blast
  with assms(4) False show ?thesis by simp
qed (use assms in \<open>simp add: jni_delete_global_ref_def\<close>)

lemma new_global:
  assumes "global_contract E globals ok" and "ok w" and "jni_new_global_ref E x w = Some (r, w')"
  shows "ok w' \<and> globals (jw_vm w') = globals (jw_vm w) + owned1 r"
proof (cases "x = 0")
  case False
  with assms(3) obtain f where f: "jni_function 21 (jw_mem w) (jni_env_pointer w) = Some f"
    "(if f = 0 then Some (0, w) else je_call E f [Word (jni_env_pointer w), Word x] w) = Some (r, w')"
    by (auto simp: jni_new_global_ref_def call_jni_slot_def bind_eq_Some_conv)
  show ?thesis
  proof (cases "f = 0")
    case True
    with f assms(2) show ?thesis by simp
  next
    case nz: False
    with f assms(1,2) have "ok w' \<and> globals (jw_vm w') = (if r = 0 then globals (jw_vm w) else add_mset r (globals (jw_vm w)))"
      unfolding global_contract_def by (metis (no_types, lifting))
    then show ?thesis by simp
  qed
qed (use assms in \<open>simp add: jni_new_global_ref_def\<close>)

lemma construct_global:
  assumes "global_contract E globals ok" and "slot_apart ok storage" and "ok w" and "gr_construct E storage oop w = Some (r, w')"
  shows "ok w' \<and> globals (jw_vm w') = globals (jw_vm w) + owned1 r"
proof (cases "oop = 0")
  case False
  with assms(4) obtain x m where h: "jni_oop_handle (jw_mem w) oop storage = Some (x, m)"
    "jni_new_global_ref E x (w\<lparr>jw_heap := (jw_heap w)\<lparr>hp_mem := m\<rparr>\<rparr>) = Some (r, w')"
    by (auto simp: gr_construct_def bind_eq_Some_conv)
  have "ok (w\<lparr>jw_heap := (jw_heap w)\<lparr>hp_mem := m\<rparr>\<rparr>)"
    using h(1) assms(2,3) False by (auto simp: jni_oop_handle_def slot_apart_def bind_eq_Some_conv split: if_splits)
  from new_global [OF assms(1) this h(2)] show ?thesis by simp
qed (use assms in \<open>simp add: gr_construct_def\<close>)

lemma gr_step_owned:
  assumes "gr_step E storage (vs, w) (vs', w')" and "global_contract E globals ok" and "slot_apart ok storage" and "ok w"
    and "globals (jw_vm w) = G + owned vs"
  shows "ok w' \<and> globals (jw_vm w') = G + owned vs'"
  using assms(1)
proof cases
  case (gr_new oop h)
  with construct_global [OF assms(2-4)] assms(5) show ?thesis by (simp add: ac_simps)
next
  case (gr_pin wrapper h)
  then have "h = 0 \<and> w' = w \<or> (\<exists>oop. gr_construct E storage oop w = Some (h, w'))" by (auto simp: pin_def split: option.splits)
  with construct_global [OF assms(2-4)] assms(4,5) gr_pin show ?thesis by (auto simp: ac_simps)
next
  case (gr_moved i h rest)
  then have "h = vs ! i" "rest = 0" by (simp_all add: gr_move_def)
  with gr_moved owned_update [of i vs 0] assms(4,5) show ?thesis by (simp add: ac_simps)
next
  case (gr_assigned i j h rest)
  then obtain d: "jni_delete_global_ref E (vs ! i) w = Some w'" and h: "h = vs ! j" "rest = 0"
    by (auto simp: gr_move_assign_def bind_eq_Some_conv)
  have "owned vs = owned (vs[i := 0]) + owned1 (vs ! i)" using owned_update [of i vs 0] gr_assigned by simp
  then have "globals (jw_vm w) = G + owned (vs[i := 0]) + owned1 (vs ! i)" using assms(5) by (simp add: ac_simps)
  from delete_global [OF assms(2,4) d this] have g: "ok w'" "globals (jw_vm w') = G + owned (vs[i := 0])" by simp_all
  have "owned (vs[i := vs ! j, j := 0]) + owned1 (vs ! j) = owned (vs[i := vs ! j])"
    using owned_update [of j "vs[i := vs ! j]" 0] gr_assigned by simp
  moreover have "owned (vs[i := vs ! j]) = owned (vs[i := 0]) + owned1 (vs ! j)"
  proof -
    have z: "owned vs = owned (vs[i := 0]) + owned1 (vs ! i)" using owned_update [of i vs 0] gr_assigned by simp
    have "owned (vs[i := vs ! j]) + owned1 (vs ! i) = owned vs + owned1 (vs ! j)" using owned_update [of i vs "vs ! j"] gr_assigned by simp
    then show ?thesis unfolding z by (simp add: ac_simps)
  qed
  ultimately have "owned (vs[i := vs ! j, j := 0]) = owned (vs[i := 0])" by simp
  with g h gr_assigned show ?thesis by simp
next
  case (gr_resetted i h)
  then have d: "jni_delete_global_ref E (vs ! i) w = Some w'" "h = 0" by (auto simp: gr_reset_def bind_eq_Some_conv)
  have "owned vs = owned (vs[i := 0]) + owned1 (vs ! i)" using owned_update [of i vs 0] gr_resetted by simp
  with delete_global [OF assms(2,4) d(1), of "G + owned (vs[i := 0])"] assms(5) gr_resetted d(2) show ?thesis by (simp add: ac_simps)
next
  case (gr_gone h bs cs)
  with delete_global [OF assms(2,4), of h w' "G + owned bs + owned cs"] assms(5) show ?thesis
    by (simp add: gr_destroy_def ac_simps)
qed


text \<open>On a thread without a JNI environment the destructor calls nothing: the reference stays alive.\<close>

lemma detached_destroy_leaks: "jni_env_pointer w = 0 \<Longrightarrow> gr_destroy E h w = Some w"
  by (simp add: gr_destroy_def jni_delete_global_ref_def call_jni_slot_def jni_function_def)

section \<open>A JVM with global references\<close>

text \<open>Its table has NewGlobalRef, which gives a new handle for every call, and DeleteGlobalRef.\<close>

definition glob_mem :: mem where
  "glob_mem = image [(0x90000, 8, 0x91000), (0x910A8, 8, 0x7021), (0x910B0, 8, 0x7022)]"

definition glob_call :: "addr \<Rightarrow> jni_arg list \<Rightarrow> addr list jni_world \<Rightarrow> (u64 \<times> addr list jni_world) option" where
  "glob_call f args w =
     (if f = 0x7021 then let h = 0x6000 + 8 * of_nat (length (jw_vm w)) in
        (if h = 0 then Some (0, w) else Some (h, w\<lparr>jw_vm := h # jw_vm w\<rparr>))
      else case args of [_, Word h] \<Rightarrow> Some (0, w\<lparr>jw_vm := remove1 h (jw_vm w)\<rparr>) | _ \<Rightarrow> Some (0, w))"

definition glob_jni :: "addr list jni_env" where
  "glob_jni = \<lparr>je_heap = demo_heap_env, je_call = glob_call\<rparr>"

definition glob_ok :: "addr list jni_world \<Rightarrow> bool" where
  "glob_ok w \<longleftrightarrow> jni_env_pointer w = 0x90000 \<and> load64 (jw_mem w) 0x90000 = Some 0x91000
     \<and> load64 (jw_mem w) 0x910A8 = Some 0x7021 \<and> load64 (jw_mem w) 0x910B0 = Some 0x7022"

definition glob_world :: "mem \<Rightarrow> addr list \<Rightarrow> addr list jni_world" where
  "glob_world m hs = \<lparr>jw_heap = (demo_heap m)\<lparr>hp_threads := \<lparr>current_java_thread = 0x100000,
     current_jni_env = 0x90000, last_java_thread = 0\<rparr>\<rparr>, jw_vm = hs\<rparr>"

lemma glob_function: "glob_ok w \<Longrightarrow> jni_function 21 (jw_mem w) (jni_env_pointer w) = Some 0x7021"
  "glob_ok w \<Longrightarrow> jni_function 22 (jw_mem w) (jni_env_pointer w) = Some 0x7022"
  by (simp_all add: jni_function_def glob_ok_def)

lemma glob_contract: "global_contract glob_jni mset glob_ok"
proof -
  have k: "glob_call f args w = Some (r, w') \<Longrightarrow> glob_ok w \<Longrightarrow> glob_ok w'" for f args w r w'
    by (auto simp: glob_call_def glob_ok_def Let_def split: if_splits list.splits jni_arg.splits)
  show ?thesis unfolding global_contract_def
  proof (intro conjI allI impI)
    fix w f args r w'
    assume a: "glob_ok w" "jni_function 21 (jw_mem w) (jni_env_pointer w) = Some f" "f \<noteq> 0" "je_call glob_jni f args w = Some (r, w')"
    then have c: "glob_call 0x7021 args w = Some (r, w')" by (simp add: glob_function glob_jni_def)
    from k [OF c a(1)] show "glob_ok w'" .
    from c show "mset (jw_vm w') = (if r = 0 then mset (jw_vm w) else add_mset r (mset (jw_vm w)))"
      by (auto simp: glob_call_def Let_def split: if_splits)
  next
    fix w f h r w'
    assume a: "glob_ok w" "jni_function 22 (jw_mem w) (jni_env_pointer w) = Some f" "f \<noteq> 0"
      "je_call glob_jni f [Word (jni_env_pointer w), Word h] w = Some (r, w')"
    then have c: "glob_call 0x7022 [Word (jni_env_pointer w), Word h] w = Some (r, w')" by (simp add: glob_function glob_jni_def)
    from k [OF c a(1)] show "glob_ok w'" .
    from c show "mset (jw_vm w') = mset (jw_vm w) - {#h#}" by (auto simp: glob_call_def)
  qed (simp add: glob_function)
qed

lemma glob_apart: "slot_apart glob_ok 0x200000"
  unfolding slot_apart_def
proof (intro allI impI)
  fix w :: "addr list jni_world" and m oop assume ok: "glob_ok w" and st: "store64 (jw_mem w) 0x200000 oop = Some m"
  have "load64 m a = load64 (jw_mem w) a" if "apart 0x200000 8 a 8" for a
    by (rule load_store_apart [where 'b = 64, OF st]) (simp_all add: that)
  then have "load64 m 0x90000 = load64 (jw_mem w) 0x90000" "load64 m 0x910A8 = load64 (jw_mem w) 0x910A8"
    "load64 m 0x910B0 = load64 (jw_mem w) 0x910B0" by (simp_all add: apart_def)
  with ok show "glob_ok (w\<lparr>jw_heap := (jw_heap w)\<lparr>hp_mem := m\<rparr>\<rparr>)" by (simp add: glob_ok_def)
qed

lemma glob_world_ok: "glob_ok (glob_world glob_mem hs)"
  by (simp add: glob_ok_def glob_world_def demo_heap_def) (simp add: glob_mem_def mem_simps apart_def)


end
