(* ===== verification/Auto_Repair.thy ===== *)
theory Auto_Repair
  imports VM_Prelude
begin

text \<open>
  The watchdog thread that repairs hooks (vmhook.hpp lines 8655 to 8760) and the flags it shares
  with \<open>hook\<close> (8027) and \<open>shutdown_hooks\<close> (8771), as a step relation on a list of threads. Every
  step is one atomic access: a load or store of an atomic flag, the compare-and-exchange, taking
  or releasing \<open>g_hooked_methods_mutex\<close>. What the threads do to the registry while they hold the
  mutex is modelled in \<open>Hook_Registry\<close>; here it is one step.

  The wait on the condition variable may end at any time, because its interval may end.
\<close>

section \<open>The threads\<close>

datatype worker_pc = W_Enter | W_Wait | W_Check | W_Exit | W_Lock | W_Verify | W_Gone

datatype install_pc = I_Lock | I_Install | I_Cas | I_Check | I_Spawn | I_Fail | I_Unlock | I_Done

datatype shutdown_pc = S_Request | S_Notify | S_Spin nat | S_Lock | S_Teardown | S_Clear_Started | S_Clear_Shutdown | S_Unlock | S_Done

datatype thread_pc = Worker worker_pc | Installer install_pc | Shutdown shutdown_pc

record repair_state =
  rs_started :: bool
  rs_running :: bool
  shutdown_requested :: bool
  registry_mutex :: "nat option"
  rs_threads :: "thread_pc list"

definition goto :: "nat \<Rightarrow> thread_pc \<Rightarrow> repair_state \<Rightarrow> repair_state" where
  "goto i t s = s\<lparr>rs_threads := (rs_threads s)[i := t]\<rparr>"

definition start_thread :: "thread_pc \<Rightarrow> repair_state \<Rightarrow> repair_state" where
  "start_thread t s = s\<lparr>rs_threads := rs_threads s @ [t]\<rparr>"

text \<open>A thread that waits for the mutex has no step while another one holds it.\<close>

definition lock_then :: "nat \<Rightarrow> thread_pc \<Rightarrow> repair_state \<Rightarrow> repair_state option" where
  "lock_then i t s = (if registry_mutex s = None then Some (goto i t (s\<lparr>registry_mutex := Some i\<rparr>)) else None)"

definition unlock_then :: "nat \<Rightarrow> thread_pc \<Rightarrow> repair_state \<Rightarrow> repair_state" where
  "unlock_then i t s = goto i t (s\<lparr>registry_mutex := None\<rparr>)"

section \<open>One step of a thread\<close>

fun worker_step :: "nat \<Rightarrow> worker_pc \<Rightarrow> repair_state \<Rightarrow> repair_state option" where
  "worker_step i W_Enter s = Some (goto i (Worker W_Wait) (s\<lparr>rs_running := True\<rparr>))"
| "worker_step i W_Wait s = Some (goto i (Worker W_Check) s)"
| "worker_step i W_Check s = Some (goto i (Worker (if shutdown_requested s then W_Exit else W_Lock)) s)"
| "worker_step i W_Exit s = Some (goto i (Worker W_Gone) (s\<lparr>rs_running := False\<rparr>))"
| "worker_step i W_Lock s = lock_then i (Worker W_Verify) s"
| "worker_step i W_Verify s = Some (unlock_then i (Worker W_Wait) s)"
| "worker_step i W_Gone s = None"

text \<open>
  \<open>hook\<close> from the mutex on. \<open>throws\<close> says whether the installation, or the constructor of the
  thread, throws.
\<close>

fun install_step :: "bool \<Rightarrow> nat \<Rightarrow> install_pc \<Rightarrow> repair_state \<Rightarrow> repair_state option" where
  "install_step throws i I_Lock s = lock_then i (Installer I_Install) s"
| "install_step throws i I_Install s = Some (goto i (Installer (if throws then I_Unlock else I_Cas)) s)"
| "install_step throws i I_Cas s =
     (if rs_started s then Some (goto i (Installer I_Unlock) s)
      else Some (goto i (Installer I_Check) (s\<lparr>rs_started := True\<rparr>)))"
| "install_step throws i I_Check s = Some (goto i (Installer (if shutdown_requested s then I_Unlock else I_Spawn)) s)"
| "install_step throws i I_Spawn s =
     (if throws then Some (goto i (Installer I_Fail) s)
      else Some (start_thread (Worker W_Enter) (goto i (Installer I_Unlock) s)))"
| "install_step throws i I_Fail s = Some (goto i (Installer I_Unlock) (s\<lparr>rs_started := False\<rparr>))"
| "install_step throws i I_Unlock s = Some (unlock_then i (Installer I_Done) s)"
| "install_step throws i I_Done s = None"

definition max_spins :: nat where "max_spins = 2000"

definition spin_step :: "nat \<Rightarrow> nat \<Rightarrow> repair_state \<Rightarrow> repair_state" where
  "spin_step i spins s =
     (if rs_running s \<and> spins < max_spins then goto i (Shutdown (S_Spin (Suc spins))) s
      else goto i (Shutdown S_Lock) s)"

fun shutdown_step :: "nat \<Rightarrow> shutdown_pc \<Rightarrow> repair_state \<Rightarrow> repair_state option" where
  "shutdown_step i S_Request s = Some (goto i (Shutdown S_Notify) (s\<lparr>shutdown_requested := True\<rparr>))"
| "shutdown_step i S_Notify s = Some (goto i (Shutdown (S_Spin 0)) s)"
| "shutdown_step i (S_Spin n) s = Some (spin_step i n s)"
| "shutdown_step i S_Lock s = lock_then i (Shutdown S_Teardown) s"
| "shutdown_step i S_Teardown s = Some (goto i (Shutdown S_Clear_Started) s)"
| "shutdown_step i S_Clear_Started s = Some (goto i (Shutdown S_Clear_Shutdown) (s\<lparr>rs_started := False\<rparr>))"
| "shutdown_step i S_Clear_Shutdown s = Some (goto i (Shutdown S_Unlock) (s\<lparr>shutdown_requested := False\<rparr>))"
| "shutdown_step i S_Unlock s = Some (unlock_then i (Shutdown S_Done) s)"
| "shutdown_step i S_Done s = None"

fun thread_step :: "bool \<Rightarrow> nat \<Rightarrow> thread_pc \<Rightarrow> repair_state \<Rightarrow> repair_state option" where
  "thread_step throws i (Worker p) s = worker_step i p s"
| "thread_step throws i (Installer p) s = install_step throws i p s"
| "thread_step throws i (Shutdown p) s = shutdown_step i p s"

section \<open>All interleavings\<close>

definition repair_init :: repair_state where
  "repair_init = \<lparr>rs_started = False, rs_running = False, shutdown_requested = False,
     registry_mutex = None, rs_threads = []\<rparr>"

inductive repair_reach :: "repair_state \<Rightarrow> bool" where
  reach_init: "repair_reach repair_init"
| reach_install: "repair_reach s \<Longrightarrow> repair_reach (start_thread (Installer I_Lock) s)"
| reach_shutdown: "repair_reach s \<Longrightarrow> repair_reach (start_thread (Shutdown S_Request) s)"
| reach_step: "repair_reach s \<Longrightarrow> i < length (rs_threads s) \<Longrightarrow> thread_step throws i (rs_threads s ! i) s = Some s' \<Longrightarrow> repair_reach s'"

text \<open>A schedule names the thread of every step; a missing thread is started.\<close>

datatype event = Install | Teardown | Step nat

fun schedule :: "event list \<Rightarrow> repair_state \<Rightarrow> repair_state option" where
  "schedule [] s = Some s"
| "schedule (Install # es) s = schedule es (start_thread (Installer I_Lock) s)"
| "schedule (Teardown # es) s = schedule es (start_thread (Shutdown S_Request) s)"
| "schedule (Step i # es) s =
     (if i < length (rs_threads s) then thread_step False i (rs_threads s ! i) s \<bind> schedule es else None)"

lemma schedule_reaches: "schedule es s = Some s' \<Longrightarrow> repair_reach s \<Longrightarrow> repair_reach s'"
  by (induction es s rule: schedule.induct)
    (auto simp: bind_eq_Some_conv split: if_splits intro: reach_install reach_shutdown reach_step)

fun live_worker :: "thread_pc \<Rightarrow> bool" where
  "live_worker (Worker p) = (p \<noteq> W_Gone)"
| "live_worker _ = False"

fun finished :: "thread_pc \<Rightarrow> bool" where
  "finished (Worker p) = (p = W_Gone)"
| "finished (Installer p) = (p = I_Done)"
| "finished (Shutdown p) = (p = S_Done)"

definition late_start :: "event list" where
  "late_start = [Install] @ replicate 6 (Step 0) @ [Teardown] @ replicate 8 (Step 2)
     @ replicate 3 (Step 1) @ [Install] @ replicate 6 (Step 3) @ [Step 4]"

text \<open>A shutdown can leave a watchdog behind, so that two of them run: when it looks at the flag
  of the watchdog before a freshly started thread has set it, it does not wait, clears both
  latches, the late thread enters its loop, and the next installation starts a second one.\<close>

theorem two_watchdogs_can_run:
  "\<exists>s. repair_reach s \<and> length (filter live_worker (rs_threads s)) = 2 \<and> list_all (\<lambda>t. live_worker t \<or> finished t) (rs_threads s)
     \<and> rs_started s \<and> \<not> shutdown_requested s"
proof -
  have "schedule late_start repair_init = Some \<lparr>rs_started = True, rs_running = True, shutdown_requested = False,
      registry_mutex = None, rs_threads = [Installer I_Done, Worker W_Lock, Shutdown S_Done, Installer I_Done, Worker W_Wait]\<rparr>"
    by code_simp
  from schedule_reaches [OF this reach_init] show ?thesis by (rule exI [rotated, where x = "\<lparr>rs_started = True, rs_running = True,
      shutdown_requested = False, registry_mutex = None,
      rs_threads = [Installer I_Done, Worker W_Lock, Shutdown S_Done, Installer I_Done, Worker W_Wait]\<rparr>", OF conjI]) simp
qed

section \<open>A disciplined client\<close>

text \<open>
  The client calls \<open>shutdown_hooks\<close> from one thread at a time and only when every watchdog has
  entered its loop and none is being started, and the watchdog notices the request in time.
\<close>

fun starting :: "thread_pc \<Rightarrow> bool" where
  "starting (Worker p) = (p = W_Enter)"
| "starting (Installer p) = (p = I_Spawn)"
| "starting (Shutdown p) = False"

fun calm :: "thread_pc \<Rightarrow> repair_state \<Rightarrow> bool" where
  "calm (Shutdown S_Request) s = (\<forall>t \<in> set (rs_threads s). \<not> starting t)"
| "calm (Shutdown (S_Spin n)) s = (n < max_spins \<or> \<not> rs_running s)"
| "calm t s = True"

fun shutting_down :: "thread_pc \<Rightarrow> bool" where
  "shutting_down (Shutdown p) = (p \<noteq> S_Done)"
| "shutting_down t = False"

inductive calm_reach :: "repair_state \<Rightarrow> bool" where
  calm_init: "calm_reach repair_init"
| calm_install: "calm_reach s \<Longrightarrow> calm_reach (start_thread (Installer I_Lock) s)"
| calm_shutdown: "calm_reach s \<Longrightarrow> (\<forall>t \<in> set (rs_threads s). \<not> shutting_down t) \<Longrightarrow> calm_reach (start_thread (Shutdown S_Request) s)"
| calm_step: "calm_reach s \<Longrightarrow> i < length (rs_threads s) \<Longrightarrow> calm (rs_threads s ! i) s \<Longrightarrow>
    thread_step throws i (rs_threads s ! i) s = Some s' \<Longrightarrow> calm_reach s'"

lemma calm_reach_reach: "calm_reach s \<Longrightarrow> repair_reach s"
  by (induction rule: calm_reach.induct) (auto intro: repair_reach.intros)

text \<open>The right to run as the watchdog: passed from the installer that won the exchange to its thread.\<close>

fun token :: "thread_pc \<Rightarrow> bool" where
  "token (Worker p) = (p \<noteq> W_Gone)"
| "token (Installer p) = (p \<in> {I_Check, I_Spawn, I_Fail})"
| "token (Shutdown p) = False"

fun locked :: "thread_pc \<Rightarrow> bool" where
  "locked (Worker p) = (p = W_Verify)"
| "locked (Installer p) = (p \<notin> {I_Lock, I_Done})"
| "locked (Shutdown p) = (p \<in> {S_Teardown, S_Clear_Started, S_Clear_Shutdown, S_Unlock})"

fun entered :: "thread_pc \<Rightarrow> bool" where
  "entered (Worker p) = (p \<notin> {W_Enter, W_Gone})"
| "entered t = False"

fun waited :: "thread_pc \<Rightarrow> bool" where
  "waited (Shutdown p) = (p \<in> {S_Lock, S_Teardown, S_Clear_Started, S_Clear_Shutdown})"
| "waited t = False"

fun raised :: "thread_pc \<Rightarrow> bool" where
  "raised (Shutdown p) = (p \<notin> {S_Request, S_Unlock, S_Done})"
| "raised t = False"

definition at_most_one :: "('a \<Rightarrow> bool) \<Rightarrow> 'a list \<Rightarrow> bool" where
  "at_most_one P xs \<longleftrightarrow> (\<forall>i < length xs. \<forall>j < length xs. P (xs ! i) \<longrightarrow> P (xs ! j) \<longrightarrow> i = j)"

lemma at_most_one_filter: "at_most_one P xs \<Longrightarrow> length (filter P xs) \<le> 1"
proof (induction xs)
  case (Cons x xs)
  have tail: "at_most_one P xs" using Cons.prems by (fastforce simp: at_most_one_def)
  show ?case
  proof (cases "P x")
    case True
    with Cons.prems have "\<not> P y" if "y \<in> set xs" for y
      using that by (fastforce simp: at_most_one_def in_set_conv_nth)
    then have "filter P xs = []" by simp
    then show ?thesis by simp
  qed (use Cons.IH tail in simp)
qed simp

definition repair_ok :: "repair_state \<Rightarrow> bool" where
  "repair_ok s \<longleftrightarrow>
     at_most_one token (rs_threads s) \<and> at_most_one shutting_down (rs_threads s)
     \<and> (\<forall>i < length (rs_threads s). locked (rs_threads s ! i) \<longrightarrow> registry_mutex s = Some i)
     \<and> (\<forall>i < length (rs_threads s). token (rs_threads s ! i) \<longrightarrow> rs_started s)
     \<and> (\<forall>i < length (rs_threads s). entered (rs_threads s ! i) \<longrightarrow> rs_running s)
     \<and> (\<forall>i < length (rs_threads s). starting (rs_threads s ! i) \<longrightarrow> \<not> shutdown_requested s)
     \<and> (\<forall>i < length (rs_threads s). raised (rs_threads s ! i) \<longrightarrow> shutdown_requested s)
     \<and> (\<forall>i < length (rs_threads s). waited (rs_threads s ! i) \<longrightarrow> (\<forall>j < length (rs_threads s). \<not> live_worker (rs_threads s ! j)))"

definition others :: "nat \<Rightarrow> repair_state \<Rightarrow> (thread_pc \<Rightarrow> bool) \<Rightarrow> bool" where
  "others i s P \<longleftrightarrow> (\<forall>j < length (rs_threads s). j \<noteq> i \<longrightarrow> \<not> P (rs_threads s ! j))"

lemma token_unique:
  assumes "repair_ok s" and "i < length (rs_threads s)" and "token (rs_threads s ! i)"
  shows "others i s token" and "others i s entered" and "others i s live_worker"
proof -
  show t: "others i s token" using assms by (auto simp: repair_ok_def at_most_one_def others_def)
  have "entered t \<Longrightarrow> token t" "live_worker t \<Longrightarrow> token t" for t by (cases t; auto)+
  with t show "others i s entered" "others i s live_worker" by (auto simp: others_def)
qed

lemma shutdown_unique:
  assumes "repair_ok s" and "i < length (rs_threads s)" and "shutting_down (rs_threads s ! i)"
  shows "others i s raised"
proof -
  have "raised t \<Longrightarrow> shutting_down t" for t by (cases t) auto
  with assms show ?thesis by (auto simp: repair_ok_def at_most_one_def others_def)
qed

lemma ok_goto:
  assumes "repair_ok s" and "i < length (rs_threads s)" and "rs_threads s' = (rs_threads s)[i := t]"
    and "locked t \<Longrightarrow> registry_mutex s' = Some i" and "\<And>j. j \<noteq> i \<Longrightarrow> registry_mutex s = Some j \<Longrightarrow> registry_mutex s' = Some j"
    and "token t \<Longrightarrow> rs_started s' \<and> (token (rs_threads s ! i) \<or> others i s token)" and "rs_started s \<Longrightarrow> rs_started s' \<or> others i s token"
    and "shutting_down t \<Longrightarrow> shutting_down (rs_threads s ! i)"
    and "entered t \<Longrightarrow> rs_running s'" and "rs_running s \<Longrightarrow> rs_running s' \<or> others i s entered"
    and "starting t \<Longrightarrow> \<not> shutdown_requested s'" and "shutdown_requested s' \<Longrightarrow> shutdown_requested s \<or> others i s starting"
    and "raised t \<Longrightarrow> shutdown_requested s'" and "shutdown_requested s \<Longrightarrow> shutdown_requested s' \<or> others i s raised"
    and "waited t \<Longrightarrow> waited (rs_threads s ! i) \<or> others i s live_worker"
    and "live_worker t \<Longrightarrow> live_worker (rs_threads s ! i)" and "waited t \<Longrightarrow> \<not> live_worker t"
  shows "repair_ok s'"
proof -
  note ok = assms(1) [unfolded repair_ok_def at_most_one_def others_def] and o = others_def
  have n: "length (rs_threads s') = length (rs_threads s)" "rs_threads s' ! j = (if j = i then t else rs_threads s ! j)"
    if "j < length (rs_threads s)" for j using assms(2,3) that by auto
  have "at_most_one token (rs_threads s')" "at_most_one shutting_down (rs_threads s')"
    using ok assms(2,3,6,8) by (auto simp: at_most_one_def o nth_list_update)
  moreover have "\<forall>j < length (rs_threads s'). locked (rs_threads s' ! j) \<longrightarrow> registry_mutex s' = Some j"
    using ok assms(2-5) by (auto simp: nth_list_update)
  moreover have "\<forall>j < length (rs_threads s'). token (rs_threads s' ! j) \<longrightarrow> rs_started s'"
    using ok assms(2,3,6,7) by (auto simp: nth_list_update o)
  moreover have "\<forall>j < length (rs_threads s'). entered (rs_threads s' ! j) \<longrightarrow> rs_running s'"
    using ok assms(2,3,9,10) by (auto simp: nth_list_update o)
  moreover have "\<forall>j < length (rs_threads s'). starting (rs_threads s' ! j) \<longrightarrow> \<not> shutdown_requested s'"
    using ok assms(2,3,11,12) by (auto simp: nth_list_update o)
  moreover have "\<forall>j < length (rs_threads s'). raised (rs_threads s' ! j) \<longrightarrow> shutdown_requested s'"
    using ok assms(2,3,13,14) by (auto simp: nth_list_update o)
  moreover have "\<forall>k < length (rs_threads s'). waited (rs_threads s' ! k) \<longrightarrow> (\<forall>j < length (rs_threads s'). \<not> live_worker (rs_threads s' ! j))"
    using ok assms(2,3,15-17) by (auto simp: nth_list_update o split: if_splits)
  ultimately show ?thesis by (simp add: repair_ok_def)
qed

lemma ok_start:
  assumes "repair_ok s" and "\<not> locked t" and "token t \<Longrightarrow> rs_started s \<and> (\<forall>u \<in> set (rs_threads s). \<not> token u)"
    and "shutting_down t \<Longrightarrow> \<forall>u \<in> set (rs_threads s). \<not> shutting_down u" and "\<not> entered t" and "\<not> raised t"
    and "starting t \<Longrightarrow> \<not> shutdown_requested s" and "\<not> waited t"
    and "live_worker t \<Longrightarrow> \<forall>u \<in> set (rs_threads s). \<not> waited u"
  shows "repair_ok (start_thread t s)"
  using assms unfolding repair_ok_def start_thread_def at_most_one_def by (auto simp: nth_append less_Suc_eq)

lemma at_thread:
  assumes "repair_ok s" and "i < length (rs_threads s)"
  shows "locked (rs_threads s ! i) \<Longrightarrow> registry_mutex s = Some i" and "token (rs_threads s ! i) \<Longrightarrow> rs_started s"
    and "entered (rs_threads s ! i) \<Longrightarrow> rs_running s" and "starting (rs_threads s ! i) \<Longrightarrow> \<not> shutdown_requested s"
    and "raised (rs_threads s ! i) \<Longrightarrow> shutdown_requested s" and "waited (rs_threads s ! i) \<Longrightarrow> others i s live_worker"
  using assms by (auto simp: repair_ok_def others_def)

lemmas step_defs = goto_def lock_then_def unlock_then_def spin_step_def

lemma worker_ok:
  assumes "repair_ok s" and "i < length (rs_threads s)" and "rs_threads s ! i = Worker p" and "worker_step i p s = Some s'"
  shows "repair_ok s'"
proof (cases p)
  case W_Gone
  with assms(4) show ?thesis by simp
next
  case W_Enter
  show ?thesis
    by (rule ok_goto [OF assms(1,2), where t = "Worker W_Wait"]) (use assms(3,4) W_Enter at_thread [OF assms(1,2)] in \<open>auto simp: step_defs split: if_splits\<close>)
next
  case W_Wait
  show ?thesis
    by (rule ok_goto [OF assms(1,2), where t = "Worker W_Check"]) (use assms(3,4) W_Wait at_thread [OF assms(1,2)] in \<open>auto simp: step_defs split: if_splits\<close>)
next
  case W_Check
  show ?thesis
    by (rule ok_goto [OF assms(1,2), where t = "Worker (if shutdown_requested s then W_Exit else W_Lock)"]) (use assms(3,4) W_Check at_thread [OF assms(1,2)] in \<open>auto simp: step_defs split: if_splits\<close>)
next
  case W_Exit
  show ?thesis
    by (rule ok_goto [OF assms(1,2), where t = "Worker W_Gone"]) (use assms(3,4) W_Exit token_unique [OF assms(1,2)] in \<open>auto simp: step_defs split: if_splits\<close>)
next
  case W_Lock
  show ?thesis
    by (rule ok_goto [OF assms(1,2), where t = "Worker W_Verify"]) (use assms(3,4) W_Lock at_thread [OF assms(1,2)] in \<open>auto simp: step_defs split: if_splits\<close>)
next
  case W_Verify
  show ?thesis
    by (rule ok_goto [OF assms(1,2), where t = "Worker W_Wait"]) (use assms(3,4) W_Verify at_thread [OF assms(1,2)] in \<open>auto simp: step_defs split: if_splits\<close>)
qed

lemma others_untaken:
  assumes "repair_ok s" and "\<not> rs_started s"
  shows "others i s token"
  using assms by (auto simp: repair_ok_def others_def)

lemma installer_ok:
  assumes "repair_ok s" and "i < length (rs_threads s)" and "rs_threads s ! i = Installer p" and "install_step throws i p s = Some s'"
  shows "repair_ok s'"
proof (cases p)
  case I_Done
  with assms(4) show ?thesis by simp
next
  case I_Spawn
  show ?thesis
  proof (cases throws)
    case True
    show ?thesis
      by (rule ok_goto [OF assms(1,2), where t = "Installer I_Fail"])
        (use assms(3,4) I_Spawn True at_thread [OF assms(1,2)] in \<open>auto simp: step_defs\<close>)
  next
    case False
    let ?s = "goto i (Installer I_Unlock) s"
    have f: "rs_started s" "\<not> shutdown_requested s" using at_thread [OF assms(1,2)] assms(3) I_Spawn by simp_all
    have ok: "repair_ok ?s"
      by (rule ok_goto [OF assms(1,2), where t = "Installer I_Unlock"])
        (use assms(3) I_Spawn at_thread [OF assms(1,2)] in \<open>auto simp: step_defs\<close>)
    have "\<not> token (rs_threads ?s ! k)" if "k < length (rs_threads s)" for k
      using token_unique(1) [OF assms(1,2)] assms(2,3) I_Spawn that by (cases "k = i") (simp_all add: goto_def others_def)
    then have n: "\<forall>u \<in> set (rs_threads ?s). \<not> token u" by (auto simp: goto_def in_set_conv_nth)
    have "waited u \<Longrightarrow> raised u" for u by (cases u) auto
    then have "\<forall>u \<in> set (rs_threads ?s). \<not> waited u"
      using ok f(2) by (fastforce simp: repair_ok_def goto_def in_set_conv_nth)
    with n f have "repair_ok (start_thread (Worker W_Enter) ?s)"
      by (intro ok_start [OF ok]) (auto simp: goto_def)
    with assms(4) I_Spawn False show ?thesis by simp
  qed
next
  case I_Lock
  show ?thesis
    by (rule ok_goto [OF assms(1,2), where t = "Installer I_Install"]) (use assms(3,4) I_Lock at_thread [OF assms(1,2)] in \<open>auto simp: step_defs split: if_splits\<close>)
next
  case I_Install
  show ?thesis
    by (rule ok_goto [OF assms(1,2), where t = "Installer (if throws then I_Unlock else I_Cas)"]) (use assms(3,4) I_Install at_thread [OF assms(1,2)] in \<open>auto simp: step_defs split: if_splits\<close>)
next
  case I_Cas
  show ?thesis
    by (rule ok_goto [OF assms(1,2), where t = "Installer (if rs_started s then I_Unlock else I_Check)"]) (use assms(3,4) I_Cas at_thread [OF assms(1,2)] others_untaken [OF assms(1), of i] in \<open>auto simp: step_defs split: if_splits\<close>)
next
  case I_Check
  show ?thesis
    by (rule ok_goto [OF assms(1,2), where t = "Installer (if shutdown_requested s then I_Unlock else I_Spawn)"]) (use assms(3,4) I_Check at_thread [OF assms(1,2)] in \<open>auto simp: step_defs split: if_splits\<close>)
next
  case I_Fail
  show ?thesis
    by (rule ok_goto [OF assms(1,2), where t = "Installer I_Unlock"]) (use assms(3,4) I_Fail at_thread [OF assms(1,2)] token_unique [OF assms(1,2)] in \<open>auto simp: step_defs split: if_splits\<close>)
next
  case I_Unlock
  show ?thesis
    by (rule ok_goto [OF assms(1,2), where t = "Installer I_Done"]) (use assms(3,4) I_Unlock at_thread [OF assms(1,2)] in \<open>auto simp: step_defs split: if_splits\<close>)
qed

lemma nobody_alive:
  assumes "repair_ok s" and "\<not> rs_running s" and "shutdown_requested s"
  shows "others i s live_worker"
proof -
  have "live_worker u \<Longrightarrow> entered u \<or> starting u" for u by (cases u) auto
  with assms show ?thesis unfolding repair_ok_def others_def by blast
qed

lemma locked_unique:
  assumes "repair_ok s" and "j < length (rs_threads s)" and "i < length (rs_threads s)"
    and "locked (rs_threads s ! j)" and "locked (rs_threads s ! i)"
  shows "j = i"
  using at_thread(1) [OF assms(1,2,4)] at_thread(1) [OF assms(1,3,5)] by simp

lemma nobody_holds_token:
  assumes "repair_ok s" and "i < length (rs_threads s)" and "waited (rs_threads s ! i)" and "locked (rs_threads s ! i)"
  shows "others i s token"
proof -
  have "token u \<Longrightarrow> live_worker u \<or> locked u" for u by (cases u) auto
  moreover have "others i s live_worker" using at_thread(6) [OF assms(1-3)] .
  moreover have "j = i" if "j < length (rs_threads s)" "locked (rs_threads s ! j)" for j
    using locked_unique [OF assms(1) that(1) assms(2) that(2) assms(4)] .
  ultimately show ?thesis unfolding others_def by blast
qed

lemma shutdown_ok:
  assumes "repair_ok s" and "i < length (rs_threads s)" and "rs_threads s ! i = Shutdown p" and "shutdown_step i p s = Some s'"
    and "calm (Shutdown p) s"
  shows "repair_ok s'"
proof (cases p)
  case S_Done
  with assms(4) show ?thesis by simp
next
  case S_Request
  then have "others i s starting" using assms(5) by (auto simp: others_def)
  then show ?thesis
    by (intro ok_goto [OF assms(1,2), where t = "Shutdown S_Notify"]) (use assms(3,4) S_Request in \<open>auto simp: step_defs\<close>)
next
  case (S_Spin n)
  have r: "shutdown_requested s" using at_thread(5) [OF assms(1,2)] assms(3) S_Spin by simp
  show ?thesis
  proof (cases "rs_running s \<and> n < max_spins")
    case True
    show ?thesis
      by (rule ok_goto [OF assms(1,2), where t = "Shutdown (S_Spin (Suc n))"]) (use assms(3,4) S_Spin True r in \<open>auto simp: step_defs\<close>)
  next
    case False
    then have "\<not> rs_running s" using assms(5) S_Spin by auto
    from nobody_alive [OF assms(1) this r, of i] show ?thesis
      by (intro ok_goto [OF assms(1,2), where t = "Shutdown S_Lock"]) (use assms(3,4) S_Spin False r in \<open>auto simp: step_defs\<close>)
  qed
next
  case S_Notify
  show ?thesis
    by (rule ok_goto [OF assms(1,2), where t = "Shutdown (S_Spin 0)"]) (use assms(3,4) S_Notify at_thread [OF assms(1,2)] in \<open>auto simp: step_defs split: if_splits\<close>)
next
  case S_Lock
  show ?thesis
    by (rule ok_goto [OF assms(1,2), where t = "Shutdown S_Teardown"]) (use assms(3,4) S_Lock at_thread [OF assms(1,2)] in \<open>auto simp: step_defs split: if_splits\<close>)
next
  case S_Teardown
  show ?thesis
    by (rule ok_goto [OF assms(1,2), where t = "Shutdown S_Clear_Started"]) (use assms(3,4) S_Teardown at_thread [OF assms(1,2)] in \<open>auto simp: step_defs split: if_splits\<close>)
next
  case S_Clear_Started
  show ?thesis
    by (rule ok_goto [OF assms(1,2), where t = "Shutdown S_Clear_Shutdown"]) (use assms(3,4) S_Clear_Started at_thread [OF assms(1,2)] nobody_holds_token [OF assms(1,2)] in \<open>auto simp: step_defs split: if_splits\<close>)
next
  case S_Clear_Shutdown
  show ?thesis
    by (rule ok_goto [OF assms(1,2), where t = "Shutdown S_Unlock"]) (use assms(3,4) S_Clear_Shutdown at_thread [OF assms(1,2)] shutdown_unique [OF assms(1,2)] in \<open>auto simp: step_defs split: if_splits\<close>)
next
  case S_Unlock
  show ?thesis
    by (rule ok_goto [OF assms(1,2), where t = "Shutdown S_Done"]) (use assms(3,4) S_Unlock at_thread [OF assms(1,2)] in \<open>auto simp: step_defs split: if_splits\<close>)
qed

lemma calm_reach_ok: "calm_reach s \<Longrightarrow> repair_ok s"
proof (induction rule: calm_reach.induct)
  case calm_init
  show ?case by (simp add: repair_ok_def repair_init_def at_most_one_def)
next
  case (calm_install s)
  then show ?case by (intro ok_start) simp_all
next
  case (calm_shutdown s)
  then show ?case by (intro ok_start) simp_all
next
  case (calm_step s i throws s')
  show ?case
  proof (cases "rs_threads s ! i")
    case (Worker p)
    with calm_step.hyps(4) have "worker_step i p s = Some s'" by simp
    from worker_ok [OF calm_step.IH calm_step.hyps(2) Worker this] show ?thesis .
  next
    case (Installer p)
    with calm_step.hyps(4) have "install_step throws i p s = Some s'" by simp
    from installer_ok [OF calm_step.IH calm_step.hyps(2) Installer this] show ?thesis .
  next
    case (Shutdown p)
    with calm_step.hyps(3,4) have "shutdown_step i p s = Some s'" "calm (Shutdown p) s" by simp_all
    from shutdown_ok [OF calm_step.IH calm_step.hyps(2) Shutdown this] show ?thesis .
  qed
qed

text \<open>C21. Under a disciplined client the watchdog is unique over any number of installations and
  shutdowns, in every interleaving: at most one watchdog thread is alive, one that has entered its
  loop is announced by its flag, no two threads are inside the registry's mutex, and while a
  shutdown deletes the trampolines no watchdog is alive at all.\<close>

theorem one_watchdog_invariant:
  assumes "calm_reach s"
  shows "length (filter live_worker (rs_threads s)) \<le> 1 \<and> length (filter locked (rs_threads s)) \<le> 1
     \<and> (\<forall>t \<in> set (rs_threads s). entered t \<longrightarrow> rs_running s)
     \<and> (Shutdown S_Teardown \<in> set (rs_threads s) \<longrightarrow> filter live_worker (rs_threads s) = [])"
proof -
  note ok = calm_reach_ok [OF assms]
  have lt: "live_worker t \<Longrightarrow> token t" for t by (cases t) auto
  have "at_most_one token (rs_threads s)" using ok by (simp add: repair_ok_def)
  with lt have "at_most_one live_worker (rs_threads s)" by (auto simp: at_most_one_def)
  moreover have "at_most_one locked (rs_threads s)" using locked_unique [OF ok] by (simp add: at_most_one_def)
  ultimately have "length (filter live_worker (rs_threads s)) \<le> 1 \<and> length (filter locked (rs_threads s)) \<le> 1"
    using at_most_one_filter by blast
  moreover have "\<forall>t \<in> set (rs_threads s). entered t \<longrightarrow> rs_running s"
    using at_thread(3) [OF ok] by (auto simp: in_set_conv_nth)
  moreover have "filter live_worker (rs_threads s) = []" if td: "Shutdown S_Teardown \<in> set (rs_threads s)"
  proof -
    from td obtain i where i: "i < length (rs_threads s)" "rs_threads s ! i = Shutdown S_Teardown" by (auto simp: in_set_conv_nth)
    then have "others i s live_worker" using at_thread(6) [OF ok i(1)] by simp
    with i have "\<not> live_worker (rs_threads s ! j)" if "j < length (rs_threads s)" for j
      using that by (cases "j = i") (simp_all add: others_def)
    then show ?thesis by (auto simp: filter_empty_conv in_set_conv_nth)
  qed
  ultimately show ?thesis by blast
qed

text \<open>A disciplined schedule: one watchdog enters, is asked to leave, and leaves before the teardown.\<close>

fun calm_schedule :: "event list \<Rightarrow> repair_state \<Rightarrow> repair_state option" where
  "calm_schedule [] s = Some s"
| "calm_schedule (Install # es) s = calm_schedule es (start_thread (Installer I_Lock) s)"
| "calm_schedule (Teardown # es) s =
     (if list_all (\<lambda>t. \<not> shutting_down t) (rs_threads s) then calm_schedule es (start_thread (Shutdown S_Request) s) else None)"
| "calm_schedule (Step i # es) s =
     (if i < length (rs_threads s) \<and> calm (rs_threads s ! i) s
      then thread_step False i (rs_threads s ! i) s \<bind> calm_schedule es else None)"

lemma calm_schedule_reaches: "calm_schedule es s = Some s' \<Longrightarrow> calm_reach s \<Longrightarrow> calm_reach s'"
  by (induction es s rule: calm_schedule.induct)
    (auto simp: bind_eq_Some_conv list_all_iff split: if_splits intro: calm_install calm_shutdown calm_step)

definition orderly_stop :: "event list" where
  "orderly_stop = [Install] @ replicate 6 (Step 0) @ [Step 1, Teardown] @ replicate 3 (Step 2) @ replicate 3 (Step 1)
     @ replicate 2 (Step 2)"

lemma one_watchdog_invariant_witness:
  "\<exists>s. calm_schedule orderly_stop repair_init = Some s \<and> Shutdown S_Teardown \<in> set (rs_threads s)
     \<and> filter live_worker (rs_threads s) = []"
proof -
  let ?s = "\<lparr>rs_started = True, rs_running = False, shutdown_requested = True, registry_mutex = Some 2,
     rs_threads = [Installer I_Done, Worker W_Gone, Shutdown S_Teardown]\<rparr>"
  have r: "calm_schedule orderly_stop repair_init = Some ?s" by code_simp
  from one_watchdog_invariant [OF calm_schedule_reaches [OF r calm_init]] r show ?thesis by auto
qed

end
