(* ===== verification/Hook_Lifecycle.thy ===== *)
theory Hook_Lifecycle
  imports Hook_Registry
begin

text \<open>
  The life of one hook: its handle \<open>hook_handle\<close> (vmhook.hpp line 7220) and \<open>scoped_hook\<close> (9001),
  and what holds from a successful \<open>hook\<close> on until the handle stops it.
\<close>

section \<open>Handles of single hooks\<close>

text \<open>A \<open>hook_handle\<close> is its Method pointer or null; the new values of the target and of the source.\<close>

definition hh_move :: "addr \<Rightarrow> addr \<times> addr" where
  "hh_move other = (other, 0)"

definition hh_move_assign :: "env \<Rightarrow> addr \<Rightarrow> addr \<Rightarrow> vmhook \<Rightarrow> (addr \<times> addr \<times> vmhook) option" where
  "hh_move_assign E this other s = do { (_, s) \<leftarrow> hook_handle_stop E this s; Some (other, 0, s) }"

definition hh_installed :: "addr \<Rightarrow> bool" where
  "hh_installed h \<longleftrightarrow> h \<noteq> 0"

definition scoped_hook :: "env \<Rightarrow> nat \<Rightarrow> string \<Rightarrow> string \<Rightarrow> nat \<Rightarrow> vmhook \<Rightarrow> (addr \<times> vmhook) option" where
  "scoped_hook E type_id method_name method_signature detour s = do {
     (ok, s) \<leftarrow> hook E type_id method_name method_signature detour s;
     if \<not> ok then Some (0, s)
     else case Mapping.lookup (type_to_class_map s) type_id of None \<Rightarrow> Some (0, s)
       | Some class_name \<Rightarrow> do {
           (k, s) \<leftarrow> vh_find_class E class_name s;
           if k = 0 then Some (0, s)
           else do {
             found \<leftarrow> find_method (en_jvm E) (vh_mem s) k method_name method_signature;
             Some (case found of None \<Rightarrow> 0 | Some mth \<Rightarrow> mth, s) } } }"

section \<open>An installed hook\<close>

text \<open>The lookup of the method that \<open>hook\<close> and \<open>scoped_hook\<close> both make.\<close>

definition resolve_method :: "env \<Rightarrow> nat \<Rightarrow> string \<Rightarrow> string \<Rightarrow> vmhook \<Rightarrow> (addr \<times> vmhook) option" where
  "resolve_method E type_id name sig s =
     (case Mapping.lookup (type_to_class_map s) type_id of None \<Rightarrow> Some (0, s)
      | Some class_name \<Rightarrow> do {
          (k, s) \<leftarrow> vh_find_class E class_name s;
          if k = 0 then Some (0, s)
          else do {
            found \<leftarrow> find_method (en_jvm E) (vh_mem s) k name sig;
            Some (case found of None \<Rightarrow> 0 | Some mth \<Rightarrow> mth, s) } })"

lemma resolve_cases:
  assumes "resolve_method E t name sig s = Some (mth, s1)" and "mth \<noteq> 0"
  obtains cn k where "Mapping.lookup (type_to_class_map s) t = Some cn" and "vh_find_class E cn s = Some (k, s1)" and "k \<noteq> 0"
    and "find_method (en_jvm E) (vh_mem s1) k name sig = Some (Some mth)"
proof (cases "Mapping.lookup (type_to_class_map s) t")
  case None
  with assms show ?thesis by (simp add: resolve_method_def)
next
  case (Some cn)
  show ?thesis
  proof (cases "vh_find_class E cn s")
    case None
    with Some assms(1) show ?thesis by (simp add: resolve_method_def)
  next
    case (Some p)
    obtain k s2 where v: "vh_find_class E cn s = Some (k, s2)" using Some by (cases p) simp
    have r: "resolve_method E t name sig s = (if k = 0 then Some (0, s2) else do {
        found \<leftarrow> find_method (en_jvm E) (vh_mem s2) k name sig;
        Some (case found of None \<Rightarrow> 0 | Some mth \<Rightarrow> mth, s2) })"
      using \<open>Mapping.lookup (type_to_class_map s) t = Some cn\<close> v by (simp add: resolve_method_def)
    with assms have k: "k \<noteq> 0" by auto
    show ?thesis
    proof (cases "find_method (en_jvm E) (vh_mem s2) k name sig")
      case None
      with r assms(1) k show ?thesis by simp
    next
      case (Some f)
      with r assms k have "f = Some mth" "s2 = s1" by (cases f; simp)+
      with that \<open>Mapping.lookup (type_to_class_map s) t = Some cn\<close> v k Some show ?thesis by blast
    qed
  qed
qed

lemma hook_resolved:
  assumes "resolve_method E t name sig s = Some (mth, s1)" and "mth \<noteq> 0"
  shows "\<exists>cn. Mapping.lookup (type_to_class_map s) t = Some cn \<and> hook E t name sig d s = install E mth d cn name s1"
  by (rule resolve_cases [OF assms]) (use assms(2) in \<open>simp add: hook_def\<close>)

lemma resolve_registry:
  assumes "resolve_method E t name sig s = Some (mth, s1)" and "mth \<noteq> 0"
  shows "same_registry s s1"
  by (rule resolve_cases [OF assms]) (use vh_find_class_registry in blast)

lemma scoped_resolved:
  assumes "hook E t name sig d s = Some (True, s1)" and "resolve_method E t name sig s1 = Some (mth, s2)" and "mth \<noteq> 0"
  shows "scoped_hook E t name sig d s = Some (mth, s2)"
  by (rule resolve_cases [OF assms(2,3)]) (use assms(1) in \<open>simp add: scoped_hook_def\<close>)

lemma install_new_entry:
  assumes "install E mth d cn mn s = Some (True, s')" and "\<forall>h \<in> set (g_hooked_methods s). hm_method h \<noteq> mth"
  shows "\<exists>e i2i s1. g_hooked_methods s' = g_hooked_methods s @ [e] \<and> hm_method e = mth \<and> hm_detour e = d
     \<and> hm_expected_class_name e = cn \<and> hm_expected_method_name e = mn
     \<and> g_shutdown_requested s' = g_shutdown_requested s
     \<and> mark_method E mth s = Some (True, s1) \<and> get_i2i_entry (en_jvm E) (vh_mem s1) mth = Some i2i
     \<and> (\<exists>p \<in> set (g_hooked_i2i_entries s'). ih_i2i_entry p = i2i)"
proof -
  have no: "\<not> (\<exists>h \<in> set (g_hooked_methods s). hm_method h = mth)" using assms(2) by blast
  from assms(1) no obtain s1 i2i e s2 where mk: "mark_method E mth s = Some (True, s1)"
    and i: "get_i2i_entry (en_jvm E) (vh_mem s1) mth = Some i2i" and e: "new_entry E (vh_mem s1) mth d cn mn = Some e"
    and p: "patch_i2i E i2i (s1\<lparr>g_hooked_methods := g_hooked_methods s1 @ [e]\<rparr>) = Some (True, s2)"
    and rest: "(if hm_was_compiled e then hook_deopt E mth i2i s2 else Some s2) \<bind> (\<lambda>s. Some (True, ensure_started s)) = Some (True, s')"
    by (auto simp: install_def Let_def split: bind_splits if_splits)
  have r1: "same_registry s s1" by (rule mark_method_registry [OF mk])
  obtain s3 where s3: "same_registry s2 s3" "s' = ensure_started s3"
  proof (cases "hm_was_compiled e")
    case True
    with rest obtain s3 where "hook_deopt E mth i2i s2 = Some s3" "s' = ensure_started s3" by (auto simp: bind_eq_Some_conv)
    with hook_deopt_registry that show ?thesis by blast
  next
    case False
    with rest that [of s2] show ?thesis by simp
  qed
  from patch_i2i_cases [OF p] have p2: "g_hooked_methods s2 = g_hooked_methods s1 @ [e]" "g_shutdown_requested s2 = g_shutdown_requested s1"
    "\<exists>q \<in> set (g_hooked_i2i_entries s2). ih_i2i_entry q = i2i"
    by (auto simp: same_registry_def)
  from new_entry_method [OF e] r1 s3 p2 mk i show ?thesis
    by (auto simp: same_registry_def ensure_started_def)
qed

lemma find_last: "\<forall>x \<in> set xs. \<not> P x \<Longrightarrow> P y \<Longrightarrow> find P (xs @ [y]) = Some y"
  by (induction xs) auto

text \<open>A hook that was installed fires: after a successful installation on a method that no other
  hook holds, the method's stub has a patch in the registry, and every frame of the method runs the
  new detour, after which the thread is set back to the state in which it runs Java code.\<close>

theorem installed_hook_fires:
  assumes "hook E t name sig d s0 = Some (True, s')" and "resolve_method E t name sig s0 = Some (mth, s)" and "mth \<noteq> 0"
    and "\<forall>h \<in> set (g_hooked_methods s0). hm_method h \<noteq> mth" and "\<not> g_shutdown_requested s0" and "is_valid_pointer thread" and "frame_get_method (vh_mem s') fr = Some mth"
  shows "(\<exists>s1 i2i. mark_method E mth s = Some (True, s1) \<and> get_i2i_entry (en_jvm E) (vh_mem s1) mth = Some i2i
       \<and> (\<exists>p \<in> set (g_hooked_i2i_entries s'). ih_i2i_entry p = i2i))
     \<and> (\<forall>run slot. common_detour E run fr thread slot s' = do {
          s2 \<leftarrow> run d fr thread slot s';
          m \<leftarrow> set_thread_state (en_jvm E) (vh_mem s2) thread thread_in_Java;
          Some (Some d, s2\<lparr>vh_mem := m\<rparr>) })"
proof -
  have r: "same_registry s0 s" by (rule resolve_registry [OF assms(2,3)])
  obtain cn where "hook E t name sig d s0 = install E mth d cn name s" using hook_resolved [OF assms(2,3)] by blast
  then have i: "install E mth d cn name s = Some (True, s')" using assms(1) by simp
  have n: "\<forall>h \<in> set (g_hooked_methods s). hm_method h \<noteq> mth" using assms(4) r by (simp add: same_registry_def)
  from install_new_entry [OF i n] obtain e i2i s1 where e: "g_hooked_methods s' = g_hooked_methods s @ [e]"
    "hm_method e = mth" "hm_detour e = d" "g_shutdown_requested s' = g_shutdown_requested s"
    and p: "mark_method E mth s = Some (True, s1)" "get_i2i_entry (en_jvm E) (vh_mem s1) mth = Some i2i"
      "\<exists>p \<in> set (g_hooked_i2i_entries s'). ih_i2i_entry p = i2i" by blast
  have "find (\<lambda>h. hm_method h = mth) (g_hooked_methods s') = Some e"
    unfolding e(1) by (rule find_last) (use n e(2) in auto)
  with e assms(5-7) r valid_not_null [OF assms(6)] have "common_detour E run fr thread slot s' = do {
          s2 \<leftarrow> run d fr thread slot s';
          m \<leftarrow> set_thread_state (en_jvm E) (vh_mem s2) thread thread_in_Java;
          Some (Some d, s2\<lparr>vh_mem := m\<rparr>) }" for run slot
    by (simp add: common_detour_def same_registry_def)
  with p show ?thesis by blast
qed

text \<open>A process in which an installation succeeds: the class A has one method at 0x50000, whose stub
  starts with the injection point; the page behind the stub is free, and a frame at 0x80000 runs the
  method.\<close>

definition life_jvm :: jvm where
  "life_jvm = reg_class_jvm\<lparr>proc_maps := [Some \<lparr>ml_begin = 0x10000, ml_end = 0x60001, ml_perms = ''r-xp''\<rparr>]\<rparr>"

definition life_env :: env where
  "life_env = \<lparr>en_jvm = life_jvm, en_os = demo_os 0x61000, en_jni_find = (\<lambda>_. 0), en_common_detour = 0x500000\<rparr>"

definition life_mem :: mem where
  "life_mem = image [(0x50030, 8, 0x60000), (0x60000, 8, 0x050403020187C641), (0x23010, 8, 0x24000), (0x24000, 8, 1),
     (0x24008, 2, 1), (0x2400A, 1, 65), (0x23020, 8, 0x25000), (0x25000, 4, 1), (0x25008, 8, 0x50000), (0x7FFE8, 8, 0x50000)]"

definition life_state :: "mem \<Rightarrow> hooked_method list \<Rightarrow> i2i_hook_data list \<Rightarrow> vmhook" where
  "life_state m hms ds = \<lparr>vh_mem = m, vh_classes = \<lparr>klass_lookup_cache = Mapping.update ''A'' 0x23000 Mapping.empty, host_classloader_klass = 0\<rparr>,
     type_to_class_map = Mapping.update 1 ''A'' Mapping.empty, g_hooked_methods = hms, g_hooked_i2i_entries = ds,
     vh_locals_offset = default_locals_offset, vh_cached_adapter_offset = 0, g_shutdown_requested = False, g_started = False\<rparr>"

lemma life_sel [simp]: "vh_mem (life_state m hms ds) = m" "g_hooked_methods (life_state m hms ds) = hms"
  "g_hooked_i2i_entries (life_state m hms ds) = ds" "vh_locals_offset (life_state m hms ds) = default_locals_offset"
  "g_shutdown_requested (life_state m hms ds) = False" "type_to_class_map (life_state m hms ds) = Mapping.update 1 ''A'' Mapping.empty"
  "(life_state m hms ds)\<lparr>vh_mem := m'\<rparr> = life_state m' hms ds" "(life_state m hms ds)\<lparr>g_hooked_methods := hms'\<rparr> = life_state m hms' ds"
  "(life_state m hms ds)\<lparr>vh_locals_offset := default_locals_offset\<rparr> = life_state m hms ds"
  by (simp_all add: life_state_def)

lemma life_structs [simp]:
  "vm_struct life_jvm ''Method'' ''_constMethod'' = Some (entry_named ''Method'' ''_constMethod'' 8)"
  "vm_struct life_jvm ''Method'' ''_i2i_entry'' = Some (entry_named ''Method'' ''_i2i_entry'' 0x30)"
  "vm_struct life_jvm ''Method'' ''_from_interpreted_entry'' = Some (entry_named ''Method'' ''_from_interpreted_entry'' 0x38)"
  "vm_struct life_jvm ''Method'' ''_code'' = Some (entry_named ''Method'' ''_code'' 0x40)"
  "from_compiled_struct life_jvm = Some (entry_named ''Method'' ''_from_compiled_entry'' 0x48)"
  "vm_struct life_jvm ''JavaThread'' ''_thread_state'' = Some (entry_named ''JavaThread'' ''_thread_state'' 0x100)"
  "get_flags life_jvm q = q + 0x2E" "get_access_flags life_jvm q = q + 0x28"
  by (simp_all add: life_jvm_def reg_class_jvm_def reg_demo_jvm_def iterate_struct_entries_def from_compiled_struct_def get_flags_def
      get_access_flags_def entry_named_def)

lemmas life_tables = life_jvm_def reg_class_jvm_def reg_demo_jvm_def iterate_struct_entries_def entry_named_def

lemma life_en [simp]: "en_jvm life_env = life_jvm" "en_os life_env = demo_os 0x61000"
  by (simp_all add: life_env_def)

lemma life_class_loads:
  "load64 life_mem 0x23010 = Some 0x24000" "load64 life_mem 0x24000 = Some 1" "load16 life_mem 0x24008 = Some 1"
  "load64 life_mem 0x23020 = Some 0x25000" "load32 life_mem 0x25000 = Some 1" "load64 life_mem 0x25008 = Some 0x50000"
  "load64 life_mem 0x50008 = Some 0"
  by (simp_all add: life_mem_def mem_simps apart_def)

lemma life_loads:
  "load64 (reg_marked life_mem) 0x50030 = Some 0x60000" "load64 (reg_marked life_mem) 0x50040 = Some 0"
  "load64 (reg_marked life_mem) 0x50038 = Some 0" "load64 (reg_marked life_mem) 0x50048 = Some 0"
  "load64 (reg_marked life_mem) 0x50008 = Some 0" "load64 (reg_marked life_mem) 0x7FFE8 = Some 0x50000"
  by (simp_all add: reg_marked_def life_mem_def mem_simps apart_def)

lemma life_resolve: "resolve_method life_env 1 [] [] (life_state life_mem hms ds) = Some (0x50000, life_state life_mem hms ds)"
proof -
  have "klass_get_name life_jvm life_mem 0x23000 = 0x24000"
    by (simp add: klass_get_name_def life_tables safe_read_pointer_aligned ptr_eval Let_def life_class_loads)
  moreover have "life_mem 0x2400A = Some 65" by (simp add: life_mem_def put_def ram_def)
  then have "symbol_to_string life_jvm life_mem 0x24000 = Some ''A''"
    by (simp add: symbol_to_string_def life_tables safe_read_pointer_aligned ptr_eval chars_of_bytes_def char_of_def bit_0 Let_def
        life_class_loads)
  ultimately have c: "vh_find_class life_env ''A'' (life_state life_mem hms ds) = Some (0x23000, life_state life_mem hms ds)"
    by (simp add: vh_find_class_def find_class_def cached_klass_ok_def ptr_eval life_state_def)
  have "method_get_name life_jvm life_mem 0x50000 = Some []"
    by (simp add: method_get_name_def get_const_method_def ptr_eval life_class_loads)
  moreover have "klass_methods_array life_jvm life_mem 0x23000 = Some 0x25000"
    by (simp add: klass_methods_array_def life_tables ptr_eval life_class_loads)
  ultimately have "find_method life_jvm life_mem 0x23000 [] [] = Some (Some 0x50000)"
    by (simp add: find_method_def get_methods_count_def get_methods_ptr_def life_class_loads ptr_eval)
  with c show ?thesis by (simp add: resolve_method_def)
qed

lemma life_mark: "mark_method life_env 0x50000 (life_state life_mem hms ds) = Some (True, life_state (reg_marked life_mem) hms ds)"
  by (simp add: mark_method_def set_dont_inline_def arm_no_compile_def store_le_put life_mem_def reg_marked_def mem_simps apart_def)

lemma life_code: "reg_marked life_mem 0x60000 = Some 0x41" "reg_marked life_mem 0x60001 = Some 0xC6" "reg_marked life_mem 0x60002 = Some 0x87"
proof -
  have "le_of_word 8 (0x050403020187C641 :: u64) = [0x41, 0xC6, 0x87, 1, 2, 3, 4, 5]" by code_simp
  then show "reg_marked life_mem 0x60000 = Some 0x41" "reg_marked life_mem 0x60001 = Some 0xC6" "reg_marked life_mem 0x60002 = Some 0x87"
    by (simp_all add: reg_marked_def life_mem_def put_def ram_def)
qed

lemma life_location: "find_hook_location life_jvm (reg_marked life_mem) lo 0x60000 = Some (0x60000, lo)"
proof -
  have "find_stub_size life_jvm 0x60000 = 1"
    by (simp add: find_stub_size_def life_jvm_def query_region_def empty_region_def)
  then show ?thesis by (simp add: find_hook_location_def pattern_full_def pattern_fallback_def life_code)
qed

lemma life_alloc:
  "allocate_nearby_memory (os_page_size (demo_os 0x61000)) (proc_maps life_jvm)
     (os_allocate_rwx (demo_os 0x61000)) 0x60000 total_size = Some 0x61000"
  by (simp add: allocate_nearby_memory_def life_jvm_def demo_os_def total_size_def layout_consts
      search_min_def search_max_def relative_limit_def minimum_application_address_def user_address_ceiling_def
      nearby_walk.simps query_region_def empty_region_def try_allocate_in_region_def align_up_def align_down_def)

lemma life_room: "room_for (demo_os 0x61000) (reg_marked life_mem) 0x60000 0x61000"
  by (simp add: room_for_def demo_os_def demo_total layout_consts apart_def reg_marked_def life_mem_def)

lemma life_patch:
  "\<exists>h m. patch_i2i life_env 0x60000 (life_state (reg_marked life_mem) hms []) = Some (True, life_state m hms [\<lparr>ih_i2i_entry = 0x60000, ih_hook = h\<rparr>])
     \<and> load64 m 0x7FFE8 = Some 0x50000 \<and> (\<forall>a n. mapped m a n) \<and> mh_allocated h = 0x61000"
proof -
  have saved: "\<exists>bs. load_bytes (reg_marked life_mem) 0x60000 HOOK_SIZE = Some bs"
    by (simp add: load_bytes_mapped reg_marked_def life_mem_def)
  then obtain bs where bs: "load_bytes (reg_marked life_mem) 0x60000 HOOK_SIZE = Some bs" ..
  let ?h = "\<lparr>mh_target = 0x60000, mh_allocated = 0x61000, mh_allocated_size = total_size,
     mh_current_chain_resume = ctor_chain_resume 0, mh_error = False\<rparr>"
  let ?m = "put 0x60000 (jmp_bytes 0x60000 0x61000) (put (0x61000 + 8) (assembly 0x61000 (effective_resume ?h) 0x500000)
     (put 0x61000 bs (map_pages (demo_os 0x61000) 0x61000 total_size (reg_marked life_mem))))"
  have c: "midi2i_hook_ctor (demo_os 0x61000) life_jvm (reg_marked life_mem) 0x60000 0x500000 0 = Some (?h, ?m)"
    by (rule midi2i_hook_ctor_ok [OF life_alloc _ life_room bs refl]) simp
  have d: "detect_chain (reg_marked life_mem) 0x60000 = Some 0" by (simp add: detect_chain_def life_code)
  have len: "length bs = 8" using bs by (auto dest: load_bytes_length simp: layout_consts)
  have "load64 ?m 0x7FFE8 = load64 (reg_marked life_mem) 0x7FFE8"
    by (simp add: load_put_apart apart_def len map_pages_def demo_os_def demo_total)
  moreover have "mapped ?m a n" for a n
    by (simp add: map_pages_def reg_marked_def life_mem_def)
  moreover have "patch_i2i life_env 0x60000 (life_state (reg_marked life_mem) hms []) = Some (True, life_state ?m hms [\<lparr>ih_i2i_entry = 0x60000, ih_hook = ?h\<rparr>])"
    by (simp add: patch_i2i_def life_location d life_env_def c) (simp add: life_state_def)
  ultimately show ?thesis using life_loads(6) by (intro exI [of _ ?h] exI [of _ ?m]) simp
qed

lemma life_install:
  "\<exists>s'. install life_env 0x50000 7 ''A'' [] (life_state life_mem [] []) = Some (True, s')
     \<and> load64 (vh_mem s') 0x7FFE8 = Some 0x50000 \<and> (\<forall>a n. mapped (vh_mem s') a n)
     \<and> (\<forall>p \<in> set (g_hooked_i2i_entries s'). mh_allocated (ih_hook p) = 0x61000)"
proof -
  have c: "get_const_method life_jvm (reg_marked life_mem) 0x50000 = Some 0" by (simp add: get_const_method_def life_loads)
  have "\<exists>e. new_entry life_env (reg_marked life_mem) 0x50000 7 ''A'' [] = Some e"
    by (simp add: new_entry_def get_code_def get_from_interpreted_entry_def get_from_compiled_entry_def
        method_get_signature_def c life_loads)
  then obtain e where e: "new_entry life_env (reg_marked life_mem) 0x50000 7 ''A'' [] = Some e" ..
  have nc: "\<not> hm_was_compiled e"
    using e by (auto simp: new_entry_def get_code_def life_loads bind_eq_Some_conv)
  obtain h m where p: "patch_i2i life_env 0x60000 (life_state (reg_marked life_mem) [e] []) = Some (True, life_state m [e] [\<lparr>ih_i2i_entry = 0x60000, ih_hook = h\<rparr>])" "load64 m 0x7FFE8 = Some 0x50000" "\<forall>a n. mapped m a n" "mh_allocated h = 0x61000"
    using life_patch by blast
  have "get_i2i_entry life_jvm (reg_marked life_mem) 0x50000 = Some 0x60000" by (simp add: get_i2i_entry_def life_loads)
  with e nc p show ?thesis by (simp add: install_def life_mark ensure_started_def)
qed

lemma installed_hook_fires_witness:
  "\<exists>s' s2. hook life_env 1 [] [] 7 (life_state life_mem [] []) = Some (True, s')
     \<and> common_detour life_env (\<lambda>d fr th sl s. Some s) 0x80000 0x90000 0 s' = Some (Some 7, s2)"
proof -
  obtain s' where i: "install life_env 0x50000 7 ''A'' [] (life_state life_mem [] []) = Some (True, s')"
    and m: "load64 (vh_mem s') 0x7FFE8 = Some 0x50000" "\<forall>a n. mapped (vh_mem s') a n" using life_install by blast
  have h: "hook life_env 1 [] [] 7 (life_state life_mem [] []) = Some (True, s')"
    using hook_resolved [OF life_resolve, where d = 7] i by auto
  have v: "is_valid_pointer 0x90000" by (simp add: ptr_eval)
  have f: "frame_get_method (vh_mem s') 0x80000 = Some 0x50000" using m(1) by (simp add: frame_get_method_def)
  have "\<exists>m2. set_thread_state life_jvm (vh_mem s') 0x90000 thread_in_Java = Some m2"
    using m(2) by (simp add: set_thread_state_def store_le_put)
  then obtain m2 where m2: "set_thread_state life_jvm (vh_mem s') 0x90000 thread_in_Java = Some m2" ..
  have "common_detour life_env (\<lambda>d fr th sl s. Some s) 0x80000 0x90000 0 s' = Some (Some 7, s'\<lparr>vh_mem := m2\<rparr>)"
    using installed_hook_fires [OF h life_resolve _ _ _ v f] m2 by simp
  with h show ?thesis by blast
qed

section \<open>Two handles for one method\<close>

text \<open>A second \<open>scoped_hook\<close> on a method that is hooked already reports success, but its detour is
  dropped: the registry keeps the first entry only. Its handle names the method, not the hook, so
  stopping it removes the first caller's hook.\<close>

theorem second_scoped_hook_steals_the_first:
  assumes "resolve_method E t name sig s = Some (mth, s1)" and "mth \<noteq> 0" and "resolve_method E t name sig s1 = Some (mth, s2)"
    and "g_hooked_methods s = [first]" and "hm_method first = mth"
    and "unmark_method E mth (vh_mem s2) = Some m"
  shows "scoped_hook E t name sig d s = Some (mth, s2) \<and> g_hooked_methods s2 = [first]
     \<and> hook_handle_stop E mth s2 = Some (0, s2\<lparr>vh_mem := m, g_hooked_methods := []\<rparr>)"
proof -
  have r: "same_registry s s1" "same_registry s1 s2" using resolve_registry [OF assms(1,2)] resolve_registry [OF assms(3,2)] .
  obtain cn where "hook E t name sig d s = install E mth d cn name s1" using hook_resolved [OF assms(1,2)] by blast
  moreover have "install E mth d cn name s1 = Some (True, s1)" using assms(4,5) r by (simp add: install_def same_registry_def)
  ultimately have "scoped_hook E t name sig d s = Some (mth, s2)" using scoped_resolved assms(2,3) by simp
  with assms(2,4,5,6) r show ?thesis by (simp add: hook_handle_stop_def same_registry_def)
qed

lemma second_scoped_hook_steals_the_first_witness:
  "\<exists>s2 m. scoped_hook reg_class_env 1 [] [] 9 ((reg_class_state reg_class_mem [reg_demo_hm\<lparr>hm_method := 0x50000\<rparr>])\<lparr>
       type_to_class_map := Mapping.update 1 ''A'' Mapping.empty\<rparr>) = Some (0x50000, s2)
     \<and> hook_handle_stop reg_class_env 0x50000 s2 = Some (0, s2\<lparr>vh_mem := m, g_hooked_methods := []\<rparr>)"
proof -
  let ?s = "(reg_class_state reg_class_mem [reg_demo_hm\<lparr>hm_method := 0x50000\<rparr>])\<lparr>type_to_class_map := Mapping.update 1 ''A'' Mapping.empty\<rparr>"
  have c: "vh_find_class reg_class_env ''A'' ?s = Some (0x23000, ?s)"
    using reg_class_find [of "en_jni_find reg_class_env"]
    by (simp add: vh_find_class_def reg_class_env_def reg_class_state_def reg_demo_def)
  have r: "resolve_method reg_class_env 1 [] [] ?s = Some (0x50000, ?s)"
    using c reg_class_method by (simp add: resolve_method_def reg_class_env_def) (simp add: reg_class_state_def)
  have "\<exists>m. unmark_method reg_class_env 0x50000 reg_class_mem = Some m"
    by (simp add: unmark_method_def set_dont_inline_def clear_no_compile_def store_le_put reg_class_env_def reg_class_fields)
      (simp add: reg_class_mem_def mem_simps apart_def)
  then obtain m where "unmark_method reg_class_env 0x50000 (vh_mem ?s) = Some m" by (auto simp: reg_class_state_def)
  from second_scoped_hook_steals_the_first [OF r _ r _ _ this, of _ 9] show ?thesis
    by (auto simp: reg_class_state_def)
qed

end
