(* ===== verification/Data_Breakpoints.thy ===== *)
theory Data_Breakpoints
  imports Os_Layer Object_Base
begin

text \<open>
  Hardware data breakpoints: the handle \<open>watch_handle\<close> (vmhook.hpp lines 7114 to 7197), the
  slots of the debug registers with their exception handler (16103 to 16297) and
  \<open>watch_static_field\<close> (16333).

  What Windows keeps is part of the state: the threads with their debug registers and the list of
  registered vectored handlers. Opening a thread, reading and writing its context may fail, which
  is a flag of the thread. A callback is a number, and the closures that a handle runs when it is
  stopped are values of a type \<open>'a\<close> with an interpreter.
\<close>

section \<open>Handles\<close>

record 'a control_block =
  on_stop :: "'a option"
  stopped :: bool

type_synonym 'a watch_handle = "'a control_block option"

definition wh_stop :: "('a \<Rightarrow> 's \<Rightarrow> 's) \<Rightarrow> 'a watch_handle \<Rightarrow> 's \<Rightarrow> 'a watch_handle \<times> 's" where
  "wh_stop run h s =
     (case h of None \<Rightarrow> (None, s)
      | Some block \<Rightarrow> if stopped block then (None, s)
                     else (case on_stop block of None \<Rightarrow> (None, s) | Some f \<Rightarrow> (None, run f s)))"

text \<open>The new values of the target and of the source.\<close>

definition wh_move :: "'a watch_handle \<Rightarrow> 'a watch_handle \<times> 'a watch_handle" where
  "wh_move other = (other, None)"

definition wh_move_assign ::
  "('a \<Rightarrow> 's \<Rightarrow> 's) \<Rightarrow> 'a watch_handle \<Rightarrow> 'a watch_handle \<Rightarrow> 's \<Rightarrow> 'a watch_handle \<times> 'a watch_handle \<times> 's" where
  "wh_move_assign run this other s = (other, None, snd (wh_stop run this s))"

definition wh_running :: "'a watch_handle \<Rightarrow> bool" where
  "wh_running h \<longleftrightarrow> (case h of None \<Rightarrow> False | Some block \<Rightarrow> \<not> stopped block)"

definition live_handle :: "'a \<Rightarrow> 'a watch_handle" where
  "live_handle f = Some \<lparr>on_stop = Some f, stopped = False\<rparr>"

section \<open>Debug registers\<close>

record dr_slot =
  ds_address :: addr
  ds_callback :: "nat option"
  ds_dr7_bits :: u64
  ds_in_use :: bool

record os_thread =
  ot_opens :: bool
  ot_readable :: bool
  ot_writable :: bool
  ot_dr :: "u64 list"
  ot_dr7 :: u64

record dr_state =
  dr_slots :: "dr_slot list"
  dr_veh_handle :: addr
  dr_armed_count :: int
  dr_threads :: "os_thread list"
  veh_chain :: "addr list"

text \<open>\<open>snapshot\<close> is whether the list of threads could be read.\<close>

definition for_each_os_thread :: "bool \<Rightarrow> (os_thread \<Rightarrow> os_thread) \<Rightarrow> dr_state \<Rightarrow> dr_state" where
  "for_each_os_thread snapshot f s =
     (if snapshot then s\<lparr>dr_threads := map (\<lambda>t. if ot_opens t then f t else t) (dr_threads s)\<rparr> else s)"

fun first_unused :: "nat \<Rightarrow> dr_slot list \<Rightarrow> nat option" where
  "first_unused i [] = None"
| "first_unused i (d # ds) = (if ds_in_use d then first_unused (i + 1) ds else Some i)"

definition find_free_slot :: "dr_state \<Rightarrow> nat option" where
  "find_free_slot s = first_unused 0 (dr_slots s)"

definition slot_mask :: "nat \<Rightarrow> u64" where
  "slot_mask slot = push_bit (slot * 2) 3 OR push_bit (16 + slot * 4) 0xF"

definition write_context :: "nat \<Rightarrow> u64 \<Rightarrow> u64 \<Rightarrow> os_thread \<Rightarrow> os_thread" where
  "write_context slot address dr7 t =
     (if ot_writable t then t\<lparr>ot_dr := (ot_dr t)[slot := address], ot_dr7 := dr7\<rparr> else t)"

definition refresh_thread_drs :: "bool \<Rightarrow> nat \<Rightarrow> u64 \<Rightarrow> u64 \<Rightarrow> dr_state \<Rightarrow> dr_state" where
  "refresh_thread_drs snapshot slot address dr7_bits =
     for_each_os_thread snapshot (\<lambda>t.
       if ot_readable t \<and> slot < 4
       then write_context slot address ((ot_dr7 t AND NOT (slot_mask slot)) OR (dr7_bits AND slot_mask slot)) t else t)"

definition clear_thread_drs :: "bool \<Rightarrow> nat \<Rightarrow> dr_state \<Rightarrow> dr_state" where
  "clear_thread_drs snapshot slot =
     for_each_os_thread snapshot (\<lambda>t.
       if ot_readable t \<and> slot < 4 then write_context slot 0 (ot_dr7 t AND NOT (slot_mask slot)) t else t)"

text \<open>\<open>AddVectoredExceptionHandler\<close> is a parameter: the handle it returns, null when it fails.\<close>

definition dr_arm_one :: "(addr list \<Rightarrow> addr) \<Rightarrow> dr_state \<Rightarrow> dr_state" where
  "dr_arm_one add s =
     (let s = (if dr_armed_count s = 0
               then let h = add (veh_chain s) in
                 s\<lparr>dr_veh_handle := h, veh_chain := (if h = 0 then veh_chain s else h # veh_chain s)\<rparr>
               else s)
      in s\<lparr>dr_armed_count := dr_armed_count s + 1\<rparr>)"

definition dr_unarm_one :: "dr_state \<Rightarrow> dr_state" where
  "dr_unarm_one s =
     (if dr_armed_count s \<le> 0 then s
      else let s = s\<lparr>dr_armed_count := dr_armed_count s - 1\<rparr> in
        if dr_armed_count s = 0 \<and> dr_veh_handle s \<noteq> 0
        then s\<lparr>veh_chain := remove1 (dr_veh_handle s) (veh_chain s), dr_veh_handle := 0\<rparr> else s)"

section \<open>Arming and disarming\<close>

definition width_length :: "nat \<Rightarrow> data_breakpoint_length" where
  "width_length n = (if n = 1 then one_byte else if n = 2 then two_bytes else if n = 4 then four_bytes else eight_bytes)"

text \<open>The result is the slot, which the closure of the handle holds.\<close>

definition arm_slot :: "(addr list \<Rightarrow> addr) \<Rightarrow> bool \<Rightarrow> addr \<Rightarrow> nat \<Rightarrow> nat \<Rightarrow> dr_state \<Rightarrow> nat watch_handle \<times> dr_state" where
  "arm_slot add snapshot address width callback s =
     (case find_free_slot s of None \<Rightarrow> (None, s)
      | Some slot \<Rightarrow>
         let s = dr_arm_one add s;
             dr7_bits = build_dr7 slot bp_write (width_length width);
             s = s\<lparr>dr_slots := (dr_slots s)[slot := \<lparr>ds_address = address, ds_callback = Some callback,
                    ds_dr7_bits = dr7_bits, ds_in_use = True\<rparr>]\<rparr>;
             s = refresh_thread_drs snapshot slot address dr7_bits s
         in (live_handle slot, s))"

definition disarm_slot :: "bool \<Rightarrow> nat \<Rightarrow> dr_state \<Rightarrow> dr_state" where
  "disarm_slot snapshot slot s =
     (let s = clear_thread_drs snapshot slot s;
          s = s\<lparr>dr_slots := (dr_slots s)[slot := \<lparr>ds_address = 0, ds_callback = None, ds_dr7_bits = 0, ds_in_use = False\<rparr>]\<rparr>
      in dr_unarm_one s)"

definition watch_static_field ::
  "heap_env \<Rightarrow> (nat, string) mapping \<Rightarrow> (addr list \<Rightarrow> addr) \<Rightarrow> bool \<Rightarrow> nat \<Rightarrow> string \<Rightarrow> nat \<Rightarrow> nat \<Rightarrow>
     heap \<times> dr_state \<Rightarrow> (nat watch_handle \<times> heap \<times> dr_state) option" where
  "watch_static_field E types add snapshot type_id field_name width callback st = do {
     (proxy, h) \<leftarrow> ob_static_field E types type_id field_name (fst st);
     Some (case proxy of None \<Rightarrow> (None, h, snd st)
           | Some p \<Rightarrow> if fp_pointer p = 0 then (None, h, snd st)
                      else let (hd, s) = arm_slot add snapshot (fp_pointer p) width callback (snd st) in (hd, h, s)) }"

text \<open>What the callback of a field of \<open>width\<close> bytes passes on: a zero value for the old one, and the current one.\<close>

definition on_change_args :: "mem \<Rightarrow> addr \<Rightarrow> nat \<Rightarrow> (u8 list \<times> u8 list) option" where
  "on_change_args m address width = map_option (\<lambda>current. (replicate width 0, current)) (load_bytes m address width)"

section \<open>The trap\<close>

datatype veh_result = Continue_Search | Continue_Execution

text \<open>The callback with the address it is called on, and the debug status and flags of the context.\<close>

definition dr_exception_handler ::
  "dr_state \<Rightarrow> bool \<Rightarrow> u64 \<Rightarrow> 32 word \<Rightarrow> veh_result \<times> (nat \<times> addr) option \<times> u64 \<times> 32 word" where
  "dr_exception_handler s single_step dr6 eflags =
     (if \<not> single_step then (Continue_Search, None, dr6, eflags)
      else case find (\<lambda>i. bit dr6 i) [0..<4] of None \<Rightarrow> (Continue_Search, None, dr6, eflags)
      | Some slot \<Rightarrow>
          (Continue_Execution,
           (if ds_in_use (dr_slots s ! slot) then map_option (\<lambda>c. (c, ds_address (dr_slots s ! slot))) (ds_callback (dr_slots s ! slot))
            else None),
           0, eflags OR 0x10000))"

section \<open>Bits of the control register\<close>

lemma slot_masks_apart:
  assumes "i < 4" and "j < 4" and "i \<noteq> j"
  shows "slot_mask i AND slot_mask j = 0"
proof -
  have "\<forall>i \<in> set [0..<4]. \<forall>j \<in> set [0..<4]. i \<noteq> j \<longrightarrow> slot_mask i AND slot_mask j = 0" by code_simp
  with assms show ?thesis by auto
qed

lemma merge_same: "((x AND NOT m) OR (b AND m)) AND m = b AND (m :: u64)"
  by (rule bit_eqI) (auto simp: bit_simps)

lemma clear_same: "(x AND NOT m) AND m = (0 :: u64)"
  by (rule bit_eqI) (auto simp: bit_simps)

lemma merge_other:
  assumes "m AND m' = (0 :: u64)"
  shows "((x AND NOT m) OR (b AND m)) AND m' = x AND m'" and "(x AND NOT m) AND m' = x AND m'"
proof -
  have d: "\<not> (bit m n \<and> bit m' n)" for n using assms bit_and_iff [of m m' n] by auto
  show "((x AND NOT m) OR (b AND m)) AND m' = x AND m'" using d by (intro bit_eqI) (auto simp: bit_simps)
  show "(x AND NOT m) AND m' = x AND m'" using d by (intro bit_eqI) (auto simp: bit_simps)
qed

section \<open>The slots and the threads agree\<close>

definition accessible :: "os_thread \<Rightarrow> bool" where
  "accessible t \<longleftrightarrow> ot_opens t \<and> ot_readable t \<and> ot_writable t"

text \<open>A register of a thread is off, or it is programmed as its slot says.\<close>

definition register_ok :: "dr_slot list \<Rightarrow> os_thread \<Rightarrow> nat \<Rightarrow> bool" where
  "register_ok slots t i \<longleftrightarrow> ot_dr7 t AND slot_mask i = 0
     \<or> ds_in_use (slots ! i) \<and> ot_dr t ! i = ds_address (slots ! i)
       \<and> ot_dr7 t AND slot_mask i = ds_dr7_bits (slots ! i) AND slot_mask i"

definition thread_ok :: "dr_slot list \<Rightarrow> os_thread \<Rightarrow> bool" where
  "thread_ok slots t \<longleftrightarrow> accessible t \<longrightarrow> length (ot_dr t) = 4 \<and> (\<forall>i < 4. register_ok slots t i)"

definition dr_ok :: "dr_state \<Rightarrow> nat list \<Rightarrow> bool" where
  "dr_ok s hs \<longleftrightarrow> length (dr_slots s) = 4 \<and> distinct hs \<and> (\<forall>i < 4. ds_in_use (dr_slots s ! i) \<longleftrightarrow> i \<in> set hs) \<and> set hs \<subseteq> {..<4}
     \<and> dr_armed_count s = int (length hs) \<and> (dr_veh_handle s = 0 \<longleftrightarrow> hs = [])
     \<and> veh_chain s = (if hs = [] then [] else [dr_veh_handle s])
     \<and> (\<forall>t \<in> set (dr_threads s). thread_ok (dr_slots s) t)"

definition dr_init :: dr_state where
  "dr_init = \<lparr>dr_slots = replicate 4 \<lparr>ds_address = 0, ds_callback = None, ds_dr7_bits = 0, ds_in_use = False\<rparr>,
     dr_veh_handle = 0, dr_armed_count = 0, dr_threads = [], veh_chain = []\<rparr>"

text \<open>
  Watches come and go with their handles \<open>hs\<close>, threads start, with their breakpoints off, and end.
\<close>

inductive dr_reach :: "(addr list \<Rightarrow> addr) \<Rightarrow> dr_state \<Rightarrow> nat list \<Rightarrow> bool" for add :: "addr list \<Rightarrow> addr" where
  dr_start: "dr_reach add dr_init []"
| dr_watch: "dr_reach add s hs \<Longrightarrow> arm_slot add True address width callback s = (live_handle slot, s') \<Longrightarrow> dr_reach add s' (slot # hs)"
| dr_full: "dr_reach add s hs \<Longrightarrow> arm_slot add True address width callback s = (None, s') \<Longrightarrow> dr_reach add s' hs"
| dr_stop: "dr_reach add s hs \<Longrightarrow> slot \<in> set hs \<Longrightarrow> dr_reach add (disarm_slot True slot s) (remove1 slot hs)"
| dr_thread_start: "dr_reach add s hs \<Longrightarrow> length (ot_dr t) = 4 \<Longrightarrow> (\<forall>i < 4. ot_dr7 t AND slot_mask i = 0) \<Longrightarrow>
    dr_reach add (s\<lparr>dr_threads := dr_threads s @ [t]\<rparr>) hs"
| dr_thread_end: "dr_reach add s hs \<Longrightarrow> dr_reach add (s\<lparr>dr_threads := remove1 t (dr_threads s)\<rparr>) hs"

lemma first_unused_Some:
  "first_unused n ds = Some i \<Longrightarrow> n \<le> i \<and> i < n + length ds \<and> \<not> ds_in_use (ds ! (i - n)) \<and> (\<forall>j. n \<le> j \<longrightarrow> j < i \<longrightarrow> ds_in_use (ds ! (j - n)))"
proof (induction ds arbitrary: n)
  case (Cons d ds)
  show ?case
  proof (cases "ds_in_use d")
    case True
    then have i: "n + 1 \<le> i \<and> i < n + 1 + length ds \<and> \<not> ds_in_use (ds ! (i - (n + 1)))
        \<and> (\<forall>j. n + 1 \<le> j \<longrightarrow> j < i \<longrightarrow> ds_in_use (ds ! (j - (n + 1))))"
      using Cons.IH [of "n + 1"] Cons.prems by simp
    have "ds_in_use ((d # ds) ! (j - n))" if "n \<le> j" "j < i" for j
      using i True that by (cases "j = n") (auto simp: nth_Cons')
    with i show ?thesis by (auto simp: nth_Cons')
  qed (use Cons.prems in auto)
qed simp

lemma first_unused_None: "first_unused n ds = None \<longleftrightarrow> (\<forall>d \<in> set ds. ds_in_use d)"
  by (induction ds arbitrary: n) auto

lemma write_context_ok:
  assumes "length slots = 4" and "k < 4" and "thread_ok slots t"
    and "v = (ot_dr7 t AND NOT (slot_mask k)) OR (b AND slot_mask k)"
    and "ds_in_use d" and "ds_address d = a" and "ds_dr7_bits d = b"
  shows "thread_ok (slots[k := d]) (write_context k a v t)"
proof (cases "accessible t")
  case True
  then have w: "write_context k a v t = t\<lparr>ot_dr := (ot_dr t)[k := a], ot_dr7 := v\<rparr>" by (simp add: write_context_def accessible_def)
  have l: "length (ot_dr t) = 4" and r: "\<And>i. i < 4 \<Longrightarrow> register_ok slots t i" using assms(3) True by (auto simp: thread_ok_def)
  have "register_ok (slots[k := d]) (t\<lparr>ot_dr := (ot_dr t)[k := a], ot_dr7 := v\<rparr>) i" if i: "i < 4" for i
  proof (cases "i = k")
    case True
    then show ?thesis using assms l by (simp add: register_ok_def merge_same)
  next
    case False
    with slot_masks_apart [OF assms(2) i] have "v AND slot_mask i = ot_dr7 t AND slot_mask i" by (simp add: assms(4) merge_other)
    with r [OF i] False show ?thesis by (simp add: register_ok_def)
  qed
  with w l show ?thesis by (simp add: thread_ok_def)
qed (auto simp: thread_ok_def write_context_def accessible_def)

lemma free_slot:
  assumes "find_free_slot s = Some i"
  shows "i < length (dr_slots s)" and "\<not> ds_in_use (dr_slots s ! i)" and "j < i \<Longrightarrow> ds_in_use (dr_slots s ! j)"
  using first_unused_Some [of 0 "dr_slots s" i] assms by (auto simp: find_free_slot_def)

lemma arm_slot_Some:
  assumes "arm_slot add sn a w c s = (live_handle i, s')"
  shows "find_free_slot s = Some i" and "dr_slots s' = (dr_slots s)[i := \<lparr>ds_address = a, ds_callback = Some c,
      ds_dr7_bits = build_dr7 i bp_write (width_length w), ds_in_use = True\<rparr>]"
    and "dr_armed_count s' = dr_armed_count (dr_arm_one add s)" and "dr_veh_handle s' = dr_veh_handle (dr_arm_one add s)"
    and "veh_chain s' = veh_chain (dr_arm_one add s)"
    and "dr_threads s' = dr_threads (refresh_thread_drs sn i a (build_dr7 i bp_write (width_length w)) s)"
  using assms by (auto simp: arm_slot_def live_handle_def Let_def refresh_thread_drs_def for_each_os_thread_def dr_arm_one_def
      split: option.splits if_splits)

lemma arm_ok:
  assumes "dr_ok s hs" and "arm_slot add True a w c s = (live_handle i, s')" and "\<And>xs. add xs \<noteq> 0"
  shows "dr_ok s' (i # hs)"
proof -
  note r = arm_slot_Some [OF assms(2)]
  let ?d = "\<lparr>ds_address = a, ds_callback = Some c, ds_dr7_bits = build_dr7 i bp_write (width_length w), ds_in_use = True\<rparr>"
  have l: "length (dr_slots s) = 4" and f: "i < 4" "\<not> ds_in_use (dr_slots s ! i)"
    using assms(1) free_slot [OF r(1)] by (simp_all add: dr_ok_def)
  have new: "i \<notin> set hs" using assms(1) f by (auto simp: dr_ok_def)
  have t: "thread_ok (dr_slots s') t'" if "t' \<in> set (dr_threads s')" for t'
  proof -
    let ?v = "\<lambda>t. (ot_dr7 t AND NOT (slot_mask i)) OR (build_dr7 i bp_write (width_length w) AND slot_mask i)"
    from that obtain t where t: "t \<in> set (dr_threads s)"
      "t' = (if ot_opens t then if ot_readable t \<and> i < 4 then write_context i a (?v t) t else t else t)"
      by (auto simp: r(6) refresh_thread_drs_def for_each_os_thread_def)
    have ok: "thread_ok (dr_slots s) t" using assms(1) t(1) by (simp add: dr_ok_def)
    show ?thesis
    proof (cases "accessible t")
      case True
      with t(2) f have "t' = write_context i a (?v t) t" by (simp add: accessible_def)
      then show ?thesis unfolding r(2) using write_context_ok [OF l f(1) ok refl, of ?d] by simp
    next
      case False
      then have "\<not> accessible t'" using t(2) by (auto simp: accessible_def write_context_def)
      then show ?thesis by (simp add: thread_ok_def)
    qed
  qed
  have v: "dr_armed_count s' = int (length (i # hs)) \<and> dr_veh_handle s' \<noteq> 0 \<and> veh_chain s' = [dr_veh_handle s']"
    using assms(1,3) by (auto simp: r(3-5) dr_ok_def dr_arm_one_def Let_def split: if_splits)
  have u: "ds_in_use (dr_slots s' ! j) \<longleftrightarrow> j \<in> set (i # hs)" if "j < 4" for j
    using assms(1) that l f by (cases "j = i") (auto simp: dr_ok_def r(2))
  show ?thesis using assms(1) t v u new f l by (simp add: dr_ok_def r(2))
qed

lemma disarm_simps:
  "dr_slots (disarm_slot sn i s) = (dr_slots s)[i := \<lparr>ds_address = 0, ds_callback = None, ds_dr7_bits = 0, ds_in_use = False\<rparr>]"
  "dr_threads (disarm_slot sn i s) = dr_threads (clear_thread_drs sn i s)"
  "dr_armed_count (disarm_slot sn i s) = dr_armed_count (dr_unarm_one s)"
  "dr_veh_handle (disarm_slot sn i s) = dr_veh_handle (dr_unarm_one s)"
  "veh_chain (disarm_slot sn i s) = veh_chain (dr_unarm_one s)"
  by (simp_all add: disarm_slot_def dr_unarm_one_def clear_thread_drs_def for_each_os_thread_def Let_def)

lemma clear_context_ok:
  assumes "length slots = 4" and "k < 4" and "thread_ok slots t"
  shows "thread_ok (slots[k := d]) (write_context k 0 (ot_dr7 t AND NOT (slot_mask k)) t)"
proof (cases "accessible t")
  case True
  let ?v = "ot_dr7 t AND NOT (slot_mask k)"
  from True have w: "write_context k 0 ?v t = t\<lparr>ot_dr := (ot_dr t)[k := 0], ot_dr7 := ?v\<rparr>" by (simp add: write_context_def accessible_def)
  have l: "length (ot_dr t) = 4" and r: "\<And>i. i < 4 \<Longrightarrow> register_ok slots t i" using assms(3) True by (auto simp: thread_ok_def)
  have "register_ok (slots[k := d]) (t\<lparr>ot_dr := (ot_dr t)[k := 0], ot_dr7 := ?v\<rparr>) i" if i: "i < 4" for i
  proof (cases "i = k")
    case True
    then show ?thesis by (simp add: register_ok_def clear_same)
  next
    case False
    with slot_masks_apart [OF assms(2) i] have "?v AND slot_mask i = ot_dr7 t AND slot_mask i" by (simp add: merge_other)
    with r [OF i] False show ?thesis by (simp add: register_ok_def)
  qed
  with w l show ?thesis by (simp add: thread_ok_def)
qed (auto simp: thread_ok_def write_context_def accessible_def)

lemma disarm_ok:
  assumes "dr_ok s hs" and "i \<in> set hs"
  shows "dr_ok (disarm_slot True i s) (remove1 i hs)"
proof -
  have l: "length (dr_slots s) = 4" and f: "i < 4" and d: "distinct hs" using assms by (auto simp: dr_ok_def)
  have t: "thread_ok (dr_slots (disarm_slot True i s)) t'" if "t' \<in> set (dr_threads (disarm_slot True i s))" for t'
  proof -
    let ?v = "\<lambda>t. ot_dr7 t AND NOT (slot_mask i)"
    from that obtain t where t: "t \<in> set (dr_threads s)"
      "t' = (if ot_opens t then if ot_readable t \<and> i < 4 then write_context i 0 (?v t) t else t else t)"
      by (auto simp: disarm_simps clear_thread_drs_def for_each_os_thread_def)
    have ok: "thread_ok (dr_slots s) t" using assms(1) t(1) by (simp add: dr_ok_def)
    show ?thesis
    proof (cases "accessible t")
      case True
      with t(2) f have "t' = write_context i 0 (?v t) t" by (simp add: accessible_def)
      then show ?thesis unfolding disarm_simps using clear_context_ok [OF l f ok] by simp
    next
      case False
      then have "\<not> accessible t'" using t(2) by (auto simp: accessible_def write_context_def)
      then show ?thesis by (simp add: thread_ok_def)
    qed
  qed
  obtain n where n: "length hs = Suc n" using assms(2) by (cases hs) auto
  then have c: "length (remove1 i hs) = n" using assms(2) by (simp add: length_remove1)
  then have e: "remove1 i hs = [] \<longleftrightarrow> n = 0" by auto
  have "hs \<noteq> []" using n by auto
  then have v: "dr_armed_count (dr_unarm_one s) = int n \<and> (dr_veh_handle (dr_unarm_one s) = 0 \<longleftrightarrow> n = 0)
      \<and> veh_chain (dr_unarm_one s) = (if n = 0 then [] else [dr_veh_handle (dr_unarm_one s)])"
    using assms(1) n by (auto simp: dr_ok_def dr_unarm_one_def Let_def)
  have u: "ds_in_use (dr_slots (disarm_slot True i s) ! j) \<longleftrightarrow> j \<in> set (remove1 i hs)" if "j < 4" for j
    using assms(1) that l f d by (cases "j = i") (auto simp: dr_ok_def disarm_simps)
  have "set (remove1 i hs) \<subseteq> {..<4}" using assms(1) set_remove1_subset [of i hs] by (auto simp: dr_ok_def)
  with t v u d l c e show ?thesis by (simp add: dr_ok_def disarm_simps distinct_remove1)
qed

lemma dr_reach_ok:
  assumes "dr_reach add s hs" and "\<And>xs. add xs \<noteq> 0"
  shows "dr_ok s hs"
  using assms(1)
proof (induction rule: dr_reach.induct)
  case dr_start
  show ?case by (simp add: dr_ok_def dr_init_def nth_replicate)
next
  case (dr_full s hs a w c s')
  then have "s' = s" by (auto simp: arm_slot_def live_handle_def Let_def split: option.splits)
  with dr_full show ?case by simp
next
  case (dr_thread_start s hs t)
  then have "thread_ok (dr_slots s) t" by (simp add: thread_ok_def register_ok_def)
  with dr_thread_start show ?case by (auto simp: dr_ok_def)
next
  case (dr_thread_end s hs t)
  then show ?case using set_remove1_subset [of t "dr_threads s"] by (auto simp: dr_ok_def)
qed (use arm_ok disarm_ok assms(2) in blast)+


lemma find_only: "(\<forall>j < n. P j \<longleftrightarrow> j = i) \<Longrightarrow> i < n \<Longrightarrow> find P [0..<n] = Some i"
  by (subst find_Some_iff) (auto intro!: exI [of _ i])

text \<open>Arming a watch programs every thread that exists and whose context can be changed, and a trap
  that the processor reports for its register alone calls the watch's callback with the address of
  the field and resumes the thread with the debug status cleared.\<close>

theorem armed_watch_reports:
  assumes "dr_ok s hs" and "arm_slot add True address width callback s = (live_handle i, s')"
    and "t \<in> set (dr_threads s')" and "accessible t"
  shows "ot_dr t ! i = address \<and> ot_dr7 t AND slot_mask i = build_dr7 i bp_write (width_length width) AND slot_mask i
     \<and> (\<forall>dr6 eflags. (\<forall>j < 4. bit dr6 j \<longleftrightarrow> j = i) \<longrightarrow>
          dr_exception_handler s' True dr6 eflags = (Continue_Execution, Some (callback, address), 0, eflags OR 0x10000))"
proof -
  note r = arm_slot_Some [OF assms(2)]
  let ?bits = "build_dr7 i bp_write (width_length width)"
  have l: "length (dr_slots s) = 4" "i < 4" using assms(1) free_slot [OF r(1)] by (simp_all add: dr_ok_def)
  from assms(3) obtain t0 where t0: "t0 \<in> set (dr_threads s)"
    "t = (if ot_opens t0 then if ot_readable t0 \<and> i < 4
       then write_context i address ((ot_dr7 t0 AND NOT (slot_mask i)) OR (?bits AND slot_mask i)) t0 else t0 else t0)"
    by (auto simp: r(6) refresh_thread_drs_def for_each_os_thread_def)
  then have a: "accessible t0" using assms(4) by (auto simp: accessible_def write_context_def split: if_splits)
  then have "length (ot_dr t0) = 4" using assms(1) t0(1) by (simp add: dr_ok_def thread_ok_def)
  with a t0(2) l(2) have "ot_dr t ! i = address" "ot_dr7 t AND slot_mask i = ?bits AND slot_mask i"
    by (simp_all add: accessible_def write_context_def merge_same)
  moreover have "dr_exception_handler s' True dr6 eflags = (Continue_Execution, Some (callback, address), 0, eflags OR 0x10000)"
    if "\<forall>j < 4. bit dr6 j \<longleftrightarrow> j = i" for dr6 :: u64 and eflags
    using find_only [of 4 "bit dr6" i] that l by (simp add: dr_exception_handler_def r(2) l)
  ultimately show ?thesis by blast
qed

text \<open>Two watches on the same field: every write makes the processor report both registers at once,
  but the handler serves the lowest one only and clears the status, so the callback of the second
  watch is never called while the first one is armed.\<close>

theorem second_watch_is_silent:
  assumes "dr_ok s hs" and "arm_slot add True address width first s = (live_handle i, s1)"
    and "arm_slot add True address width second s1 = (live_handle j, s2)"
    and "\<forall>k < 4. bit dr6 k \<longleftrightarrow> k \<in> {i, j}"
  shows "dr_exception_handler s2 True dr6 eflags = (Continue_Execution, Some (first, address), 0, eflags OR 0x10000)"
proof -
  note r1 = arm_slot_Some [OF assms(2)] and r2 = arm_slot_Some [OF assms(3)]
  have l: "length (dr_slots s) = 4" "length (dr_slots s1) = 4" "i < 4" "j < 4"
    using assms(1) free_slot [OF r1(1)] free_slot [OF r2(1)] by (simp_all add: dr_ok_def r1(2))
  have "\<not> ds_in_use (dr_slots s1 ! j)" "ds_in_use (dr_slots s1 ! i)" "\<not> ds_in_use (dr_slots s ! i)"
    using free_slot [OF r1(1)] free_slot [OF r2(1)] l by (simp_all add: r1(2))
  then have ne: "j \<noteq> i" by auto
  have "\<not> j < i" using free_slot(3) [OF r1(1)] ne \<open>\<not> ds_in_use (dr_slots s1 ! j)\<close> l by (auto simp: r1(2))
  with ne have "i < j" by simp
  with assms(4) l(3) have "bit dr6 i" "\<And>k. k < i \<Longrightarrow> \<not> bit dr6 k" by auto
  with l(3) have "find (bit dr6) [0..<4] = Some i"
    by (subst find_Some_iff) (auto intro!: exI [of _ i])
  with ne l show ?thesis by (simp add: dr_exception_handler_def r2(2) r1(2))
qed

section \<open>A process with one thread\<close>

definition dr_demo_thread :: os_thread where
  "dr_demo_thread = \<lparr>ot_opens = True, ot_readable = True, ot_writable = True, ot_dr = [0, 0, 0, 0], ot_dr7 = 0\<rparr>"

definition dr_demo :: dr_state where
  "dr_demo = dr_init\<lparr>dr_threads := [dr_demo_thread]\<rparr>"

definition dr_demo_armed :: dr_state where
  "dr_demo_armed = snd (arm_slot (\<lambda>_. 0x77) True 0x210008 4 5 dr_demo)"

definition dr_demo_twice :: dr_state where
  "dr_demo_twice = snd (arm_slot (\<lambda>_. 0x77) True 0x210008 4 6 dr_demo_armed)"

lemma dr_demo_reach: "dr_reach (\<lambda>_. 0x77) dr_demo []"
proof -
  have "dr_reach (\<lambda>_. 0x77) (dr_init\<lparr>dr_threads := dr_threads dr_init @ [dr_demo_thread]\<rparr>) []"
    by (rule dr_thread_start [OF dr_start]) (simp_all add: dr_demo_thread_def)
  then show ?thesis by (simp add: dr_demo_def) (simp add: dr_init_def)
qed

lemma dr_demo_arm:
  "arm_slot (\<lambda>_. 0x77) True 0x210008 4 5 dr_demo = (live_handle 0, dr_demo_armed)"
  "arm_slot (\<lambda>_. 0x77) True 0x210008 4 6 dr_demo_armed = (live_handle 1, dr_demo_twice)"
  by code_simp+

lemma dr_demo_ok: "dr_ok dr_demo []" and dr_demo_armed_reach: "dr_reach (\<lambda>_. 0x77) dr_demo_armed [0]"
  by (rule dr_reach_ok [OF dr_demo_reach], simp) (rule dr_watch [OF dr_demo_reach dr_demo_arm(1)])


lemma armed_watch_reports_witness:
  "dr_exception_handler dr_demo_armed True 1 0 = (Continue_Execution, Some (5, 0x210008), 0, 0x10000)
   \<and> (\<exists>t \<in> set (dr_threads dr_demo_armed). ot_dr t ! 0 = 0x210008)"
proof -
  let ?t = "dr_demo_thread\<lparr>ot_dr := [0x210008, 0, 0, 0], ot_dr7 := 0xD0001\<rparr>"
  have t: "?t \<in> set (dr_threads dr_demo_armed)" by code_simp
  have a: "accessible ?t" by (simp add: accessible_def dr_demo_thread_def)
  have "bit (1 :: u64) j \<longleftrightarrow> j = 0" for j by (auto simp: bit_1_iff)
  with armed_watch_reports [OF dr_demo_ok dr_demo_arm(1) t a]
  have "dr_exception_handler dr_demo_armed True 1 0 = (Continue_Execution, Some (5, 0x210008), 0, 0x10000)" by auto
  with t show ?thesis by (intro conjI bexI [of _ ?t]) simp_all
qed

lemma second_watch_is_silent_witness:
  "dr_exception_handler dr_demo_twice True 3 0 = (Continue_Execution, Some (5, 0x210008), 0, 0x10000)"
proof -
  have "\<forall>k \<in> set [0..<4]. bit (3 :: u64) k \<longleftrightarrow> k \<in> {0, 1 :: nat}" by code_simp
  then have "\<forall>k < 4. bit (3 :: u64) k \<longleftrightarrow> k \<in> {0, 1 :: nat}" by simp
  from second_watch_is_silent [OF dr_demo_ok dr_demo_arm this, of 0] show ?thesis by simp
qed

end
