(* ===== verification/Watchers.thy ===== *)
theory Watchers
  imports Hook_Lifecycle Data_Breakpoints
begin

text \<open>
  The event watchers \<open>on_class_loaded\<close> (vmhook.hpp lines 16491 to 16598) and \<open>on_exception\<close>
  (16657), which hook ClassLoader.defineClass and Throwable.fillInStackTrace once and keep a list
  of callbacks each; and what \<open>shutdown_hooks\<close> does to them at its end (8880 with 16781).

  A callback is a number that stands for its shared pointer, so that two registrations have two
  numbers; the detours and wrapper types of the library itself are numbers in the record \<open>library\<close>.
\<close>

section \<open>State\<close>

record library =
  li_env :: env
  class_loader_wrapper :: nat
  throwable_wrapper :: nat
  define_class_detour :: nat
  fill_in_stack_trace_detour :: nat

record watcher_list =
  wl_callbacks :: "nat list"
  wl_hook_installed :: bool

record watchers =
  ws_vm :: vmhook
  ws_class_load :: watcher_list
  ws_exception :: watcher_list

text \<open>What the closure of a handle does.\<close>

datatype drop = Drop_class_load nat | Drop_exception nat

section \<open>Registering\<close>

text \<open>The part that both functions share: the list and the registry afterwards, and whether the watcher is live.\<close>

definition arm_watcher ::
  "library \<Rightarrow> nat \<Rightarrow> string \<Rightarrow> string \<Rightarrow> string \<Rightarrow> nat \<Rightarrow> nat \<Rightarrow> watcher_list \<Rightarrow> vmhook \<Rightarrow> (bool \<times> watcher_list \<times> vmhook) option" where
  "arm_watcher L type_id class_name method_name sig detour cb l s = do {
     let l = l\<lparr>wl_callbacks := wl_callbacks l @ [cb]\<rparr>;
     (l, s) \<leftarrow> (if wl_hook_installed l then Some (l, s)
       else do {
         s \<leftarrow> (if Mapping.lookup (type_to_class_map s) type_id = None
               then map_option snd (register_class (li_env L) type_id class_name s) else Some s);
         (installed, s) \<leftarrow> hook (li_env L) type_id method_name sig detour s;
         Some (if installed then l\<lparr>wl_hook_installed := True\<rparr> else l, s) });
     if \<not> wl_hook_installed l then Some (False, l\<lparr>wl_callbacks := removeAll cb (wl_callbacks l)\<rparr>, s)
     else Some (True, l, s) }"

definition on_class_loaded :: "library \<Rightarrow> nat \<Rightarrow> watchers \<Rightarrow> (drop watch_handle \<times> watchers) option" where
  "on_class_loaded L cb w = do {
     (live, l, s) \<leftarrow> arm_watcher L (class_loader_wrapper L) ''java/lang/ClassLoader'' ''defineClass''
       ''(Ljava/lang/String;[BIILjava/security/ProtectionDomain;)Ljava/lang/Class;'' (define_class_detour L) cb (ws_class_load w) (ws_vm w);
     Some (if live then live_handle (Drop_class_load cb) else None, w\<lparr>ws_class_load := l, ws_vm := s\<rparr>) }"

definition on_exception :: "library \<Rightarrow> nat \<Rightarrow> watchers \<Rightarrow> (drop watch_handle \<times> watchers) option" where
  "on_exception L cb w = do {
     (live, l, s) \<leftarrow> arm_watcher L (throwable_wrapper L) ''java/lang/Throwable'' ''fillInStackTrace''
       ''()Ljava/lang/Throwable;'' (fill_in_stack_trace_detour L) cb (ws_exception w) (ws_vm w);
     Some (if live then live_handle (Drop_exception cb) else None, w\<lparr>ws_exception := l, ws_vm := s\<rparr>) }"

fun run_drop :: "drop \<Rightarrow> watchers \<Rightarrow> watchers" where
  "run_drop (Drop_class_load cb) w = w\<lparr>ws_class_load := (ws_class_load w)\<lparr>wl_callbacks := removeAll cb (wl_callbacks (ws_class_load w))\<rparr>\<rparr>"
| "run_drop (Drop_exception cb) w = w\<lparr>ws_exception := (ws_exception w)\<lparr>wl_callbacks := removeAll cb (wl_callbacks (ws_exception w))\<rparr>\<rparr>"

definition empty_list :: watcher_list where
  "empty_list = \<lparr>wl_callbacks = [], wl_hook_installed = False\<rparr>"

definition reset_watcher_latches :: "watchers \<Rightarrow> watchers" where
  "reset_watcher_latches w = w\<lparr>ws_class_load := empty_list, ws_exception := empty_list\<rparr>"

text \<open>All of \<open>shutdown_hooks\<close>.\<close>

definition shutdown_all :: "library \<Rightarrow> watchers \<Rightarrow> watchers option" where
  "shutdown_all L w = do {
     s \<leftarrow> shutdown_hooks (li_env L) (ws_vm w);
     Some (reset_watcher_latches (w\<lparr>ws_vm := s\<rparr>)) }"

section \<open>Dispatch\<close>

datatype outcome = Returns | Throws_std | Throws_other

text \<open>
  The loop over a copy of the list; a callback may change any state \<open>'s\<close>. The flag is whether the
  loop ended, false when something that is not a \<open>std::exception\<close> left it.
\<close>

fun dispatch_event :: "(nat \<Rightarrow> string \<Rightarrow> 's \<Rightarrow> outcome \<times> 's) \<Rightarrow> nat list \<Rightarrow> string \<Rightarrow> 's \<Rightarrow> bool \<times> 's" where
  "dispatch_event call [] name s = (True, s)"
| "dispatch_event call (c # cs) name s =
     (case call c name s of (Throws_other, s') \<Rightarrow> (False, s') | (_, s') \<Rightarrow> dispatch_event call cs name s')"

definition internal_name :: "string \<Rightarrow> string" where
  "internal_name name = map (\<lambda>c. if c = CHR ''.'' then CHR ''/'' else c) name"

definition define_class_event :: "(nat \<Rightarrow> string \<Rightarrow> 's \<Rightarrow> outcome \<times> 's) \<Rightarrow> watcher_list \<Rightarrow> string \<Rightarrow> 's \<Rightarrow> bool \<times> 's" where
  "define_class_event call l name s = dispatch_event call (wl_callbacks l) (internal_name name) s"

definition throwable_name :: "jvm \<Rightarrow> mem \<Rightarrow> addr option \<Rightarrow> string option" where
  "throwable_name J m self = do {
     name \<leftarrow> (case self of None \<Rightarrow> Some []
       | Some oop \<Rightarrow> do {
           k \<leftarrow> klass_from_oop J m oop;
           if k = 0 then Some []
           else let sym = klass_get_name J m k in
             if sym = 0 then Some [] else symbol_to_string J m sym });
     Some (if name = [] then ''java/lang/Throwable'' else name) }"

definition fill_in_stack_trace_event ::
  "jvm \<Rightarrow> mem \<Rightarrow> (nat \<Rightarrow> string \<Rightarrow> 's \<Rightarrow> outcome \<times> 's) \<Rightarrow> watcher_list \<Rightarrow> addr option \<Rightarrow> 's \<Rightarrow> (bool \<times> 's) option" where
  "fill_in_stack_trace_event J m call l self s = do {
     name \<leftarrow> throwable_name J m self;
     Some (dispatch_event call (wl_callbacks l) name s) }"

section \<open>What a watcher sees\<close>

lemma dispatch_goes_on: "fst (call c n s) \<noteq> Throws_other \<Longrightarrow> dispatch_event call (c # cs) n s = dispatch_event call cs n (snd (call c n s))"
  by (cases "call c n s"; cases "fst (call c n s)") simp_all

lemma dispatch_stops: "fst (call c n s) = Throws_other \<Longrightarrow> dispatch_event call (c # cs) n s = (False, snd (call c n s))"
  by (cases "call c n s") simp

lemma dispatch_append:
  assumes "\<forall>b \<in> set bs. \<forall>s. fst (call b n s) \<noteq> Throws_other"
  shows "dispatch_event call (bs @ cs) n s = dispatch_event call cs n (fold (\<lambda>b s. snd (call b n s)) bs s)"
  using assms
proof (induction bs arbitrary: s)
  case (Cons b bs)
  have "dispatch_event call ((b # bs) @ cs) n s = dispatch_event call (bs @ cs) n (snd (call b n s))"
    using Cons.prems dispatch_goes_on [of call b n s "bs @ cs"] by simp
  also have "\<dots> = dispatch_event call cs n (fold (\<lambda>b s. snd (call b n s)) bs (snd (call b n s)))"
    by (rule Cons.IH) (use Cons.prems in simp)
  finally show ?case by simp
qed simp

text \<open>The class-load detour calls every registered callback once, in the order of registration, with
  the dots of the class name turned into slashes, whatever the callbacks do to the state and also when
  some of them throw a standard exception.\<close>

theorem every_callback_is_called:
  assumes "\<forall>c \<in> set (wl_callbacks l). \<forall>s. fst (call c (internal_name name) s) \<noteq> Throws_other"
  shows "define_class_event call l name s = (True, fold (\<lambda>c s. snd (call c (internal_name name) s)) (wl_callbacks l) s)
     \<and> CHR ''.'' \<notin> set (internal_name name) \<and> length (internal_name name) = length name"
  using dispatch_append [where call = call and n = "internal_name name" and cs = "[]", OF assms] by (auto simp: define_class_event_def internal_name_def)

text \<open>A callback that throws something that is not a \<open>std::exception\<close> ends the dispatch_event: the
  callbacks registered after it are not called for this class, and the exception leaves the detour.\<close>

theorem foreign_exception_silences_the_rest:
  assumes "wl_callbacks l = before @ c # after" and "\<forall>b \<in> set before. \<forall>s. fst (call b (internal_name name) s) \<noteq> Throws_other"
    and "\<forall>s. fst (call c (internal_name name) s) = Throws_other"
  shows "define_class_event call l name s =
     (False, snd (call c (internal_name name) (fold (\<lambda>b s. snd (call b (internal_name name) s)) before s)))"
proof -
  let ?n = "internal_name name" and ?s = "fold (\<lambda>b s. snd (call b (internal_name name) s)) before s"
  have "dispatch_event call (before @ c # after) ?n s = dispatch_event call (c # after) ?n ?s"
    by (rule dispatch_append) (rule assms(2))
  also have "\<dots> = (False, snd (call c ?n ?s))" by (rule dispatch_stops) (use assms(3) in blast)
  finally show ?thesis by (simp add: define_class_event_def assms(1))
qed

lemma hook_from_empty:
  assumes "hook E t name sig d s = Some (True, s')" and "g_hooked_methods s = []"
  shows "\<exists>e. g_hooked_methods s' = [e] \<and> hm_detour e = d \<and> hm_expected_method_name e = name
     \<and> (\<exists>p i2i. p \<in> set (g_hooked_i2i_entries s') \<and> ih_i2i_entry p = i2i)"
proof -
  obtain cn k s1 mth where l: "vh_find_class E cn s = Some (k, s1)" and i: "install E mth d cn name s1 = Some (True, s')"
    using assms(1) by (auto simp: hook_def bind_eq_Some_conv split: option.splits if_splits)
  have "g_hooked_methods s1 = []" using vh_find_class_registry [OF l] assms(2) by (simp add: same_registry_def)
  with install_new_entry [OF i] show ?thesis by auto
qed

lemma register_registry: "register_class E t cn s = Some (ok, s') \<Longrightarrow> g_hooked_methods s' = g_hooked_methods s"
  by (auto simp: register_class_def bind_eq_Some_conv same_registry_def split: if_splits dest!: vh_find_class_registry)

text \<open>Watchers survive a shutdown: \<open>shutdown_hooks\<close> takes the latches back together with the hooks, so
  the first watcher registered afterwards installs the detour again, and it is the only callback.\<close>

theorem rearm_after_shutdown:
  assumes "shutdown_all L w = Some w1"
    and "arm_watcher L type_id cn name sig d cb (ws_class_load w1) (ws_vm w1) = Some (live, l, s)" and "live"
  shows "wl_hook_installed l \<and> wl_callbacks l = [cb]
     \<and> (\<exists>e \<in> set (g_hooked_methods s). hm_detour e = d \<and> hm_expected_method_name e = name) \<and> g_hooked_i2i_entries s \<noteq> []"
proof -
  have e: "ws_class_load w1 = empty_list" "g_hooked_methods (ws_vm w1) = []"
    using assms(1) by (auto simp: shutdown_all_def reset_watcher_latches_def shutdown_hooks_def bind_eq_Some_conv)
  from assms(2,3) obtain s0 where s0: "g_hooked_methods s0 = []" "hook (li_env L) type_id name sig d s0 = Some (True, s)"
    and l: "l = \<lparr>wl_callbacks = [cb], wl_hook_installed = True\<rparr>"
    using register_registry e by (fastforce simp: arm_watcher_def empty_list_def bind_eq_Some_conv Let_def split: if_splits)
  from hook_from_empty [OF s0(2,1)] l show ?thesis by auto
qed

lemma every_callback_is_called_witness:
  "define_class_event (\<lambda>c n log. (Throws_std, log @ [(c, n)])) \<lparr>wl_callbacks = [3, 5], wl_hook_installed = True\<rparr> ''a.B'' []
     = (True, [(3, ''a/B''), (5, ''a/B'')])"
proof -
  let ?call = "\<lambda>(c :: nat) (n :: string) log. (Throws_std, log @ [(c, n)])"
  have "\<forall>c \<in> set (wl_callbacks \<lparr>wl_callbacks = [3, 5], wl_hook_installed = True\<rparr>). \<forall>s. fst (?call c (internal_name ''a.B'') s) \<noteq> Throws_other"
    by simp
  from every_callback_is_called [where call = ?call and name = "''a.B''", OF this] show ?thesis by (simp add: internal_name_def)
qed

lemma foreign_exception_silences_the_rest_witness:
  "define_class_event (\<lambda>c n log. (if c = 3 then Throws_other else Returns, log @ [c])) \<lparr>wl_callbacks = [2, 3, 5], wl_hook_installed = True\<rparr> ''A'' []
     = (False, [2, 3])"
proof -
  let ?call = "\<lambda>c n log. (if c = (3 :: nat) then Throws_other else Returns, log @ [c])"
  have "wl_callbacks \<lparr>wl_callbacks = [2, 3, 5], wl_hook_installed = True\<rparr> = [2] @ 3 # [5]" by simp
  from foreign_exception_silences_the_rest [where call = ?call and name = "''A''", OF this] show ?thesis by simp
qed

definition demo_library :: library where
  "demo_library = \<lparr>li_env = life_env, class_loader_wrapper = 1, throwable_wrapper = 2, define_class_detour = 7, fill_in_stack_trace_detour = 8\<rparr>"

lemma rearm_after_shutdown_witness:
  "\<exists>w1 l s. shutdown_all demo_library \<lparr>ws_vm = life_state life_mem [] [], ws_class_load = \<lparr>wl_callbacks = [1, 2], wl_hook_installed = True\<rparr>,
       ws_exception = empty_list\<rparr> = Some w1
     \<and> arm_watcher demo_library 1 ''A'' [] [] 7 4 (ws_class_load w1) (ws_vm w1) = Some (True, l, s) \<and> wl_callbacks l = [4]
     \<and> (\<exists>e \<in> set (g_hooked_methods s). hm_detour e = 7)"
proof -
  let ?w = "\<lparr>ws_vm = life_state life_mem [] [], ws_class_load = \<lparr>wl_callbacks = [1, 2], wl_hook_installed = True\<rparr>, ws_exception = empty_list\<rparr>"
  let ?w1 = "\<lparr>ws_vm = life_state life_mem [] [], ws_class_load = empty_list, ws_exception = empty_list\<rparr>"
  have "shutdown_hooks life_env (life_state life_mem [] []) = Some (life_state life_mem [] [])"
    by (simp add: shutdown_hooks_def) (simp add: life_state_def)
  then have sd: "shutdown_all demo_library ?w = Some ?w1"
    by (simp add: shutdown_all_def demo_library_def reset_watcher_latches_def)
  obtain s where i: "install life_env 0x50000 7 ''A'' [] (life_state life_mem [] []) = Some (True, s)" using life_install by blast
  have h: "hook life_env 1 [] [] 7 (life_state life_mem [] []) = Some (True, s)"
    using hook_resolved [OF life_resolve, where d = 7] i by auto
  have a: "arm_watcher demo_library 1 ''A'' [] [] 7 4 (ws_class_load ?w1) (ws_vm ?w1)
      = Some (True, \<lparr>wl_callbacks = [4], wl_hook_installed = True\<rparr>, s)"
    using h by (simp add: arm_watcher_def empty_list_def demo_library_def Let_def)
  from rearm_after_shutdown [OF sd a] sd a show ?thesis by auto
qed

text \<open>When the method is hooked already by another detour, \<open>hook\<close> drops the watcher's detour but
  reports success: the latch is set and the handle looks live, yet no entry has the detour, so no
  frame ever runs it and the callback is never called.\<close>

theorem watcher_on_taken_method_is_deaf:
  assumes "resolve_method (li_env L) type_id name sig s = Some (mth, s1)" and "mth \<noteq> 0"
    and "first \<in> set (g_hooked_methods s)" and "hm_method first = mth"
    and "\<forall>h \<in> set (g_hooked_methods s). hm_detour h \<noteq> d" and "\<not> wl_hook_installed l"
  shows "\<exists>l'. arm_watcher L type_id cn name sig d cb l s = Some (True, l', s1) \<and> wl_callbacks l' = wl_callbacks l @ [cb]
     \<and> (\<forall>run fr thread slot x s'. common_detour (li_env L) run fr thread slot s1 = Some (Some x, s') \<longrightarrow> x \<noteq> d)"
proof -
  have r: "same_registry s s1" by (rule resolve_registry [OF assms(1,2)])
  obtain c where c: "Mapping.lookup (type_to_class_map s) type_id = Some c"
    "hook (li_env L) type_id name sig d s = install (li_env L) mth d c name s1" using hook_resolved [OF assms(1,2)] by blast
  have "install (li_env L) mth d c name s1 = Some (True, s1)" using assms(3,4) r by (auto simp: install_def same_registry_def)
  with c assms(6) have "arm_watcher L type_id cn name sig d cb l s
      = Some (True, l\<lparr>wl_callbacks := wl_callbacks l @ [cb], wl_hook_installed := True\<rparr>, s1)"
    by (simp add: arm_watcher_def)
  moreover have "x \<noteq> d" if "common_detour (li_env L) run fr thread slot s1 = Some (Some x, s')" for run fr thread slot x s'
  proof -
    from that obtain m h where "find (\<lambda>h. hm_method h = m) (g_hooked_methods s1) = Some h" "x = hm_detour h"
      by (auto simp: common_detour_def bind_eq_Some_conv split: if_splits option.splits)
    then have "h \<in> set (g_hooked_methods s1)" "x = hm_detour h" by (auto simp: find_Some_iff)
    with assms(5) r show ?thesis by (auto simp: same_registry_def)
  qed
  ultimately show ?thesis by auto
qed

lemma watcher_on_taken_method_is_deaf_witness:
  "\<exists>l'. arm_watcher demo_library 1 ''A'' [] [] 7 4 empty_list (life_state life_mem [reg_demo_hm\<lparr>hm_method := 0x50000, hm_detour := 9\<rparr>] [])
     = Some (True, l', life_state life_mem [reg_demo_hm\<lparr>hm_method := 0x50000, hm_detour := 9\<rparr>] []) \<and> wl_callbacks l' = [4]"
proof -
  let ?s = "life_state life_mem [reg_demo_hm\<lparr>hm_method := 0x50000, hm_detour := 9\<rparr>] []"
  have r: "resolve_method (li_env demo_library) 1 [] [] ?s = Some (0x50000, ?s)"
    using life_resolve by (simp add: demo_library_def)
  from watcher_on_taken_method_is_deaf [OF r, of "reg_demo_hm\<lparr>hm_method := 0x50000, hm_detour := 9\<rparr>" 7 empty_list "''A''" 4]
  show ?thesis by (auto simp: empty_list_def)
qed

end
