(* ===== verification/Lock_Order.thy ===== *)
theory Lock_Order
  imports VM_Prelude
begin

text \<open>
  The mutexes of the library (vmhook.hpp lines 1441, 5877, 6305, 10978, 16111, 16442 and 16607) and
  the order in which its operations take them. An operation is the list of its lock events; what it
  does in between is modelled in the theories of the components. The mutex of the log, which every
  operation may take and release at once, is left out.
\<close>

section \<open>Operations as lock events\<close>

datatype lock = L_class_load | L_exception | L_hooks | L_registration | L_klass_cache | L_field_cache | L_breakpoints | L_cv

datatype lock_op = Acquire lock | Release lock

definition briefly :: "lock \<Rightarrow> lock_op list" where
  "briefly m = [Acquire m, Release m]"

definition find_class_locks :: "lock_op list" where
  "find_class_locks = briefly L_klass_cache @ briefly L_klass_cache"

definition find_field_locks :: "lock_op list" where
  "find_field_locks = briefly L_field_cache @ briefly L_field_cache"

definition register_class_locks :: "lock_op list" where
  "register_class_locks = find_class_locks @ briefly L_registration"

definition hook_locks :: "lock_op list" where
  "hook_locks = find_class_locks @ briefly L_hooks"

definition verify_hooks_locks :: "lock_op list" where
  "verify_hooks_locks = [Acquire L_hooks] @ find_class_locks @ [Release L_hooks]"

definition shutdown_hooks_locks :: "lock_op list" where
  "shutdown_hooks_locks = briefly L_cv @ [Acquire L_hooks] @ briefly L_class_load @ briefly L_exception @ [Release L_hooks]"

text \<open>Registering a watcher whose latch \<open>m\<close> guards: the first one installs the hook under the mutex.\<close>

definition first_watcher_locks :: "lock \<Rightarrow> lock_op list" where
  "first_watcher_locks m = [Acquire m] @ register_class_locks @ hook_locks @ [Release m] @ briefly m"

definition watch_static_field_locks :: "lock_op list" where
  "watch_static_field_locks = find_class_locks @ find_field_locks @ briefly L_breakpoints"

datatype operation = Op_hook | Op_verify | Op_stop_hook | Op_shutdown | Op_register | Op_find_field
  | Op_first_class_load | Op_next_class_load | Op_class_load_event | Op_stop_class_load
  | Op_first_exception | Op_next_exception | Op_exception_event | Op_stop_exception
  | Op_watch_field | Op_trap | Op_stop_field | Op_worker_wait

fun lock_trace :: "operation \<Rightarrow> lock_op list" where
  "lock_trace Op_hook = hook_locks"
| "lock_trace Op_verify = verify_hooks_locks"
| "lock_trace Op_stop_hook = briefly L_hooks"
| "lock_trace Op_shutdown = shutdown_hooks_locks"
| "lock_trace Op_register = register_class_locks"
| "lock_trace Op_find_field = find_class_locks @ find_field_locks"
| "lock_trace Op_first_class_load = first_watcher_locks L_class_load"
| "lock_trace Op_next_class_load = briefly L_class_load @ briefly L_class_load"
| "lock_trace Op_class_load_event = briefly L_class_load"
| "lock_trace Op_stop_class_load = briefly L_class_load"
| "lock_trace Op_first_exception = first_watcher_locks L_exception"
| "lock_trace Op_next_exception = briefly L_exception @ briefly L_exception"
| "lock_trace Op_exception_event = briefly L_exception"
| "lock_trace Op_stop_exception = briefly L_exception"
| "lock_trace Op_watch_field = watch_static_field_locks"
| "lock_trace Op_trap = briefly L_breakpoints"
| "lock_trace Op_stop_field = briefly L_breakpoints"
| "lock_trace Op_worker_wait = briefly L_cv"

lemmas lock_traces = briefly_def find_class_locks_def find_field_locks_def register_class_locks_def hook_locks_def verify_hooks_locks_def
  shutdown_hooks_locks_def first_watcher_locks_def watch_static_field_locks_def

section \<open>Threads\<close>

text \<open>The holder of every mutex and what every thread still has to do.\<close>

record lock_state =
  holder :: "lock \<Rightarrow> nat option"
  todo :: "lock_op list list"

inductive lock_step :: "lock_state \<Rightarrow> lock_state \<Rightarrow> bool" where
  acquire: "i < length (todo s) \<Longrightarrow> todo s ! i = Acquire m # p \<Longrightarrow> holder s m = None \<Longrightarrow>
    lock_step s \<lparr>holder = (holder s)(m \<mapsto> i), todo = (todo s)[i := p]\<rparr>"
| release: "i < length (todo s) \<Longrightarrow> todo s ! i = Release m # p \<Longrightarrow>
    lock_step s \<lparr>holder = (holder s)(m := None), todo = (todo s)[i := p]\<rparr>"

definition lock_init :: lock_state where
  "lock_init = \<lparr>holder = (\<lambda>_. None), todo = []\<rparr>"

definition begin_op :: "operation \<Rightarrow> lock_state \<Rightarrow> lock_state" where
  "begin_op op s = s\<lparr>todo := todo s @ [lock_trace op]\<rparr>"

inductive lock_reach :: "operation set \<Rightarrow> lock_state \<Rightarrow> bool" for ops :: "operation set" where
  lock_start: "lock_reach ops lock_init"
| lock_begin: "lock_reach ops s \<Longrightarrow> op \<in> ops \<Longrightarrow> lock_reach ops (begin_op op s)"
| lock_move: "lock_reach ops s \<Longrightarrow> lock_step s s' \<Longrightarrow> lock_reach ops s'"

definition finished_all :: "lock_state \<Rightarrow> bool" where
  "finished_all s \<longleftrightarrow> (\<forall>p \<in> set (todo s). p = [])"

inductive_cases lock_stepE: "lock_step s s'"

lemma length_update:
  "i < length xs \<Longrightarrow> sum_list (map length (xs[i := p])) + length (xs ! i) = sum_list (map length xs) + length p"
  by (induction xs arbitrary: i) (auto split: nat.splits)

section \<open>Ordered locking\<close>

text \<open>The rest \<open>p\<close> of a thread that holds the mutexes \<open>held\<close> takes only mutexes above them, and gives all back.\<close>

fun ordered :: "(lock \<Rightarrow> nat) \<Rightarrow> lock list \<Rightarrow> lock_op list \<Rightarrow> bool" where
  "ordered rank held [] = (held = [])"
| "ordered rank held (Acquire m # p) = ((\<forall>h \<in> set held. rank h < rank m) \<and> ordered rank (m # held) p)"
| "ordered rank held (Release m # p) = (m \<in> set held \<and> ordered rank (removeAll m held) p)"

lemma greatest_value:
  fixes f :: "'a \<Rightarrow> nat"
  assumes "finite W" and "W \<noteq> {}"
  shows "\<exists>m \<in> W. \<forall>m' \<in> W. f m' \<le> f m"
proof -
  have "Max (f ` W) \<in> f ` W" by (rule Max_in) (use assms in auto)
  then obtain m where m: "m \<in> W" "f m = Max (f ` W)" by auto
  have "f m' \<le> f m" if "m' \<in> W" for m' using Max_ge [of "f ` W" "f m'"] assms(1) m(2) that by simp
  with m(1) show ?thesis by blast
qed

locale lock_order =
  fixes rank :: "lock \<Rightarrow> nat" and ops :: "operation set"
  assumes in_order: "op \<in> ops \<Longrightarrow> ordered rank [] (lock_trace op)"
begin

definition held_ok :: "lock_state \<Rightarrow> lock list list \<Rightarrow> bool" where
  "held_ok s held \<longleftrightarrow> length held = length (todo s) \<and> (\<forall>i < length held. ordered rank (held ! i) (todo s ! i))
     \<and> (\<forall>m i. holder s m = Some i \<longleftrightarrow> i < length held \<and> m \<in> set (held ! i))"

lemma step_held:
  assumes "held_ok s held" and "lock_step s s'"
  shows "\<exists>held'. held_ok s' held'"
  using assms(2)
proof cases
  case (acquire i m p)
  have l: "length held = length (todo s)" and o: "\<And>j. j < length held \<Longrightarrow> ordered rank (held ! j) (todo s ! j)"
    and h: "\<And>m j. holder s m = Some j \<longleftrightarrow> j < length held \<and> m \<in> set (held ! j)"
    using assms(1) by (auto simp: held_ok_def)
  have "ordered rank (m # held ! i) p" using o [of i] acquire l by simp
  moreover have "m \<notin> set (held ! j)" if "j < length held" for j using h [of m j] acquire that by simp
  ultimately have "held_ok s' (held[i := m # held ! i])"
    using acquire l o h by (auto simp: held_ok_def nth_list_update)
  then show ?thesis ..
next
  case (release i m p)
  have l: "length held = length (todo s)" and o: "\<And>j. j < length held \<Longrightarrow> ordered rank (held ! j) (todo s ! j)"
    and h: "\<And>m j. holder s m = Some j \<longleftrightarrow> j < length held \<and> m \<in> set (held ! j)"
    using assms(1) by (auto simp: held_ok_def)
  have r: "ordered rank (removeAll m (held ! i)) p" "holder s m = Some i" using o [of i] release l h by auto
  moreover have "m \<notin> set (held ! j)" if "j < length held" "j \<noteq> i" for j using h [of m j] r(2) that by simp
  ultimately have "held_ok s' (held[i := removeAll m (held ! i)])"
    using release l o h by (auto simp: held_ok_def nth_list_update)
  then show ?thesis ..
qed

lemma reach_held: "lock_reach ops s \<Longrightarrow> \<exists>held. held_ok s held"
proof (induction rule: lock_reach.induct)
  case lock_start
  have "held_ok lock_init []" by (simp add: held_ok_def lock_init_def)
  then show ?case ..
next
  case (lock_begin s op)
  then obtain held where h: "held_ok s held" by blast
  have "held_ok (begin_op op s) (held @ [[]])"
    using h in_order [OF lock_begin.hyps(2)] by (auto simp: held_ok_def begin_op_def nth_append less_Suc_eq)
  then show ?case ..
qed (use step_held in blast)

lemma can_move:
  assumes "held_ok s held" and "\<not> finished_all s"
  shows "\<exists>s'. lock_step s s'"
proof (rule ccontr)
  assume stuck: "\<not> ?thesis"
  have l: "length held = length (todo s)" and o: "\<And>j. j < length held \<Longrightarrow> ordered rank (held ! j) (todo s ! j)"
    and h: "\<And>m j. holder s m = Some j \<longleftrightarrow> j < length held \<and> m \<in> set (held ! j)"
    using assms(1) by (auto simp: held_ok_def)
  have waits: "\<exists>m p j. todo s ! i = Acquire m # p \<and> holder s m = Some j" if i: "i < length (todo s)" "todo s ! i \<noteq> []" for i
  proof (cases "todo s ! i")
    case (Cons e p)
    show ?thesis
    proof (cases e)
      case (Acquire m)
      with Cons i stuck acquire [of i s m p] have "holder s m \<noteq> None" by auto
      with Cons Acquire show ?thesis by auto
    next
      case (Release m)
      with Cons i stuck release [of i s m p] show ?thesis by auto
    qed
  qed (use i in simp)
  let ?W = "{m. \<exists>i p. i < length (todo s) \<and> todo s ! i = Acquire m # p}"
  obtain i0 where "i0 < length (todo s)" "todo s ! i0 \<noteq> []" using assms(2) by (auto simp: finished_all_def in_set_conv_nth)
  with waits obtain m0 where "m0 \<in> ?W" by blast
  moreover have "finite (UNIV :: lock set)"
  proof -
    have "(UNIV :: lock set) = {L_class_load, L_exception, L_hooks, L_registration, L_klass_cache, L_field_cache, L_breakpoints, L_cv}"
      using lock.exhaust by blast
    then show ?thesis by (metis finite.simps)
  qed
  then have "finite ?W" by (rule finite_subset [rotated]) simp
  ultimately obtain m where m: "m \<in> ?W" "\<forall>m' \<in> ?W. rank m' \<le> rank m"
    using greatest_value [of ?W rank] by blast
  from m(1) obtain i p where "i < length (todo s)" "todo s ! i = Acquire m # p" by blast
  with waits obtain j where j: "holder s m = Some j" by (metis list.discI list.inject lock_op.inject(1))
  with h have jl: "j < length held" and mh: "m \<in> set (held ! j)" by auto
  have "todo s ! j \<noteq> []" using o [OF jl] mh by auto
  with waits jl l obtain m' p' where w: "todo s ! j = Acquire m' # p'" by metis
  then have "rank m < rank m'" using o [OF jl] mh by simp
  moreover have "m' \<in> ?W" using w jl l by auto
  ultimately show False using m(2) by (auto simp: not_le [symmetric])
qed

lemma step_shrinks: "lock_step s s' \<Longrightarrow> sum_list (map length (todo s')) < sum_list (map length (todo s))"
proof (erule lock_stepE)
  fix i m p
  assume "s' = \<lparr>holder = (holder s)(m \<mapsto> i), todo = (todo s)[i := p]\<rparr>" "i < length (todo s)" "todo s ! i = Acquire m # p"
  then show ?thesis using length_update [of i "todo s" p] by simp
next
  fix i m p
  assume "s' = \<lparr>holder = (holder s)(m := None), todo = (todo s)[i := p]\<rparr>" "i < length (todo s)" "todo s ! i = Release m # p"
  then show ?thesis using length_update [of i "todo s" p] by simp
qed

lemma completes:
  assumes "held_ok s held"
  shows "\<exists>s'. lock_step\<^sup>*\<^sup>* s s' \<and> finished_all s'"
  using assms
proof (induction "sum_list (map length (todo s))" arbitrary: s held rule: less_induct)
  case less
  show ?case
  proof (cases "finished_all s")
    case False
    with can_move less.prems obtain s1 where s1: "lock_step s s1" by blast
    obtain held1 where "held_ok s1 held1" using step_held [OF less.prems s1] ..
    with less.hyps [OF step_shrinks [OF s1]] obtain s' where "lock_step\<^sup>*\<^sup>* s1 s'" "finished_all s'" by blast
    with s1 show ?thesis by (meson converse_rtranclp_into_rtranclp)
  qed blast
qed

lemma reached_completes: "lock_reach ops s \<Longrightarrow> \<exists>s'. lock_step\<^sup>*\<^sup>* s s' \<and> finished_all s'"
  using reach_held completes by blast

end

section \<open>The orders that the library keeps\<close>

text \<open>Without a shutdown, watchers come before the registry; without a first registration, after it.\<close>

fun watchers_first :: "lock \<Rightarrow> nat" where
  "watchers_first L_klass_cache = 2"
| "watchers_first L_hooks = 1"
| "watchers_first L_registration = 1"
| "watchers_first m = 0"

fun registry_first :: "lock \<Rightarrow> nat" where
  "registry_first L_hooks = 0"
| "registry_first m = 1"

interpretation before_shutdown: lock_order watchers_first "- {Op_shutdown}"
proof
  fix op assume "op \<in> - {Op_shutdown}"
  then show "ordered watchers_first [] (lock_trace op)" by (cases op) (simp_all add: lock_traces)
qed

interpretation hooks_installed: lock_order registry_first "- {Op_first_class_load, Op_first_exception}"
proof
  fix op assume "op \<in> - {Op_first_class_load, Op_first_exception}"
  then show "ordered registry_first [] (lock_trace op)" by (cases op) (simp_all add: lock_traces)
qed

lemma lock_reach_mono: "lock_reach ops s \<Longrightarrow> ops \<subseteq> ops' \<Longrightarrow> lock_reach ops' s"
  by (induction rule: lock_reach.induct) (auto intro: lock_reach.intros)

text \<open>C17. Unless a shutdown meets the first registration of a watcher, the library's operations cannot
  deadlock: whatever operations have been started on whatever threads, and however they were
  interleaved so far, all of them can be brought to their end.\<close>

theorem operations_complete:
  assumes "lock_reach ops s" and "Op_shutdown \<notin> ops \<or> Op_first_class_load \<notin> ops \<and> Op_first_exception \<notin> ops"
  shows "\<exists>s'. lock_step\<^sup>*\<^sup>* s s' \<and> finished_all s'"
  using assms(2)
proof
  assume "Op_shutdown \<notin> ops"
  then have "lock_reach (- {Op_shutdown}) s" by (intro lock_reach_mono [OF assms(1)]) auto
  then show ?thesis by (rule before_shutdown.reached_completes)
next
  assume "Op_first_class_load \<notin> ops \<and> Op_first_exception \<notin> ops"
  then have "lock_reach (- {Op_first_class_load, Op_first_exception}) s" by (intro lock_reach_mono [OF assms(1)]) auto
  then show ?thesis by (rule hooks_installed.reached_completes)
qed

section \<open>Two runs\<close>

text \<open>The step of thread \<open>i\<close>, and the steps of a list of threads.\<close>

definition step_thread :: "nat \<Rightarrow> lock_state \<Rightarrow> lock_state option" where
  "step_thread i s =
     (if i < length (todo s)
      then (case todo s ! i of [] \<Rightarrow> None
        | Acquire m # p \<Rightarrow> if holder s m = None then Some \<lparr>holder = (holder s)(m \<mapsto> i), todo = (todo s)[i := p]\<rparr> else None
        | Release m # p \<Rightarrow> Some \<lparr>holder = (holder s)(m := None), todo = (todo s)[i := p]\<rparr>)
      else None)"

fun step_threads :: "nat list \<Rightarrow> lock_state \<Rightarrow> lock_state option" where
  "step_threads [] s = Some s"
| "step_threads (i # is) s = step_thread i s \<bind> step_threads is"

lemma step_thread_sound: "step_thread i s = Some s' \<Longrightarrow> lock_step s s'"
  by (auto simp: step_thread_def split: if_splits list.splits lock_op.splits intro: acquire release)

lemma step_thread_reach: "lock_reach ops s \<Longrightarrow> step_thread i s = Some s' \<Longrightarrow> lock_reach ops s'"
  by (rule lock_move [OF _ step_thread_sound])

lemma step_threads_sound: "step_threads is s = Some s' \<Longrightarrow> lock_reach ops s \<Longrightarrow> lock_reach ops s'"
  by (induction "is" s rule: step_threads.induct) (auto simp: bind_eq_Some_conv dest: step_thread_reach)

lemma operations_complete_witness:
  "\<exists>s s'. step_threads [0, 1, 1] (begin_op Op_hook (begin_op Op_verify lock_init)) = Some s \<and> lock_step\<^sup>*\<^sup>* s s' \<and> finished_all s'"
proof -
  let ?s0 = "begin_op Op_hook (begin_op Op_verify lock_init)"
  have r: "lock_reach {Op_hook, Op_verify} ?s0" by (intro lock_begin lock_start) simp_all
  have "\<exists>s. step_threads [0, 1, 1] ?s0 = Some s"
    by (simp add: begin_op_def lock_init_def lock_traces step_thread_def)
  then obtain s where s: "step_threads [0, 1, 1] ?s0 = Some s" ..
  have "Op_shutdown \<notin> {Op_hook, Op_verify} \<or> Op_first_class_load \<notin> {Op_hook, Op_verify} \<and> Op_first_exception \<notin> {Op_hook, Op_verify}" by simp
  from operations_complete [OF step_threads_sound [OF s r] this] s show ?thesis by blast
qed

text \<open>C18. A shutdown that meets the first registration of a class-load watcher can deadlock: the shutdown
  holds the registry's mutex and waits for the watcher's, which it takes to reset the latch, while
  the registration holds the watcher's mutex and waits for the registry's to install its hook.\<close>

theorem shutdown_deadlocks:
  "\<exists>s. lock_reach {Op_shutdown, Op_first_class_load} s \<and> (\<forall>s'. \<not> lock_step s s')
     \<and> length (todo s) = 2 \<and> list_all (\<lambda>p. p \<noteq> []) (todo s)"
proof -
  let ?s0 = "begin_op Op_first_class_load (begin_op Op_shutdown lock_init)"
  let ?sched = "[0, 0, 0, 1, 1, 1, 1, 1, 1, 1, 1, 1, 1, 1]"
  have r: "lock_reach {Op_shutdown, Op_first_class_load} ?s0" by (intro lock_begin lock_start) simp_all
  have "\<exists>h. step_threads ?sched ?s0 = Some \<lparr>holder = h, todo = [briefly L_class_load @ briefly L_exception @ [Release L_hooks],
      briefly L_hooks @ [Release L_class_load] @ briefly L_class_load]\<rparr> \<and> h L_class_load = Some 1 \<and> h L_hooks = Some 0"
    by (simp add: begin_op_def lock_init_def lock_traces step_thread_def)
  then obtain h where h: "step_threads ?sched ?s0 = Some \<lparr>holder = h, todo = [briefly L_class_load @ briefly L_exception @ [Release L_hooks],
      briefly L_hooks @ [Release L_class_load] @ briefly L_class_load]\<rparr>" "h L_class_load = Some 1" "h L_hooks = Some 0" by blast
  let ?s = "\<lparr>holder = h, todo = [briefly L_class_load @ briefly L_exception @ [Release L_hooks],
      briefly L_hooks @ [Release L_class_load] @ briefly L_class_load]\<rparr>"
  have "\<not> lock_step ?s s'" for s'
    using h(2,3) by (auto simp: briefly_def less_Suc_eq nth_Cons' elim!: lock_stepE split: if_splits)
  with step_threads_sound [OF h(1) r] show ?thesis by (intro exI [of _ ?s]) (simp add: briefly_def)
qed

end
