(* ===== verification/Injector.thy ===== *)
theory Injector
  imports VM_Prelude "HOL-Library.Multiset"
begin

text \<open>
  The Windows injector (src/injector/src/main.cpp): choosing the process and loading the library
  into it with a remote thread.

  The functions of the operating system are the record \<open>win32\<close> over a state \<open>'w\<close> of the system; a
  handle and an address are words, null or zero for failure. A wide string is a list of 16-bit
  units. The output of the program is left out.
\<close>

type_synonym wstring = "16 word list"

record 'w win32 =
  module_file_name :: "'w \<Rightarrow> wstring \<times> nat \<times> 'w"
  file_exists :: "wstring \<Rightarrow> 'w \<Rightarrow> bool"
  sibling :: "wstring \<Rightarrow> wstring"
  snapshot :: "'w \<Rightarrow> u64 option \<times> 'w"
  processes :: "u64 \<Rightarrow> 'w \<Rightarrow> (u32 \<times> wstring) list"
  same_name :: "wstring \<Rightarrow> wstring \<Rightarrow> bool"
  open_process :: "u32 \<Rightarrow> 'w \<Rightarrow> u64 \<times> 'w"
  close_handle :: "u64 \<Rightarrow> 'w \<Rightarrow> 'w"
  virtual_alloc :: "u64 \<Rightarrow> nat \<Rightarrow> 'w \<Rightarrow> addr \<times> 'w"
  virtual_free :: "u64 \<Rightarrow> addr \<Rightarrow> 'w \<Rightarrow> 'w"
  write_memory :: "u64 \<Rightarrow> addr \<Rightarrow> u8 list \<Rightarrow> 'w \<Rightarrow> bool \<times> 'w"
  load_library :: addr
  create_remote_thread :: "u64 \<Rightarrow> addr \<Rightarrow> addr \<Rightarrow> 'w \<Rightarrow> u64 \<times> 'w"
  wait_for :: "u64 \<Rightarrow> 'w \<Rightarrow> 'w"
  exit_code_of :: "u64 \<Rightarrow> 'w \<Rightarrow> u32"

definition max_path :: nat where "max_path = 260"

section \<open>The program\<close>

text \<open>\<open>sibling\<close> gives the path of vmhook.dll in the directory of the executable.\<close>

definition resolve_dll_path :: "'w win32 \<Rightarrow> 'w \<Rightarrow> wstring \<times> 'w" where
  "resolve_dll_path W w =
     (case module_file_name W w of (path, len, w) \<Rightarrow> if len = 0 \<or> max_path \<le> len then ([], w) else (sibling W path, w))"

definition find_processes :: "'w win32 \<Rightarrow> wstring \<Rightarrow> 'w \<Rightarrow> (u32 \<times> wstring) list \<times> 'w" where
  "find_processes W exe_name w =
     (case snapshot W w of
        (None, w) \<Rightarrow> ([], w)
      | (Some h, w) \<Rightarrow> (filter (\<lambda>(pid, name). same_name W name exe_name) (processes W h w), close_handle W h w))"

text \<open>The bytes of the path with its terminator, as they lie in memory.\<close>

definition path_bytes :: "wstring \<Rightarrow> u8 list" where
  "path_bytes path = concat (map (\<lambda>u. [ucast u, ucast (drop_bit 8 u)]) (path @ [0]))"

definition inject_dll :: "'w win32 \<Rightarrow> u32 \<Rightarrow> wstring \<Rightarrow> 'w \<Rightarrow> bool \<times> 'w" where
  "inject_dll W pid dll_path w = (
     let (process_handle, w) = open_process W pid w in
     if process_handle = 0 then (False, w)
     else
       let (remote_buffer, w) = virtual_alloc W process_handle ((length dll_path + 1) * 2) w in
       if remote_buffer = 0 then (False, close_handle W process_handle w)
       else
         let (written, w) = write_memory W process_handle remote_buffer (path_bytes dll_path) w in
         if \<not> written then (False, close_handle W process_handle (virtual_free W process_handle remote_buffer w))
         else
           let (remote_thread, w) = create_remote_thread W process_handle (load_library W) remote_buffer w in
           if remote_thread = 0 then (False, close_handle W process_handle (virtual_free W process_handle remote_buffer w))
           else
             let w = wait_for W remote_thread w;
                 exit_code = exit_code_of W remote_thread w;
                 w = close_handle W remote_thread w;
                 w = virtual_free W process_handle remote_buffer w
             in (exit_code \<noteq> 0, close_handle W process_handle w))"

text \<open>\<open>std::stoul\<close> on the argument: leading blanks, a sign, digits; \<open>None\<close> when it throws. \<open>unsigned long\<close> has 32 bits here.\<close>

fun digits_value :: "nat \<Rightarrow> string \<Rightarrow> nat" where
  "digits_value acc [] = acc"
| "digits_value acc (c # cs) = (if c \<in> set ''0123456789'' then digits_value (10 * acc + (of_char c - 48)) cs else acc)"

definition unsigned_prefix :: "string \<Rightarrow> nat option" where
  "unsigned_prefix s = (if s \<noteq> [] \<and> hd s \<in> set ''0123456789'' \<and> digits_value 0 s < 2 ^ 32 then Some (digits_value 0 s) else None)"

definition stoul :: "string \<Rightarrow> u32 option" where
  "stoul s = (
     let s = dropWhile (\<lambda>c. of_char c \<in> {9, 10, 11, 12, 13, 32 :: nat}) s in
     if s \<noteq> [] \<and> hd s = CHR ''-'' then map_option (\<lambda>n. - of_nat n) (unsigned_prefix (tl s))
     else map_option of_nat (unsigned_prefix (if s \<noteq> [] \<and> hd s = CHR ''+'' then tl s else s)))"

definition wide :: "string \<Rightarrow> wstring" where
  "wide s = map of_char s"

text \<open>The process to inject into, or \<open>None\<close> for one of the failures.\<close>

definition choose_target :: "'w win32 \<Rightarrow> string list \<Rightarrow> 'w \<Rightarrow> u32 option \<times> 'w" where
  "choose_target W args w =
     (case args of
        a # _ \<Rightarrow> (stoul a, w)
      | [] \<Rightarrow>
          let (ps, w) = find_processes W (wide ''javaw.exe'') w;
              (ps, w) = (if ps = [] then find_processes W (wide ''java.exe'') w else (ps, w))
          in (case ps of [(pid, name)] \<Rightarrow> (Some pid, w) | _ \<Rightarrow> (None, w)))"

text \<open>The exit status is success or failure; \<open>args\<close> is what follows the program's name.\<close>

definition injector_main :: "'w win32 \<Rightarrow> string list \<Rightarrow> 'w \<Rightarrow> bool \<times> 'w" where
  "injector_main W args w = (
     let (dll_path, w) = resolve_dll_path W w in
     if dll_path = [] \<or> \<not> file_exists W dll_path w then (False, w)
     else (case choose_target W args w of
             (None, w) \<Rightarrow> (False, w)
           | (Some pid, w) \<Rightarrow> inject_dll W pid dll_path w))"

section \<open>What it leaves behind\<close>

text \<open>
  The documented effect of the functions on the open handles of the injector and on the blocks it
  allocated in other processes: opening adds a handle, closing takes one away, and so on; the
  others change neither.
\<close>

definition win32_contract :: "'w win32 \<Rightarrow> ('w \<Rightarrow> u64 multiset) \<Rightarrow> ('w \<Rightarrow> (u64 \<times> addr) multiset) \<Rightarrow> bool" where
  "win32_contract W handles blocks \<longleftrightarrow>
     (\<forall>w path n w'. module_file_name W w = (path, n, w') \<longrightarrow> handles w' = handles w \<and> blocks w' = blocks w)
   \<and> (\<forall>w h w'. snapshot W w = (h, w') \<longrightarrow>
        handles w' = (case h of None \<Rightarrow> handles w | Some h \<Rightarrow> add_mset h (handles w)) \<and> blocks w' = blocks w)
   \<and> (\<forall>pid w h w'. open_process W pid w = (h, w') \<longrightarrow>
        handles w' = (if h = 0 then handles w else add_mset h (handles w)) \<and> blocks w' = blocks w)
   \<and> (\<forall>h w. handles (close_handle W h w) = handles w - {#h#} \<and> blocks (close_handle W h w) = blocks w)
   \<and> (\<forall>p n w a w'. virtual_alloc W p n w = (a, w') \<longrightarrow>
        handles w' = handles w \<and> blocks w' = (if a = 0 then blocks w else add_mset (p, a) (blocks w)))
   \<and> (\<forall>p a w. handles (virtual_free W p a w) = handles w \<and> blocks (virtual_free W p a w) = blocks w - {#(p, a)#})
   \<and> (\<forall>p a bs w b w'. write_memory W p a bs w = (b, w') \<longrightarrow> handles w' = handles w \<and> blocks w' = blocks w)
   \<and> (\<forall>p f a w h w'. create_remote_thread W p f a w = (h, w') \<longrightarrow>
        handles w' = (if h = 0 then handles w else add_mset h (handles w)) \<and> blocks w' = blocks w)
   \<and> (\<forall>h w. handles (wait_for W h w) = handles w \<and> blocks (wait_for W h w) = blocks w)"

lemma contract_rules:
  assumes "win32_contract W handles blocks"
  shows "module_file_name W w = (path, n, w') \<Longrightarrow> handles w' = handles w \<and> blocks w' = blocks w"
    and "snapshot W w = (h, w') \<Longrightarrow> handles w' = (case h of None \<Rightarrow> handles w | Some h \<Rightarrow> add_mset h (handles w)) \<and> blocks w' = blocks w"
    and "open_process W pid w = (p, w') \<Longrightarrow> handles w' = (if p = 0 then handles w else add_mset p (handles w)) \<and> blocks w' = blocks w"
    and "handles (close_handle W p w) = handles w - {#p#}" and "blocks (close_handle W p w) = blocks w"
    and "virtual_alloc W p k w = (a, w') \<Longrightarrow> handles w' = handles w \<and> blocks w' = (if a = 0 then blocks w else add_mset (p, a) (blocks w))"
    and "handles (virtual_free W p a w) = handles w" and "blocks (virtual_free W p a w) = blocks w - {#(p, a)#}"
    and "write_memory W p a bs w = (b, w') \<Longrightarrow> handles w' = handles w \<and> blocks w' = blocks w"
    and "create_remote_thread W p f a w = (t, w') \<Longrightarrow> handles w' = (if t = 0 then handles w else add_mset t (handles w)) \<and> blocks w' = blocks w"
    and "handles (wait_for W p w) = handles w" and "blocks (wait_for W p w) = blocks w"
  using assms by (simp_all add: win32_contract_def)

lemma inject_balance:
  assumes "win32_contract W handles blocks" and "inject_dll W pid path w = (ok, w')"
  shows "handles w' = handles w \<and> blocks w' = blocks w"
proof -
  note c = contract_rules [OF assms(1)]
  obtain p w1 where o: "open_process W pid w = (p, w1)" by (cases "open_process W pid w")
  show ?thesis
  proof (cases "p = 0")
    case False
    obtain a w2 where a: "virtual_alloc W p ((length path + 1) * 2) w1 = (a, w2)" by (cases "virtual_alloc W p ((length path + 1) * 2) w1")
    obtain b w3 where b: "write_memory W p a (path_bytes path) w2 = (b, w3)" by (cases "write_memory W p a (path_bytes path) w2")
    obtain t w4 where t: "create_remote_thread W p (load_library W) a w3 = (t, w4)" by (cases "create_remote_thread W p (load_library W) a w3")
    show ?thesis
      using assms(2) o False a b t c(3) [OF o] c(6) [OF a] c(9) [OF b] c(10) [OF t]
      by (auto simp: inject_dll_def Let_def c split: if_splits)
  qed (use assms(2) o c(3) [OF o] in \<open>auto simp: inject_dll_def\<close>)
qed

lemma find_balance:
  assumes "win32_contract W handles blocks" and "find_processes W name w = (ps, w')"
  shows "handles w' = handles w \<and> blocks w' = blocks w"
proof -
  note c = contract_rules [OF assms(1)]
  obtain h w1 where s: "snapshot W w = (h, w1)" by (cases "snapshot W w")
  show ?thesis using assms(2) s c(2) [OF s] by (cases h) (auto simp: find_processes_def c)
qed

lemma choose_balance:
  assumes "win32_contract W handles blocks" and "choose_target W args w = (pid, w')"
  shows "handles w' = handles w \<and> blocks w' = blocks w"
proof (cases args)
  case Nil
  obtain ps w1 where f: "find_processes W (wide ''javaw.exe'') w = (ps, w1)" by (cases "find_processes W (wide ''javaw.exe'') w")
  obtain qs w2 where g: "find_processes W (wide ''java.exe'') w1 = (qs, w2)" by (cases "find_processes W (wide ''java.exe'') w1")
  show ?thesis
    using assms(2) Nil f g find_balance [OF assms(1) f] find_balance [OF assms(1) g]
    by (auto simp: choose_target_def Let_def split: list.splits prod.splits if_splits)
qed (use assms(2) in \<open>simp add: choose_target_def\<close>)

text \<open>C40. The injector leaves nothing behind: on every path, failures included, every handle it opened is
  closed again and every block it allocated in the target is freed.\<close>

theorem injector_leaves_nothing:
  assumes "win32_contract W handles blocks" and "injector_main W args w = (ok, w')"
  shows "handles w' = handles w \<and> blocks w' = blocks w"
proof -
  obtain path n w1 where m: "module_file_name W w = (path, n, w1)" by (cases "module_file_name W w")
  obtain pid w2 where t: "choose_target W args w1 = (pid, w2)" by (cases "choose_target W args w1")
  have r: "resolve_dll_path W w = (if n = 0 \<or> max_path \<le> n then [] else sibling W path, w1)" by (simp add: resolve_dll_path_def m)
  note b = contract_rules(1) [OF assms(1) m] choose_balance [OF assms(1) t]
  show ?thesis
  proof (cases pid)
    case None
    with assms(2) r t b show ?thesis by (auto simp: injector_main_def Let_def split: if_splits)
  next
    case (Some q)
    then show ?thesis
      using assms(2) r t b inject_balance [OF assms(1), of q _ w2 ok w'] by (fastforce simp: injector_main_def Let_def split: if_splits)
  qed
qed

text \<open>Without an argument, only a process that is alone among those of its name is chosen.\<close>

theorem automatic_target_is_unique:
  assumes "choose_target W [] w = (Some pid, w')"
  shows "\<exists>name w1. find_processes W (wide ''javaw.exe'') w = ([(pid, name)], w')
     \<or> find_processes W (wide ''javaw.exe'') w = ([], w1) \<and> find_processes W (wide ''java.exe'') w1 = ([(pid, name)], w')"
proof -
  obtain ps w1 where f: "find_processes W (wide ''javaw.exe'') w = (ps, w1)" by (cases "find_processes W (wide ''javaw.exe'') w")
  show ?thesis
  proof (cases "ps = []")
    case True
    obtain qs w2 where g: "find_processes W (wide ''java.exe'') w1 = (qs, w2)" by (cases "find_processes W (wide ''java.exe'') w1")
    with True f assms show ?thesis by (auto simp: choose_target_def Let_def split: list.splits prod.splits)
  qed (use f assms in \<open>auto simp: choose_target_def Let_def split: list.splits prod.splits\<close>)
qed

section \<open>A system with one JVM\<close>

text \<open>Its state is the open handles and the allocated blocks; every call succeeds.\<close>

definition demo_win32 :: "(u64 list \<times> (u64 \<times> addr) list) win32" where
  "demo_win32 = \<lparr>module_file_name = (\<lambda>w. (wide ''i.exe'', 5, w)), file_exists = (\<lambda>_ _. True), sibling = (\<lambda>_. wide ''vmhook.dll''),
     snapshot = (\<lambda>(hs, bs). (Some 4, 4 # hs, bs)), processes = (\<lambda>_ _. [(77, wide ''java.exe''), (5, wide ''x'')]), same_name = (=),
     open_process = (\<lambda>_ (hs, bs). (8, 8 # hs, bs)), close_handle = (\<lambda>h (hs, bs). (remove1 h hs, bs)),
     virtual_alloc = (\<lambda>p n (hs, bs). (0x10000, hs, (p, 0x10000) # bs)), virtual_free = (\<lambda>p a (hs, bs). (hs, remove1 (p, a) bs)),
     write_memory = (\<lambda>_ _ _ w. (True, w)), load_library = 0x7000, create_remote_thread = (\<lambda>_ _ _ (hs, bs). (12, 12 # hs, bs)),
     wait_for = (\<lambda>_ w. w), exit_code_of = (\<lambda>_ _. 1)\<rparr>"

lemma demo_win32_contract: "win32_contract demo_win32 (\<lambda>w. mset (fst w)) (\<lambda>w. mset (snd w))"
  unfolding win32_contract_def demo_win32_def by (auto split: prod.splits)

lemma injector_leaves_nothing_witness:
  "\<exists>w'. injector_main demo_win32 [] ([3], []) = (True, w') \<and> mset (fst w') = {#3#} \<and> mset (snd w') = {#}"
proof -
  have "fst (injector_main demo_win32 [] ([3], []))" by code_simp
  then obtain w' where r: "injector_main demo_win32 [] ([3], []) = (True, w')" by (cases "injector_main demo_win32 [] ([3], [])") simp
  from injector_leaves_nothing [OF demo_win32_contract r] r show ?thesis by simp
qed

end
