(* ===== verification/Simulation.thy ===== *)
theory Simulation
  imports Main
begin

text \<open>
  Runs of a labelled step relation, and the contract between a detailed step relation and an abstract
  one: a mapping of the states under which each detailed step is an abstract step with the same label.
\<close>

inductive run :: "('s \<Rightarrow> 'e \<Rightarrow> 's \<Rightarrow> bool) \<Rightarrow> 's \<Rightarrow> 'e list \<Rightarrow> 's \<Rightarrow> bool" for step s0 where
  run_start: "run step s0 [] s0"
| run_step: "run step s0 es s \<Longrightarrow> step s e s' \<Longrightarrow> run step s0 (es @ [e]) s'"

inductive_cases run_snocE: "run step s0 (es @ [e]) s'"

lemma run_snoc: "run step s0 (es @ [e]) s' \<longleftrightarrow> (\<exists>s. run step s0 es s \<and> step s e s')"
  by (auto elim: run_snocE intro: run_step)

lemma run_append: "run step s1 es' s2 \<Longrightarrow> run step s0 es s1 \<Longrightarrow> run step s0 (es @ es') s2"
  by (induction rule: run.induct) (auto simp: run_snoc simp flip: append_assoc)

locale simulation =
  fixes step :: "'s \<Rightarrow> 'e \<Rightarrow> 's \<Rightarrow> bool"
    and spec :: "'t \<Rightarrow> 'e \<Rightarrow> 't \<Rightarrow> bool"
    and abstr :: "'s \<Rightarrow> 't"
    and inv :: "'s \<Rightarrow> bool"
  assumes simulates: "inv s \<Longrightarrow> step s e s' \<Longrightarrow> spec (abstr s) e (abstr s')"
    and keeps: "inv s \<Longrightarrow> step s e s' \<Longrightarrow> inv s'"
begin

lemma run_keeps: "run step s0 es s \<Longrightarrow> inv s0 \<Longrightarrow> inv s"
  by (induction rule: run.induct) (auto dest: keeps)

lemma run_simulates: "run step s0 es s \<Longrightarrow> inv s0 \<Longrightarrow> run spec (abstr s0) es (abstr s)"
  by (induction rule: run.induct) (auto intro: run_start run_step simulates dest: run_keeps)

end

end
