(* ===== verification/Registry_Spec.thy ===== *)
theory Registry_Spec
  imports Hook_Lifecycle Simulation
begin

text \<open>
  What the hook registry promises its user: a table from hooked methods to detours and a set of patched
  stubs. The operations of \<open>Hook_Registry\<close> refine it; calls of Java methods are events of the same runs,
  so that a run shows which detours its calls enter.
\<close>

section \<open>The specification\<close>

record hook_table =
  ht_detour :: "addr \<rightharpoonup> nat"
  ht_stubs :: "addr set"

datatype hook_event =
    Register
  | Hook nat string string nat bool
  | Stop addr
  | Verify nat
  | Deoptimize
  | Shutdown
  | Call addr "nat option"

text \<open>
  A call of \<open>hook\<close> leaves a table that has the method alone. Otherwise a new entry may appear, and after
  a success it has, with a patched stub. A repair that reports \<open>n\<close> may carry at most \<open>n\<close> hooks over to
  other Methods, each with its detour.
\<close>

inductive table_step :: "hook_table \<Rightarrow> hook_event \<Rightarrow> hook_table \<Rightarrow> bool" where
  spec_register: "table_step t Register t"
| spec_hook_none: "table_step t (Hook ty name sig d False) t"
| spec_hook_again: "m \<in> dom (ht_detour t) \<Longrightarrow> table_step t (Hook ty name sig d True) t"
| spec_hook_failed: "m \<notin> dom (ht_detour t) \<Longrightarrow>
    table_step t (Hook ty name sig d False) (t\<lparr>ht_detour := (ht_detour t)(m \<mapsto> d)\<rparr>)"
| spec_hook_new: "m \<notin> dom (ht_detour t) \<Longrightarrow>
    table_step t (Hook ty name sig d True) \<lparr>ht_detour = (ht_detour t)(m \<mapsto> d), ht_stubs = insert i (ht_stubs t)\<rparr>"
| spec_stop: "table_step t (Stop m) (t\<lparr>ht_detour := (ht_detour t)(m := None)\<rparr>)"
| spec_verify: "inj_on f (dom (ht_detour t)) \<Longrightarrow> dom r = f ` dom (ht_detour t) \<Longrightarrow>
    (\<And>m. m \<in> dom (ht_detour t) \<Longrightarrow> r (f m) = ht_detour t m) \<Longrightarrow>
    card {m \<in> dom (ht_detour t). f m \<noteq> m} \<le> n \<Longrightarrow> table_step t (Verify n) (t\<lparr>ht_detour := r\<rparr>)"
| spec_deoptimize: "table_step t Deoptimize t"
| spec_shutdown: "table_step t Shutdown \<lparr>ht_detour = Map.empty, ht_stubs = {}\<rparr>"
| spec_call: "table_step t (Call m (ht_detour t m)) t"

text \<open>The detours of the \<open>hook\<close> calls since the last shutdown.\<close>

fun live_step :: "nat set \<Rightarrow> hook_event \<Rightarrow> nat set" where
  "live_step L (Hook ty name sig d ok) = insert d L"
| "live_step L Shutdown = {}"
| "live_step L _ = L"

definition live_detours :: "hook_event list \<Rightarrow> nat set" where
  "live_detours es = foldl live_step {} es"

lemma live_detours_simps [simp]: "live_detours [] = {}" "live_detours (es @ [e]) = live_step (live_detours es) e"
  by (simp_all add: live_detours_def)

lemma spec_verify_ran:
  assumes "dom r = f ` dom g" and "\<And>m. m \<in> dom g \<Longrightarrow> r (f m) = g m"
  shows "ran r \<subseteq> ran g"
proof
  fix d assume "d \<in> ran r"
  then obtain m' where m': "r m' = Some d" by (auto simp: ran_def)
  then obtain m where "m' = f m" "m \<in> dom g" using assms(1) by blast
  with assms(2) m' have "g m = Some d" by simp
  then show "d \<in> ran g" by (auto simp: ran_def)
qed

lemma table_step_live: "table_step t e t' \<Longrightarrow> ran (ht_detour t) \<subseteq> L \<Longrightarrow> ran (ht_detour t') \<subseteq> live_step L e"
proof (induction rule: table_step.induct)
  case (spec_verify f t r n)
  from spec_verify_ran [OF spec_verify.hyps(2,3)] spec_verify.prems show ?case by simp
qed (auto simp: ran_def split: if_splits)

lemma table_run_live: "run table_step t0 es t \<Longrightarrow> ht_detour t0 = Map.empty \<Longrightarrow> ran (ht_detour t) \<subseteq> live_detours es"
  by (induction rule: run.induct) (auto dest: table_step_live)

lemma table_call_live:
  assumes "run table_step t0 (es @ [Call m (Some d)]) t" and "ht_detour t0 = Map.empty"
  shows "d \<in> live_detours es"
proof -
  obtain t1 where r: "run table_step t0 es t1" and c: "table_step t1 (Call m (Some d)) t" using assms(1) by (auto simp: run_snoc)
  from c have "ht_detour t1 m = Some d" by cases simp
  then have "d \<in> ran (ht_detour t1)" by (auto simp: ran_def)
  with table_run_live [OF r assms(2)] show ?thesis by blast
qed

section \<open>The registry as an implementation\<close>

text \<open>\<open>Verified\<close> asks that the repair does not lead two hooks to the same Method. A call runs with an
  empty detour here; what a detour does to the registry are further events.\<close>

definition hooked :: "vmhook \<Rightarrow> addr list" where
  "hooked s = map hm_method (g_hooked_methods s)"

inductive registry_event :: "env \<Rightarrow> vmhook \<Rightarrow> hook_event \<Rightarrow> vmhook \<Rightarrow> bool" for E :: env where
  Registered: "register_class E t cn s = Some (ok, s') \<Longrightarrow> registry_event E s Register s'"
| Hooked: "hook E ty name sig d s = Some (ok, s') \<Longrightarrow> registry_event E s (Hook ty name sig d ok) s'"
| Stopped: "hook_handle_stop E m s = Some (m', s') \<Longrightarrow> m \<noteq> 0 \<Longrightarrow> registry_event E s (Stop m) s'"
| Verified: "verify_hooks E s = Some (n, s') \<Longrightarrow> distinct (hooked s') \<Longrightarrow> registry_event E s (Verify n) s'"
| Deoptimized: "deoptimize_methods_if E p s = Some (n, s') \<Longrightarrow> registry_event E s Deoptimize s'"
| Shut: "shutdown_hooks E s = Some s' \<Longrightarrow> registry_event E s Shutdown s'"
| Called: "\<not> g_shutdown_requested s \<Longrightarrow> is_valid_pointer thread \<Longrightarrow> frame_get_method (vh_mem s) fr = Some m \<Longrightarrow>
    common_detour E (\<lambda>d fr th sl s. Some s) fr thread slot s = Some (r, s') \<Longrightarrow> registry_event E s (Call m r) s'"

definition table :: "vmhook \<Rightarrow> hook_table" where
  "table s = \<lparr>ht_detour = map_of (map (\<lambda>h. (hm_method h, hm_detour h)) (g_hooked_methods s)),
     ht_stubs = ih_i2i_entry ` set (g_hooked_i2i_entries s)\<rparr>"

lemma table_same: "same_registry s s' \<Longrightarrow> table s' = table s \<and> hooked s' = hooked s"
  by (simp add: same_registry_def table_def hooked_def)

lemma dom_table: "dom (ht_detour (table s)) = set (hooked s)"
  by (auto simp: table_def hooked_def dom_map_of_conv_image_fst image_image)

lemma map_of_find: "map_of (map (\<lambda>h. (f h, g h)) xs) k = map_option g (find (\<lambda>h. f h = k) xs)"
  by (induction xs) auto

lemma add_fresh: "m k = None \<Longrightarrow> [k \<mapsto> v] ++ m = m(k \<mapsto> v)"
  by (auto simp: fun_eq_iff map_add_def split: option.splits)

lemma table_new_entry:
  assumes "g_hooked_methods s' = g_hooked_methods s @ [e]" and "hm_method e \<notin> set (hooked s)"
  shows "ht_detour (table s') = (ht_detour (table s))(hm_method e \<mapsto> hm_detour e)"
    and "hooked s' = hooked s @ [hm_method e]"
  using assms by (auto simp: table_def hooked_def add_fresh map_of_eq_None_iff image_image)

lemma install_effect:
  assumes "install E mth d cn mn s = Some (ok, s')"
  shows "ok \<and> mth \<in> set (hooked s) \<and> s' = s
     \<or> mth \<notin> set (hooked s) \<and> (\<not> ok \<and> same_registry s s'
         \<or> (\<exists>e. hm_method e = mth \<and> hm_detour e = d \<and> g_hooked_methods s' = g_hooked_methods s @ [e]
              \<and> (\<exists>i. ht_stubs (table s') = (if ok then insert i (ht_stubs (table s)) else ht_stubs (table s)))))"
proof (cases "mth \<in> set (hooked s)")
  case True
  then have "\<exists>h \<in> set (g_hooked_methods s). hm_method h = mth" by (auto simp: hooked_def)
  with assms True show ?thesis by (simp add: install_def)
next
  case False
  then have no: "\<not> (\<exists>h \<in> set (g_hooked_methods s). hm_method h = mth)" by (auto simp: hooked_def)
  with assms obtain ok1 s1 where mk: "mark_method E mth s = Some (ok1, s1)" by (auto simp: install_def split: bind_splits)
  have r: "same_registry s s1" by (rule mark_method_registry [OF mk])
  show ?thesis
  proof (cases "ok1 \<and> get_i2i_entry (en_jvm E) (vh_mem s1) mth \<noteq> Some 0")
    case True
    with assms mk no obtain i2i e ok2 s2 where e: "new_entry E (vh_mem s1) mth d cn mn = Some e"
      and p: "patch_i2i E i2i (s1\<lparr>g_hooked_methods := g_hooked_methods s1 @ [e]\<rparr>) = Some (ok2, s2)"
      and rest: "(if \<not> ok2 then Some (False, s2) else do {
              s \<leftarrow> (if hm_was_compiled e then hook_deopt E mth i2i s2 else Some s2);
              Some (True, ensure_started s) }) = Some (ok, s')"
      by (auto simp: install_def Let_def split: bind_splits if_splits)
    have s': "ok = ok2" "g_hooked_methods s' = g_hooked_methods s2" "g_hooked_i2i_entries s' = g_hooked_i2i_entries s2"
      using rest by (auto simp: ensure_started_def same_registry_def split: if_splits bind_splits dest!: hook_deopt_registry)
    have "g_hooked_methods s2 = g_hooked_methods s @ [e]"
      "ih_i2i_entry ` set (g_hooked_i2i_entries s2)
         = (if ok2 then insert i2i (ih_i2i_entry ` set (g_hooked_i2i_entries s)) else ih_i2i_entry ` set (g_hooked_i2i_entries s))"
      using patch_i2i_cases [OF p] r by (auto simp: same_registry_def)
    with new_entry_method [OF e] False s' show ?thesis by (auto simp: table_def)
  next
    case no_stub: False
    with assms mk no have "\<not> ok" "s' = s1" by (auto simp: install_def split: if_splits)
    with r False show ?thesis by blast
  qed
qed

lemma hook_effect:
  assumes "hook E ty name sig d s = Some (ok, s')"
  shows "(\<not> ok \<and> same_registry s s') \<or> (\<exists>mth cn s1. same_registry s s1 \<and> install E mth d cn name s1 = Some (ok, s'))"
  using assms by (auto simp: hook_def split: option.splits bind_splits if_splits dest!: vh_find_class_registry)

lemma hook_refines:
  assumes "hook E ty name sig d s = Some (ok, s')" and "distinct (hooked s)"
  shows "table_step (table s) (Hook ty name sig d ok) (table s') \<and> distinct (hooked s')"
  using hook_effect [OF assms(1)]
proof (elim disjE exE conjE)
  assume "\<not> ok" "same_registry s s'"
  with assms(2) table_same show ?thesis by (auto intro: spec_hook_none)
next
  fix mth cn s1 assume r: "same_registry s s1" and i: "install E mth d cn name s1 = Some (ok, s')"
  have t: "table s1 = table s" "hooked s1 = hooked s" using table_same [OF r] by auto
  from install_effect [OF i, unfolded t] consider "ok" "mth \<in> set (hooked s)" "s' = s1"
    | "\<not> ok" "same_registry s1 s'"
    | e where "mth \<notin> set (hooked s)" "hm_method e = mth" "hm_detour e = d" "g_hooked_methods s' = g_hooked_methods s1 @ [e]"
        "\<exists>i. ht_stubs (table s') = (if ok then insert i (ht_stubs (table s)) else ht_stubs (table s))"
    by blast
  then show ?thesis
  proof cases
    case 1
    then have "mth \<in> dom (ht_detour (table s))" by (simp add: dom_table)
    from spec_hook_again [OF this] 1 t assms(2) show ?thesis by simp
  next
    case 2
    with t assms(2) table_same [OF 2(2)] show ?thesis by (auto intro: spec_hook_none)
  next
    case 3
    have n: "ht_detour (table s') = (ht_detour (table s))(mth \<mapsto> d)" "hooked s' = hooked s @ [mth]"
      using table_new_entry [OF 3(4)] 3 t by auto
    have m: "mth \<notin> dom (ht_detour (table s))" using 3(1) by (simp add: dom_table)
    show ?thesis
    proof (cases ok)
      case True
      then obtain i where "ht_stubs (table s') = insert i (ht_stubs (table s))" using 3(5) by auto
      with n have "table s' = \<lparr>ht_detour = (ht_detour (table s))(mth \<mapsto> d), ht_stubs = insert i (ht_stubs (table s))\<rparr>" by simp
      with spec_hook_new [OF m] True n(2) 3(1) assms(2) show ?thesis by simp
    next
      case False
      with n 3(5) have "table s' = (table s)\<lparr>ht_detour := (ht_detour (table s))(mth \<mapsto> d)\<rparr>" by simp
      with spec_hook_failed [OF m] False n(2) 3(1) assms(2) show ?thesis by simp
    qed
  qed
qed

lemma erase_first_table:
  "distinct (map hm_method hs) \<Longrightarrow>
     map_of (map (\<lambda>h. (hm_method h, hm_detour h)) (erase_first m hs)) = (map_of (map (\<lambda>h. (hm_method h, hm_detour h)) hs))(m := None)"
  by (induction hs) (auto simp: fun_eq_iff map_of_eq_None_iff image_iff)

lemma erase_first_distinct: "distinct (map hm_method hs) \<Longrightarrow> distinct (map hm_method (erase_first m hs))"
  using erase_first_subset by (induction hs) fastforce+

lemma stop_refines:
  assumes "hook_handle_stop E m s = Some (m', s')" and "m \<noteq> 0" and "distinct (hooked s)"
  shows "table_step (table s) (Stop m) (table s') \<and> distinct (hooked s')"
proof -
  have "hooked s = map hm_method (g_hooked_methods s)" by (simp add: hooked_def)
  show ?thesis
  proof (cases "m \<in> set (hooked s)")
    case True
    with assms have "g_hooked_methods s' = erase_first m (g_hooked_methods s)" "g_hooked_i2i_entries s' = g_hooked_i2i_entries s"
      by (auto simp: hook_handle_stop_def hooked_def split: if_splits bind_splits)
    with assms(3) have "table s' = (table s)\<lparr>ht_detour := (ht_detour (table s))(m := None)\<rparr>" "distinct (hooked s')"
      by (simp_all add: table_def hooked_def erase_first_table erase_first_distinct)
    then show ?thesis by (simp add: spec_stop)
  next
    case False
    then have "\<forall>h \<in> set (g_hooked_methods s). hm_method h \<noteq> m" by (auto simp: hooked_def)
    with assms have s': "s' = s" by (simp add: hook_handle_stop_def)
    have "ht_detour (table s) m = None" using False by (metis dom_table domIff)
    then have "(table s)\<lparr>ht_detour := (ht_detour (table s))(m := None)\<rparr> = table s" by (simp add: fun_upd_idem)
    with spec_stop [of "table s" m] s' assms(3) show ?thesis by simp
  qed
qed

text \<open>A repair keeps the order of the entries, so two lists of Methods say how it moved the hooks.\<close>

definition moved :: "'a list \<Rightarrow> 'a list \<Rightarrow> nat" where
  "moved xs ys = length (filter (\<lambda>(x, y). x \<noteq> y) (zip xs ys))"

lemma moved_simps [simp]: "moved [] [] = 0" "moved (x # xs) (y # ys) = (if x = y then 0 else 1) + moved xs ys"
  by (simp_all add: moved_def)

lemma renaming_exists:
  "length xs = length ys \<Longrightarrow> distinct xs \<Longrightarrow> distinct ys \<Longrightarrow> \<exists>f. inj_on f (set xs) \<and> map f xs = ys"
proof (induction xs ys rule: list_induct2)
  case (Cons x xs y ys)
  then obtain f where f: "inj_on f (set xs)" "map f xs = ys" by auto
  have m: "map (f(x := y)) xs = ys" using f(2) Cons.prems(1) by (auto simp flip: f(2))
  have y: "y \<notin> f ` set xs" using arg_cong [OF f(2), of set] Cons.prems(2) by simp
  then have "inj_on (f(x := y)) (set xs)" by (rule inj_on_fun_updI [OF f(1)])
  then have "inj_on (f(x := y)) (set (x # xs))" using y Cons.prems(1) by (auto simp: inj_on_insert)
  moreover have "map (f(x := y)) (x # xs) = y # ys" by (simp only: list.map fun_upd_same m)
  ultimately show ?case by (intro exI conjI)
qed auto

lemma moved_renaming: "distinct xs \<Longrightarrow> moved xs (map f xs) = card {x \<in> set xs. f x \<noteq> x}"
proof -
  assume d: "distinct xs"
  have "moved xs (map f xs) = length (filter (\<lambda>x. f x \<noteq> x) xs)" by (induction xs) auto
  also have "\<dots> = card (set (filter (\<lambda>x. f x \<noteq> x) xs))" using distinct_card [of "filter (\<lambda>x. f x \<noteq> x) xs"] d by simp
  finally show ?thesis by simp
qed

lemma map_of_renamed:
  "length xs = length ds \<Longrightarrow> inj_on f (set xs) \<Longrightarrow> x \<in> set xs \<Longrightarrow> map_of (zip (map f xs) ds) (f x) = map_of (zip xs ds) x"
  by (induction xs ds rule: list_induct2) (auto simp: inj_on_def)

lemma table_zip: "ht_detour (table s) = map_of (zip (hooked s) (map hm_detour (g_hooked_methods s)))"
proof -
  have z: "map (\<lambda>h. (hm_method h, hm_detour h)) hs = zip (map hm_method hs) (map hm_detour hs)" for hs
    by (induction hs) auto
  show ?thesis by (simp only: table_def hooked_def hook_table.simps z)
qed

lemma try_reinstall_detour: "try_reinstall E hm s = Some (ok, hm', s') \<Longrightarrow>
    hm_detour hm' = hm_detour hm \<and> (\<not> ok \<longrightarrow> hm_method hm' = hm_method hm)"
  by (auto simp: try_reinstall_def split: bind_splits if_splits option.splits)

lemma reinstall_detour: "reinstall_step E hm s = Some (n, hm', s') \<Longrightarrow>
    hm_detour hm' = hm_detour hm \<and> (if hm_method hm = hm_method hm' then 0 else 1) \<le> n"
  by (cases "try_reinstall E (hm\<lparr>hm_drift_logged := True\<rparr>) s")
    (auto simp: reinstall_step_def dest: try_reinstall_detour)

lemma verify_entry_cases: "verify_entry E hm s = Some (n, hm', s') \<Longrightarrow>
    reinstall_step E hm s = Some (n, hm', s') \<or> hm' = hm \<or> (\<exists>b. hm' = hm\<lparr>hm_drift_logged := b\<rparr>)"
  by (auto simp: verify_entry_def split: bind_splits if_splits)

lemma verify_entry_detour: "verify_entry E hm s = Some (n, hm', s') \<Longrightarrow>
    hm_detour hm' = hm_detour hm \<and> (if hm_method hm = hm_method hm' then 0 else 1) \<le> n"
proof (drule verify_entry_cases, elim disjE exE)
  assume "reinstall_step E hm s = Some (n, hm', s')"
  then show ?thesis by (rule reinstall_detour)
qed simp_all

lemma verify_entries_detours:
  "verify_entries E hms s = Some (n, hms', s') \<Longrightarrow>
     map hm_detour hms' = map hm_detour hms \<and> moved (map hm_method hms) (map hm_method hms') \<le> n"
proof (induction E hms s arbitrary: n hms' s' rule: verify_entries.induct)
  case (2 E hm hms s)
  obtain n1 hm1 s1 n2 hms2 where v: "verify_entry E hm s = Some (n1, hm1, s1)"
    "verify_entries E hms s1 = Some (n2, hms2, s')" "hms' = hm1 # hms2" "n = n1 + n2"
    using "2.prems"(1) by (auto split: bind_splits)
  from "2.IH" [OF v(1) refl refl v(2)] verify_entry_detour [OF v(1)] v(3,4) show ?case
    by (auto split: if_splits)
qed auto

lemma verify_entries_same: "verify_entries E hms s = Some (n, hms', s') \<Longrightarrow> same_registry s s'"
proof (induction E hms s arbitrary: n hms' s' rule: verify_entries.induct)
  case (2 E hm hms s)
  obtain n1 hm1 s1 n2 hms2 where v: "verify_entry E hm s = Some (n1, hm1, s1)"
    "verify_entries E hms s1 = Some (n2, hms2, s')" using "2.prems"(1) by (auto split: bind_splits)
  from "2.IH" [OF v(1) refl refl v(2)] verify_entry_props [OF v(1)] show ?case by (auto intro: same_registry_trans)
qed auto

lemma verify_refines:
  assumes "verify_hooks E s = Some (n, s')" and "distinct (hooked s)" and "distinct (hooked s')"
  shows "table_step (table s) (Verify n) (table s')"
proof -
  from assms(1) obtain n1 ds m n2 hms s2 where p: "verify_patches E (g_hooked_i2i_entries s) (vh_mem s) = Some (n1, ds, m)"
    and e: "verify_entries E (g_hooked_methods s) (s\<lparr>vh_mem := m, g_hooked_i2i_entries := ds\<rparr>) = Some (n2, hms, s2)"
    and s': "s' = s2\<lparr>g_hooked_methods := hms\<rparr>" and n: "n = n1 + n2"
    by (auto simp: verify_hooks_def Let_def split: bind_splits)
  have d: "map hm_detour hms = map hm_detour (g_hooked_methods s)" and mv: "moved (hooked s) (hooked s') \<le> n"
    using verify_entries_detours [OF e] n by (auto simp: hooked_def s')
  have len: "length hms = length (g_hooked_methods s)" using arg_cong [OF d, of length] by simp
  obtain f where f: "inj_on f (set (hooked s))" "map f (hooked s) = hooked s'"
    using renaming_exists [OF _ assms(2,3)] len by (auto simp: hooked_def s')
  have "ht_detour (table s') = map_of (zip (map f (hooked s)) (map hm_detour (g_hooked_methods s)))"
    using d f(2) by (simp add: table_zip) (simp add: s')
  then have r: "ht_detour (table s') (f x) = ht_detour (table s) x" if "x \<in> set (hooked s)" for x
    using map_of_renamed [of "hooked s" "map hm_detour (g_hooked_methods s)", OF _ f(1) that]
    by (simp only: table_zip) (simp add: hooked_def)
  have dm: "dom (ht_detour (table s')) = f ` set (hooked s)" using arg_cong [OF f(2), of set] by (simp add: dom_table)
  have c: "card {x \<in> set (hooked s). f x \<noteq> x} \<le> n" using mv f(2) moved_renaming [OF assms(2), of f] by simp
  have "same_registry (s\<lparr>vh_mem := m, g_hooked_i2i_entries := ds\<rparr>) s2"
    using e verify_entries_same by blast
  then have "ht_stubs (table s') = ht_stubs (table s)"
    using arg_cong [OF conjunct1 [OF verify_patches_props [OF p]], of set] by (simp add: table_def s' same_registry_def)
  then have "table s' = (table s)\<lparr>ht_detour := ht_detour (table s')\<rparr>" by simp
  moreover have "table_step (table s) (Verify n) ((table s)\<lparr>ht_detour := ht_detour (table s')\<rparr>)"
    by (rule spec_verify [where f = f]) (use f(1) dm r c in \<open>simp_all add: dom_table\<close>)
  ultimately show ?thesis by simp
qed

section \<open>Refinement\<close>

lemma call_refines:
  assumes "\<not> g_shutdown_requested s" and "is_valid_pointer thread" and "frame_get_method (vh_mem s) fr = Some m"
    and "common_detour E (\<lambda>d fr th sl s. Some s) fr thread slot s = Some (r, s')"
  shows "r = ht_detour (table s) m \<and> table s' = table s \<and> hooked s' = hooked s"
  using assms valid_not_null [OF assms(2)]
  by (auto simp: common_detour_def table_def hooked_def map_of_find split: option.splits bind_splits)

lemma register_table: "register_class E t cn s = Some (ok, s') \<Longrightarrow> table s' = table s \<and> hooked s' = hooked s"
  by (auto simp: register_class_def table_def hooked_def same_registry_def split: bind_splits if_splits
      dest!: vh_find_class_registry)

lemma shutdown_table: "shutdown_hooks E s = Some s' \<Longrightarrow> table s' = \<lparr>ht_detour = Map.empty, ht_stubs = {}\<rparr> \<and> hooked s' = []"
  by (auto simp: shutdown_hooks_def table_def hooked_def split: bind_splits)

lemma registry_event_refines:
  assumes "registry_event E s e s'" and "distinct (hooked s)"
  shows "table_step (table s) e (table s') \<and> distinct (hooked s')"
  using assms
proof (induction rule: registry_event.induct)
  case (Registered t cn s ok s')
  with register_table [OF this(1)] show ?case by (simp add: spec_register)
next
  case (Hooked ty name sig d s ok s')
  then show ?case by (rule hook_refines)
next
  case (Stopped m s m' s')
  then show ?case by (rule stop_refines)
next
  case (Verified s n s')
  with verify_refines show ?case by blast
next
  case (Deoptimized p s n s')
  with table_same [OF deoptimize_registry [OF this(1)]] show ?case by (simp add: spec_deoptimize)
next
  case (Shut s s')
  with shutdown_table [OF this(1)] show ?case by (simp add: spec_shutdown)
next
  case (Called s thread fr m slot r s')
  from call_refines [OF this(1-4)] spec_call [of "table s" m] Called(5) show ?case by simp
qed

interpretation registry: simulation "registry_event E" table_step table "\<lambda>s. distinct (hooked s)" for E
  by unfold_locales (auto dest: registry_event_refines)



text \<open>The process of \<open>Hook_Lifecycle\<close>: an installation and a call of the hooked method.\<close>

lemma life_run:
  "\<exists>s. run (registry_event life_env) (life_state life_mem [] []) ([Hook 1 [] [] 7 True] @ [Call 0x50000 (Some 7)]) s"
proof -
  let ?s0 = "life_state life_mem [] []"
  obtain s1 where i: "install life_env 0x50000 7 ''A'' [] ?s0 = Some (True, s1)"
    and m: "load64 (vh_mem s1) 0x7FFE8 = Some 0x50000" "\<forall>a n. mapped (vh_mem s1) a n" using life_install by blast
  have h: "hook life_env 1 [] [] 7 ?s0 = Some (True, s1)" using hook_resolved [OF life_resolve, where d = 7] i by auto
  have no: "\<forall>h \<in> set (g_hooked_methods ?s0). hm_method h \<noteq> 0x50000" by simp
  from install_new_entry [OF i no] obtain e where e: "g_hooked_methods s1 = [e]" "hm_method e = 0x50000" "hm_detour e = 7"
    "\<not> g_shutdown_requested s1" by auto
  have v: "is_valid_pointer 0x90000" by (simp add: ptr_eval)
  have f: "frame_get_method (vh_mem s1) 0x80000 = Some 0x50000" using m(1) by (simp add: frame_get_method_def)
  have "\<exists>m2. set_thread_state life_jvm (vh_mem s1) 0x90000 thread_in_Java = Some m2"
    using m(2) by (simp add: set_thread_state_def store_le_put)
  then obtain m2 where "set_thread_state life_jvm (vh_mem s1) 0x90000 thread_in_Java = Some m2" ..
  with e f v have "common_detour life_env (\<lambda>d fr th sl s. Some s) 0x80000 0x90000 0 s1 = Some (Some 7, s1\<lparr>vh_mem := m2\<rparr>)"
    by (simp add: common_detour_def)
  then have "registry_event life_env s1 (Call 0x50000 (Some 7)) (s1\<lparr>vh_mem := m2\<rparr>)" by (rule Called [OF e(4) v f])
  moreover have "run (registry_event life_env) ?s0 ([] @ [Hook 1 [] [] 7 True]) s1"
    using Hooked [OF h] by (rule run_step [OF run_start])
  ultimately show ?thesis using run_step by fastforce
qed



section \<open>A repair that merges two hooks\<close>

lemma try_reinstall_drift: "try_reinstall E (hm\<lparr>hm_drift_logged := b\<rparr>) s = Some (True, hm', s') \<longleftrightarrow>
    try_reinstall E hm s = Some (True, hm', s')"
  by (auto simp: try_reinstall_def split: bind_splits if_splits option.splits)

text \<open>When a class was redefined and the user hooked the new Method before the next repair, the repair
  carries the old entry over to the same Method: the old detour shadows the new one, and stopping the
  handle removes one entry only, so the new detour runs after its hook was stopped.\<close>

theorem repair_merges_two_hooks:
  assumes "g_hooked_methods s = [old, new]" and "g_hooked_i2i_entries s = []"
    and "hm_method old \<noteq> 0" and "\<not> hm_drift_logged old" and "hm_drift_logged new" and "get_const_method (en_jvm E) (vh_mem s) (hm_method old) = Some 0"
    and "try_reinstall E old s = Some (True, old', s1)" and "hm_method old' = m" and "hm_method new = m" and "m \<noteq> 0" and "unmark_method E m (vh_mem s1) = Some mem'"
  shows "\<exists>s2 s3. verify_hooks E s = Some (1, s2) \<and> ht_detour (table s2) m = Some (hm_detour old)
     \<and> hook_handle_stop E m s2 = Some (0, s3) \<and> ht_detour (table s3) m = Some (hm_detour new)"
proof -
  let ?s2 = "s1\<lparr>g_hooked_methods := [old', new]\<rparr>" and ?s3 = "s1\<lparr>vh_mem := mem', g_hooked_methods := [new]\<rparr>"
  have "reinstall_step E old s = Some (1, old', s1)"
    using try_reinstall_drift [THEN iffD2, OF assms(7)] by (simp add: reinstall_step_def)
  then have v: "verify_entry E old s = Some (1, old', s1)" using assms(3,4,6) by (simp add: verify_entry_def)
  have "s\<lparr>g_hooked_i2i_entries := []\<rparr> = s" using assms(2) by (cases s) simp
  then have "verify_entry E old (s\<lparr>g_hooked_i2i_entries := []\<rparr>) = Some (1, old', s1)" using v by (rule ssubst)
  moreover have "verify_entry E new s1 = Some (0, new, s1)" using assms(5) by (simp add: verify_entry_def)
  ultimately have "verify_hooks E s = Some (1, ?s2)" using assms(1,2) by (simp add: verify_hooks_def)
  moreover have "hm_detour old' = hm_detour old" using try_reinstall_detour [OF assms(7)] by simp
  then have "ht_detour (table ?s2) m = Some (hm_detour old)" using assms(8) by (simp add: table_def)
  moreover have "hook_handle_stop E m ?s2 = Some (0, ?s3)"
    using assms(8-11) by (simp add: hook_handle_stop_def)
  moreover have "ht_detour (table ?s3) m = Some (hm_detour new)" using assms(9) by (simp add: table_def)
  ultimately show ?thesis by blast
qed

lemma load_mapped: "mapped m a n \<Longrightarrow> \<exists>v. load_le n m a = Some v"
  by (auto simp: load_le_def simp flip: load_bytes_mapped)

lemma repair_merges_two_hooks_witness:
  "\<exists>s s2 s3. verify_hooks reg_class_env s = Some (1, s2) \<and> hook_handle_stop reg_class_env 0x50000 s2 = Some (0, s3)
     \<and> ht_detour (table s3) 0x50000 = Some 8"
proof -
  let ?old = "reg_demo_hm\<lparr>hm_method := 0x70000, hm_expected_method_name := []\<rparr>"
  let ?new = "reg_demo_hm\<lparr>hm_method := 0x50000, hm_expected_method_name := [], hm_detour := 8, hm_drift_logged := True\<rparr>"
  let ?s = "reg_class_state reg_class_mem [?old, ?new]"
  obtain s1 where r: "try_reinstall reg_class_env ?old ?s = Some (True, reg_demo_hm\<lparr>hm_method := 0x50000, hm_expected_method_name := []\<rparr>, s1)"
    and tot: "\<forall>a n. mapped (vh_mem s1) a n" using reg_class_reinstall by blast
  obtain f where f: "load16 (vh_mem s1) 0x5002E = Some f" using load_mapped [of "vh_mem s1" "0x5002E" 2] tot by auto
  let ?m1 = "put 0x5002E (le_of_word 2 (f AND NOT dont_inline_bit)) (vh_mem s1)"
  obtain a where a: "load32 ?m1 0x50028 = Some a" using load_mapped [of ?m1 "0x50028" 4] tot by auto
  have "\<exists>m. unmark_method reg_class_env 0x50000 (vh_mem s1) = Some m"
    using tot f a
    by (simp add: unmark_method_def set_dont_inline_def clear_no_compile_def reg_class_env_def reg_class_fields store_le_put)
  then obtain mem' where u: "unmark_method reg_class_env 0x50000 (vh_mem s1) = Some mem'" ..
  have "get_const_method (en_jvm reg_class_env) (vh_mem ?s) (hm_method ?old) = Some 0"
    by (simp add: reg_class_env_def reg_class_state_def get_const_method_def life_tables)
      (simp add: reg_class_mem_def mem_simps apart_def)
  then show ?thesis
    using repair_merges_two_hooks [OF _ _ _ _ _ _ r _ _ _ u, of ?new]
    by (fastforce simp: reg_class_state_def reg_demo_hm_def)
qed

end
