(* ===== verification/Hook_Path.thy ===== *)
theory Hook_Path
  imports Registry_Spec
begin

text \<open>
  The whole path of a hook: from the interpreter's stub of the hooked method over the trampoline to
  \<open>common_detour\<close> and the user's detour, in the state that a successful \<open>hook\<close> leaves. It joins
  \<open>Trampoline\<close>, which says where patched code leads, with \<open>Hook_Lifecycle\<close>, which says what the
  registry does with a call.
\<close>

text \<open>\<open>leads_to m target saved dest\<close>: the code at \<open>target\<close> jumps to a trampoline that starts with the bytes
  \<open>saved\<close>, calls \<open>dest\<close> and resumes behind the patched window.\<close>

definition leads_to :: "mem \<Rightarrow> addr \<Rightarrow> addr \<Rightarrow> u8 list \<Rightarrow> addr \<Rightarrow> bool" where
  "leads_to m target trampoline saved dest \<longleftrightarrow> jump_dest m target = Some trampoline
     \<and> load_bytes m trampoline HOOK_SIZE = Some saved
     \<and> load64 m (trampoline + of_nat (HOOK_SIZE + DETOUR_ADDRESS_OFFSET)) = Some dest
     \<and> jump_dest m (trampoline + of_nat (HOOK_SIZE + RESUME_JMP_OFFSET)) = Some (target + of_nat HOOK_SIZE)"

text \<open>What the operating system and the stub must be for the trampoline's jumps to reach.\<close>

definition patchable :: "env \<Rightarrow> mem \<Rightarrow> addr \<Rightarrow> u8 list \<Rightarrow> bool" where
  "patchable E m target saved \<longleftrightarrow> os_page_size (en_os E) = 2 ^ 12 \<and> honours (os_allocate_rwx (en_os E))
     \<and> fresh_pages (en_os E) m target \<and> minimum_application_address \<le> target \<and> target < user_address_ceiling
     \<and> unat target mod 4096 < 0xFFC \<and> load_bytes m target HOOK_SIZE = Some saved \<and> m target \<noteq> Some 0xE9"

lemma ctor_leads_to:
  assumes "patchable E m target saved"
  obtains h m' where "midi2i_hook_ctor (en_os E) J m target detour 0 = Some (h, m')"
    and "\<not> mh_error h \<Longrightarrow> mh_target h = target \<and> leads_to m' target (mh_allocated h) saved detour"
  using ctor_routes [of "en_os E" m target saved J detour] assms
  unfolding patchable_def leads_to_def by auto

lemma patch_constructs:
  assumes "patch_i2i E i2i s = Some (True, s')" and "\<forall>d \<in> set (g_hooked_i2i_entries s). ih_i2i_entry d \<noteq> i2i"
    and "find_hook_location (en_jvm E) (vh_mem s) (vh_locals_offset s) i2i = Some (target, lo)"
    and "patchable E (vh_mem s) target saved"
  shows "\<exists>h. g_hooked_i2i_entries s' = g_hooked_i2i_entries s @ [\<lparr>ih_i2i_entry = i2i, ih_hook = h\<rparr>] \<and> \<not> mh_error h
     \<and> midi2i_hook_ctor (en_os E) (en_jvm E) (vh_mem s) target (en_common_detour E) 0 = Some (h, vh_mem s')"
proof -
  obtain h m' where c: "midi2i_hook_ctor (en_os E) (en_jvm E) (vh_mem s) target (en_common_detour E) 0 = Some (h, m')"
    using ctor_leads_to [OF assms(4)] by blast
  obtain b where b: "vh_mem s target = Some b" "b \<noteq> 0xE9"
    using assms(4) load_bytes_nth [of "vh_mem s" target HOOK_SIZE saved 0] by (auto simp: patchable_def layout_consts)
  then have d: "detect_chain (vh_mem s) target = Some 0" by (simp add: detect_chain_def)
  have no: "\<not> (\<exists>d \<in> set (g_hooked_i2i_entries s). ih_i2i_entry d = i2i)" using assms(2) by blast
  from assms(1) no assms(3) d c show ?thesis
    by (auto simp: patch_i2i_def Let_def split: if_splits bind_splits)
qed

text \<open>A method without compiled code: after the patch, the installation leaves the memory alone.\<close>

lemma install_interpreted:
  assumes "install E mth d cn mn s = Some (True, s')" and "\<forall>h \<in> set (g_hooked_methods s). hm_method h \<noteq> mth"
    and "mark_method E mth s = Some (True, s1)" and "get_i2i_entry (en_jvm E) (vh_mem s1) mth = Some i2i"
    and "get_code (en_jvm E) (vh_mem s1) mth = Some 0"
  shows "\<exists>e s2. new_entry E (vh_mem s1) mth d cn mn = Some e
     \<and> patch_i2i E i2i (s1\<lparr>g_hooked_methods := g_hooked_methods s1 @ [e]\<rparr>) = Some (True, s2) \<and> s' = ensure_started s2"
proof -
  have no: "\<not> (\<exists>h \<in> set (g_hooked_methods s). hm_method h = mth)" using assms(2) by blast
  from assms(1) no assms(3,4) obtain e s2 where e: "new_entry E (vh_mem s1) mth d cn mn = Some e"
    and p: "patch_i2i E i2i (s1\<lparr>g_hooked_methods := g_hooked_methods s1 @ [e]\<rparr>) = Some (True, s2)"
    and rest: "(if hm_was_compiled e then hook_deopt E mth i2i s2 else Some s2) \<bind> (\<lambda>s. Some (True, ensure_started s)) = Some (True, s')"
    by (auto simp: install_def Let_def split: bind_splits if_splits)
  have "\<not> hm_was_compiled e" using e assms(5) by (auto simp: new_entry_def bind_eq_Some_conv)
  with e p rest show ?thesis by auto
qed

text \<open>What a successful installation on such a method does to the registry and to the stub.\<close>

lemma hook_constructs:
  assumes "hook E t name sig d s0 = Some (True, s')" and "resolve_method E t name sig s0 = Some (mth, s)" and "mth \<noteq> 0"
    and "\<forall>h \<in> set (g_hooked_methods s0). hm_method h \<noteq> mth" and "mark_method E mth s = Some (True, s1)"
    and "get_i2i_entry (en_jvm E) (vh_mem s1) mth = Some i2i" and "\<forall>p \<in> set (g_hooked_i2i_entries s0). ih_i2i_entry p \<noteq> i2i"
    and "get_code (en_jvm E) (vh_mem s1) mth = Some 0"
    and "find_hook_location (en_jvm E) (vh_mem s1) (vh_locals_offset s1) i2i = Some (target, lo)" and "patchable E (vh_mem s1) target saved"
  obtains h e where "\<lparr>ih_i2i_entry = i2i, ih_hook = h\<rparr> \<in> set (g_hooked_i2i_entries s')" and "\<not> mh_error h"
    and "midi2i_hook_ctor (en_os E) (en_jvm E) (vh_mem s1) target (en_common_detour E) 0 = Some (h, vh_mem s')"
    and "find (\<lambda>h. hm_method h = mth) (g_hooked_methods s') = Some e" and "hm_detour e = d"
    and "g_shutdown_requested s' = g_shutdown_requested s0"
proof -
  have r: "same_registry s0 s" by (rule resolve_registry [OF assms(2,3)])
  have r1: "same_registry s s1" by (rule mark_method_registry [OF assms(5)])
  obtain cn where "hook E t name sig d s0 = install E mth d cn name s" using hook_resolved [OF assms(2,3)] by blast
  then have i: "install E mth d cn name s = Some (True, s')" using assms(1) by simp
  have n: "\<forall>h \<in> set (g_hooked_methods s). hm_method h \<noteq> mth" using assms(4) r by (simp add: same_registry_def)
  obtain e s2 where e: "new_entry E (vh_mem s1) mth d cn name = Some e" and s': "s' = ensure_started s2"
    and p: "patch_i2i E i2i (s1\<lparr>g_hooked_methods := g_hooked_methods s1 @ [e]\<rparr>) = Some (True, s2)"
    using install_interpreted [OF i n assms(5,6,8)] by blast
  obtain h where h: "g_hooked_i2i_entries s2 = g_hooked_i2i_entries s1 @ [\<lparr>ih_i2i_entry = i2i, ih_hook = h\<rparr>]" "\<not> mh_error h"
    "midi2i_hook_ctor (en_os E) (en_jvm E) (vh_mem s1) target (en_common_detour E) 0 = Some (h, vh_mem s2)"
    using patch_constructs [OF p, of target lo saved] assms(7,9,10) r r1 by (auto simp: same_registry_def)
  have "g_hooked_methods s' = g_hooked_methods s @ [e]" "g_shutdown_requested s' = g_shutdown_requested s"
    using patch_i2i_cases [OF p] r1 by (auto simp: s' ensure_started_def same_registry_def)
  with new_entry_method [OF e] find_last [of "g_hooked_methods s" "\<lambda>h. hm_method h = mth" e] n r
  have f: "find (\<lambda>h. hm_method h = mth) (g_hooked_methods s') = Some e" "hm_detour e = d"
    "g_shutdown_requested s' = g_shutdown_requested s0" by (auto simp: same_registry_def)
  show thesis
    by (rule that [OF _ h(2) _ f]) (use h in \<open>auto simp: s' ensure_started_def\<close>)
qed

text \<open>The path of a hook: after a successful installation on a method that is not hooked, has no
  compiled code and whose stub has no patch, the injection point of the method's stub jumps to the
  trampoline, which starts with the saved bytes, calls \<open>common_detour\<close> and resumes behind the patched
  window; and \<open>common_detour\<close> runs the new detour for every frame of the method.\<close>

theorem hooked_call_reaches_the_detour:
  assumes "hook E t name sig d s0 = Some (True, s')" and "resolve_method E t name sig s0 = Some (mth, s)" and "mth \<noteq> 0"
    and "\<forall>h \<in> set (g_hooked_methods s0). hm_method h \<noteq> mth" and "mark_method E mth s = Some (True, s1)"
    and "get_i2i_entry (en_jvm E) (vh_mem s1) mth = Some i2i" and "\<forall>p \<in> set (g_hooked_i2i_entries s0). ih_i2i_entry p \<noteq> i2i"
    and "get_code (en_jvm E) (vh_mem s1) mth = Some 0"
    and "find_hook_location (en_jvm E) (vh_mem s1) (vh_locals_offset s1) i2i = Some (target, lo)" and "patchable E (vh_mem s1) target saved"
    and "\<not> g_shutdown_requested s0" and "is_valid_pointer thread" and "frame_get_method (vh_mem s') fr = Some mth"
  shows "(\<exists>p \<in> set (g_hooked_i2i_entries s'). ih_i2i_entry p = i2i
       \<and> leads_to (vh_mem s') target (mh_allocated (ih_hook p)) saved (en_common_detour E))
     \<and> (\<forall>run slot. common_detour E run fr thread slot s' = do {
          s2 \<leftarrow> run d fr thread slot s';
          m \<leftarrow> set_thread_state (en_jvm E) (vh_mem s2) thread thread_in_Java;
          Some (Some d, s2\<lparr>vh_mem := m\<rparr>) })"
proof -
  obtain h e where h: "\<lparr>ih_i2i_entry = i2i, ih_hook = h\<rparr> \<in> set (g_hooked_i2i_entries s')" "\<not> mh_error h"
      "midi2i_hook_ctor (en_os E) (en_jvm E) (vh_mem s1) target (en_common_detour E) 0 = Some (h, vh_mem s')"
    and e: "find (\<lambda>h. hm_method h = mth) (g_hooked_methods s') = Some e" "hm_detour e = d"
      "g_shutdown_requested s' = g_shutdown_requested s0"
    by (rule hook_constructs [OF assms(1-10)])
  have "leads_to (vh_mem s') target (mh_allocated h) saved (en_common_detour E)"
    using ctor_leads_to [OF assms(10), of "en_jvm E" "en_common_detour E"] h by (metis option.inject prod.inject)
  with h(1) have path: "\<exists>p \<in> set (g_hooked_i2i_entries s'). ih_i2i_entry p = i2i
      \<and> leads_to (vh_mem s') target (mh_allocated (ih_hook p)) saved (en_common_detour E)" by force
  with e assms(11-13) valid_not_null [OF assms(12)] show ?thesis by (simp add: common_detour_def)
qed

text \<open>In the process of \<open>Hook_Lifecycle\<close>.\<close>

lemma life_patchable: "\<exists>saved. patchable life_env (reg_marked life_mem) 0x60000 saved"
proof -
  have "\<exists>saved. load_bytes (reg_marked life_mem) 0x60000 HOOK_SIZE = Some saved"
    by (simp add: load_bytes_mapped reg_marked_def life_mem_def)
  moreover have "fresh_pages (demo_os 0x61000) (reg_marked life_mem) 0x60000"
    using life_room by (auto simp: fresh_pages_def demo_os_def split: if_splits)
  moreover have "os_page_size (demo_os 0x61000) = 2 ^ 12" by (simp add: demo_os_def)
  ultimately show ?thesis
    by (auto simp: patchable_def demo_honours life_code minimum_application_address_def user_address_ceiling_def)
qed

lemma hooked_call_reaches_the_detour_witness:
  "\<exists>s' p saved s2. hook life_env 1 [] [] 7 (life_state life_mem [] []) = Some (True, s')
     \<and> p \<in> set (g_hooked_i2i_entries s') \<and> leads_to (vh_mem s') 0x60000 (mh_allocated (ih_hook p)) saved 0x500000
     \<and> common_detour life_env (\<lambda>d fr th sl s. Some s) 0x80000 0x90000 0 s' = Some (Some 7, s2)"
proof -
  obtain s' where i: "install life_env 0x50000 7 ''A'' [] (life_state life_mem [] []) = Some (True, s')"
    and m: "load64 (vh_mem s') 0x7FFE8 = Some 0x50000" "\<forall>a n. mapped (vh_mem s') a n" using life_install by blast
  have h: "hook life_env 1 [] [] 7 (life_state life_mem [] []) = Some (True, s')"
    using hook_resolved [OF life_resolve, where d = 7] i by auto
  obtain saved where pt: "patchable life_env (reg_marked life_mem) 0x60000 saved" using life_patchable by blast
  have v: "is_valid_pointer 0x90000" by (simp add: ptr_eval)
  have f: "frame_get_method (vh_mem s') 0x80000 = Some 0x50000" using m(1) by (simp add: frame_get_method_def)
  have "\<exists>m2. set_thread_state life_jvm (vh_mem s') 0x90000 thread_in_Java = Some m2"
    using m(2) by (simp add: set_thread_state_def store_le_put)
  then obtain m2 where m2: "set_thread_state life_jvm (vh_mem s') 0x90000 thread_in_Java = Some m2" ..
  have st: "get_i2i_entry (en_jvm life_env) (vh_mem (life_state (reg_marked life_mem) [] [])) 0x50000 = Some 0x60000"
    "get_code (en_jvm life_env) (vh_mem (life_state (reg_marked life_mem) [] [])) 0x50000 = Some 0"
    by (simp_all add: get_i2i_entry_def get_code_def life_loads)
  have loc: "find_hook_location (en_jvm life_env) (vh_mem (life_state (reg_marked life_mem) [] []))
      (vh_locals_offset (life_state (reg_marked life_mem) [] [])) 0x60000 = Some (0x60000, default_locals_offset)"
    by (simp add: life_location)
  have pt': "patchable life_env (vh_mem (life_state (reg_marked life_mem) [] [])) 0x60000 saved" using pt by simp
  note path = hooked_call_reaches_the_detour [OF h life_resolve _ _ life_mark st(1) _ st(2) loc pt' _ v f]
  have "(\<exists>p \<in> set (g_hooked_i2i_entries s'). ih_i2i_entry p = 0x60000
       \<and> leads_to (vh_mem s') 0x60000 (mh_allocated (ih_hook p)) saved (en_common_detour life_env))
     \<and> (\<forall>run slot. common_detour life_env run 0x80000 0x90000 slot s' = do {
          s2 \<leftarrow> run 7 0x80000 0x90000 slot s';
          m \<leftarrow> set_thread_state (en_jvm life_env) (vh_mem s2) 0x90000 thread_in_Java;
          Some (Some 7, s2\<lparr>vh_mem := m\<rparr>) })"
    by (rule path) simp_all
  with h m2 show ?thesis by (fastforce simp: life_env_def)
qed

end
