(* ===== verification/Probe_Signals.thy ===== *)
theory Probe_Signals
  imports Os_Layer
begin

text \<open>
  How the Linux branch of \<open>safe_read\<close> (vmhook.hpp lines 844 to 886 and 925 to 948) survives a bad
  pointer: process_vm_readv first, then a memcpy under a handler for SIGSEGV and SIGBUS that jumps back
  into \<open>safe_read\<close>. The handlers belong to the whole process, in which the JVM has its own.

  The state is what the kernel keeps for each signal, the static of \<open>install_once\<close> and the thread-local
  \<open>active_state\<close>: null, or the fault flag of the thread's probe. The system is the record \<open>signal_os\<close>:
  whether sigaction succeeds, what process_vm_readv returns, and which signal a bad address raises.
\<close>

section \<open>Signals and their handlers\<close>

datatype signal = Sigsegv | Sigbus

datatype disposition = Default_action | Previous_handler | Probe_handler

record signal_os =
  so_sigaction :: "signal \<Rightarrow> bool"
  so_readv :: "mem \<Rightarrow> addr \<Rightarrow> nat \<Rightarrow> int"
  so_raises :: "addr \<Rightarrow> signal"

record probe_state =
  ps_disposition :: "signal \<Rightarrow> disposition"
  ps_installed :: "bool option"
  ps_active :: "nat \<Rightarrow> bool option"

definition sigaction :: "signal_os \<Rightarrow> signal \<Rightarrow> disposition \<Rightarrow> probe_state \<Rightarrow> bool \<times> probe_state" where
  "sigaction OS sig d s =
     (if so_sigaction OS sig then (True, s\<lparr>ps_disposition := (ps_disposition s)(sig := d)\<rparr>) else (False, s))"

text \<open>\<open>install_once\<close>: the lambda runs once, its result is kept.\<close>

definition install_once :: "signal_os \<Rightarrow> probe_state \<Rightarrow> bool \<times> probe_state" where
  "install_once OS s =
     (case ps_installed s of Some b \<Rightarrow> (b, s)
      | None \<Rightarrow>
          let (ok, s) = sigaction OS Sigsegv Probe_handler s;
              (ok, s) = (if ok then sigaction OS Sigbus Probe_handler s else (False, s))
          in (ok, s\<lparr>ps_installed := Some ok\<rparr>))"

text \<open>The handler: true when it jumps back into the probe of the thread, false when it returns.\<close>

definition handler :: "signal_os \<Rightarrow> nat \<Rightarrow> probe_state \<Rightarrow> bool \<times> probe_state" where
  "handler OS thread s =
     (case ps_active s thread of
        Some fault \<Rightarrow> (True, s\<lparr>ps_active := (ps_active s)(thread := Some True)\<rparr>)
      | None \<Rightarrow> (False, snd (sigaction OS Sigsegv Default_action s)))"

text \<open>
  A fault of a thread: what the kernel does with the signal. When the handler returns, the thread runs
  the same instruction again and the signal is raised again; the value is \<open>None\<close> when that never ends.
\<close>

datatype outcome = Process_ends | Previous_runs | Probe_resumes

partial_function (option) raise_fault :: "signal_os \<Rightarrow> nat \<Rightarrow> signal \<Rightarrow> probe_state \<Rightarrow> (outcome \<times> probe_state) option" where
  "raise_fault OS thread sig s =
     (case ps_disposition s sig of
        Default_action \<Rightarrow> Some (Process_ends, s)
      | Previous_handler \<Rightarrow> Some (Previous_runs, s)
      | Probe_handler \<Rightarrow>
          if fst (handler OS thread s) then Some (Probe_resumes, snd (handler OS thread s))
          else raise_fault OS thread sig (snd (handler OS thread s)))"

section \<open>The probed read\<close>

datatype read_result = Returned "u8 list option" | Ended outcome

definition probe_memcpy :: "signal_os \<Rightarrow> mem \<Rightarrow> nat \<Rightarrow> addr \<Rightarrow> nat \<Rightarrow> probe_state \<Rightarrow> (read_result \<times> probe_state) option" where
  "probe_memcpy OS m thread src n s =
     (let s = s\<lparr>ps_active := (ps_active s)(thread := Some False)\<rparr> in
      case load_bytes m src n of
        Some bs \<Rightarrow> Some (Returned (if ps_active s thread = Some True then None else Some bs),
                         s\<lparr>ps_active := (ps_active s)(thread := None)\<rparr>)
      | None \<Rightarrow> (case raise_fault OS thread (so_raises OS src) s of
            None \<Rightarrow> None
          | Some (Probe_resumes, s) \<Rightarrow> Some (Returned None, s\<lparr>ps_active := (ps_active s)(thread := None)\<rparr>)
          | Some (out, s) \<Rightarrow> Some (Ended out, s)))"

definition safe_read_linux :: "signal_os \<Rightarrow> mem \<Rightarrow> nat \<Rightarrow> addr \<Rightarrow> nat \<Rightarrow> probe_state \<Rightarrow> (read_result \<times> probe_state) option" where
  "safe_read_linux OS m thread src n s =
     (if src = 0 \<or> n = 0 then Some (Returned None, s)
      else if so_readv OS m src n = int n then Some (Returned (load_bytes m src n), s)
      else let (ok, s) = install_once OS s in
        if \<not> ok then Some (Returned None, s) else probe_memcpy OS m thread src n s)"

section \<open>What a probe promises\<close>

text \<open>process_vm_readv reports the full length only when it copied every byte.\<close>

definition honest_readv :: "signal_os \<Rightarrow> bool" where
  "honest_readv OS \<longleftrightarrow> (\<forall>m src n. so_readv OS m src n = int n \<longrightarrow> load_bytes m src n \<noteq> None)"

definition probes_ready :: "probe_state \<Rightarrow> bool" where
  "probes_ready s \<longleftrightarrow> ps_installed s = None
     \<or> ps_installed s = Some True \<and> ps_disposition s Sigsegv = Probe_handler \<and> ps_disposition s Sigbus = Probe_handler"

lemma probing_fault:
  "ps_disposition s sig = Probe_handler \<Longrightarrow> ps_active s thread = Some b \<Longrightarrow>
     raise_fault OS thread sig s = Some (Probe_resumes, s\<lparr>ps_active := (ps_active s)(thread := Some True)\<rparr>)"
  by (subst raise_fault.simps) (simp add: handler_def)

lemma install_once_ready:
  assumes "probes_ready s" and "so_sigaction OS Sigsegv" and "so_sigaction OS Sigbus"
  obtains s' where "install_once OS s = (True, s')" and "ps_installed s' = Some True" and "\<And>sig. ps_disposition s' sig = Probe_handler"
    and "ps_active s' = ps_active s" and "probes_ready s'"
proof (cases "ps_installed s")
  case None
  let ?s = "s\<lparr>ps_disposition := (ps_disposition s)(Sigsegv := Probe_handler, Sigbus := Probe_handler), ps_installed := Some True\<rparr>"
  have i: "install_once OS s = (True, ?s)" using None assms(2,3) by (simp add: install_once_def sigaction_def)
  have d: "ps_disposition ?s sig = Probe_handler" for sig by (cases sig) simp_all
  show ?thesis by (rule that [OF i _ d]) (simp_all add: probes_ready_def)
next
  case (Some b)
  with assms(1) have i: "install_once OS s = (True, s)" "ps_installed s = Some True" by (auto simp: install_once_def probes_ready_def)
  with assms(1) have "ps_disposition s sig = Probe_handler" for sig by (cases sig) (auto simp: probes_ready_def)
  from that [OF i this refl assms(1)] show ?thesis .
qed

lemma probe_memcpy_returns:
  assumes "\<And>sig. ps_disposition s sig = Probe_handler"
  shows "probe_memcpy OS m thread src n s = Some (Returned (load_bytes m src n), s\<lparr>ps_active := (ps_active s)(thread := None)\<rparr>)"
  using probing_fault [of "s\<lparr>ps_active := (ps_active s)(thread := Some False)\<rparr>" "so_raises OS src" thread False OS] assms
  by (simp add: probe_memcpy_def Let_def split: option.splits)

text \<open>C19. On Linux the probed read is the read that cannot fault: when sigaction works and process_vm_readv
  never claims more than it copied, it returns the bytes exactly when all of them are mapped, whichever
  way it takes, the process goes on, and no thread is left marked as probing.\<close>

theorem probe_refines_safe_read:
  assumes "honest_readv OS" and "probes_ready s" and "so_sigaction OS Sigsegv" and "so_sigaction OS Sigbus" and "ps_active s thread = None"
  shows "\<exists>s'. safe_read_linux OS m thread src n s = Some (Returned (safe_read m src n), s') \<and> probes_ready s' \<and> ps_active s' = ps_active s"
proof -
  obtain s1 where i: "install_once OS s = (True, s1)" "ps_installed s1 = Some True" "\<And>sig. ps_disposition s1 sig = Probe_handler"
    "ps_active s1 = ps_active s" "probes_ready s1" using install_once_ready [OF assms(2-4)] by blast
  have "safe_read_linux OS m thread src n s = Some (Returned (safe_read m src n), s)"
    if "src = 0 \<or> n = 0 \<or> so_readv OS m src n = int n"
    using that by (auto simp: safe_read_linux_def safe_read_def)
  moreover have "safe_read_linux OS m thread src n s
      = Some (Returned (safe_read m src n), s1\<lparr>ps_active := (ps_active s1)(thread := None)\<rparr>)"
    if "\<not> (src = 0 \<or> n = 0 \<or> so_readv OS m src n = int n)"
    using that i(1) probe_memcpy_returns [OF i(3)] by (auto simp: safe_read_linux_def safe_read_def)
  moreover have "probes_ready (s1\<lparr>ps_active := (ps_active s1)(thread := None)\<rparr>)" using i(5) by (simp add: probes_ready_def)
  moreover have "(ps_active s1)(thread := None) = ps_active s" using i(4) assms(5) by (simp add: fun_upd_idem)
  ultimately show ?thesis using assms(2) by fastforce
qed

section \<open>What a probe costs the JVM\<close>

lemma unprobed_sigsegv:
  assumes "ps_disposition s Sigsegv = Probe_handler" and "ps_active s u = None" and "so_sigaction OS Sigsegv"
  shows "\<exists>s'. raise_fault OS u Sigsegv s = Some (Process_ends, s')"
  using assms by (subst raise_fault.simps, subst raise_fault.simps) (simp add: handler_def sigaction_def)

text \<open>The handler resets SIGSEGV whatever signal it was called for.\<close>

lemma sigbus_repeats:
  assumes "raise_fault OS u sig s = Some r"
  shows "sig = Sigbus \<longrightarrow> ps_disposition s Sigbus = Probe_handler \<longrightarrow> ps_active s u \<noteq> None"
proof (rule raise_fault.raw_induct [where P = "\<lambda>OS u sig s r. sig = Sigbus \<longrightarrow> ps_disposition s Sigbus = Probe_handler \<longrightarrow> ps_active s u \<noteq> None", OF _ assms],
    intro impI notI)
  fix again :: "signal_os \<Rightarrow> nat \<Rightarrow> signal \<Rightarrow> probe_state \<Rightarrow> (outcome \<times> probe_state) option" and OS u sig s r
  let ?s = "snd (sigaction OS Sigsegv Default_action s)"
  assume ih: "\<And>OS u sig s r. again OS u sig s = Some r \<Longrightarrow> sig = Sigbus \<longrightarrow> ps_disposition s Sigbus = Probe_handler \<longrightarrow> ps_active s u \<noteq> None"
    and step: "(case ps_disposition s sig of
        Default_action \<Rightarrow> Some (Process_ends, s)
      | Previous_handler \<Rightarrow> Some (Previous_runs, s)
      | Probe_handler \<Rightarrow>
          if fst (handler OS u s) then Some (Probe_resumes, snd (handler OS u s))
          else again OS u sig (snd (handler OS u s))) = Some r"
    and sig: "sig = Sigbus" and d: "ps_disposition s Sigbus = Probe_handler" and n: "ps_active s u = None"
  have "handler OS u s = (False, ?s)" using n by (simp add: handler_def)
  with step sig d have "again OS u Sigbus ?s = Some r" by simp
  moreover have "ps_disposition ?s Sigbus = Probe_handler" "ps_active ?s u = None" using d n by (simp_all add: sigaction_def)
  ultimately show False using ih by blast
qed

lemma unprobed_sigbus:
  assumes "ps_disposition s Sigbus = Probe_handler" and "ps_active s u = None"
  shows "raise_fault OS u Sigbus s = None"
  using sigbus_repeats [of OS u Sigbus s] assms by (cases "raise_fault OS u Sigbus s") auto

text \<open>C20. The first read of an unmapped address takes the two signals away from the JVM for good. Before it, a
  fault of a Java thread runs the JVM's handler, which turns it into a NullPointerException or a
  safepoint; after it, a SIGSEGV of any thread that is not probing ends the process, and a SIGBUS
  repeats forever, because the handler resets the other signal.\<close>

theorem probe_takes_the_jvms_signals:
  assumes "\<And>sig. ps_disposition s sig = Previous_handler" and "ps_installed s = None" and "so_sigaction OS Sigsegv" and "so_sigaction OS Sigbus"
    and "src \<noteq> 0" and "n \<noteq> 0" and "so_readv OS m src n \<noteq> int n" and "ps_active s u = None"
  shows "raise_fault OS u sig s = Some (Previous_runs, s)
     \<and> (\<exists>r s'. safe_read_linux OS m thread src n s = Some (Returned r, s')
          \<and> (\<exists>s2. raise_fault OS u Sigsegv s' = Some (Process_ends, s2)) \<and> raise_fault OS u Sigbus s' = None)"
proof -
  have "probes_ready s" using assms(2) by (simp add: probes_ready_def)
  then obtain s1 where i: "install_once OS s = (True, s1)" "\<And>sig. ps_disposition s1 sig = Probe_handler"
    "ps_active s1 = ps_active s" using install_once_ready [OF _ assms(3,4)] by blast
  let ?s' = "s1\<lparr>ps_active := (ps_active s1)(thread := None)\<rparr>"
  have "safe_read_linux OS m thread src n s = Some (Returned (load_bytes m src n), ?s')"
    using assms(5-7) i(1) probe_memcpy_returns [OF i(2)] by (simp add: safe_read_linux_def)
  moreover have "\<exists>s2. raise_fault OS u Sigsegv ?s' = Some (Process_ends, s2)"
    by (rule unprobed_sigsegv) (use i assms(3,8) in simp_all)
  moreover have "raise_fault OS u Sigbus ?s' = None"
    by (rule unprobed_sigbus) (use i assms(8) in simp_all)
  moreover have "raise_fault OS u sig s = Some (Previous_runs, s)"
    using assms(1) by (subst raise_fault.simps) simp
  ultimately show ?thesis by blast
qed

text \<open>A process in which the JVM has its handlers and nothing is mapped.\<close>

definition quiet_os :: signal_os where
  "quiet_os = \<lparr>so_sigaction = (\<lambda>_. True),
     so_readv = (\<lambda>m src n. if load_bytes m src n = None then - 1 else int n), so_raises = (\<lambda>_. Sigsegv)\<rparr>"

definition jvm_signals :: probe_state where
  "jvm_signals = \<lparr>ps_disposition = (\<lambda>_. Previous_handler), ps_installed = None, ps_active = (\<lambda>_. None)\<rparr>"

lemma nothing_mapped: "load_bytes Map.empty a 8 = None"
  by (simp add: numeral_eq_Suc)

lemma jvm_signals_sel: "ps_disposition jvm_signals sig = Previous_handler" "ps_installed jvm_signals = None"
  "ps_active jvm_signals u = None" "so_sigaction quiet_os sig" "so_readv quiet_os Map.empty 0x7000 8 = - 1"
  by (simp_all add: jvm_signals_def quiet_os_def nothing_mapped)

lemma probe_refines_safe_read_witness:
  "\<exists>s'. safe_read_linux quiet_os Map.empty 1 0x7000 8 jvm_signals = Some (Returned None, s')"
proof -
  have h: "honest_readv quiet_os" by (auto simp: honest_readv_def quiet_os_def split: if_splits)
  have r: "probes_ready jvm_signals" by (simp add: probes_ready_def jvm_signals_sel)
  have "safe_read Map.empty 0x7000 8 = None" by (simp add: safe_read_def nothing_mapped)
  with probe_refines_safe_read [OF h r, where thread = 1 and m = Map.empty and src = "0x7000" and n = 8]
  show ?thesis by (auto simp: jvm_signals_sel)
qed

lemma probe_takes_the_jvms_signals_witness:
  "\<exists>r s'. safe_read_linux quiet_os Map.empty 1 0x7000 8 jvm_signals = Some (Returned r, s') \<and> raise_fault quiet_os 2 Sigbus s' = None"
proof -
  have "so_readv quiet_os Map.empty 0x7000 8 \<noteq> int 8" by (simp add: jvm_signals_sel)
  from probe_takes_the_jvms_signals [OF _ _ _ _ _ _ this, where s = jvm_signals and u = 2 and sig = Sigbus and thread = 1]
  show ?thesis by (auto simp: jvm_signals_sel)
qed

end
