(* ===== verification/Vm_Tables.thy ===== *)
theory Vm_Tables
  imports Vm_Structs
begin

text \<open>
  Where the tables come from (vmhook.hpp lines 476 to 582 and 1601 to 1730): finding the JVM's library,
  the two symbols it exports, and the loops over the C arrays behind them. The other theories work with
  the lists of \<open>Vm_Structs\<close>; here the arrays are bytes in memory, and the loops over the bytes are
  shown to find what the searches of the lists find.

  dlopen, dlsym and sysconf are parameters. The loops have no bound in the code.
\<close>

section \<open>The library and its symbols\<close>

record loader =
  ld_dlopen :: "string \<Rightarrow> u64"
  ld_dlsym :: "u64 \<Rightarrow> string \<Rightarrow> addr"
  ld_sysconf_page :: int

definition page_size :: "loader \<Rightarrow> u64" where
  "page_size L = (let ps = ld_sysconf_page L in if 0 < ps then word_of_int ps else 4096)"

definition allocation_granularity :: "loader \<Rightarrow> u64" where
  "allocation_granularity L = page_size L"

fun first_module :: "loader \<Rightarrow> string list \<Rightarrow> u64" where
  "first_module L [] = 0"
| "first_module L (name # names) = (let h = ld_dlopen L name in if h \<noteq> 0 then h else first_module L names)"

definition find_jvm_module :: "loader \<Rightarrow> u64" where
  "find_jvm_module L = first_module L [''libjvm.so'', ''libjvm.so.0'']"

definition get_proc_address :: "loader \<Rightarrow> u64 \<Rightarrow> string option \<Rightarrow> addr" where
  "get_proc_address L module symbol =
     (case symbol of None \<Rightarrow> 0 | Some name \<Rightarrow> if module = 0 then 0 else ld_dlsym L module name)"

text \<open>The function-local statics: what each function computed the first time it ran.\<close>

record vm_exports =
  ex_module :: "u64 option"
  ex_types :: "addr option"
  ex_structs :: "addr option"

definition get_jvm_module :: "loader \<Rightarrow> vm_exports \<Rightarrow> u64 \<times> vm_exports" where
  "get_jvm_module L x =
     (case ex_module x of Some h \<Rightarrow> (h, x)
      | None \<Rightarrow> let h = find_jvm_module L in (h, x\<lparr>ex_module := Some h\<rparr>))"

definition exported_table :: "loader \<Rightarrow> mem \<Rightarrow> string \<Rightarrow> vm_exports \<Rightarrow> (addr \<times> vm_exports) option" where
  "exported_table L m symbol x = do {
     let (module, x) = get_jvm_module L x;
     let procedure_address = get_proc_address L module (Some symbol);
     if procedure_address = 0 then Some (0, x)
     else do { p \<leftarrow> load64 m procedure_address; Some (p, x) } }"

definition get_vm_types :: "loader \<Rightarrow> mem \<Rightarrow> vm_exports \<Rightarrow> (addr \<times> vm_exports) option" where
  "get_vm_types L m x =
     (case ex_types x of Some p \<Rightarrow> Some (p, x)
      | None \<Rightarrow> do { (p, x) \<leftarrow> exported_table L m ''gHotSpotVMTypes'' x; Some (p, x\<lparr>ex_types := Some p\<rparr>) })"

definition get_vm_structs :: "loader \<Rightarrow> mem \<Rightarrow> vm_exports \<Rightarrow> (addr \<times> vm_exports) option" where
  "get_vm_structs L m x =
     (case ex_structs x of Some p \<Rightarrow> Some (p, x)
      | None \<Rightarrow> do { (p, x) \<leftarrow> exported_table L m ''gHotSpotVMStructs'' x; Some (p, x\<lparr>ex_structs := Some p\<rparr>) })"

section \<open>The loops over the arrays\<close>

text \<open>\<open>!std::strcmp\<close> of a string in memory with a literal; it stops at the first difference.\<close>

fun strcmp_eq :: "mem \<Rightarrow> addr \<Rightarrow> string \<Rightarrow> bool option" where
  "strcmp_eq m a [] = do { b \<leftarrow> m a; Some (b = 0) }"
| "strcmp_eq m a (c # cs) = do { b \<leftarrow> m a; if b = of_char c then strcmp_eq m (a + 1) cs else Some False }"

definition type_entry_bytes :: addr where
  "type_entry_bytes = 40"

definition struct_entry_bytes :: addr where
  "struct_entry_bytes = 48"

partial_function (option) type_loop :: "mem \<Rightarrow> string \<Rightarrow> addr \<Rightarrow> addr option" where
  "type_loop m type_name entry =
     (if entry = 0 then Some 0
      else do {
        name \<leftarrow> load64 m entry;
        if name = 0 then Some 0
        else do {
          same \<leftarrow> strcmp_eq m name type_name;
          if same then Some entry else type_loop m type_name (entry + type_entry_bytes) } })"

partial_function (option) struct_loop :: "mem \<Rightarrow> string \<Rightarrow> string \<Rightarrow> addr \<Rightarrow> addr option" where
  "struct_loop m type_name field_name entry =
     (if entry = 0 then Some 0
      else do {
        name \<leftarrow> load64 m entry;
        if name = 0 then Some 0
        else do {
          field \<leftarrow> load64 m (entry + 8);
          if field = 0 then struct_loop m type_name field_name (entry + struct_entry_bytes)
          else do {
            same \<leftarrow> strcmp_eq m name type_name;
            same \<leftarrow> (if same then strcmp_eq m field field_name else Some False);
            if same then Some entry else struct_loop m type_name field_name (entry + struct_entry_bytes) } } })"

section \<open>What the arrays hold\<close>

fun c_string :: "mem \<Rightarrow> addr \<Rightarrow> string \<Rightarrow> bool" where
  "c_string m a [] \<longleftrightarrow> m a = Some 0"
| "c_string m a (c # cs) \<longleftrightarrow> m a = Some (of_char c) \<and> of_char c \<noteq> (0 :: u8) \<and> c_string m (a + 1) cs"

fun c_string_option :: "mem \<Rightarrow> addr \<Rightarrow> string option \<Rightarrow> bool" where
  "c_string_option m a None \<longleftrightarrow> a = 0"
| "c_string_option m a (Some s) \<longleftrightarrow> a \<noteq> 0 \<and> c_string m a s"

definition type_entry_at :: "mem \<Rightarrow> addr \<Rightarrow> vm_type_entry_t \<Rightarrow> bool" where
  "type_entry_at m a e \<longleftrightarrow> (\<exists>name super. load64 m a = Some name \<and> load64 m (a + 8) = Some super
     \<and> c_string_option m name (Some (te_type_name e)) \<and> c_string_option m super (te_superclass_name e)
     \<and> load32 m (a + 16) = Some (te_is_oop_type_type e) \<and> load32 m (a + 20) = Some (te_is_integer_type e)
     \<and> load32 m (a + 24) = Some (te_is_unsigned e) \<and> load64 m (a + 32) = Some (te_size e))"

definition struct_entry_at :: "mem \<Rightarrow> addr \<Rightarrow> vm_struct_entry_t \<Rightarrow> bool" where
  "struct_entry_at m a e \<longleftrightarrow> (\<exists>name field text. load64 m a = Some name \<and> load64 m (a + 8) = Some field \<and> load64 m (a + 16) = Some text
     \<and> c_string_option m name (Some (se_type_name e)) \<and> c_string_option m field (se_field_name e)
     \<and> c_string_option m text (se_type_string e) \<and> load32 m (a + 24) = Some (se_is_static e)
     \<and> load64 m (a + 32) = Some (se_offset e) \<and> load64 m (a + 40) = Some (se_address e))"

text \<open>An array with the entries of a list, ended by a null name. A table the JVM does not export is null.\<close>

fun array_at :: "('e \<Rightarrow> addr \<Rightarrow> bool) \<Rightarrow> mem \<Rightarrow> addr \<Rightarrow> addr \<Rightarrow> 'e list \<Rightarrow> bool" where
  "array_at entry m width a [] \<longleftrightarrow> a = 0 \<or> load64 m a = Some 0"
| "array_at entry m width a (e # es) \<longleftrightarrow> a \<noteq> 0 \<and> entry e a \<and> array_at entry m width (a + width) es"

definition type_table :: "mem \<Rightarrow> addr \<Rightarrow> vm_type_entry_t list \<Rightarrow> bool" where
  "type_table m = array_at (\<lambda>e a. type_entry_at m a e) m type_entry_bytes"

definition struct_table :: "mem \<Rightarrow> addr \<Rightarrow> vm_struct_entry_t list \<Rightarrow> bool" where
  "struct_table m = array_at (\<lambda>e a. struct_entry_at m a e) m struct_entry_bytes"

text \<open>A result of a loop stands for the result of a search: null for nothing, or an entry in memory.\<close>

definition found_at :: "(addr \<Rightarrow> 'e \<Rightarrow> bool) \<Rightarrow> addr option \<Rightarrow> 'e option \<Rightarrow> bool" where
  "found_at entry r e \<longleftrightarrow> (case e of None \<Rightarrow> r = Some 0 | Some e \<Rightarrow> \<exists>a. r = Some a \<and> a \<noteq> 0 \<and> entry a e)"

definition literal :: "string \<Rightarrow> bool" where
  "literal s \<longleftrightarrow> (\<forall>c \<in> set s. of_char c \<noteq> (0 :: u8))"

lemma unat_of_char: "unat (of_char c :: u8) = of_char c"
proof -
  have "unat (of_nat (of_char c) :: u8) = of_char c"
    using nat_of_char_less_256 [of c] by (simp add: unat_of_nat take_bit_nat_eq_self del: of_nat_of_char)
  then show ?thesis by (simp only: of_nat_of_char)
qed

lemma of_char_inj: "(of_char c :: u8) = of_char d \<longleftrightarrow> c = d"
  by (metis unat_of_char of_char_eq_iff)

lemma strcmp_c_string: "c_string m a s \<Longrightarrow> literal t \<Longrightarrow> strcmp_eq m a t = Some (s = t)"
proof (induction t arbitrary: a s)
  case Nil
  then show ?case by (cases s) auto
next
  case (Cons c cs)
  then show ?case by (cases s) (auto simp: literal_def of_char_inj)
qed

lemma type_loop_finds:
  "array_at (\<lambda>e a. type_entry_at m a e) m type_entry_bytes a es \<Longrightarrow> literal tn \<Longrightarrow>
     found_at (type_entry_at m) (type_loop m tn a) (scan_types es tn)"
proof (induction es arbitrary: a)
  case Nil
  then show ?case by (subst type_loop.simps) (auto simp: found_at_def)
next
  case (Cons e es)
  then obtain name where n: "load64 m a = Some name" "name \<noteq> 0" "c_string m name (te_type_name e)"
    by (auto simp: type_entry_at_def)
  show ?case
  proof (cases "te_type_name e = tn")
    case True
    with n strcmp_c_string [OF n(3) Cons.prems(2)] Cons.prems show ?thesis
      by (subst type_loop.simps) (auto simp: found_at_def)
  next
    case False
    then have "type_loop m tn a = type_loop m tn (a + type_entry_bytes)"
      using n strcmp_c_string [OF n(3) Cons.prems(2)] Cons.prems by (subst type_loop.simps) simp
    with Cons False show ?thesis by simp
  qed
qed

lemma struct_loop_finds:
  "array_at (\<lambda>e a. struct_entry_at m a e) m struct_entry_bytes a es \<Longrightarrow> literal tn \<Longrightarrow> literal fn \<Longrightarrow>
     found_at (struct_entry_at m) (struct_loop m tn fn a) (scan_structs es tn fn)"
proof (induction es arbitrary: a)
  case Nil
  then show ?case by (subst struct_loop.simps) (auto simp: found_at_def)
next
  case (Cons e es)
  then obtain name field where n: "load64 m a = Some name" "name \<noteq> 0" "c_string m name (se_type_name e)"
    and f: "load64 m (a + 8) = Some field" "c_string_option m field (se_field_name e)"
    by (auto simp: struct_entry_at_def)
  note eq = strcmp_c_string [OF n(3) Cons.prems(2)]
  have later: "found_at (struct_entry_at m) (struct_loop m tn fn (a + struct_entry_bytes)) (scan_structs es tn fn)"
    using Cons by simp
  show ?case
  proof (cases "se_field_name e")
    case None
    with n f Cons.prems later show ?thesis by (subst struct_loop.simps) simp
  next
    case (Some s)
    with f have fld: "field \<noteq> 0" "strcmp_eq m field fn = Some (s = fn)" using strcmp_c_string Cons.prems(3) by auto
    show ?thesis
    proof (cases "se_type_name e = tn \<and> s = fn")
      case True
      with n f fld eq Some Cons.prems show ?thesis by (subst struct_loop.simps) (auto simp: found_at_def)
    next
      case False
      with n f fld eq Cons.prems have "struct_loop m tn fn a = struct_loop m tn fn (a + struct_entry_bytes)"
        by (subst struct_loop.simps) auto
        with later False Some show ?thesis by auto
    qed
  qed
qed

section \<open>From the library to the lists\<close>

text \<open>\<open>exports L m J\<close>: the library is loaded, and each of the two symbols is absent, with an empty list, or
  holds the address of an array with the entries of the list.\<close>

definition symbol_table :: "loader \<Rightarrow> mem \<Rightarrow> string \<Rightarrow> (addr \<Rightarrow> 'e list \<Rightarrow> bool) \<Rightarrow> 'e list \<Rightarrow> bool" where
  "symbol_table L m symbol at es \<longleftrightarrow>
     (case get_proc_address L (find_jvm_module L) (Some symbol) of p \<Rightarrow>
        if p = 0 then es = [] else \<exists>a. load64 m p = Some a \<and> at a es)"

definition exports :: "loader \<Rightarrow> mem \<Rightarrow> jvm \<Rightarrow> bool" where
  "exports L m J \<longleftrightarrow> symbol_table L m ''gHotSpotVMTypes'' (type_table m) (vm_types J)
     \<and> symbol_table L m ''gHotSpotVMStructs'' (struct_table m) (vm_structs J)"

definition no_exports :: vm_exports where
  "no_exports = \<lparr>ex_module = None, ex_types = None, ex_structs = None\<rparr>"

definition read_type_entry :: "loader \<Rightarrow> mem \<Rightarrow> string \<Rightarrow> vm_exports \<Rightarrow> (addr \<times> vm_exports) option" where
  "read_type_entry L m type_name x = do { (p, x) \<leftarrow> get_vm_types L m x; e \<leftarrow> type_loop m type_name p; Some (e, x) }"

definition read_struct_entry :: "loader \<Rightarrow> mem \<Rightarrow> string \<Rightarrow> string \<Rightarrow> vm_exports \<Rightarrow> (addr \<times> vm_exports) option" where
  "read_struct_entry L m type_name field_name x = do {
     (p, x) \<leftarrow> get_vm_structs L m x; e \<leftarrow> struct_loop m type_name field_name p; Some (e, x) }"

text \<open>The statics hold what the functions would compute.\<close>

definition exports_ok :: "loader \<Rightarrow> mem \<Rightarrow> jvm \<Rightarrow> vm_exports \<Rightarrow> bool" where
  "exports_ok L m J x \<longleftrightarrow> (case ex_module x of None \<Rightarrow> True | Some h \<Rightarrow> h = find_jvm_module L)
     \<and> (case ex_types x of None \<Rightarrow> True | Some p \<Rightarrow> type_table m p (vm_types J))
     \<and> (case ex_structs x of None \<Rightarrow> True | Some p \<Rightarrow> struct_table m p (vm_structs J))"

lemma get_jvm_module_ok:
  "exports_ok L m J x \<Longrightarrow> \<exists>x'. get_jvm_module L x = (find_jvm_module L, x') \<and> exports_ok L m J x'
     \<and> ex_types x' = ex_types x \<and> ex_structs x' = ex_structs x"
  by (auto simp: get_jvm_module_def exports_ok_def Let_def split: option.splits)

lemma exported_table_ok:
  assumes "exports_ok L m J x" and "symbol_table L m symbol at es" and "at 0 []"
  shows "\<exists>p x'. exported_table L m symbol x = Some (p, x') \<and> at p es \<and> exports_ok L m J x'"
  using get_jvm_module_ok [OF assms(1)] assms(2,3)
  by (auto simp: exported_table_def symbol_table_def Let_def split: if_splits)

lemma get_vm_types_ok:
  assumes "exports L m J" and "exports_ok L m J x"
  shows "\<exists>p x'. get_vm_types L m x = Some (p, x') \<and> type_table m p (vm_types J) \<and> exports_ok L m J x'"
proof (cases "ex_types x")
  case None
  have "symbol_table L m ''gHotSpotVMTypes'' (type_table m) (vm_types J)" using assms(1) by (simp add: exports_def)
  then obtain p x' where "exported_table L m ''gHotSpotVMTypes'' x = Some (p, x')" "type_table m p (vm_types J)" "exports_ok L m J x'"
    using exported_table_ok [OF assms(2)] by (metis type_table_def array_at.simps(1))
  with None show ?thesis by (auto simp: get_vm_types_def exports_ok_def)
next
  case (Some p)
  with assms(2) show ?thesis by (auto simp: get_vm_types_def exports_ok_def)
qed

lemma get_vm_structs_ok:
  assumes "exports L m J" and "exports_ok L m J x"
  shows "\<exists>p x'. get_vm_structs L m x = Some (p, x') \<and> struct_table m p (vm_structs J) \<and> exports_ok L m J x'"
proof (cases "ex_structs x")
  case None
  have "symbol_table L m ''gHotSpotVMStructs'' (struct_table m) (vm_structs J)" using assms(1) by (simp add: exports_def)
  then obtain p x' where "exported_table L m ''gHotSpotVMStructs'' x = Some (p, x')" "struct_table m p (vm_structs J)" "exports_ok L m J x'"
    using exported_table_ok [OF assms(2)] by (metis struct_table_def array_at.simps(1))
  with None show ?thesis by (auto simp: get_vm_structs_def exports_ok_def)
next
  case (Some p)
  with assms(2) show ?thesis by (auto simp: get_vm_structs_def exports_ok_def)
qed

text \<open>C16. The searches of the arrays that the JVM exports return, and they find what the searches of the
  lists find: null for nothing, or an entry in memory with the fields of the list's first match.
  This holds whenever the functions run, with or without their cached statics.\<close>

theorem array_search_refines_list_search:
  assumes "exports L m J" and "exports_ok L m J x" and "literal tn" and "literal fn"
  shows "\<exists>e f x1 x2. read_type_entry L m tn x = Some (e, x1) \<and> found_at (type_entry_at m) (Some e) (vm_type J tn)
     \<and> read_struct_entry L m tn fn x1 = Some (f, x2) \<and> found_at (struct_entry_at m) (Some f) (vm_struct J tn fn)
     \<and> exports_ok L m J x2"
proof -
  obtain p x1 where t: "get_vm_types L m x = Some (p, x1)" "type_table m p (vm_types J)" "exports_ok L m J x1"
    using get_vm_types_ok [OF assms(1,2)] by blast
  obtain q x2 where u: "get_vm_structs L m x1 = Some (q, x2)" "struct_table m q (vm_structs J)" "exports_ok L m J x2"
    using get_vm_structs_ok [OF assms(1) t(3)] by blast
  have "found_at (type_entry_at m) (type_loop m tn p) (vm_type J tn)"
    using type_loop_finds [OF t(2) [unfolded type_table_def] assms(3)] by (simp add: iterate_type_entries_def)
  moreover have "found_at (struct_entry_at m) (struct_loop m tn fn q) (vm_struct J tn fn)"
    using struct_loop_finds [OF u(2) [unfolded struct_table_def] assms(3,4)] by (simp add: iterate_struct_entries_def)
  ultimately show ?thesis using t(1) u(1,3)
    by (auto simp: read_type_entry_def read_struct_entry_def found_at_def split: option.splits)
qed

text \<open>A library with one type and one field.\<close>

definition small_loader :: loader where
  "small_loader = \<lparr>ld_dlopen = (\<lambda>n. if n = ''libjvm.so.0'' then 5 else 0),
     ld_dlsym = (\<lambda>h s. if s = ''gHotSpotVMTypes'' then 0x11000 else if s = ''gHotSpotVMStructs'' then 0x11008 else 0), ld_sysconf_page = 4096\<rparr>"

definition small_mem :: mem where
  "small_mem = image [(0x11000, 8, 0x12000), (0x11008, 8, 0x13000), (0x12000, 8, 0x14000), (0x12020, 8, 16),
     (0x13000, 8, 0x14000), (0x13008, 8, 0x14010), (0x13020, 8, 24), (0x14000, 1, 65), (0x14010, 1, 98)]"

definition small_jvm :: jvm where
  "small_jvm = \<lparr>vm_types = [\<lparr>te_type_name = ''A'', te_superclass_name = None, te_is_oop_type_type = 0, te_is_integer_type = 0,
       te_is_unsigned = 0, te_size = 16\<rparr>],
     vm_structs = [\<lparr>se_type_name = ''A'', se_field_name = Some ''b'', se_type_string = None, se_is_static = 0, se_offset = 24, se_address = 0\<rparr>],
     proc_maps = []\<rparr>"

lemma small_loads:
  "load64 small_mem 0x11000 = Some 0x12000" "load64 small_mem 0x11008 = Some 0x13000" "load64 small_mem 0x12000 = Some 0x14000"
  "load64 small_mem 0x12008 = Some 0" "load32 small_mem 0x12010 = Some 0" "load32 small_mem 0x12014 = Some 0"
  "load32 small_mem 0x12018 = Some 0" "load64 small_mem 0x12020 = Some 16" "load64 small_mem 0x12028 = Some 0"
  "load64 small_mem 0x13000 = Some 0x14000" "load64 small_mem 0x13008 = Some 0x14010" "load64 small_mem 0x13010 = Some 0"
  "load32 small_mem 0x13018 = Some 0" "load64 small_mem 0x13020 = Some 24" "load64 small_mem 0x13028 = Some 0"
  "load64 small_mem 0x13030 = Some 0"
  by (simp_all add: small_mem_def mem_simps apart_def)

lemma small_bytes: "small_mem 0x14000 = Some 65" "small_mem 0x14001 = Some 0" "small_mem 0x14010 = Some 98" "small_mem 0x14011 = Some 0"
  by (simp_all add: small_mem_def put_def ram_def)

lemma small_exports: "exports small_loader small_mem small_jvm"
  by (simp add: exports_def symbol_table_def get_proc_address_def find_jvm_module_def small_loader_def small_loads
      type_table_def struct_table_def small_jvm_def type_entry_at_def struct_entry_at_def small_bytes type_entry_bytes_def
      struct_entry_bytes_def of_char_def)

lemma array_search_refines_list_search_witness:
  "\<exists>e f x1 x2. read_type_entry small_loader small_mem ''A'' no_exports = Some (e, x1) \<and> e \<noteq> 0
     \<and> read_struct_entry small_loader small_mem ''A'' ''b'' x1 = Some (f, x2) \<and> load64 small_mem (f + 32) = Some 24"
proof -
  have "exports_ok small_loader small_mem small_jvm no_exports" by (simp add: exports_ok_def no_exports_def)
  moreover have "literal ''A''" "literal ''b''" by (simp_all add: literal_def of_char_def)
  ultimately show ?thesis
    using array_search_refines_list_search [OF small_exports, of no_exports "''A''" "''b''"]
    by (auto simp: found_at_def small_jvm_def iterate_type_entries_def iterate_struct_entries_def struct_entry_at_def)
qed

end
