(* ===== verification/Page_Permissions.thy ===== *)
theory Page_Permissions
  imports Trampoline
begin

text \<open>
  The page permissions behind \<open>midi2i_hook\<close> (vmhook.hpp lines 5615 to 5661, 5735 to 5749 and 5790 to
  5800). \<open>Trampoline\<close> takes every mapped byte as writable; here a store to a page without write
  permission is the fault that it is for the processor, and every call of \<open>os::protect\<close> changes the
  permissions of the pages it covers when the kernel grants it. The functions are those of
  \<open>Trampoline\<close> with the permissions passed along.

  Pages have numbers; their size is that of the operating system.
\<close>

section \<open>Permissions\<close>

type_synonym perms = "nat \<Rightarrow> memory_protection"

fun writable :: "memory_protection \<Rightarrow> bool" where
  "writable read_write = True"
| "writable execute_rw = True"
| "writable p = False"

definition set_perms :: "os_env \<Rightarrow> addr \<Rightarrow> u64 \<Rightarrow> memory_protection \<Rightarrow> perms \<Rightarrow> perms" where
  "set_perms OS base sz prot w = (\<lambda>pg.
     if unat base div unat (os_page_size OS) \<le> pg \<and> pg * unat (os_page_size OS) < unat base + unat sz then prot else w pg)"

definition p_protect :: "os_env \<Rightarrow> addr \<Rightarrow> u64 \<Rightarrow> memory_protection \<Rightarrow> perms \<Rightarrow> bool \<times> perms" where
  "p_protect OS a sz prot w =
     (if os_protect OS a sz prot
      then (True, set_perms OS (protect_base (os_page_size OS) a) (protect_size (os_page_size OS) a sz) prot w)
      else (False, w))"

definition p_store :: "os_env \<Rightarrow> perms \<Rightarrow> mem \<Rightarrow> addr \<Rightarrow> u8 list \<Rightarrow> mem option" where
  "p_store OS w m a bs =
     (if list_all (\<lambda>i. writable (w (unat (a + of_nat i) div unat (os_page_size OS)))) [0..<length bs]
      then store_bytes m a bs else None)"

section \<open>The patcher\<close>

definition p_ctor :: "os_env \<Rightarrow> jvm \<Rightarrow> mem \<Rightarrow> perms \<Rightarrow> addr \<Rightarrow> addr \<Rightarrow> addr \<Rightarrow> (midi2i_hook \<times> mem \<times> perms) option" where
  "p_ctor OS J m w target detour chain_resume = do {
     allocated \<leftarrow> allocate_nearby_memory (os_page_size OS) (proc_maps J) (os_allocate_rwx OS) target total_size;
     let h = \<lparr>mh_target = target, mh_allocated = allocated, mh_allocated_size = total_size,
              mh_current_chain_resume = ctor_chain_resume chain_resume, mh_error = True\<rparr>;
     if allocated = 0 then Some (h, m, w)
     else do {
       let m1 = map_pages OS allocated total_size m;
       let w = set_perms OS allocated (align_up total_size (os_page_size OS)) execute_rw w;
       original \<leftarrow> load_bytes m1 target HOOK_SIZE;
       m2 \<leftarrow> p_store OS w m1 allocated original;
       m3 \<leftarrow> p_store OS w m2 (allocated + of_nat HOOK_SIZE) (assembly allocated (effective_resume h) detour);
       let w = snd (p_protect OS allocated total_size execute_read w);
       let w = snd (p_protect OS target (of_nat JMP_SIZE) execute_rw w);
       m4 \<leftarrow> p_store OS w m3 target (jmp_bytes target allocated);
       let w = snd (p_protect OS target (of_nat JMP_SIZE) execute_read w);
       Some (h\<lparr>mh_error := False\<rparr>, m4, w) } }"

definition p_dtor :: "os_env \<Rightarrow> mem \<Rightarrow> perms \<Rightarrow> midi2i_hook \<Rightarrow> (mem \<times> perms) option" where
  "p_dtor OS m w h =
     (if mh_error h then Some (m, w)
      else do {
        b \<leftarrow> m (mh_target h);
        (m1, w) \<leftarrow> (if b = JMP_OPCODE then
               (case p_protect OS (mh_target h) (of_nat JMP_SIZE) execute_rw w of
                  (False, w) \<Rightarrow> Some (m, w)
                | (True, w) \<Rightarrow> do {
                    saved \<leftarrow> load_bytes m (mh_allocated h) JMP_SIZE;
                    m1 \<leftarrow> p_store OS w m (mh_target h) saved;
                    Some (m1, snd (p_protect OS (mh_target h) (of_nat JMP_SIZE) execute_read w)) })
             else Some (m, w));
        Some (unmap_pages OS (mh_allocated h) (mh_allocated_size h) m1, w) })"

definition p_rewrite_chain_resume :: "os_env \<Rightarrow> mem \<Rightarrow> perms \<Rightarrow> midi2i_hook \<Rightarrow> addr \<Rightarrow> (mem \<times> perms) option" where
  "p_rewrite_chain_resume OS m w h new_target =
     (case p_protect OS (mh_allocated h) (mh_allocated_size h) execute_rw w of
        (False, w) \<Rightarrow> Some (m, w)
      | (True, w) \<Rightarrow> do {
          m \<leftarrow> p_store OS w m (mh_allocated h + of_nat (HOOK_SIZE + RESUME_JMP_OFFSET + 1))
                 (le_of_word 4 (rel32 new_target (resume_next (mh_allocated h))));
          Some (m, snd (p_protect OS (mh_allocated h) (mh_allocated_size h) execute_read w)) })"

definition p_verify_and_repair :: "os_env \<Rightarrow> mem \<Rightarrow> perms \<Rightarrow> midi2i_hook \<Rightarrow> (bool \<times> midi2i_hook \<times> mem \<times> perms) option" where
  "p_verify_and_repair OS m w h =
     (if mh_error h \<or> mh_target h = 0 \<or> mh_allocated h = 0 then Some (True, h, m, w)
      else do {
        let expected = jmp_bytes (mh_target h) (mh_allocated h);
        bytes \<leftarrow> load_bytes m (mh_target h) JMP_SIZE;
        if bytes = expected then Some (True, h, m, w)
        else do {
          new_chain \<leftarrow> repair_chain m h;
          (m1, w) \<leftarrow> (if new_chain \<noteq> mh_current_chain_resume h then p_rewrite_chain_resume OS m w h new_chain
                      else Some (m, w));
          let h1 = h\<lparr>mh_current_chain_resume := new_chain\<rparr>;
          case p_protect OS (mh_target h) (of_nat JMP_SIZE) execute_rw w of
            (False, w) \<Rightarrow> Some (False, h1, m1, w)
          | (True, w) \<Rightarrow> do {
              m2 \<leftarrow> p_store OS w m1 (mh_target h) expected;
              Some (False, h1, m2, snd (p_protect OS (mh_target h) (of_nat JMP_SIZE) execute_read w)) } } })"

section \<open>The pages of a range\<close>

definition pages :: "addr \<Rightarrow> nat \<Rightarrow> nat set" where
  "pages a n = {unat a div 4096..(unat a + n - 1) div 4096}"

lemma page_in_pages: "unat a + n < 2 ^ 64 \<Longrightarrow> i < n \<Longrightarrow> unat (a + of_nat i) div 4096 \<in> pages a n"
proof -
  assume b: "unat a + n < 2 ^ 64" and i: "i < n"
  then have "unat (a + of_nat i) = unat a + i"
    by (simp add: unat_word_ariths unat_of_nat take_bit_nat_eq_self)
  with i show ?thesis by (auto simp: pages_def intro!: div_le_mono)
qed

lemma protect_pages:
  assumes "os_page_size OS = 2 ^ 12" and "0 < n" and "unat a + n + 4096 < 2 ^ 64"
  shows "set_perms OS (protect_base (2 ^ 12) a) (protect_size (2 ^ 12) a (of_nat n)) prot w
     = (\<lambda>pg. if pg \<in> pages a n then prot else w pg)"
proof -
  have n: "unat (of_nat n :: u64) = n" "(of_nat n :: u64) \<noteq> 0"
    using assms(2,3) by (auto simp: unat_of_nat take_bit_nat_eq_self simp flip: unat_eq_zero)
  define b where "b = unat (protect_base (2 ^ 12) a)"
  define z where "z = unat (protect_size (2 ^ 12) a (of_nat n))"
  have c: "b mod 4096 = 0" "z mod 4096 = 0" "b \<le> unat a" "unat a < b + 4096" "unat a + n \<le> b + z" "b + z < unat a + n + 4096"
    using protect_covers_the_range [of 12 a "of_nat n"] assms(3) n by (simp_all add: b_def z_def)
  obtain q r where q: "b = 4096 * q" "z = 4096 * r" using c(1,2) by (meson mod_0_imp_dvd dvdE)
  have "pg \<in> pages a n \<longleftrightarrow> q \<le> pg \<and> pg * 4096 < b + z" for pg
  proof -
    have "unat a div 4096 = q" using c(3,4) unfolding q by auto
    moreover have "pg \<le> (unat a + n - 1) div 4096 \<longleftrightarrow> pg * 4096 \<le> unat a + n - 1" by (simp add: less_eq_div_iff_mult_less_eq)
    moreover have "pg * 4096 \<le> unat a + n - 1 \<longleftrightarrow> pg * 4096 < b + z" 
    proof
      assume "pg * 4096 \<le> unat a + n - 1"
      with c(5) assms(2) show "pg * 4096 < b + z" by linarith
    next
      assume "pg * 4096 < b + z"
      then have "pg < q + r" by (simp add: q)
      then have "pg + 1 \<le> q + r" by simp
      then have "(pg + 1) * 4096 \<le> b + z" by (simp add: q)
      with c(6) show "pg * 4096 \<le> unat a + n - 1" by simp
    qed
    ultimately show ?thesis by (simp add: pages_def)
  qed
  moreover have "unat (os_page_size OS) = 4096" by (simp add: assms(1))
  ultimately show ?thesis unfolding set_perms_def fun_eq_iff b_def [symmetric] z_def [symmetric] by (simp add: q(1))
qed

text \<open>A store to a range whose pages are all writable.\<close>

lemma p_store_ok:
  assumes "os_page_size OS = 2 ^ 12" and "unat a + length bs < 2 ^ 64" and "\<And>pg. pg \<in> pages a (length bs) \<Longrightarrow> writable (w pg)"
  shows "p_store OS w m a bs = store_bytes m a bs"
proof -
  have "unat (os_page_size OS) = 4096" by (simp add: assms(1))
  then show ?thesis using assms(3) page_in_pages [OF assms(2)] by (auto simp: p_store_def list_all_iff)
qed

lemma pages_mono: "unat a \<le> unat b \<Longrightarrow> unat b + k \<le> unat a + n \<Longrightarrow> pages b k \<subseteq> pages a n"
  by (auto simp: pages_def intro: order_trans [OF div_le_mono] order_trans [OF _ div_le_mono])

text \<open>After a granted change of permissions to \<open>execute_rw\<close>, the range can be written.\<close>

lemma p_store_protected:
  assumes "os_page_size OS = 2 ^ 12" and "p_protect OS a (of_nat n) execute_rw w = (True, w')"
    and "0 < n" and "unat a + n + 4096 < 2 ^ 64" and "unat a \<le> unat b" and "unat b + length bs \<le> unat a + n"
  shows "p_store OS w' m b bs = store_bytes m b bs"
proof (rule p_store_ok [OF assms(1)])
  show "unat b + length bs < 2 ^ 64" using assms(4,6) by linarith
  fix pg assume "pg \<in> pages b (length bs)"
  then have "pg \<in> pages a n" using pages_mono [OF assms(5,6)] by blast
  moreover have "w' = (\<lambda>pg. if pg \<in> pages a n then execute_rw else w pg)"
    using assms(2) protect_pages [OF assms(1,3,4)] assms(1) by (auto simp: p_protect_def split: if_splits)
  ultimately show "writable (w' pg)" by simp
qed

section \<open>Repair\<close>

text \<open>The two stores of the repair, behind the calls that make their pages writable.\<close>

lemma p_store_target:
  assumes "os_page_size OS = 2 ^ 12" and "unat (mh_target h) + 8192 < 2 ^ 64"
    and "p_protect OS (mh_target h) (of_nat JMP_SIZE) execute_rw w = (True, w')" and "length bs = 5"
  shows "p_store OS w' n (mh_target h) bs = store_bytes n (mh_target h) bs"
  by (rule p_store_protected [OF assms(1,3)]) (use assms(2,4) in \<open>simp_all add: JMP_SIZE_def\<close>)

lemma p_store_resume:
  assumes "os_page_size OS = 2 ^ 12" and "unat (mh_allocated h) + 8192 < 2 ^ 64" and "mh_allocated_size h = total_size"
    and "p_protect OS (mh_allocated h) (mh_allocated_size h) execute_rw w = (True, w')" and "length bs = 4"
  shows "p_store OS w' n (mh_allocated h + of_nat (HOOK_SIZE + RESUME_JMP_OFFSET + 1)) bs
      = store_bytes n (mh_allocated h + of_nat (HOOK_SIZE + RESUME_JMP_OFFSET + 1)) bs"
proof (rule p_store_protected [OF assms(1)])
  have "total_size = of_nat 137" by (simp add: total_size_def layout_consts)
  then show "p_protect OS (mh_allocated h) (of_nat 137) execute_rw w = (True, w')" using assms(3,4) by simp
  have "unat (mh_allocated h + of_nat (HOOK_SIZE + RESUME_JMP_OFFSET + 1)) = unat (mh_allocated h) + (HOOK_SIZE + RESUME_JMP_OFFSET + 1)"
    using assms(2) by (simp add: unat_word_ariths layout_consts)
  then show "unat (mh_allocated h) \<le> unat (mh_allocated h + of_nat (HOOK_SIZE + RESUME_JMP_OFFSET + 1))"
    "unat (mh_allocated h + of_nat (HOOK_SIZE + RESUME_JMP_OFFSET + 1)) + length bs \<le> unat (mh_allocated h) + 137"
    using assms(5) by (simp_all add: layout_consts)
qed (use assms(2) in simp_all)

lemma p_rewrite_if:
  assumes "os_page_size OS = 2 ^ 12" and "unat (mh_allocated h) + 8192 < 2 ^ 64" and "mh_allocated_size h = total_size"
    and "(if changed then rewrite_chain_resume OS m h t else Some m) = Some m1"
  shows "\<exists>w1. (if changed then p_rewrite_chain_resume OS m w h t else Some (m, w)) = Some (m1, w1)"
  using assms(4) p_store_resume [OF assms(1-3)]
  by (auto simp: rewrite_chain_resume_def p_rewrite_chain_resume_def p_protect_def split: if_splits)

text \<open>C9. A repair writes only where it may: whatever the kernel grants or refuses, \<open>verify_and_repair\<close>
  with page permissions does what it does without them, because each of its stores comes after a
  granted change of the range to writable.\<close>

theorem repair_respects_permissions:
  assumes "verify_and_repair OS m h = Some (intact, h', m')" and "os_page_size OS = 2 ^ 12"
    and "unat (mh_target h) + 8192 < 2 ^ 64" and "unat (mh_allocated h) + 8192 < 2 ^ 64" and "mh_allocated_size h = total_size"
  shows "\<exists>w'. p_verify_and_repair OS m w h = Some (intact, h', m', w')"
proof (cases "(mh_error h \<or> mh_target h = 0 \<or> mh_allocated h = 0)
    \<or> load_bytes m (mh_target h) JMP_SIZE = Some (jmp_bytes (mh_target h) (mh_allocated h))")
  case True
  with assms(1) show ?thesis by (auto simp: verify_and_repair_def p_verify_and_repair_def Let_def)
next
  case False
  with assms(1) obtain bytes nc m1 where l: "load_bytes m (mh_target h) JMP_SIZE = Some bytes"
      "bytes \<noteq> jmp_bytes (mh_target h) (mh_allocated h)"
    and nc: "repair_chain m h = Some nc"
    and m1: "(if nc \<noteq> mh_current_chain_resume h then rewrite_chain_resume OS m h nc else Some m) = Some m1"
    and fin: "(if \<not> os_protect OS (mh_target h) (of_nat JMP_SIZE) execute_rw then Some (False, h\<lparr>mh_current_chain_resume := nc\<rparr>, m1)
       else do { m2 \<leftarrow> store_bytes m1 (mh_target h) (jmp_bytes (mh_target h) (mh_allocated h)); Some (False, h\<lparr>mh_current_chain_resume := nc\<rparr>, m2) })
       = Some (intact, h', m')"
    by (auto simp: verify_and_repair_def Let_def split: bind_splits)
  obtain w1 where w1: "(if nc \<noteq> mh_current_chain_resume h then p_rewrite_chain_resume OS m w h nc else Some (m, w)) = Some (m1, w1)"
    using p_rewrite_if [OF assms(2,4,5) m1] by blast
  obtain ok w2 where w2: "p_protect OS (mh_target h) (of_nat JMP_SIZE) execute_rw w1 = (ok, w2)" by fastforce
  have "p_verify_and_repair OS m w h = (case (ok, w2) of
          (False, w) \<Rightarrow> Some (False, h\<lparr>mh_current_chain_resume := nc\<rparr>, m1, w)
        | (True, w) \<Rightarrow> do {
            m2 \<leftarrow> p_store OS w m1 (mh_target h) (jmp_bytes (mh_target h) (mh_allocated h));
            Some (False, h\<lparr>mh_current_chain_resume := nc\<rparr>, m2, snd (p_protect OS (mh_target h) (of_nat JMP_SIZE) execute_read w)) })"
    using False l nc w1 w2 by (simp add: p_verify_and_repair_def Let_def)
  moreover have "ok = os_protect OS (mh_target h) (of_nat JMP_SIZE) execute_rw" using w2 by (auto simp: p_protect_def split: if_splits)
  ultimately show ?thesis using fin w2 p_store_target [OF assms(2,3)]
    by (cases ok) (auto split: bind_splits)
qed

section \<open>Installation\<close>

text \<open>A fresh trampoline lies on one page.\<close>

definition own_page :: "os_env \<Rightarrow> addr \<Rightarrow> bool" where
  "own_page OS p \<longleftrightarrow> os_page_size OS = 2 ^ 12 \<and> p \<noteq> 0 \<and> unat p mod 4096 = 0 \<and> unat p + 8192 < 2 ^ 64"

lemma own_page_pages:
  assumes "own_page OS p"
  shows "pages p 137 = {unat p div 4096}"
    and "set_perms OS p (align_up total_size (os_page_size OS)) prot w = w(unat p div 4096 := prot)"
proof -
  obtain k where k: "unat p = 4096 * k" using assms by (auto simp: own_page_def)
  show "pages p 137 = {unat p div 4096}" by (simp add: pages_def k)
  have "unat (align_up total_size (os_page_size OS)) = 4096" "unat (os_page_size OS) = 4096"
    using assms by (simp_all add: own_page_def total_size_def layout_consts align_up_def)
  then show "set_perms OS p (align_up total_size (os_page_size OS)) prot w = w(unat p div 4096 := prot)"
    by (auto simp: set_perms_def k fun_eq_iff)
qed

lemma granted_pages:
  assumes "\<And>a n q. os_mprotect OS a n q" and "os_page_size OS = 2 ^ 12" and "a \<noteq> 0" and "0 < n" and "unat a + n + 4096 < 2 ^ 64"
  shows "p_protect OS a (of_nat n) prot w = (True, \<lambda>pg. if pg \<in> pages a n then prot else w pg)"
proof -
  have "(of_nat n :: u64) \<noteq> 0" using assms(4,5) by (auto simp: unat_of_nat take_bit_nat_eq_self simp flip: unat_eq_zero)
  with assms(1,3) have "os_protect OS a (of_nat n) prot" by (simp add: os_protect_def protect_def)
  with protect_pages [OF assms(2,4,5)] show ?thesis unfolding p_protect_def by (simp add: assms(2))
qed

lemma total_137: "total_size = of_nat 137"
  by (simp add: total_size_def layout_consts)

text \<open>The stores into the trampoline go to its own page while it is writable.\<close>

lemma trampoline_stores:
  assumes "own_page OS p" and "length saved = 8" and "w (unat p div 4096) = execute_rw"
  shows "p_store OS w m p saved = store_bytes m p saved"
    and "p_store OS w n (p + of_nat HOOK_SIZE) (assembly a r d) = store_bytes n (p + of_nat HOOK_SIZE) (assembly a r d)"
proof -
  have ps: "os_page_size OS = 2 ^ 12" and b: "unat p + 8192 < 2 ^ 64" using assms(1) by (auto simp: own_page_def)
  have wr: "writable (w pg)" if "pg \<in> pages p 137" for pg using that own_page_pages(1) [OF assms(1)] assms(3) by simp
  have "pages p 8 \<subseteq> pages p 137" by (rule pages_mono) simp_all
  then show "p_store OS w m p saved = store_bytes m p saved"
    by (intro p_store_ok [OF ps]) (use b assms(2) wr in auto)
  have u: "unat (p + of_nat HOOK_SIZE) = unat p + 8" using b by (simp add: unat_word_ariths layout_consts)
  have "pages (p + of_nat HOOK_SIZE) 129 \<subseteq> pages p 137" by (rule pages_mono) (simp_all add: u)
  then show "p_store OS w n (p + of_nat HOOK_SIZE) (assembly a r d) = store_bytes n (p + of_nat HOOK_SIZE) (assembly a r d)"
    by (intro p_store_ok [OF ps]) (use b u wr in auto)
qed

lemma ctor_steps:
  assumes "allocate_nearby_memory (os_page_size OS) (proc_maps J) (os_allocate_rwx OS) target total_size = Some p" and "p \<noteq> 0"
    and "room_for OS m target p" and "load_bytes m target HOOK_SIZE = Some saved"
  obtains h m2 m3 m4 where "h = \<lparr>mh_target = target, mh_allocated = p, mh_allocated_size = total_size, mh_current_chain_resume = ctor_chain_resume chain, mh_error = True\<rparr>"
    and "load_bytes (map_pages OS p total_size m) target HOOK_SIZE = Some saved" and "length saved = 8"
    and "store_bytes (map_pages OS p total_size m) p saved = Some m2"
    and "store_bytes m2 (p + of_nat HOOK_SIZE) (assembly p (effective_resume h) detour) = Some m3"
    and "store_bytes m3 target (jmp_bytes target p) = Some m4"
    and "midi2i_hook_ctor OS J m target detour chain = Some (h\<lparr>mh_error := False\<rparr>, m4)"
proof -
  let ?h = "\<lparr>mh_target = target, mh_allocated = p, mh_allocated_size = total_size, mh_current_chain_resume = ctor_chain_resume chain, mh_error = True\<rparr>"
  have len: "length saved = 8" using assms(4) by (auto dest: load_bytes_length simp: layout_consts)
  have same: "load_bytes (map_pages OS p total_size m) target HOOK_SIZE = Some saved"
    using assms(3,4) by (simp add: map_pages_def load_bytes_put_apart room_for_def layout_consts)
  obtain r where c: "midi2i_hook_ctor OS J m target detour chain = Some r" using midi2i_hook_ctor_ok [OF assms refl] by blast
  then obtain m2 m3 m4 where s: "store_bytes (map_pages OS p total_size m) p saved = Some m2"
    "store_bytes m2 (p + of_nat HOOK_SIZE) (assembly p (effective_resume ?h) detour) = Some m3"
    "store_bytes m3 target (jmp_bytes target p) = Some m4" "r = (?h\<lparr>mh_error := False\<rparr>, m4)"
    by (auto simp: midi2i_hook_ctor_def assms(1,2) same Let_def split: bind_splits)
  from that [OF refl same len s(1-3)] c s(4) show ?thesis by simp
qed

text \<open>C8. Patching writes only where it may: when the kernel grants every change, the constructor with
  page permissions does what it does without them, because each store goes to a page that is writable at
  that moment. Afterwards the pages of the target window and the page of the trampoline can be
  executed and not written, and no other page has changed.\<close>

theorem patching_respects_permissions:
  assumes "allocate_nearby_memory (os_page_size OS) (proc_maps J) (os_allocate_rwx OS) target total_size = Some p" and "own_page OS p"
    and "room_for OS m target p" and "load_bytes m target HOOK_SIZE = Some saved" and "\<And>a n q. os_mprotect OS a n q"
    and "target \<noteq> 0" and "unat target + 8192 < 2 ^ 64"
  shows "\<exists>h m'. midi2i_hook_ctor OS J m target detour chain = Some (h, m')
     \<and> p_ctor OS J m w target detour chain
       = Some (h, m', \<lambda>pg. if pg \<in> pages target JMP_SIZE \<or> pg = unat p div 4096 then execute_read else w pg)"
proof -
  have p: "p \<noteq> 0" "os_page_size OS = 2 ^ 12" "unat p + 137 + 4096 < 2 ^ 64" using assms(2) by (auto simp: own_page_def)
  obtain h m2 m3 m4 where h: "h = \<lparr>mh_target = target, mh_allocated = p, mh_allocated_size = total_size, mh_current_chain_resume = ctor_chain_resume chain, mh_error = True\<rparr>"
    and st: "load_bytes (map_pages OS p total_size m) target HOOK_SIZE = Some saved" "length saved = 8"
      "store_bytes (map_pages OS p total_size m) p saved = Some m2"
      "store_bytes m2 (p + of_nat HOOK_SIZE) (assembly p (effective_resume h) detour) = Some m3"
      "store_bytes m3 target (jmp_bytes target p) = Some m4"
      "midi2i_hook_ctor OS J m target detour chain = Some (h\<lparr>mh_error := False\<rparr>, m4)"
    by (rule ctor_steps [OF assms(1) p(1) assms(3,4)])
  obtain w1 where w1: "set_perms OS p (align_up total_size (os_page_size OS)) execute_rw w = w1" and e1: "w1 = w(unat p div 4096 := execute_rw)"
    using own_page_pages(2) [OF assms(2)] by blast
  obtain w2 where w2: "p_protect OS p total_size execute_read w1 = (True, w2)" and e2: "w2 = (\<lambda>pg. if pg \<in> pages p 137 then execute_read else w1 pg)"
    using granted_pages [OF assms(5) p(2,1), of 137] p(3) by (simp add: total_137)
  have g: "p_protect OS target (of_nat JMP_SIZE) prot v = (True, \<lambda>pg. if pg \<in> pages target JMP_SIZE then prot else v pg)" for prot v
    by (rule granted_pages [OF assms(5) p(2) assms(6)]) (use assms(7) in \<open>simp_all add: JMP_SIZE_def\<close>)
  obtain w3 where w3: "p_protect OS target (of_nat JMP_SIZE) execute_rw w2 = (True, w3)" and e3: "w3 = (\<lambda>pg. if pg \<in> pages target JMP_SIZE then execute_rw else w2 pg)"
    using g by blast
  obtain w4 where w4: "p_protect OS target (of_nat JMP_SIZE) execute_read w3 = (True, w4)" and e4: "w4 = (\<lambda>pg. if pg \<in> pages target JMP_SIZE then execute_read else w3 pg)"
    using g by blast
  have s12: "p_store OS w1 (map_pages OS p total_size m) p saved = Some m2"
    "p_store OS w1 m2 (p + of_nat HOOK_SIZE) (assembly p (effective_resume h) detour) = Some m3"
    using trampoline_stores [OF assms(2) st(2)] st(3,4) e1 by simp_all
  have s4: "p_store OS w3 m3 target (jmp_bytes target p) = Some m4"
    using p_store_protected [OF p(2) w3 _ _ order_refl, of "jmp_bytes target p" m3] assms(7) st(5) by (simp add: JMP_SIZE_def)
  have "p_ctor OS J m w target detour chain = Some (h\<lparr>mh_error := False\<rparr>, m4, w4)"
    using st(1) s12 s4 w1 w2 w3 w4 p(1) by (simp add: p_ctor_def assms(1) Let_def flip: h)
  moreover have "w4 = (\<lambda>pg. if pg \<in> pages target JMP_SIZE \<or> pg = unat p div 4096 then execute_read else w pg)"
    using own_page_pages(1) [OF assms(2)] by (auto simp: fun_eq_iff e1 e2 e3 e4)
  ultimately show ?thesis using st(6) by simp
qed

section \<open>What is not restored and not checked\<close>

text \<open>The previous permissions are never read: a page of the target window that could be written before the
  installation cannot be written after the hook was removed.\<close>

theorem removed_hook_leaves_pages_read_only:
  assumes "p_dtor OS m w h = Some (m', w')" and "\<And>a n q. os_mprotect OS a n q" and "os_page_size OS = 2 ^ 12"
    and "mh_target h \<noteq> 0" and "unat (mh_target h) + 8192 < 2 ^ 64" and "pg \<in> pages (mh_target h) JMP_SIZE" and "w pg = execute_read"
  shows "w' pg = execute_read"
proof -
  have g: "p_protect OS (mh_target h) (of_nat JMP_SIZE) prot v = (True, \<lambda>pg. if pg \<in> pages (mh_target h) JMP_SIZE then prot else v pg)" for prot v
    by (rule granted_pages [OF assms(2,3,4)]) (use assms(5) in \<open>simp_all add: JMP_SIZE_def\<close>)
  show ?thesis
    using assms(1,6,7) by (auto simp: p_dtor_def g split: if_splits bind_splits)
qed

text \<open>The constructor does not look at the results of \<open>os::protect\<close>. When the kernel refuses to make the
  target writable, as a hardened one does, its store faults; the repair and the destructor check.\<close>

theorem refused_protection_faults:
  assumes "allocate_nearby_memory (os_page_size OS) (proc_maps J) (os_allocate_rwx OS) target total_size = Some p" and "own_page OS p"
    and "room_for OS m target p" and "load_bytes m target HOOK_SIZE = Some saved"
    and "\<And>a n. \<not> os_mprotect OS a n (to_native_protect execute_rw)" and "unat target div 4096 \<noteq> unat p div 4096" and "\<not> writable (w (unat target div 4096))"
  shows "p_ctor OS J m w target detour chain = None \<and> midi2i_hook_ctor OS J m target detour chain \<noteq> None"
proof -
  have p: "p \<noteq> 0" "os_page_size OS = 2 ^ 12" using assms(2) by (auto simp: own_page_def)
  obtain h m2 m3 m4 where h: "h = \<lparr>mh_target = target, mh_allocated = p, mh_allocated_size = total_size, mh_current_chain_resume = ctor_chain_resume chain, mh_error = True\<rparr>"
    and st: "load_bytes (map_pages OS p total_size m) target HOOK_SIZE = Some saved" "length saved = 8"
      "midi2i_hook_ctor OS J m target detour chain = Some (h\<lparr>mh_error := False\<rparr>, m4)"
    by (rule ctor_steps [OF assms(1) p(1) assms(3,4)])
  obtain w1 where w1: "set_perms OS p (align_up total_size (os_page_size OS)) execute_rw w = w1" and e1: "w1 = w(unat p div 4096 := execute_rw)"
    using own_page_pages(2) [OF assms(2)] by blast
  obtain ok w2 where w2: "p_protect OS p total_size execute_read w1 = (ok, w2)" by fastforce
  have r: "\<not> writable (w2 (unat target div 4096))"
    using w2 assms(6,7) by (auto simp: p_protect_def set_perms_def e1 split: if_splits)
  have w3: "p_protect OS target (of_nat JMP_SIZE) execute_rw w2 = (False, w2)"
    using assms(5) by (simp add: p_protect_def os_protect_def protect_def)
  have "\<exists>i \<in> set [0..<length (jmp_bytes target p)]. \<not> writable (w2 (unat (target + of_nat i) div unat (os_page_size OS)))"
    by (rule bexI [of _ 0]) (use r p(2) in simp_all)
  then have "p_store OS w2 n target (jmp_bytes target p) = None" for n
    by (auto simp: p_store_def list_all_iff)
  then have "p_ctor OS J m w target detour chain = None"
    using st(1) w1 w2 w3 p(1) by (simp add: p_ctor_def assms(1) Let_def split: bind_splits)
  with st(3) show ?thesis by simp
qed

section \<open>A process with one page of code\<close>

lemma demo_own: "own_page (demo_os 0x401000) 0x401000"
  by (simp add: own_page_def demo_os_def)

lemma demo_granted: "os_mprotect (demo_os page) a n q"
  by (simp add: demo_os_def)

lemma demo_pages: "pages 0x400100 JMP_SIZE = {0x400}"
  by (simp add: pages_def JMP_SIZE_def)

lemma patching_respects_permissions_witness:
  "\<exists>h m'. p_ctor (demo_os 0x401000) (demo_jvm demo_maps) ram (\<lambda>_. execute_rw) 0x400100 0x500000 0
     = Some (h, m', \<lambda>pg. if pg \<in> pages 0x400100 JMP_SIZE \<or> pg = unat (0x401000 :: addr) div 4096 then execute_read else execute_rw)"
proof -
  have room: "room_for (demo_os 0x401000) ram 0x400100 0x401000" by (rule demo_room [OF refl refl]) simp_all
  have l: "load_bytes ram 0x400100 HOOK_SIZE = Some (replicate 8 0)" by (simp add: load_bytes_ram HOOK_SIZE_def)
  show ?thesis
    using patching_respects_permissions [OF demo_alloc demo_own room l demo_granted, where detour = "0x500000" and chain = 0 and w = "\<lambda>_. execute_rw"]
    by auto
qed

lemma refused_protection_faults_witness:
  "p_ctor ((demo_os 0x401000)\<lparr>os_mprotect := \<lambda>a n q. q \<noteq> to_native_protect execute_rw\<rparr>) (demo_jvm demo_maps) ram (\<lambda>_. execute_read) 0x400100 0x500000 0 = None"
proof -
  let ?OS = "(demo_os 0x401000)\<lparr>os_mprotect := \<lambda>a n q. q \<noteq> to_native_protect execute_rw\<rparr>"
  have al: "allocate_nearby_memory (os_page_size ?OS) (proc_maps (demo_jvm demo_maps)) (os_allocate_rwx ?OS) 0x400100 total_size = Some 0x401000"
    using demo_alloc by simp
  have own: "own_page ?OS 0x401000" by (simp add: own_page_def demo_os_def)
  have room: "room_for ?OS ram 0x400100 0x401000"
    using demo_room [OF refl refl, of "0x400100" "0x401000"] by (simp add: room_for_def)
  have l: "load_bytes ram 0x400100 HOOK_SIZE = Some (replicate 8 0)" by (simp add: load_bytes_ram HOOK_SIZE_def)
  show ?thesis
    using refused_protection_faults [OF al own room l, where w = "\<lambda>_. execute_read" and detour = "0x500000" and chain = 0] by simp
qed

lemma removed_hook_leaves_pages_read_only_witness:
  "\<exists>h m m' w'. p_dtor (demo_os 0x401000) m (\<lambda>_. execute_read) h = Some (m', w') \<and> w' 0x400 = execute_read"
proof -
  have ps: "os_page_size (demo_os 0x401000) = 2 ^ 12" by (simp add: demo_os_def)
  obtain m' w' where d: "p_dtor (demo_os 0x401000) ram (\<lambda>_. execute_read) (demo_hook 0x401000 0) = Some (m', w')"
    by (simp add: p_dtor_def ram_def JMP_OPCODE_def demo_hook_def)
  have t: "mh_target (demo_hook 0x401000 0) = 0x400100" by (simp add: demo_hook_def)
  have "w' 0x400 = execute_read"
    by (rule removed_hook_leaves_pages_read_only [OF d demo_granted ps]) (simp_all add: t demo_pages)
  with d show ?thesis by blast
qed

lemma repair_respects_permissions_witness:
  "\<exists>h' m' w'. p_verify_and_repair (demo_os 0x401000) ram (\<lambda>_. execute_read) (demo_hook 0x401000 0) = Some (False, h', m', w')"
proof -
  have ps: "os_page_size (demo_os 0x401000) = 2 ^ 12" by (simp add: demo_os_def)
  let ?h = "demo_hook 0x401000 0"
  have h: "mh_target ?h = 0x400100" "mh_allocated ?h = 0x401000" "\<not> mh_error ?h" "mh_current_chain_resume ?h = 0" by (simp_all add: demo_hook_def)
  have l: "load_bytes ram 0x400100 JMP_SIZE = Some (replicate 5 0)" by (simp add: load_bytes_ram JMP_SIZE_def)
  have j: "replicate 5 0 \<noteq> jmp_bytes 0x400100 0x401000" 
  proof
    assume "replicate 5 0 = jmp_bytes 0x400100 0x401000"
    then have "hd (replicate 5 0) = hd (jmp_bytes 0x400100 0x401000)" by (rule arg_cong)
    then show False by (simp add: jmp_bytes_def JMP_OPCODE_def)
  qed
  have c: "repair_chain ram ?h = Some 0" by (simp add: repair_chain_def h ram_def JMP_OPCODE_def)
  have pr: "os_protect (demo_os 0x401000) 0x400100 (of_nat JMP_SIZE) execute_rw" by (rule demo_protect; simp add: JMP_SIZE_def)
  obtain m' where st: "store_bytes ram 0x400100 (jmp_bytes 0x400100 0x401000) = Some m'" by (simp add: store_bytes_put)
  have v: "verify_and_repair (demo_os 0x401000) ram ?h = Some (False, ?h, m')"
    using l j c pr st h by (simp add: verify_and_repair_def Let_def)
  from repair_respects_permissions [OF v ps, where w = "\<lambda>_. execute_read"] show ?thesis by (auto simp: demo_hook_def)
qed

end
