(* ===== verification/Dispatch_Races.thy ===== *)
theory Dispatch_Races
  imports Simulation VM_Prelude
begin

text \<open>
  \<open>common_detour\<close> reads the vector of hooks without the mutex (vmhook.hpp lines 5972 to 6024), while
  \<open>hook\<close> appends to it (8158), \<open>hook_handle::stop\<close> erases from it (8930) and \<open>shutdown_hooks\<close> clears it
  (8855). The state is the vector with its capacity, and where each Java thread stands in
  \<open>common_detour\<close>. A thread refers to an element of the vector by its place, or its reference was
  invalidated by the rules of \<open>std::vector\<close>: by a reallocation, by an erasure at or before the place, by
  \<open>clear\<close>. Reading through an invalidated reference, or running a detour that was destroyed, is
  undefined behaviour.

  Changes of the vector are single steps, because the mutex serialises them. \<open>Hook_Registry\<close> treats a
  dispatch as one step; here it is as fine as the code's accesses.
\<close>

section \<open>The vector and the threads\<close>

datatype place = At nat | Invalidated

text \<open>
  \<open>Looking m p n\<close>: the loop compares the element at \<open>p\<close> with the method \<open>m\<close>; \<open>n\<close> is the end that the
  loop took when it began. \<open>Running m d p\<close>: the detour \<open>d\<close> of the element at \<open>p\<close> is running.
\<close>

datatype dispatch = Entering addr | Looking addr place nat | Running addr nat place | Finished | Undefined

record race_state =
  hooks :: "(addr \<times> nat) list"
  capacity :: nat
  shutting :: bool
  dispatches :: "dispatch list"

fun look_step :: "race_state \<Rightarrow> addr \<Rightarrow> place \<Rightarrow> nat \<Rightarrow> dispatch" where
  "look_step s m Invalidated n = Undefined"
| "look_step s m (At i) n =
     (if i = n then Finished
      else if length (hooks s) \<le> i then Undefined
      else if fst (hooks s ! i) = m then Running m (snd (hooks s ! i)) (At i)
      else Looking m (At (Suc i)) n)"

text \<open>One access of a thread; a detour that ends returns into the trampoline that called it.\<close>

fun dispatch_step :: "race_state \<Rightarrow> dispatch \<Rightarrow> dispatch option" where
  "dispatch_step s (Entering m) = Some (if shutting s then Finished else Looking m (At 0) (length (hooks s)))"
| "dispatch_step s (Looking m p n) = Some (look_step s m p n)"
| "dispatch_step s (Running m d (At i)) = Some Finished"
| "dispatch_step s (Running m d Invalidated) = Some Undefined"
| "dispatch_step s Finished = None"
| "dispatch_step s Undefined = None"

fun invalidate :: "(nat \<Rightarrow> bool) \<Rightarrow> place \<Rightarrow> place" where
  "invalidate gone (At i) = (if gone i then Invalidated else At i)"
| "invalidate gone Invalidated = Invalidated"

fun touch :: "(nat \<Rightarrow> bool) \<Rightarrow> dispatch \<Rightarrow> dispatch" where
  "touch gone (Looking m p n) = Looking m (invalidate gone p) n"
| "touch gone (Running m d p) = Running m d (invalidate gone p)"
| "touch gone t = t"

section \<open>Changes of the vector\<close>

text \<open>\<open>push_back\<close> moves the elements when the vector is full; \<open>grow\<close> is the new capacity.\<close>

definition push_hook :: "addr \<Rightarrow> nat \<Rightarrow> nat \<Rightarrow> race_state \<Rightarrow> race_state" where
  "push_hook m d grow s =
     (if length (hooks s) < capacity s then s\<lparr>hooks := hooks s @ [(m, d)]\<rparr>
      else s\<lparr>hooks := hooks s @ [(m, d)], capacity := capacity s + Suc grow,
             dispatches := map (touch (\<lambda>i. True)) (dispatches s)\<rparr>)"

fun place_of :: "addr \<Rightarrow> (addr \<times> nat) list \<Rightarrow> nat option" where
  "place_of m [] = None"
| "place_of m (h # hs) = (if fst h = m then Some 0 else map_option Suc (place_of m hs))"

definition erase_hook :: "addr \<Rightarrow> race_state \<Rightarrow> race_state" where
  "erase_hook m s =
     (case place_of m (hooks s) of None \<Rightarrow> s
      | Some j \<Rightarrow> s\<lparr>hooks := take j (hooks s) @ drop (Suc j) (hooks s),
                    dispatches := map (touch (\<lambda>i. j \<le> i)) (dispatches s)\<rparr>)"

definition request_shutdown :: "race_state \<Rightarrow> race_state" where
  "request_shutdown s = s\<lparr>shutting := True\<rparr>"

text \<open>The teardown after the flag: the trampolines are released, the vector is cleared, the flag is reset.\<close>

definition clear_hooks :: "race_state \<Rightarrow> race_state" where
  "clear_hooks s = s\<lparr>hooks := [], shutting := False, dispatches := map (touch (\<lambda>i. True)) (dispatches s)\<rparr>"

datatype race_event = Call addr | Access nat | Push addr nat nat | Erase addr | Request | Clear

text \<open>\<open>hook\<close> appends only a method that has no entry.\<close>

fun race_step :: "race_state \<Rightarrow> race_event \<Rightarrow> race_state option" where
  "race_step s (Call m) = Some (s\<lparr>dispatches := dispatches s @ [Entering m]\<rparr>)"
| "race_step s (Access k) =
     (if k < length (dispatches s)
      then map_option (\<lambda>t. s\<lparr>dispatches := (dispatches s)[k := t]\<rparr>) (dispatch_step s (dispatches s ! k)) else None)"
| "race_step s (Push m d grow) = (if m \<in> fst ` set (hooks s) then None else Some (push_hook m d grow s))"
| "race_step s (Erase m) = Some (erase_hook m s)"
| "race_step s Request = Some (request_shutdown s)"
| "race_step s Clear = (if shutting s then Some (clear_hooks s) else None)"

definition race_init :: "nat \<Rightarrow> race_state" where
  "race_init reserved = \<lparr>hooks = [], capacity = reserved, shutting = False, dispatches = []\<rparr>"

section \<open>The documented contract\<close>

text \<open>
  The comment at line 5859: the vector changes only when no detour is in flight, or it grows within a
  capacity that was reserved.
\<close>

fun in_flight :: "dispatch \<Rightarrow> bool" where
  "in_flight (Looking m p n) = True"
| "in_flight (Running m d p) = True"
| "in_flight t = False"

definition quiet :: "race_state \<Rightarrow> bool" where
  "quiet s \<longleftrightarrow> list_all (\<lambda>t. \<not> in_flight t) (dispatches s)"

fun contract :: "race_state \<Rightarrow> race_event \<Rightarrow> bool" where
  "contract s (Push m d grow) = (quiet s \<or> length (hooks s) < capacity s)"
| "contract s (Erase m) = quiet s"
| "contract s Clear = quiet s"
| "contract s e = True"

definition lawful_step :: "race_state \<Rightarrow> race_event \<Rightarrow> race_state \<Rightarrow> bool" where
  "lawful_step s e s' \<longleftrightarrow> contract s e \<and> race_step s e = Some s'"

text \<open>A thread that is fine: its place is one of the vector, and the detour it runs is the one there.\<close>

fun sound :: "(addr \<times> nat) list \<Rightarrow> dispatch \<Rightarrow> bool" where
  "sound hs (Looking m (At i) n) = (i \<le> n \<and> n \<le> length hs)"
| "sound hs (Running m d (At i)) = (i < length hs \<and> hs ! i = (m, d))"
| "sound hs (Looking m Invalidated n) = False"
| "sound hs (Running m d Invalidated) = False"
| "sound hs Undefined = False"
| "sound hs t = True"

definition race_ok :: "race_state \<Rightarrow> bool" where
  "race_ok s \<longleftrightarrow> list_all (sound (hooks s)) (dispatches s)"

lemma sound_grow: "sound hs t \<Longrightarrow> sound (hs @ [h]) t"
  by (cases t; cases "case t of Looking m p n \<Rightarrow> p | Running m d p \<Rightarrow> p | _ \<Rightarrow> Invalidated") (auto simp: nth_append)

lemma sound_idle: "\<not> in_flight t \<Longrightarrow> sound hs t \<Longrightarrow> sound hs' (touch gone t) \<and> touch gone t = t"
  by (cases t) auto

lemma sound_dispatch: "sound (hooks s) t \<Longrightarrow> dispatch_step s t = Some t' \<Longrightarrow> sound (hooks s) t'"
  by (induction s t rule: dispatch_step.induct)
    (auto split: if_splits elim!: sound.elims simp: prod_eq_iff)

lemma all_idle:
  assumes "quiet s" and "race_ok s"
  shows "list_all (sound hs') (map (touch gone) (dispatches s))"
  using assms by (auto simp: quiet_def race_ok_def list_all_iff intro: sound_idle [THEN conjunct1])

lemma race_ok_step:
  assumes "race_ok s" and "lawful_step s e s'"
  shows "race_ok s'"
proof (cases e)
  case (Call m)
  with assms show ?thesis by (auto simp: lawful_step_def race_ok_def)
next
  case (Access k)
  with assms obtain t where t: "k < length (dispatches s)" "dispatch_step s (dispatches s ! k) = Some t"
    "s' = s\<lparr>dispatches := (dispatches s)[k := t]\<rparr>" by (auto simp: lawful_step_def split: if_splits)
  have "sound (hooks s) (dispatches s ! k)" using assms(1) t(1) by (simp add: race_ok_def list_all_length)
  from sound_dispatch [OF this t(2)] have "sound (hooks s) t" .
  with assms(1) t show ?thesis by (auto simp: race_ok_def list_all_length nth_list_update)
next
  case (Push m d grow)
  with assms have s': "s' = push_hook m d grow s" "quiet s \<or> length (hooks s) < capacity s"
    by (auto simp: lawful_step_def split: if_splits)
  show ?thesis
  proof (cases "length (hooks s) < capacity s")
    case True
    with assms(1) s'(1) show ?thesis by (auto simp: push_hook_def race_ok_def list_all_iff intro: sound_grow)
  next
    case False
    with s' all_idle [OF _ assms(1)] show ?thesis by (simp add: push_hook_def race_ok_def)
  qed
next
  case (Erase m)
  with assms have "s' = erase_hook m s" "quiet s" by (auto simp: lawful_step_def)
  with assms(1) all_idle [OF _ assms(1)] show ?thesis by (auto simp: erase_hook_def race_ok_def split: option.splits)
next
  case Request
  with assms show ?thesis by (auto simp: lawful_step_def race_ok_def request_shutdown_def)
next
  case Clear
  with assms have "s' = clear_hooks s" "quiet s" by (auto simp: lawful_step_def split: if_splits)
  with all_idle [OF _ assms(1)] show ?thesis by (simp add: clear_hooks_def race_ok_def)
qed

lemma race_init_ok: "race_ok (race_init reserved)"
  by (simp add: race_ok_def race_init_def)

interpretation lawful: simulation lawful_step lawful_step "\<lambda>s. s" race_ok
  by unfold_locales (auto intro: race_ok_step)

lemma running_sound: "sound hs (Running m d p) \<Longrightarrow> (m, d) \<in> set hs"
  by (cases p) (auto dest: nth_mem)

text \<open>C13. The documented contract is enough: as long as the vector changes only while no detour is in
  flight, or grows within its reserved capacity, no interleaving of calls, installations, removals and
  shutdowns makes a thread read through an invalidated reference, and every detour that runs is the one
  its method has in the vector.\<close>

theorem contract_keeps_dispatch_sound:
  assumes "run lawful_step (race_init reserved) es s" and "t \<in> set (dispatches s)"
  shows "t \<noteq> Undefined \<and> (\<forall>m d p. t = Running m d p \<longrightarrow> (m, d) \<in> set (hooks s))"
proof -
  have "race_ok s" using lawful.run_keeps [OF assms(1) race_init_ok] .
  then have "sound (hooks s) t" using assms(2) by (simp add: race_ok_def list_all_iff)
  with running_sound show ?thesis by auto
qed

section \<open>Runs outside the contract\<close>

fun race_run :: "race_event list \<Rightarrow> race_state \<Rightarrow> race_state option" where
  "race_run [] s = Some s"
| "race_run (e # es) s = race_step s e \<bind> race_run es"

text \<open>The flag does not keep a detour off the vector that shutdown clears: it is looked at on entry only, so
  a detour that is running when the flag is set is destroyed under it, and returns into a trampoline
  that is gone. The comments at 5887 to 5892 and 8773 to 8777 say otherwise.\<close>

theorem shutdown_destroys_running_detour:
  "\<exists>s. race_run [Push 0x50000 7 0, Call 0x50000, Access 0, Access 0, Request, Clear, Access 0] (race_init 0) = Some s
     \<and> dispatches s = [Undefined]"
  by (simp add: race_init_def push_hook_def request_shutdown_def clear_hooks_def)

text \<open>A reserved capacity, which the comment at 5871 offers for installing and removing while detours are
  in flight, is not enough for a removal: it invalidates every later place.\<close>

theorem removal_invalidates_within_capacity:
  "\<exists>s. race_run [Push 0x50000 7 0, Push 0x60000 8 0, Call 0x60000, Access 0, Access 0, Access 0, Erase 0x50000, Access 0] (race_init 8) = Some s
     \<and> dispatches s = [Undefined]"
  by (simp add: race_init_def push_hook_def erase_hook_def)

text \<open>A detour that installs a hook, when the vector is full, destroys itself.\<close>

theorem installing_detour_destroys_itself:
  "\<exists>s. race_run [Push 0x50000 7 0, Call 0x50000, Access 0, Access 0, Push 0x60000 8 0, Access 0] (race_init 1) = Some s
     \<and> dispatches s = [Undefined]"
  by (simp add: race_init_def push_hook_def)

fun lawful_run :: "race_event list \<Rightarrow> race_state \<Rightarrow> race_state option" where
  "lawful_run [] s = Some s"
| "lawful_run (e # es) s = (if contract s e then race_step s e \<bind> lawful_run es else None)"

lemma lawful_run_runs: "lawful_run es s = Some s' \<Longrightarrow> run lawful_step s es s'"
proof -
  have "lawful_run es s = Some s' \<Longrightarrow> run lawful_step s0 es0 s \<Longrightarrow> run lawful_step s0 (es0 @ es) s'" for s0 es0
  proof (induction es s arbitrary: es0 rule: lawful_run.induct)
    case (2 e es s)
    then obtain s1 where "contract s e" "race_step s e = Some s1" "lawful_run es s1 = Some s'" by (auto simp: bind_eq_Some_conv split: if_splits)
    moreover from this have "run lawful_step s0 (es0 @ [e]) s1"
      using run_step [of lawful_step s0 es0 s e s1] "2.prems"(2) by (simp add: lawful_step_def)
    ultimately have "run lawful_step s0 ((es0 @ [e]) @ es) s'" using "2.IH" by blast
    then show ?case by simp
  qed simp
  from this [of s "[]", OF _ run_start] show "lawful_run es s = Some s' \<Longrightarrow> run lawful_step s es s'" by simp
qed

lemma contract_keeps_dispatch_sound_witness:
  "\<exists>s. run lawful_step (race_init 8) [Push 0x50000 7 0, Call 0x50000, Access 0, Access 0] s \<and> dispatches s = [Running 0x50000 7 (At 0)]
     \<and> (0x50000, 7) \<in> set (hooks s)"
proof -
  obtain s where s: "lawful_run [Push 0x50000 7 0, Call 0x50000, Access 0, Access 0] (race_init 8) = Some s"
    "dispatches s = [Running 0x50000 7 (At 0)]"
    by (simp add: race_init_def push_hook_def quiet_def)
  note r = lawful_run_runs [OF s(1)]
  have "Running 0x50000 7 (At 0) \<in> set (dispatches s)" using s(2) by simp
  from contract_keeps_dispatch_sound [OF r this] r s(2) show ?thesis by blast
qed

end
