(* ===== verification/Machine_Code.thy ===== *)
theory Machine_Code
  imports VM_Prelude
begin

text \<open>
  The processor, as far as the machine code needs it that \<open>midi2i_hook\<close> emits and moves (vmhook.hpp
  lines 5339 to 5637): a decoder for the x86-64 encodings that occur there and the effect of each
  instruction on the general registers, the low vector registers, the zero flag, the instruction
  pointer and the memory. Encodings and effects are those of the architecture manual, restricted to
  what the emitted bytes use: \<open>decode\<close> gives \<open>None\<close> for every other byte sequence, and \<open>step\<close> gives
  \<open>None\<close> when the instruction cannot be decoded or accesses memory that is not mapped. Of the flags
  only ZF is kept, the one the code branches on.
\<close>

section \<open>State\<close>

datatype reg = RAX | RCX | RDX | RBX | RSP | RBP | RSI | RDI
  | R8 | R9 | R10 | R11 | R12 | R13 | R14 | R15

record cpu =
  regs :: "reg \<Rightarrow> u64"
  ip :: addr
  zf :: bool
  xmm :: "nat \<Rightarrow> 128 word"
  cmem :: mem

definition reg_list :: "reg list" where
  "reg_list = [RAX, RCX, RDX, RBX, RSP, RBP, RSI, RDI, R8, R9, R10, R11, R12, R13, R14, R15]"

text \<open>The register that three bits of an encoding and an extension bit of the REX prefix name.\<close>

definition gpr :: "bool \<Rightarrow> u8 \<Rightarrow> reg" where
  "gpr ext n = reg_list ! (unat (n AND 7) + (if ext then 8 else 0))"

section \<open>Instructions\<close>

text \<open>An operand is a register, a base register with a displacement, or a displacement from the next
  instruction.\<close>

datatype operand = Reg reg | Mem reg u64 | Rip_rel u64

datatype instr =
    Push reg
  | Push_imm u64
  | Pop reg
  | Mov_to operand reg
  | Mov_from reg operand
  | Lea reg operand
  | Mov_byte operand u8
  | Add_imm reg u64
  | And_imm reg u64
  | Sub_imm reg u64
  | Cmp_byte operand u8
  | Je u64
  | Jmp u64
  | Jmp_ind operand
  | Call_ind operand
  | Movq_xmm nat reg

section \<open>Decoding\<close>

text \<open>Bits W, R and B of a REX prefix; 0 stands for no prefix.\<close>

abbreviation rex_w :: "u8 \<Rightarrow> bool" where "rex_w rex \<equiv> bit rex 3"
abbreviation rex_r :: "u8 \<Rightarrow> bool" where "rex_r rex \<equiv> bit rex 2"
abbreviation rex_b :: "u8 \<Rightarrow> bool" where "rex_b rex \<equiv> bit rex 0"

definition take_rex :: "u8 list \<Rightarrow> u8 \<times> u8 list" where
  "take_rex bs = (case bs of [] \<Rightarrow> (0, []) | b # cs \<Rightarrow> if b AND 0xF0 = 0x40 then (b, cs) else (0, bs))"

text \<open>A signed displacement of one or four bytes, extended to the width of an address.\<close>

definition imm8 :: "u8 list \<Rightarrow> (u64 \<times> u8 list) option" where
  "imm8 bs = (case bs of [] \<Rightarrow> None | b # cs \<Rightarrow> Some (scast b, cs))"

definition imm32 :: "u8 list \<Rightarrow> (u64 \<times> u8 list) option" where
  "imm32 bs = (case bs of b0 # b1 # b2 # b3 # cs \<Rightarrow> Some (scast (word_of_le [b0, b1, b2, b3] :: u32), cs)
     | _ \<Rightarrow> None)"

definition displacement :: "u8 \<Rightarrow> reg \<Rightarrow> u8 list \<Rightarrow> (operand \<times> u8 list) option" where
  "displacement md base bs =
     (if md = 0 then Some (Mem base 0, bs)
      else do { (d, cs) \<leftarrow> (if md = 1 then imm8 bs else imm32 bs); Some (Mem base d, cs) })"

text \<open>The ModRM byte: the register or opcode field and the operand. Of the scaled forms only the one
  without an index on RSP occurs.\<close>

definition modrm :: "u8 \<Rightarrow> u8 list \<Rightarrow> (u8 \<times> operand \<times> u8 list) option" where
  "modrm rex bs = (case bs of [] \<Rightarrow> None | b # cs \<Rightarrow>
     (let md = drop_bit 6 b; field = drop_bit 3 b AND 7; rm = b AND 7 in
      if md = 3 then Some (field, Reg (gpr (rex_b rex) rm), cs)
      else if rm = 4 then
        (case cs of [] \<Rightarrow> None | sib # ds \<Rightarrow>
           if sib = 0x24 \<and> \<not> rex_b rex then do { (p, es) \<leftarrow> displacement md RSP ds; Some (field, p, es) }
           else None)
      else if md = 0 \<and> rm = 5 then do { (d, ds) \<leftarrow> imm32 cs; Some (field, Rip_rel d, ds) }
      else do { (p, ds) \<leftarrow> displacement md (gpr (rex_b rex) rm) cs; Some (field, p, ds) }))"

definition is_mem :: "operand \<Rightarrow> bool" where
  "is_mem p = (case p of Reg _ \<Rightarrow> False | _ \<Rightarrow> True)"

text \<open>Opcode groups: 83 (immediate arithmetic), FF (indirect control) and 80 (byte compare).\<close>

definition group_83 :: "u8 \<Rightarrow> u8 list \<Rightarrow> (instr \<times> u8 list) option" where
  "group_83 rex bs = do {
     (f, p, cs) \<leftarrow> modrm rex bs;
     (d, ds) \<leftarrow> imm8 cs;
     (case p of
        Reg r \<Rightarrow> if \<not> rex_w rex then None
                 else if f = 0 then Some (Add_imm r d, ds)
                 else if f = 4 then Some (And_imm r d, ds)
                 else if f = 5 then Some (Sub_imm r d, ds) else None
      | _ \<Rightarrow> None) }"

definition group_FF :: "u8 \<Rightarrow> u8 list \<Rightarrow> (instr \<times> u8 list) option" where
  "group_FF rex bs = do {
     (f, p, cs) \<leftarrow> modrm rex bs;
     if f = 2 then Some (Call_ind p, cs) else if f = 4 then Some (Jmp_ind p, cs) else None }"

definition byte_imm :: "u8 \<Rightarrow> u8 \<Rightarrow> (operand \<Rightarrow> u8 \<Rightarrow> instr) \<Rightarrow> u8 list \<Rightarrow> (instr \<times> u8 list) option" where
  "byte_imm rex digit mk bs = do {
     (f, p, cs) \<leftarrow> modrm rex bs;
     (case cs of [] \<Rightarrow> None | i # ds \<Rightarrow> if f = digit \<and> is_mem p then Some (mk p i, ds) else None) }"

definition wide :: "u8 \<Rightarrow> (reg \<Rightarrow> operand \<Rightarrow> instr) \<Rightarrow> u8 list \<Rightarrow> (instr \<times> u8 list) option" where
  "wide rex mk bs = do {
     (f, p, cs) \<leftarrow> modrm rex bs;
     if rex_w rex then Some (mk (gpr (rex_r rex) f) p, cs) else None }"

definition decode_opcode :: "u8 \<Rightarrow> u8 list \<Rightarrow> (instr \<times> u8 list) option" where
  "decode_opcode rex bs = (case bs of [] \<Rightarrow> None | b # cs \<Rightarrow>
     if b AND 0xF8 = 0x50 then Some (Push (gpr (rex_b rex) b), cs)
     else if b AND 0xF8 = 0x58 then Some (Pop (gpr (rex_b rex) b), cs)
     else if b = 0x6A then do { (d, ds) \<leftarrow> imm8 cs; Some (Push_imm d, ds) }
     else if b = 0x89 then wide rex (\<lambda>r p. Mov_to p r) cs
     else if b = 0x8B then wide rex Mov_from cs
     else if b = 0x8D then wide rex Lea cs
     else if b = 0xC6 then byte_imm rex 0 Mov_byte cs
     else if b = 0x80 then byte_imm rex 7 Cmp_byte cs
     else if b = 0x83 then group_83 rex cs
     else if b = 0xFF then group_FF rex cs
     else if b = 0xE9 then do { (d, ds) \<leftarrow> imm32 cs; Some (Jmp d, ds) }
     else if b = 0x0F then
       (case cs of [] \<Rightarrow> None | c # ds \<Rightarrow>
          if c = 0x84 then do { (d, es) \<leftarrow> imm32 ds; Some (Je d, es) } else None)
     else None)"

text \<open>The operand-size prefix occurs only in front of MOVQ to a vector register.\<close>

definition decode_66 :: "u8 list \<Rightarrow> (instr \<times> u8 list) option" where
  "decode_66 bs = (case take_rex bs of (rex, cs) \<Rightarrow>
     (case cs of o1 # o2 # ds \<Rightarrow>
        if o1 = 0x0F \<and> o2 = 0x6E \<and> rex_w rex \<and> \<not> rex_r rex then do {
          (f, p, es) \<leftarrow> modrm rex ds;
          (case p of Reg r \<Rightarrow> Some (Movq_xmm (unat f) r, es) | _ \<Rightarrow> None) }
        else None
      | _ \<Rightarrow> None))"

definition decode :: "u8 list \<Rightarrow> (instr \<times> u8 list) option" where
  "decode bs = (case bs of [] \<Rightarrow> None | b # cs \<Rightarrow>
     if b = 0x66 then decode_66 cs else (case take_rex bs of (rex, ds) \<Rightarrow> decode_opcode rex ds))"

section \<open>Execution\<close>

definition address :: "operand \<Rightarrow> cpu \<Rightarrow> addr option" where
  "address p s = (case p of Reg _ \<Rightarrow> None | Mem r d \<Rightarrow> Some (regs s r + d) | Rip_rel d \<Rightarrow> Some (ip s + d))"

definition read_op :: "operand \<Rightarrow> cpu \<Rightarrow> u64 option" where
  "read_op p s = (case p of Reg r \<Rightarrow> Some (regs s r) | _ \<Rightarrow> do { a \<leftarrow> address p s; load64 (cmem s) a })"

definition set_reg :: "reg \<Rightarrow> u64 \<Rightarrow> cpu \<Rightarrow> cpu" where
  "set_reg r v s = s\<lparr>regs := (regs s)(r := v)\<rparr>"

definition push :: "u64 \<Rightarrow> cpu \<Rightarrow> cpu option" where
  "push v s = do {
     m \<leftarrow> store64 (cmem s) (regs s RSP - 8) v;
     Some (set_reg RSP (regs s RSP - 8) s\<lparr>cmem := m\<rparr>) }"

definition arith :: "reg \<Rightarrow> u64 \<Rightarrow> cpu \<Rightarrow> cpu" where
  "arith r v s = (set_reg r v s)\<lparr>zf := (v = 0)\<rparr>"

text \<open>The instruction pointer is already behind the instruction.\<close>

fun exec :: "instr \<Rightarrow> cpu \<Rightarrow> cpu option" where
  "exec (Push r) s = push (regs s r) s"
| "exec (Push_imm v) s = push v s"
| "exec (Pop r) s = do {
     v \<leftarrow> load64 (cmem s) (regs s RSP);
     Some (set_reg r v (set_reg RSP (regs s RSP + 8) s)) }"
| "exec (Mov_to p r) s = (case p of
     Reg q \<Rightarrow> Some (set_reg q (regs s r) s)
   | _ \<Rightarrow> do { a \<leftarrow> address p s; m \<leftarrow> store64 (cmem s) a (regs s r); Some (s\<lparr>cmem := m\<rparr>) })"
| "exec (Mov_from r p) s = do { v \<leftarrow> read_op p s; Some (set_reg r v s) }"
| "exec (Lea r p) s = do { a \<leftarrow> address p s; Some (set_reg r a s) }"
| "exec (Mov_byte p b) s = do { a \<leftarrow> address p s; m \<leftarrow> store_bytes (cmem s) a [b]; Some (s\<lparr>cmem := m\<rparr>) }"
| "exec (Add_imm r d) s = Some (arith r (regs s r + d) s)"
| "exec (And_imm r d) s = Some (arith r (regs s r AND d) s)"
| "exec (Sub_imm r d) s = Some (arith r (regs s r - d) s)"
| "exec (Cmp_byte p b) s = do { a \<leftarrow> address p s; c \<leftarrow> cmem s a; Some (s\<lparr>zf := (c = b)\<rparr>) }"
| "exec (Je d) s = Some (if zf s then s\<lparr>ip := ip s + d\<rparr> else s)"
| "exec (Jmp d) s = Some (s\<lparr>ip := ip s + d\<rparr>)"
| "exec (Jmp_ind p) s = do { a \<leftarrow> read_op p s; Some (s\<lparr>ip := a\<rparr>) }"
| "exec (Call_ind p) s = do { a \<leftarrow> read_op p s; t \<leftarrow> push (ip s) s; Some (t\<lparr>ip := a\<rparr>) }"
| "exec (Movq_xmm n r) s = Some (s\<lparr>xmm := (xmm s)(n := ucast (regs s r))\<rparr>)"

text \<open>The processor fetches at most the fifteen bytes an instruction may have, as far as they are
  mapped.\<close>

fun fetch :: "mem \<Rightarrow> addr \<Rightarrow> nat \<Rightarrow> u8 list" where
  "fetch m a 0 = []"
| "fetch m a (Suc n) = (case m a of None \<Rightarrow> [] | Some b \<Rightarrow> b # fetch m (a + 1) n)"

definition step :: "cpu \<Rightarrow> cpu option" where
  "step s = do {
     let bs = fetch (cmem s) (ip s) 15;
     (i, rest) \<leftarrow> decode bs;
     exec i (s\<lparr>ip := ip s + of_nat (length bs - length rest)\<rparr>) }"

fun run :: "nat \<Rightarrow> cpu \<Rightarrow> cpu option" where
  "run 0 s = Some s"
| "run (Suc n) s = do { t \<leftarrow> step s; run n t }"

lemma run_add: "run (n + k) s = do { t \<leftarrow> run n s; run k t }"
  by (induction n arbitrary: s) (auto split: bind_splits)

lemma run_1: "run 1 s = step s"
  by (cases "step s") auto

section \<open>Code in memory\<close>

definition code_at :: "mem \<Rightarrow> addr \<Rightarrow> u8 list \<Rightarrow> bool" where
  "code_at m a bs \<longleftrightarrow> load_bytes m a (length bs) = Some bs"

definition encodes :: "instr \<Rightarrow> u8 list \<Rightarrow> bool" where
  "encodes i bs \<longleftrightarrow> length bs \<le> 15 \<and> (\<forall>rest. decode (bs @ rest) = Some (i, rest))"

lemma code_at_append [simp]:
  "code_at m a (xs @ ys) \<longleftrightarrow> code_at m a xs \<and> code_at m (a + of_nat (length xs)) ys"
  by (auto simp: code_at_def load_bytes_split split: bind_splits dest: load_bytes_length)

lemma fetch_code: "code_at m a bs \<Longrightarrow> length bs \<le> n \<Longrightarrow> \<exists>rest. fetch m a n = bs @ rest"
proof (induction bs arbitrary: a n)
  case (Cons b bs)
  then obtain k where n: "n = Suc k" by (cases n) auto
  from Cons.prems have "m a = Some b" "code_at m (a + 1) bs"
    by (auto simp: code_at_def split: bind_splits)
  with Cons.IH [of "a + 1" k] Cons.prems n show ?case by auto
qed simp

lemma step_code:
  assumes "encodes i bs" and "code_at (cmem s) (ip s) bs"
  shows "step s = exec i (s\<lparr>ip := ip s + of_nat (length bs)\<rparr>)"
proof -
  from assms obtain rest where "fetch (cmem s) (ip s) 15 = bs @ rest"
    using fetch_code [of "cmem s" "ip s" bs 15] by (auto simp: encodes_def)
  then show ?thesis using assms(1) by (simp add: step_def encodes_def)
qed

lemma run_code:
  assumes "encodes i bs" and "code_at (cmem s) (ip s) bs"
  shows "run (Suc n) s = do { t \<leftarrow> exec i (s\<lparr>ip := ip s + of_nat (length bs)\<rparr>); run n t }"
  using step_code [OF assms] by simp

section \<open>Straight-line code\<close>

text \<open>An instruction is \<open>quiet\<close> when it neither writes memory nor jumps; a block of such instructions
  runs as the composition of their effects.\<close>

fun quiet :: "instr \<Rightarrow> bool" where
  "quiet (Mov_to (Reg _) _) = True"
| "quiet (Pop _) = True"
| "quiet (Mov_from _ _) = True"
| "quiet (Lea _ _) = True"
| "quiet (Add_imm _ _) = True"
| "quiet (And_imm _ _) = True"
| "quiet (Sub_imm _ _) = True"
| "quiet (Cmp_byte _ _) = True"
| "quiet (Movq_xmm _ _) = True"
| "quiet _ = False"

lemma quiet_exec: "quiet i \<Longrightarrow> exec i s = Some t \<Longrightarrow> cmem t = cmem s \<and> ip t = ip s"
  by (cases i rule: quiet.cases) (auto simp: set_reg_def arith_def split: bind_splits)

fun block :: "(instr \<times> u8 list) list \<Rightarrow> cpu \<Rightarrow> cpu option" where
  "block [] s = Some s"
| "block ((i, bs) # is) s = do { t \<leftarrow> exec i (s\<lparr>ip := ip s + of_nat (length bs)\<rparr>); block is t }"

lemma run_block:
  assumes "list_all (\<lambda>(i, bs). encodes i bs \<and> quiet i) is" and "code_at (cmem s) (ip s) (concat (map snd is))"
  shows "run (length is) s = block is s"
  using assms
proof (induction "is" s rule: block.induct)
  case (2 i bs "is" s)
  then have e: "encodes i bs" "quiet i" "code_at (cmem s) (ip s) bs"
    "code_at (cmem s) (ip s + of_nat (length bs)) (concat (map snd is))" by simp_all
  show ?case
  proof (cases "exec i (s\<lparr>ip := ip s + of_nat (length bs)\<rparr>)")
    case None
    then show ?thesis using step_code [OF e(1,3)] by simp
  next
    case (Some t)
    have "cmem t = cmem s" "ip t = ip s + of_nat (length bs)"
      using quiet_exec [OF e(2) Some] by simp_all
    then show ?thesis using step_code [OF e(1,3)] 2 Some e by simp
  qed
qed simp

end
