(* ===== verification/Trampoline_Exec.thy ===== *)
theory Trampoline_Exec
  imports Trampoline Machine_Code
begin

text \<open>
  The emitted code as a program: the encodings of its instructions, runs of pushes and pops, the shape
  that both branches of the constructor share (\<open>trampoline_layout\<close>), and, in the locale
  \<open>calling_convention\<close>, its execution up to the detour, back from it, and along either of its two exits.
  \<open>assembly_layout\<close> shows that the bytes and the hand-counted offsets of the System V branch are
  this shape.
\<close>

section \<open>Encodings of the emitted instructions\<close>

definition push_code :: "reg \<Rightarrow> u8 list" where
  "push_code r = (case r of RAX \<Rightarrow> [0x50] | RCX \<Rightarrow> [0x51] | RDX \<Rightarrow> [0x52] | RBX \<Rightarrow> [0x53]
     | RSP \<Rightarrow> [0x54] | RBP \<Rightarrow> [0x55] | RSI \<Rightarrow> [0x56] | RDI \<Rightarrow> [0x57]
     | R8 \<Rightarrow> [0x41, 0x50] | R9 \<Rightarrow> [0x41, 0x51] | R10 \<Rightarrow> [0x41, 0x52] | R11 \<Rightarrow> [0x41, 0x53]
     | R12 \<Rightarrow> [0x41, 0x54] | R13 \<Rightarrow> [0x41, 0x55] | R14 \<Rightarrow> [0x41, 0x56] | R15 \<Rightarrow> [0x41, 0x57])"

definition pop_code :: "reg \<Rightarrow> u8 list" where
  "pop_code r = (case r of RAX \<Rightarrow> [0x58] | RCX \<Rightarrow> [0x59] | RDX \<Rightarrow> [0x5A] | RBX \<Rightarrow> [0x5B]
     | RSP \<Rightarrow> [0x5C] | RBP \<Rightarrow> [0x5D] | RSI \<Rightarrow> [0x5E] | RDI \<Rightarrow> [0x5F]
     | R8 \<Rightarrow> [0x41, 0x58] | R9 \<Rightarrow> [0x41, 0x59] | R10 \<Rightarrow> [0x41, 0x5A] | R11 \<Rightarrow> [0x41, 0x5B]
     | R12 \<Rightarrow> [0x41, 0x5C] | R13 \<Rightarrow> [0x41, 0x5D] | R14 \<Rightarrow> [0x41, 0x5E] | R15 \<Rightarrow> [0x41, 0x5F])"

definition pushes :: "reg list \<Rightarrow> u8 list" where
  "pushes rs = concat (map push_code rs)"

definition pops :: "reg list \<Rightarrow> u8 list" where
  "pops rs = concat (map pop_code rs)"

lemmas decode_simps = decode_def decode_66_def decode_opcode_def take_rex_def modrm_def wide_def
  byte_imm_def group_83_def group_FF_def displacement_def imm8_def imm32_def is_mem_def gpr_def reg_list_def

lemma encodes_push: "encodes (Push r) (push_code r)"
  by (cases r) (simp_all add: encodes_def push_code_def decode_simps bit_numeral_word_iff)

lemma encodes_pop: "encodes (Pop r) (pop_code r)"
  by (cases r) (simp_all add: encodes_def pop_code_def decode_simps)

named_theorems encodings

lemma encodes_fixed [encodings]:
  "encodes (Push_imm 0) [0x6A, 0x00]"
  "encodes (Mov_to (Reg RBP) RSP) [0x48, 0x89, 0xE5]"
  "encodes (And_imm RSP (- 16)) [0x48, 0x83, 0xE4, 0xF0]"
  "encodes (Mov_to (Reg RSP) RBP) [0x48, 0x89, 0xEC]"
  "encodes (Cmp_byte (Mem RSP 0) 0) [0x80, 0x3C, 0x24, 0x00]"
  "encodes (Mov_from RAX (Mem RSP 8)) [0x48, 0x8B, 0x44, 0x24, 0x08]"
  "encodes (Movq_xmm 0 RAX) [0x66, 0x48, 0x0F, 0x6E, 0xC0]"
  "encodes (Add_imm RSP 16) [0x48, 0x83, 0xC4, 0x10]"
  "encodes (Add_imm RSP 8) [0x48, 0x83, 0xC4, 0x08]"
  "encodes (Mov_from RBX (Mem RBP (- 8))) [0x48, 0x8B, 0x5D, 0xF8]"
  "encodes (Mov_to (Reg RSP) RBX) [0x48, 0x89, 0xDC]"
  "encodes (Jmp_ind (Reg RSI)) [0xFF, 0xE6]"
  by (simp_all add: encodes_def decode_simps)

lemma encodes_args [encodings]:
  "encodes (Mov_to (Reg RDI) RBP) [0x48, 0x89, 0xEF]"
  "encodes (Mov_to (Reg RSI) R15) [0x4C, 0x89, 0xFE]"
  "encodes (Mov_to (Reg RDX) RSP) [0x48, 0x89, 0xE2]"
  "encodes (Mov_to (Reg RCX) RBP) [0x48, 0x89, 0xE9]"
  "encodes (Mov_to (Reg RDX) R15) [0x4C, 0x89, 0xFA]"
  "encodes (Lea R8 (Mem RSP 0)) [0x4C, 0x8D, 0x04, 0x24]"
  "encodes (Sub_imm RSP 0x20) [0x48, 0x83, 0xEC, 0x20]"
  by (simp_all add: encodes_def decode_simps)

lemma le32: "le_of_word 4 (w :: u32) = [ucast w, ucast (drop_bit 8 w), ucast (drop_bit 16 w), ucast (drop_bit 24 w)]"
  by (simp add: numeral_eq_Suc drop_bit_drop_bit)

lemma word_of_le32: "word_of_le [ucast w, ucast (drop_bit 8 w), ucast (drop_bit 16 w), ucast (drop_bit 24 w)] = (w :: u32)"
  using word_of_le_of_word [of 4 w] by (simp add: le32)

lemma encodes_relative:
  "encodes (Jmp (scast (w :: u32))) (0xE9 # le_of_word 4 w)"
  "encodes (Je (scast w)) (0x0F # 0x84 # le_of_word 4 w)"
  "encodes (Call_ind (Rip_rel (scast w))) (0xFF # 0x15 # le_of_word 4 w)"
  using word_of_le32 [of w] by (simp_all add: le32 encodes_def decode_simps del: word_of_le.simps)

section \<open>Runs of pushes and pops\<close>

fun push_all :: "u64 list \<Rightarrow> addr \<Rightarrow> mem \<Rightarrow> mem" where
  "push_all [] sp m = m"
| "push_all (v # vs) sp m = push_all vs (sp - 8) (put (sp - 8) (le_of_word 8 v) m)"

text \<open>\<open>clear_below sp n a k\<close>: the \<open>n\<close> bytes below \<open>sp\<close> and the \<open>k\<close> bytes at \<open>a\<close> do not overlap.\<close>

definition clear_below :: "addr \<Rightarrow> nat \<Rightarrow> addr \<Rightarrow> nat \<Rightarrow> bool" where
  "clear_below sp n a k \<longleftrightarrow> apart (sp - of_nat n) n a k"

lemma below_add: "k \<le> n \<Longrightarrow> (sp :: addr) - of_nat n + of_nat (n - k) = sp - of_nat k"
  by (simp add: of_nat_diff)

lemma under_part:
  assumes "clear_below sp n a k" and "i + n' \<le> n" and "j + k' \<le> k" and "0 < n'" and "0 < k'"
  shows "apart (sp - of_nat (i + n')) n' (a + of_nat j) k'"
proof -
  have "apart (sp - of_nat n + of_nat (n - (i + n'))) n' a k"
    by (rule apart_sub [OF assms(1) [unfolded clear_below_def]]) (use assms in simp_all)
  then have "apart (sp - of_nat (i + n')) n' a k" by (simp only: below_add [OF assms(2)])
  then show ?thesis by (rule apart_sub_right) (use assms in simp_all)
qed

lemma code_at_put:
  "code_at m a bs \<Longrightarrow> bs = [] \<or> apart b (length cs) a (length bs) \<Longrightarrow> code_at (put b cs m) a bs"
  by (auto simp: code_at_def load_bytes_put_apart)

lemma mapped_below: "mapped m (sp - of_nat n) n \<Longrightarrow> i + k \<le> n \<Longrightarrow> mapped m (sp - of_nat (i + k)) k"
  using mapped_add [of m "sp - of_nat n" n "n - (i + k)" k] by (simp only: below_add)

lemma push_eq:
  "mapped (cmem s) (regs s RSP - 8) 8 \<Longrightarrow>
     push v s = Some (s\<lparr>regs := (regs s)(RSP := regs s RSP - 8), cmem := put (regs s RSP - 8) (le_of_word 8 v) (cmem s)\<rparr>)"
  by (simp add: push_def set_reg_def store_le_put)

lemma run_pushes:
  assumes "code_at (cmem s) (ip s) (pushes rs)" and "RSP \<notin> set rs"
    and "mapped (cmem s) (regs s RSP - of_nat (8 * length rs)) (8 * length rs)"
    and "clear_below (regs s RSP) (8 * length rs) (ip s) (length (pushes rs))"
  shows "run (length rs) s = Some (s\<lparr>ip := ip s + of_nat (length (pushes rs)),
    regs := (regs s)(RSP := regs s RSP - of_nat (8 * length rs)),
    cmem := push_all (map (regs s) rs) (regs s RSP) (cmem s)\<rparr>)"
  using assms
proof (induction rs arbitrary: s)
  case Nil
  then show ?case by (simp add: pushes_def)
next
  case (Cons r rs)
  let ?sp = "regs s RSP" and ?n = "length (push_code r)"
  let ?t = "s\<lparr>ip := ip s + of_nat ?n, regs := (regs s)(RSP := ?sp - 8), cmem := put (?sp - 8) (le_of_word 8 (regs s r)) (cmem s)\<rparr>"
  have n0: "0 < ?n" by (cases r) (simp_all add: push_code_def)
  have code: "code_at (cmem s) (ip s) (push_code r)" "code_at (cmem s) (ip s + of_nat ?n) (pushes rs)"
    using Cons.prems(1) by (simp_all add: pushes_def)
  have len: "length (pushes (r # rs)) = ?n + length (pushes rs)" by (simp add: pushes_def)
  have m8: "mapped (cmem s) (?sp - 8) 8" using mapped_below [OF Cons.prems(3), of 0 8] by simp
  have r: "r \<noteq> RSP" "RSP \<notin> set rs" using Cons.prems(2) by auto
  have s1: "step s = Some ?t"
    using m8 by (simp add: step_code [OF encodes_push code(1)] push_eq)
  have "pushes rs = [] \<or> apart (?sp - 8) 8 (ip s + of_nat ?n) (length (pushes rs))"
    using under_part [OF Cons.prems(4), of 0 8 ?n "length (pushes rs)"] len by auto
  then have code': "code_at (cmem ?t) (ip ?t) (pushes rs)"
    using code(2) by (simp add: code_at_put)
  have map': "mapped (cmem ?t) (regs ?t RSP - of_nat (8 * length rs)) (8 * length rs)"
    using mapped_below [OF Cons.prems(3), of 8 "8 * length rs"] by (simp add: algebra_simps)
  have un: "clear_below (regs ?t RSP) (8 * length rs) (ip ?t) (length (pushes rs))"
  proof (cases "rs = []")
    case False
    then have "0 < length (pushes rs)" by (cases rs; cases "hd rs") (simp_all add: pushes_def push_code_def)
    then show ?thesis
      using under_part [OF Cons.prems(4), of 8 "8 * length rs" ?n "length (pushes rs)"] len False
      by (simp add: clear_below_def algebra_simps)
  qed (simp add: clear_below_def apart_def pushes_def)
  have "map (regs ?t) rs = map (regs s) rs" using r by auto
  with s1 Cons.IH [OF code' r(2) map' un] r len show ?case
    by (simp add: algebra_simps fun_upd_upd fun_upd_same del: fun_upd_apply)
qed

text \<open>The values pushed, from the first one at the highest address.\<close>

lemma load_push_all_above:
  assumes "8 * length vs < 2 ^ 32" and "apart (sp - of_nat (8 * length vs)) (8 * length vs) b k" and "0 < k"
  shows "load_bytes (push_all vs sp m) b k = load_bytes m b k"
  using assms
proof (induction vs arbitrary: sp m)
  case (Cons v vs)
  have u: "clear_below sp (8 * length (v # vs)) b k" using Cons.prems by (simp add: clear_below_def)
  have a: "apart (sp - 8) 8 b k" using under_part [OF u, of 0 8 0 k] Cons.prems(3) by simp
  show ?case
  proof (cases "vs = []")
    case True
    with a show ?thesis by (simp add: load_bytes_put_apart)
  next
    case False
    have "apart (sp - 8 - of_nat (8 * length vs)) (8 * length vs) b k"
      using under_part [OF u, of 8 "8 * length vs" 0 k] Cons.prems(3) False by (simp add: algebra_simps)
    with Cons.IH [of "sp - 8" "put (sp - 8) (le_of_word 8 v) m"] Cons.prems a show ?thesis
      by (simp add: load_bytes_put_apart)
  qed
qed simp

lemma load_push_all:
  assumes "8 * length vs < 2 ^ 32" and "i < length vs"
  shows "load64 (push_all vs sp m) (sp - of_nat (8 * Suc i)) = Some (vs ! i)"
  using assms
proof (induction vs arbitrary: sp m i)
  case (Cons v vs)
  show ?case
  proof (cases i)
    case 0
    have "unat (of_nat (8 * length vs) :: addr) = 8 * length vs"
      using Cons.prems by (simp add: unat_of_nat take_bit_nat_eq_self del: of_nat_mult)
    moreover have "unat (- of_nat (8 * length vs) :: addr) \<ge> 8 \<or> vs = []"
      using unat_plus_if' [of "- of_nat (8 * length vs) :: addr" "of_nat (8 * length vs)"] calculation Cons.prems
      by (auto split: if_splits)
    ultimately have "vs = [] \<or> apart (sp - 8 - of_nat (8 * length vs)) (8 * length vs) (sp - 8) 8"
      by (auto simp: apart_def simp del: of_nat_mult)
    then have "load64 (push_all vs (sp - 8) (put (sp - 8) (le_of_word 8 v) m)) (sp - 8)
        = load64 (put (sp - 8) (le_of_word 8 v) m) (sp - 8)"
      using load_push_all_above [of vs "sp - 8" "sp - 8" 8 "put (sp - 8) (le_of_word 8 v) m"] Cons.prems
      by (auto simp: load_le_def)
    then show ?thesis using 0 by (simp add: load_put_cell take_bit_word_eq_self)
  next
    case (Suc j)
    with Cons.IH [of j "sp - 8"] Cons.prems show ?thesis by (simp add: algebra_simps)
  qed
qed simp

lemma mapped_push_all: "mapped m b k \<Longrightarrow> mapped (push_all vs sp m) b k"
  by (induction vs arbitrary: sp m) auto

lemma push_all_append: "push_all (xs @ ys) sp m = push_all ys (sp - of_nat (8 * length xs)) (push_all xs sp m)"
  by (induction xs arbitrary: sp m) (simp_all add: algebra_simps)

lemma code_at_push_all:
  assumes "code_at m a bs" and "8 * length vs < 2 ^ 32" and "clear_below sp (8 * length vs) a (length bs)"
  shows "code_at (push_all vs sp m) a bs"
  using assms load_push_all_above [of vs sp a "length bs" m] by (cases "bs = []") (auto simp: code_at_def clear_below_def)

text \<open>Pops: the loaded values reach their registers, whatever the registers held.\<close>

definition restored :: "reg list \<Rightarrow> (reg \<Rightarrow> u64) \<Rightarrow> (reg \<Rightarrow> u64) \<Rightarrow> reg \<Rightarrow> u64" where
  "restored rs f g = (\<lambda>r. if r \<in> set rs then f r else g r)"

lemma run_pops:
  assumes "code_at (cmem s) (ip s) (pops rs)" and "RSP \<notin> set rs"
    and "\<forall>i < length rs. load64 (cmem s) (regs s RSP + of_nat (8 * i)) = Some (f (rs ! i))"
  shows "run (length rs) s = Some (s\<lparr>ip := ip s + of_nat (length (pops rs)),
    regs := (restored rs f (regs s))(RSP := regs s RSP + of_nat (8 * length rs))\<rparr>)"
  using assms
proof (induction rs arbitrary: s)
  case Nil
  then show ?case by (simp add: pops_def restored_def)
next
  case (Cons r rs)
  let ?sp = "regs s RSP" and ?n = "length (pop_code r)"
  let ?t = "s\<lparr>ip := ip s + of_nat ?n, regs := (regs s)(RSP := ?sp + 8, r := f r)\<rparr>"
  have code: "code_at (cmem s) (ip s) (pop_code r)" "code_at (cmem ?t) (ip ?t) (pops rs)"
    using Cons.prems(1) by (simp_all add: pops_def)
  have r: "r \<noteq> RSP" "RSP \<notin> set rs" using Cons.prems(2) by auto
  have "load64 (cmem s) ?sp = Some (f r)" using Cons.prems(3) by (auto dest: spec [of _ 0])
  then have s1: "step s = Some ?t"
    by (simp add: step_code [OF encodes_pop code(1)] set_reg_def)
  have "load64 (cmem ?t) (regs ?t RSP + of_nat (8 * i)) = Some (f (rs ! i))" if "i < length rs" for i
    using Cons.prems(3) [rule_format, of "Suc i"] that r by (simp add: algebra_simps)
  with Cons.IH [OF code(2) r(2)] have "run (length rs) ?t = Some (?t\<lparr>ip := ip ?t + of_nat (length (pops rs)),
      regs := (restored rs f (regs ?t))(RSP := regs ?t RSP + of_nat (8 * length rs))\<rparr>)" by blast
  moreover have "(restored rs f (regs ?t))(RSP := regs ?t RSP + of_nat (8 * length rs))
      = (restored (r # rs) f (regs s))(RSP := ?sp + of_nat (8 * length (r # rs)))"
    using r by (auto simp: restored_def fun_eq_iff algebra_simps)
  ultimately show ?case using s1 by (simp add: pops_def algebra_simps fun_upd_def)
qed

section \<open>The shape of a trampoline\<close>

text \<open>
  Both branches of the constructor emit the same sequence around the parts that the calling
  convention decides: the registers \<open>saved\<close> for the interpreter, the instructions \<open>args\<close> that load
  the three arguments, and \<open>shadow\<close>, which reserves space for the callee. Its offsets are computed
  here from the lengths of the parts, which the constants of the source must agree with.
\<close>

definition enter_code :: "reg list \<Rightarrow> u8 list \<Rightarrow> u8 list \<Rightarrow> u8 list" where
  "enter_code saved args shadow = pushes (saved @ [RBP]) @ [0x6A, 0x00] @ [0x6A, 0x00] @ args
     @ [0x48, 0x89, 0xE5] @ [0x48, 0x83, 0xE4, 0xF0] @ shadow"

definition cancel_code :: "reg list \<Rightarrow> u8 list" where
  "cancel_code saved = [0x48, 0x8B, 0x44, 0x24, 0x08] @ [0x66, 0x48, 0x0F, 0x6E, 0xC0] @ [0x48, 0x83, 0xC4, 0x10]
     @ pops (RBP # rev (tl saved)) @ [0x48, 0x83, 0xC4, 0x08] @ [0x48, 0x8B, 0x5D, 0xF8] @ [0x48, 0x89, 0xEC]
     @ pop_code RBP @ pop_code RSI @ [0x48, 0x89, 0xDC] @ [0xFF, 0xE6]"

definition resume_code :: "reg list \<Rightarrow> u8 list" where
  "resume_code saved = [0x48, 0x83, 0xC4, 0x10] @ pops (RBP # rev saved)"

definition test_code :: "reg list \<Rightarrow> u8 list" where
  "test_code saved = [0x48, 0x89, 0xEC] @ [0x80, 0x3C, 0x24, 0x00]
     @ (0x0F # 0x84 # le_of_word 4 (of_nat (length (cancel_code saved)) :: u32))"

definition slot_distance :: "reg list \<Rightarrow> nat" where
  "slot_distance saved = length (test_code saved @ cancel_code saved @ resume_code saved) + JMP_SIZE"

definition trampoline_layout :: "reg list \<Rightarrow> u8 list \<Rightarrow> u8 list \<Rightarrow> u32 \<Rightarrow> addr \<Rightarrow> u8 list" where
  "trampoline_layout saved args shadow rel detour = enter_code saved args shadow
     @ (0xFF # 0x15 # le_of_word 4 (of_nat (slot_distance saved) :: u32))
     @ test_code saved @ cancel_code saved @ resume_code saved @ (0xE9 # le_of_word 4 rel) @ le_of_word 8 detour"

lemma assembly_layout:
  "assembly a r d = trampoline_layout [RAX, RDI, RSI, RDX, RCX, R8, R9, R10, R11]
     [0x48, 0x89, 0xEF, 0x4C, 0x89, 0xFE, 0x48, 0x89, 0xE2] [] (rel32 r (resume_next a)) d"
  by (simp add: trampoline_layout_def assembly_def Let_def enter_code_def test_code_def cancel_code_def resume_code_def
      slot_distance_def pushes_def pops_def push_code_def pop_code_def layout_consts assembly_template_def
      patch_def le32)

section \<open>What the code around the detour must do\<close>

text \<open>The address of the \<open>return_slot\<close> and the stack pointer in the detour's first instruction.\<close>

definition slot_addr :: "reg list \<Rightarrow> cpu \<Rightarrow> addr" where
  "slot_addr saved s = regs s RSP - of_nat (8 * (length saved + 3))"

definition call_sp :: "reg list \<Rightarrow> nat \<Rightarrow> cpu \<Rightarrow> addr" where
  "call_sp saved space s = (slot_addr saved s AND - 16) - of_nat space - 8"

text \<open>\<open>stack_window\<close> bounds what the trampoline and the arguments of the detour need below the
  interpreter's stack pointer.\<close>

definition stack_window :: nat where
  "stack_window = 256"

definition entered :: "reg list \<Rightarrow> reg \<Rightarrow> reg \<Rightarrow> reg \<Rightarrow> nat \<Rightarrow> addr \<Rightarrow> addr \<Rightarrow> cpu \<Rightarrow> cpu \<Rightarrow> bool" where
  "entered saved fr th sl space detour ret s e \<longleftrightarrow> ip e = detour
     \<and> regs e = (regs s)(fr := regs s RBP, th := regs s R15, sl := slot_addr saved s,
                         RBP := slot_addr saved s, RSP := call_sp saved space s)
     \<and> load64 (cmem e) (call_sp saved space s) = Some ret
     \<and> load64 (cmem e) (slot_addr saved s) = Some 0 \<and> load64 (cmem e) (slot_addr saved s + 8) = Some 0
     \<and> (\<forall>i \<le> length saved. load64 (cmem e) (slot_addr saved s + 16 + of_nat (8 * i))
            = Some (regs s (rev (saved @ [RBP]) ! i)))
     \<and> (\<forall>b k. 0 < k \<and> clear_below (regs s RSP) stack_window b k \<longrightarrow> load_bytes (cmem e) b k = load_bytes (cmem s) b k)
     \<and> xmm e = xmm s"

text \<open>What a calling convention requires of a callee that returns.\<close>

definition returned :: "reg list \<Rightarrow> cpu \<Rightarrow> cpu \<Rightarrow> bool" where
  "returned callee_saved e t \<longleftrightarrow> load64 (cmem e) (regs e RSP) = Some (ip t) \<and> regs t RSP = regs e RSP + 8
     \<and> (\<forall>r \<in> set callee_saved. regs t r = regs e r)"

text \<open>A detour that keeps to the convention: it returns, and it leaves the registers that the trampoline
  saved on the stack and the trampoline itself alone. The \<open>return_slot\<close> and the rest of the memory are
  its own business.\<close>

definition well_behaved :: "reg list \<Rightarrow> reg list \<Rightarrow> addr \<Rightarrow> nat \<Rightarrow> cpu \<Rightarrow> cpu \<Rightarrow> cpu \<Rightarrow> bool" where
  "well_behaved saved callee_saved base n s e t \<longleftrightarrow> returned callee_saved e t
     \<and> (\<forall>i \<le> length saved. load64 (cmem t) (slot_addr saved s + 16 + of_nat (8 * i))
            = load64 (cmem e) (slot_addr saved s + 16 + of_nat (8 * i)))
     \<and> load_bytes (cmem t) base n = load_bytes (cmem e) base n"

lemma floor16: "\<exists>c < 16. (x :: u64) AND - 16 = x - of_nat c"
proof -
  have "unat (x AND - 16) = unat x - unat x mod 16"
    using unat_page_floor [of x 4] by (simp add: minus_mod_eq_div_mult)
  moreover have "x AND - 16 = of_nat (unat (x AND - 16))" by simp
  ultimately have "x AND - 16 = of_nat (unat x - unat x mod 16)" by simp
  also have "\<dots> = x - of_nat (unat x mod 16)" by (simp add: of_nat_diff)
  finally show ?thesis by (intro exI [of _ "unat x mod 16"]) simp
qed

lemma times16: "16 * (z :: u64) AND 15 = 0"
proof -
  have "push_bit 4 z AND mask 4 = 0" by (rule bit_word_eqI) (auto simp: bit_simps)
  then show ?thesis by (simp add: push_bit_eq_mult mask_eq_exp_minus_1 mult.commute)
qed

lemma floor16_times: "\<exists>z. (x :: u64) AND - 16 = 16 * z"
proof -
  have "unat (x AND - 16) = 16 * (unat x div 16)" using unat_page_floor [of x 4] by simp
  moreover have "x AND - 16 = of_nat (unat (x AND - 16))" by simp
  ultimately have "x AND - 16 = 16 * of_nat (unat x div 16)" by simp
  then show ?thesis ..
qed

lemma call_sp_aligned: "space mod 16 = 0 \<Longrightarrow> (call_sp saved space s + 8) AND 15 = 0"
proof -
  assume "space mod 16 = 0"
  then obtain q where q: "space = 16 * q" by auto
  obtain z where "slot_addr saved s AND - 16 = 16 * z" using floor16_times by blast
  then have "call_sp saved space s + 8 = 16 * (z - of_nat q)" by (simp add: call_sp_def q algebra_simps)
  then show ?thesis by (simp only: times16)
qed

lemma call_sp_below: "\<exists>c < 16. call_sp saved space s = regs s RSP - of_nat (8 * (length saved + 3) + c + space + 8)"
proof -
  obtain c where "c < 16" "slot_addr saved s AND - 16 = slot_addr saved s - of_nat c" using floor16 by blast
  then show ?thesis by (intro exI [of _ c]) (simp add: call_sp_def slot_addr_def algebra_simps)
qed

lemma below_apart:
  assumes "y + k \<le> x" and "x + n < 2 ^ 32" and "0 < n"
  shows "apart (sp - of_nat (x + n)) n (sp - of_nat (y + k)) k"
proof -
  define d where "d = x + n - (y + k)"
  have d: "n \<le> d" "d < 4294967296" "k \<le> 18446744073709551616 - d"
    using assms by (auto simp: d_def)
  have "of_nat (x + n) - of_nat (y + k) = (of_nat d :: addr)"
    using assms by (simp add: d_def of_nat_diff)
  then have e: "sp - of_nat (y + k) - (sp - of_nat (x + n)) = of_nat d"
    "sp - of_nat (x + n) - (sp - of_nat (y + k)) = - of_nat d" by (simp_all add: algebra_simps)
  have ud: "unat (of_nat d :: addr) = d" using d(2) by (simp add: unat_of_nat take_bit_nat_eq_self)
  have "unat (- of_nat d :: addr) = 18446744073709551616 - d \<or> k = 0"
  proof (cases "d = 0")
    case False
    then have "(of_nat d :: addr) \<noteq> 0" using ud by (metis unat_0)
    then show ?thesis using unat_plus_if' [of "- of_nat d :: addr" "of_nat d"] ud unat_lt64 [of "- of_nat d"] False
      by (auto split: if_splits)
  qed (use assms d in \<open>auto simp: d_def\<close>)
  then show ?thesis unfolding apart_def e using d ud by auto
qed

text \<open>Both pushes of zero, as one step.\<close>

lemma run_push_zeros:
  assumes "code_at (cmem s) (ip s) ([0x6A, 0x00] @ [0x6A, 0x00])"
    and "mapped (cmem s) (regs s RSP - 16) 16" and "clear_below (regs s RSP) 16 (ip s) 4"
  shows "run 2 s = Some (s\<lparr>ip := ip s + 4, regs := (regs s)(RSP := regs s RSP - 16),
    cmem := push_all [0, 0] (regs s RSP) (cmem s)\<rparr>)"
proof -
  let ?sp = "regs s RSP"
  let ?t = "s\<lparr>ip := ip s + 2, regs := (regs s)(RSP := ?sp - 8), cmem := put (?sp - 8) (le_of_word 8 (0 :: u64)) (cmem s)\<rparr>"
  have c: "code_at (cmem s) (ip s) [0x6A, 0x00]" "code_at (cmem s) (ip s + 2) [0x6A, 0x00]"
    using assms(1) unfolding code_at_append by simp_all
  have m: "mapped (cmem s) (?sp - 8) 8" "mapped (cmem s) (?sp - 16) 8"
    using mapped_below [of "cmem s" ?sp 16 0 8] mapped_below [of "cmem s" ?sp 16 8 8] assms(2) by simp_all
  have s1: "step s = Some ?t" using m by (simp add: step_code [OF encodes_fixed(1) c(1)] push_eq)
  have "apart (?sp - 8) 8 (ip s + 2) (Suc (Suc 0))" using under_part [OF assms(3), of 0 8 2 2] by (simp add: numeral_2_eq_2)
  then have c2: "code_at (cmem ?t) (ip ?t) [0x6A, 0x00]" using code_at_put [OF c(2), of "?sp - 8" "le_of_word 8 (0 :: u64)"] by simp
  have "step ?t = Some (?t\<lparr>ip := ip s + 4, regs := (regs s)(RSP := ?sp - 16),
      cmem := put (?sp - 16) (le_of_word 8 (0 :: u64)) (cmem ?t)\<rparr>)"
    using m by (simp add: step_code [OF encodes_fixed(1) c2] push_eq)
  then show ?thesis using s1 by (simp add: numeral_2_eq_2)
qed

lemma code_word: "code_at m a (le_of_word 8 w) \<Longrightarrow> load64 m a = Some (w :: u64)"
  by (simp add: code_at_def load_le_def word_of_le_of_word)

lemma scast_small: "k < 2 ^ 31 \<Longrightarrow> (scast (of_nat k :: u32) :: u64) = of_nat k"
proof -
  assume "k < 2 ^ 31"
  then have "sint (of_nat k :: u32) = int k"
    by (simp add: signed_of_nat signed_take_bit_int_eq_self)
  then show ?thesis by (simp add: scast_eq)
qed

lemma length_pops_le: "length (pops rs) \<le> 2 * length rs"
proof (induction rs)
  case (Cons r rs)
  have "length (pop_code r) \<le> 2" by (cases r) (simp_all add: pop_code_def)
  with Cons show ?case by (simp add: pops_def)
qed (simp add: pops_def)

lemma under_le: "clear_below sp n a k \<Longrightarrow> i \<le> n \<Longrightarrow> 0 < i \<Longrightarrow> 0 < k \<Longrightarrow> clear_below sp i a k"
  using under_part [of sp n a k 0 i 0 k] by (simp add: clear_below_def)

section \<open>The trampoline, for any calling convention\<close>

text \<open>
  The interface of a calling convention: which registers the trampoline saves, which ones the callee
  preserves, and what the convention's own instructions do. Everything about the control flow of the
  trampoline follows from it.
\<close>

locale calling_convention =
  fixes saved :: "reg list" and callee_saved :: "reg list"
    and args :: "u8 list" and n_args :: nat and shadow :: "u8 list" and n_shadow :: nat
    and fr :: reg and th :: reg and sl :: reg and space :: nat
  assumes saved_distinct: "distinct saved" and saved_first: "saved \<noteq> []" "hd saved = RAX"
    and saved_others: "RSP \<notin> set saved" "RBP \<notin> set saved" "length saved \<le> 12"
    and covered: "r = RSP \<or> r \<in> set saved \<or> r \<in> set callee_saved"
    and arguments: "fr \<in> set saved" "th \<in> set saved" "sl \<in> set saved" "RAX \<notin> {fr, th, sl}"
    and callee: "set saved \<inter> set callee_saved = {}" "RSP \<notin> set callee_saved"
    and args_run: "code_at (cmem s) (ip s) args \<Longrightarrow> run n_args s = Some (s\<lparr>ip := ip s + of_nat (length args),
      regs := (regs s)(fr := regs s RBP, th := regs s R15, sl := regs s RSP)\<rparr>)"
    and shadow_run: "code_at (cmem s) (ip s) shadow \<Longrightarrow> \<exists>z. run n_shadow s = Some (s\<lparr>ip := ip s + of_nat (length shadow),
      zf := z, regs := (regs s)(RSP := regs s RSP - of_nat space)\<rparr>)"
    and space: "space mod 16 = 0" "space \<le> 32"
begin

lemma RBP_callee: "RBP \<in> set callee_saved"
  using covered [of RBP] saved_others by auto

lemma args_not: "RSP \<noteq> fr" "RSP \<noteq> th" "RSP \<noteq> sl" "RBP \<noteq> fr" "RBP \<noteq> th" "RBP \<noteq> sl"
  using arguments saved_others by auto

abbreviation trampoline_code :: "u32 \<Rightarrow> addr \<Rightarrow> u8 list" where
  "trampoline_code \<equiv> trampoline_layout saved args shadow"

definition enter_steps :: nat where
  "enter_steps = length saved + 1 + 2 + n_args + 2 + n_shadow + 1"

definition after_call :: addr where
  "after_call = of_nat (length (enter_code saved args shadow) + 6)"

lemma slot_distance_small: "slot_distance saved < 2 ^ 31"
  using length_pops_le [of "RBP # rev (tl saved)"] length_pops_le [of "RBP # rev saved"] saved_others
  by (simp add: slot_distance_def test_code_def cancel_code_def resume_code_def JMP_SIZE_def pop_code_def)

lemma run_enter:
  assumes "code_at (cmem s) (ip s) (trampoline_code rel detour)"
    and "mapped (cmem s) (regs s RSP - of_nat stack_window) stack_window"
    and "clear_below (regs s RSP) stack_window (ip s) (length (trampoline_code rel detour))"
  defines "M \<equiv> push_all (map (regs s) (saved @ [RBP]) @ [0, 0]) (regs s RSP) (cmem s)"
  shows "\<exists>z. run (length saved + 1 + 2 + n_args + 2 + n_shadow) s =
     Some (s\<lparr>ip := ip s + of_nat (length (enter_code saved args shadow)),
       regs := (regs s)(fr := regs s RBP, th := regs s R15, sl := slot_addr saved s,
                        RBP := slot_addr saved s, RSP := call_sp saved space s + 8),
       cmem := M, zf := z\<rparr>) \<and> code_at M (ip s) (trampoline_code rel detour)"
proof -
  let ?sp = "regs s RSP" and ?b = "ip s" and ?n = "length saved" and ?vs = "map (regs s) (saved @ [RBP])"
  let ?l = "length (pushes (saved @ [RBP]))" and ?code = "trampoline_code rel detour"
  have k0: "0 < length ?code" by (simp add: trampoline_layout_def)
  let ?m1 = "push_all ?vs ?sp (cmem s)"
  have W: "8 * (?n + 3) \<le> stack_window" using saved_others by (simp add: stack_window_def)
  have code1: "code_at ?m1 ?b ?code"
    by (rule code_at_push_all [OF assms(1)]) (use under_le [OF assms(3)] W saved_others k0 in simp_all)
  have code: "code_at M ?b ?code" unfolding M_def
    by (rule code_at_push_all [OF assms(1)]) (use under_le [OF assms(3)] W saved_others k0 in \<open>simp_all add: algebra_simps\<close>)
  have "code_at (cmem s) ?b (pushes (saved @ [RBP]))"
    using assms(1) by (simp add: trampoline_layout_def enter_code_def)
  moreover have "mapped (cmem s) (?sp - of_nat (8 * (?n + 1))) (8 * (?n + 1))"
    using mapped_below [OF assms(2), of 0 "8 * (?n + 1)"] W by simp
  moreover have "clear_below ?sp (8 * (?n + 1)) ?b ?l"
    using under_part [OF assms(3), of 0 "8 * (?n + 1)" 0 ?l] W
    by (simp add: trampoline_layout_def enter_code_def clear_below_def pushes_def push_code_def)
  ultimately have r1: "run (?n + 1) s = Some (s\<lparr>ip := ?b + of_nat ?l, regs := (regs s)(RSP := ?sp - of_nat (8 * (?n + 1))), cmem := ?m1\<rparr>)"
    using run_pushes [of s "saved @ [RBP]"] saved_others by simp
  let ?s1 = "s\<lparr>ip := ?b + of_nat ?l, regs := (regs s)(RSP := ?sp - of_nat (8 * (?n + 1))), cmem := ?m1\<rparr>"
  let ?s2 = "s\<lparr>ip := ?b + of_nat (?l + 4), regs := (regs s)(RSP := slot_addr saved s), cmem := M\<rparr>"
  have pos: "?l + 4 \<le> length ?code" by (simp add: trampoline_layout_def enter_code_def)
  have "code_at ?m1 (?b + of_nat ?l) ([0x6A, 0x00] @ [0x6A, 0x00])"
    using code1 unfolding trampoline_layout_def enter_code_def code_at_append by (simp add: algebra_simps)
  moreover have "mapped ?m1 (?sp - of_nat (8 * (?n + 1)) - 16) 16"
    using mapped_push_all [OF mapped_below [OF assms(2), of "8 * (?n + 1)" 16]] W by (simp add: algebra_simps)
  moreover have "clear_below (?sp - of_nat (8 * (?n + 1))) 16 (?b + of_nat ?l) 4"
    using under_part [OF assms(3), of "8 * (?n + 1)" 16 ?l 4] W pos by (simp add: clear_below_def algebra_simps)
  moreover have "push_all [0, 0] (?sp - of_nat (8 * (?n + 1))) ?m1 = M"
    unfolding M_def by (simp only: push_all_append) simp
  ultimately have r2: "run 2 ?s1 = Some ?s2"
    using run_push_zeros [of ?s1] by (simp add: slot_addr_def algebra_simps fun_upd_upd del: push_all.simps)
  let ?r3 = "(regs ?s2)(fr := regs s RBP, th := regs s R15, sl := slot_addr saved s)"
  let ?s3 = "s\<lparr>ip := ?b + of_nat (?l + 4 + length args), regs := ?r3, cmem := M\<rparr>"
  have "code_at M (?b + of_nat (?l + 4)) args"
    using code unfolding trampoline_layout_def enter_code_def code_at_append by (simp add: algebra_simps)
  then have r3: "run n_args ?s2 = Some ?s3"
    using args_run [of ?s2] by (simp add: algebra_simps)
  let ?r4 = "?r3(RBP := slot_addr saved s, RSP := slot_addr saved s AND - 16)"
  let ?s4 = "s\<lparr>ip := ?b + of_nat (?l + 4 + length args + 7), regs := ?r4, cmem := M, zf := (slot_addr saved s AND - 16 = 0)\<rparr>"
  have "code_at M (?b + of_nat (?l + 4 + length args)) ([0x48, 0x89, 0xE5] @ [0x48, 0x83, 0xE4, 0xF0])"
    using code unfolding trampoline_layout_def enter_code_def code_at_append by (simp add: algebra_simps)
  then have r4: "run 2 ?s3 = Some ?s4"
    using run_block [of "[(Mov_to (Reg RBP) RSP, [0x48, 0x89, 0xE5]), (And_imm RSP (- 16), [0x48, 0x83, 0xE4, 0xF0])]" ?s3]
      args_not by (simp add: encodings set_reg_def arith_def fun_upd_twist algebra_simps numeral_2_eq_2)
  have "code_at M (?b + of_nat (?l + 4 + length args + 7)) shadow"
    using code unfolding trampoline_layout_def enter_code_def code_at_append by (simp add: algebra_simps)
  then have "code_at (cmem ?s4) (ip ?s4) shadow" by simp
  from shadow_run [OF this] obtain z where z: "run n_shadow ?s4 = Some (?s4\<lparr>ip := ip ?s4 + of_nat (length shadow),
      zf := z, regs := (regs ?s4)(RSP := regs ?s4 RSP - of_nat space)\<rparr>)" by blast
  then have r5: "run n_shadow ?s4 = Some (s\<lparr>ip := ?b + of_nat (?l + 4 + length args + 7 + length shadow),
      regs := ?r4(RSP := call_sp saved space s + 8), cmem := M, zf := z\<rparr>)"
    by (simp add: call_sp_def algebra_simps)
  have "?r4(RSP := call_sp saved space s + 8) = (regs s)(fr := regs s RBP, th := regs s R15, sl := slot_addr saved s,
      RBP := slot_addr saved s, RSP := call_sp saved space s + 8)"
    using args_not by (auto simp: fun_eq_iff)
  then show ?thesis using r1 r2 r3 r4 r5 code
    by (intro exI [of _ z]) (simp only: run_add, simp add: enter_code_def algebra_simps)
qed

lemma run_enters:
  assumes "code_at (cmem s) (ip s) (trampoline_code rel detour)"
    and "mapped (cmem s) (regs s RSP - of_nat stack_window) stack_window"
    and "clear_below (regs s RSP) stack_window (ip s) (length (trampoline_code rel detour))"
  shows "\<exists>e. run enter_steps s = Some e \<and> entered saved fr th sl space detour (ip s + after_call) s e"
proof -
  let ?sp = "regs s RSP" and ?n = "length saved" and ?vs = "map (regs s) (saved @ [RBP]) @ [0, 0]" and ?cs = "call_sp saved space s"
  define M where "M = push_all ?vs ?sp (cmem s)"
  define M' where "M' = put ?cs (le_of_word 8 (ip s + after_call)) M"
  let ?r = "(regs s)(fr := regs s RBP, th := regs s R15, sl := slot_addr saved s, RBP := slot_addr saved s)"
  obtain z where r1: "run (?n + 1 + 2 + n_args + 2 + n_shadow) s =
     Some (s\<lparr>ip := ip s + of_nat (length (enter_code saved args shadow)), regs := ?r(RSP := ?cs + 8), cmem := M, zf := z\<rparr>)"
    and code: "code_at M (ip s) (trampoline_code rel detour)"
    using run_enter [OF assms] unfolding M_def by blast
  let ?t = "s\<lparr>ip := ip s + of_nat (length (enter_code saved args shadow)), regs := ?r(RSP := ?cs + 8), cmem := M, zf := z\<rparr>"
  obtain c where c: "c < 16" "?cs = ?sp - of_nat (8 * (?n + 3) + c + space + 8)" using call_sp_below by blast
  have W: "8 * (?n + 3) + c + space + 8 \<le> stack_window" using saved_others space c by (simp add: stack_window_def)
  have mc: "mapped M ?cs 8"
    unfolding M_def c(2) by (rule mapped_push_all, rule mapped_below [OF assms(2) W])
  have "code_at M (ip ?t) (0xFF # 0x15 # le_of_word 4 (of_nat (slot_distance saved) :: u32))"
    using code unfolding trampoline_layout_def code_at_append by simp
  moreover have "code_at M (ip s + after_call + of_nat (slot_distance saved)) (le_of_word 8 detour)"
    using code unfolding trampoline_layout_def after_call_def slot_distance_def code_at_append
    by (simp add: JMP_SIZE_def algebra_simps)
  then have "load64 M (ip s + after_call + of_nat (slot_distance saved)) = Some detour" by (rule code_word)
  ultimately have "step ?t = Some (s\<lparr>ip := detour, regs := ?r(RSP := ?cs), cmem := M', zf := z\<rparr>)"
    using mc by (simp add: step_code [OF encodes_relative(3)] read_op_def address_def push_eq after_call_def M'_def
        scast_small [OF slot_distance_small] algebra_simps)
  then have run: "run enter_steps s = Some (s\<lparr>ip := detour, regs := ?r(RSP := ?cs), cmem := M', zf := z\<rparr>)" (is "_ = Some ?e")
    unfolding enter_steps_def run_add [of "?n + 1 + 2 + n_args + 2 + n_shadow"] r1 by (simp add: run_1)
  have slots: "load64 M' (?sp - of_nat (8 * Suc i)) = Some (?vs ! i)" if "i < ?n + 3" for i
  proof -
    have "apart ?cs 8 (?sp - of_nat (8 * Suc i)) 8"
      using below_apart [of "8 * i" 8 "8 * (?n + 3) + c + space" 8 ?sp] that W unfolding c(2)
      by (simp add: stack_window_def algebra_simps)
    moreover have "load64 M (?sp - of_nat (8 * Suc i)) = Some (?vs ! i)"
      unfolding M_def by (rule load_push_all) (use that W in \<open>simp_all add: stack_window_def\<close>)
    ultimately show ?thesis by (simp add: M'_def load_put_apart)
  qed
  have "load64 M' (slot_addr saved s + 16 + of_nat (8 * i)) = Some (regs s (rev (saved @ [RBP]) ! i))" if "i \<le> ?n" for i
  proof -
    have a1: "slot_addr saved s + 16 + of_nat (8 * i) = ?sp - of_nat (8 * Suc (?n - i))"
      using that by (simp add: slot_addr_def of_nat_diff algebra_simps)
    have a2: "rev (saved @ [RBP]) ! i = (saved @ [RBP]) ! (?n - i)"
      using that by (simp add: rev_nth del: rev_append)
    have a3: "?vs ! (?n - i) = regs s ((saved @ [RBP]) ! (?n - i))" by (simp add: nth_append)
    have "load64 M' (?sp - of_nat (8 * Suc (?n - i))) = Some (?vs ! (?n - i))" by (rule slots) simp
    then show ?thesis unfolding a1 a2 a3 .
  qed
  moreover have "load64 M' (slot_addr saved s) = Some 0" "load64 M' (slot_addr saved s + 8) = Some 0"
    using slots [of "?n + 2"] slots [of "?n + 1"] by (simp_all add: slot_addr_def nth_append algebra_simps)
  moreover have "load64 M' ?cs = Some (ip s + after_call)"
    by (simp add: M'_def load_put_same word_of_le_of_word)
  moreover have "load_bytes M' b k = load_bytes (cmem s) b k" if "0 < k" "clear_below ?sp stack_window b k" for b k
  proof -
    have "apart ?cs 8 b k" using under_part [OF that(2) W, of 0 k] that(1) unfolding c(2) by simp
    moreover have "clear_below ?sp (8 * (?n + 3)) b k" using under_le [OF that(2)] W that(1) by simp
    ultimately show ?thesis using load_push_all_above [of ?vs ?sp b k "cmem s"] that(1) saved_others
      by (simp add: M'_def M_def load_bytes_put_apart clear_below_def algebra_simps)
  qed
  ultimately have "entered saved fr th sl space detour (ip s + after_call) s ?e"
    unfolding entered_def by simp
  with run show ?thesis by blast
qed

text \<open>Back from the detour: the stack pointer is the slot again, and the flag decides.\<close>

definition resume_start :: addr where
  "resume_start = after_call + of_nat (length (test_code saved @ cancel_code saved))"

definition cancel_start :: addr where
  "cancel_start = after_call + of_nat (length (test_code saved))"

lemma run_test:
  assumes "code_at (cmem t) base (trampoline_code rel detour)" and "ip t = base + after_call"
    and "regs t RBP = slot" and "cmem t slot = Some flag"
  shows "run 3 t = Some (t\<lparr>ip := base + (if flag = 0 then resume_start else cancel_start),
     regs := (regs t)(RSP := slot), zf := (flag = 0)\<rparr>)"
proof -
  let ?t = "t\<lparr>ip := base + after_call + 7, regs := (regs t)(RSP := slot), zf := (flag = 0)\<rparr>"
  let ?j = "0x0F # 0x84 # le_of_word 4 (of_nat (length (cancel_code saved)) :: u32)"
  have c: "code_at (cmem t) (base + after_call) ([0x48, 0x89, 0xEC] @ [0x80, 0x3C, 0x24, 0x00])"
    "code_at (cmem t) (base + after_call + 7) ?j"
    using assms(1) unfolding trampoline_layout_def test_code_def after_call_def code_at_append by (simp_all add: algebra_simps)
  have "run 2 t = Some ?t"
    using run_block [of "[(Mov_to (Reg RSP) RBP, [0x48, 0x89, 0xEC]), (Cmp_byte (Mem RSP 0) 0, [0x80, 0x3C, 0x24, 0x00])]" t]
      assms c by (simp add: encodings set_reg_def address_def numeral_2_eq_2 algebra_simps)
  moreover have "length (cancel_code saved) < 2 ^ 31"
    using slot_distance_small by (simp add: slot_distance_def)
  then have "step ?t = Some (?t\<lparr>ip := base + (if flag = 0 then resume_start else cancel_start)\<rparr>)"
    using c(2) by (simp add: step_code [OF encodes_relative(2)] scast_small resume_start_def cancel_start_def test_code_def algebra_simps)
  ultimately have "run (2 + 1) t = Some (?t\<lparr>ip := base + (if flag = 0 then resume_start else cancel_start)\<rparr>)"
    unfolding run_add by (simp add: run_1)
  then show ?thesis by simp
qed

definition resume_steps :: nat where
  "resume_steps = 3 + (1 + (length saved + 1)) + 1"

lemma run_resume:
  assumes "code_at (cmem t) base (trampoline_code rel detour)" and "ip t = base + after_call"
    and "regs t RBP = slot_addr saved s" and "cmem t (slot_addr saved s) = Some 0"
    and w: "\<forall>i \<le> length saved. load64 (cmem t) (slot_addr saved s + 16 + of_nat (8 * i)) = Some (regs s (rev (saved @ [RBP]) ! i))"
    and kept: "\<forall>r \<in> set callee_saved - {RBP}. regs t r = regs s r"
  shows "\<exists>z. run resume_steps t = Some (t\<lparr>ip := base + of_nat (length (trampoline_code rel detour) - 8) + scast rel,
     regs := regs s, zf := z\<rparr>)"
proof -
  let ?slot = "slot_addr saved s" and ?n = "length saved" and ?rs = "RBP # rev saved"
  let ?t1 = "t\<lparr>ip := base + resume_start, regs := (regs t)(RSP := ?slot), zf := True\<rparr>"
  have r1: "run 3 t = Some ?t1" using run_test [OF assms(1-4)] by simp
  have c: "code_at (cmem t) (base + resume_start) [0x48, 0x83, 0xC4, 0x10]"
    "code_at (cmem t) (base + resume_start + 4) (pops ?rs)"
    "code_at (cmem t) (base + resume_start + 4 + of_nat (length (pops ?rs))) (0xE9 # le_of_word 4 rel)"
    using assms(1) unfolding trampoline_layout_def resume_start_def after_call_def resume_code_def code_at_append
    by (simp_all add: algebra_simps)
  let ?t2 = "t\<lparr>ip := base + resume_start + 4, regs := (regs t)(RSP := ?slot + 16), zf := (?slot + 16 = 0)\<rparr>"
  have r2: "step ?t1 = Some ?t2"
    using c(1) by (simp add: step_code [OF encodes_fixed(8)] arith_def set_reg_def)
  have "\<forall>i < length ?rs. load64 (cmem ?t2) (regs ?t2 RSP + of_nat (8 * i)) = Some (regs s (?rs ! i))"
    using w by (simp add: less_Suc_eq_le)
  then have r3: "run (length ?rs) ?t2 = Some (?t2\<lparr>ip := base + resume_start + 4 + of_nat (length (pops ?rs)),
      regs := (restored ?rs (regs s) (regs ?t2))(RSP := ?slot + 16 + of_nat (8 * length ?rs))\<rparr>)"
    using run_pops [of ?t2 ?rs "regs s"] c(2) saved_others by simp
  have sp: "?slot + 16 + of_nat (8 * length ?rs) = regs s RSP"
    by (simp add: slot_addr_def algebra_simps)
  have all: "(restored ?rs (regs s) (regs ?t2))(RSP := regs s RSP) = regs s"
  proof
    fix r
    show "((restored ?rs (regs s) (regs ?t2))(RSP := regs s RSP)) r = regs s r"
      using covered [of r] kept by (auto simp: restored_def)
  qed
  let ?t3 = "?t2\<lparr>ip := base + resume_start + 4 + of_nat (length (pops ?rs)), regs := regs s\<rparr>"
  have len: "base + resume_start + 4 + of_nat (length (pops ?rs)) + 5 = base + of_nat (length (trampoline_code rel detour) - 8)"
    by (simp add: trampoline_layout_def resume_start_def after_call_def resume_code_def algebra_simps)
  have r4: "step ?t3 = Some (?t3\<lparr>ip := base + of_nat (length (trampoline_code rel detour) - 8) + scast rel\<rparr>)"
    using c(3) len by (simp add: step_code [OF encodes_relative(1)] add.assoc)
  have "run (3 + (1 + length ?rs) + 1) t = Some (?t3\<lparr>ip := base + of_nat (length (trampoline_code rel detour) - 8) + scast rel\<rparr>)"
    using r1 r2 r3 r4 unfolding run_add sp all by (simp only: run_1 bind.bind_lunit)
  then show ?thesis by (intro exI [of _ "?slot + 16 = 0"]) (simp add: resume_steps_def)
qed

definition cancel_steps :: nat where
  "cancel_steps = 3 + (3 + (length saved + (6 + 1)))"

lemma run_cancel:
  assumes "code_at (cmem t) base (trampoline_code rel detour)" and "ip t = base + after_call"
    and "regs t RBP = slot_addr saved s" and "cmem t (slot_addr saved s) = Some flag" and "flag \<noteq> 0"
    and rv: "load64 (cmem t) (slot_addr saved s + 8) = Some rv"
    and w: "\<forall>i \<le> length saved. load64 (cmem t) (slot_addr saved s + 16 + of_nat (8 * i)) = Some (regs s (rev (saved @ [RBP]) ! i))"
    and kept: "\<forall>r \<in> set callee_saved - {RBP}. regs t r = regs s r"
    and frame: "load64 (cmem t) (regs s RBP - 8) = Some sender" "load64 (cmem t) (regs s RBP) = Some caller_fp"
      "load64 (cmem t) (regs s RBP + 8) = Some return_pc"
  shows "\<exists>z. run cancel_steps t = Some (t\<lparr>ip := return_pc,
     regs := (regs s)(RAX := rv, RBX := sender, RSI := return_pc, RBP := caller_fp, RSP := sender),
     zf := z, xmm := (xmm t)(0 := ucast rv)\<rparr>)"
proof -
  let ?slot = "slot_addr saved s" and ?rs = "RBP # rev (tl saved)" and ?x = "(xmm t)(0 := ucast rv)"
  let ?b = "base + cancel_start"
  let ?t1 = "t\<lparr>ip := ?b, regs := (regs t)(RSP := ?slot), zf := False\<rparr>"
  have r1: "run 3 t = Some ?t1" using run_test [OF assms(1-4)] assms(5) by simp
  let ?A = "[(Mov_from RAX (Mem RSP 8), [0x48, 0x8B, 0x44, 0x24, 0x08]), (Movq_xmm 0 RAX, [0x66, 0x48, 0x0F, 0x6E, 0xC0]),
    (Add_imm RSP 16, [0x48, 0x83, 0xC4, 0x10])]"
  let ?B = "[(Add_imm RSP 8, [0x48, 0x83, 0xC4, 0x08]), (Mov_from RBX (Mem RBP (- 8)), [0x48, 0x8B, 0x5D, 0xF8]),
    (Mov_to (Reg RSP) RBP, [0x48, 0x89, 0xEC]), (Pop RBP, pop_code RBP), (Pop RSI, pop_code RSI),
    (Mov_to (Reg RSP) RBX, [0x48, 0x89, 0xDC])]"
  let ?k = "of_nat (length (pops ?rs)) :: addr"
  have c: "code_at (cmem t) ?b (concat (map snd ?A))" "code_at (cmem t) (?b + 14) (pops ?rs)"
    "code_at (cmem t) (?b + 14 + ?k) (concat (map snd ?B))" "code_at (cmem t) (?b + 14 + ?k + 16) [0xFF, 0xE6]"
    using assms(1) unfolding trampoline_layout_def cancel_start_def after_call_def cancel_code_def code_at_append
    by (simp_all add: pop_code_def algebra_simps flip: append_Cons)
  let ?t2 = "t\<lparr>ip := ?b + 14, regs := (regs t)(RAX := rv, RSP := ?slot + 16), zf := (?slot + 16 = 0), xmm := ?x\<rparr>"
  have r2: "run 3 ?t1 = Some ?t2"
    using run_block [of ?A ?t1] c(1) rv
    by (simp add: encodings set_reg_def arith_def address_def read_op_def numeral_3_eq_3 fun_upd_twist)
  have shape: "saved = RAX # tl saved" using saved_first by (cases saved) auto
  then have shape': "rev (saved @ [RBP]) = ?rs @ [RAX]" "length ?rs = length saved"
    by (metis rev.simps(2) rev_append append_Cons append_Nil rev_singleton_conv append.assoc, metis length_Cons length_rev)
  have "\<forall>i < length ?rs. load64 (cmem ?t2) (regs ?t2 RSP + of_nat (8 * i)) = Some (regs s (?rs ! i))"
  proof (intro allI impI)
    fix i
    assume "i < length ?rs"
    then have i: "i < length saved" by (simp only: shape'(2))
    then have "(?rs @ [RAX]) ! i = ?rs ! i" by (simp only: nth_append shape'(2) if_True)
    then have "load64 (cmem t) (?slot + 16 + of_nat (8 * i)) = Some (regs s (?rs ! i))"
      using w i unfolding shape'(1) by (metis less_imp_le)
    then show "load64 (cmem ?t2) (regs ?t2 RSP + of_nat (8 * i)) = Some (regs s (?rs ! i))" by simp
  qed
  moreover have "RSP \<notin> set ?rs" using saved_others(1) by (cases saved) auto
  ultimately have r3: "run (length saved) ?t2 = Some (?t2\<lparr>ip := ?b + 14 + ?k,
      regs := (restored ?rs (regs s) (regs ?t2))(RSP := ?slot + 16 + of_nat (8 * length saved))\<rparr>)"
    using run_pops [of ?t2 ?rs "regs s"] c(2) by (simp only: shape'(2)) simp
  have sp: "?slot + 16 + of_nat (8 * length saved) = regs s RSP - 8"
    by (simp add: slot_addr_def algebra_simps)
  have all: "(restored ?rs (regs s) (regs ?t2))(RSP := regs s RSP - 8) = (regs s)(RAX := rv, RSP := regs s RSP - 8)"
  proof
    fix r
    have "r = RSP \<or> r = RAX \<or> r \<in> set ?rs \<or> r \<in> set callee_saved - {RBP}"
      using covered [of r] shape by (metis Diff_iff list.set_intros(1) set_ConsD set_rev singletonD list.set_intros(2))
    moreover have "RAX \<notin> set ?rs" using saved_distinct shape by (metis distinct.simps(2) list.set_intros(1) reg.distinct(9) set_ConsD set_rev)
    ultimately show "((restored ?rs (regs s) (regs ?t2))(RSP := regs s RSP - 8)) r = ((regs s)(RAX := rv, RSP := regs s RSP - 8)) r"
      using kept by (auto simp: restored_def)
  qed
  let ?t3 = "?t2\<lparr>ip := ?b + 14 + ?k, regs := (regs s)(RAX := rv, RSP := regs s RSP - 8)\<rparr>"
  let ?r4 = "(regs s)(RAX := rv, RBX := sender, RSI := return_pc, RBP := caller_fp, RSP := sender)"
  let ?t4 = "?t2\<lparr>ip := ?b + 14 + ?k + 16, regs := ?r4, zf := (regs s RSP = 0)\<rparr>"
  have r4: "run 6 ?t3 = Some ?t4"
    using run_block [of ?B ?t3] c(3) frame encodes_pop [of RBP] encodes_pop [of RSI]
    by (simp add: encodings set_reg_def arith_def address_def read_op_def fun_upd_twist eval_nat_numeral pop_code_def)
  have r5: "step ?t4 = Some (?t4\<lparr>ip := return_pc\<rparr>)"
    using c(4) by (simp add: step_code [OF encodes_fixed(12)] read_op_def)
  have "run cancel_steps t = Some (?t4\<lparr>ip := return_pc\<rparr>)"
    using r1 r2 r3 r4 r5 unfolding cancel_steps_def run_add sp all by (simp only: run_1 bind.bind_lunit)
  then show ?thesis by (intro exI [of _ "regs s RSP = 0"]) simp
qed

text \<open>Around a detour that keeps to the convention.\<close>

lemma after_detour:
  assumes code: "code_at (cmem s) (ip s) (trampoline_code rel detour)"
    and u: "clear_below (regs s RSP) stack_window (ip s) (length (trampoline_code rel detour))"
    and e: "entered saved fr th sl space detour (ip s + after_call) s e"
    and t: "well_behaved saved callee_saved (ip s) (length (trampoline_code rel detour)) s e t"
  shows "code_at (cmem t) (ip s) (trampoline_code rel detour)" and "ip t = ip s + after_call"
    and "regs t RBP = slot_addr saved s"
    and "\<forall>i \<le> length saved. load64 (cmem t) (slot_addr saved s + 16 + of_nat (8 * i)) = Some (regs s (rev (saved @ [RBP]) ! i))"
    and "\<forall>r \<in> set callee_saved - {RBP}. regs t r = regs s r"
proof -
  let ?code = "trampoline_code rel detour"
  have "0 < length ?code" by (simp add: trampoline_layout_def)
  then have "load_bytes (cmem e) (ip s) (length ?code) = load_bytes (cmem s) (ip s) (length ?code)"
    using e u unfolding entered_def by blast
  with code t show "code_at (cmem t) (ip s) ?code" by (simp add: code_at_def well_behaved_def)
  have r: "regs e = (regs s)(fr := regs s RBP, th := regs s R15, sl := slot_addr saved s,
      RBP := slot_addr saved s, RSP := call_sp saved space s)"
    "load64 (cmem e) (call_sp saved space s) = Some (ip s + after_call)"
    using e by (auto simp: entered_def)
  have c: "\<forall>r \<in> set callee_saved. regs t r = regs e r" "load64 (cmem e) (regs e RSP) = Some (ip t)"
    using t by (auto simp: well_behaved_def returned_def)
  show "ip t = ip s + after_call" using r c(2) by simp
  show "regs t RBP = slot_addr saved s" using c(1) RBP_callee r by simp
  show "\<forall>r \<in> set callee_saved - {RBP}. regs t r = regs s r"
  proof
    fix q
    assume q: "q \<in> set callee_saved - {RBP}"
    then have "q \<noteq> fr" "q \<noteq> th" "q \<noteq> sl" "q \<noteq> RSP" "q \<noteq> RBP" using arguments callee by auto
    with c(1) q r(1) show "regs t q = regs s q" by simp
  qed
  show "\<forall>i \<le> length saved. load64 (cmem t) (slot_addr saved s + 16 + of_nat (8 * i)) = Some (regs s (rev (saved @ [RBP]) ! i))"
    using e t by (simp add: entered_def well_behaved_def)
qed

lemma uncancelled:
  assumes code: "code_at (cmem s) (ip s) (trampoline_code rel detour)"
    and u: "clear_below (regs s RSP) stack_window (ip s) (length (trampoline_code rel detour))"
    and e: "entered saved fr th sl space detour (ip s + after_call) s e"
    and t: "well_behaved saved callee_saved (ip s) (length (trampoline_code rel detour)) s e t"
    and flag: "cmem t (slot_addr saved s) = Some 0"
  shows "\<exists>v. run resume_steps t = Some v \<and> ip v = ip s + of_nat (length (trampoline_code rel detour) - 8) + scast rel
     \<and> regs v = regs s \<and> cmem v = cmem t \<and> xmm v = xmm t"
  using run_resume [OF after_detour(1-3) [OF code u e t] flag after_detour(4,5) [OF code u e t]] by auto

lemma cancelled:
  assumes code: "code_at (cmem s) (ip s) (trampoline_code rel detour)"
    and u: "clear_below (regs s RSP) stack_window (ip s) (length (trampoline_code rel detour))"
    and e: "entered saved fr th sl space detour (ip s + after_call) s e"
    and t: "well_behaved saved callee_saved (ip s) (length (trampoline_code rel detour)) s e t"
    and flag: "cmem t (slot_addr saved s) = Some flag" "flag \<noteq> 0" "load64 (cmem t) (slot_addr saved s + 8) = Some rv"
    and frame: "load64 (cmem t) (regs s RBP - 8) = Some sender" "load64 (cmem t) (regs s RBP) = Some caller_fp"
      "load64 (cmem t) (regs s RBP + 8) = Some return_pc"
  shows "\<exists>v. run cancel_steps t = Some v \<and> ip v = return_pc
     \<and> regs v = (regs s)(RAX := rv, RBX := sender, RSI := return_pc, RBP := caller_fp, RSP := sender)
     \<and> cmem v = cmem t \<and> xmm v = (xmm t)(0 := ucast rv)"
  using run_cancel [OF after_detour(1-3) [OF code u e t] flag after_detour(4,5) [OF code u e t] frame] by auto

lemma call_is_aligned: "entered saved fr th sl space detour ret s e \<Longrightarrow> (regs e RSP + 8) AND 15 = 0"
  using call_sp_aligned [OF space(1)] by (simp add: entered_def)

end

end
