(* ===== verification/Trampoline_Runs.thy ===== *)
theory Trampoline_Runs
  imports Trampoline_Exec
begin

text \<open>
  Running the trampoline: the two branches of the constructor of \<open>midi2i_hook\<close> (vmhook.hpp lines 5388 to
  5565), System V and Windows, as interpretations of \<open>calling_convention\<close>, and what the processor of
  \<open>Machine_Code\<close> does when the interpreter reaches a hooked stub. The detour is foreign to the machine
  code: it is any state change that keeps to the calling convention and leaves the trampoline and its
  saved registers alone (\<open>sysv_returns\<close>, \<open>well_behaved\<close>).
\<close>

section \<open>The two calling conventions\<close>

text \<open>System V AMD64: the first three arguments are RDI, RSI and RDX.\<close>

definition sysv_saved :: "reg list" where
  "sysv_saved = [RAX, RDI, RSI, RDX, RCX, R8, R9, R10, R11]"

definition sysv_callee_saved :: "reg list" where
  "sysv_callee_saved = [RBX, RBP, R12, R13, R14, R15]"

definition sysv_args :: "u8 list" where
  "sysv_args = [0x48, 0x89, 0xEF, 0x4C, 0x89, 0xFE, 0x48, 0x89, 0xE2]"

text \<open>Microsoft x64: the first three arguments are RCX, RDX and R8, and the caller provides 32 bytes of
  shadow space.\<close>

definition ms_saved :: "reg list" where
  "ms_saved = [RAX, RCX, RDX, R8, R9, R10, R11]"

definition ms_callee_saved :: "reg list" where
  "ms_callee_saved = [RBX, RBP, RDI, RSI, R12, R13, R14, R15]"

definition ms_args :: "u8 list" where
  "ms_args = [0x48, 0x89, 0xE9, 0x4C, 0x89, 0xFA, 0x4C, 0x8D, 0x04, 0x24]"

definition ms_shadow :: "u8 list" where
  "ms_shadow = [0x48, 0x83, 0xEC, 0x20]"

interpretation sysv: calling_convention sysv_saved sysv_callee_saved sysv_args 3 "[]" 0 RDI RSI RDX 0
proof unfold_locales
  fix r show "r = RSP \<or> r \<in> set sysv_saved \<or> r \<in> set sysv_callee_saved"
    by (cases r) (simp_all add: sysv_saved_def sysv_callee_saved_def)
next
  fix s :: cpu assume "code_at (cmem s) (ip s) sysv_args"
  then show "run 3 s = Some (s\<lparr>ip := ip s + of_nat (length sysv_args),
      regs := (regs s)(RDI := regs s RBP, RSI := regs s R15, RDX := regs s RSP)\<rparr>)"
    using run_block [of "[(Mov_to (Reg RDI) RBP, [0x48, 0x89, 0xEF]), (Mov_to (Reg RSI) R15, [0x4C, 0x89, 0xFE]),
        (Mov_to (Reg RDX) RSP, [0x48, 0x89, 0xE2])]" s]
    by (simp add: encodings sysv_args_def set_reg_def numeral_3_eq_3)
next
  fix s :: cpu
  show "\<exists>z. run 0 s = Some (s\<lparr>ip := ip s + of_nat (length ([] :: u8 list)), zf := z,
      regs := (regs s)(RSP := regs s RSP - of_nat 0)\<rparr>)"
    by (intro exI [of _ "zf s"]) simp
qed (auto simp: sysv_saved_def sysv_callee_saved_def)

interpretation ms: calling_convention ms_saved ms_callee_saved ms_args 3 ms_shadow 1 RCX RDX R8 32
proof unfold_locales
  fix r show "r = RSP \<or> r \<in> set ms_saved \<or> r \<in> set ms_callee_saved"
    by (cases r) (simp_all add: ms_saved_def ms_callee_saved_def)
next
  fix s :: cpu assume "code_at (cmem s) (ip s) ms_args"
  then show "run 3 s = Some (s\<lparr>ip := ip s + of_nat (length ms_args),
      regs := (regs s)(RCX := regs s RBP, RDX := regs s R15, R8 := regs s RSP)\<rparr>)"
    using run_block [of "[(Mov_to (Reg RCX) RBP, [0x48, 0x89, 0xE9]), (Mov_to (Reg RDX) R15, [0x4C, 0x89, 0xFA]),
        (Lea R8 (Mem RSP 0), [0x4C, 0x8D, 0x04, 0x24])]" s]
    by (simp add: encodings ms_args_def set_reg_def address_def numeral_3_eq_3)
next
  fix s :: cpu assume "code_at (cmem s) (ip s) ms_shadow"
  then show "\<exists>z. run 1 s = Some (s\<lparr>ip := ip s + of_nat (length ms_shadow), zf := z,
      regs := (regs s)(RSP := regs s RSP - of_nat 32)\<rparr>)"
    using run_block [of "[(Sub_imm RSP 0x20, [0x48, 0x83, 0xEC, 0x20])]" s]
    by (auto simp: encodings ms_shadow_def set_reg_def arith_def intro!: exI [of _ "regs s RSP - 32 = 0"])
qed (auto simp: ms_saved_def ms_callee_saved_def)

section \<open>The code the constructor emits\<close>

text \<open>The Windows branch of the constructor (lines 5388 to 5465): its offsets and its bytes, and what
  the rest of the constructor makes of them.\<close>

definition WIN_JE_OFFSET :: nat where "WIN_JE_OFFSET = 0x32"
definition WIN_RESUME_OFFSET :: nat where "WIN_RESUME_OFFSET = 0x63"
definition WIN_RESUME_JMP_OFFSET :: nat where "WIN_RESUME_JMP_OFFSET = 0x73"
definition WIN_DETOUR_ADDRESS_OFFSET :: nat where "WIN_DETOUR_ADDRESS_OFFSET = 0x78"

definition windows_template :: "u8 list" where
  "windows_template =
     [0x50, 0x51, 0x52, 0x41, 0x50, 0x41, 0x51, 0x41, 0x52, 0x41, 0x53, 0x55,
      0x6A, 0x00, 0x6A, 0x00,
      0x48, 0x89, 0xE9, 0x4C, 0x89, 0xFA, 0x4C, 0x8D, 0x04, 0x24,
      0x48, 0x89, 0xE5, 0x48, 0x83, 0xE4, 0xF0, 0x48, 0x83, 0xEC, 0x20,
      0xFF, 0x15, 0x4D, 0x00, 0x00, 0x00,
      0x48, 0x89, 0xEC,
      0x80, 0x3C, 0x24, 0x00,
      0x0F, 0x84, 0x00, 0x00, 0x00, 0x00,
      0x48, 0x8B, 0x44, 0x24, 0x08, 0x66, 0x48, 0x0F, 0x6E, 0xC0,
      0x48, 0x83, 0xC4, 0x10, 0x5D, 0x41, 0x5B, 0x41, 0x5A, 0x41, 0x59, 0x41, 0x58,
      0x5A, 0x59,
      0x48, 0x83, 0xC4, 0x08, 0x48, 0x8B, 0x5D, 0xF8, 0x48, 0x89, 0xEC, 0x5D, 0x5E,
      0x48, 0x89, 0xDC, 0xFF, 0xE6,
      0x48, 0x83, 0xC4, 0x10, 0x5D, 0x41, 0x5B, 0x41, 0x5A, 0x41, 0x59, 0x41, 0x58,
      0x5A, 0x59, 0x58,
      0xE9, 0x00, 0x00, 0x00, 0x00,
      0x00, 0x00, 0x00, 0x00, 0x00, 0x00, 0x00, 0x00]"

definition windows_resume_next :: "addr \<Rightarrow> addr" where
  "windows_resume_next allocated = allocated + of_nat (HOOK_SIZE + WIN_RESUME_JMP_OFFSET + RESUME_JMP_SIZE)"

definition windows_assembly :: "addr \<Rightarrow> addr \<Rightarrow> addr \<Rightarrow> u8 list" where
  "windows_assembly allocated resume detour =
     (let je_delta = of_nat (WIN_RESUME_OFFSET - (WIN_JE_OFFSET + JE_SIZE)) :: u32;
          a1 = patch (WIN_JE_OFFSET + 2) (le_of_word 4 je_delta) windows_template;
          a2 = patch (WIN_RESUME_JMP_OFFSET + 1) (le_of_word 4 (rel32 resume (windows_resume_next allocated))) a1
      in patch WIN_DETOUR_ADDRESS_OFFSET (le_of_word 8 detour) a2)"

lemma sysv_code: "assembly a r d = trampoline_layout sysv_saved sysv_args [] (rel32 r (resume_next a)) d"
  unfolding assembly_layout sysv_saved_def sysv_args_def ..

lemma windows_code: "windows_assembly a r d = trampoline_layout ms_saved ms_args ms_shadow (rel32 r (windows_resume_next a)) d"
  by (simp add: trampoline_layout_def windows_assembly_def Let_def enter_code_def test_code_def cancel_code_def resume_code_def
      slot_distance_def pushes_def pops_def push_code_def pop_code_def layout_consts windows_template_def
      WIN_JE_OFFSET_def WIN_RESUME_OFFSET_def WIN_RESUME_JMP_OFFSET_def WIN_DETOUR_ADDRESS_OFFSET_def
      ms_saved_def ms_args_def ms_shadow_def patch_def le32)

section \<open>A hook in place\<close>

text \<open>
  \<open>in_place m h saved detour\<close>: the state of memory that a successful construction leaves and that
  \<open>verify_and_repair\<close> restores, with both relative jumps in reach and no chained trampoline.
\<close>

definition in_place :: "mem \<Rightarrow> midi2i_hook \<Rightarrow> u8 list \<Rightarrow> addr \<Rightarrow> bool" where
  "in_place m h saved detour \<longleftrightarrow> armed m h \<and> built m h saved detour
     \<and> near (mh_target h + of_nat JMP_SIZE) (mh_allocated h)
     \<and> near (resume_next (mh_allocated h)) (mh_target h + of_nat HOOK_SIZE)
     \<and> effective_resume h = mh_target h + of_nat HOOK_SIZE"

text \<open>The instruction at the injection point is the interpreter's write to a byte of the thread that R15
  points to; it does not depend on where it stands, so it can be moved.\<close>

definition displaced_addr :: "u8 list \<Rightarrow> cpu \<Rightarrow> addr" where
  "displaced_addr saved s = regs s R15 + scast (word_of_le (take 4 (drop 3 saved)) :: u32)"

lemma displaced_encodes:
  assumes "match_pattern m a pattern_fallback = Some True" and "load_bytes m a HOOK_SIZE = Some saved"
  shows "encodes (Mov_byte (Mem R15 (scast (word_of_le (take 4 (drop 3 saved)) :: u32))) (saved ! 7)) saved"
proof -
  have len: "length saved = 8" using assms(2) by (auto dest: load_bytes_length simp: layout_consts)
  have "saved ! 0 = 0x41" "saved ! 1 = 0xC6" "saved ! 2 = 0x87"
    using match_pattern_True [OF assms(1), of 0] match_pattern_True [OF assms(1), of 1] match_pattern_True [OF assms(1), of 2]
      load_bytes_nth [OF assms(2), of 0] load_bytes_nth [OF assms(2), of 1] load_bytes_nth [OF assms(2), of 2]
    by (simp_all add: pattern_fallback_def layout_consts)
  moreover obtain b0 b1 b2 b3 b4 b5 b6 b7 where "saved = [b0, b1, b2, b3, b4, b5, b6, b7]"
    using len by (auto simp: numeral_eq_Suc length_Suc_conv)
  ultimately show ?thesis
    by (simp add: encodes_def decode_simps del: word_of_le.simps)
qed

text \<open>What the trampoline needs of the machine: stack below the interpreter's stack pointer, and a thread
  byte that is not part of the trampoline.\<close>

definition trampoline_size :: nat where
  "trampoline_size = HOOK_SIZE + length assembly_template"

definition room_to_run :: "midi2i_hook \<Rightarrow> u8 list \<Rightarrow> cpu \<Rightarrow> bool" where
  "room_to_run h saved s \<longleftrightarrow> mapped (cmem s) (regs s RSP - of_nat stack_window) stack_window
     \<and> clear_below (regs s RSP) stack_window (mh_allocated h) trampoline_size
     \<and> cmem s (displaced_addr saved s) \<noteq> None
     \<and> apart (displaced_addr saved s) 1 (mh_allocated h) trampoline_size"

text \<open>The state behind the displaced instruction.\<close>

definition displaced_done :: "midi2i_hook \<Rightarrow> u8 list \<Rightarrow> cpu \<Rightarrow> cpu" where
  "displaced_done h saved s = s\<lparr>ip := mh_allocated h + of_nat HOOK_SIZE,
     cmem := put (displaced_addr saved s) [saved ! 7] (cmem s)\<rparr>"

lemma run_to_trampoline:
  assumes p: "in_place (cmem s) h saved detour" and ip: "ip s = mh_target h" and r: "room_to_run h saved s"
    and e: "encodes (Mov_byte (Mem R15 (scast (word_of_le (take 4 (drop 3 saved)) :: u32))) (saved ! 7)) saved"
    and len: "length saved = 8"
  shows "run 2 s = Some (displaced_done h saved s)"
    and "code_at (cmem (displaced_done h saved s)) (mh_allocated h + of_nat HOOK_SIZE)
      (assembly (mh_allocated h) (mh_target h + of_nat HOOK_SIZE) detour)"
proof -
  let ?a = "mh_allocated h"
  have b: "load_bytes (cmem s) ?a 8 = Some saved"
    "load_bytes (cmem s) (?a + 8) 129 = Some (assembly ?a (mh_target h + of_nat HOOK_SIZE) detour)"
    using p by (simp_all add: in_place_def built_def HOOK_SIZE_def)
  have j: "code_at (cmem s) (mh_target h) (0xE9 # le_of_word 4 (rel32 ?a (mh_target h + of_nat JMP_SIZE)))"
    using p by (simp add: in_place_def armed_def jmp_bytes_def code_at_def layout_consts)
  have near: "mh_target h + 5 + scast (rel32 ?a (mh_target h + 5)) = ?a"
    using near_rel32 [of "mh_target h + 5" ?a] p by (simp add: in_place_def JMP_SIZE_def)
  have s1: "step s = Some (s\<lparr>ip := ?a\<rparr>)"
    using step_code [OF encodes_relative(1), of s "rel32 ?a (mh_target h + of_nat JMP_SIZE)"] j ip near
    by (simp add: JMP_SIZE_def)
  have "code_at (cmem (s\<lparr>ip := ?a\<rparr>)) (ip (s\<lparr>ip := ?a\<rparr>)) saved" using b(1) len by (simp add: code_at_def)
  moreover have "mapped (cmem s) (displaced_addr saved s) (length [saved ! 7])"
    using r by (simp add: room_to_run_def mapped_Suc)
  then have "store_bytes (cmem s) (displaced_addr saved s) [saved ! 7] = Some (put (displaced_addr saved s) [saved ! 7] (cmem s))"
    by (subst store_bytes_put) simp_all
  ultimately have "step (s\<lparr>ip := ?a\<rparr>) = Some (displaced_done h saved s)"
    using step_code [OF e, of "s\<lparr>ip := ?a\<rparr>"]
    by (simp add: address_def displaced_addr_def displaced_done_def len HOOK_SIZE_def del: store_bytes.simps)
  with s1 show "run 2 s = Some (displaced_done h saved s)" by (simp add: numeral_2_eq_2)
  have "apart (displaced_addr saved s) (length [saved ! 7]) (?a + of_nat 8) 129"
    by (rule apart_sub_right [of _ _ _ 137]) (use r in \<open>simp_all add: room_to_run_def trampoline_size_def layout_consts\<close>)
  from load_bytes_put_apart [OF this, of "cmem s"] b(2)
  show "code_at (cmem (displaced_done h saved s)) (?a + of_nat HOOK_SIZE) (assembly ?a (mh_target h + of_nat HOOK_SIZE) detour)"
    by (simp add: code_at_def displaced_done_def HOOK_SIZE_def)
qed

text \<open>The code of a trampoline and the stack window below it, from the displaced instruction on.\<close>

lemma sysv_layout_length: "length (trampoline_layout sysv_saved sysv_args [] rel d) = 129"
  using length_assembly by (simp add: trampoline_layout_def enter_code_def test_code_def cancel_code_def resume_code_def
      pushes_def pops_def push_code_def pop_code_def sysv_saved_def sysv_args_def)

lemma sysv_after_call: "sysv.after_call = 40"
  unfolding sysv.after_call_def
  by (simp add: enter_code_def pushes_def push_code_def sysv_saved_def sysv_args_def)

lemma sysv_steps: "sysv.enter_steps = 18" "sysv.resume_steps = 15" "sysv.cancel_steps = 22"
  unfolding sysv.enter_steps_def sysv.resume_steps_def sysv.cancel_steps_def by (simp_all add: sysv_saved_def)

lemma displaced_room:
  assumes "room_to_run h saved s"
  defines "t \<equiv> displaced_done h saved s"
  shows "mapped (cmem t) (regs t RSP - of_nat stack_window) stack_window"
    and "clear_below (regs t RSP) stack_window (ip t) 129" and "slot_addr regs' t = slot_addr regs' s"
proof -
  show "mapped (cmem t) (regs t RSP - of_nat stack_window) stack_window"
    using assms by (simp add: room_to_run_def displaced_done_def)
  show "clear_below (regs t RSP) stack_window (ip t) 129"
    using assms under_part [of "regs s RSP" stack_window "mh_allocated h" trampoline_size 0 stack_window 8 129]
    by (simp add: room_to_run_def displaced_done_def trampoline_size_def layout_consts clear_below_def stack_window_def)
  show "slot_addr regs' t = slot_addr regs' s" by (simp add: t_def slot_addr_def displaced_done_def)
qed

lemma run_to_detour:
  assumes p: "in_place (cmem s) h saved detour" and ip: "ip s = mh_target h" and r: "room_to_run h saved s"
    and e: "encodes (Mov_byte (Mem R15 (scast (word_of_le (take 4 (drop 3 saved)) :: u32))) (saved ! 7)) saved"
    and len: "length saved = 8"
  shows "\<exists>e. run 20 s = Some e \<and> entered sysv_saved RDI RSI RDX 0 detour (mh_allocated h + 48) (displaced_done h saved s) e"
proof -
  let ?t = "displaced_done h saved s" and ?rel = "rel32 (mh_target h + of_nat HOOK_SIZE) (resume_next (mh_allocated h))"
  note start = run_to_trampoline [OF p ip r e len]
  have ipt: "ip ?t = mh_allocated h + of_nat HOOK_SIZE" by (simp add: displaced_done_def)
  have c: "code_at (cmem ?t) (ip ?t) (trampoline_layout sysv_saved sysv_args [] ?rel detour)"
    using start(2) unfolding sysv_code ipt .
  note room = displaced_room [OF r]
  obtain e where "run 18 ?t = Some e" "entered sysv_saved RDI RSI RDX 0 detour (ip ?t + 40) ?t e"
    using sysv.run_enters [OF c room(1) room(2) [folded sysv_layout_length [of ?rel detour]]]
    unfolding sysv_steps sysv_after_call by blast
  moreover have "run (2 + 18) s = run 18 ?t" unfolding run_add start(1) by simp
  moreover have "ip ?t + 40 = mh_allocated h + 48" by (simp add: ipt HOOK_SIZE_def)
  ultimately show ?thesis by auto
qed

text \<open>A detour as a function on the machine: it returns to the trampoline according to the System V
  convention and leaves the trampoline and its saved registers alone.\<close>

definition sysv_returns :: "midi2i_hook \<Rightarrow> cpu \<Rightarrow> cpu \<Rightarrow> cpu \<Rightarrow> bool" where
  "sysv_returns h = well_behaved sysv_saved sysv_callee_saved (mh_allocated h + of_nat HOOK_SIZE) (length assembly_template)"

definition return_slot_of :: "cpu \<Rightarrow> addr" where
  "return_slot_of s = slot_addr sysv_saved s"

section \<open>A process with a hooked stub\<close>

lemma ctor_in_place:
  assumes "os_page_size OS = 2 ^ 12" and "honours (os_allocate_rwx OS)" and "fresh_pages OS m target"
    and "minimum_application_address \<le> target" and "target < user_address_ceiling"
    and "unat target mod 4096 < 0xFFC" and "load_bytes m target HOOK_SIZE = Some saved"
    and "midi2i_hook_ctor OS J m target detour 0 = Some (h, m')" and "\<not> mh_error h"
  shows "in_place m' h saved detour \<and> mh_target h = target"
  using ctor_placed [OF assms(1-7), of J detour] assms(8,9) by (auto simp: in_place_def)

text \<open>The stub at 0x400100 starts with the interpreter's state write; the hook's page is 0x401000.\<close>

definition stub_bytes :: "u8 list" where
  "stub_bytes = [0x41, 0xC6, 0x87, 0x10, 0x00, 0x00, 0x00, 0x01]"

definition stub_mem :: mem where
  "stub_mem = put 0x400100 stub_bytes ram"

definition stub_hook :: midi2i_hook where
  "stub_hook = demo_hook 0x401000 0"

definition stub_hooked :: mem where
  "stub_hooked = put 0x400100 (jmp_bytes 0x400100 0x401000) (put (0x401000 + 8)
     (assembly 0x401000 (effective_resume stub_hook) 0x500000)
     (put 0x401000 stub_bytes (map_pages (demo_os 0x401000) 0x401000 total_size stub_mem)))"

definition stub_cpu :: "mem \<Rightarrow> cpu" where
  "stub_cpu m = \<lparr>regs = (\<lambda>_. 0)(RSP := 0x800000, RBP := 0x800100, R15 := 0x900000), ip = 0x400100,
     zf = False, xmm = (\<lambda>_. 0), cmem = m\<rparr>"

lemma stub_load: "load_bytes stub_mem 0x400100 HOOK_SIZE = Some stub_bytes"
proof -
  have "length stub_bytes = 8" by (simp add: stub_bytes_def)
  then show ?thesis using load_bytes_put_same [of stub_bytes "0x400100" ram] by (simp add: stub_mem_def HOOK_SIZE_def)
qed

lemma stub_match: "match_pattern stub_mem 0x400100 pattern_fallback = Some True"
  by (simp add: pattern_fallback_def stub_mem_def stub_bytes_def put_def)

lemma stub_room: "room_for (demo_os 0x401000) stub_mem 0x400100 0x401000"
  by (simp add: room_for_def demo_os_def demo_total layout_consts apart_def stub_mem_def)

lemma stub_ctor: "midi2i_hook_ctor (demo_os 0x401000) (demo_jvm demo_maps) stub_mem 0x400100 0x500000 0 = Some (stub_hook, stub_hooked)"
proof -
  have "stub_hook = \<lparr>mh_target = 0x400100, mh_allocated = 0x401000, mh_allocated_size = total_size,
      mh_current_chain_resume = ctor_chain_resume 0, mh_error = False\<rparr>"
    by (simp add: stub_hook_def demo_hook_def ctor_chain_resume_def)
  from midi2i_hook_ctor_ok [OF demo_alloc _ stub_room stub_load this] show ?thesis by (simp add: stub_hooked_def)
qed

lemma stub_in_place: "in_place stub_hooked stub_hook stub_bytes 0x500000"
proof -
  have f: "fresh_pages (demo_os 0x401000) stub_mem 0x400100"
    using stub_room by (auto simp: fresh_pages_def demo_os_def split: if_splits)
  have "in_place stub_hooked stub_hook stub_bytes 0x500000 \<and> mh_target stub_hook = 0x400100"
    by (rule ctor_in_place [OF _ demo_honours f _ _ _ stub_load stub_ctor])
      (simp_all add: minimum_application_address_def user_address_ceiling_def demo_os_def stub_hook_def demo_hook_def)
  then show ?thesis by simp
qed

lemma stub_mapped: "mapped stub_hooked a n"
  by (simp add: stub_hooked_def stub_mem_def map_pages_def)

lemma stub_runs: "room_to_run stub_hook stub_bytes (stub_cpu stub_hooked)"
proof -
  have d: "displaced_addr stub_bytes (stub_cpu m) = 0x900010" for m
    by (simp add: displaced_addr_def stub_bytes_def stub_cpu_def)
  have "stub_hooked 0x900010 \<noteq> None" using stub_mapped [of "0x900010" 1] by (simp add: mapped_Suc)
  then show ?thesis unfolding room_to_run_def d
    by (simp add: stub_cpu_def stub_mapped stack_window_def clear_below_def apart_def trampoline_size_def layout_consts
        stub_hook_def demo_hook_def)
qed

text \<open>The two simplest detours: one that returns at once, and one that writes the value 42 into the return
  slot and cancels.\<close>

definition plain_return :: "cpu \<Rightarrow> cpu" where
  "plain_return e = e\<lparr>ip := 0x401030, regs := (regs e)(RSP := regs e RSP + 8)\<rparr>"

definition cancelling_return :: "cpu \<Rightarrow> cpu" where
  "cancelling_return e = (plain_return e)\<lparr>cmem := put (return_slot_of (stub_cpu stub_hooked)) (le_of_word 8 (1 :: u64) @ le_of_word 8 (42 :: u64)) (cmem e)\<rparr>"

lemma stub_start: "ip (stub_cpu m) = mh_target stub_hook" "in_place (cmem (stub_cpu stub_hooked)) stub_hook stub_bytes 0x500000"
  using stub_in_place by (simp_all add: stub_cpu_def stub_hook_def demo_hook_def)

lemma stub_slot: "slot_addr sysv_saved (stub_cpu m) = 0x7FFFA0" "slot_addr sysv_saved (displaced_done h b (stub_cpu m)) = 0x7FFFA0"
  by (simp_all add: slot_addr_def sysv_saved_def stub_cpu_def displaced_done_def)

lemma stub_entered:
  obtains e where "run 20 (stub_cpu stub_hooked) = Some e"
    and "entered sysv_saved RDI RSI RDX 0 0x500000 0x401030 (displaced_done stub_hook stub_bytes (stub_cpu stub_hooked)) e"
  using run_to_detour [OF stub_start(2) stub_start(1) stub_runs displaced_encodes [OF stub_match stub_load]]
  by (auto simp: stub_bytes_def stub_hook_def demo_hook_def)

lemma zero_cell: "load64 m a = Some 0 \<Longrightarrow> m a = Some 0"
proof -
  assume l: "load64 m a = Some 0"
  then obtain bs where bs: "load_bytes m a 8 = Some bs" "word_of_le bs = (0 :: u64)" by (auto simp: load_le_def)
  then have "length bs = 8" by (auto dest: load_bytes_length)
  then have "bs = le_of_word 8 (0 :: u64)" using le_of_word_of_le [of bs, where 'a = 64] bs(2) by simp
  with bs(1) show ?thesis using load_bytes_nth [OF bs(1), of 0] by (simp add: nth_Cons' numeral_eq_Suc)
qed

lemma stub_code: "code_at (cmem (stub_cpu stub_mem)) (ip (stub_cpu stub_mem)) stub_bytes"
proof -
  have "length stub_bytes = 8" by (simp add: stub_bytes_def)
  then show ?thesis using stub_load by (simp add: code_at_def stub_cpu_def HOOK_SIZE_def)
qed

lemma stub_unpatched: "\<exists>u. run 1 (stub_cpu stub_mem) = Some u \<and> ip u = 0x400108"
proof -
  have "stub_mem 0x900010 \<noteq> None" by (simp add: stub_mem_def put_def ram_def)
  then show ?thesis unfolding run_1 step_code [OF displaced_encodes [OF stub_match stub_load] stub_code]
    by (auto simp: address_def stub_bytes_def stub_cpu_def)
qed

lemma stub_returns:
  assumes "entered sysv_saved RDI RSI RDX 0 0x500000 0x401030 (displaced_done stub_hook stub_bytes (stub_cpu stub_hooked)) e"
  shows "sysv_returns stub_hook (stub_cpu stub_hooked) e (plain_return e)" and "cmem e 0x7FFFA0 = Some 0"
proof -
  show "cmem e 0x7FFFA0 = Some 0" using assms zero_cell by (simp add: entered_def stub_slot)
  show "sysv_returns stub_hook (stub_cpu stub_hooked) e (plain_return e)"
    using assms by (simp add: sysv_returns_def well_behaved_def returned_def entered_def plain_return_def sysv_callee_saved_def)
qed

lemma put_two:
  assumes "length xs = 8" and "length ys = 8"
  shows "load_bytes (put a (xs @ ys) m) a 8 = Some xs" and "load_bytes (put a (xs @ ys) m) (a + 8) 8 = Some ys"
  using load_bytes_put_inner [of 0 8 "xs @ ys" a m] load_bytes_put_inner [of 8 8 "xs @ ys" a m] assms by simp_all

lemma stub_cancels:
  assumes e: "entered sysv_saved RDI RSI RDX 0 0x500000 0x401030 (displaced_done stub_hook stub_bytes (stub_cpu stub_hooked)) e"
  shows "sysv_returns stub_hook (stub_cpu stub_hooked) e (cancelling_return e)"
    and "cmem (cancelling_return e) 0x7FFFA0 = Some 1" and "load64 (cmem (cancelling_return e)) 0x7FFFA8 = Some 42"
    and "a \<in> {0x8000F8, 0x800100, 0x800108} \<Longrightarrow> \<exists>v. load64 (cmem (cancelling_return e)) a = Some v"
proof -
  let ?bs = "le_of_word 8 (1 :: u64) @ le_of_word 8 (42 :: u64)"
  have m: "cmem (cancelling_return e) = put 0x7FFFA0 ?bs (cmem e)"
    by (simp add: cancelling_return_def return_slot_of_def stub_slot)
  have "load64 (put 0x7FFFA0 ?bs (cmem e)) (0x7FFFA0 + 16 + of_nat (8 * i)) = load64 (cmem e) (0x7FFFA0 + 16 + of_nat (8 * i))"
    if "i \<le> 9" for i
  proof -
    have ap: "apart (0x800000 - of_nat (80 + 16)) 16 (0x800000 - of_nat (72 - 8 * i + 8)) 8"
      by (rule below_apart) (use that in simp_all)
    have eq: "(0x800000 :: addr) - of_nat (72 - 8 * i + 8) = 0x7FFFA0 + 16 + of_nat (8 * i)"
      using that by (simp add: of_nat_diff)
    show ?thesis by (rule load_put_apart) (use ap [unfolded eq] in simp)
  qed
  moreover have "load_bytes (put 0x7FFFA0 ?bs (cmem e)) 0x401008 129 = load_bytes (cmem e) 0x401008 129"
    by (rule load_bytes_put_apart) (simp add: apart_def)
  ultimately show "sysv_returns stub_hook (stub_cpu stub_hooked) e (cancelling_return e)"
    using stub_returns(1) [OF e] unfolding sysv_returns_def well_behaved_def stub_slot m
    by (simp add: returned_def cancelling_return_def stub_hook_def demo_hook_def HOOK_SIZE_def sysv_saved_def)
  obtain M where M: "M = put 0x7FFFA0 ?bs (cmem e)" by blast
  have l: "load_bytes M 0x7FFFA0 8 = Some (le_of_word 8 (1 :: u64))" "load_bytes M 0x7FFFA8 8 = Some (le_of_word 8 (42 :: u64))"
    using put_two [of "le_of_word 8 (1 :: u64)" "le_of_word 8 (42 :: u64)" "0x7FFFA0" "cmem e"] by (simp_all add: M)
  have "le_of_word 8 (1 :: u64) ! 0 = 1" by (simp add: numeral_eq_Suc)
  with load_bytes_nth [OF l(1), of 0] show "cmem (cancelling_return e) 0x7FFFA0 = Some 1" unfolding m M [symmetric] by simp
  show "load64 (cmem (cancelling_return e)) 0x7FFFA8 = Some 42"
    unfolding m M [symmetric] load_le_def l(2) by (simp add: word_of_le_of_word)
  assume a: "a \<in> {0x8000F8, 0x800100, 0x800108}"
  then have "apart 0x7FFFA0 (length ?bs) a 8" and "clear_below (regs (stub_cpu stub_hooked) RSP) stack_window a 8"
    by (auto simp: apart_def clear_below_def stub_cpu_def stack_window_def)
  moreover from this(2) have "load_bytes (cmem e) a 8 = load_bytes (cmem (displaced_done stub_hook stub_bytes (stub_cpu stub_hooked))) a 8"
    using e unfolding entered_def by (simp add: displaced_done_def)
  ultimately have "load64 (cmem (cancelling_return e)) a = load64 (cmem (displaced_done stub_hook stub_bytes (stub_cpu stub_hooked))) a"
    unfolding m load_put_apart [OF \<open>apart 0x7FFFA0 (length ?bs) a 8\<close>] by (simp add: load_le_def)
  moreover have "mapped (cmem (displaced_done stub_hook stub_bytes (stub_cpu stub_hooked))) a 8"
    using stub_mapped by (simp add: displaced_done_def stub_cpu_def)
  ultimately show "\<exists>v. load64 (cmem (cancelling_return e)) a = Some v" using load_le_mapped by metis
qed

section \<open>Properties\<close>

lemma after_sysv_detour:
  assumes p: "in_place (cmem s) h saved detour" and ip: "ip s = mh_target h" and r: "room_to_run h saved s"
    and en: "encodes (Mov_byte (Mem R15 (scast (word_of_le (take 4 (drop 3 saved)) :: u32))) (saved ! 7)) saved"
    and len: "length saved = 8" and run: "run 20 s = Some e" and t: "sysv_returns h s e t"
  defines "s' \<equiv> displaced_done h saved s" and "rel \<equiv> rel32 (mh_target h + of_nat HOOK_SIZE) (resume_next (mh_allocated h))"
  shows "code_at (cmem s') (ip s') (trampoline_layout sysv_saved sysv_args [] rel detour)"
    and "clear_below (regs s' RSP) stack_window (ip s') (length (trampoline_layout sysv_saved sysv_args [] rel detour))"
    and "entered sysv_saved RDI RSI RDX 0 detour (ip s' + sysv.after_call) s' e"
    and "well_behaved sysv_saved sysv_callee_saved (ip s') (length (trampoline_layout sysv_saved sysv_args [] rel detour)) s' e t"
    and "slot_addr sysv_saved s' = return_slot_of s"
proof -
  have ips: "ip s' = mh_allocated h + of_nat HOOK_SIZE" by (simp add: s'_def displaced_done_def)
  have slot: "slot_addr sysv_saved s' = slot_addr sysv_saved s" unfolding s'_def by (rule displaced_room [OF r])
  then show "slot_addr sysv_saved s' = return_slot_of s" by (simp add: return_slot_of_def)
  show "code_at (cmem s') (ip s') (trampoline_layout sysv_saved sysv_args [] rel detour)"
    using run_to_trampoline(2) [OF p ip r en len] unfolding sysv_code ips rel_def by (simp add: s'_def)
  show "clear_below (regs s' RSP) stack_window (ip s') (length (trampoline_layout sysv_saved sysv_args [] rel detour))"
    using displaced_room(2) [OF r] by (simp add: sysv_layout_length s'_def)
  have "ip s' + sysv.after_call = mh_allocated h + 48" by (simp add: ips sysv_after_call HOOK_SIZE_def)
  with run_to_detour [OF p ip r en len] run
  show "entered sysv_saved RDI RSI RDX 0 detour (ip s' + sysv.after_call) s' e" by (simp add: s'_def)
  show "well_behaved sysv_saved sysv_callee_saved (ip s') (length (trampoline_layout sysv_saved sysv_args [] rel detour)) s' e t"
    using t unfolding sysv_returns_def well_behaved_def slot ips sysv_layout_length by simp
qed

text \<open>Running a hooked stub from its injection point: the patched jump, the displaced instruction and
  eighteen instructions of the trampoline lead to the first instruction of the detour, with the
  interpreter's frame in RDI, the thread in RSI and a zeroed return slot in RDX, the stack aligned as the
  System V convention asks, and every write of the displaced instruction already done.\<close>

theorem hooked_stub_calls_detour:
  assumes "match_pattern m a pattern_fallback = Some True" and "load_bytes m a HOOK_SIZE = Some saved"
    and "in_place (cmem s) h saved detour" and "ip s = mh_target h" and "room_to_run h saved s"
  shows "\<exists>e. run 20 s = Some e \<and> ip e = detour
     \<and> regs e RDI = regs s RBP \<and> regs e RSI = regs s R15 \<and> regs e RDX = return_slot_of s
     \<and> load64 (cmem e) (return_slot_of s) = Some 0 \<and> load64 (cmem e) (return_slot_of s + 8) = Some 0
     \<and> (regs e RSP + 8) AND 15 = 0
     \<and> (\<forall>b k. 0 < k \<and> clear_below (regs s RSP) stack_window b k \<longrightarrow>
          load_bytes (cmem e) b k = load_bytes (put (displaced_addr saved s) [saved ! 7] (cmem s)) b k)"
proof -
  have len: "length saved = 8" using assms(2) by (auto dest: load_bytes_length simp: layout_consts)
  obtain e where e: "run 20 s = Some e"
    "entered sysv_saved RDI RSI RDX 0 detour (mh_allocated h + 48) (displaced_done h saved s) e"
    using run_to_detour [OF assms(3-5) displaced_encodes [OF assms(1,2)] len] by blast
  have slot: "slot_addr sysv_saved (displaced_done h saved s) = return_slot_of s"
    unfolding return_slot_of_def by (rule displaced_room [OF assms(5)])
  have "regs e RDI = regs s RBP" "regs e RSI = regs s R15" "regs e RDX = return_slot_of s" "ip e = detour"
    "load64 (cmem e) (return_slot_of s) = Some 0" "load64 (cmem e) (return_slot_of s + 8) = Some 0"
    "\<And>b k. 0 < k \<Longrightarrow> clear_below (regs s RSP) stack_window b k \<Longrightarrow>
       load_bytes (cmem e) b k = load_bytes (put (displaced_addr saved s) [saved ! 7] (cmem s)) b k"
    using e(2) unfolding entered_def slot by (simp_all add: displaced_done_def)
  with e(1) sysv.call_is_aligned [OF e(2)] show ?thesis by blast
qed

lemma hooked_stub_calls_detour_witness:
  "\<exists>e. midi2i_hook_ctor (demo_os 0x401000) (demo_jvm demo_maps) stub_mem 0x400100 0x500000 0 = Some (stub_hook, stub_hooked)
     \<and> run 20 (stub_cpu stub_hooked) = Some e \<and> ip e = 0x500000 \<and> regs e RDI = 0x800100 \<and> regs e RSI = 0x900000"
proof -
  have "ip (stub_cpu stub_hooked) = mh_target stub_hook" by (simp add: stub_cpu_def stub_hook_def demo_hook_def)
  moreover have "in_place (cmem (stub_cpu stub_hooked)) stub_hook stub_bytes 0x500000" by (simp add: stub_cpu_def stub_in_place)
  ultimately show ?thesis
    using hooked_stub_calls_detour [OF stub_match stub_load _ _ stub_runs, of "0x500000"] stub_ctor by (auto simp: stub_cpu_def)
qed

text \<open>C2. A hook whose detour does not cancel is invisible to the interpreter: running the hooked stub
  around the detour ends at the instruction and with the sixteen registers that the one displaced
  instruction of the unpatched stub leads to, and with the memory the detour left.\<close>

theorem uncancelled_hook_is_transparent:
  assumes "match_pattern m a pattern_fallback = Some True" and "load_bytes m a HOOK_SIZE = Some saved"
    and "in_place (cmem s) h saved detour" and "ip s = mh_target h" and "room_to_run h saved s"
    and "run 20 s = Some e" and "sysv_returns h s e t" and "cmem t (return_slot_of s) = Some 0"
    and "regs s0 = regs s" and "ip s0 = ip s" and "code_at (cmem s0) (ip s0) saved" and "run 1 s0 = Some u0"
  shows "\<exists>u. run 15 t = Some u \<and> ip u = ip u0 \<and> regs u = regs u0 \<and> cmem u = cmem t \<and> xmm u = xmm t"
proof -
  have len: "length saved = 8" using assms(2) by (auto dest: load_bytes_length simp: layout_consts)
  note en = displaced_encodes [OF assms(1,2)]
  note f = after_sysv_detour [OF assms(3-5) en len assms(6,7)]
  have flag: "cmem t (slot_addr sysv_saved (displaced_done h saved s)) = Some 0" using assms(8) by (simp only: f(5))
  obtain v where v: "run 15 t = Some v" "regs v = regs (displaced_done h saved s)" "cmem v = cmem t" "xmm v = xmm t"
    "ip v = mh_allocated h + of_nat HOOK_SIZE + 121 + scast (rel32 (mh_target h + of_nat HOOK_SIZE) (resume_next (mh_allocated h)))"
    using sysv.uncancelled [OF f(1-4) flag] unfolding sysv_steps sysv_layout_length
    by (auto simp: displaced_done_def)
  have "mh_allocated h + of_nat HOOK_SIZE + 121 = resume_next (mh_allocated h)"
    by (simp add: resume_next_def layout_consts)
  then have "ip v = mh_target h + of_nat HOOK_SIZE"
    using near_rel32 [of "resume_next (mh_allocated h)"] assms(3) v(5) by (simp add: in_place_def)
  moreover have "ip u0 = mh_target h + of_nat HOOK_SIZE \<and> regs u0 = regs s"
    using assms(4,9-12) step_code [OF en, of s0] len unfolding run_1
    by (auto simp: address_def HOOK_SIZE_def simp del: store_bytes.simps split: bind_splits)
  ultimately show ?thesis using v by (simp add: displaced_done_def)
qed

lemma uncancelled_hook_is_transparent_witness:
  "\<exists>e u. run 20 (stub_cpu stub_hooked) = Some e \<and> run 15 (plain_return e) = Some u
     \<and> ip u = 0x400108 \<and> regs u = regs (stub_cpu stub_hooked)"
proof -
  obtain e where e: "run 20 (stub_cpu stub_hooked) = Some e"
    "entered sysv_saved RDI RSI RDX 0 0x500000 0x401030 (displaced_done stub_hook stub_bytes (stub_cpu stub_hooked)) e"
    by (rule stub_entered)
  obtain u0 where u0: "run 1 (stub_cpu stub_mem) = Some u0" "ip u0 = 0x400108" using stub_unpatched by blast
  note r = stub_returns [OF e(2)]
  have flag: "cmem (plain_return e) (return_slot_of (stub_cpu stub_hooked)) = Some 0"
    using r(2) by (simp add: return_slot_of_def stub_slot plain_return_def)
  have "regs (stub_cpu stub_mem) = regs (stub_cpu stub_hooked)" "ip (stub_cpu stub_mem) = ip (stub_cpu stub_hooked)"
    by (simp_all add: stub_cpu_def)
  note tr = uncancelled_hook_is_transparent [OF stub_match stub_load stub_start(2) stub_start(1) stub_runs e(1) r(1) flag this stub_code u0(1)]
  have "regs u0 = regs (stub_cpu stub_mem)"
    using u0(1) step_code [OF displaced_encodes [OF stub_match stub_load] stub_code] unfolding run_1
    by (auto simp: address_def simp del: store_bytes.simps split: bind_splits)
  with e tr u0(2) show ?thesis by (auto simp: stub_cpu_def)
qed

text \<open>A detour that cancels ends the call: the trampoline leaves the interpreter's frame exactly as the
  interpreter's own return does, to the return address above the frame pointer, with the caller's frame
  pointer and the sender's stack pointer, and the value of the return slot in RAX and XMM0.\<close>

theorem cancelled_hook_leaves_the_frame:
  assumes "match_pattern m a pattern_fallback = Some True" and "load_bytes m a HOOK_SIZE = Some saved"
    and "in_place (cmem s) h saved detour" and "ip s = mh_target h" and "room_to_run h saved s"
    and "run 20 s = Some e" and "sysv_returns h s e t"
    and "cmem t (return_slot_of s) = Some flag" and "flag \<noteq> 0" and "load64 (cmem t) (return_slot_of s + 8) = Some retval"
    and "load64 (cmem t) (regs s RBP - 8) = Some sender_sp" and "load64 (cmem t) (regs s RBP) = Some caller_fp"
    and "load64 (cmem t) (regs s RBP + 8) = Some return_pc"
  shows "\<exists>u. run 22 t = Some u \<and> ip u = return_pc \<and> regs u RSP = sender_sp \<and> regs u RBP = caller_fp
     \<and> regs u RAX = retval \<and> xmm u 0 = ucast retval \<and> cmem u = cmem t
     \<and> (\<forall>r. r \<notin> {RAX, RBX, RSI, RBP, RSP} \<longrightarrow> regs u r = regs s r)"
proof -
  have len: "length saved = 8" using assms(2) by (auto dest: load_bytes_length simp: layout_consts)
  note f = after_sysv_detour [OF assms(3-5) displaced_encodes [OF assms(1,2)] len assms(6,7)]
  have regs: "regs (displaced_done h saved s) = regs s" by (simp add: displaced_done_def)
  obtain v where "run 22 t = Some v" "ip v = return_pc" "cmem v = cmem t" "xmm v = (xmm t)(0 := ucast retval)"
    "regs v = (regs s)(RAX := retval, RBX := sender_sp, RSI := return_pc, RBP := caller_fp, RSP := sender_sp)"
    using sysv.cancelled [OF f(1-4), unfolded f(5) regs, OF assms(8-13)] unfolding sysv_steps by blast
  then show ?thesis by simp
qed

lemma cancelled_hook_leaves_the_frame_witness:
  "\<exists>e u. run 20 (stub_cpu stub_hooked) = Some e \<and> run 22 (cancelling_return e) = Some u \<and> regs u RAX = 42 \<and> xmm u 0 = 42"
proof -
  let ?s = "stub_cpu stub_hooked"
  obtain e where e: "run 20 ?s = Some e"
    "entered sysv_saved RDI RSI RDX 0 0x500000 0x401030 (displaced_done stub_hook stub_bytes ?s) e"
    by (rule stub_entered)
  note c = stub_cancels [OF e(2)]
  have r: "return_slot_of ?s = 0x7FFFA0" "regs ?s RBP = 0x800100" by (simp_all add: return_slot_of_def stub_slot) (simp add: stub_cpu_def)
  have f: "cmem (cancelling_return e) (return_slot_of ?s) = Some 1" "(1 :: u8) \<noteq> 0"
    "load64 (cmem (cancelling_return e)) (return_slot_of ?s + 8) = Some 42" using c(2,3) r by simp_all
  obtain sp fp pc where "load64 (cmem (cancelling_return e)) (regs ?s RBP - 8) = Some sp"
    "load64 (cmem (cancelling_return e)) (regs ?s RBP) = Some fp" "load64 (cmem (cancelling_return e)) (regs ?s RBP + 8) = Some pc"
    using c(4) [of "0x8000F8"] c(4) [of "0x800100"] c(4) [of "0x800108"] r by auto
  from cancelled_hook_leaves_the_frame [OF stub_match stub_load stub_start(2) stub_start(1) stub_runs e(1) c(1) f this] e(1)
  show ?thesis by auto
qed

text \<open>The Windows trampoline in the same terms.\<close>

lemma windows_layout_length: "length (trampoline_layout ms_saved ms_args ms_shadow rel detour) = 128" "length windows_template = 128"
  by (simp_all add: trampoline_layout_def enter_code_def test_code_def cancel_code_def resume_code_def windows_template_def
      pushes_def pops_def push_code_def pop_code_def ms_saved_def ms_args_def ms_shadow_def)

lemma windows_steps: "ms.enter_steps = 17" "ms.resume_steps = 13" "ms.cancel_steps = 20"
  unfolding ms.enter_steps_def ms.resume_steps_def ms.cancel_steps_def by (simp_all add: ms_saved_def)

lemma windows_after_call: "ms.after_call = 43"
  unfolding ms.after_call_def by (simp add: enter_code_def pushes_def push_code_def ms_saved_def ms_args_def ms_shadow_def)

lemma windows_enters:
  assumes "code_at (cmem s) (ip s) (windows_assembly (ip s - of_nat HOOK_SIZE) resume detour)"
    and "mapped (cmem s) (regs s RSP - of_nat stack_window) stack_window"
    and "clear_below (regs s RSP) stack_window (ip s) (length windows_template)"
  shows "\<exists>e. run 17 s = Some e \<and> entered ms_saved RCX RDX R8 32 detour (ip s + 43) s e"
  using ms.run_enters [OF assms(1) [unfolded windows_code] assms(2)] assms(3)
  unfolding windows_steps windows_after_call windows_layout_length by blast

text \<open>C7. The Windows branch: run from the first push, the trampoline calls the detour with the frame in RCX,
  the thread in RDX and the zeroed slot in R8, above 32 bytes of shadow space on an aligned stack; when the
  detour returns by the Microsoft convention, it resumes with all sixteen registers unchanged if the detour
  did not cancel, and otherwise leaves the interpreter's frame with the slot's value in RAX and XMM0.\<close>

theorem windows_trampoline_runs:
  assumes "code_at (cmem s) (ip s) (windows_assembly (ip s - of_nat HOOK_SIZE) resume detour)"
    and "near (windows_resume_next (ip s - of_nat HOOK_SIZE)) resume"
    and "mapped (cmem s) (regs s RSP - of_nat stack_window) stack_window"
    and "clear_below (regs s RSP) stack_window (ip s) (length windows_template)"
    and "run 17 s = Some e" and "well_behaved ms_saved ms_callee_saved (ip s) (length windows_template) s e t"
    and "cmem t (slot_addr ms_saved s) = Some flag" and "load64 (cmem t) (slot_addr ms_saved s + 8) = Some retval"
    and "load64 (cmem t) (regs s RBP - 8) = Some sender_sp" and "load64 (cmem t) (regs s RBP) = Some caller_fp"
    and "load64 (cmem t) (regs s RBP + 8) = Some return_pc"
  shows "ip e = detour \<and> regs e RCX = regs s RBP \<and> regs e RDX = regs s R15 \<and> regs e R8 = slot_addr ms_saved s
     \<and> load64 (cmem e) (slot_addr ms_saved s) = Some 0 \<and> (regs e RSP + 8) AND 15 = 0
     \<and> regs e RSP + 8 + 32 = slot_addr ms_saved s AND - 16
     \<and> (if flag = 0 then \<exists>u. run 13 t = Some u \<and> ip u = resume \<and> regs u = regs s \<and> cmem u = cmem t
        else \<exists>u. run 20 t = Some u \<and> ip u = return_pc \<and> regs u RSP = sender_sp \<and> regs u RBP = caller_fp
               \<and> regs u RAX = retval \<and> xmm u 0 = ucast retval \<and> cmem u = cmem t)"
proof -
  let ?rel = "rel32 resume (windows_resume_next (ip s - of_nat HOOK_SIZE))" and ?slot = "slot_addr ms_saved s"
  note c = assms(1) [unfolded windows_code]
  have u: "clear_below (regs s RSP) stack_window (ip s) (length (trampoline_layout ms_saved ms_args ms_shadow ?rel detour))"
    using assms(4) by (simp only: windows_layout_length)
  have e: "entered ms_saved RCX RDX R8 32 detour (ip s + ms.after_call) s e"
    using windows_enters [OF assms(1,3,4)] assms(5) by (simp add: windows_after_call)
  have t: "well_behaved ms_saved ms_callee_saved (ip s) (length (trampoline_layout ms_saved ms_args ms_shadow ?rel detour)) s e t"
    using assms(6) by (simp only: windows_layout_length)
  have "ip s + 120 = windows_resume_next (ip s - of_nat HOOK_SIZE)"
    by (simp add: windows_resume_next_def layout_consts WIN_RESUME_JMP_OFFSET_def)
  then have to: "ip s + of_nat (128 - 8) + scast ?rel = resume" using near_rel32 [OF assms(2)] by simp
  have "\<exists>u. run 13 t = Some u \<and> ip u = resume \<and> regs u = regs s \<and> cmem u = cmem t" if "flag = 0"
    using ms.uncancelled [OF c u e t] assms(7) that to unfolding windows_steps windows_layout_length by auto
  moreover have "\<exists>u. run 20 t = Some u \<and> ip u = return_pc \<and> regs u RSP = sender_sp \<and> regs u RBP = caller_fp
      \<and> regs u RAX = retval \<and> xmm u 0 = ucast retval \<and> cmem u = cmem t" if "flag \<noteq> 0"
    using ms.cancelled [OF c u e t assms(7) that assms(8-11)] unfolding windows_steps by auto
  moreover have "regs e RCX = regs s RBP" "regs e RDX = regs s R15" "regs e R8 = ?slot" "ip e = detour"
    "load64 (cmem e) ?slot = Some 0" "regs e RSP + 8 + 32 = ?slot AND - 16"
    using e by (simp_all add: entered_def call_sp_def)
  ultimately show ?thesis using ms.call_is_aligned [OF e] by simp
qed

text \<open>The Windows trampoline of a hook at 0x400100, entered behind the displaced instruction.\<close>

definition windows_cpu :: cpu where
  "windows_cpu = (stub_cpu (put 0x401008 (windows_assembly 0x401000 0x400108 0x500000) ram))\<lparr>ip := 0x401008\<rparr>"

lemma windows_trampoline_runs_witness:
  "\<exists>e u. run 17 windows_cpu = Some e \<and> ip e = 0x500000 \<and> regs e RCX = 0x800100
     \<and> run 13 (e\<lparr>ip := 0x401033, regs := (regs e)(RSP := regs e RSP + 8)\<rparr>) = Some u
     \<and> ip u = 0x400108 \<and> regs u = regs windows_cpu"
proof -
  let ?s = windows_cpu
  have i: "ip ?s = 0x401008" "regs ?s = regs (stub_cpu ram)" "regs ?s RSP = 0x800000" "regs ?s RBP = 0x800100"
    "slot_addr ms_saved ?s = 0x7FFFB0"
    by (simp_all add: windows_cpu_def stub_cpu_def slot_addr_def ms_saved_def)
  have len: "length (windows_assembly 0x401000 0x400108 0x500000) = 128" by (simp add: windows_code windows_layout_length)
  then have c: "code_at (cmem ?s) (ip ?s) (windows_assembly (ip ?s - of_nat HOOK_SIZE) 0x400108 0x500000)"
    using load_bytes_put_same [of "windows_assembly 0x401000 0x400108 0x500000" "0x401008" ram]
    by (simp add: code_at_def windows_cpu_def stub_cpu_def HOOK_SIZE_def)
  have n: "near (windows_resume_next (ip ?s - of_nat HOOK_SIZE)) 0x400108"
    by (simp add: i near_def windows_resume_next_def WIN_RESUME_JMP_OFFSET_def layout_consts)
  have m: "mapped (cmem ?s) a k" for a k by (simp add: windows_cpu_def stub_cpu_def)
  have u: "clear_below (regs ?s RSP) stack_window (ip ?s) (length windows_template)"
    unfolding i(1,3) by (simp add: windows_layout_length clear_below_def apart_def stack_window_def)
  obtain e where e: "run 17 ?s = Some e" "entered ms_saved RCX RDX R8 32 0x500000 (ip ?s + 43) ?s e"
    using windows_enters [OF c m u] by blast
  let ?t = "e\<lparr>ip := 0x401033, regs := (regs e)(RSP := regs e RSP + 8)\<rparr>"
  have wb: "well_behaved ms_saved ms_callee_saved (ip ?s) (length windows_template) ?s e ?t"
    using e(2) by (simp add: well_behaved_def returned_def entered_def i ms_callee_saved_def)
  have slot: "load64 (cmem ?t) 0x7FFFB0 = Some 0" "load64 (cmem ?t) (0x7FFFB0 + 8) = Some 0"
    using e(2) unfolding entered_def i(5) by simp_all
  have l: "\<exists>v. load64 (cmem ?t) a = Some v" if "clear_below 0x800000 stack_window a 8" for a
  proof -
    have "load_bytes (cmem e) a 8 = load_bytes (cmem ?s) a 8" using e(2) that unfolding entered_def i(3) by simp
    then show ?thesis using load_le_mapped [OF m [of a 8]] by (simp add: load_le_def)
  qed
  obtain x y z where f: "load64 (cmem ?t) (regs ?s RBP - 8) = Some x" "load64 (cmem ?t) (regs ?s RBP) = Some y"
    "load64 (cmem ?t) (regs ?s RBP + 8) = Some z"
    using l [of "0x8000F8"] l [of "0x800100"] l [of "0x800108"]
    unfolding i(4) by (auto simp: clear_below_def apart_def stack_window_def)
  have "cmem ?t (slot_addr ms_saved ?s) = Some 0" "load64 (cmem ?t) (slot_addr ms_saved ?s + 8) = Some 0"
    unfolding i(5) using zero_cell [OF slot(1)] slot(2) .
  from windows_trampoline_runs [OF c n m u e(1) wb this f] e(1) i(4) show ?thesis by auto
qed

end
