(* ===== verification/Machine_Path.thy ===== *)
theory Machine_Path
  imports Hook_Path Trampoline_Runs
begin

text \<open>
  From the machine code to the user's detour. \<open>Hook_Path\<close> says what a successful \<open>hook\<close> writes and whom
  \<open>common_detour\<close> calls, \<open>Trampoline_Runs\<close> what the processor does with the emitted bytes; here both
  meet: the processor that reaches the hooked stub enters \<open>common_detour\<close> with the arguments on which the
  registry finds the user's detour.
\<close>

text \<open>The call of \<open>common_detour\<close> in the machine: its parameters are the first three arguments of the
  System V convention, the memory of the process is the machine's.\<close>

definition machine_detour :: "env \<Rightarrow> detours \<Rightarrow> vmhook \<Rightarrow> cpu \<Rightarrow> (nat option \<times> vmhook) option" where
  "machine_detour E user vs e = common_detour E user (regs e RDI) (regs e RSI) (regs e RDX) (vs\<lparr>vh_mem := cmem e\<rparr>)"

text \<open>The interpreter's frame and thread at the injection point: R15 holds a thread, the frame that RBP
  points to belongs to the method, and its method word is neither in the trampoline's stack nor the byte
  that the displaced instruction writes.\<close>

definition interpreter_at :: "addr \<Rightarrow> u8 list \<Rightarrow> cpu \<Rightarrow> bool" where
  "interpreter_at mth saved c \<longleftrightarrow> is_valid_pointer (regs c R15)
     \<and> frame_get_method (cmem c) (regs c RBP) = Some mth
     \<and> clear_below (regs c RSP) stack_window (regs c RBP - 24) 8
     \<and> apart (displaced_addr saved c) 1 (regs c RBP - 24) 8"

lemma patchable_in_place:
  assumes "patchable E m target saved" and "midi2i_hook_ctor (en_os E) J m target detour 0 = Some (h, m')" and "\<not> mh_error h"
  shows "in_place m' h saved detour \<and> mh_target h = target"
  by (rule ctor_in_place [OF _ _ _ _ _ _ _ assms(2,3)]) (use assms(1) in \<open>simp_all add: patchable_def\<close>)


text \<open>In the process of \<open>Hook_Lifecycle\<close>: the interpreter is about to run the hooked method in the frame
  at 0x80000 on the thread at 0x90000.\<close>

definition life_bytes :: "u8 list" where
  "life_bytes = [0x41, 0xC6, 0x87, 1, 2, 3, 4, 5]"

definition life_cpu :: "mem \<Rightarrow> cpu" where
  "life_cpu m = \<lparr>regs = (\<lambda>_. 0)(RSP := 0x7FF00, RBP := 0x80000, R15 := 0x90000), ip = 0x60000,
     zf = False, xmm = (\<lambda>_. 0), cmem = m\<rparr>"

lemma life_bytes_load: "load_bytes (reg_marked life_mem) 0x60000 HOOK_SIZE = Some life_bytes"
proof -
  have "le_of_word 8 (0x050403020187C641 :: u64) = life_bytes" unfolding life_bytes_def by code_simp
  moreover have "length life_bytes = 8" by (simp add: life_bytes_def)
  ultimately have b: "load_bytes life_mem 0x60000 8 = Some life_bytes"
    using load_bytes_put_same [of "le_of_word 8 (0x050403020187C641 :: u64)" "0x60000"]
    by (simp add: life_mem_def load_bytes_put_apart apart_def)
  then show ?thesis by (simp add: reg_marked_def load_bytes_put_apart apart_def HOOK_SIZE_def)
qed


end
