(* ===== verification/Os_Platforms.thy ===== *)
theory Os_Platforms
  imports Code_Scan Vm_Tables
begin

text \<open>
  The portability layer on every platform (vmhook.hpp lines 476 to 978): each function of
  \<open>vmhook::os\<close> with all its branches, over a record of the system calls they make, and the allocation
  near a target on top of them. \<open>Os_Layer\<close> and \<open>Code_Scan\<close> hold the Linux branches that the rest of the
  development builds on; here they are one instance of a locale of region queries, Windows is another,
  and the Apple branches are shown to be none.
\<close>

section \<open>Platforms and their system calls\<close>

datatype platform = Windows | MacOS | IOS | Linux | Android

text \<open>What VirtualQuery and mach_vm_region report of a region.\<close>

record mbi =
  BaseAddress :: addr
  RegionSize :: u64
  State :: u32
  Protect :: u32

record mach_region =
  region_addr :: addr
  region_size :: u64
  protection :: u32

text \<open>
  The kernel. A failed call is \<open>None\<close> (or a null address for VirtualAlloc). ReadProcessMemory,
  process_vm_readv and mach_vm_read_overwrite give the bytes they moved; \<open>k_signal\<close> says whether the
  handlers of the Linux fallback can be installed, \<open>k_highest\<close> is the last address that Windows gives to
  an application.
\<close>

record kernel =
  k_sysconf_page :: int
  k_dwPageSize :: u32
  k_dwAllocationGranularity :: u32
  k_thread_id :: u64
  k_virtual_protect :: "addr \<Rightarrow> u64 \<Rightarrow> u32 \<Rightarrow> u32 option"
  k_mprotect :: "addr \<Rightarrow> u64 \<Rightarrow> u32 \<Rightarrow> bool"
  k_virtual_alloc :: "addr \<Rightarrow> u64 \<Rightarrow> u32 \<Rightarrow> u32 \<Rightarrow> addr"
  k_mmap :: "addr \<Rightarrow> u64 \<Rightarrow> u32 \<Rightarrow> addr option"
  k_virtual_free :: "addr \<Rightarrow> mem \<Rightarrow> mem"
  k_munmap :: "addr \<Rightarrow> u64 \<Rightarrow> mem \<Rightarrow> mem"
  k_virtual_query :: "addr \<Rightarrow> mbi option"
  k_mach_vm_region :: "addr \<Rightarrow> mach_region option"
  k_maps :: "map_line option list"
  k_read_memory :: "mem \<Rightarrow> addr \<Rightarrow> nat \<Rightarrow> u8 list option"
  k_signal :: bool
  k_highest :: addr

text \<open>Windows thread ids are 32 bits wide.\<close>

definition current_thread_id :: "platform \<Rightarrow> kernel \<Rightarrow> u64" where
  "current_thread_id pf K = (case pf of Windows \<Rightarrow> take_bit 32 (k_thread_id K) | _ \<Rightarrow> k_thread_id K)"

definition page_size_on :: "platform \<Rightarrow> kernel \<Rightarrow> u64" where
  "page_size_on pf K = (case pf of Windows \<Rightarrow> ucast (k_dwPageSize K)
     | _ \<Rightarrow> if 0 < k_sysconf_page K then word_of_int (k_sysconf_page K) else 4096)"

definition allocation_granularity_on :: "platform \<Rightarrow> kernel \<Rightarrow> u64" where
  "allocation_granularity_on pf K = (case pf of Windows \<Rightarrow> ucast (k_dwAllocationGranularity K) | _ \<Rightarrow> page_size_on pf K)"

definition jvm_candidates :: "platform \<Rightarrow> string list" where
  "jvm_candidates pf = (case pf of Windows \<Rightarrow> [''jvm.dll'']
     | MacOS \<Rightarrow> [''libjvm.dylib'', ''@rpath/libjvm.dylib'', ''libjvm.so'']
     | Linux \<Rightarrow> [''libjvm.so'', ''libjvm.so.0'']
     | Android \<Rightarrow> [''libjvm.so'', ''libjvm.so.0'']
     | IOS \<Rightarrow> [''libjvm.dylib'', ''libjvm.so''])"

definition find_jvm_module_on :: "platform \<Rightarrow> loader \<Rightarrow> u64" where
  "find_jvm_module_on pf L = first_module L (jvm_candidates pf)"

section \<open>Protection, allocation, release\<close>

text \<open>The Windows constants: PAGE_NOACCESS, PAGE_READONLY, PAGE_READWRITE, PAGE_EXECUTE_READ and
  PAGE_EXECUTE_READWRITE.\<close>

fun windows_protect :: "memory_protection \<Rightarrow> u32" where
  "windows_protect no_access = 0x01"
| "windows_protect prot_read = 0x02"
| "windows_protect read_write = 0x04"
| "windows_protect execute_read = 0x20"
| "windows_protect execute_rw = 0x40"

text \<open>The result and what is written to \<open>old_prot\<close> when the caller passes one.\<close>

definition protect_on :: "platform \<Rightarrow> kernel \<Rightarrow> addr \<Rightarrow> u64 \<Rightarrow> memory_protection \<Rightarrow> bool \<times> u32 option" where
  "protect_on pf K a sz prot =
     (if a = 0 \<or> sz = 0 then (False, None)
      else case pf of
        Windows \<Rightarrow> (case k_virtual_protect K a sz (windows_protect prot) of
            None \<Rightarrow> (False, None) | Some prev \<Rightarrow> (True, Some prev))
      | _ \<Rightarrow> (if k_mprotect K (protect_base (page_size_on pf K) a) (protect_size (page_size_on pf K) a sz) (to_native_protect prot)
              then (True, Some 0) else (False, None)))"

text \<open>MEM_COMMIT is 0x1000, MEM_RESERVE 0x2000.\<close>

definition allocate_rwx :: "platform \<Rightarrow> kernel \<Rightarrow> addr \<Rightarrow> u64 \<Rightarrow> addr" where
  "allocate_rwx pf K address_hint sz =
     (if sz = 0 then 0
      else case pf of
        Windows \<Rightarrow> k_virtual_alloc K address_hint sz (0x1000 OR 0x2000) 0x40
      | _ \<Rightarrow> (case k_mmap K address_hint sz (1 OR 2 OR 4) of
            Some p \<Rightarrow> p
          | None \<Rightarrow> (case k_mmap K address_hint sz (1 OR 2) of Some p \<Rightarrow> p | None \<Rightarrow> 0)))"

definition release :: "platform \<Rightarrow> kernel \<Rightarrow> addr \<Rightarrow> u64 \<Rightarrow> mem \<Rightarrow> mem" where
  "release pf K a sz m =
     (if a = 0 \<or> sz = 0 then m
      else case pf of Windows \<Rightarrow> k_virtual_free K a m | _ \<Rightarrow> k_munmap K a sz m)"

text \<open>The range whose instructions are declared new, if any.\<close>

definition flush_instruction_cache :: "addr \<Rightarrow> u64 \<Rightarrow> (addr \<times> addr) option" where
  "flush_instruction_cache a sz = (if a = 0 \<or> sz = 0 then None else Some (a, a + sz))"

section \<open>Region queries and safe reads\<close>

text \<open>MEM_FREE is 0x10000. The masks are the readable and the executable PAGE constants, PAGE_GUARD is
  0x100.\<close>

definition windows_region :: "kernel \<Rightarrow> addr \<Rightarrow> region_info" where
  "windows_region K a = (case k_virtual_query K a of None \<Rightarrow> empty_region
     | Some i \<Rightarrow> \<lparr>ri_base = BaseAddress i, ri_size = RegionSize i,
         ri_committed = (State i = 0x1000), ri_free = (State i = 0x10000),
         ri_readable = (Protect i AND (0x02 OR 0x04 OR 0x20 OR 0x40 OR 0x80 OR 0x08) \<noteq> 0),
         ri_executable = (Protect i AND (0x10 OR 0x20 OR 0x40 OR 0x80) \<noteq> 0),
         ri_guarded = (Protect i AND 0x100 \<noteq> 0)\<rparr>)"

definition macos_region :: "kernel \<Rightarrow> addr \<Rightarrow> region_info" where
  "macos_region K a = (case k_mach_vm_region K a of None \<Rightarrow> empty_region
     | Some i \<Rightarrow> empty_region\<lparr>ri_base := region_addr i, ri_size := region_size i, ri_committed := True,
         ri_readable := (protection i AND 1 \<noteq> 0), ri_executable := (protection i AND 4 \<noteq> 0)\<rparr>)"

definition query_region_on :: "platform \<Rightarrow> kernel \<Rightarrow> addr \<Rightarrow> region_info" where
  "query_region_on pf K a =
     (if a = 0 then empty_region
      else case pf of
        Windows \<Rightarrow> windows_region K a
      | MacOS \<Rightarrow> macos_region K a
      | IOS \<Rightarrow> empty_region\<lparr>ri_base := a, ri_size := page_size_on pf K, ri_committed := True, ri_readable := True\<rparr>
      | _ \<Rightarrow> query_maps (k_maps K) a 0)"

definition is_readable_pointer_on :: "platform \<Rightarrow> kernel \<Rightarrow> addr \<Rightarrow> bool" where
  "is_readable_pointer_on pf K p =
     (if p \<le> user_address_floor \<or> user_address_ceiling \<le> p \<or> p AND 7 \<noteq> 0 then False
      else let info = query_region_on pf K p
           in ri_committed info \<and> ri_readable info \<and> \<not> ri_guarded info)"

text \<open>The outer option is the access fault, the inner one the result false. The Linux fallback is a
  copy under signal handlers, which fails instead of faulting (\<open>Probe_Signals\<close>); iOS has neither.\<close>

definition safe_read_on :: "platform \<Rightarrow> kernel \<Rightarrow> mem \<Rightarrow> addr \<Rightarrow> nat \<Rightarrow> u8 list option option" where
  "safe_read_on pf K m src n =
     (if src = 0 \<or> n = 0 then Some None
      else case pf of
        IOS \<Rightarrow> map_option Some (load_bytes m src n)
      | Windows \<Rightarrow> Some (case k_read_memory K m src n of Some bs \<Rightarrow> if length bs = n then Some bs else None | None \<Rightarrow> None)
      | MacOS \<Rightarrow> Some (case k_read_memory K m src n of Some bs \<Rightarrow> if length bs = n then Some bs else None | None \<Rightarrow> None)
      | _ \<Rightarrow> (case k_read_memory K m src n of
            Some bs \<Rightarrow> if length bs = n then Some (Some bs) else Some (if k_signal K then load_bytes m src n else None)
          | None \<Rightarrow> Some (if k_signal K then load_bytes m src n else None)))"

section \<open>Allocation near a target\<close>

text \<open>The walk of \<open>allocate_nearby_memory\<close> (lines 4859 to 4891) over any region query.\<close>

partial_function (option) walk_regions ::
  "(addr \<Rightarrow> region_info) \<Rightarrow> u64 \<Rightarrow> u64 \<Rightarrow> (addr \<Rightarrow> u64 \<Rightarrow> addr) \<Rightarrow> addr \<Rightarrow> u64 \<Rightarrow> u64 \<Rightarrow> addr option" where
  [code]: "walk_regions query page granularity allocate target sz current =
     (if \<not> current < search_max target then Some 0
      else let info = query current in
        if ri_base info = 0 then walk_regions query page granularity allocate target sz (current + page)
        else let region_end = ri_base info + ri_size info;
                 allocated = (if ri_free info
                   then try_allocate_in_region granularity allocate target sz (ri_base info) region_end
                   else 0)
             in if allocated \<noteq> 0 then Some allocated
                else if region_end \<le> current then Some 0
                else walk_regions query page granularity allocate target sz region_end)"

definition allocate_nearby_on :: "platform \<Rightarrow> kernel \<Rightarrow> addr \<Rightarrow> u64 \<Rightarrow> addr option" where
  "allocate_nearby_on pf K nearby_addr sz =
     (if nearby_addr = 0 \<or> sz = 0 then Some 0
      else walk_regions (query_region_on pf K) (page_size_on pf K) (allocation_granularity_on pf K)
             (allocate_rwx pf K) nearby_addr sz (search_min nearby_addr))"

text \<open>On Linux this is the function of \<open>Code_Scan\<close>.\<close>

lemma walk_regions_maps: "walk_regions (query_region maps) page page allocate target sz current = nearby_walk page maps allocate target sz current"
proof -
  have le: "nearby_walk page maps allocate target sz current = Some p" if "walk_regions query page granularity allocate target sz current = Some p"
    and "query = query_region maps" "granularity = page" for query granularity p current
    using that
  proof (induction rule: walk_regions.raw_induct [rotated 1, consumes 1])
    case (1 walk query page granularity allocate target sz current p)
    then show ?case by (subst nearby_walk.simps) (auto simp: Let_def split: if_splits)
  qed
  have ge: "walk_regions (query_region maps) page page allocate target sz current = Some p" if "nearby_walk page maps allocate target sz current = Some p"
    for p current using that
  proof (induction rule: nearby_walk.raw_induct [rotated 1, consumes 1])
    case (1 walk page maps allocate target sz current p)
    then show ?case by (subst walk_regions.simps) (auto simp: Let_def split: if_splits)
  qed
  show ?thesis
    using le [OF _ refl refl] ge by (metis not_None_eq option.exhaust_sel option.sel)
qed

section \<open>What a region query promises\<close>

text \<open>The end of a region, and the addresses that an application can use.\<close>

definition region_limit :: "region_info \<Rightarrow> nat" where
  "region_limit i = unat (ri_base i) + unat (ri_size i)"

definition usable :: "addr \<Rightarrow> addr \<Rightarrow> bool" where
  "usable highest a \<longleftrightarrow> minimum_application_address \<le> a \<and> a \<le> highest"

text \<open>A region that holds a candidate gives a block, if the system grants one there.\<close>

lemma try_allocate_succeeds:
  assumes win: "minimum_application_address \<le> target" "target < user_address_ceiling" and k: "k \<le> 16" and sz: "sz \<noteq> 0"
    and c: "unat c mod 2 ^ k = 0" "region_base \<le> c" "unat c + unat sz \<le> unat region_end"
      "search_min target \<le> c" "unat c + unat sz \<le> unat (search_max target)"
    and grants: "\<And>h. fits k target sz region_base region_end h \<Longrightarrow> allocate h sz \<noteq> 0"
  shows "try_allocate_in_region (2 ^ k) allocate target sz region_base region_end \<noteq> 0"
proof -
  define ub where ub: "ub = max region_base (search_min target)"
  define ue where ue: "ue = min region_end (search_max target + 1)"
  define lo where lo: "lo = align_up ub (2 ^ k)"
  define hi where hi: "hi = align_down (ue - sz) (2 ^ k)"
  note un = try_allocate_in_region_def [of "2 ^ k" allocate target sz region_base region_end,
      unfolded Let_def, folded ub ue, folded lo hi]
  have szp: "0 < unat sz" using sz by (simp add: unat_gt_0)
  have ubc: "unat ub \<le> unat c" using c(2,4) by (auto simp: ub word_le_nat_alt max_def)
  have uec: "unat c + unat sz \<le> unat ue"
    using c(3,5) search_window(3) [OF win] by (auto simp: ue min_def word_le_nat_alt)
  have "unat ub + 2 ^ k < 2 ^ 64"
    using ubc c(5) search_window(2) [OF win] power_increasing [OF k, of "2 :: nat"] by simp
  note up = unat_align_up [OF this]
  have room: "\<not> region_end \<le> region_base" "\<not> region_end - region_base < sz" "\<not> ue \<le> ub" "\<not> ue - ub < sz"
    using c(2,3) ubc uec szp by (auto simp: word_le_nat_alt word_less_nat_alt unat_sub not_le not_less)
  have usz: "unat (ue - sz) = unat ue - unat sz" using uec by (intro unat_sub) (simp add: word_le_nat_alt)
  have "unat ub + (2 ^ k - 1) < unat c + 2 ^ k" using ubc by (simp add: less_le_trans [of _ "unat ub + 2 ^ k"])
  then have "(unat ub + (2 ^ k - 1)) div 2 ^ k \<le> unat c div 2 ^ k"
    by (metis add.commute c(1) div_le_mono div_mult_mod_eq add_0_right less_mult_imp_div_less less_Suc_eq_le mult_Suc)
  then have "unat lo \<le> unat c"
    unfolding lo up by (metis add_0_right c(1) div_mult_mod_eq mult_le_mono1)
  moreover have "unat c \<le> unat hi"
    unfolding hi unat_align_down using uec usz by (intro aligned_le [OF c(1)]) simp
  ultimately have order: "lo \<le> hi" by (simp add: word_le_nat_alt)
  have "fits k target sz region_base region_end
      (if target < lo then lo else if target > hi then hi else align_down target (2 ^ k))"
    by (rule candidates_fit [OF win k ub ue room(3,4) lo hi order]) simp
  from grants [OF this] show ?thesis unfolding un using room order by (simp add: not_less)
qed

locale region_query =
  fixes query :: "'k \<Rightarrow> addr \<Rightarrow> region_info" and lawful :: "'k \<Rightarrow> bool" and taken :: "'k \<Rightarrow> addr \<Rightarrow> bool" and highest :: "'k \<Rightarrow> addr"
  assumes contains: "lawful K \<Longrightarrow> usable (highest K) a \<Longrightarrow>
      ri_base (query K a) \<le> a \<and> unat a < region_limit (query K a) \<and> region_limit (query K a) < 2 ^ 64"
    and within: "lawful K \<Longrightarrow> usable (highest K) a \<Longrightarrow> ri_base (query K a) \<le> x \<Longrightarrow> unat x < region_limit (query K a)
      \<Longrightarrow> x \<le> user_address_ceiling \<Longrightarrow> x \<le> highest K"
    and free_iff: "lawful K \<Longrightarrow> usable (highest K) a \<Longrightarrow> ri_free (query K a) \<longleftrightarrow> \<not> taken K a"
    and uniform: "lawful K \<Longrightarrow> usable (highest K) a \<Longrightarrow> usable (highest K) x \<Longrightarrow> ri_base (query K a) \<le> x \<Longrightarrow> unat x < region_limit (query K a)
      \<Longrightarrow> taken K x \<longleftrightarrow> taken K a"
    and maximal: "lawful K \<Longrightarrow> usable (highest K) a \<Longrightarrow> ri_free (query K a) \<Longrightarrow> usable (highest K) (ri_base (query K a) + ri_size (query K a))
      \<Longrightarrow> taken K (ri_base (query K a) + ri_size (query K a))"
    and follows: "lawful K \<Longrightarrow> usable (highest K) a \<Longrightarrow> usable (highest K) (ri_base (query K a) + ri_size (query K a))
      \<Longrightarrow> ri_base (query K (ri_base (query K a) + ri_size (query K a))) = ri_base (query K a) + ri_size (query K a)"
begin

lemma limit: "lawful K \<Longrightarrow> usable (highest K) a \<Longrightarrow> unat (ri_base (query K a) + ri_size (query K a)) = region_limit (query K a)"
  using contains [of K a] by (simp add: region_limit_def unat_word_ariths)

text \<open>A free range does not leave the region of its first address.\<close>

lemma free_range_inside:
  assumes "lawful K" and "usable (highest K) a" and "usable (highest K) c" and "usable (highest K) (c + (sz - 1))"
    and "ri_base (query K a) \<le> c" and "unat c < region_limit (query K a)"
    and "0 < unat sz" and "unat c + unat sz < 2 ^ 64" and "\<forall>i < unat sz. \<not> taken K (c + of_nat i)"
  shows "ri_free (query K a) \<and> unat c + unat sz \<le> region_limit (query K a)"
proof -
  let ?e = "ri_base (query K a) + ri_size (query K a)"
  have "\<not> taken K c" using assms(7,9) by force
  then have free: "ri_free (query K a)" using uniform assms(1-3,5,6) free_iff by blast
  moreover have "unat c + unat sz \<le> region_limit (query K a)"
  proof (rule ccontr)
    assume "\<not> unat c + unat sz \<le> region_limit (query K a)"
    then have in_range: "unat c \<le> unat ?e" "unat ?e - unat c < unat sz"
      using assms(6) limit [OF assms(1,2)] by auto
    have e: "?e = c + of_nat (unat ?e - unat c)"
      using in_range(1) by (intro word_unat_eq_iff [THEN iffD2]) (simp add: unat_word_ariths unat_of_nat unat_lt64 take_bit_nat_eq_self)
    have "unat (c + (sz - 1)) = unat c + (unat sz - 1)"
      using assms(7,8) by (simp add: unat_word_ariths unat_minus_one unat_gt_0 word_gt_0)
    then have "?e \<le> c + (sz - 1)" "c \<le> ?e" using in_range by (auto simp: word_le_nat_alt)
    then have "usable (highest K) ?e" using assms(3,4) unfolding usable_def by (meson order_trans)
    then have "taken K ?e" using maximal [OF assms(1,2) free] by blast
    then show False using assms(9) in_range(2) e by metis
  qed
  ultimately show ?thesis ..
qed

text \<open>A block in a free region is free.\<close>

lemma fits_free:
  assumes win: "minimum_application_address \<le> target" "target < user_address_ceiling" and K: "lawful K" "usable (highest K) a"
    and f: "ri_free (query K a)" "fits k target sz (ri_base (query K a)) (ri_base (query K a) + ri_size (query K a)) h"
    and i: "i < unat sz"
  shows "\<not> taken K (h + of_nat i)"
proof -
  let ?x = "h + of_nat i"
  have b: "unat h + unat sz \<le> region_limit (query K a)" "unat h + unat sz \<le> unat (search_max target) + 1"
    "search_min target \<le> h" "ri_base (query K a) \<le> h"
    using f(2) limit [OF K] by (simp_all add: fits_def)
  have mx: "unat (search_max target) \<le> 140737488355327" "65536 \<le> unat (search_min target)" using search_window(1,2) [OF win] by simp_all
  have "unat h + i < 18446744073709551616" using b(2) i mx by linarith
  then have x: "unat ?x = unat h + i"
    by (simp add: unat_word_ariths unat_of_nat take_bit_nat_eq_self)
  then have x2: "ri_base (query K a) \<le> ?x" "unat ?x < region_limit (query K a)" "?x \<le> user_address_ceiling" "minimum_application_address \<le> ?x"
    using b i mx by (simp_all add: word_le_nat_alt user_address_ceiling_def minimum_application_address_def)
  then have "usable (highest K) ?x" using within [OF K x2(1-3)] by (simp add: usable_def)
  then have "taken K ?x \<longleftrightarrow> taken K a" by (rule uniform [OF K _ x2(1,2)])
  then show ?thesis using free_iff [OF K] f(1) by simp
qed

text \<open>The walk finds a free range that the search window holds.\<close>

lemma walk_finds:
  assumes win: "minimum_application_address \<le> target" "target < user_address_ceiling" and k: "k \<le> 16" and sz: "sz \<noteq> 0"
    and K: "lawful K"
    and c: "unat c mod 2 ^ k = 0" "unat c + unat sz \<le> unat (search_max target)" "unat c + unat sz \<le> unat (highest K) + 1"
      "\<forall>i < unat sz. \<not> taken K (c + of_nat i)"
    and grants: "\<And>a h. usable (highest K) a \<Longrightarrow> ri_free (query K a)
      \<Longrightarrow> fits k target sz (ri_base (query K a)) (ri_base (query K a) + ri_size (query K a)) h \<Longrightarrow> allocate h sz \<noteq> 0"
    and cur: "search_min target \<le> current" "current \<le> c" "ri_base (query K current) \<noteq> 0"
  shows "\<exists>a h. usable (highest K) a \<and> ri_free (query K a) \<and> fits k target sz (ri_base (query K a)) (ri_base (query K a) + ri_size (query K a)) h
     \<and> walk_regions (query K) page (2 ^ k) allocate target sz current = Some (allocate h sz)"
  using cur
proof (induction "2 ^ 64 - unat current" arbitrary: current rule: less_induct)
  case less
  let ?i = "query K current"
  let ?fin = "ri_base ?i + ri_size ?i"
  let ?cand = "try_allocate_in_region (2 ^ k) allocate target sz (ri_base ?i) ?fin"
  have szp: "0 < unat sz" using sz by (simp add: unat_gt_0)
  have mx: "unat (search_max target) \<le> 140737488355327" using search_window(2) [OF win] by simp
  have "65536 \<le> unat current" "unat current \<le> unat c"
    using less.prems(1,2) search_window(1) [OF win] by (auto simp: word_le_nat_alt)
  moreover from this have "unat c < unat (search_max target)" "unat c + (unat sz - 1) \<le> unat (highest K)"
      "unat c + (unat sz - 1) < 18446744073709551616"
    using c(2,3) szp mx by linarith+
  ultimately have u: "usable (highest K) current" "usable (highest K) c" "usable (highest K) (c + (sz - 1))" "current < search_max target"
    using mx by (simp_all add: usable_def minimum_application_address_def word_le_nat_alt
        word_less_nat_alt unat_word_ariths unat_minus_one sz)
  note ct = contains [OF K u(1)] and lim = limit [OF K u(1)]
  show ?case
  proof (cases "unat c < region_limit ?i")
    case True
    have bc: "ri_base ?i \<le> c" using ct less.prems(2) by (meson order_trans)
    have f: "ri_free ?i" "unat c + unat sz \<le> unat ?fin"
      using free_range_inside [OF K u(1-3) bc True szp _ c(4)] c(2) mx lim by simp_all
    have n: "?cand \<noteq> 0"
      using less.prems(1,2) by (intro try_allocate_succeeds [OF win k sz c(1) bc f(2) _ c(2)] grants [OF u(1) f(1)]) auto
    then have "walk_regions (query K) page (2 ^ k) allocate target sz current = Some ?cand"
      using less.prems(3) u(4) f(1) by (subst walk_regions.simps) (simp add: Let_def)
    with u(1) f(1) try_allocate_candidate [OF win k n] show ?thesis by metis
  next
    case False
    then have fin: "current < ?fin" "?fin \<le> c" using ct lim by (simp_all add: word_less_nat_alt word_le_nat_alt)
    then have uf: "usable (highest K) ?fin" using u(1,2) unfolding usable_def by (meson order_trans order_less_imp_le)
    have "ri_base (query K ?fin) = ?fin" by (rule follows [OF K u(1) uf])
    moreover have "?fin \<noteq> 0" using fin(1) by auto
    ultimately have "\<exists>a h. usable (highest K) a \<and> ri_free (query K a) \<and> fits k target sz (ri_base (query K a)) (ri_base (query K a) + ri_size (query K a)) h
       \<and> walk_regions (query K) page (2 ^ k) allocate target sz ?fin = Some (allocate h sz)"
      using fin order_trans [OF less.prems(1) order_less_imp_le [OF fin(1)]] unat_lt64 [of ?fin]
      by (intro less.hyps) (auto simp: word_less_nat_alt)
    moreover have "\<exists>h. fits k target sz (ri_base ?i) ?fin h \<and> ?cand = allocate h sz" if "ri_free ?i" "?cand \<noteq> 0"
      by (rule try_allocate_candidate [OF win k that(2)])
    ultimately show ?thesis
      using less.prems(3) u fin(1) by (subst walk_regions.simps) (auto simp: Let_def not_le)
  qed
qed

lemma walk_finds_free:
  assumes win: "minimum_application_address \<le> target" "target < user_address_ceiling" and "k \<le> 16" and "sz \<noteq> 0" and K: "lawful K"
    and "unat c mod 2 ^ k = 0" and "\<forall>i < unat sz. \<not> taken K (c + of_nat i)" and "search_min target \<le> c"
    and "unat c + unat sz \<le> unat (search_max target)" and "unat c + unat sz \<le> unat (highest K) + 1"
    and "ri_base (query K (search_min target)) \<noteq> 0"
    and grants: "\<And>h. unat h mod 2 ^ k = 0 \<Longrightarrow> \<forall>i < unat sz. \<not> taken K (h + of_nat i) \<Longrightarrow> search_min target \<le> h
      \<Longrightarrow> unat h + unat sz \<le> unat (search_max target) + 1 \<Longrightarrow> allocate h sz \<noteq> 0"
  shows "\<exists>h. unat h mod 2 ^ k = 0 \<and> (\<forall>i < unat sz. \<not> taken K (h + of_nat i)) \<and> search_min target \<le> h
     \<and> unat h + unat sz \<le> unat (search_max target) + 1
     \<and> walk_regions (query K) page (2 ^ k) allocate target sz (search_min target) = Some (allocate h sz)"
proof -
  have free: "unat h mod 2 ^ k = 0 \<and> (\<forall>i < unat sz. \<not> taken K (h + of_nat i)) \<and> search_min target \<le> h
       \<and> unat h + unat sz \<le> unat (search_max target) + 1"
    if "usable (highest K) a" "ri_free (query K a)" "fits k target sz (ri_base (query K a)) (ri_base (query K a) + ri_size (query K a)) h" for a h
    using fits_free [OF win K that] that(3) by (simp add: fits_def)
  have "\<exists>a h. usable (highest K) a \<and> ri_free (query K a) \<and> fits k target sz (ri_base (query K a)) (ri_base (query K a) + ri_size (query K a)) h
     \<and> walk_regions (query K) page (2 ^ k) allocate target sz (search_min target) = Some (allocate h sz)"
  proof (rule walk_finds [OF assms(1-6,9,10,7) _ order_refl assms(8,11)])
    fix a h assume "usable (highest K) a" "ri_free (query K a)"
      "fits k target sz (ri_base (query K a)) (ri_base (query K a) + ri_size (query K a)) h"
    from free [OF this] show "allocate h sz \<noteq> 0" by (intro grants) simp_all
  qed
  with free show ?thesis by blast
qed

end

section \<open>The platforms that answer a region query\<close>

text \<open>Linux and Android: the mapped addresses are those of the lines.\<close>

definition maps_taken :: "map_line option list \<Rightarrow> addr \<Rightarrow> bool" where
  "maps_taken maps a = list_ex (\<lambda>l. case l of None \<Rightarrow> False | Some l \<Rightarrow> ml_begin l \<le> a \<and> a < ml_end l) maps"

lemma maps_taken_simps [simp]:
  "\<not> maps_taken [] a" "maps_taken (None # ls) a \<longleftrightarrow> maps_taken ls a"
  "maps_taken (Some l # ls) a \<longleftrightarrow> (ml_begin l \<le> a \<and> a < ml_end l) \<or> maps_taken ls a"
  by (simp_all add: maps_taken_def)

lemma maps_taken_ge: "maps_ascend lo ls \<Longrightarrow> maps_taken ls a \<Longrightarrow> lo \<le> a"
  by (induction lo ls rule: maps_ascend.induct) (auto intro: order_trans order_less_imp_le)

lemma query_maps_cases:
  "a < ml_begin l \<Longrightarrow> query_maps (Some l # ls) a lo
     = empty_region\<lparr>ri_base := lo, ri_size := ml_begin l - lo, ri_free := True\<rparr>"
  "ml_begin l \<le> a \<Longrightarrow> a < ml_end l \<Longrightarrow> query_maps (Some l # ls) a lo
     = empty_region\<lparr>ri_base := ml_begin l, ri_size := ml_end l - ml_begin l, ri_committed := True,
         ri_readable := perm_at (ml_perms l) 0 = CHR ''r'', ri_executable := perm_at (ml_perms l) 2 = CHR ''x''\<rparr>"
  "ml_begin l < ml_end l \<Longrightarrow> ml_end l \<le> a \<Longrightarrow> query_maps (Some l # ls) a lo = query_maps ls a (ml_end l)"
  by (auto simp: not_less)

lemma query_maps_start:
  "maps_ascend lo ls \<Longrightarrow> lo \<le> a \<Longrightarrow> lo \<le> ri_base (query_maps ls a lo)"
proof (induction ls a lo rule: query_maps.induct)
  case (3 l ls a lo)
  then show ?case by (auto simp: empty_region_def not_less intro: order_trans [OF order_trans [OF _ order_less_imp_le]])
qed (simp_all add: empty_region_def)

lemma query_maps_free:
  "maps_ascend lo ls \<Longrightarrow> lo \<le> a \<Longrightarrow> ri_free (query_maps ls a lo) \<longleftrightarrow> \<not> maps_taken ls a"
proof (induction ls a lo rule: query_maps.induct)
  case (3 l ls a lo)
  then show ?case
    using maps_taken_ge [of "ml_end l" ls a] by (auto simp: empty_region_def not_less)
qed (simp_all add: empty_region_def)

lemma query_maps_uniform:
  "maps_ascend lo ls \<Longrightarrow> lo \<le> a \<Longrightarrow> ri_base (query_maps ls a lo) \<le> x \<Longrightarrow> unat x < region_limit (query_maps ls a lo)
    \<Longrightarrow> maps_taken ls x \<longleftrightarrow> maps_taken ls a"
proof (induction ls a lo rule: query_maps.induct)
  case (3 l ls a lo)
  have m: "lo \<le> ml_begin l" "ml_begin l < ml_end l" "maps_ascend (ml_end l) ls" using "3.prems"(1) by simp_all
  have early: "\<not> maps_taken ls y" if "y < ml_end l" for y
    using maps_taken_ge [OF m(3), of y] that by fastforce
  consider "a < ml_begin l" | "ml_begin l \<le> a" "a < ml_end l" | "ml_end l \<le> a" by fastforce
  then show ?case
  proof cases
    case 1
    then have "x < ml_begin l"
      using "3.prems" m(1) unfolding query_maps_cases(1) [OF 1]
      by (simp add: empty_region_def region_limit_def word_less_nat_alt word_le_nat_alt unat_sub)
    with 1 m(2) early show ?thesis by (simp add: not_le [symmetric] order_less_trans [OF _ m(2)])
  next
    case 2
    then have "ml_begin l \<le> x" "x < ml_end l"
      using "3.prems" m(2) unfolding query_maps_cases(2) [OF 2]
      by (simp_all add: empty_region_def region_limit_def word_less_nat_alt word_le_nat_alt unat_sub)
    with 2 show ?thesis by simp
  next
    case 3
    note q = query_maps_cases(3) [OF m(2) 3]
    have le: "ml_begin l \<le> a" using 3 m(2) by simp
    then have "ml_end l \<le> x"
      using query_maps_start [OF m(3) 3] "3.prems"(3) unfolding q by simp
    moreover have "maps_taken ls x \<longleftrightarrow> maps_taken ls a"
      using "3.IH" "3.prems"(3,4) 3 m(3) le unfolding q by (simp add: not_less)
    ultimately show ?thesis using 3 by (simp add: not_less [symmetric])
  qed
qed (simp_all add: empty_region_def)

lemma query_maps_at_start: "maps_ascend e ls \<Longrightarrow> ri_base (query_maps ls e e) = e"
  by (induction e ls rule: maps_ascend.induct) (auto simp: empty_region_def)

lemma query_maps_next:
  assumes "maps_ascend lo ls" and "lo \<le> a" and "e = ri_base (query_maps ls a lo) + ri_size (query_maps ls a lo)"
    and "e < 0xFFFFFFFFFFFFFFFF"
  shows "a < e \<and> ri_base (query_maps ls e lo) = e \<and> (ri_free (query_maps ls a lo) \<longrightarrow> maps_taken ls e)"
  using assms
proof (induction ls a lo rule: query_maps.induct)
  case (3 l ls a lo)
  have m: "lo \<le> ml_begin l" "ml_begin l < ml_end l" "maps_ascend (ml_end l) ls" using "3.prems"(1) by simp_all
  consider "a < ml_begin l" | "ml_begin l \<le> a" "a < ml_end l" | "ml_end l \<le> a" by fastforce
  then show ?case
  proof cases
    case 1
    then have "e = ml_begin l" using "3.prems"(3) unfolding query_maps_cases(1) [OF 1] by (simp add: empty_region_def)
    then show ?thesis using 1 m(2) query_maps_cases(2) [of l e ls lo] by (simp add: empty_region_def)
  next
    case 2
    then have "e = ml_end l" using "3.prems"(3) unfolding query_maps_cases(2) [OF 2] by (simp add: empty_region_def)
    then show ?thesis
      using 2 query_maps_cases(3) [OF m(2), of e ls lo] query_maps_at_start [OF m(3)] query_maps_cases(2) [OF 2, of ls lo]
      by (simp add: empty_region_def del: query_maps.simps)
  next
    case 3
    note q = query_maps_cases(3) [OF m(2) 3, of ls lo]
    have "ml_begin l \<le> a" using 3 m(2) by simp
    then have n: "a < e \<and> ri_base (query_maps ls e (ml_end l)) = e \<and> (ri_free (query_maps ls a (ml_end l)) \<longrightarrow> maps_taken ls e)"
      using "3.IH" "3.prems"(3,4) 3 m(3) unfolding q by (simp add: not_less)
    then have "ml_end l \<le> e" using 3 by (meson order_less_imp_le order_trans)
    then show ?thesis using n q query_maps_cases(3) [OF m(2), of e ls lo] by simp
  qed
qed (simp_all add: empty_region_def)

interpretation linux: region_query query_region "maps_ascend 0" maps_taken "\<lambda>_. user_address_ceiling"
proof unfold_locales
  fix K a assume *: "maps_ascend 0 K" "usable user_address_ceiling a"
  then have b: "a < 0xFFFFFFFFFFFFFFFF" "a \<noteq> 0"
    by (auto simp: usable_def minimum_application_address_def user_address_ceiling_def elim: order_le_less_trans)
  then have q: "query_region K a = query_maps K a 0" by (simp add: query_region_def)
  show "ri_base (query_region K a) \<le> a \<and> unat a < region_limit (query_region K a) \<and> region_limit (query_region K a) < 2 ^ 64"
    using query_maps_contains [OF *(1) _ b(1)] unfolding q region_limit_def Let_def by simp
  show "ri_free (query_region K a) \<longleftrightarrow> \<not> maps_taken K a" unfolding q by (rule query_maps_free [OF *(1)]) simp
  show "maps_taken K x \<longleftrightarrow> maps_taken K a" if "ri_base (query_region K a) \<le> x" "unat x < region_limit (query_region K a)" for x
    using query_maps_uniform [OF *(1) _ that [unfolded q]] by simp
  let ?e = "ri_base (query_region K a) + ri_size (query_region K a)"
  have n: "a < ?e \<and> ri_base (query_region K ?e) = ?e \<and> (ri_free (query_region K a) \<longrightarrow> maps_taken K ?e)" if "usable user_address_ceiling ?e"
  proof -
    have "?e < 0xFFFFFFFFFFFFFFFF" "?e \<noteq> 0"
      using that by (auto simp: usable_def minimum_application_address_def user_address_ceiling_def elim: order_le_less_trans)
    then show ?thesis using query_maps_next [OF *(1) _ refl, of a] by (simp add: query_region_def b(2))
  qed
  show "maps_taken K ?e" if "ri_free (query_region K a)" "usable user_address_ceiling ?e" using n that by blast
  show "ri_base (query_region K ?e) = ?e" if "usable user_address_ceiling ?e" using n that by blast
qed

text \<open>Windows: VirtualQuery answers for every address up to the highest one of an application, with the
  region that starts at the page of the address and whose pages are all free or all not, as far as that
  goes.\<close>

definition windows_taken :: "kernel \<Rightarrow> addr \<Rightarrow> bool" where
  "windows_taken K a = (case k_virtual_query K a of None \<Rightarrow> True | Some i \<Rightarrow> State i \<noteq> 0x10000)"

definition virtual_query_contract :: "kernel \<Rightarrow> bool" where
  "virtual_query_contract K \<longleftrightarrow> (\<forall>a. usable (k_highest K) a \<longrightarrow> (\<exists>i. k_virtual_query K a = Some i
     \<and> BaseAddress i \<le> a \<and> unat a < unat (BaseAddress i) + unat (RegionSize i)
     \<and> unat (BaseAddress i) + unat (RegionSize i) \<le> unat (k_highest K) + 1 \<and> unat (k_highest K) + 1 < 2 ^ 64
     \<and> (\<forall>x. usable (k_highest K) x \<and> BaseAddress i \<le> x \<and> unat x < unat (BaseAddress i) + unat (RegionSize i)
          \<longrightarrow> windows_taken K x = windows_taken K a)
     \<and> (usable (k_highest K) (BaseAddress i + RegionSize i) \<longrightarrow>
          (windows_taken K a \<or> windows_taken K (BaseAddress i + RegionSize i))
          \<and> (\<exists>j. k_virtual_query K (BaseAddress i + RegionSize i) = Some j \<and> BaseAddress j = BaseAddress i + RegionSize i))))"

interpretation windows: region_query "query_region_on Windows" virtual_query_contract windows_taken k_highest
proof unfold_locales
  fix K a assume *: "virtual_query_contract K" "usable (k_highest K) a"
  then have nz: "a \<noteq> 0" by (auto simp: usable_def minimum_application_address_def)
  obtain i where i: "k_virtual_query K a = Some i"
     "BaseAddress i \<le> a" "unat a < unat (BaseAddress i) + unat (RegionSize i)"
     "unat (BaseAddress i) + unat (RegionSize i) \<le> unat (k_highest K) + 1" "unat (k_highest K) + 1 < 2 ^ 64"
     "\<forall>x. usable (k_highest K) x \<and> BaseAddress i \<le> x \<and> unat x < unat (BaseAddress i) + unat (RegionSize i)
          \<longrightarrow> windows_taken K x = windows_taken K a"
     "usable (k_highest K) (BaseAddress i + RegionSize i) \<Longrightarrow>
          (windows_taken K a \<or> windows_taken K (BaseAddress i + RegionSize i))
          \<and> (\<exists>j. k_virtual_query K (BaseAddress i + RegionSize i) = Some j \<and> BaseAddress j = BaseAddress i + RegionSize i)"
    using * unfolding virtual_query_contract_def by blast
  let ?q = "query_region_on Windows K a"
  have q: "ri_base ?q = BaseAddress i" "ri_size ?q = RegionSize i" "ri_free ?q \<longleftrightarrow> \<not> windows_taken K a"
    by (simp_all add: query_region_on_def windows_region_def nz i(1) windows_taken_def)
  have l: "region_limit ?q = unat (BaseAddress i) + unat (RegionSize i)" by (simp add: region_limit_def q)
  show "ri_base ?q \<le> a \<and> unat a < region_limit ?q \<and> region_limit ?q < 2 ^ 64" unfolding l q using i(2-5) by linarith
  show "x \<le> k_highest K" if "unat x < region_limit ?q" for x
    using that i(4) unfolding l word_le_nat_alt by linarith
  show "ri_free ?q \<longleftrightarrow> \<not> windows_taken K a" by (rule q(3))
  show "windows_taken K x \<longleftrightarrow> windows_taken K a" if "usable (k_highest K) x" "ri_base ?q \<le> x" "unat x < region_limit ?q" for x
    using i(6) that unfolding l q by blast
  assume u: "usable (k_highest K) (ri_base ?q + ri_size ?q)"
  then have e: "BaseAddress i + RegionSize i \<noteq> 0" by (auto simp: usable_def minimum_application_address_def q)
  obtain j where "k_virtual_query K (BaseAddress i + RegionSize i) = Some j" "BaseAddress j = BaseAddress i + RegionSize i"
    using i(7) u unfolding q by blast
  then show "ri_base (query_region_on Windows K (ri_base ?q + ri_size ?q)) = ri_base ?q + ri_size ?q"
    using e unfolding q by (simp add: query_region_on_def windows_region_def)
  show "windows_taken K (ri_base ?q + ri_size ?q)" if "ri_free ?q" using i(7) u that unfolding q by blast
qed

section \<open>Where hooks find memory\<close>

text \<open>What each platform promises of its region queries, and the addresses that are in use.\<close>

definition answers :: "platform \<Rightarrow> kernel \<Rightarrow> bool" where
  "answers pf K = (case pf of Windows \<Rightarrow> virtual_query_contract K | Linux \<Rightarrow> maps_ascend 0 (k_maps K)
     | Android \<Rightarrow> maps_ascend 0 (k_maps K) | _ \<Rightarrow> False)"

definition taken_on :: "platform \<Rightarrow> kernel \<Rightarrow> addr \<Rightarrow> bool" where
  "taken_on pf K a = (case pf of Windows \<Rightarrow> windows_taken K a | _ \<Rightarrow> maps_taken (k_maps K) a)"

definition highest_on :: "platform \<Rightarrow> kernel \<Rightarrow> addr" where
  "highest_on pf K = (case pf of Windows \<Rightarrow> k_highest K | _ \<Rightarrow> user_address_ceiling)"

definition free_block :: "platform \<Rightarrow> kernel \<Rightarrow> nat \<Rightarrow> addr \<Rightarrow> u64 \<Rightarrow> bool" where
  "free_block pf K k p sz \<longleftrightarrow> unat p mod 2 ^ k = 0 \<and> (\<forall>i < unat sz. \<not> taken_on pf K (p + of_nat i))"

lemma query_on_linux:
  "query_region_on Linux K = query_region (k_maps K)" "query_region_on Android K = query_region (k_maps K)"
  by (simp_all add: fun_eq_iff query_region_on_def query_region_def)

lemma answered_walk:
  assumes "answers pf K" and "minimum_application_address \<le> target" and "target < user_address_ceiling" and "k \<le> 16" and "sz \<noteq> 0"
    and "free_block pf K k c sz" and "search_min target \<le> c" and "unat c + unat sz \<le> unat (search_max target)"
    and "unat c + unat sz \<le> unat (highest_on pf K) + 1" and "ri_base (query_region_on pf K (search_min target)) \<noteq> 0"
    and grants: "\<And>h. free_block pf K k h sz \<Longrightarrow> search_min target \<le> h \<Longrightarrow> unat h + unat sz \<le> unat (search_max target) + 1 \<Longrightarrow> allocate h sz \<noteq> 0"
  shows "\<exists>h. free_block pf K k h sz \<and> search_min target \<le> h \<and> unat h + unat sz \<le> unat (search_max target) + 1
     \<and> walk_regions (query_region_on pf K) page (2 ^ k) allocate target sz (search_min target) = Some (allocate h sz)"
proof -
  note c = assms(6) [unfolded free_block_def, THEN conjunct1] assms(6) [unfolded free_block_def, THEN conjunct2]
  have linux: ?thesis if "answers Linux K" "taken_on pf K = maps_taken (k_maps K)" "highest_on pf K = user_address_ceiling"
    "query_region_on pf K = query_region (k_maps K)"
    using linux.walk_finds_free [OF assms(2-5) _ c(1) _ assms(7,8), where K = "k_maps K"] that c(2) assms(9,10) grants
    unfolding answers_def free_block_def by simp
  show ?thesis
  proof (cases pf)
    case Windows
    then have w: "taken_on pf K = windows_taken K" "highest_on pf K = k_highest K" "virtual_query_contract K"
      using assms(1) by (simp_all add: fun_eq_iff taken_on_def highest_on_def answers_def)
    show ?thesis
      using windows.walk_finds_free [OF assms(2-5) w(3) c(1) _ assms(7,8)] c(2) assms(9,10) grants
      unfolding free_block_def w(1,2) unfolding Windows by simp
  qed (use assms(1) linux in \<open>simp_all add: answers_def fun_eq_iff taken_on_def highest_on_def query_on_linux\<close>)
qed

text \<open>A walk that is told of no free region ends without a block.\<close>

lemma never_free_walk:
  assumes k: "k \<le> 16" and f: "\<And>a. \<not> ri_free (query a)"
  shows "walk_regions query (2 ^ k) granularity allocate target sz current = Some 0"
proof (induction "2 ^ 64 - unat current" arbitrary: current rule: less_induct)
  case less
  have IH: "walk_regions query (2 ^ k) granularity allocate target sz next = Some 0" if "current < next" for "next"
    by (rule less) (use that unat_lt64 [of "next"] in \<open>auto simp: word_less_nat_alt\<close>)
  have "current < current + 2 ^ k" if "current < search_max target"
  proof -
    have "search_max target \<le> user_address_ceiling" by (simp add: search_max_def)
    then have "unat current < 140737488355327"
      using that by (simp add: user_address_ceiling_def word_less_nat_alt word_le_nat_alt)
    moreover have "unat (2 ^ k :: u64) = 2 ^ k" using k by (simp add: unat_pow2)
    moreover have "(2 :: nat) ^ k \<le> 65536" using power_increasing [OF k, of "2 :: nat"] by simp
    ultimately show ?thesis by (simp add: word_less_nat_alt unat_word_ariths)
  qed
  then show ?case using IH f by (subst walk_regions.simps) (auto simp: Let_def not_le)
qed

lemma nearby_on_linux:
  "allocate_nearby_on Linux K target sz = allocate_nearby_memory (page_size_on Linux K) (k_maps K) (allocate_rwx Linux K) target sz"
  by (simp add: allocate_nearby_on_def allocate_nearby_memory_def query_on_linux allocation_granularity_on_def walk_regions_maps)

section \<open>A process on every platform\<close>

text \<open>The addresses from 0x8000 to 0x30000000 are mapped, those above are free; macOS reports the mapped
  region for the addresses below it too.\<close>

definition demo_virtual_query :: "addr \<Rightarrow> mbi option" where
  "demo_virtual_query a =
     (if a < 0x30000000 then Some \<lparr>BaseAddress = a AND NOT 0xFFF, RegionSize = 0x30000000 - (a AND NOT 0xFFF), State = 0x1000, Protect = 4\<rparr>
      else if a \<le> 0x7FFFFFFEFFFF then
        Some \<lparr>BaseAddress = a AND NOT 0xFFF, RegionSize = 0x7FFFFFFF0000 - (a AND NOT 0xFFF), State = 0x10000, Protect = 1\<rparr>
      else None)"

definition demo_kernel :: kernel where
  "demo_kernel = \<lparr>k_sysconf_page = 4096, k_dwPageSize = 4096, k_dwAllocationGranularity = 65536, k_thread_id = 7,
     k_virtual_protect = (\<lambda>_ _ _. Some 4), k_mprotect = (\<lambda>_ _ _. True),
     k_virtual_alloc = (\<lambda>h _ _ _. h), k_mmap = (\<lambda>h _ _. Some h), k_virtual_free = (\<lambda>_ m. m), k_munmap = (\<lambda>_ _ m. m),
     k_virtual_query = demo_virtual_query,
     k_mach_vm_region = (\<lambda>a. if a < 0x30000000 then Some \<lparr>region_addr = 0x8000, region_size = 0x2FFF8000, protection = 3\<rparr> else None),
     k_maps = [Some \<lparr>ml_begin = 0x8000, ml_end = 0x30000000, ml_perms = ''rw-p''\<rparr>],
     k_read_memory = load_bytes, k_signal = True, k_highest = 0x7FFFFFFEFFFF\<rparr>"

lemma demo_page: "unat ((a :: addr) AND NOT 0xFFF) \<le> unat a" "unat a < unat (a AND NOT 0xFFF) + 4096"
  "unat (a AND NOT 0xFFF) = unat a div 4096 * 4096"
  using unat_page_floor [of a 12] dividend_less_div_times [of 4096 "unat a"] by simp_all

lemma demo_taken:
  "windows_taken demo_kernel a \<longleftrightarrow> a < 0x30000000 \<or> 0x7FFFFFFEFFFF < a"
  "maps_taken (k_maps demo_kernel) a \<longleftrightarrow> 0x8000 \<le> a \<and> a < 0x30000000"
  by (auto simp: windows_taken_def demo_kernel_def demo_virtual_query_def)

lemma demo_query_contract: "virtual_query_contract demo_kernel"
  unfolding virtual_query_contract_def
proof (intro allI impI)
  fix a assume u: "usable (k_highest demo_kernel) a"
  let ?b = "a AND NOT 0xFFF"
  have hi: "k_highest demo_kernel = 0x7FFFFFFEFFFF" "k_virtual_query demo_kernel = demo_virtual_query" by (simp_all add: demo_kernel_def)
  consider "a < 0x30000000" | "0x30000000 \<le> a" "a \<le> 0x7FFFFFFEFFFF" using u by (fastforce simp: usable_def hi)
  then show "\<exists>i. k_virtual_query demo_kernel a = Some i \<and> BaseAddress i \<le> a \<and> unat a < unat (BaseAddress i) + unat (RegionSize i)
     \<and> unat (BaseAddress i) + unat (RegionSize i) \<le> unat (k_highest demo_kernel) + 1 \<and> unat (k_highest demo_kernel) + 1 < 2 ^ 64
     \<and> (\<forall>x. usable (k_highest demo_kernel) x \<and> BaseAddress i \<le> x \<and> unat x < unat (BaseAddress i) + unat (RegionSize i)
          \<longrightarrow> windows_taken demo_kernel x = windows_taken demo_kernel a)
     \<and> (usable (k_highest demo_kernel) (BaseAddress i + RegionSize i) \<longrightarrow>
          (windows_taken demo_kernel a \<or> windows_taken demo_kernel (BaseAddress i + RegionSize i))
          \<and> (\<exists>j. k_virtual_query demo_kernel (BaseAddress i + RegionSize i) = Some j \<and> BaseAddress j = BaseAddress i + RegionSize i))"
  proof cases
    case 1
    then have "unat ?b + unat (0x30000000 - ?b) = 0x30000000"
      using demo_page(1) [of a] by (simp add: word_less_nat_alt unat_sub word_le_nat_alt)
    then show ?thesis using 1 demo_page(1) [of a]
      by (intro exI [of _ "\<lparr>BaseAddress = ?b, RegionSize = 0x30000000 - ?b, State = 0x1000, Protect = 4\<rparr>"])
        (auto simp: hi demo_taken demo_virtual_query_def word_less_nat_alt word_le_nat_alt)
  next
    case 2
    have "196608 \<le> unat a div 4096" using 2(1) div_le_mono [of "0x30000000" "unat a" 4096] by (simp add: word_le_nat_alt)
    then have b: "0x30000000 \<le> unat ?b" unfolding demo_page(3) by linarith
    have "unat ?b + unat (0x7FFFFFFF0000 - ?b) = 0x7FFFFFFF0000"
      using 2(2) demo_page(1) [of a] by (simp add: word_less_nat_alt unat_sub word_le_nat_alt)
    then show ?thesis using 2 demo_page(1) [of a] b
      by (intro exI [of _ "\<lparr>BaseAddress = ?b, RegionSize = 0x7FFFFFFF0000 - ?b, State = 0x10000, Protect = 1\<rparr>"])
        (auto simp: hi demo_taken demo_virtual_query_def word_less_nat_alt word_le_nat_alt usable_def)
  qed
qed

lemma demo_free: "free_block pf demo_kernel k 0x30000000 0x1000" if "k = 12 \<or> k = 16"
proof -
  have "unat ((0x30000000 :: addr) + of_nat i) = 0x30000000 + i" if "i < 4096" for i
    using that by (simp add: unat_word_ariths unat_of_nat take_bit_nat_eq_self)
  then have "\<not> taken_on pf demo_kernel (0x30000000 + of_nat i)" if "i < 4096" for i
    using that by (cases pf) (simp_all add: taken_on_def demo_taken word_less_nat_alt word_le_nat_alt)
  then show ?thesis using that by (auto simp: free_block_def)
qed

lemma demo_window: "search_min 0x20000000 = 0x10000" "search_max 0x20000000 = 0x9FFFFFFF"
  by (simp_all add: search_min_def search_max_def relative_limit_def minimum_application_address_def user_address_ceiling_def)

section \<open>Properties\<close>



text \<open>On macOS and iOS the allocator near a target never finds memory, whatever the address space looks
  like: their region queries call no region free, so every construction of a hook fails.\<close>

theorem apple_finds_no_block:
  assumes "pf = MacOS \<or> pf = IOS" and "page_size_on pf K = 2 ^ k" and "k \<le> 16"
  shows "allocate_nearby_on pf K target sz = Some 0"
proof -
  have "\<not> ri_free (macos_region K a)" for a
    by (cases "k_mach_vm_region K a") (simp_all add: macos_region_def empty_region_def)
  then have "\<not> ri_free (query_region_on pf K a)" for a
    using assms(1) by (auto simp: query_region_on_def empty_region_def)
  from never_free_walk [OF assms(3) this] show ?thesis by (simp add: allocate_nearby_on_def assms(2))
qed

lemma apple_finds_no_block_witness: "allocate_nearby_on MacOS demo_kernel 0x20000000 0x1000 = Some 0"
  using apple_finds_no_block [of MacOS demo_kernel 12] by (simp add: page_size_on_def demo_kernel_def)

text \<open>Mmap may place a block elsewhere when another thread has taken the hint meanwhile; the allocator
  does not look where the block is and returns it, also when no jump reaches it.\<close>

theorem misplaced_block_is_accepted:
  assumes "maps_ascend 0 (k_maps K)" and "minimum_application_address \<le> target" and "target < user_address_ceiling" and "sz \<noteq> 0"
    and "page_size_on Linux K = 2 ^ k" and "k \<le> 16"
    and "free_block Linux K k c sz" and "search_min target \<le> c" and "unat c + unat sz \<le> unat (search_max target)"
    and "ri_base (query_region (k_maps K) (search_min target)) \<noteq> 0"
    and "\<forall>h. k_mmap K h sz (1 OR 2 OR 4) = Some elsewhere" and "elsewhere \<noteq> 0"
  shows "allocate_nearby_on Linux K target sz = Some elsewhere"
proof -
  have a: "answers Linux K" using assms(1) by (simp add: answers_def)
  have al: "allocate_rwx Linux K h sz = elsewhere" for h using assms(4,11) by (simp add: allocate_rwx_def)
  have mx: "unat c + unat sz \<le> unat (highest_on Linux K) + 1"
    using assms(9) search_window(2) [OF assms(2,3)] by (simp add: highest_on_def user_address_ceiling_def)
  obtain h where "walk_regions (query_region_on Linux K) (2 ^ k) (2 ^ k) (allocate_rwx Linux K) target sz (search_min target)
         = Some (allocate_rwx Linux K h sz)"
    using answered_walk [OF a assms(2,3,6,4,7-9) mx, of "allocate_rwx Linux K" "2 ^ k"] assms(10,12) al unfolding query_on_linux by metis
  moreover have "target \<noteq> 0" using assms(2) by (auto simp: minimum_application_address_def)
  ultimately show ?thesis using assms(4,5) al by (simp add: allocate_nearby_on_def allocation_granularity_on_def)
qed

lemma misplaced_block_is_accepted_witness:
  "allocate_nearby_on Linux (demo_kernel\<lparr>k_mmap := \<lambda>_ _ _. Some 0x700000000000\<rparr>) 0x20000000 0x1000 = Some 0x700000000000"
proof -
  let ?K = "demo_kernel\<lparr>k_mmap := \<lambda>_ _ _. Some 0x700000000000\<rparr>"
  have m: "k_maps ?K = k_maps demo_kernel" "k_sysconf_page ?K = 4096" by (simp_all add: demo_kernel_def)
  have "free_block Linux ?K 12 0x30000000 0x1000"
    using demo_free [of 12 Linux] unfolding free_block_def taken_on_def m by simp
  moreover have "query_region (k_maps demo_kernel) 0x10000 = query_maps (k_maps demo_kernel) 0x10000 0" by (simp add: query_region_def)
  ultimately show ?thesis
    using misplaced_block_is_accepted [of ?K "0x20000000" "0x1000" 12 "0x30000000" "0x700000000000"]
    unfolding page_size_on_def demo_window m
    by (simp add: demo_kernel_def minimum_application_address_def user_address_ceiling_def empty_region_def)
qed

text \<open>On macOS mach_vm_region reports the next region for an address in a hole, and \<open>is_readable_pointer\<close>
  takes its answer for the address.\<close>

theorem hole_below_region_is_readable:
  assumes "k_mach_vm_region K p = Some i" and "protection i AND 1 \<noteq> 0" and "p < region_addr i"
    and "user_address_floor < p" and "p < user_address_ceiling" and "p AND 7 = 0"
  shows "is_readable_pointer_on MacOS K p"
  using assms
  by (auto simp: is_readable_pointer_on_def query_region_on_def macos_region_def empty_region_def not_le)

lemma hole_below_region_is_readable_witness: "is_readable_pointer_on MacOS (demo_kernel
    \<lparr>k_mach_vm_region := \<lambda>_. Some \<lparr>region_addr = 0x30000000, region_size = 0x1000, protection = 1\<rparr>\<rparr>) 0x20000000"
  using hole_below_region_is_readable [where p = "0x20000000" and K = "demo_kernel
    \<lparr>k_mach_vm_region := \<lambda>_. Some \<lparr>region_addr = 0x30000000, region_size = 0x1000, protection = 1\<rparr>\<rparr>"]
  by (simp add: user_address_floor_def user_address_ceiling_def)

end
