(* ===== verification/Return_Path.thy ===== *)
theory Return_Path
  imports Frames Trampoline_Runs
begin

text \<open>
  From the user's \<open>return_value::set\<close> to the Java caller. \<open>Frames\<close> says what the member functions of
  \<open>return_value\<close> make of the \<open>return_slot\<close>, \<open>Trampoline_Runs\<close> what the trampoline makes of the two stack
  cells that hold it; here they meet.
\<close>

text \<open>The two cells as the struct that the detour sees: the flag is the first byte, the value the second
  word.\<close>

definition slot_at :: "mem \<Rightarrow> addr \<Rightarrow> return_slot \<Rightarrow> bool" where
  "slot_at m a r \<longleftrightarrow> (\<exists>flag. m a = Some flag \<and> (flag \<noteq> 0 \<longleftrightarrow> rs_cancel r)) \<and> load64 m (a + 8) = Some (rs_retval r)"

text \<open>The trampoline hands over an empty slot.\<close>

lemma fresh_slot:
  assumes "entered saved fr th sl space detour ret s e"
  shows "slot_at (cmem e) (regs e sl) \<lparr>rs_cancel = False, rs_retval = 0\<rparr> \<or> sl \<in> {RBP, RSP}"
  using assms zero_cell [of "cmem e" "slot_addr saved s"] by (auto simp: entered_def slot_at_def)

text \<open>What a narrower value leaves in the 64-bit cell.\<close>

lemma set_value_reads_back:
  fixes v :: "'a::len word"
  assumes "LENGTH('a) \<le> 64" and "r = rv_set_signed v slot \<or> r = rv_set_bytes v slot"
  shows "rs_cancel r" and "ucast (rs_retval r) = v" and "r = rv_set_signed v slot \<Longrightarrow> sint (rs_retval r) = sint v"
proof -
  have "bit (ucast (scast v :: u64) :: 'a word) n = bit v n" if "n < LENGTH('a)" for n
    using that assms(1) by (cases "n = LENGTH('a) - 1") (auto simp: bit_simps)
  then have "ucast (scast v :: u64) = v" by (rule bit_word_eqI)
  moreover have "ucast (ucast v :: u64) = v"
    using assms(1) by (auto intro!: bit_word_eqI simp: bit_simps)
  ultimately show "rs_cancel r" "ucast (rs_retval r) = v" using assms(2) by (auto simp: rv_set_signed_def rv_set_bytes_def)
  have p: "(2 :: int) ^ (LENGTH('a) - Suc 0) \<le> 2 ^ 63" using assms(1) by (intro power_increasing) simp_all
  have "- (2 ^ 63) \<le> sint v" using sint_greater_eq [of v] p by linarith
  moreover have "sint v < 2 ^ 63" using sint_less [of v] p by linarith
  ultimately have "sint (scast v :: u64) = sint v" by (simp add: signed_scast_eq signed_take_bit_int_eq_self_iff)
  then show "sint (rs_retval r) = sint v" if "r = rv_set_signed v slot" using that by (simp add: rv_set_signed_def)
qed

section \<open>Property\<close>

text \<open>C3. \<open>return_value::set\<close> reaches the Java caller: when the detour has set a value of at most 64 bits,
  the trampoline leaves the interpreted frame to the return address above the frame pointer, with the
  caller's frame pointer and the sender's stack pointer, and with the value in RAX and in XMM0; a signed
  integer that is narrower than the register arrives as the same number.\<close>

theorem set_value_reaches_the_caller:
  fixes v :: "'a::len word"
  assumes "match_pattern m a pattern_fallback = Some True" and "load_bytes m a HOOK_SIZE = Some saved"
    and "in_place (cmem s) h saved detour" and "ip s = mh_target h" and "room_to_run h saved s"
    and "run 20 s = Some e" and "sysv_returns h s e t"
    and "slot_at (cmem t) (return_slot_of s) r" and "r = rv_set_signed v slot \<or> r = rv_set_bytes v slot" and "LENGTH('a) \<le> 64"
    and "load64 (cmem t) (regs s RBP - 8) = Some sender_sp" and "load64 (cmem t) (regs s RBP) = Some caller_fp"
    and "load64 (cmem t) (regs s RBP + 8) = Some return_pc"
  shows "\<exists>u. run 22 t = Some u \<and> ip u = return_pc \<and> regs u RSP = sender_sp \<and> regs u RBP = caller_fp
     \<and> ucast (regs u RAX) = v \<and> ucast (xmm u 0) = v \<and> (r = rv_set_signed v slot \<longrightarrow> sint (regs u RAX) = sint v)
     \<and> cmem u = cmem t \<and> (\<forall>q. q \<notin> {RAX, RBX, RSI, RBP, RSP} \<longrightarrow> regs u q = regs s q)"
proof -
  note v = set_value_reads_back [OF assms(10,9)]
  obtain flag where f: "cmem t (return_slot_of s) = Some flag" "flag \<noteq> 0" "load64 (cmem t) (return_slot_of s + 8) = Some (rs_retval r)"
    using assms(8) v(1) by (auto simp: slot_at_def)
  obtain u where u: "run 22 t = Some u" "ip u = return_pc" "regs u RSP = sender_sp" "regs u RBP = caller_fp"
    "regs u RAX = rs_retval r" "xmm u 0 = ucast (rs_retval r)" "cmem u = cmem t"
    "\<forall>q. q \<notin> {RAX, RBX, RSI, RBP, RSP} \<longrightarrow> regs u q = regs s q"
    using cancelled_hook_leaves_the_frame [OF assms(1-7) f assms(11-13)] by blast
  have "ucast (xmm u 0) = (ucast (rs_retval r) :: 'a word)"
    using assms(10) by (auto intro!: bit_word_eqI simp: u(6) bit_simps)
  with u v show ?thesis by auto
qed

lemma set_value_reaches_the_caller_witness:
  "\<exists>e u. run 20 (stub_cpu stub_hooked) = Some e \<and> run 22 (cancelling_return e) = Some u
     \<and> ucast (regs u RAX) = (42 :: 32 word) \<and> sint (regs u RAX) = 42"
proof -
  let ?s = "stub_cpu stub_hooked" and ?r = "rv_set_signed (42 :: 32 word) \<lparr>rs_cancel = False, rs_retval = 0\<rparr>"
  obtain e where e: "run 20 ?s = Some e"
    "entered sysv_saved RDI RSI RDX 0 0x500000 0x401030 (displaced_done stub_hook stub_bytes ?s) e"
    by (rule stub_entered)
  note c = stub_cancels [OF e(2)]
  have r: "return_slot_of ?s = 0x7FFFA0" "regs ?s RBP = 0x800100" by (simp_all add: return_slot_of_def stub_slot) (simp add: stub_cpu_def)
  have f: "slot_at (cmem (cancelling_return e)) (return_slot_of ?s) ?r"
    using c(2,3) r(1) by (simp add: slot_at_def rv_set_signed_def)
  obtain sp fp pc where "load64 (cmem (cancelling_return e)) (regs ?s RBP - 8) = Some sp"
    "load64 (cmem (cancelling_return e)) (regs ?s RBP) = Some fp" "load64 (cmem (cancelling_return e)) (regs ?s RBP + 8) = Some pc"
    using c(4) [of "0x8000F8"] c(4) [of "0x800100"] c(4) [of "0x800108"] r by auto
  from set_value_reaches_the_caller [OF stub_match stub_load stub_start(2) stub_start(1) stub_runs e(1) c(1) f _ _ this,
      where v = "42 :: 32 word" and slot = "\<lparr>rs_cancel = False, rs_retval = 0\<rparr>"] e(1)
  show ?thesis by auto
qed

end
