(* ===== verification/Spec2Isabelle.thy ===== *)
theory Spec2Isabelle
  imports Os_Layer Vm_Structs Compressed_Oops Metadata Code_Scan Trampoline Klass_Graph
    Klass_Fields Hook_Registry Java_Threads Java_Heap Java_Strings Field_Proxy
    Jni_Bridge Frames Method_Proxy Object_Base Collections Object_Creation Global_Refs
    Auto_Repair Hook_Lifecycle Data_Breakpoints Watchers Lock_Order Injector
    Simulation Registry_Spec Hook_Path Probe_Signals Vm_Tables Page_Permissions Dispatch_Races
    Machine_Code Trampoline_Exec Trampoline_Runs Machine_Path Os_Platforms Return_Path
begin

text \<open>
  A model of vmhook, the single-header library \<open>src/vmhook/ext/vmhook/vmhook.hpp\<close>, and of the injector
  \<open>src/injector/src/main.cpp\<close> that loads a library into a Java process. Line numbers in this
  development refer to the header unless another file is named.

  The program. A native library that is injected into a running HotSpot JVM reads the metadata tables
  that the JVM exports for debuggers, finds classes, methods and fields by walking the JVM's own data
  structures through raw pointers, patches the interpreter so that chosen Java methods enter a native
  detour, and reads, writes, creates and calls Java objects from there. The parts rest on one another
  in the order of the theories:

  Process and tables.
  \<^item> \<open>VM_Prelude\<close>: machine integers, the memory of the process (a partial map from addresses to
    bytes; a dereference outside it is \<open>None\<close>), little-endian loads and stores with the rules
    \<open>mem_simps\<close> that carry most proofs, and fully mapped memories for concrete runs.
  \<^item> \<open>Os_Layer\<close>: \<open>vmhook::os\<close> - address limits, page protection, regions from /proc/self/maps,
    reads that cannot fault, the encoding of the debug control register. These are the Linux branches,
    on which the other theories build.
  \<^item> \<open>Os_Platforms\<close>: the same functions with their branches for Windows, macOS, iOS, Linux and Android,
    and the allocation near a target on each of them.
  \<^item> \<open>Vm_Structs\<close>: the tables gHotSpotVMTypes and gHotSpotVMStructs (record \<open>jvm\<close>) and the pointer
    predicates every later part guards its dereferences with.
  \<^item> \<open>Vm_Tables\<close>: where the tables come from - the JVM's library, its two symbols and the arrays in
    memory, whose loops find what the searches of the lists find.
  \<^item> \<open>Probe_Signals\<close>: how \<open>safe_read\<close> survives a bad pointer on Linux, and what its handlers cost.
  \<^item> \<open>Compressed_Oops\<close>: the four conversions of compressed object and class pointers.
  \<^item> \<open>Metadata\<close>: \<open>symbol\<close>, \<open>constant_pool\<close>, \<open>const_method\<close>, \<open>method\<close> and the recovery of
    adapters.

  Code.
  \<^item> \<open>Code_Scan\<close>: pattern search in the interpreter's stubs and \<open>allocate_nearby_memory\<close>.
  \<^item> \<open>Trampoline\<close>: the code patcher \<open>midi2i_hook\<close> - constructor, destructor, \<open>verify_and_repair\<close>.
    A small decoder of near jumps says what the processor does at the patched bytes.
  \<^item> \<open>Page_Permissions\<close>: the same functions with the permissions of the pages they write to.
  \<^item> \<open>Machine_Code\<close>: the x86-64 instructions that the patcher emits - a decoder and a step function on
    registers, stack and memory.
  \<^item> \<open>Trampoline_Exec\<close> and \<open>Trampoline_Runs\<close>: the trampoline run instruction by instruction, up to the
    call of the detour and back behind it, for the System V and the Windows branch of the constructor.

  Classes, fields, threads, objects.
  \<^item> \<open>Klass_Graph\<close>: \<open>klass\<close>, the class loader data graph and the cached \<open>find_class\<close>.
  \<^item> \<open>Klass_Fields\<close>: UNSIGNED5, both field tables, the cached \<open>find_field\<close>, raw field access.
  \<^item> \<open>Java_Threads\<close>: \<open>java_thread\<close>, finding and attaching the current thread, TLAB allocation.
  \<^item> \<open>Java_Heap\<close>: objects, arrays and the heap scan \<open>for_each_instance\<close> over the record \<open>heap\<close>
    (memory, thread globals, the two caches).
  \<^item> \<open>Java_Strings\<close>: UTF-8, UTF-16 and Java strings in both layouts.
  \<^item> \<open>Field_Proxy\<close>: typed reads and writes of a field and the variant \<open>value_t\<close>.

  Hooks.
  \<^item> \<open>Hook_Registry\<close>: the globals of the hook system (record \<open>vmhook\<close>) and its operations \<open>hook\<close>,
    \<open>common_detour\<close>, \<open>verify_hooks\<close>, \<open>shutdown_hooks\<close>, \<open>hook_handle::stop\<close>,
    \<open>deoptimize_methods_if\<close>. It uses \<open>Trampoline\<close> for the patches, \<open>Klass_Graph\<close> for the class,
    \<open>Metadata\<close> for the flags and entry points, \<open>Java_Threads\<close> for the state of the thread.
  \<^item> \<open>Hook_Lifecycle\<close>: the handles \<open>hook_handle\<close> and \<open>scoped_hook\<close>, and one hook from its
    installation to its stop.
  \<^item> \<open>Registry_Spec\<close> over \<open>Simulation\<close>: the table of hooks that the registry promises, and the
    proof that every run of the registry's operations and of hooked calls is a run of that table.
  \<^item> \<open>Hook_Path\<close>: the whole path of a hook, from the patched stub over the trampoline to the detour.
  \<^item> \<open>Machine_Path\<close>: the same path on the processor of \<open>Machine_Code\<close>, down to the argument registers
    with which \<open>common_detour\<close> is entered.
  \<^item> \<open>Return_Path\<close>: the way back, from \<open>return_value::set\<close> in the detour to the registers of the Java
    caller.
  \<^item> \<open>Frames\<close>: what a detour sees of the interpreted frame - return slot, arguments, stack trace.

  Calling Java.
  \<^item> \<open>Jni_Bridge\<close>: calls through the JNI function table, class lookup through loaders, handles.
  \<^item> \<open>Method_Proxy\<close>: overload resolution, \<open>call_jni\<close> and the call through HotSpot's call stub.
  \<^item> \<open>Object_Base\<close>, \<open>Collections\<close>, \<open>Object_Creation\<close>, \<open>Global_Refs\<close>: the wrappers of Java objects,
    the walks over Java collections, creation of objects, and ownership of global references.

  Events and concurrency.
  \<^item> \<open>Data_Breakpoints\<close>: \<open>watch_handle\<close> and the four slots of the debug registers.
  \<^item> \<open>Watchers\<close>: \<open>on_class_loaded\<close> and \<open>on_exception\<close>, hooks that keep a list of callbacks.
  \<^item> \<open>Auto_Repair\<close>: the watchdog thread and its flags, over all interleavings of its atomic steps.
  \<^item> \<open>Dispatch_Races\<close>: \<open>common_detour\<close>, which reads the vector of hooks without the mutex, against the
    operations that change the vector; the documented contract, and runs outside it.
  \<^item> \<open>Lock_Order\<close>: the mutexes and the order in which the operations take them.
  \<^item> \<open>Injector\<close>: the program that chooses the process and injects the library.

  How code becomes definitions. A member function takes its object as the argument \<open>this\<close>; a null
  pointer is the address 0. A function that dereferences a raw pointer returns an option: \<open>None\<close> is
  the access fault, and in the partial functions also a loop that does not end. An exception is the
  value that the nearest catch block returns, with the state reached so far; the one exception that
  leaves a function (\<open>klass::get_next_link\<close>) is the left side of a sum. Globals are records that are
  passed and returned. Every integer has the width of its C++ type and wraps as it does. A C++ type
  that a template is instantiated with is its size and a word type; a registered wrapper type, a
  detour or a callback is a number. Floating-point values are bit patterns.

  What the lemmas show, by groups.
  \<^item> Trampoline: after the constructor the processor runs the detour stub and comes back to the
    saved bytes; the destructor restores the target; repair reaches a state that the next repair
    leaves alone; each store of the patcher goes to a page that is writable at that moment; a chained
    second installation enters an address that was never written.
  \<^item> Platforms: where region queries describe the address space (Windows, Linux, Android), the
    allocation near a target finds memory whenever the search window holds some; on macOS and iOS it
    never does.
  \<^item> Machine code: running the patched jump, the moved instruction and the stub calls the detour on an
    aligned stack with frame, thread and return slot as arguments; a detour that does not cancel is
    invisible to the interpreter (same registers, the memory as the detour left it), one that
    sets a return value leaves the frame with that value in RAX and XMM0; the registry finds the
    installed detour for the registers that the stub hands over.
  \<^item> Registry: the registry stays well-formed under every operation in every order; an installed
    hook is called until it is stopped and never after; deoptimised methods run interpreted; the
    registry refines the table of hooks, and only detours that were asked for ever run.
  \<^item> Lookup: the arrays of the JVM are searched as the lists are; the cached lookups return what the
    uncached walk finds; the bounded enumeration and the unbounded search agree; the field stream that
    an encoder writes is read back.
  \<^item> Objects: TLAB allocations are disjoint, array elements are an indexed store, the heap scan reports
    the instances in reach, strings read back, typed writes respect the width of a descriptor.
  \<^item> Calls: slots and descriptors agree with those of the JVM, overload resolution is exact, no path of
    the loader lookup or of object creation leaks a local reference, each global reference has one
    owner.
  \<^item> Concurrency and events: no detour is lost under the documented contract; debug registers and
    handles agree at every step, every callback of a watcher is called, at most one watchdog runs when
    shutdowns and installations do not overlap, every operation can complete as long as hooks are
    installed in one of the two lock orders.

  Contracts as locales, each interpreted on the functions of the code: \<open>narrow_codec\<close>
  (\<open>Compressed_Oops\<close>: decoding inverts encoding), \<open>bump_allocator\<close> (\<open>Java_Threads\<close>: blocks within the
  buffer, disjoint), \<open>indexed_store\<close> (\<open>Java_Heap\<close>: reads after writes, for elements of 1, 2, 4 and 8
  bytes), \<open>node_reader\<close> (\<open>Collections\<close>: walks over nodes with one or two references), \<open>lock_order\<close>
  (\<open>Lock_Order\<close>: ordered locking completes), \<open>simulation\<close> (\<open>Simulation\<close>: a detailed step relation
  refines an abstract one), \<open>calling_convention\<close> (\<open>Trampoline_Exec\<close>: what the stub needs of a
  convention, interpreted on the registers and argument moves of both branches), \<open>region_query\<close>
  (\<open>Os_Platforms\<close>: what a walk over the address space needs of region queries, interpreted on the
  branches for Linux and for Windows).

  Bounds and loops. These bounds are the code's own: 1048576 dictionary entries and 65536 links of
  the class graph, 256 threads of a list, 64 attempts to find an attached thread, 4096 list
  nodes, 2 ^ 20 nodes of a hash bucket, 2 ^ 24 tree entries, 4096 characters of a string, heap chunks
  of 4096 bytes, 0xFFFF locals, 64 frames of a stack trace, 8 typed arguments, 2000 spins of a
  shutdown, 4 debug slots, 260 units of a path. Where the code counts, the model counts the same
  steps, so its recursion needs no extra fuel. A loop the code does not bound is a
  \<open>partial_function (option)\<close>: \<open>nearby_walk\<close>, \<open>find_in_chain\<close>, \<open>find_in_klasses\<close>, \<open>find_in_clds\<close>,
  \<open>find_in_supers\<close>, \<open>match_in_supers\<close>, \<open>find_method_in_supers\<close>, \<open>find_exact_in_supers\<close>, \<open>scan_heap\<close>,
  \<open>walk_regions\<close>, \<open>descend_left\<close>, \<open>tree_walk\<close>, \<open>read_c_str\<close>, \<open>type_loop\<close>, \<open>struct_loop\<close>;
  \<open>raise_fault\<close> repeats a faulting instruction as the kernel does. That such a loop returns is proved,
  not assumed, for the memories the theorems are about (acyclic chains, finite regions). The machine
  counts instructions:
  a hooked stub takes 20 of them to the detour (2 for the jump and the moved instruction, 18 in the
  stub), then 15 to resume or 22 to cancel; the Windows stub 17, 13 and 20. The stub and its detour
  have a stack window of 256 bytes below the interpreter's stack pointer (\<open>stack_window\<close>), of which the
  stub itself uses at most 144.

  Parameters. Code outside the repository is an argument: system calls (\<open>os_env\<close>, \<open>kernel\<close>, the
  lines of /proc/self/maps, the thread contexts of \<open>Data_Breakpoints\<close>, \<open>win32\<close>), the JVM's functions
  (\<open>jni_env\<close>, the invocation interface of \<open>Java_Threads\<close>, the call stub), the user's detours and
  callbacks, and the choices of the C++ allocator. Their documented behaviour appears as named
  hypotheses, each with a witness over a concrete instance.

  Not modelled. Flags other than ZF, the upper lanes of vector registers and the instruction caches of
  the processor, which the emitted code does not read; threads that run inside a stub while its bytes are replaced (the
  code does not suspend them either); conversions between integers and floating-point numbers; logging
  and its formatting; weak-memory effects below the atomic steps of \<open>Auto_Repair\<close>; the test library
  \<open>src/vmhook/src/example.cpp\<close> and the timing program \<open>src/vmhook/src/speedtest.cpp\<close>, which only
  call the header inside a live JVM and print.
\<close>

end
